(* ===== verification/Prelude.thy ===== *)
theory Prelude
  imports Main "HOL-Library.Word" "HOL-Library.Monad_Syntax"
begin

section \<open>Shared vocabulary of the model\<close>

text \<open>
  The types, the outcome monad and the byte-level lemmas that every component theory uses.

  \<^item> Rust's fixed-width integers are words: \<open>u8\<close> is \<^typ>\<open>8 word\<close>, and so on. A signed type
    has the same words, read with \<^const>\<open>sint\<close>. \<open>usize\<close> values are indexes and lengths and are
    natural numbers: an index computation that leaves the 64-bit range is far beyond the end of
    any slice, and the model's slice operations yield \<open>Panic\<close> there, as the code does.
  \<^item> A Rust \<open>String\<close> is the list of its UTF-8 code units (HOL's \<^typ>\<open>char\<close> is one byte).
  \<^item> A call returns, fails with an error value, or panics (index out of range, slice out of range,
    overflow under the dev profile that \<open>cargo run\<close> uses): \<open>result\<close>.
\<close>

named_theorems compute
  \<comment> \<open>evaluates the byte-level functions on concrete arguments\<close>

type_synonym u8 = "8 word"
type_synonym u16 = "16 word"
type_synonym u32 = "32 word"
type_synonym i32 = "32 word"
type_synonym u64 = "64 word"
type_synonym i64 = "64 word"
type_synonym u128 = "128 word"
type_synonym bytes = "u8 list"
type_synonym hash32 = "u8 list"

subsection \<open>Outcomes of a call\<close>

datatype ('a, 'e) result = Ok 'a | Err 'e | Panic

text \<open>The \<open>?\<close> operator: go on with the value, or return the error (or unwind) at once.\<close>

fun and_then :: "('a, 'e) result \<Rightarrow> ('a \<Rightarrow> ('b, 'e) result) \<Rightarrow> ('b, 'e) result" where
  "and_then (Ok x) f = f x"
| "and_then (Err e) f = Err e"
| "and_then Panic f = Panic"

fun map_err :: "('e \<Rightarrow> 'f) \<Rightarrow> ('a, 'e) result \<Rightarrow> ('a, 'f) result" where
  "map_err g (Ok x) = Ok x"
| "map_err g (Err e) = Err (g e)"
| "map_err g Panic = Panic"

lemma and_then_cong [fundef_cong]:
  "m = m' \<Longrightarrow> (\<And>x. m' = Ok x \<Longrightarrow> f x = f' x) \<Longrightarrow> and_then m f = and_then m' f'"
  by (cases m') auto

lemma and_then_eq_Ok: "and_then m f = Ok y \<longleftrightarrow> (\<exists>x. m = Ok x \<and> f x = Ok y)"
  by (cases m) auto

lemma and_then_eq_Err:
  "and_then m f = Err e \<longleftrightarrow> m = Err e \<or> (\<exists>x. m = Ok x \<and> f x = Err e)"
  by (cases m) auto

lemma and_then_eq_Panic:
  "and_then m f = Panic \<longleftrightarrow> m = Panic \<or> (\<exists>x. m = Ok x \<and> f x = Panic)"
  by (cases m) auto

lemma and_then_assoc: "and_then (and_then m f) g = and_then m (\<lambda>x. and_then (f x) g)"
  by (cases m) auto

lemma map_err_eq_Ok [simp]: "map_err g m = Ok x \<longleftrightarrow> m = Ok x"
  by (cases m) auto

lemma map_err_eq_Panic [simp]: "map_err g m = Panic \<longleftrightarrow> m = Panic"
  by (cases m) auto

lemma map_err_eq_Err: "map_err g m = Err e \<longleftrightarrow> (\<exists>e'. m = Err e' \<and> e = g e')"
  by (cases m) auto

lemmas result_iffs = and_then_eq_Ok and_then_eq_Err and_then_eq_Panic map_err_eq_Err

subsection \<open>Text of numbers\<close>

text \<open>\<open>format!("{}", n)\<close>\<close>

fun show_nat :: "nat \<Rightarrow> string" where
  "show_nat n =
     (if n < 10 then [char_of (48 + n)] else show_nat (n div 10) @ [char_of (48 + n mod 10)])"

declare show_nat.simps [simp del]

definition show_int :: "int \<Rightarrow> string" where
  "show_int z = (if z < 0 then CHR ''-'' # show_nat (nat (- z)) else show_nat (nat z))"

subsection \<open>Indexing and slicing\<close>

definition index_at :: "'a list \<Rightarrow> nat \<Rightarrow> ('a, 'e) result" where
  "index_at xs i = (if i < length xs then Ok (xs ! i) else Panic)"

text \<open>\<open>&xs[a..b]\<close>: panics when \<open>a > b\<close> or \<open>b > xs.len()\<close>.\<close>

definition slice :: "'a list \<Rightarrow> nat \<Rightarrow> nat \<Rightarrow> ('a list, 'e) result" where
  "slice xs a b = (if a \<le> b \<and> b \<le> length xs then Ok (take (b - a) (drop a xs)) else Panic)"

text \<open>\<open>a - b\<close> on \<open>usize\<close>: panics below zero.\<close>

definition usize_sub :: "nat \<Rightarrow> nat \<Rightarrow> (nat, 'e) result" where
  "usize_sub a b = (if b \<le> a then Ok (a - b) else Panic)"

lemma index_at_eq_Ok: "index_at xs i = Ok x \<longleftrightarrow> i < length xs \<and> x = xs ! i"
  by (auto simp: index_at_def)

lemma slice_eq_Ok:
  "slice xs a b = Ok ys \<longleftrightarrow> a \<le> b \<and> b \<le> length xs \<and> ys = take (b - a) (drop a xs)"
  by (auto simp: slice_def)

lemma slice_never_Err [simp]: "slice xs a b \<noteq> Err e"
  by (simp add: slice_def)

lemma index_at_never_Err [simp]: "index_at xs i \<noteq> Err e"
  by (simp add: index_at_def)

lemma slice_append_exact:
  "length pre = a \<Longrightarrow> length ys = n \<Longrightarrow> slice (pre @ ys @ post) a (a + n) = Ok ys"
  by (simp add: slice_def)

lemma index_at_append: "index_at (pre @ y # post) (length pre) = Ok y"
  by (simp add: index_at_def nth_append)

lemma usize_sub_eq_Ok: "usize_sub a b = Ok c \<longleftrightarrow> b \<le> a \<and> c = a - b"
  by (auto simp: usize_sub_def)

lemma usize_sub_ge [simp]: "usize_sub (a + b) a = Ok b"
  by (simp add: usize_sub_def)

lemmas access_iffs = index_at_eq_Ok slice_eq_Ok usize_sub_eq_Ok

text \<open>\<open>xs.copy_from_slice(ys)\<close> into an array of \<open>n\<close> elements: panics when the lengths differ.\<close>

definition copy_exact :: "nat \<Rightarrow> 'a list \<Rightarrow> ('a list, 'e) result" where
  "copy_exact n ys = (if length ys = n then Ok ys else Panic)"

lemma copy_exact_eq_Ok: "copy_exact n ys = Ok zs \<longleftrightarrow> length ys = n \<and> zs = ys"
  by (auto simp: copy_exact_def)

subsection \<open>Loops\<close>

text \<open>
  \<open>for x in xs { v.push(f(x)?); }\<close> and \<open>for x in xs { state = f(x, state)?; }\<close>: both stop at the
  first call that does not return \<open>Ok\<close>.
\<close>

fun traverse :: "('a \<Rightarrow> ('b, 'e) result) \<Rightarrow> 'a list \<Rightarrow> ('b list, 'e) result" where
  "traverse f [] = Ok []"
| "traverse f (x # xs) = and_then (f x) (\<lambda>y. and_then (traverse f xs) (\<lambda>ys. Ok (y # ys)))"

fun fold_result :: "('a \<Rightarrow> 's \<Rightarrow> ('s, 'e) result) \<Rightarrow> 'a list \<Rightarrow> 's \<Rightarrow> ('s, 'e) result" where
  "fold_result f [] s = Ok s"
| "fold_result f (x # xs) s = and_then (f x s) (fold_result f xs)"

text \<open>Keeping what was found: \<open>match x { Some(v) => vec.push(v), None => continue }\<close>.\<close>

fun somes :: "'a option list \<Rightarrow> 'a list" where
  "somes [] = []"
| "somes (None # xs) = somes xs"
| "somes (Some x # xs) = x # somes xs"

lemma somes_append [simp]: "somes (xs @ ys) = somes xs @ somes ys"
  by (induction xs rule: somes.induct) auto

lemma traverse_cong [fundef_cong]:
  "xs = ys \<Longrightarrow> (\<And>x. x \<in> set ys \<Longrightarrow> f x = g x) \<Longrightarrow> traverse f xs = traverse g ys"
  by (induction ys arbitrary: xs) (auto intro: and_then_cong)

lemma traverse_Ok_iff: "traverse f xs = Ok ys \<longleftrightarrow> list_all2 (\<lambda>x y. f x = Ok y) xs ys"
  by (induction xs arbitrary: ys) (auto simp: and_then_eq_Ok list_all2_Cons1)

lemma traverse_all_Ok: "(\<And>x. x \<in> set xs \<Longrightarrow> f x = Ok (g x)) \<Longrightarrow> traverse f xs = Ok (map g xs)"
  by (induction xs) auto

lemma traverse_length: "traverse f xs = Ok ys \<Longrightarrow> length ys = length xs"
  by (auto simp: traverse_Ok_iff list_all2_lengthD)

lemma fold_result_append:
  "fold_result f (xs @ ys) s = and_then (fold_result f xs s) (fold_result f ys)"
  by (induction xs arbitrary: s) (auto simp: and_then_assoc intro: and_then_cong)

lemma fold_result_all_Ok:
  "(\<And>x s. x \<in> set xs \<Longrightarrow> f x s = Ok (g x s)) \<Longrightarrow> fold_result f xs s = Ok (fold g xs s)"
  by (induction xs arbitrary: s) auto

lemma fold_result_invariant:
  assumes "fold_result f xs s = Ok s'" and "I s"
    and "\<And>x s s'. x \<in> set xs \<Longrightarrow> I s \<Longrightarrow> f x s = Ok s' \<Longrightarrow> I s'"
  shows "I s'"
  using assms by (induction xs arbitrary: s) (auto simp: and_then_eq_Ok)

subsection \<open>Bytes at an offset\<close>

text \<open>
  \<open>occurs_at bs off ys\<close>: the bytes \<open>ys\<close> stand in \<open>bs\<close> at offset \<open>off\<close>. The readers are
  characterised by it: what stands at an offset splits along the concatenation of what was
  written there, and every slice or index operation of the code is such a statement.
\<close>

definition occurs_at :: "'a list \<Rightarrow> nat \<Rightarrow> 'a list \<Rightarrow> bool" where
  "occurs_at bs off ys \<longleftrightarrow> off \<le> length bs \<and> take (length ys) (drop off bs) = ys"

lemma occurs_at_Nil [simp]: "occurs_at bs off [] \<longleftrightarrow> off \<le> length bs"
  by (simp add: occurs_at_def)

lemma occurs_at_bound: "occurs_at bs off ys \<Longrightarrow> off + length ys \<le> length bs"
  unfolding occurs_at_def by (metis add.commute le_diff_conv2 length_drop length_take min.bounded_iff order_refl)

lemma occurs_at_iff_split:
  "occurs_at bs off ys \<longleftrightarrow> (\<exists>pre post. bs = pre @ ys @ post \<and> off = length pre)"
proof
  assume a: "occurs_at bs off ys"
  then have "drop off bs = ys @ drop (length ys) (drop off bs)"
    unfolding occurs_at_def by (metis append_take_drop_id)
  then have "bs = take off bs @ ys @ drop (length ys) (drop off bs)"
    by (metis append_take_drop_id)
  with a show "\<exists>pre post. bs = pre @ ys @ post \<and> off = length pre"
    unfolding occurs_at_def by (metis length_take min.absorb2)
qed (auto simp: occurs_at_def)

lemma occurs_at_append:
  "occurs_at bs off (xs @ ys) \<longleftrightarrow> occurs_at bs off xs \<and> occurs_at bs (off + length xs) ys"
proof
  assume "occurs_at bs off (xs @ ys)"
  then obtain pre post where "bs = pre @ xs @ ys @ post" and "off = length pre"
    by (auto simp: occurs_at_iff_split)
  then show "occurs_at bs off xs \<and> occurs_at bs (off + length xs) ys"
    by (auto simp: occurs_at_def)
next
  assume a: "occurs_at bs off xs \<and> occurs_at bs (off + length xs) ys"
  then obtain pre post where b: "bs = pre @ xs @ post" and o: "off = length pre"
    by (auto simp: occurs_at_iff_split)
  with a obtain pre' post' where "bs = pre' @ ys @ post'" and "length (pre @ xs) = length pre'"
    by (auto simp: occurs_at_iff_split)
  with b have "bs = pre @ (xs @ ys) @ post'"
    by (metis append.assoc append_eq_append_conv)
  with o show "occurs_at bs off (xs @ ys)"
    by (auto simp: occurs_at_iff_split)
qed

lemma occurs_at_here [simp]: "occurs_at (pre @ ys @ post) (length pre) ys"
  by (auto simp: occurs_at_iff_split)

lemma occurs_at_whole [simp]: "occurs_at bs 0 bs"
  by (simp add: occurs_at_def)

lemma occurs_at_unique: "occurs_at bs off xs \<Longrightarrow> occurs_at bs off ys \<Longrightarrow> length xs = length ys \<Longrightarrow> xs = ys"
  by (simp add: occurs_at_def)

lemma slice_iff:
  "slice bs a b = Ok ys \<longleftrightarrow> occurs_at bs a ys \<and> b = a + length ys"
  using occurs_at_bound [of bs a ys] by (auto simp: slice_def occurs_at_def)

lemma occurs_at_single: "occurs_at bs i [y] \<longleftrightarrow> i < length bs \<and> bs ! i = y"
proof (cases "i < length bs")
  case True
  then show ?thesis
    by (simp add: occurs_at_def take_Suc hd_drop_conv_nth)
qed (auto dest: occurs_at_bound)

lemma occurs_at_Cons:
  "occurs_at bs i (y # ys) \<longleftrightarrow> i < length bs \<and> bs ! i = y \<and> occurs_at bs (Suc i) ys"
  using occurs_at_append [of bs i "[y]" ys] by (simp add: occurs_at_single)

lemma index_at_iff: "index_at bs i = Ok y \<longleftrightarrow> occurs_at bs i [y]"
  by (auto simp: index_at_eq_Ok occurs_at_single)

subsection \<open>Checked signed arithmetic\<close>

text \<open>\<open>a + b\<close> and \<open>a - b\<close> on \<open>i64\<close>, which panic when the result is out of range.\<close>

definition i64_min :: int where "i64_min = - (2 ^ 63)"
definition i64_max :: int where "i64_max = 2 ^ 63 - 1"

definition fits_i64 :: "int \<Rightarrow> bool" where
  "fits_i64 z \<longleftrightarrow> i64_min \<le> z \<and> z \<le> i64_max"

definition i64_add :: "i64 \<Rightarrow> i64 \<Rightarrow> (i64, 'e) result" where
  "i64_add a b = (if fits_i64 (sint a + sint b) then Ok (a + b) else Panic)"

definition i64_sub :: "i64 \<Rightarrow> i64 \<Rightarrow> (i64, 'e) result" where
  "i64_sub a b = (if fits_i64 (sint a - sint b) then Ok (a - b) else Panic)"

lemma signed_take_bit_64_id: "fits_i64 z \<Longrightarrow> signed_take_bit 63 z = z"
  by (simp add: fits_i64_def i64_min_def i64_max_def signed_take_bit_int_eq_self)

lemma fits_i64_sint [simp]: "fits_i64 (sint (a :: i64))"
  using sint_greater_eq [of a] sint_less [of a]
  by (simp add: fits_i64_def i64_min_def i64_max_def)

lemma sint_i64_add: "fits_i64 (sint a + sint b) \<Longrightarrow> sint (a + b :: i64) = sint a + sint b"
  by (simp add: signed_take_bit_64_id sint_word_ariths)

lemma sint_i64_sub: "fits_i64 (sint a - sint b) \<Longrightarrow> sint (a - b :: i64) = sint a - sint b"
  by (simp add: signed_take_bit_64_id sint_word_ariths)

lemma i64_add_eq_Ok: "i64_add a b = Ok c \<longleftrightarrow> fits_i64 (sint a + sint b) \<and> c = a + b"
  by (auto simp: i64_add_def)

lemma i64_sub_eq_Ok: "i64_sub a b = Ok c \<longleftrightarrow> fits_i64 (sint a - sint b) \<and> c = a - b"
  by (auto simp: i64_sub_def)

lemma i64_add_sint: "i64_add a b = Ok c \<Longrightarrow> sint c = sint a + sint b"
  by (auto simp: i64_add_eq_Ok sint_i64_add)

lemma i64_sub_sint: "i64_sub a b = Ok c \<Longrightarrow> sint c = sint a - sint b"
  by (auto simp: i64_sub_eq_Ok sint_i64_sub)

subsection \<open>Little- and big-endian integers\<close>

text \<open>
  \<open>le_bytes n v\<close> is the first \<open>n\<close> bytes of \<open>v.to_le_bytes()\<close>; \<open>le_nat\<close> reads them back.
\<close>

fun le_bytes :: "nat \<Rightarrow> nat \<Rightarrow> bytes" where
  "le_bytes 0 v = []"
| "le_bytes (Suc n) v = of_nat v # le_bytes n (v div 256)"

lemma le_bytes_numeral [compute]:
  "le_bytes (numeral k) v = of_nat v # le_bytes (pred_numeral k) (v div 256)"
  by (subst numeral_eq_Suc) (rule le_bytes.simps(2))

lemma replicate_numeral [compute]: "replicate (numeral k) x = x # replicate (pred_numeral k) x"
  by (subst numeral_eq_Suc) (rule replicate_Suc)

fun le_nat :: "bytes \<Rightarrow> nat" where
  "le_nat [] = 0"
| "le_nat (b # bs) = unat b + 256 * le_nat bs"

lemma length_le_bytes [simp]: "length (le_bytes n v) = n"
  by (induction n arbitrary: v) auto

lemma unat_u8_lt [simp]: "unat (b :: u8) < 256"
  using unsigned_less [of b] by simp

lemma le_nat_less: "le_nat bs < 256 ^ length bs"
proof (induction bs)
  case (Cons b bs)
  have "unat b + 256 * le_nat bs < 256 + 256 * le_nat bs"
    by simp
  also have "\<dots> = 256 * Suc (le_nat bs)"
    by simp
  also have "\<dots> \<le> 256 * 256 ^ length bs"
    using Cons.IH by (intro mult_le_mono2) simp
  finally show ?case
    by simp
qed simp

lemma le_nat_le_bytes: "le_nat (le_bytes n v) = v mod 256 ^ n"
proof (induction n arbitrary: v)
  case (Suc n)
  have "le_nat (le_bytes (Suc n) v) = v mod 256 + 256 * (v div 256 mod 256 ^ n)"
    by (simp add: Suc unat_of_nat)
  also have "\<dots> = v mod (256 * 256 ^ n)"
    by (simp add: mod_mult2_eq add.commute)
  finally show ?case
    by simp
qed simp

lemma le_bytes_le_nat: "le_bytes (length bs) (le_nat bs) = bs"
proof (induction bs)
  case (Cons b bs)
  have z: "(256 :: u8) = 0"
    by transfer simp
  have "(of_nat (unat b + 256 * le_nat bs) :: u8) = b"
    by (simp add: z)
  then show ?case
    using Cons.IH by (simp add: div_add1_eq)
qed simp

lemma le_bytes_le_nat_len: "length bs = n \<Longrightarrow> le_bytes n (le_nat bs) = bs"
  using le_bytes_le_nat by blast

definition u32_to_le_bytes :: "u32 \<Rightarrow> bytes" where "u32_to_le_bytes x = le_bytes 4 (unat x)"
definition u32_from_le_bytes :: "bytes \<Rightarrow> u32" where "u32_from_le_bytes bs = of_nat (le_nat bs)"
definition u64_to_le_bytes :: "u64 \<Rightarrow> bytes" where "u64_to_le_bytes x = le_bytes 8 (unat x)"
definition u64_from_le_bytes :: "bytes \<Rightarrow> u64" where "u64_from_le_bytes bs = of_nat (le_nat bs)"
definition u16_to_be_bytes :: "u16 \<Rightarrow> bytes" where "u16_to_be_bytes x = rev (le_bytes 2 (unat x))"
definition u16_from_be_bytes :: "bytes \<Rightarrow> u16" where "u16_from_be_bytes bs = of_nat (le_nat (rev bs))"
definition u32_to_be_bytes :: "u32 \<Rightarrow> bytes" where "u32_to_be_bytes x = rev (le_bytes 4 (unat x))"
definition u32_from_be_bytes :: "bytes \<Rightarrow> u32" where "u32_from_be_bytes bs = of_nat (le_nat (rev bs))"

lemmas [compute] = u32_to_le_bytes_def u64_to_le_bytes_def u16_to_be_bytes_def u32_to_be_bytes_def
  u32_from_le_bytes_def u64_from_le_bytes_def u16_from_be_bytes_def u32_from_be_bytes_def

lemma length_int_bytes [simp]:
  "length (u32_to_le_bytes x) = 4" "length (u64_to_le_bytes y) = 8"
  "length (u16_to_be_bytes z) = 2" "length (u32_to_be_bytes x) = 4"
  by (simp_all add: u32_to_le_bytes_def u64_to_le_bytes_def u16_to_be_bytes_def u32_to_be_bytes_def)

lemma unat_u16_bound: "unat (x :: 16 word) < 65536"
  using unsigned_less [of x] by simp

lemma unat_u32_bound: "unat (x :: 32 word) < 4294967296"
  using unsigned_less [of x] by simp

lemma unat_u64_bound: "unat (x :: 64 word) < 18446744073709551616"
  using unsigned_less [of x] by simp

lemma from_to_bytes [simp]:
  "u32_from_le_bytes (u32_to_le_bytes x) = x"
  "u64_from_le_bytes (u64_to_le_bytes y) = y"
  "u16_from_be_bytes (u16_to_be_bytes z) = z"
  "u32_from_be_bytes (u32_to_be_bytes x) = x"
  using unat_u32_bound [of x] unat_u64_bound [of y] unat_u16_bound [of z]
  by (simp_all add: u32_from_le_bytes_def u32_to_le_bytes_def u64_from_le_bytes_def
      u64_to_le_bytes_def u16_from_be_bytes_def u16_to_be_bytes_def u32_from_be_bytes_def
      u32_to_be_bytes_def le_nat_le_bytes)

lemma unat_of_le_nat:
  assumes "length bs * 8 \<le> LENGTH('a::len)"
  shows "unat (of_nat (le_nat bs) :: 'a word) = le_nat bs"
proof -
  have "le_nat bs < 2 ^ (length bs * 8)"
    using le_nat_less [of bs] by (simp add: power_mult mult.commute [of _ 8])
  also have "\<dots> \<le> 2 ^ LENGTH('a)"
    using assms by (intro power_increasing) auto
  finally show ?thesis
    by (simp add: unat_of_nat)
qed

lemma to_from_bytes:
  "length bs = 4 \<Longrightarrow> u32_to_le_bytes (u32_from_le_bytes bs) = bs"
  "length bs = 8 \<Longrightarrow> u64_to_le_bytes (u64_from_le_bytes bs) = bs"
  "length bs = 2 \<Longrightarrow> u16_to_be_bytes (u16_from_be_bytes bs) = bs"
  "length bs = 4 \<Longrightarrow> u32_to_be_bytes (u32_from_be_bytes bs) = bs"
  by (simp_all add: u32_to_le_bytes_def u32_from_le_bytes_def u64_to_le_bytes_def
      u64_from_le_bytes_def u16_to_be_bytes_def u16_from_be_bytes_def u32_to_be_bytes_def
      u32_from_be_bytes_def unat_of_le_nat le_bytes_le_nat_len)

end
