(* ===== verification/Codec.thy ===== *)
theory Codec
  imports Prelude
begin

section \<open>The contract of a wire format\<close>

text \<open>
  Every protocol structure of the node has a pair \<open>marshalling\<close> / \<open>unmarshalling\<close>: the writer
  appends bytes to a vector, the reader takes the whole byte vector and a mutable offset, and
  advances the offset past what it read. The two locales state what such a pair promises; the
  component theories interpret them for their own readers and writers, and the list readers
  (\<open>unmarshalling_txins\<close>, \<open>unmarshalling_txouts\<close>, \<open>unmarshalling_transactions\<close>, ...) get their
  laws from the lemmas proved here once.
\<close>

subsection \<open>The counted loop of the list readers\<close>

text \<open>
  \<open>let mut i = 0; while i < n { list.push(Self::unmarshalling(bytes, offset)?); i += 1; }\<close>
\<close>

fun decode_n ::
  "(bytes \<Rightarrow> nat \<Rightarrow> ('a \<times> nat, 'e) result) \<Rightarrow> nat \<Rightarrow> bytes \<Rightarrow> nat \<Rightarrow> ('a list \<times> nat, 'e) result"
where
  "decode_n d 0 bs off = Ok ([], off)"
| "decode_n d (Suc n) bs off =
     and_then (d bs off) (\<lambda>(x, off').
     and_then (decode_n d n bs off') (\<lambda>(xs, off'').
     Ok (x # xs, off'')))"

lemma decode_n_length: "decode_n d n bs off = Ok (xs, off') \<Longrightarrow> length xs = n"
  by (induction n arbitrary: off xs) (auto simp: and_then_eq_Ok)

subsection \<open>A reader that undoes its writer\<close>

locale codec =
  fixes enc :: "'a \<Rightarrow> bytes"
    and dec :: "bytes \<Rightarrow> nat \<Rightarrow> ('a \<times> nat, 'e) result"
    and wf :: "'a \<Rightarrow> bool"
  assumes dec_enc: "wf x \<Longrightarrow> occurs_at bs off (enc x) \<Longrightarrow> dec bs off = Ok (x, off + length (enc x))"
begin

lemma dec_enc_in: "wf x \<Longrightarrow> dec (pre @ enc x @ post) (length pre) = Ok (x, length pre + length (enc x))"
  by (simp add: dec_enc)

lemma dec_enc_whole: "wf x \<Longrightarrow> dec (enc x) 0 = Ok (x, length (enc x))"
  by (simp add: dec_enc)

text \<open>No valid encoding is a prefix of another one: a stream of values splits in one way only.\<close>

lemma enc_prefix_free:
  assumes "wf x" and "wf y" and "enc x @ p = enc y @ q"
  shows "x = y \<and> p = q"
proof -
  from dec_enc_in [OF assms(1), of "[]" p] dec_enc_in [OF assms(2), of "[]" q] assms(3)
  have "x = y" by simp
  with assms(3) show ?thesis by simp
qed

lemma decode_n_enc:
  "\<forall>x \<in> set xs. wf x \<Longrightarrow> occurs_at bs off (concat (map enc xs)) \<Longrightarrow>
     decode_n dec (length xs) bs off = Ok (xs, off + length (concat (map enc xs)))"
  by (induction xs arbitrary: off) (auto simp: dec_enc occurs_at_append add.assoc)

end

subsection \<open>A reader that accepts nothing but what its writer produces\<close>

text \<open>
  The second law: what was read, written back, is byte for byte what was consumed. A structure
  received from a peer therefore hashes (and is relayed) as exactly the bytes that arrived.
\<close>

locale exact_codec = codec enc dec wf
  for enc :: "'a \<Rightarrow> bytes"
    and dec :: "bytes \<Rightarrow> nat \<Rightarrow> ('a \<times> nat, 'e) result"
    and wf :: "'a \<Rightarrow> bool" +
  assumes dec_sound: "dec bs off = Ok (x, off') \<Longrightarrow>
      wf x \<and> occurs_at bs off (enc x) \<and> off' = off + length (enc x)"
begin

lemma dec_iff:
  "dec bs off = Ok (x, off') \<longleftrightarrow> wf x \<and> occurs_at bs off (enc x) \<and> off' = off + length (enc x)"
  using dec_enc dec_sound by blast

lemma dec_bounds: "dec bs off = Ok (x, off') \<Longrightarrow> off \<le> off' \<and> off' \<le> length bs"
  using occurs_at_bound by (fastforce simp: dec_iff)

lemma decode_n_sound:
  "decode_n dec n bs off = Ok (xs, off') \<Longrightarrow> off \<le> length bs \<Longrightarrow>
     (\<forall>x \<in> set xs. wf x) \<and> length xs = n \<and> occurs_at bs off (concat (map enc xs)) \<and>
       off' = off + length (concat (map enc xs))"
proof (induction n arbitrary: off xs)
  case 0
  then show ?case by simp
next
  case (Suc n)
  from Suc.prems(1) obtain x mid ys where
    d: "dec bs off = Ok (x, mid)" and r: "decode_n dec n bs mid = Ok (ys, off')" and xs: "xs = x # ys"
    by (auto simp: and_then_eq_Ok)
  from dec_bounds [OF d] have "mid \<le> length bs" by simp
  from Suc.IH [OF r this] d xs show ?case
    by (auto simp: dec_iff occurs_at_append)
qed

lemma decode_n_iff:
  "off \<le> length bs \<Longrightarrow> decode_n dec n bs off = Ok (xs, off') \<longleftrightarrow>
     (\<forall>x \<in> set xs. wf x) \<and> length xs = n \<and> occurs_at bs off (concat (map enc xs)) \<and>
       off' = off + length (concat (map enc xs))"
  using decode_n_sound decode_n_enc by blast

end

subsection \<open>The reading idiom of the sources\<close>

text \<open>
  \<open>x.copy_from_slice(&bytes[*offset..(*offset + n)]); *offset += n;\<close> with \<open>x\<close> an array of \<open>n\<close>
  bytes, and the same followed by \<open>uN::from_le_bytes\<close> (for \<open>iN\<close>: the same word, read signed).
\<close>

definition read_array :: "nat \<Rightarrow> bytes \<Rightarrow> nat \<Rightarrow> (bytes \<times> nat, 'e) result" where
  "read_array n bs off = and_then (slice bs off (off + n)) (\<lambda>s. Ok (s, off + n))"

definition read_u32_le :: "bytes \<Rightarrow> nat \<Rightarrow> (u32 \<times> nat, 'e) result" where
  "read_u32_le bs off = and_then (read_array 4 bs off) (\<lambda>(s, off). Ok (u32_from_le_bytes s, off))"

definition read_u64_le :: "bytes \<Rightarrow> nat \<Rightarrow> (u64 \<times> nat, 'e) result" where
  "read_u64_le bs off = and_then (read_array 8 bs off) (\<lambda>(s, off). Ok (u64_from_le_bytes s, off))"

definition read_u16_be :: "bytes \<Rightarrow> nat \<Rightarrow> (u16 \<times> nat, 'e) result" where
  "read_u16_be bs off = and_then (read_array 2 bs off) (\<lambda>(s, off). Ok (u16_from_be_bytes s, off))"

lemma read_array_iff:
  "read_array n bs off = Ok (s, off') \<longleftrightarrow> occurs_at bs off s \<and> length s = n \<and> off' = off + n"
  by (auto simp: read_array_def and_then_eq_Ok slice_iff)

lemma read_u32_le_iff:
  "read_u32_le bs off = Ok (x, off') \<longleftrightarrow> occurs_at bs off (u32_to_le_bytes x) \<and> off' = off + 4"
  by (auto simp: read_u32_le_def and_then_eq_Ok read_array_iff to_from_bytes
      intro!: exI [of _ "u32_to_le_bytes x"])

lemma read_u64_le_iff:
  "read_u64_le bs off = Ok (x, off') \<longleftrightarrow> occurs_at bs off (u64_to_le_bytes x) \<and> off' = off + 8"
  by (auto simp: read_u64_le_def and_then_eq_Ok read_array_iff to_from_bytes
      intro!: exI [of _ "u64_to_le_bytes x"])

lemma read_u16_be_iff:
  "read_u16_be bs off = Ok (x, off') \<longleftrightarrow> occurs_at bs off (u16_to_be_bytes x) \<and> off' = off + 2"
  by (auto simp: read_u16_be_def and_then_eq_Ok read_array_iff to_from_bytes
      intro!: exI [of _ "u16_to_be_bytes x"])

lemmas read_iffs = read_array_iff read_u32_le_iff read_u64_le_iff read_u16_be_iff

interpretation raw_u32: exact_codec u32_to_le_bytes read_u32_le "\<lambda>_. True"
  by unfold_locales (auto simp: read_iffs)

interpretation raw_u64: exact_codec u64_to_le_bytes read_u64_le "\<lambda>_. True"
  by unfold_locales (auto simp: read_iffs)

interpretation raw_u16: exact_codec u16_to_be_bytes read_u16_be "\<lambda>_. True"
  by unfold_locales (auto simp: read_iffs)

end
