(* ===== verification/Compact_Size.thy ===== *)
theory Compact_Size
  imports Codec
begin

section \<open>CompactSizeUint (src/compact\_size\_uint.rs)\<close>

text \<open>
  The variable-length integer of the protocol. The structure keeps the encoded bytes, not the
  number, so a non-canonical encoding received from a peer is written back unchanged.
\<close>

record CompactSizeUint =
  cs_bytes :: bytes

definition get_compact_size_uint :: "u8 \<Rightarrow> nat \<Rightarrow> u128 \<Rightarrow> bytes" where
  "get_compact_size_uint first_byte bytes_amount num =
     first_byte # take (bytes_amount - 1) (le_bytes 16 (unat num))"

definition generate_compact_size_uint :: "u128 \<Rightarrow> bytes" where
  "generate_compact_size_uint num =
     (if 253 \<le> num \<and> num \<le> 0xffff then get_compact_size_uint 0xfd 3 num
      else if 0x10000 \<le> num \<and> num \<le> 0xffffffff then get_compact_size_uint 0xfe 5 num
      else if 0x100000000 \<le> num \<and> num \<le> 0xffffffffffffffff
        then get_compact_size_uint 0xff 9 num
      else [ucast num])"

definition CompactSizeUint_new :: "u128 \<Rightarrow> CompactSizeUint" where
  "CompactSizeUint_new num = \<lparr>cs_bytes = generate_compact_size_uint num\<rparr>"

text \<open>\<open>CompactSizeUint::new(xs.len() as u128)\<close>\<close>

abbreviation CompactSizeUint_of_len :: "nat \<Rightarrow> CompactSizeUint" where
  "CompactSizeUint_of_len n \<equiv> CompactSizeUint_new (of_nat n)"

definition CompactSizeUint_value :: "CompactSizeUint \<Rightarrow> bytes" where
  "CompactSizeUint_value self = cs_bytes self"

text \<open>
  \<open>bytes[..k].copy_from_slice(&self.bytes[1..k+1])\<close> over an array of eight bytes whose first byte
  is the marker: the first \<open>k\<close> bytes are the payload, the others zero.
\<close>

definition decoded_value :: "CompactSizeUint \<Rightarrow> (u64, 'e) result" where
  "decoded_value self =
     and_then (index_at (cs_bytes self) 0) (\<lambda>b.
       if b = 0xfd then
         and_then (slice (cs_bytes self) 1 (2 + 1)) (\<lambda>s. Ok (u64_from_le_bytes (s @ replicate 6 0)))
       else if b = 0xfe then
         and_then (slice (cs_bytes self) 1 (4 + 1)) (\<lambda>s. Ok (u64_from_le_bytes (s @ replicate 4 0)))
       else if b = 0xff then
         and_then (slice (cs_bytes self) 1 (8 + 1)) (\<lambda>s. Ok (u64_from_le_bytes s))
       else Ok (u64_from_le_bytes (b # replicate 7 0)))"

definition CompactSizeUint_marshalling :: "CompactSizeUint \<Rightarrow> bytes" where
  "CompactSizeUint_marshalling self = CompactSizeUint_value self"

definition CompactSizeUint_unmarshalling ::
  "bytes \<Rightarrow> nat \<Rightarrow> (CompactSizeUint \<times> nat, string) result" where
  "CompactSizeUint_unmarshalling bytes offset =
     and_then (usize_sub (length bytes) offset) (\<lambda>left.
       if left < 1 then
         Err ''The received bytes are not enough to unmarshall the CompactSizeUint''
       else
         and_then (index_at bytes offset) (\<lambda>first_byte.
           let offset = offset + 1 in
           if first_byte = 0xfd then
             and_then (slice bytes offset (offset + 2)) (\<lambda>s.
               Ok (\<lparr>cs_bytes = first_byte # s\<rparr>, offset + 2))
           else if first_byte = 0xfe then
             and_then (slice bytes offset (offset + 4)) (\<lambda>s.
               Ok (\<lparr>cs_bytes = first_byte # s\<rparr>, offset + 4))
           else if first_byte = 0xff then
             and_then (slice bytes offset (offset + 8)) (\<lambda>s.
               Ok (\<lparr>cs_bytes = first_byte # s\<rparr>, offset + 8))
           else Ok (\<lparr>cs_bytes = [first_byte]\<rparr>, offset)))"

subsection \<open>Well-formed values\<close>

definition payload_len :: "u8 \<Rightarrow> nat" where
  "payload_len b = (if b = 0xfd then 2 else if b = 0xfe then 4 else if b = 0xff then 8 else 0)"

definition wf_compact :: "CompactSizeUint \<Rightarrow> bool" where
  "wf_compact c = (case cs_bytes c of [] \<Rightarrow> False | b # s \<Rightarrow> length s = payload_len b)"

text \<open>The number that a well-formed encoding stands for.\<close>

definition compact_nat :: "CompactSizeUint \<Rightarrow> nat" where
  "compact_nat c =
     (case cs_bytes c of [] \<Rightarrow> 0
      | b # s \<Rightarrow> if payload_len b = 0 then unat b else le_nat s)"

lemma le_nat_append_zeros: "le_nat (s @ replicate n 0) = le_nat s"
  by (induction s) (induction n, auto)

lemma le_nat_u64: "length s \<le> 8 \<Longrightarrow> unat (of_nat (le_nat s) :: u64) = le_nat s"
  by (rule unat_of_le_nat) simp

lemma unat_u64_compact:
  assumes "wf_compact c"
  shows "compact_nat c < 2 ^ 64"
proof -
  obtain b s where c: "cs_bytes c = b # s" and l: "length s = payload_len b"
    using assms unfolding wf_compact_def by (cases "cs_bytes c") auto
  have "le_nat s < 256 ^ length s" by (rule le_nat_less)
  also have "\<dots> \<le> 256 ^ 8"
    using l by (intro power_increasing) (auto simp: payload_len_def)
  finally have "le_nat s < 2 ^ 64" by simp
  moreover have "unat b < 2 ^ 64"
    by (rule less_trans [OF unat_u8_lt]) simp
  ultimately show ?thesis
    by (simp add: compact_nat_def c)
qed

lemma decoded_value_wf:
  assumes "wf_compact c"
  shows "decoded_value c = Ok (of_nat (compact_nat c))"
proof -
  obtain b s where c: "cs_bytes c = b # s" and l: "length s = payload_len b"
    using assms unfolding wf_compact_def by (cases "cs_bytes c") auto
  have z: "le_nat (b # replicate 7 0) = unat b"
    using le_nat_append_zeros [of "[b]" 7] by simp
  from l show ?thesis
    by (auto simp: decoded_value_def index_at_def slice_def c payload_len_def compact_nat_def
        u64_from_le_bytes_def le_nat_append_zeros z simp del: le_nat.simps split: if_splits)
qed

lemma unat_decoded: "wf_compact c \<Longrightarrow> unat (of_nat (compact_nat c) :: u64) = compact_nat c"
  using unat_u64_compact [of c] by (simp add: unat_of_nat)

lemma decoded_value_ex:
  "wf_compact c \<Longrightarrow> \<exists>n. decoded_value c = Ok n \<and> unat n = compact_nat c"
  using decoded_value_wf unat_decoded by blast

subsection \<open>Both directions of the wire format\<close>

lemma CompactSizeUint_dec_iff:
  "CompactSizeUint_unmarshalling bs off = Ok (c, off') \<longleftrightarrow>
     wf_compact c \<and> occurs_at bs off (CompactSizeUint_marshalling c) \<and>
     off' = off + length (CompactSizeUint_marshalling c)"
proof (cases "off < length bs")
  case False
  then have "\<not> occurs_at bs off (b # s)" for b s
    using occurs_at_bound [of bs off "b # s"] by auto
  with False show ?thesis
    by (auto simp: CompactSizeUint_unmarshalling_def result_iffs access_iffs wf_compact_def
        CompactSizeUint_marshalling_def CompactSizeUint_value_def split: list.splits)
next
  case True
  let ?b = "bs ! off"
  have "CompactSizeUint_unmarshalling bs off =
      and_then (slice bs (Suc off) (Suc off + payload_len ?b)) (\<lambda>s.
        Ok (\<lparr>cs_bytes = ?b # s\<rparr>, Suc off + payload_len ?b))"
    using True by (auto simp: CompactSizeUint_unmarshalling_def usize_sub_def index_at_def
        payload_len_def Let_def slice_def)
  then show ?thesis
    by (cases c) (auto simp: and_then_eq_Ok slice_iff wf_compact_def CompactSizeUint_marshalling_def
        CompactSizeUint_value_def occurs_at_Cons True split: list.splits)
qed

interpretation compact: exact_codec CompactSizeUint_marshalling CompactSizeUint_unmarshalling wf_compact
  by unfold_locales (auto simp: CompactSizeUint_dec_iff)

subsection \<open>What new produces\<close>

lemma unat_le_u128: "(a :: u128) \<le> b \<longleftrightarrow> unat a \<le> unat b"
  by (rule word_le_nat_alt)

lemma generate_cases:
  fixes num :: u128
  assumes "unat num < 2 ^ 64"
  shows "generate_compact_size_uint num =
    (if unat num < 253 then [of_nat (unat num)]
     else if unat num < 2 ^ 16 then 0xfd # le_bytes 2 (unat num)
     else if unat num < 2 ^ 32 then 0xfe # le_bytes 4 (unat num)
     else 0xff # le_bytes 8 (unat num))"
proof -
  have take: "take k (le_bytes 16 v) = le_bytes k v" if "k \<le> 16" for k v
  proof -
    have "take k (le_bytes (k + j) v) = le_bytes k v" for j
      by (induction k arbitrary: v) auto
    from this [of "16 - k"] that show ?thesis by simp
  qed
  show ?thesis
    using assms
    by (auto simp: generate_compact_size_uint_def get_compact_size_uint_def unat_le_u128 take)
qed

lemma CompactSizeUint_new_wf:
  assumes "unat num < 2 ^ 64"
  shows "wf_compact (CompactSizeUint_new num) \<and> compact_nat (CompactSizeUint_new num) = unat num"
proof -
  have u: "unat (ucast num :: u8) = unat num mod 256"
    by (simp add: unsigned_ucast_eq take_bit_eq_mod)
  have "payload_len (ucast num) = 0" if "unat num < 253"
    using that by (auto simp: payload_len_def word_unat_eq_iff u)
  then show ?thesis
    using assms
    by (auto simp: CompactSizeUint_new_def wf_compact_def compact_nat_def generate_cases
        le_nat_le_bytes u payload_len_def)
qed

subsection \<open>Properties\<close>

text \<open>
  A count below \<open>2 ^ 64\<close>, encoded by \<open>CompactSizeUint::new\<close>, is read back from any position of
  a byte vector, the offset ends right after it, and its decoded value is the count.
\<close>

theorem compact_size_roundtrip:
  assumes "unat num < 2 ^ 64"
  shows "CompactSizeUint_unmarshalling
      (pre @ CompactSizeUint_marshalling (CompactSizeUint_new num) @ post) (length pre) =
        Ok (CompactSizeUint_new num,
            length pre + length (CompactSizeUint_marshalling (CompactSizeUint_new num))) \<and>
    decoded_value (CompactSizeUint_new num) = (Ok (of_nat (unat num)) :: (u64, 'e) result)"
  using CompactSizeUint_new_wf [OF assms] by (simp add: compact.dec_enc decoded_value_wf)

theorem compact_size_roundtrip_witness:
  "decoded_value (CompactSizeUint_new 70000) = (Ok 70000 :: (u64, unit) result)"
  using compact_size_roundtrip [where 'e = unit, of 70000 "[]" "[]"] by simp

end
