(* ===== verification/Tx_Parts.thy ===== *)
theory Tx_Parts
  imports Compact_Size
begin

section \<open>Outpoints, inputs and outputs (src/transactions/outpoint.rs, tx\_in.rs, tx\_out.rs)\<close>

text \<open>
  The parts of a transaction as records with the source's fields, their readers and writers, and
  the proof that each pair satisfies \<^const>\<open>exact_codec\<close>. A Rust \<open>marshalling(&self, bytes: &mut
  Vec<u8>)\<close> appends to its argument; its model returns the appended bytes.
\<close>

subsection \<open>Outpoint\<close>

record Outpoint =
  tx_id :: hash32
  op_index :: u32

definition Outpoint_new :: "hash32 \<Rightarrow> u32 \<Rightarrow> Outpoint" where
  "Outpoint_new txid i = \<lparr>tx_id = txid, op_index = i\<rparr>"

definition is_a_coinbase_outpoint :: "Outpoint \<Rightarrow> bool" where
  "is_a_coinbase_outpoint self =
     (if op_index self = 0xffffffff then True
      else if tx_id self = replicate 32 0 then True
      else False)"

definition Outpoint_unmarshalling :: "bytes \<Rightarrow> nat \<Rightarrow> (Outpoint \<times> nat, string) result" where
  "Outpoint_unmarshalling bytes offset =
     and_then (usize_sub (length bytes) offset) (\<lambda>left.
       if left < 36 then
         Err ''The bytes array is not long enough to unmarshall an Outpoint. It must be at least 36 bytes long''
       else
         and_then (read_array 32 bytes offset) (\<lambda>(txid, offset).
         and_then (read_u32_le bytes offset) (\<lambda>(i, offset).
         Ok (\<lparr>tx_id = txid, op_index = i\<rparr>, offset))))"

definition Outpoint_marshalling :: "Outpoint \<Rightarrow> bytes" where
  "Outpoint_marshalling self = tx_id self @ u32_to_le_bytes (op_index self)"

definition same_hash :: "Outpoint \<Rightarrow> hash32 \<Rightarrow> bool" where
  "same_hash self h \<longleftrightarrow> tx_id self = h"

definition Outpoint_index :: "Outpoint \<Rightarrow> nat" where
  "Outpoint_index self = unat (op_index self)"

definition Outpoint_hash :: "Outpoint \<Rightarrow> hash32" where
  "Outpoint_hash self = tx_id self"

definition wf_outpoint :: "Outpoint \<Rightarrow> bool" where
  "wf_outpoint o' \<longleftrightarrow> length (tx_id o') = 32"

lemma Outpoint_dec_iff:
  "Outpoint_unmarshalling bs off = Ok (x, off') \<longleftrightarrow>
     wf_outpoint x \<and> occurs_at bs off (Outpoint_marshalling x) \<and>
     off' = off + length (Outpoint_marshalling x)"
proof (cases "off + 36 \<le> length bs")
  case False
  then show ?thesis
    using occurs_at_bound [of bs off "Outpoint_marshalling x"]
    by (auto simp: Outpoint_unmarshalling_def usize_sub_def Outpoint_marshalling_def wf_outpoint_def)
next
  case True
  then show ?thesis
    by (cases x) (auto simp: Outpoint_unmarshalling_def usize_sub_def and_then_eq_Ok read_iffs
        wf_outpoint_def Outpoint_marshalling_def occurs_at_append add.assoc)
qed

interpretation outpoint: exact_codec Outpoint_marshalling Outpoint_unmarshalling wf_outpoint
  by unfold_locales (auto simp: Outpoint_dec_iff)

lemma length_Outpoint_marshalling: "wf_outpoint x \<Longrightarrow> length (Outpoint_marshalling x) = 36"
  by (simp add: Outpoint_marshalling_def wf_outpoint_def)

subsection \<open>TxIn\<close>

record SigScript =
  sig_bytes :: bytes

definition SigScript_new :: "bytes \<Rightarrow> SigScript" where
  "SigScript_new bs = \<lparr>sig_bytes = bs\<rparr>"

definition SigScript_get_bytes :: "SigScript \<Rightarrow> bytes" where
  "SigScript_get_bytes self = sig_bytes self"

record TxIn =
  previous_output :: Outpoint
  script_bytes :: CompactSizeUint
  height :: "bytes option"
  signature_script :: SigScript
  sequence :: u32

definition TxIn_new ::
  "Outpoint \<Rightarrow> CompactSizeUint \<Rightarrow> bytes option \<Rightarrow> SigScript \<Rightarrow> u32 \<Rightarrow> TxIn" where
  "TxIn_new po sb h ss sq =
     \<lparr>previous_output = po, script_bytes = sb, height = h, signature_script = ss, sequence = sq\<rparr>"

definition incomplete_txin :: "Outpoint \<Rightarrow> TxIn" where
  "incomplete_txin po = TxIn_new po (CompactSizeUint_new 0) None (SigScript_new []) 0xffffffff"

definition TxIn_unmarshalling :: "bytes \<Rightarrow> nat \<Rightarrow> (TxIn \<times> nat, string) result" where
  "TxIn_unmarshalling bytes offset =
     and_then (usize_sub (length bytes) offset) (\<lambda>left.
       if left < 41 then
         Err ''The bytes received do not correspond to a TxIn, there are not enough bytes''
       else
         and_then (Outpoint_unmarshalling bytes offset) (\<lambda>(po, offset).
         and_then (CompactSizeUint_unmarshalling bytes offset) (\<lambda>(sb, offset).
         and_then (decoded_value sb) (\<lambda>amount.
         and_then
           (if is_a_coinbase_outpoint po then
              if amount > 100 then
                Err ''The bytes received do not correspond to a TxIn, the script bytes are invalid''
              else and_then (read_array 4 bytes offset) (\<lambda>(hb, offset). Ok (Some hb, offset, 4))
            else Ok (None, offset, 0)) (\<lambda>(h, offset, bytes_for_height).
         let amount_bytes_to_read = unat amount in
         and_then (slice bytes offset (offset + amount_bytes_to_read - bytes_for_height)) (\<lambda>sig.
         let offset = offset + (amount_bytes_to_read - bytes_for_height) in
         and_then (read_u32_le bytes offset) (\<lambda>(sq, offset).
         Ok (\<lparr>previous_output = po, script_bytes = sb, height = h,
              signature_script = SigScript_new sig, sequence = sq\<rparr>, offset))))))))"

definition unmarshalling_txins :: "bytes \<Rightarrow> u64 \<Rightarrow> nat \<Rightarrow> (TxIn list \<times> nat, string) result" where
  "unmarshalling_txins bytes amount_txin offset =
     decode_n TxIn_unmarshalling (unat amount_txin) bytes offset"

definition TxIn_is_coinbase :: "TxIn \<Rightarrow> bool" where
  "TxIn_is_coinbase self \<longleftrightarrow> height self \<noteq> None"

definition TxIn_marshalling :: "TxIn \<Rightarrow> bytes" where
  "TxIn_marshalling self =
     Outpoint_marshalling (previous_output self) @
     CompactSizeUint_marshalling (script_bytes self) @
     (if TxIn_is_coinbase self then (case height self of Some h \<Rightarrow> h | None \<Rightarrow> []) else []) @
     SigScript_get_bytes (signature_script self) @
     u32_to_le_bytes (sequence self)"

definition TxIn_outpoint :: "TxIn \<Rightarrow> Outpoint" where
  "TxIn_outpoint self = previous_output self"

definition TxIn_get_height :: "TxIn \<Rightarrow> (u32, 'e) result" where
  "TxIn_get_height self =
     (case height self of
        None \<Rightarrow> Ok 0
      | Some num \<Rightarrow>
          and_then (usize_sub (length num) 1) (\<lambda>n.
          and_then (slice (rev num) 0 n) (\<lambda>s.
          let bytes = 0 # s in
          if length bytes = 4 then Ok (u32_from_be_bytes bytes) else Panic)))"

definition TxIn_is_same_hash :: "TxIn \<Rightarrow> hash32 \<Rightarrow> bool" where
  "TxIn_is_same_hash self h = same_hash (previous_output self) h"

definition set_signature_script :: "TxIn \<Rightarrow> bytes \<Rightarrow> TxIn" where
  "set_signature_script self bs =
     self\<lparr>script_bytes := CompactSizeUint_of_len (length bs), signature_script := SigScript_new bs\<rparr>"

definition TxIn_add :: "TxIn \<Rightarrow> SigScript \<Rightarrow> TxIn" where
  "TxIn_add self sig =
     self\<lparr>script_bytes := CompactSizeUint_of_len (length (SigScript_get_bytes sig)),
          signature_script := sig\<rparr>"

definition get_previous_output_hash :: "TxIn \<Rightarrow> hash32" where
  "get_previous_output_hash self = Outpoint_hash (previous_output self)"

definition get_previous_output_index :: "TxIn \<Rightarrow> nat" where
  "get_previous_output_index self = Outpoint_index (previous_output self)"

text \<open>The inputs that the wire format can carry.\<close>

definition wf_txin :: "TxIn \<Rightarrow> bool" where
  "wf_txin t \<longleftrightarrow> wf_outpoint (previous_output t) \<and> wf_compact (script_bytes t) \<and>
     (case height t of
        None \<Rightarrow> \<not> is_a_coinbase_outpoint (previous_output t) \<and>
          compact_nat (script_bytes t) = length (sig_bytes (signature_script t))
      | Some h \<Rightarrow> is_a_coinbase_outpoint (previous_output t) \<and> length h = 4 \<and>
          compact_nat (script_bytes t) \<le> 100 \<and>
          compact_nat (script_bytes t) = 4 + length (sig_bytes (signature_script t)))"

lemma length_compact_pos: "wf_compact c \<Longrightarrow> 1 \<le> length (CompactSizeUint_marshalling c)"
  by (auto simp: wf_compact_def CompactSizeUint_marshalling_def CompactSizeUint_value_def split: list.splits)

lemma length_TxIn_marshalling: "wf_txin t \<Longrightarrow> 41 \<le> length (TxIn_marshalling t)"
  using length_compact_pos [of "script_bytes t"]
  by (auto simp: TxIn_marshalling_def wf_txin_def length_Outpoint_marshalling)

lemma u64_gt_100: "(100 < n) = (100 < unat (n :: u64))"
  by (simp add: word_less_nat_alt)

lemma compact_gt_100:
  "wf_compact c \<Longrightarrow> 100 < (of_nat (compact_nat c) :: u64) \<longleftrightarrow> 100 < compact_nat c"
  by (simp add: word_less_nat_alt unat_decoded)

lemmas TxIn_codec_defs = TxIn_unmarshalling_def TxIn_marshalling_def wf_txin_def
  SigScript_new_def SigScript_get_bytes_def TxIn_is_coinbase_def

lemma TxIn_dec_sound:
  assumes "TxIn_unmarshalling bs off = Ok (x, off')"
  shows "wf_txin x \<and> occurs_at bs off (TxIn_marshalling x) \<and> off' = off + length (TxIn_marshalling x)"
  using assms
  by (auto simp: TxIn_codec_defs result_iffs read_iffs outpoint.dec_iff compact.dec_iff
      decoded_value_wf unat_decoded compact_gt_100 Let_def slice_iff occurs_at_append add.assoc
      split: option.splits if_splits dest: occurs_at_bound)

lemma read_u32_leI: "occurs_at bs off (u32_to_le_bytes x) \<Longrightarrow> read_u32_le bs off = Ok (x, off + 4)"
  by (simp add: read_iffs)

lemma read_u64_leI: "occurs_at bs off (u64_to_le_bytes y) \<Longrightarrow> read_u64_le bs off = Ok (y, off + 8)"
  by (simp add: read_iffs)

lemma TxIn_dec_enc:
  assumes wf: "wf_txin x" and at: "occurs_at bs off (TxIn_marshalling x)"
  shows "TxIn_unmarshalling bs off = Ok (x, off + length (TxIn_marshalling x))"
proof -
  obtain po sb h ss sq where x: "x = \<lparr>previous_output = po, script_bytes = sb, height = h,
      signature_script = \<lparr>sig_bytes = ss\<rparr>, sequence = sq\<rparr>"
    by (cases x, cases "signature_script x") auto
  let ?hb = "case h of None \<Rightarrow> [] | Some hb \<Rightarrow> hb"
  let ?o = "off + 36" and ?c = "length (CompactSizeUint_marshalling sb)"
  have po: "wf_outpoint po" "length (Outpoint_marshalling po) = 36" and sb: "wf_compact sb"
    using wf by (auto simp: x wf_txin_def length_Outpoint_marshalling)
  have "occurs_at bs off (Outpoint_marshalling po)"
    and "occurs_at bs ?o (CompactSizeUint_marshalling sb)"
    and hb: "occurs_at bs (?o + ?c) ?hb"
    and ss: "occurs_at bs (?o + ?c + length ?hb) ss"
    and sq: "occurs_at bs (?o + ?c + length ?hb + length ss) (u32_to_le_bytes sq)"
    using at po by (auto simp: x TxIn_codec_defs occurs_at_append add.assoc split: option.splits)
  then have "Outpoint_unmarshalling bs off = Ok (po, ?o)"
    and "CompactSizeUint_unmarshalling bs ?o = Ok (sb, ?o + ?c)"
    using po sb by (simp_all add: outpoint.dec_enc compact.dec_enc)
  moreover have "\<not> length bs - off < 41" and "off \<le> length bs"
    using occurs_at_bound [OF at] length_TxIn_marshalling [OF wf] by auto
  moreover have "read_u32_le bs (?o + ?c + length ?hb + length ss) =
      (Ok (sq, ?o + ?c + length ?hb + length ss + 4) :: (u32 \<times> nat, string) result)"
    using sq by (rule read_u32_leI)
  moreover have "slice bs (?o + ?c + length ?hb) (?o + ?c + length ?hb + length ss) =
      (Ok ss :: (bytes, string) result)"
    using ss by (simp add: slice_iff)
  moreover have "h = Some hb' \<Longrightarrow> read_array 4 bs (?o + ?c) =
      (Ok (hb', ?o + ?c + 4) :: (bytes \<times> nat, string) result)" for hb'
    using hb wf by (auto simp: x wf_txin_def read_iffs)
  moreover obtain n where "decoded_value sb = (Ok n :: (u64, string) result)" and "unat n = compact_nat sb"
    using decoded_value_ex [OF sb] by blast
  ultimately show ?thesis
    using wf po
    by (cases h) (auto simp: x TxIn_codec_defs usize_sub_def u64_gt_100 Let_def ac_simps)
qed

interpretation txin: exact_codec TxIn_marshalling TxIn_unmarshalling wf_txin
  by unfold_locales (use TxIn_dec_enc TxIn_dec_sound in blast)+

subsection \<open>TxOut\<close>

record Pubkey =
  pk_bytes :: bytes

definition Pubkey_new :: "bytes \<Rightarrow> Pubkey" where
  "Pubkey_new bs = \<lparr>pk_bytes = bs\<rparr>"

definition Pubkey_bytes :: "Pubkey \<Rightarrow> bytes" where
  "Pubkey_bytes self = pk_bytes self"

record TxOut =
  txout_value :: i64
  pk_script_bytes :: CompactSizeUint
  pk_script :: Pubkey

definition TxOut_new :: "i64 \<Rightarrow> CompactSizeUint \<Rightarrow> bytes \<Rightarrow> TxOut" where
  "TxOut_new v sb script = \<lparr>txout_value = v, pk_script_bytes = sb, pk_script = Pubkey_new script\<rparr>"

definition TxOut_unmarshalling :: "bytes \<Rightarrow> nat \<Rightarrow> (TxOut \<times> nat, string) result" where
  "TxOut_unmarshalling bytes offset =
     and_then (usize_sub (length bytes) offset) (\<lambda>left.
       if left < 9 then
         Err ''The bytes vector is not long enough to unmarshall a TxOut. It must be at least 9 bytes long''
       else
         and_then (read_u64_le bytes offset) (\<lambda>(v, offset).
         and_then (CompactSizeUint_unmarshalling bytes offset) (\<lambda>(sb, offset).
         and_then (decoded_value sb) (\<lambda>amount.
         let amount_bytes = unat amount in
         and_then (slice bytes offset (offset + amount_bytes)) (\<lambda>script.
         let offset = offset + amount_bytes in
         Ok (\<lparr>txout_value = v, pk_script_bytes = sb, pk_script = Pubkey_new script\<rparr>, offset))))))"

definition unmarshalling_txouts :: "bytes \<Rightarrow> u64 \<Rightarrow> nat \<Rightarrow> (TxOut list \<times> nat, string) result" where
  "unmarshalling_txouts bytes amount_txout offset =
     decode_n TxOut_unmarshalling (unat amount_txout) bytes offset"

definition TxOut_marshalling :: "TxOut \<Rightarrow> bytes" where
  "TxOut_marshalling self =
     u64_to_le_bytes (txout_value self) @
     CompactSizeUint_marshalling (pk_script_bytes self) @
     Pubkey_bytes (pk_script self)"

definition TxOut_value :: "TxOut \<Rightarrow> i64" where
  "TxOut_value self = txout_value self"

definition get_pub_key_script :: "TxOut \<Rightarrow> bytes" where
  "get_pub_key_script self = Pubkey_bytes (pk_script self)"

definition wf_txout :: "TxOut \<Rightarrow> bool" where
  "wf_txout t \<longleftrightarrow> wf_compact (pk_script_bytes t) \<and>
     compact_nat (pk_script_bytes t) = length (pk_bytes (pk_script t))"

lemmas TxOut_codec_defs = TxOut_unmarshalling_def TxOut_marshalling_def wf_txout_def
  Pubkey_new_def Pubkey_bytes_def

lemma length_TxOut_marshalling: "wf_txout t \<Longrightarrow> 9 \<le> length (TxOut_marshalling t)"
  using length_compact_pos [of "pk_script_bytes t"] by (simp add: TxOut_codec_defs)

lemma TxOut_dec_iff:
  "TxOut_unmarshalling bs off = Ok (x, off') \<longleftrightarrow>
     wf_txout x \<and> occurs_at bs off (TxOut_marshalling x) \<and> off' = off + length (TxOut_marshalling x)"
proof (cases "off + 9 \<le> length bs")
  case False
  then show ?thesis
    using occurs_at_bound [of bs off "TxOut_marshalling x"] length_TxOut_marshalling [of x]
    by (auto simp: TxOut_unmarshalling_def usize_sub_def)
next
  case True
  obtain v sb script where x: "x = \<lparr>txout_value = v, pk_script_bytes = sb, pk_script = \<lparr>pk_bytes = script\<rparr>\<rparr>"
    by (cases x, cases "pk_script x") auto
  from True show ?thesis
    by (auto simp: x TxOut_codec_defs usize_sub_def and_then_eq_Ok read_iffs compact.dec_iff
        decoded_value_wf unat_decoded Let_def slice_iff occurs_at_append add.assoc
        cong: conj_cong)
qed

interpretation txout: exact_codec TxOut_marshalling TxOut_unmarshalling wf_txout
  by unfold_locales (auto simp: TxOut_dec_iff)

end
