(* ===== verification/Transaction.thy ===== *)
theory Transaction
  imports Tx_Parts
begin

section \<open>Transactions (src/transactions/transaction.rs)\<close>

text \<open>
  The transaction record, its wire format, its hashes and the simple accessors. Building,
  signing and validating a transaction for an account is in the theory \<open>Spending\<close>; the effect of
  a transaction on the UTXO set is in \<open>Utxo\<close>.
\<close>

subsection \<open>The third-party cryptography, as a parameter\<close>

text \<open>
  Functions of the crates \<open>bitcoin_hashes\<close>, \<open>k256\<close>, \<open>secp256k1\<close> and \<open>bs58\<close> that the sources call.
  Nothing is assumed about them except where a theorem says so.
  \<^item> \<open>sha256\<close>: SHA-256 digest (\<open>sha256d\<close> is the digest of the digest);
  \<^item> \<open>ripemd160\<close>: RIPEMD-160 digest;
  \<^item> \<open>bs58_encode\<close>, \<open>bs58_decode\<close>: base-58 text;
  \<^item> \<open>secp_pubkey\<close>: the compressed public key of a secret key;
  \<^item> \<open>ecdsa_sign\<close>: the DER signature under a secret key of a message;
  \<^item> \<open>ecdsa_verify\<close>: public key, message, DER signature.
  A fallible function returns \<open>Inl\<close> with the text of its error, or \<open>Inr\<close>.
\<close>

record crypto =
  sha256 :: "bytes \<Rightarrow> bytes"
  ripemd160 :: "bytes \<Rightarrow> bytes"
  bs58_encode :: "bytes \<Rightarrow> string"
  bs58_decode :: "string \<Rightarrow> string + bytes"
  secp_pubkey :: "bytes \<Rightarrow> string + bytes"
  ecdsa_sign :: "bytes \<Rightarrow> bytes \<Rightarrow> string + bytes"
  ecdsa_verify :: "bytes \<Rightarrow> bytes \<Rightarrow> bytes \<Rightarrow> string + bool"

fun of_sum :: "'e + 'a \<Rightarrow> ('a, 'e) result" where
  "of_sum (Inl e) = Err e"
| "of_sum (Inr x) = Ok x"

definition sha256d :: "crypto \<Rightarrow> bytes \<Rightarrow> bytes" where
  "sha256d cr bs = sha256 cr (sha256 cr bs)"

text \<open>
  A stand-in for the cryptography with the documented lengths and inverses, on which the
  statements with hypotheses on the primitives are instantiated.
\<close>

definition sample_crypto :: crypto where
  "sample_crypto =
     \<lparr>sha256 = (\<lambda>bs. take 32 (bs @ replicate 32 0)),
      ripemd160 = (\<lambda>bs. take 20 (bs @ replicate 20 0)),
      bs58_encode = (\<lambda>bs. replicate (if length bs \<le> 30 then 9 else 14) CHR ''1'' @ map (\<lambda>b. char_of (unat b)) bs),
      bs58_decode = (\<lambda>s.
        let n = (if length s \<le> 39 then 9 else 14) in
        if take n s = replicate n CHR ''1'' \<and> (n = 14 \<longrightarrow> 45 \<le> length s)
        then Inr (map (\<lambda>c. of_nat (of_char c)) (drop n s))
        else Inl ''invalid base58 text''),
      secp_pubkey = (\<lambda>sk. if length sk = 32 then Inr (2 # sk) else Inl ''malformed or out-of-range secret key''),
      ecdsa_sign = (\<lambda>sk m. Inr (2 # sk @ take 32 m)),
      ecdsa_verify = (\<lambda>pk m sig. Inr (sig = pk @ take 32 m))\<rparr>"

subsection \<open>The record and its wire format\<close>

record Transaction =
  version :: i32
  txin_count :: CompactSizeUint
  tx_in :: "TxIn list"
  txout_count :: CompactSizeUint
  tx_out :: "TxOut list"
  lock_time :: u32

definition Transaction_new ::
  "i32 \<Rightarrow> CompactSizeUint \<Rightarrow> TxIn list \<Rightarrow> CompactSizeUint \<Rightarrow> TxOut list \<Rightarrow> u32 \<Rightarrow> Transaction" where
  "Transaction_new v ic ins oc outs lt =
     \<lparr>version = v, txin_count = ic, tx_in = ins, txout_count = oc, tx_out = outs, lock_time = lt\<rparr>"

definition Transaction_unmarshalling :: "bytes \<Rightarrow> nat \<Rightarrow> (Transaction \<times> nat, string) result" where
  "Transaction_unmarshalling bytes offset =
     (if length bytes < 10 then
        Err ''The byte array is too short to be a transaction. It must be at least 10 bytes.''
      else
        and_then (read_u32_le bytes offset) (\<lambda>(v, offset).
        and_then (CompactSizeUint_unmarshalling bytes offset) (\<lambda>(ic, offset).
        and_then (decoded_value ic) (\<lambda>amount_txin.
        and_then (unmarshalling_txins bytes amount_txin offset) (\<lambda>(ins, offset).
        and_then (index_at ins 0) (\<lambda>first_in.
        if TxIn_is_coinbase first_in \<and> amount_txin \<noteq> 1 then
          Err ''A coinbase transaction must have only one txin.''
        else
        and_then (CompactSizeUint_unmarshalling bytes offset) (\<lambda>(oc, offset).
        and_then (decoded_value oc) (\<lambda>amount_txout.
        and_then (unmarshalling_txouts bytes amount_txout offset) (\<lambda>(outs, offset).
        and_then (read_u32_le bytes offset) (\<lambda>(lt, offset).
        Ok (\<lparr>version = v, txin_count = ic, tx_in = ins, txout_count = oc, tx_out = outs,
             lock_time = lt\<rparr>, offset)))))))))))"

definition Transaction_marshalling :: "Transaction \<Rightarrow> bytes" where
  "Transaction_marshalling self =
     u32_to_le_bytes (version self) @
     CompactSizeUint_marshalling (txin_count self) @
     concat (map TxIn_marshalling (tx_in self)) @
     CompactSizeUint_marshalling (txout_count self) @
     concat (map TxOut_marshalling (tx_out self)) @
     u32_to_le_bytes (lock_time self)"

definition unmarshalling_transactions ::
  "bytes \<Rightarrow> u64 \<Rightarrow> nat \<Rightarrow> (Transaction list \<times> nat, string) result" where
  "unmarshalling_transactions bytes amount_transactions offset =
     decode_n Transaction_unmarshalling (unat amount_transactions) bytes offset"

subsection \<open>Hashes and accessors\<close>

definition SIG_HASH_ALL :: u32 where "SIG_HASH_ALL = 1"
definition TRANSACTION_VERSION :: i32 where "TRANSACTION_VERSION = 2"

definition hash_message :: "crypto \<Rightarrow> Transaction \<Rightarrow> bool \<Rightarrow> hash32" where
  "hash_message cr self is_message =
     (let raw_transaction_bytes = Transaction_marshalling self;
          raw_transaction_bytes =
            (if is_message then raw_transaction_bytes @ u32_to_le_bytes SIG_HASH_ALL
             else raw_transaction_bytes)
      in if is_message then sha256 cr raw_transaction_bytes
         else sha256d cr raw_transaction_bytes)"

definition Transaction_hash :: "crypto \<Rightarrow> Transaction \<Rightarrow> hash32" where
  "Transaction_hash cr self = hash_message cr self False"

definition is_coinbase_transaction :: "Transaction \<Rightarrow> (bool, 'e) result" where
  "is_coinbase_transaction self =
     and_then (index_at (tx_in self) 0) (\<lambda>t. Ok (TxIn_is_coinbase t))"

definition get_txout :: "Transaction \<Rightarrow> TxOut list" where
  "get_txout self = tx_out self"

text \<open>\<open>amount += txout.value()\<close> in a loop: the sum panics when it leaves the \<open>i64\<close> range.\<close>

fun i64_sum :: "i64 \<Rightarrow> i64 list \<Rightarrow> (i64, 'e) result" where
  "i64_sum acc [] = Ok acc"
| "i64_sum acc (v # vs) = and_then (i64_add acc v) (\<lambda>acc. i64_sum acc vs)"

definition amount :: "Transaction \<Rightarrow> (i64, 'e) result" where
  "amount self = i64_sum 0 (map TxOut_value (tx_out self))"

definition Transaction_get_height :: "Transaction \<Rightarrow> (u32, 'e) result" where
  "Transaction_get_height self = and_then (index_at (tx_in self) 0) TxIn_get_height"

lemma i64_sum_sint:
  "i64_sum acc vs = (Ok r :: (i64, 'e) result) \<Longrightarrow> sint r = sint acc + (\<Sum>v \<leftarrow> vs. sint v)"
proof (induction vs arbitrary: acc)
  case (Cons v vs)
  then obtain acc' where "i64_add acc v = (Ok acc' :: (i64, 'e) result)" 
      and "i64_sum acc' vs = (Ok r :: (i64, 'e) result)"
    by (auto simp: and_then_eq_Ok)
  with Cons.IH [of acc'] i64_add_sint [of acc v acc'] show ?case by simp
qed simp

lemma i64_sum_never_Err [simp]: "i64_sum acc vs \<noteq> Err e"
  by (induction vs arbitrary: acc) (auto simp: i64_add_def)

lemma i64_sum_nonneg:
  assumes "\<forall>v \<in> set vs. 0 \<le> sint v" and "0 \<le> sint acc" and "sint acc + (\<Sum>v \<leftarrow> vs. sint v) \<le> i64_max"
  shows "\<exists>r. i64_sum acc vs = Ok r"
  using assms
proof (induction vs arbitrary: acc)
  case (Cons v vs)
  have "0 \<le> (\<Sum>v \<leftarrow> vs. sint v)"
    using Cons.prems(1) by (intro sum_list_nonneg) auto
  then have f: "fits_i64 (sint acc + sint v)"
    using Cons.prems by (auto simp: fits_i64_def i64_min_def)
  then have "sint (acc + v) = sint acc + sint v"
    by (rule sint_i64_add)
  with Cons.IH [of "acc + v"] Cons.prems f show ?case
    by (simp add: i64_add_def)
qed simp

subsection \<open>Both directions of the wire format\<close>

definition wf_tx :: "Transaction \<Rightarrow> bool" where
  "wf_tx t \<longleftrightarrow> wf_compact (txin_count t) \<and> compact_nat (txin_count t) = length (tx_in t) \<and>
     list_all wf_txin (tx_in t) \<and> tx_in t \<noteq> [] \<and>
     (TxIn_is_coinbase (hd (tx_in t)) \<longrightarrow> length (tx_in t) = 1) \<and>
     wf_compact (txout_count t) \<and> compact_nat (txout_count t) = length (tx_out t) \<and>
     list_all wf_txout (tx_out t)"

lemma unmarshalling_txins_iff:
  "wf_compact c \<Longrightarrow> off \<le> length bs \<Longrightarrow>
     unmarshalling_txins bs (of_nat (compact_nat c)) off = Ok (xs, off') \<longleftrightarrow>
     list_all wf_txin xs \<and> length xs = compact_nat c \<and>
     occurs_at bs off (concat (map TxIn_marshalling xs)) \<and>
     off' = off + length (concat (map TxIn_marshalling xs))"
  by (simp add: unmarshalling_txins_def unat_decoded txin.decode_n_iff list_all_iff)

lemma unmarshalling_txouts_iff:
  "wf_compact c \<Longrightarrow> off \<le> length bs \<Longrightarrow>
     unmarshalling_txouts bs (of_nat (compact_nat c)) off = Ok (xs, off') \<longleftrightarrow>
     list_all wf_txout xs \<and> length xs = compact_nat c \<and>
     occurs_at bs off (concat (map TxOut_marshalling xs)) \<and>
     off' = off + length (concat (map TxOut_marshalling xs))"
  by (simp add: unmarshalling_txouts_def unat_decoded txout.decode_n_iff list_all_iff)

lemma compact_neq_1:
  "wf_compact c \<Longrightarrow> (of_nat (compact_nat c) :: u64) = 1 \<longleftrightarrow> compact_nat c = 1"
  using unat_decoded [of c] by (metis of_nat_1 unat_1)

lemma length_Transaction_marshalling: "wf_tx t \<Longrightarrow> 51 \<le> length (Transaction_marshalling t)"
proof -
  assume wf: "wf_tx t"
  then obtain i rest where i: "tx_in t = i # rest" and "wf_txin i"
    by (cases "tx_in t") (auto simp: wf_tx_def)
  then show ?thesis
    using length_TxIn_marshalling [of i] length_compact_pos [of "txin_count t"]
      length_compact_pos [of "txout_count t"] wf
    by (auto simp: Transaction_marshalling_def wf_tx_def)
qed

lemma Transaction_dec_iff:
  "Transaction_unmarshalling bs off = Ok (x, off') \<longleftrightarrow>
     wf_tx x \<and> occurs_at bs off (Transaction_marshalling x) \<and>
     off' = off + length (Transaction_marshalling x)"
proof (cases "length bs < 10")
  case True
  then show ?thesis
    using occurs_at_bound [of bs off "Transaction_marshalling x"] length_Transaction_marshalling [of x]
    by (auto simp: Transaction_unmarshalling_def)
next
  case False
  obtain v ic ins oc outs lt where x: "x = \<lparr>version = v, txin_count = ic, tx_in = ins,
      txout_count = oc, tx_out = outs, lock_time = lt\<rparr>"
    by (cases x) auto
  from False show ?thesis
    by (auto simp: x Transaction_unmarshalling_def Transaction_marshalling_def wf_tx_def
        and_then_eq_Ok read_iffs compact.dec_iff decoded_value_wf unmarshalling_txins_iff
        unmarshalling_txouts_iff occurs_at_bound index_at_eq_Ok compact_neq_1 hd_conv_nth
        occurs_at_append cong: conj_cong split: if_splits)
qed

interpretation tx: exact_codec Transaction_marshalling Transaction_unmarshalling wf_tx
  by unfold_locales (auto simp: Transaction_dec_iff)

subsection \<open>Properties\<close>

text \<open>
  C29. \<open>Transaction::unmarshalling\<close> accepts exactly the bytes that \<open>Transaction::marshalling\<close> writes
  for a well-formed transaction (counts that match the lists, at least one input, a coinbase input
  only on its own), wherever they stand, and moves the offset to their end. So a transaction that
  was received is hashed and relayed as the very bytes that arrived.
\<close>

theorem transaction_wire_exact:
  "Transaction_unmarshalling bs off = Ok (t, off') \<longleftrightarrow>
     wf_tx t \<and> occurs_at bs off (Transaction_marshalling t) \<and>
     off' = off + length (Transaction_marshalling t)"
  by (rule tx.dec_iff)

end
