(* ===== verification/Block_Header.thy ===== *)
theory Block_Header
  imports Transaction
begin

section \<open>Block headers (src/blocks/block\_header.rs)\<close>

text \<open>
  The 80-byte header, its wire format, its hash and the proof-of-work check. The main results:
  the reader and the writer are exact inverses, and the byte-wise comparison of the check is the
  numeric comparison of the hash with the target that \<open>n_bits\<close> encodes.
\<close>

record BlockHeader =
  bh_version :: i32
  previous_block_header_hash :: hash32
  merkle_root_hash :: hash32
  bh_time :: u32
  n_bits :: u32
  nonce :: u32

definition BlockHeader_new :: "i32 \<Rightarrow> hash32 \<Rightarrow> hash32 \<Rightarrow> u32 \<Rightarrow> u32 \<Rightarrow> u32 \<Rightarrow> BlockHeader" where
  "BlockHeader_new v p m t n c =
     \<lparr>bh_version = v, previous_block_header_hash = p, merkle_root_hash = m, bh_time = t,
      n_bits = n, nonce = c\<rparr>"

definition BlockHeader_unmarshalling :: "bytes \<Rightarrow> nat \<Rightarrow> (BlockHeader \<times> nat, string) result" where
  "BlockHeader_unmarshalling block_header_message offset =
     and_then (usize_sub (length block_header_message) offset) (\<lambda>left.
       if left < 80 then
         Err ''The received bytes are not enough to deserialize the block header message''
       else
         and_then (read_u32_le block_header_message offset) (\<lambda>(v, offset).
         and_then (read_array 32 block_header_message offset) (\<lambda>(p, offset).
         and_then (read_array 32 block_header_message offset) (\<lambda>(m, offset).
         and_then (read_u32_le block_header_message offset) (\<lambda>(t, offset).
         and_then (read_u32_le block_header_message offset) (\<lambda>(n, offset).
         and_then (read_u32_le block_header_message offset) (\<lambda>(c, offset).
         Ok (\<lparr>bh_version = v, previous_block_header_hash = p, merkle_root_hash = m, bh_time = t,
              n_bits = n, nonce = c\<rparr>, offset))))))))"

definition BlockHeader_marshalling :: "BlockHeader \<Rightarrow> bytes" where
  "BlockHeader_marshalling self =
     u32_to_le_bytes (bh_version self) @
     previous_block_header_hash self @
     merkle_root_hash self @
     u32_to_le_bytes (bh_time self) @
     u32_to_le_bytes (n_bits self) @
     u32_to_le_bytes (nonce self)"

definition BlockHeader_hash :: "crypto \<Rightarrow> BlockHeader \<Rightarrow> hash32" where
  "BlockHeader_hash cr self = sha256d cr (BlockHeader_marshalling self)"

definition is_same_merkle_root_hash :: "BlockHeader \<Rightarrow> hash32 \<Rightarrow> bool" where
  "is_same_merkle_root_hash self received_hash \<longleftrightarrow> merkle_root_hash self = received_hash"

subsection \<open>Proof of work\<close>

text \<open>Writing an array element, and Rust's \<open><\<close> on byte arrays (lexicographic).\<close>

definition array_set :: "'a list \<Rightarrow> nat \<Rightarrow> 'a \<Rightarrow> ('a list, 'e) result" where
  "array_set xs i x = (if i < length xs then Ok (xs[i := x]) else Panic)"

fun bytes_less :: "bytes \<Rightarrow> bytes \<Rightarrow> bool" where
  "bytes_less [] ys \<longleftrightarrow> ys \<noteq> []"
| "bytes_less (x # xs) [] \<longleftrightarrow> False"
| "bytes_less (x # xs) (y # ys) \<longleftrightarrow> x < y \<or> (x = y \<and> bytes_less xs ys)"

text \<open>\<open>for i in 0..3 { target[initial_mantissa_position + i] = mantissa[i]; }\<close>\<close>

fun write_mantissa :: "nat \<Rightarrow> nat \<Rightarrow> bytes \<Rightarrow> bytes \<Rightarrow> (bytes, 'e) result" where
  "write_mantissa pos i [] target = Ok target"
| "write_mantissa pos i (m # ms) target =
     and_then (array_set target (pos + i) m) (write_mantissa pos (i + 1) ms)"

definition BlockHeader_validate :: "crypto \<Rightarrow> BlockHeader \<Rightarrow> (bool, 'e) result" where
  "BlockHeader_validate cr self =
     (let n_bits_bytes = u32_to_be_bytes (n_bits self);
          mantissa = take 3 (drop 1 n_bits_bytes);
          first_byte = n_bits_bytes ! 0
      in if first_byte > 32 then Ok False
         else
           let initial_mantissa_position = unat (32 - first_byte) in
           and_then (write_mantissa initial_mantissa_position 0 mantissa (replicate 32 0)) (\<lambda>target.
           let block_hash = rev (BlockHeader_hash cr self) in
           if bytes_less block_hash target then Ok True else Ok False))"

subsection \<open>Both directions of the wire format\<close>

definition wf_header :: "BlockHeader \<Rightarrow> bool" where
  "wf_header h \<longleftrightarrow> length (previous_block_header_hash h) = 32 \<and> length (merkle_root_hash h) = 32"

lemma length_BlockHeader_marshalling [simp]:
  "wf_header h \<Longrightarrow> length (BlockHeader_marshalling h) = 80"
  by (simp add: BlockHeader_marshalling_def wf_header_def)

lemma BlockHeader_dec_iff:
  "BlockHeader_unmarshalling bs off = Ok (x, off') \<longleftrightarrow>
     wf_header x \<and> occurs_at bs off (BlockHeader_marshalling x) \<and>
     off' = off + length (BlockHeader_marshalling x)"
proof (cases "off + 80 \<le> length bs")
  case False
  then show ?thesis
    using occurs_at_bound [of bs off "BlockHeader_marshalling x"]
    by (auto simp: BlockHeader_unmarshalling_def usize_sub_def)
next
  case True
  obtain v p m t n c where x: "x = \<lparr>bh_version = v, previous_block_header_hash = p,
      merkle_root_hash = m, bh_time = t, n_bits = n, nonce = c\<rparr>"
    by (cases x) auto
  from True show ?thesis
    by (auto simp: x BlockHeader_unmarshalling_def BlockHeader_marshalling_def wf_header_def
        usize_sub_def and_then_eq_Ok read_iffs occurs_at_append add.assoc cong: conj_cong)
qed

interpretation header: exact_codec BlockHeader_marshalling BlockHeader_unmarshalling wf_header
  by unfold_locales (auto simp: BlockHeader_dec_iff)

subsection \<open>The target as a number\<close>

text \<open>The exponent and the mantissa of the compact target.\<close>

definition bits_exponent :: "BlockHeader \<Rightarrow> nat" where
  "bits_exponent h = unat (n_bits h) div 2 ^ 24"

definition bits_mantissa :: "BlockHeader \<Rightarrow> nat" where
  "bits_mantissa h = unat (n_bits h) mod 2 ^ 24"

lemma le_nat_append: "le_nat (xs @ ys) = le_nat xs + 256 ^ length xs * le_nat ys"
  by (induction xs) (auto simp: algebra_simps)

lemma le_nat_zeros [simp]: "le_nat (replicate n 0) = 0"
  by (induction n) auto

lemma bytes_less_numeric:
  "length xs = length ys \<Longrightarrow> bytes_less xs ys \<longleftrightarrow> le_nat (rev xs) < le_nat (rev ys)"
proof (induction xs ys rule: bytes_less.induct)
  case (3 x xs y ys)
  let ?B = "(256 :: nat) ^ length ys"
  have lx: "le_nat (rev xs) < ?B" and ly: "le_nat (rev ys) < ?B"
    using le_nat_less [of "rev xs"] le_nat_less [of "rev ys"] 3 by auto
  have step: "a < b \<Longrightarrow> le_nat (rev us) < ?B \<Longrightarrow>
      le_nat (rev us) + ?B * a < le_nat (rev vs) + ?B * b" for a b us vs
  proof -
    assume "a < b" and u: "le_nat (rev us) < ?B"
    then have "?B * Suc a \<le> ?B * b" by (intro mult_le_mono2) simp
    with u show ?thesis by simp
  qed
  show ?case
  proof (cases "unat x" "unat y" rule: linorder_cases)
    case less
    with step [OF less lx, of ys] 3 show ?thesis
      by (simp add: le_nat_append word_less_nat_alt)
  next
    case equal
    with 3 show ?thesis
      by (simp add: le_nat_append word_less_nat_alt word_unat_eq_iff)
  next
    case greater
    with step [OF greater ly, of xs] 3 show ?thesis
      by (simp add: le_nat_append word_less_nat_alt word_unat_eq_iff)
  qed
qed auto

lemma le_bytes_snoc: "le_bytes (Suc n) v = le_bytes n v @ [of_nat (v div 256 ^ n)]"
proof (induction n arbitrary: v)
  case (Suc n)
  have "le_bytes (Suc (Suc n)) v = of_nat v # le_bytes (Suc n) (v div 256)"
    by (rule le_bytes.simps)
  then show ?case
    unfolding Suc [of "v div 256"] by (simp add: div_mult2_eq)
qed simp

lemma le_bytes_4: "le_bytes 4 v = le_bytes 3 v @ [of_nat (v div 2 ^ 24)]"
  using le_bytes_snoc [of 3 v] by simp

lemma n_bits_bytes:
  "u32_to_be_bytes (n_bits h) ! 0 = of_nat (bits_exponent h)"
  "take 3 (drop 1 (u32_to_be_bytes (n_bits h))) = rev (le_bytes 3 (unat (n_bits h)))"
  by (simp_all add: u32_to_be_bytes_def le_bytes_4 bits_exponent_def)

lemma bits_exponent_less: "bits_exponent h < 256"
  using unat_u32_bound [of "n_bits h"] by (simp add: bits_exponent_def)

lemma unat_bits_exponent: "unat (of_nat (bits_exponent h) :: u8) = bits_exponent h"
  using bits_exponent_less [of h] by (simp add: unat_of_nat)

lemma write_mantissa_Ok:
  "pos + i + length ms \<le> length t \<Longrightarrow>
     write_mantissa pos i ms t = Ok (take (pos + i) t @ ms @ drop (pos + i + length ms) t)"
proof (induction ms arbitrary: i t)
  case (Cons m ms)
  let ?t = "t[pos + i := m]"
  have "take (Suc (pos + i)) ?t = take (pos + i) t @ [m]"
    using Cons.prems by (simp add: take_Suc_conv_app_nth)
  with Cons.IH [of "i + 1" ?t] Cons.prems show ?case
    by (simp add: array_set_def)
qed simp

lemma write_mantissa_Panic:
  "length t < pos + i + length ms \<Longrightarrow> ms \<noteq> [] \<Longrightarrow> write_mantissa pos i ms t = Panic"
proof (induction ms arbitrary: i t)
  case (Cons m ms)
  then show ?case
    using Cons.IH [of "t[pos + i := m]" "i + 1"] by (cases "ms = []") (auto simp: array_set_def)
qed simp

lemma first_byte_gt: "(32 < (of_nat (bits_exponent h) :: u8)) = (32 < bits_exponent h)"
  by (simp add: word_less_nat_alt unat_bits_exponent)

lemma mantissa_position:
  "bits_exponent h \<le> 32 \<Longrightarrow> unat (32 - of_nat (bits_exponent h) :: u8) = 32 - bits_exponent h"
  by (subst unat_sub) (simp_all add: word_le_nat_alt unat_bits_exponent)

lemma BlockHeader_validate_large: "32 < bits_exponent h \<Longrightarrow> BlockHeader_validate cr h = Ok False"
  by (simp add: BlockHeader_validate_def n_bits_bytes first_byte_gt)

lemma BlockHeader_validate_small: "bits_exponent h < 3 \<Longrightarrow> BlockHeader_validate cr h = Panic"
  unfolding BlockHeader_validate_def n_bits_bytes Let_def first_byte_gt
  by (subst write_mantissa_Panic) (simp_all add: mantissa_position flip: length_0_conv)

lemma BlockHeader_validate_mid:
  assumes "3 \<le> bits_exponent h" and "bits_exponent h \<le> 32" and "length (BlockHeader_hash cr h) = 32"
  shows "BlockHeader_validate cr h =
    (Ok (le_nat (BlockHeader_hash cr h) < bits_mantissa h * 256 ^ (bits_exponent h - 3)) :: (bool, 'e) result)"
proof -
  let ?e = "bits_exponent h" and ?m = "rev (le_bytes 3 (unat (n_bits h)))"
  let ?target = "replicate (32 - ?e) 0 @ ?m @ replicate (?e - 3) 0"
  have w: "write_mantissa (32 - ?e) 0 ?m (replicate 32 0) = (Ok ?target :: (bytes, 'e) result)"
    using assms by (subst write_mantissa_Ok) simp_all
  have "le_nat (rev ?target) = 256 ^ (?e - 3) * (unat (n_bits h) mod 256 ^ 3)"
    by (simp add: le_nat_append le_nat_le_bytes)
  then have "bytes_less (rev (BlockHeader_hash cr h)) ?target \<longleftrightarrow>
      le_nat (BlockHeader_hash cr h) < bits_mantissa h * 256 ^ (?e - 3)"
    using assms by (subst bytes_less_numeric) (simp_all add: bits_mantissa_def mult.commute)
  then show ?thesis
    unfolding BlockHeader_validate_def n_bits_bytes Let_def first_byte_gt
    using assms w by (simp add: mantissa_position)
qed

text \<open>The hash, as a number, is below the target that the header states.\<close>

definition meets_target :: "crypto \<Rightarrow> BlockHeader \<Rightarrow> bool" where
  "meets_target cr h \<longleftrightarrow> 3 \<le> bits_exponent h \<and> bits_exponent h \<le> 32 \<and>
     le_nat (BlockHeader_hash cr h) < bits_mantissa h * 256 ^ (bits_exponent h - 3)"

lemma BlockHeader_validate_Ok:
  "length (BlockHeader_hash cr h) = 32 \<Longrightarrow>
     BlockHeader_validate cr h = (if bits_exponent h < 3 then Panic else Ok (meets_target cr h))"
  by (cases "32 < bits_exponent h")
    (simp_all add: BlockHeader_validate_large BlockHeader_validate_small BlockHeader_validate_mid meets_target_def)

lemma BlockHeader_validate_iff:
  "length (BlockHeader_hash cr h) = 32 \<Longrightarrow> BlockHeader_validate cr h = Ok True \<longleftrightarrow> meets_target cr h"
  by (auto simp: BlockHeader_validate_Ok meets_target_def)

subsection \<open>Properties\<close>

text \<open>
  C26. The proof-of-work check: with an exponent above 32 the header is refused, with an exponent
  below 3 the write to the target array is out of range and the check panics, and otherwise it
  accepts exactly when the block hash, read as a little-endian number, is below the target
  \<open>mantissa * 256 ^ (exponent - 3)\<close>.
\<close>

theorem header_proof_of_work:
  assumes "length (BlockHeader_hash cr h) = 32"
  shows "BlockHeader_validate cr h =
    ((if 32 < bits_exponent h then Ok False
      else if bits_exponent h < 3 then Panic
      else Ok (le_nat (BlockHeader_hash cr h) < bits_mantissa h * 256 ^ (bits_exponent h - 3)))
       :: (bool, 'e) result)"
  using assms
  by (simp add: BlockHeader_validate_large BlockHeader_validate_small BlockHeader_validate_mid)

definition sample_header :: BlockHeader where
  "sample_header = BlockHeader_new 1 (replicate 32 0) ([0, 0, 0, 0, 1] @ replicate 27 0) 0 0x1d00ffff 0"

lemma sample_header_hash: "BlockHeader_hash sample_crypto sample_header = 1 # replicate 31 0"
  by (simp add: BlockHeader_hash_def BlockHeader_marshalling_def sha256d_def sample_crypto_def
      sample_header_def BlockHeader_new_def compute)

lemma sample_header_bits: "bits_exponent sample_header = 29" "bits_mantissa sample_header = 65535"
  by (simp_all add: bits_exponent_def bits_mantissa_def sample_header_def BlockHeader_new_def)

lemma sample_header_pow: "BlockHeader_validate sample_crypto sample_header = Ok True"
  by (subst BlockHeader_validate_mid) (simp_all add: sample_header_hash sample_header_bits)

theorem header_proof_of_work_witness:
  "length (BlockHeader_hash sample_crypto sample_header) = 32 \<and>
   BlockHeader_validate sample_crypto sample_header = (Ok True :: (bool, unit) result)"
  using header_proof_of_work [where 'e = unit, of sample_crypto sample_header]
  by (simp add: sample_header_hash sample_header_bits)

end
