(* ===== verification/Merkle.thy ===== *)
theory Merkle
  imports Block_Header
begin

section \<open>Merkle roots and proofs (src/blocks/block.rs, merkle\_tree.rs, utils\_block.rs)\<close>

text \<open>
  The sources compute Merkle roots twice: \<open>Block::recursive_generation_merkle_root\<close> folds the
  transaction ids to one hash, and \<open>MerkleTree\<close> keeps every level (padded to an even length) so
  that it can hand out inclusion paths, which \<open>make_merkle_proof\<close> replays. Both recursions never
  return on an empty list; they are partial functions here, \<open>None\<close> being "does not return".

  A reference definition \<open>merkle_root\<close> over an arbitrary combining function ties the three
  together: the block's root is the reference root, the tree's root is the reference root of the
  padded leaves, and every leaf has a path that the verifier accepts.
\<close>

subsection \<open>The code\<close>

definition concatenate_and_hash :: "crypto \<Rightarrow> hash32 \<Rightarrow> hash32 \<Rightarrow> hash32" where
  "concatenate_and_hash cr first_hash second_hash = sha256d cr (first_hash @ second_hash)"

text \<open>
  The loop over the vector: \<open>amount_hashs\<close> counts to two, \<open>current_position\<close> is the index of the
  element at hand.
\<close>

fun pairing_loop ::
  "crypto \<Rightarrow> hash32 list \<Rightarrow> hash32 list \<Rightarrow> nat \<Rightarrow> nat \<Rightarrow> hash32 list \<Rightarrow> hash32 list \<times> nat"
where
  "pairing_loop cr vector [] amount_hashs current_position upper_level =
     (upper_level, current_position)"
| "pairing_loop cr vector (t # txs) amount_hashs current_position upper_level =
     (let amount_hashs = amount_hashs + 1 in
      if amount_hashs = 2 then
        pairing_loop cr vector txs 0 (current_position + 1)
          (upper_level @ [concatenate_and_hash cr (vector ! (current_position - 1)) t])
      else pairing_loop cr vector txs amount_hashs (current_position + 1) upper_level)"

definition upper_level_of :: "crypto \<Rightarrow> hash32 list \<Rightarrow> hash32 list" where
  "upper_level_of cr vector =
     (let (upper_level, current_position) = pairing_loop cr vector vector 0 0 [] in
      if length vector mod 2 \<noteq> 0 then
        upper_level @
          [concatenate_and_hash cr (vector ! (current_position - 1)) (vector ! (current_position - 1))]
      else upper_level)"

partial_function (option) recursive_generation_merkle_root ::
  "crypto \<Rightarrow> hash32 list \<Rightarrow> hash32 option" where
  "recursive_generation_merkle_root cr vector =
     (if length vector = 1 then Some (vector ! 0)
      else recursive_generation_merkle_root cr (upper_level_of cr vector))"

record MerkleTree =
  hashes :: "hash32 list list"

partial_function (option) MerkleTree_levels ::
  "crypto \<Rightarrow> hash32 list \<Rightarrow> hash32 list list \<Rightarrow> hash32 list list option" where
  "MerkleTree_levels cr vector merkle_tree =
     (if length vector = 1 then Some merkle_tree
      else
        let upper_level = upper_level_of cr vector;
            merkle_tree = merkle_tree @ [upper_level];
            length_upper_level = length upper_level
        in if length_upper_level = 1 then Some merkle_tree
           else
             MerkleTree_levels cr upper_level
               (if length_upper_level mod 2 \<noteq> 0 then
                  let last_position = length merkle_tree - 1 in
                  merkle_tree[last_position :=
                    merkle_tree ! last_position @ [upper_level ! (length_upper_level - 1)]]
                else merkle_tree))"

definition generate_merkle_tree :: "crypto \<Rightarrow> hash32 list \<Rightarrow> hash32 list list option" where
  "generate_merkle_tree cr txs =
     (let length_txs = length txs;
          merkle_transactions =
            (if length_txs mod 2 > 0 then txs @ [txs ! (length_txs - 1)] else txs)
      in MerkleTree_levels cr merkle_transactions [merkle_transactions])"

definition MerkleTree_new :: "crypto \<Rightarrow> hash32 list \<Rightarrow> MerkleTree option" where
  "MerkleTree_new cr hs = map_option (\<lambda>t. \<lparr>hashes = t\<rparr>) (generate_merkle_tree cr hs)"

definition get_merkle_root :: "MerkleTree \<Rightarrow> (hash32, 'e) result" where
  "get_merkle_root self =
     and_then (usize_sub (length (hashes self)) 1) (\<lambda>root_position.
     and_then (index_at (hashes self) root_position) (\<lambda>level. index_at level 0))"

function get_hash_from_level ::
  "hash32 list list \<Rightarrow> (hash32 \<times> bool) list \<Rightarrow> nat \<Rightarrow> nat \<Rightarrow> ((hash32 \<times> bool) list, 'e) result"
where
  "get_hash_from_level merkle_tree path level index =
     (if length merkle_tree \<le> level then Panic
      else if length (merkle_tree ! level) = 1 then Ok (path @ [(merkle_tree ! level ! 0, False)])
      else
        and_then
          (if index mod 2 = 0 then
             and_then (index_at (merkle_tree ! level) (index + 1)) (\<lambda>h. Ok (path @ [(h, False)]))
           else
             and_then (index_at (merkle_tree ! level) (index - 1)) (\<lambda>h. Ok (path @ [(h, True)])))
          (\<lambda>path. get_hash_from_level merkle_tree path (level + 1) (index div 2)))"
  by pat_completeness auto
termination
  by (relation "measure (\<lambda>(t, p, l, i). length t - l)") auto

declare get_hash_from_level.simps [simp del]

text \<open>The search loop over the leaves: the first index that holds the hash, if any.\<close>

fun find_index :: "hash32 list \<Rightarrow> hash32 \<Rightarrow> nat \<Rightarrow> nat option" where
  "find_index [] x i = None"
| "find_index (y # ys) x i = (if y = x then Some i else find_index ys x (i + 1))"

definition MerkleTree_proof_of_inclusion ::
  "MerkleTree \<Rightarrow> hash32 \<Rightarrow> ((hash32 \<times> bool) list option, 'e) result" where
  "MerkleTree_proof_of_inclusion self tx_id_to_find =
     and_then (index_at (hashes self) 0) (\<lambda>current_level.
     case find_index current_level tx_id_to_find 0 of
       None \<Rightarrow> Ok None
     | Some index \<Rightarrow>
         and_then
           (if index mod 2 = 0 then
              and_then (index_at current_level (index + 1)) (\<lambda>h. Ok [(h, False)])
            else and_then (index_at current_level (index - 1)) (\<lambda>h. Ok [(h, True)]))
           (\<lambda>path.
         and_then (get_hash_from_level (hashes self) path 1 (index div 2)) (\<lambda>path.
         Ok (Some path))))"

fun merkle_proof_loop :: "crypto \<Rightarrow> (hash32 \<times> bool) list \<Rightarrow> hash32 \<Rightarrow> hash32" where
  "merkle_proof_loop cr [] current_tx = current_tx"
| "merkle_proof_loop cr ((h, hash_first) # hs) current_tx =
     merkle_proof_loop cr hs
       (if hash_first then concatenate_and_hash cr h current_tx
        else concatenate_and_hash cr current_tx h)"

definition make_merkle_proof :: "crypto \<Rightarrow> (hash32 \<times> bool) list \<Rightarrow> hash32 \<Rightarrow> (bool, 'e) result" where
  "make_merkle_proof cr hs tx_id_to_find =
     and_then (usize_sub (length hs) 1) (\<lambda>root_position.
     let current_tx = merkle_proof_loop cr (take root_position hs) tx_id_to_find in
     and_then (index_at hs root_position) (\<lambda>root.
     Ok (current_tx = fst root)))"

subsection \<open>The reference: pairing up and folding to one\<close>

fun pair_up :: "('a \<Rightarrow> 'a \<Rightarrow> 'a) \<Rightarrow> 'a list \<Rightarrow> 'a list" where
  "pair_up h [] = []"
| "pair_up h [x] = [h x x]"
| "pair_up h (x # y # xs) = h x y # pair_up h xs"

lemma length_pair_up [simp]: "length (pair_up h xs) = (length xs + 1) div 2"
  by (induction h xs rule: pair_up.induct) auto

lemma pair_up_eq_Nil [simp]: "pair_up h xs = [] \<longleftrightarrow> xs = []"
  by (cases "(h, xs)" rule: pair_up.cases) auto

function merkle_root :: "('a \<Rightarrow> 'a \<Rightarrow> 'a) \<Rightarrow> 'a list \<Rightarrow> 'a" where
  "merkle_root h xs = (if length xs \<le> 1 then hd xs else merkle_root h (pair_up h xs))"
  by pat_completeness auto
termination
  by (relation "measure (\<lambda>(h, xs). length xs)") auto

declare merkle_root.simps [simp del]

lemma pairing_loop_even:
  "vector = pre @ rest \<Longrightarrow> even (length pre) \<Longrightarrow>
     pairing_loop cr vector rest 0 (length pre) up =
       (up @ pair_up (concatenate_and_hash cr) (take (2 * (length rest div 2)) rest), length vector)"
proof (induction "concatenate_and_hash cr" rest arbitrary: pre up rule: pair_up.induct)
  case (3 x y xs)
  from "3.hyps" [of "pre @ [x, y]"] "3.prems" show ?case
    by (simp add: nth_append)
qed simp_all

lemma upper_level_of_eq: "upper_level_of cr xs = pair_up (concatenate_and_hash cr) xs"
proof -
  have odd: "pair_up h xs = pair_up h (take (2 * (length xs div 2)) xs) @ [h (xs ! (length xs - 1)) (xs ! (length xs - 1))]"
    if "length xs mod 2 \<noteq> 0" for h :: "'a \<Rightarrow> 'a \<Rightarrow> 'a" and xs
    using that
  proof (induction h xs rule: pair_up.induct)
    case (3 h x y xs)
    then show ?case by (cases xs) auto
  qed auto
  show ?thesis
    using pairing_loop_even [of xs "[]" xs cr "[]"] odd [of xs "concatenate_and_hash cr"]
    by (auto simp: upper_level_of_def)
qed

subsection \<open>The block's recursion\<close>

lemma recursive_generation_merkle_root_eq:
  "xs \<noteq> [] \<Longrightarrow>
     recursive_generation_merkle_root cr xs = Some (merkle_root (concatenate_and_hash cr) xs)"
proof (induction "length xs" arbitrary: xs rule: less_induct)
  case less
  show ?case
  proof (cases "length xs = 1")
    case True
    with less.prems show ?thesis
      by (simp add: recursive_generation_merkle_root.simps merkle_root.simps [of _ xs] hd_conv_nth)
  next
    case False
    then have big: "1 < length xs"
      using less.prems by (cases xs) auto
    with less.hyps [of "pair_up (concatenate_and_hash cr) xs"] less.prems show ?thesis
      by (simp add: recursive_generation_merkle_root.simps [of _ xs] upper_level_of_eq
          merkle_root.simps [of _ xs] flip: length_greater_0_conv)
  qed
qed

lemma recursive_generation_returns_nonempty:
  assumes "recursive_generation_merkle_root cr xs = Some r"
  shows "xs \<noteq> []"
  by (rule recursive_generation_merkle_root.raw_induct [where P = "\<lambda>cr xs r. xs \<noteq> []", OF _ assms])
    (fastforce simp: upper_level_of_eq split: if_splits)

lemma recursive_generation_empty: "recursive_generation_merkle_root cr [] = None"
  using recursive_generation_returns_nonempty by (cases "recursive_generation_merkle_root cr []") auto

subsection \<open>The levels of the tree\<close>

text \<open>A stored level: of even length, except the root.\<close>

definition pad :: "'a list \<Rightarrow> 'a list" where
  "pad xs = (if length xs \<noteq> 1 \<and> odd (length xs) then xs @ [last xs] else xs)"

definition leaves :: "'a list \<Rightarrow> 'a list" where
  "leaves xs = (if odd (length xs) then xs @ [last xs] else xs)"

lemma length_pad_less: "1 < length xs \<Longrightarrow> length (pad (pair_up h xs)) < length xs"
  by (auto simp: pad_def) presburger+

lemma pad_ne: "xs \<noteq> [] \<Longrightarrow> pad xs \<noteq> []"
  by (simp add: pad_def)

lemma pad_shape: "length (pad xs) = 1 \<or> even (length (pad xs))"
  by (simp add: pad_def)

lemma nth_pad: "i < length xs \<Longrightarrow> pad xs ! i = xs ! i"
  by (simp add: pad_def nth_append)

lemma length_pad_ge: "length xs \<le> length (pad xs)"
  by (simp add: pad_def)

lemma pair_up_dup_last: "odd (length xs) \<Longrightarrow> pair_up h (xs @ [last xs]) = pair_up h xs"
  by (induction h xs rule: pair_up.induct) auto

lemma pair_up_pad: "pair_up h (pad xs) = pair_up h xs"
  by (simp add: pad_def pair_up_dup_last)

lemma merkle_root_pad: "merkle_root h (pad xs) = merkle_root h xs"
proof (cases "length xs \<le> 1")
  case True
  then show ?thesis by (cases xs) (auto simp: pad_def)
next
  case False
  then have "1 < length (pad xs)"
    using length_pad_ge [of xs] by simp
  with False show ?thesis
    by (simp add: merkle_root.simps [of h xs] merkle_root.simps [of h "pad xs"] pair_up_pad)
qed

function tree_from :: "('a \<Rightarrow> 'a \<Rightarrow> 'a) \<Rightarrow> 'a list \<Rightarrow> 'a list list" where
  "tree_from h xs = (if length xs \<le> 1 then [xs] else xs # tree_from h (pad (pair_up h xs)))"
  by pat_completeness auto
termination
  by (relation "measure (\<lambda>(h, xs). length xs)") (auto simp: length_pad_less)

declare tree_from.simps [simp del]

lemma tree_from_ne [simp]: "tree_from h xs \<noteq> []"
  by (simp add: tree_from.simps [of h xs])

lemma last_tree_from: "xs \<noteq> [] \<Longrightarrow> last (tree_from h xs) = [merkle_root h xs]"
proof (induction h xs rule: tree_from.induct)
  case (1 h xs)
  show ?case
  proof (cases "length xs \<le> 1")
    case True
    with "1.prems" obtain a where "xs = [a]"
      by (cases xs) auto
    then show ?thesis
      by (simp add: tree_from.simps [of h "[a]"] merkle_root.simps [of h "[a]"])
  next
    case False
    then have "pad (pair_up h xs) \<noteq> []"
      using "1.prems" by (intro pad_ne) simp
    with "1.IH" [OF False] False show ?thesis
      by (simp add: tree_from.simps [of h xs] merkle_root_pad merkle_root.simps [of h xs])
  qed
qed

lemma set_last: "(ts @ [a, b])[Suc (length ts) := c] = ts @ [a, c]"
  by (induction ts) auto

lemma mod2_ne_0: "n mod 2 \<noteq> 0 \<longleftrightarrow> n mod 2 = (1 :: nat)"
  by auto

lemma MerkleTree_levels_eq:
  "1 < length xs \<Longrightarrow>
     MerkleTree_levels cr xs (ts @ [pad xs]) = Some (ts @ tree_from (concatenate_and_hash cr) (pad xs))"
proof (induction "length xs" arbitrary: xs ts rule: less_induct)
  case less
  let ?h = "concatenate_and_hash cr"
  let ?up = "pair_up ?h xs"
  have big: "1 < length (pad xs)"
    using less.prems length_pad_ge [of xs] by simp
  then have t: "tree_from ?h (pad xs) = pad xs # tree_from ?h (pad ?up)"
    by (simp add: tree_from.simps [of ?h "pad xs"] pair_up_pad)
  show ?case
  proof (cases "length ?up = 1")
    case True
    then have "tree_from ?h (pad ?up) = [?up]"
      by (simp add: pad_def tree_from.simps)
    with True t less.prems show ?thesis
      by (simp add: MerkleTree_levels.simps [of _ xs] upper_level_of_eq Let_def)
  next
    case False
    then have up: "1 < length ?up" and small: "length ?up < length xs"
      using less.prems by auto
    have "?up ! (length ?up - 1) = last ?up"
      using up by (metis last_conv_nth length_0_conv not_one_less_zero)
    then have p: "pad ?up = (if length ?up mod 2 \<noteq> 0 then ?up @ [?up ! (length ?up - 1)] else ?up)"
      using False by (simp only: pad_def odd_iff_mod_2_eq_one mod2_ne_0) simp
    have "MerkleTree_levels cr xs (ts @ [pad xs]) = MerkleTree_levels cr ?up ((ts @ [pad xs]) @ [pad ?up])"
      using False less.prems
      by (simp add: MerkleTree_levels.simps [of _ xs] upper_level_of_eq Let_def p set_last nth_append
          del: length_pair_up)
    with less.hyps [OF small up, of "ts @ [pad xs]"] t show ?thesis
      by simp
  qed
qed

lemma length_leaves: "xs \<noteq> [] \<Longrightarrow> 1 < length (leaves xs) \<and> even (length (leaves xs))"
  by (cases xs) (auto simp: leaves_def elim: oddE evenE)

lemma generate_merkle_tree_eq:
  assumes "xs \<noteq> []"
  shows "generate_merkle_tree cr xs = Some (tree_from (concatenate_and_hash cr) (leaves xs))"
proof -
  have "pad (leaves xs) = leaves xs"
    using length_leaves [OF assms] by (simp add: pad_def)
  then have "MerkleTree_levels cr (leaves xs) [leaves xs] =
      Some (tree_from (concatenate_and_hash cr) (leaves xs))"
    using MerkleTree_levels_eq [of "leaves xs" cr "[]"] length_leaves [OF assms] by simp
  moreover have "xs ! (length xs - 1) = last xs"
    using assms by (simp add: last_conv_nth)
  then have "(if length xs mod 2 > 0 then xs @ [xs ! (length xs - 1)] else xs) = leaves xs"
    by (simp add: leaves_def odd_iff_mod_2_eq_one)
  ultimately show ?thesis
    by (simp only: generate_merkle_tree_def Let_def)
qed

lemma merkle_root_leaves: "1 < length xs \<Longrightarrow> merkle_root h (leaves xs) = merkle_root h xs"
  using merkle_root_pad [of h xs] by (simp add: pad_def leaves_def)

subsection \<open>Paths\<close>

lemma pair_up_nth:
  "even (length xs) \<Longrightarrow> i < length xs \<Longrightarrow>
     pair_up h xs ! (i div 2) = (if even i then h (xs ! i) (xs ! (i + 1)) else h (xs ! (i - 1)) (xs ! i))"
proof (induction h xs arbitrary: i rule: pair_up.induct)
  case (3 h x y xs)
  show ?case
  proof (cases "i < 2")
    case True
    then have "i = 0 \<or> i = 1" by auto
    then show ?thesis by auto
  next
    case False
    then obtain j where i: "i = Suc (Suc j)"
      by (metis add_2_eq_Suc le_add_diff_inverse not_less)
    with "3.IH" [of j] "3.prems" show ?thesis
      by (auto simp: nth_Cons' elim: oddE)
  qed
qed auto

lemma get_hash_from_level_correct:
  assumes "xs \<noteq> []" and "length xs = 1 \<or> even (length xs)" and "i < length xs"
  shows "\<exists>ps. get_hash_from_level (ts @ tree_from (concatenate_and_hash cr) xs) path (length ts) i =
      (Ok (path @ ps @ [(merkle_root (concatenate_and_hash cr) xs, False)]) :: ((hash32 \<times> bool) list, 'e) result) \<and>
    merkle_proof_loop cr ps (xs ! i) = merkle_root (concatenate_and_hash cr) xs"
  using assms
proof (induction "length xs" arbitrary: xs i ts path rule: less_induct)
  case less
  let ?h = "concatenate_and_hash cr"
  show ?case
  proof (cases "length xs = 1")
    case True
    then show ?thesis
      using less.prems
      by (auto simp: get_hash_from_level.simps [of _ path] tree_from.simps [of ?h xs] nth_append
          merkle_root.simps [of ?h xs] hd_conv_nth)
  next
    case False
    let ?up = "pair_up ?h xs"
    let ?step = "if even i then (xs ! (i + 1), False) else (xs ! (i - 1), True)"
    have big: "1 < length xs" and ev: "even (length xs)"
      using False less.prems by (auto simp: Suc_lessI)
    have t: "tree_from ?h xs = xs # tree_from ?h (pad ?up)"
      using big by (simp add: tree_from.simps [of ?h xs])
    have i2: "i div 2 < length ?up"
      using less.prems ev by auto
    have "i < length xs \<Longrightarrow> even i \<Longrightarrow> i + 1 < length xs"
      using ev by presburger
    then have go: "get_hash_from_level (ts @ tree_from ?h xs) path (length ts) i =
        (get_hash_from_level ((ts @ [xs]) @ tree_from ?h (pad ?up)) (path @ [?step]) (length (ts @ [xs])) (i div 2)
          :: ((hash32 \<times> bool) list, 'e) result)"
      using less.prems False
      by (simp add: get_hash_from_level.simps [of _ path] t nth_append index_at_def even_iff_mod_2_eq_zero)
    have up: "pad ?up \<noteq> []" "length (pad ?up) < length xs" "i div 2 < length (pad ?up)"
      using big i2 length_pad_less [OF big, of ?h] length_pad_ge [of ?up]
      by (auto intro!: pad_ne simp flip: length_greater_0_conv)
    from less.hyps [OF up(2) up(1) pad_shape up(3), of "ts @ [xs]" "path @ [?step]"]
    obtain ps where ps:
      "get_hash_from_level ((ts @ [xs]) @ tree_from ?h (pad ?up)) (path @ [?step]) (length (ts @ [xs])) (i div 2) =
        (Ok ((path @ [?step]) @ ps @ [(merkle_root ?h (pad ?up), False)]) :: ((hash32 \<times> bool) list, 'e) result)"
      "merkle_proof_loop cr ps (pad ?up ! (i div 2)) = merkle_root ?h (pad ?up)"
      by blast
    have "merkle_root ?h (pad ?up) = merkle_root ?h xs"
      using big by (simp add: merkle_root_pad merkle_root.simps [of ?h xs])
    moreover have "merkle_proof_loop cr (?step # ps) (xs ! i) = merkle_proof_loop cr ps (pad ?up ! (i div 2))"
      using i2 less.prems ev by (simp add: nth_pad pair_up_nth)
    ultimately show ?thesis
      using go ps by (intro exI [of _ "?step # ps"]) simp
  qed
qed

lemma find_index_None: "find_index ys x i = None \<longleftrightarrow> x \<notin> set ys"
  by (induction ys arbitrary: i) auto

lemma find_index_Some: "find_index ys x i = Some j \<Longrightarrow> i \<le> j \<and> j - i < length ys \<and> ys ! (j - i) = x"
  by (induction ys arbitrary: i) (fastforce simp: nth_Cons' split: if_splits)+

lemma set_leaves [simp]: "set (leaves xs) = set xs"
  by (cases "xs = []") (auto simp: leaves_def)

lemma MerkleTree_new_eq:
  "xs \<noteq> [] \<Longrightarrow> MerkleTree_new cr xs = Some \<lparr>hashes = tree_from (concatenate_and_hash cr) (leaves xs)\<rparr>"
  by (simp add: MerkleTree_new_def generate_merkle_tree_eq)

lemma get_merkle_root_eq:
  assumes "xs \<noteq> []"
  shows "get_merkle_root \<lparr>hashes = tree_from h (leaves xs)\<rparr> = Ok (merkle_root h (leaves xs))"
proof -
  let ?t = "tree_from h (leaves xs)"
  have "last ?t = [merkle_root h (leaves xs)]"
    using length_leaves [OF assms] by (intro last_tree_from) auto
  moreover have "?t ! (length ?t - 1) = last ?t"
    by (simp add: last_conv_nth)
  ultimately show ?thesis
    by (simp add: get_merkle_root_def usize_sub_def index_at_def Suc_leI)
qed

lemma first_level: "xs \<noteq> [] \<Longrightarrow>
    tree_from h (leaves xs) = leaves xs # tree_from h (pad (pair_up h (leaves xs)))"
  using length_leaves [of xs] by (subst tree_from.simps) auto

lemma proof_of_inclusion_member:
  assumes "x \<in> set xs"
  shows "\<exists>ps. MerkleTree_proof_of_inclusion \<lparr>hashes = tree_from (concatenate_and_hash cr) (leaves xs)\<rparr> x =
      (Ok (Some (ps @ [(merkle_root (concatenate_and_hash cr) (leaves xs), False)]))
        :: ((hash32 \<times> bool) list option, 'e) result) \<and>
    merkle_proof_loop cr ps x = merkle_root (concatenate_and_hash cr) (leaves xs)"
proof -
  let ?h = "concatenate_and_hash cr"
  let ?ls = "leaves xs"
  let ?up = "pair_up ?h ?ls"
  have ne: "xs \<noteq> []"
    using assms by auto
  note ls = length_leaves [OF ne]
  obtain i where f: "find_index ?ls x 0 = Some i"
    using assms find_index_None [of ?ls x 0] by (cases "find_index ?ls x 0") auto
  have i: "i < length ?ls" "?ls ! i = x"
    using find_index_Some [OF f] by auto
  have i1: "even i \<Longrightarrow> Suc i < length ?ls"
    using i(1) ls by presburger
  have i2: "i div 2 < length ?up"
    using i(1) ls by auto
  let ?step = "if even i then (?ls ! (i + 1), False) else (?ls ! (i - 1), True)"
  have up: "pad ?up \<noteq> []" "i div 2 < length (pad ?up)"
    using i2 length_pad_ge [of ?up] ls by (auto intro!: pad_ne)
  from get_hash_from_level_correct [OF up(1) pad_shape up(2), of "[?ls]" cr "[?step]"]
  obtain ps where ps:
    "get_hash_from_level (?ls # tree_from ?h (pad ?up)) [?step] 1 (i div 2) =
      (Ok (?step # ps @ [(merkle_root ?h (pad ?up), False)]) :: ((hash32 \<times> bool) list, 'e) result)"
    "merkle_proof_loop cr ps (pad ?up ! (i div 2)) = merkle_root ?h (pad ?up)"
    by auto
  have "merkle_root ?h (pad ?up) = merkle_root ?h ?ls"
    using ls by (simp add: merkle_root_pad merkle_root.simps [of ?h ?ls])
  moreover have "merkle_proof_loop cr (?step # ps) x = merkle_proof_loop cr ps (pad ?up ! (i div 2))"
    using i i2 ls by (auto simp: nth_pad pair_up_nth)
  moreover have "MerkleTree_proof_of_inclusion \<lparr>hashes = tree_from ?h ?ls\<rparr> x =
      and_then (get_hash_from_level (?ls # tree_from ?h (pad ?up)) [?step] 1 (i div 2)) (\<lambda>path. Ok (Some path) :: ((hash32 \<times> bool) list option, 'e) result)"
    using f i i1 by (simp add: MerkleTree_proof_of_inclusion_def first_level [OF ne] index_at_def
        even_iff_mod_2_eq_zero)
  ultimately show ?thesis
    using ps by (intro exI [of _ "?step # ps"]) (simp del: One_nat_def)
qed

lemma proof_of_inclusion_not_member:
  assumes "xs \<noteq> []" and "x \<notin> set xs"
  shows "MerkleTree_proof_of_inclusion \<lparr>hashes = tree_from h (leaves xs)\<rparr> x = Ok None"
  using assms find_index_None [of "leaves xs" x 0]
  by (simp add: MerkleTree_proof_of_inclusion_def first_level index_at_def)

lemma make_merkle_proof_snoc:
  "make_merkle_proof cr (ps @ [(r, b)]) x = Ok (merkle_proof_loop cr ps x = r)"
  by (simp add: make_merkle_proof_def usize_sub_def index_at_def nth_append)

end
