(* ===== verification/Hex.thy ===== *)
theory Hex
  imports Prelude
begin

section \<open>Hexadecimal text of hashes\<close>

text \<open>
  The conversions between 32-byte hashes and the 64-character text that the user reads and types:
  \<open>bytes_to_hex_hash\<close> (block\_header.rs; the same code is \<open>Transaction::hex_hash\<close>),
  \<open>bytes_to_hex_string\<close> (account.rs), \<open>string_to_bytes\<close> (utils\_block.rs) and
  \<open>hex_string_to_bytes\<close> (gtk/ui\_functions.rs). Text is shown with the bytes reversed; of the two
  readers one reverses them back and the other leaves that to its caller. Both readers give back
  the hash whose text they are given.
\<close>

subsection \<open>The standard library's formatting and parsing\<close>

definition hex_digit :: "nat \<Rightarrow> char" where
  "hex_digit n = char_of (if n < 10 then 48 + n else 87 + n)"

text \<open>\<open>format!("{:02x}", byte)\<close>\<close>

definition hex2 :: "u8 \<Rightarrow> string" where
  "hex2 b = [hex_digit (unat b div 16), hex_digit (unat b mod 16)]"

definition hex_val :: "char \<Rightarrow> nat option" where
  "hex_val c =
     (let n = of_char c in
      if 48 \<le> n \<and> n \<le> 57 then Some (n - 48)
      else if 97 \<le> n \<and> n \<le> 102 then Some (n - 87)
      else if 65 \<le> n \<and> n \<le> 70 then Some (n - 55)
      else None)"

text \<open>\<open>u8::from_str_radix(s, 16)\<close>: one leading plus sign is accepted.\<close>

fun hex_digits :: "nat \<Rightarrow> string \<Rightarrow> (u8, string) result" where
  "hex_digits acc [] = Ok (of_nat acc)"
| "hex_digits acc (c # cs) =
     (case hex_val c of
        None \<Rightarrow> Err ''invalid digit found in string''
      | Some d \<Rightarrow>
          if 16 * acc + d < 256 then hex_digits (16 * acc + d) cs
          else Err ''number too large to fit in target type'')"

definition from_str_radix_16 :: "string \<Rightarrow> (u8, string) result" where
  "from_str_radix_16 s =
     (case s of
        [] \<Rightarrow> Err ''cannot parse integer from empty string''
      | c # cs \<Rightarrow>
          if cs = [] \<and> (c = CHR ''+'' \<or> c = CHR ''-'') then Err ''invalid digit found in string''
          else if c = CHR ''+'' then hex_digits 0 cs
          else hex_digits 0 s)"

text \<open>A byte that continues a UTF-8 character; slicing a \<open>str\<close> there panics.\<close>

definition utf8_continuation :: "char \<Rightarrow> bool" where
  "utf8_continuation c \<longleftrightarrow> 128 \<le> (of_char c :: nat) \<and> (of_char c :: nat) < 192"

definition is_char_boundary :: "string \<Rightarrow> nat \<Rightarrow> bool" where
  "is_char_boundary s i \<longleftrightarrow> i = length s \<or> (i < length s \<and> \<not> utf8_continuation (s ! i))"

definition str_slice :: "string \<Rightarrow> nat \<Rightarrow> nat \<Rightarrow> (string, 'e) result" where
  "str_slice s a b =
     (if a \<le> b \<and> is_char_boundary s a \<and> is_char_boundary s b then slice s a b else Panic)"

text \<open>\<open>s.chars()\<close>: each character as its code units.\<close>

fun utf8_chars :: "string \<Rightarrow> string list" where
  "utf8_chars [] = []"
| "utf8_chars (c # cs) =
     (case utf8_chars cs of
        [] \<Rightarrow> [[c]]
      | g # gs \<Rightarrow> if utf8_continuation (hd g) then (c # g) # gs else [c] # g # gs)"

subsection \<open>The code\<close>

definition bytes_to_hex_string :: "bytes \<Rightarrow> string" where
  "bytes_to_hex_string bytes = concat (map hex2 bytes)"

definition bytes_to_hex_hash :: "hash32 \<Rightarrow> string" where
  "bytes_to_hex_hash hash_as_bytes = concat (map hex2 (rev hash_as_bytes))"

definition string_to_bytes :: "string \<Rightarrow> (hash32, string) result" where
  "string_to_bytes input =
     (if length input \<noteq> 64 then Err ''Invalid string. The string must be 64 characters long''
      else
        traverse
          (\<lambda>i. and_then (str_slice input (i * 2) (i * 2 + 2)) from_str_radix_16)
          [0..<32])"

text \<open>
  The loop of \<open>hex_string_to_bytes\<close>: the \<open>i\<close>-th byte read is stored at position \<open>31 - i\<close>; a pair
  that does not parse makes the result \<open>None\<close>.
\<close>

fun hex_string_loop :: "string list \<Rightarrow> nat list \<Rightarrow> hash32 \<Rightarrow> (hash32 option, 'e) result" where
  "hex_string_loop hex_chars [] acc = Ok (Some acc)"
| "hex_string_loop hex_chars (i # is') acc =
     and_then (slice hex_chars (i * 2) (i * 2 + 2)) (\<lambda>pair.
     case from_str_radix_16 (concat pair) of
       Ok byte \<Rightarrow> hex_string_loop hex_chars is' (acc[31 - i := byte])
     | _ \<Rightarrow> Ok None)"

definition hex_string_to_bytes :: "string \<Rightarrow> (hash32 option, 'e) result" where
  "hex_string_to_bytes hex_string =
     (if length hex_string \<noteq> 64 then Ok None
      else hex_string_loop (utf8_chars hex_string) [0..<32] (replicate 32 0))"

subsection \<open>Reading back what was written\<close>

lemma of_char_hex_digit: "n < 16 \<Longrightarrow> of_char (hex_digit n) = (if n < 10 then 48 + n else 87 + n)"
  by (simp add: hex_digit_def)

lemma hex_val_hex_digit [simp]: "n < 16 \<Longrightarrow> hex_val (hex_digit n) = Some n"
  by (simp add: hex_val_def of_char_hex_digit)

lemma hex_digit_ascii: "n < 16 \<Longrightarrow> \<not> utf8_continuation (hex_digit n)"
  by (simp add: utf8_continuation_def of_char_hex_digit)

lemma hex_digit_not_plus: "n < 16 \<Longrightarrow> hex_digit n \<noteq> CHR ''+''"
  using of_char_hex_digit [of n] by (auto split: if_splits)

lemma nibbles: "unat (b :: u8) div 16 < 16" "unat b mod 16 < 16"
  using unat_u8_lt [of b] by (auto simp: less_mult_imp_div_less)

lemma from_str_radix_hex2 [simp]: "from_str_radix_16 (hex2 b) = Ok b"
proof -
  have "16 * (unat b div 16) + unat b mod 16 = unat b"
    by simp
  then show ?thesis
    using nibbles [of b] unat_u8_lt [of b] hex_digit_not_plus [OF nibbles(1) [of b]]
    by (simp add: from_str_radix_16_def hex2_def)
qed

lemma length_hex2 [simp]: "length (hex2 b) = 2"
  by (simp add: hex2_def)

lemma hex2_ascii: "c \<in> set (hex2 b) \<Longrightarrow> \<not> utf8_continuation c"
  using nibbles [of b] by (auto simp: hex2_def hex_digit_ascii)

lemma length_concat_hex2 [simp]: "length (concat (map hex2 bs)) = 2 * length bs"
  by (induction bs) auto

lemma take_concat_hex2:
  "i < length bs \<Longrightarrow> take 2 (drop (i * 2) (concat (map hex2 bs))) = hex2 (bs ! i)"
proof (induction bs arbitrary: i)
  case (Cons b bs)
  then show ?case by (cases i) (auto simp: hex2_def)
qed simp

lemma ascii_boundary:
  "\<forall>c \<in> set s. \<not> utf8_continuation c \<Longrightarrow> i \<le> length s \<Longrightarrow> is_char_boundary s i"
  by (auto simp: is_char_boundary_def)

lemma concat_hex2_ascii: "\<forall>c \<in> set (concat (map hex2 bs)). \<not> utf8_continuation c"
  by (auto simp: hex2_ascii)

lemma string_to_bytes_hex:
  assumes "length bs = 32"
  shows "string_to_bytes (concat (map hex2 bs)) = Ok bs"
proof -
  let ?s = "concat (map hex2 bs)"
  have "str_slice ?s (i * 2) (i * 2 + 2) = (Ok (hex2 (bs ! i)) :: (string, string) result)" if "i < 32" for i
    using that assms
    by (simp add: str_slice_def ascii_boundary [OF concat_hex2_ascii] slice_def take_concat_hex2)
  then have "traverse (\<lambda>i. and_then (str_slice ?s (i * 2) (i * 2 + 2)) from_str_radix_16) [0..<32] =
      Ok (map ((!) bs) [0..<32])"
    by (intro traverse_all_Ok) simp
  moreover have "map ((!) bs) [0..<32] = bs"
    using assms map_nth [of bs] by simp
  ultimately show ?thesis
    using assms by (simp add: string_to_bytes_def del: upt_rec_numeral upt_Suc)
qed

lemma utf8_chars_ascii: "\<forall>c \<in> set s. \<not> utf8_continuation c \<Longrightarrow> utf8_chars s = map (\<lambda>c. [c]) s"
  by (induction s) (auto split: list.splits)

lemma concat_singletons: "concat (map (\<lambda>c. [c]) s) = s"
  by (induction s) auto

lemma pair_of_hex2:
  "i < length bs \<Longrightarrow>
     slice (map (\<lambda>c. [c]) (concat (map hex2 bs))) (i * 2) (i * 2 + 2) = Ok (map (\<lambda>c. [c]) (hex2 (bs ! i)))"
  by (simp add: slice_def take_concat_hex2 take_map drop_map)

lemma hex_string_loop_hex:
  assumes "length bs = 32" and "k \<le> 32" and "length acc = 32"
  shows "hex_string_loop (map (\<lambda>c. [c]) (concat (map hex2 bs))) [k..<32] acc =
    (Ok (Some (rev (drop k bs) @ drop (32 - k) acc)) :: (hash32 option, 'e) result)"
  using assms(2,3)
proof (induction "32 - k" arbitrary: k acc)
  case 0
  then show ?case by (simp add: assms(1))
next
  case (Suc n)
  then have k: "k < 32" by simp
  then have "Suc (31 - k) = 32 - k" by simp
  then have "rev (drop (Suc k) bs) @ drop (32 - Suc k) (acc[31 - k := bs ! k]) =
      rev (drop k bs) @ drop (32 - k) acc"
    using k assms(1) Suc.prems
    by (simp add: Cons_nth_drop_Suc [symmetric, of k bs] Cons_nth_drop_Suc [symmetric, of "31 - k"]
        Suc_diff_le)
  moreover have "slice (map (\<lambda>c. [c]) (concat (map hex2 bs))) (k * 2) (k * 2 + 2) =
      (Ok (map (\<lambda>c. [c]) (hex2 (bs ! k))) :: (string list, 'e) result)"
    using k assms(1) by (intro pair_of_hex2) simp
  ultimately show ?case
    using Suc.hyps(1) [of "Suc k" "acc[31 - k := bs ! k]"] Suc.hyps(2) Suc.prems k
    by (simp add: upt_conv_Cons concat_singletons)
qed

lemma hex_string_to_bytes_hex:
  assumes "length bs = 32"
  shows "hex_string_to_bytes (concat (map hex2 bs)) = Ok (Some (rev bs))"
  using hex_string_loop_hex [OF assms, of 0 "replicate 32 0"] assms
  by (simp add: hex_string_to_bytes_def utf8_chars_ascii [OF concat_hex2_ascii]
      del: upt_rec_numeral upt_Suc)

subsection \<open>Properties\<close>

text \<open>
  The text that the program shows for a hash reads back as that hash: through the search entry
  of the user interface at once, and through \<open>string_to_bytes\<close> in reverse byte order (the order in
  which its caller expects it).
\<close>

theorem hex_text_roundtrip:
  assumes "length h = 32"
  shows "hex_string_to_bytes (bytes_to_hex_hash h) = (Ok (Some h) :: (hash32 option, 'e) result) \<and>
    string_to_bytes (bytes_to_hex_hash h) = Ok (rev h) \<and>
    string_to_bytes (bytes_to_hex_string h) = Ok h"
  using assms hex_string_to_bytes_hex [where 'a = 'e, of "rev h"]
  by (simp add: bytes_to_hex_hash_def bytes_to_hex_string_def string_to_bytes_hex)

theorem hex_text_roundtrip_witness:
  "string_to_bytes (bytes_to_hex_hash (replicate 32 0xab)) = Ok (replicate 32 0xab)"
  using hex_text_roundtrip [where 'e = unit, of "replicate 32 0xab"] by simp

end
