(* ===== verification/Block.thy ===== *)
theory Block
  imports Merkle Hex
begin

section \<open>Blocks (src/blocks/block.rs)\<close>

text \<open>
  The block record, its wire format and its validation. A call that recurses for ever on an
  empty block ends the thread by exhausting its stack: that outcome is \<open>Panic\<close>, like every other
  abnormal end. The effect of a block on the UTXO set is in \<open>Utxo\<close>, its effect on the accounts'
  pending transactions in \<open>Handlers\<close>.
\<close>

record Block =
  block_header :: BlockHeader
  txn_count :: CompactSizeUint
  txn :: "Transaction list"

definition Block_new :: "BlockHeader \<Rightarrow> CompactSizeUint \<Rightarrow> Transaction list \<Rightarrow> Block" where
  "Block_new h c ts = \<lparr>block_header = h, txn_count = c, txn = ts\<rparr>"

definition Block_unmarshalling :: "bytes \<Rightarrow> nat \<Rightarrow> (Block \<times> nat, string) result" where
  "Block_unmarshalling bytes offset =
     and_then (BlockHeader_unmarshalling bytes offset) (\<lambda>(header, offset).
     and_then (CompactSizeUint_unmarshalling bytes offset) (\<lambda>(count, offset).
     and_then (decoded_value count) (\<lambda>amount_transaction.
     and_then (unmarshalling_transactions bytes amount_transaction offset) (\<lambda>(ts, offset).
     Ok (\<lparr>block_header = header, txn_count = count, txn = ts\<rparr>, offset)))))"

definition Block_marshalling :: "Block \<Rightarrow> bytes" where
  "Block_marshalling self =
     BlockHeader_marshalling (block_header self) @
     CompactSizeUint_marshalling (txn_count self) @
     concat (map Transaction_marshalling (txn self))"

definition generate_merkle_root :: "crypto \<Rightarrow> Block \<Rightarrow> (hash32, 'e) result" where
  "generate_merkle_root cr self =
     (case recursive_generation_merkle_root cr (map (Transaction_hash cr) (txn self)) of
        None \<Rightarrow> Panic
      | Some r \<Rightarrow> Ok r)"

definition Block_validate :: "crypto \<Rightarrow> Block \<Rightarrow> (bool \<times> string, 'e) result" where
  "Block_validate cr self =
     and_then (BlockHeader_validate cr (block_header self)) (\<lambda>pow.
     if \<not> pow then Ok (False, ''The block does not meet the proof of work'')
     else
     and_then (generate_merkle_root cr self) (\<lambda>merkle_root_hash.
     if \<not> is_same_merkle_root_hash (block_header self) merkle_root_hash then
       Ok (False, ''The merkle root generated by the block does not match the one in the header'')
     else if length (Block_marshalling self) > 1048576 then Ok (False, ''The block exceeds 1 MB'')
     else Ok (True, ''Valid block'')))"

definition Block_hash :: "crypto \<Rightarrow> Block \<Rightarrow> hash32" where
  "Block_hash cr self = BlockHeader_hash cr (block_header self)"

definition is_same_block :: "crypto \<Rightarrow> Block \<Rightarrow> hash32 \<Rightarrow> bool" where
  "is_same_block cr self block_id \<longleftrightarrow> BlockHeader_hash cr (block_header self) = block_id"

definition merkle_proof_of_inclusion ::
  "crypto \<Rightarrow> Block \<Rightarrow> hash32 \<Rightarrow> ((hash32 \<times> bool) list option, 'e) result" where
  "merkle_proof_of_inclusion cr self tx_id_to_find =
     (case MerkleTree_new cr (map (Transaction_hash cr) (txn self)) of
        None \<Rightarrow> Panic
      | Some merkle_tree \<Rightarrow> MerkleTree_proof_of_inclusion merkle_tree tx_id_to_find)"

definition Block_get_height :: "Block \<Rightarrow> (u32, 'e) result" where
  "Block_get_height self = and_then (index_at (txn self) 0) Transaction_get_height"

text \<open>The hashes as the user sees them.\<close>

definition Transaction_hex_hash :: "crypto \<Rightarrow> Transaction \<Rightarrow> string" where
  "Transaction_hex_hash cr self = bytes_to_hex_hash (Transaction_hash cr self)"

definition BlockHeader_hex_hash :: "crypto \<Rightarrow> BlockHeader \<Rightarrow> string" where
  "BlockHeader_hex_hash cr self = bytes_to_hex_hash (BlockHeader_hash cr self)"

definition BlockHeader_hex_merkle_root_hash :: "BlockHeader \<Rightarrow> string" where
  "BlockHeader_hex_merkle_root_hash self = bytes_to_hex_hash (merkle_root_hash self)"

definition Block_hex_hash :: "crypto \<Rightarrow> Block \<Rightarrow> string" where
  "Block_hex_hash cr self = BlockHeader_hex_hash cr (block_header self)"

definition Block_hex_merkle_root_hash :: "Block \<Rightarrow> string" where
  "Block_hex_merkle_root_hash self = BlockHeader_hex_merkle_root_hash (block_header self)"

subsection \<open>Both directions of the wire format\<close>

definition wf_block :: "Block \<Rightarrow> bool" where
  "wf_block b \<longleftrightarrow> wf_header (block_header b) \<and> wf_compact (txn_count b) \<and>
     compact_nat (txn_count b) = length (txn b) \<and> list_all wf_tx (txn b)"

lemma unmarshalling_transactions_iff:
  "wf_compact c \<Longrightarrow> off \<le> length bs \<Longrightarrow>
     unmarshalling_transactions bs (of_nat (compact_nat c)) off = Ok (xs, off') \<longleftrightarrow>
     list_all wf_tx xs \<and> length xs = compact_nat c \<and>
     occurs_at bs off (concat (map Transaction_marshalling xs)) \<and>
     off' = off + length (concat (map Transaction_marshalling xs))"
  by (simp add: unmarshalling_transactions_def unat_decoded tx.decode_n_iff list_all_iff)

lemma Block_dec_iff:
  "Block_unmarshalling bs off = Ok (x, off') \<longleftrightarrow>
     wf_block x \<and> occurs_at bs off (Block_marshalling x) \<and> off' = off + length (Block_marshalling x)"
proof -
  obtain h c ts where x: "x = \<lparr>block_header = h, txn_count = c, txn = ts\<rparr>"
    by (cases x) auto
  show ?thesis
    by (auto simp: x Block_unmarshalling_def Block_marshalling_def wf_block_def
        and_then_eq_Ok header.dec_iff compact.dec_iff decoded_value_wf unmarshalling_transactions_iff
        occurs_at_bound occurs_at_append cong: conj_cong)
qed

interpretation block: exact_codec Block_marshalling Block_unmarshalling wf_block
  by unfold_locales (auto simp: Block_dec_iff)

subsection \<open>Validation\<close>

abbreviation tx_ids :: "crypto \<Rightarrow> Block \<Rightarrow> hash32 list" where
  "tx_ids cr b \<equiv> map (Transaction_hash cr) (txn b)"

lemma generate_merkle_root_nonempty:
  "txn b \<noteq> [] \<Longrightarrow> generate_merkle_root cr b = Ok (merkle_root (concatenate_and_hash cr) (tx_ids cr b))"
  by (simp add: generate_merkle_root_def recursive_generation_merkle_root_eq)

lemma generate_merkle_root_empty: "txn b = [] \<Longrightarrow> generate_merkle_root cr b = Panic"
  by (simp add: generate_merkle_root_def recursive_generation_empty)

lemma Block_validate_true_iff:
  assumes "txn b \<noteq> []"
  shows "Block_validate cr b = (Ok (True, msg) :: (bool \<times> string, 'e) result) \<longleftrightarrow>
     msg = ''Valid block'' \<and>
     BlockHeader_validate cr (block_header b) = (Ok True :: (bool, 'e) result) \<and>
     merkle_root_hash (block_header b) = merkle_root (concatenate_and_hash cr) (tx_ids cr b) \<and>
     length (Block_marshalling b) \<le> 1048576"
  using assms
  by (auto simp: Block_validate_def and_then_eq_Ok generate_merkle_root_nonempty
      is_same_merkle_root_hash_def)

text \<open>What \<open>Block::validate\<close> accepts.\<close>

definition valid_block :: "crypto \<Rightarrow> Block \<Rightarrow> bool" where
  "valid_block cr b \<longleftrightarrow> txn b \<noteq> [] \<and> meets_target cr (block_header b) \<and>
     merkle_root_hash (block_header b) = merkle_root (concatenate_and_hash cr) (tx_ids cr b) \<and>
     length (Block_marshalling b) \<le> 1048576"

lemma Block_validate_fst:
  assumes "length (Block_hash cr b) = 32" and "Block_validate cr b = (Ok v :: (bool \<times> string, 'e) result)"
  shows "fst v \<longleftrightarrow> valid_block cr b"
proof -
  have len: "length (BlockHeader_hash cr (block_header b)) = 32"
    using assms(1) by (simp add: Block_hash_def)
  from assms(2) obtain pow where
      pow: "BlockHeader_validate cr (block_header b) = (Ok pow :: (bool, 'e) result)"
    by (cases "BlockHeader_validate cr (block_header b) :: (bool, 'e) result") (auto simp: Block_validate_def)
  then have t: "pow = meets_target cr (block_header b)"
    using len by (simp add: BlockHeader_validate_Ok split: if_splits)
  show ?thesis
  proof (cases "txn b = []")
    case True
    with assms(2) pow t show ?thesis
      by (cases pow) (auto simp: Block_validate_def generate_merkle_root_empty valid_block_def)
  next
    case False
    with assms(2) pow t show ?thesis
      by (cases pow) (auto simp: Block_validate_def generate_merkle_root_nonempty valid_block_def
          is_same_merkle_root_hash_def split: if_splits)
  qed
qed

lemma Block_validate_valid:
  assumes "length (Block_hash cr b) = 32" and "valid_block cr b"
  shows "Block_validate cr b = (Ok (True, ''Valid block'') :: (bool \<times> string, 'e) result)"
  using assms by (simp add: Block_validate_true_iff valid_block_def BlockHeader_validate_iff Block_hash_def)

subsection \<open>Properties\<close>

text \<open>
  C16. \<open>Block::unmarshalling\<close> accepts exactly the bytes that \<open>Block::marshalling\<close> writes for a
  well-formed block, and moves the offset to their end.
\<close>

theorem block_wire_exact:
  "Block_unmarshalling bs off = Ok (b, off') \<longleftrightarrow>
     wf_block b \<and> occurs_at bs off (Block_marshalling b) \<and> off' = off + length (Block_marshalling b)"
  by (rule block.dec_iff)

text \<open>
  C27. \<open>Block::validate\<close> accepts a block with transactions exactly when its header meets the proof
  of work, its header's Merkle root is the reference root of the transaction ids, and its encoding
  has at most 1 MB.
\<close>

theorem block_validate_accepts:
  assumes "txn b \<noteq> []"
  shows "Block_validate cr b = (Ok (True, msg) :: (bool \<times> string, 'e) result) \<longleftrightarrow>
     msg = ''Valid block'' \<and>
     BlockHeader_validate cr (block_header b) = (Ok True :: (bool, 'e) result) \<and>
     merkle_root_hash (block_header b) = merkle_root (concatenate_and_hash cr) (tx_ids cr b) \<and>
     length (Block_marshalling b) \<le> 1048576"
  using assms by (rule Block_validate_true_iff)

definition sample_tx :: Transaction where
  "sample_tx = Transaction_new 0 (CompactSizeUint_new 1) [incomplete_txin (Outpoint_new (replicate 31 0 @ [1]) 0)]
     (CompactSizeUint_new 0) [] 0"

definition sample_block :: Block where
  "sample_block = Block_new sample_header (CompactSizeUint_new 1) [sample_tx]"

lemma sample_tx_bytes:
  "Transaction_marshalling sample_tx =
     replicate 4 0 @ 1 # replicate 31 0 @ 1 # replicate 5 0 @ replicate 4 0xff @ replicate 5 0"
  by (simp add: sample_tx_def Transaction_new_def Transaction_marshalling_def TxIn_marshalling_def
      incomplete_txin_def TxIn_new_def Outpoint_new_def Outpoint_marshalling_def TxIn_is_coinbase_def
      SigScript_new_def SigScript_get_bytes_def CompactSizeUint_marshalling_def CompactSizeUint_value_def
      CompactSizeUint_new_def generate_cases compute)

lemma sample_block_root:
  "merkle_root (concatenate_and_hash sample_crypto) (tx_ids sample_crypto sample_block) =
     merkle_root_hash (block_header sample_block)"
  by (simp add: sample_block_def Block_new_def merkle_root.simps Transaction_hash_def hash_message_def
      sample_tx_bytes sha256d_def sample_crypto_def sample_header_def BlockHeader_new_def compute)

theorem block_validate_accepts_witness:
  "Block_validate sample_crypto sample_block = (Ok (True, ''Valid block'') :: (bool \<times> string, unit) result)"
proof -
  have "txn sample_block \<noteq> []" and h: "block_header sample_block = sample_header"
    by (simp_all add: sample_block_def Block_new_def)
  moreover have "length (Block_marshalling sample_block) \<le> 1048576"
    by (simp add: sample_block_def Block_new_def Block_marshalling_def sample_tx_bytes
        BlockHeader_marshalling_def sample_header_def BlockHeader_new_def
        CompactSizeUint_marshalling_def CompactSizeUint_value_def CompactSizeUint_new_def generate_cases)
  ultimately show ?thesis
    using block_validate_accepts [where 'e = unit, of sample_block sample_crypto "''Valid block''"]
      sample_block_root sample_header_pow by simp
qed

text \<open>
  A block without transactions whose header meets the proof of work is neither accepted nor
  refused: the Merkle recursion never reaches its base case and the validating thread ends
  abnormally.
\<close>

theorem block_validate_empty:
  assumes "txn b = []" and "BlockHeader_validate cr (block_header b) = (Ok True :: (bool, 'e) result)"
  shows "Block_validate cr b = (Panic :: (bool \<times> string, 'e) result)"
  using assms by (simp add: Block_validate_def generate_merkle_root_empty)

theorem block_validate_empty_witness:
  "Block_validate sample_crypto (Block_new sample_header (CompactSizeUint_new 0) []) =
     (Panic :: (bool \<times> string, unit) result)"
  by (rule block_validate_empty) (simp_all add: Block_new_def sample_header_pow)

text \<open>
  C22. \<open>Block::generate_merkle_root\<close> returns, on every block with transactions, the reference
  Merkle root: transaction ids paired left to right, the last one paired with itself when their
  number is odd, and again until one is left. The tree that \<open>MerkleTree::new\<close> builds for the
  inclusion proofs ends in the same root when there are at least two transactions, and in
  \<open>hash(x, x)\<close>, not \<open>x\<close>, when there is a single one.
\<close>

theorem merkle_roots_agree:
  assumes "txn b \<noteq> []"
  shows "generate_merkle_root cr b = (Ok (merkle_root (concatenate_and_hash cr) (tx_ids cr b)) :: (hash32, 'e) result) \<and>
    (\<exists>t. MerkleTree_new cr (tx_ids cr b) = Some t \<and>
       get_merkle_root t =
         (Ok (if length (txn b) = 1
              then concatenate_and_hash cr (hd (tx_ids cr b)) (hd (tx_ids cr b))
              else merkle_root (concatenate_and_hash cr) (tx_ids cr b)) :: (hash32, 'e) result))"
proof -
  let ?h = "concatenate_and_hash cr"
  have "merkle_root ?h (leaves (tx_ids cr b)) =
      (if length (txn b) = 1 then ?h (hd (tx_ids cr b)) (hd (tx_ids cr b)) else merkle_root ?h (tx_ids cr b))"
  proof (cases "length (txn b) = 1")
    case True
    then obtain t where "txn b = [t]"
      by (cases "txn b") auto
    then show ?thesis
      by (simp add: leaves_def merkle_root.simps)
  next
    case False
    with assms have "1 < length (tx_ids cr b)"
      by (cases "txn b") auto
    with False show ?thesis
      by (simp add: merkle_root_leaves)
  qed
  with assms show ?thesis
    by (simp add: generate_merkle_root_nonempty MerkleTree_new_eq get_merkle_root_eq)
qed

theorem merkle_roots_agree_witness:
  "generate_merkle_root sample_crypto sample_block =
     (Ok (merkle_root (concatenate_and_hash sample_crypto) (tx_ids sample_crypto sample_block)) :: (hash32, unit) result)"
  using merkle_roots_agree [where 'e = unit, of sample_block sample_crypto]
  by (simp add: sample_block_def Block_new_def)

lemma inclusion_path:
  assumes "txn b \<noteq> []"
  shows "if x \<in> set (tx_ids cr b)
    then \<exists>ps. merkle_proof_of_inclusion cr b x =
        (Ok (Some (ps @ [(merkle_root (concatenate_and_hash cr) (leaves (tx_ids cr b)), False)]))
          :: ((hash32 \<times> bool) list option, 'e) result) \<and>
      make_merkle_proof cr (ps @ [(merkle_root (concatenate_and_hash cr) (leaves (tx_ids cr b)), False)]) x =
        (Ok True :: (bool, 'e) result)
    else merkle_proof_of_inclusion cr b x = (Ok None :: ((hash32 \<times> bool) list option, 'e) result)"
proof (cases "x \<in> set (tx_ids cr b)")
  case True
  with proof_of_inclusion_member [where 'e = 'e, OF True, of cr] assms show ?thesis
    by (auto simp: merkle_proof_of_inclusion_def MerkleTree_new_eq make_merkle_proof_snoc)
next
  case False
  with assms show ?thesis
    by (simp add: merkle_proof_of_inclusion_def MerkleTree_new_eq proof_of_inclusion_not_member)
qed

text \<open>
  C21. Inclusion proofs are complete and sound with respect to the block: for a transaction of the
  block \<open>merkle_proof_of_inclusion\<close> yields a path that \<open>make_merkle_proof\<close> accepts and whose last
  element is the tree's root; for an id that is not in the block it yields no path. Neither call
  panics.
\<close>

theorem inclusion_proof_correct:
  assumes "txn b \<noteq> []"
  shows "if x \<in> set (tx_ids cr b)
    then \<exists>ps. merkle_proof_of_inclusion cr b x =
        (Ok (Some (ps @ [(merkle_root (concatenate_and_hash cr) (leaves (tx_ids cr b)), False)]))
          :: ((hash32 \<times> bool) list option, 'e) result) \<and>
      make_merkle_proof cr (ps @ [(merkle_root (concatenate_and_hash cr) (leaves (tx_ids cr b)), False)]) x =
        (Ok True :: (bool, 'e) result)
    else merkle_proof_of_inclusion cr b x = (Ok None :: ((hash32 \<times> bool) list option, 'e) result)"
  using assms by (rule inclusion_path)

theorem inclusion_proof_correct_witness:
  "\<exists>ps. merkle_proof_of_inclusion sample_crypto sample_block (Transaction_hash sample_crypto sample_tx) =
     (Ok (Some ps) :: ((hash32 \<times> bool) list option, unit) result)"
  using inclusion_proof_correct [where 'e = unit, of sample_block "Transaction_hash sample_crypto sample_tx" sample_crypto]
  by (auto simp: sample_block_def Block_new_def)

end
