(* ===== verification/Text.thy ===== *)
theory Text
  imports Prelude
begin

section \<open>Text of the standard library\<close>

text \<open>
  What the sources use of \<open>str\<close> and of number parsing: conversion between text and bytes, UTF-8
  validity, substring search, splitting, the lines of a file, and \<open>FromStr\<close> for integers and
  booleans. A string is the list of its UTF-8 code units.
\<close>

definition as_bytes :: "string \<Rightarrow> bytes" where
  "as_bytes s = map (\<lambda>c. of_nat (of_char c)) s"

definition of_bytes :: "bytes \<Rightarrow> string" where
  "of_bytes bs = map (\<lambda>b. char_of (unat b)) bs"

lemma of_bytes_as_bytes [simp]: "of_bytes (as_bytes s) = s"
  by (induction s) (auto simp: of_bytes_def as_bytes_def unat_of_nat)

lemma as_bytes_of_bytes [simp]: "as_bytes (of_bytes bs) = bs"
proof -
  have "of_nat (of_char (char_of (unat b) :: char)) = b" for b :: u8
    by simp
  then show ?thesis
    by (simp add: of_bytes_def as_bytes_def comp_def)
qed

lemma length_text_bytes [simp]: "length (as_bytes s) = length s" "length (of_bytes bs) = length bs"
  by (simp_all add: as_bytes_def of_bytes_def)

lemma as_bytes_inj: "as_bytes s = as_bytes t \<longleftrightarrow> s = t"
  by (metis of_bytes_as_bytes)

lemma of_bytes_append: "of_bytes (xs @ ys) = of_bytes xs @ of_bytes ys"
  by (simp add: of_bytes_def)

subsection \<open>UTF-8\<close>

definition cont :: "u8 \<Rightarrow> bool" where
  "cont b \<longleftrightarrow> 0x80 \<le> b \<and> b \<le> 0xBF"

text \<open>\<open>std::str::from_utf8\<close>: no overlong forms, no surrogates, nothing above U+10FFFF.\<close>

fun utf8_valid :: "bytes \<Rightarrow> bool" where
  "utf8_valid [] = True"
| "utf8_valid (a # bs) =
     (if a < 0x80 then utf8_valid bs
      else if 0xC2 \<le> a \<and> a \<le> 0xDF then
        (case bs of b # cs \<Rightarrow> cont b \<and> utf8_valid cs | _ \<Rightarrow> False)
      else if 0xE0 \<le> a \<and> a \<le> 0xEF then
        (case bs of
           b # c # ds \<Rightarrow>
             cont b \<and> cont c \<and> (a = 0xE0 \<longrightarrow> 0xA0 \<le> b) \<and> (a = 0xED \<longrightarrow> b \<le> 0x9F) \<and> utf8_valid ds
         | _ \<Rightarrow> False)
      else if 0xF0 \<le> a \<and> a \<le> 0xF4 then
        (case bs of
           b # c # d # es \<Rightarrow>
             cont b \<and> cont c \<and> cont d \<and> (a = 0xF0 \<longrightarrow> 0x90 \<le> b) \<and> (a = 0xF4 \<longrightarrow> b \<le> 0x8F) \<and>
             utf8_valid es
         | _ \<Rightarrow> False)
      else False)"

definition from_utf8 :: "bytes \<Rightarrow> (string, string) result" where
  "from_utf8 bs = (if utf8_valid bs then Ok (of_bytes bs) else Err ''invalid utf-8 sequence'')"

definition ascii :: "string \<Rightarrow> bool" where
  "ascii s \<longleftrightarrow> list_all (\<lambda>b. b < 0x80) (as_bytes s)"

lemma utf8_valid_ascii: "list_all (\<lambda>b. b < 0x80) bs \<Longrightarrow> utf8_valid bs"
  by (induction bs) auto

subsection \<open>Searching and splitting\<close>

fun starts_with :: "'a list \<Rightarrow> 'a list \<Rightarrow> bool" where
  "starts_with s [] = True"
| "starts_with [] (p # ps) = False"
| "starts_with (c # cs) (p # ps) = (c = p \<and> starts_with cs ps)"

fun str_contains :: "string \<Rightarrow> string \<Rightarrow> bool" where
  "str_contains [] pat = (pat = [])"
| "str_contains (c # cs) pat = (starts_with (c # cs) pat \<or> str_contains cs pat)"

text \<open>\<open>s.split(sep)\<close> with a one-byte separator: one piece more than there are separators.\<close>

fun split_on :: "char \<Rightarrow> string \<Rightarrow> string list" where
  "split_on sep [] = [[]]"
| "split_on sep (c # cs) =
     (if c = sep then [] # split_on sep cs
      else (case split_on sep cs of p # ps \<Rightarrow> (c # p) # ps | [] \<Rightarrow> [[c]]))"

lemma split_on_ne [simp]: "split_on sep s \<noteq> []"
  by (cases s) (auto split: list.splits)

lemma split_on_none: "sep \<notin> set s \<Longrightarrow> split_on sep s = [s]"
  by (induction s) auto

lemma split_on_append:
  "sep \<notin> set a \<Longrightarrow> split_on sep (a @ sep # b) = a # split_on sep b"
  by (induction a) auto

text \<open>
  \<open>BufRead::lines\<close>: a line ends at a newline, which is removed together with a carriage return
  before it; what follows the last newline is a line unless it is empty.
\<close>

definition strip_cr :: "string \<Rightarrow> string" where
  "strip_cr l = (if l \<noteq> [] \<and> last l = CHR 0x0D then butlast l else l)"

definition lines_of :: "string \<Rightarrow> string list" where
  "lines_of s =
     (let ps = split_on CHR 0x0A s
      in map strip_cr (butlast ps) @ (if last ps = [] then [] else [last ps]))"

subsection \<open>Parsing numbers and booleans\<close>

definition dec_val :: "char \<Rightarrow> int option" where
  "dec_val c =
     (let n = of_char c :: int in if 48 \<le> n \<and> n \<le> 57 then Some (n - 48) else None)"

fun parse_digits :: "int \<Rightarrow> int \<Rightarrow> int \<Rightarrow> int \<Rightarrow> string \<Rightarrow> (int, string) result" where
  "parse_digits sg lo hi acc [] = Ok acc"
| "parse_digits sg lo hi acc (c # cs) =
     (case dec_val c of
        None \<Rightarrow> Err ''invalid digit found in string''
      | Some d \<Rightarrow>
          let acc = 10 * acc + sg * d in
          if hi < acc then Err ''number too large to fit in target type''
          else if acc < lo then Err ''number too small to fit in target type''
          else parse_digits sg lo hi acc cs)"

text \<open>\<open>iN::from_str\<close> and \<open>uN::from_str\<close> for the range \<open>lo..=hi\<close>; a minus sign needs a signed type.\<close>

definition parse_int :: "int \<Rightarrow> int \<Rightarrow> string \<Rightarrow> (int, string) result" where
  "parse_int lo hi s =
     (case s of
        [] \<Rightarrow> Err ''cannot parse integer from empty string''
      | c # cs \<Rightarrow>
          if cs = [] \<and> (c = CHR ''+'' \<or> c = CHR ''-'') then Err ''invalid digit found in string''
          else if c = CHR ''+'' then parse_digits 1 lo hi 0 cs
          else if c = CHR ''-'' \<and> lo < 0 then parse_digits (-1) lo hi 0 cs
          else parse_digits 1 lo hi 0 s)"

definition usize_from_str :: "string \<Rightarrow> (nat, string) result" where
  "usize_from_str s = and_then (parse_int 0 (2 ^ 64 - 1) s) (\<lambda>n. Ok (nat n))"

definition u64_from_str :: "string \<Rightarrow> (u64, string) result" where
  "u64_from_str s = and_then (parse_int 0 (2 ^ 64 - 1) s) (\<lambda>n. Ok (of_int n))"

definition u16_from_str :: "string \<Rightarrow> (u16, string) result" where
  "u16_from_str s = and_then (parse_int 0 (2 ^ 16 - 1) s) (\<lambda>n. Ok (of_int n))"

definition u8_from_str :: "string \<Rightarrow> (u8, string) result" where
  "u8_from_str s = and_then (parse_int 0 (2 ^ 8 - 1) s) (\<lambda>n. Ok (of_int n))"

definition i32_from_str :: "string \<Rightarrow> (i32, string) result" where
  "i32_from_str s = and_then (parse_int (- (2 ^ 31)) (2 ^ 31 - 1) s) (\<lambda>n. Ok (of_int n))"

definition u32_from_str :: "string \<Rightarrow> (u32, string) result" where
  "u32_from_str s = and_then (parse_int 0 (2 ^ 32 - 1) s) (\<lambda>n. Ok (of_int n))"

definition i64_from_str :: "string \<Rightarrow> (i64, string) result" where
  "i64_from_str s = and_then (parse_int (- (2 ^ 63)) (2 ^ 63 - 1) s) (\<lambda>n. Ok (of_int n))"

definition bool_from_str :: "string \<Rightarrow> (bool, string) result" where
  "bool_from_str s =
     (if s = ''true'' then Ok True
      else if s = ''false'' then Ok False
      else Err ''provided string was not `true` or `false`'')"

subsection \<open>Printing numbers\<close>

text \<open>\<open>Display\<close> of an unsigned and of a signed integer.\<close>

fun decimal :: "nat \<Rightarrow> string" where
  "decimal n = (if n < 10 then [char_of (48 + n)] else decimal (n div 10) @ [char_of (48 + n mod 10)])"

declare decimal.simps [simp del]

definition decimal_int :: "int \<Rightarrow> string" where
  "decimal_int n = (if n < 0 then CHR ''-'' # decimal (nat (- n)) else decimal (nat n))"

lemma lines_of_terminated:
  assumes "\<forall>l \<in> set ls. CHR 0x0A \<notin> set l \<and> strip_cr l = l"
  shows "lines_of (concat (map (\<lambda>l. l @ [CHR 0x0A]) ls)) = ls"
proof -
  have "split_on CHR 0x0A (concat (map (\<lambda>l. l @ [CHR 0x0A]) ls)) = ls @ [[]]"
    using assms by (induction ls) (simp_all add: split_on_append)
  moreover have "map strip_cr ls = ls"
    using assms by (induction ls) auto
  ultimately show ?thesis
    by (simp add: lines_of_def Let_def)
qed

end
