(* ===== verification/Config.thy ===== *)
theory Config
  imports Text
begin

section \<open>Errors and configuration (src/custom\_errors.rs, src/config.rs)\<close>

text \<open>
  The error values that the components exchange, with their display texts, and the reader of the
  configuration file. The reader accepts a file with exactly 23 setting lines with known names and
  values of the right type; it counts lines, not distinct names.
\<close>

datatype NodeCustomErrors =
    ThreadJoinError string
  | LockError string
  | ReadNodeError string
  | WriteNodeError string
  | CanNotRead string
  | ThreadChannelError string
  | UnmarshallingError string
  | SocketError string
  | HandshakeError string
  | FirstBlockNotFoundError string
  | InvalidHeaderError string
  | ReadingFileError string
  | WritingInFileError string
  | ClosingFileError string
  | OpeningFileError string
  | ArgumentsError string
  | BlockchainDownloadError string
  | OtherError string
  | UtxoError string

fun display_error :: "NodeCustomErrors \<Rightarrow> string" where
  "display_error (ThreadJoinError msg) = ''ThreadJoinError Error: '' @ msg"
| "display_error (LockError msg) = ''LockError Error: '' @ msg"
| "display_error (ReadNodeError msg) = ''Can not read from socket Error: '' @ msg"
| "display_error (WriteNodeError msg) = ''Can not write in socket Error: '' @ msg"
| "display_error (CanNotRead msg) = ''No more elements in list Error: '' @ msg"
| "display_error (ThreadChannelError msg) = ''Can not send elements to channel Error: '' @ msg"
| "display_error (UnmarshallingError msg) = ''Can not unmarshall bytes Error: '' @ msg"
| "display_error (OtherError msg) = ''Error: '' @ msg"
| "display_error (SocketError msg) = ''Socket-TcpStream Error: '' @ msg"
| "display_error (HandshakeError msg) = ''HandShake Error: '' @ msg"
| "display_error (FirstBlockNotFoundError msg) = ''FirstBlockNotFound Error: '' @ msg"
| "display_error (InvalidHeaderError msg) = ''InvalidHeader Error: '' @ msg"
| "display_error (ReadingFileError msg) = ''Failed to read file. File Error: '' @ msg"
| "display_error (WritingInFileError msg) = ''Failed to write in file. File Error: '' @ msg"
| "display_error (ClosingFileError msg) = ''Failed to close file. File Error: '' @ msg"
| "display_error (OpeningFileError msg) = ''Failed to open file. File Error: '' @ msg"
| "display_error (ArgumentsError msg) = ''Failed to parse arguments. Arguments Error: '' @ msg"
| "display_error (BlockchainDownloadError msg) = ''Error during the Blockchain download: '' @ msg"
| "display_error (UtxoError msg) = ''Error during the Utxo setup: '' @ msg"

definition AMOUNT_OF_ATTRIBUTES :: nat where "AMOUNT_OF_ATTRIBUTES = 23"

record Config =
  number_of_nodes :: nat
  dns_seed :: string
  connect_to_dns_nodes :: bool
  custom_nodes_ips :: "string list"
  net_port :: u16
  cfg_start_string :: bytes
  protocol_version :: i32
  user_agent :: string
  n_threads :: nat
  connect_timeout :: u64
  max_connections_to_server :: u8
  error_log_path :: string
  info_log_path :: string
  message_log_path :: string
  blocks_download_per_node :: nat
  first_block_date :: string
  date_format :: string
  headers_in_disk :: nat
  read_headers_from_disk :: bool
  ibd_single_node :: bool
  height_first_block_to_download :: nat
  headers_file :: string
  logs_folder_path :: string

definition initial_config :: Config where
  "initial_config =
     \<lparr>number_of_nodes = 0, dns_seed = [], connect_to_dns_nodes = True, custom_nodes_ips = [],
      net_port = 0, cfg_start_string = replicate 4 0, protocol_version = 0, user_agent = [],
      n_threads = 0, connect_timeout = 0, max_connections_to_server = 0, error_log_path = [],
      info_log_path = [], message_log_path = [], blocks_download_per_node = 0, first_block_date = [],
      date_format = [], headers_in_disk = 0, read_headers_from_disk = False, ibd_single_node = False,
      height_first_block_to_download = 0, headers_file = [], logs_folder_path = []\<rparr>"

text \<open>Every accepted setting also counts: the caller adds one per successful call.\<close>

definition load_setting :: "Config \<Rightarrow> string \<Rightarrow> string \<Rightarrow> nat \<Rightarrow> (Config \<times> nat, string) result" where
  "load_setting self name v number_of_settings_loaded =
     (let counted = (\<lambda>c. Ok (c, number_of_settings_loaded + 1)) in
      if name = ''NUMBER_OF_NODES'' then
        and_then (usize_from_str v) (\<lambda>n. counted (self\<lparr>number_of_nodes := n\<rparr>))
      else if name = ''DNS_SEED'' then counted (self\<lparr>dns_seed := v\<rparr>)
      else if name = ''CONNECT_TO_DNS_NODES'' then
        and_then (bool_from_str v) (\<lambda>b. counted (self\<lparr>connect_to_dns_nodes := b\<rparr>))
      else if name = ''CUSTOM_NODES_IPS'' then
        counted (if v \<noteq> [] then self\<lparr>custom_nodes_ips := split_on CHR '','' v\<rparr> else self)
      else if name = ''NET_PORT'' then
        and_then (u16_from_str v) (\<lambda>n. counted (self\<lparr>net_port := n\<rparr>))
      else if name = ''START_STRING'' then
        and_then (i32_from_str v) (\<lambda>n. counted (self\<lparr>cfg_start_string := u32_to_be_bytes n\<rparr>))
      else if name = ''PROTOCOL_VERSION'' then
        and_then (i32_from_str v) (\<lambda>n. counted (self\<lparr>protocol_version := n\<rparr>))
      else if name = ''USER_AGENT'' then counted (self\<lparr>user_agent := v\<rparr>)
      else if name = ''N_THREADS'' then
        and_then (usize_from_str v) (\<lambda>n. counted (self\<lparr>n_threads := n\<rparr>))
      else if name = ''CONNECT_TIMEOUT'' then
        and_then (u64_from_str v) (\<lambda>n. counted (self\<lparr>connect_timeout := n\<rparr>))
      else if name = ''MAX_CONNECTIONS'' then
        and_then (u8_from_str v) (\<lambda>n. counted (self\<lparr>max_connections_to_server := n\<rparr>))
      else if name = ''ERROR_LOG_PATH'' then counted (self\<lparr>error_log_path := v\<rparr>)
      else if name = ''INFO_LOG_PATH'' then counted (self\<lparr>info_log_path := v\<rparr>)
      else if name = ''MESSAGE_LOG_PATH'' then counted (self\<lparr>message_log_path := v\<rparr>)
      else if name = ''BLOCKS_DOWNLOAD_PER_NODE'' then
        and_then (usize_from_str v) (\<lambda>n. counted (self\<lparr>blocks_download_per_node := n\<rparr>))
      else if name = ''DATE_FIRST_BLOCK_TO_DOWNLOAD'' then counted (self\<lparr>first_block_date := v\<rparr>)
      else if name = ''DATE_FORMAT'' then counted (self\<lparr>date_format := v\<rparr>)
      else if name = ''AMOUNT_OF_HEADERS_TO_STORE_IN_DISK'' then
        and_then (usize_from_str v) (\<lambda>n. counted (self\<lparr>headers_in_disk := n\<rparr>))
      else if name = ''READ_HEADERS_FROM_DISK'' then
        and_then (bool_from_str v) (\<lambda>b. counted (self\<lparr>read_headers_from_disk := b\<rparr>))
      else if name = ''DOWNLOAD_FULL_BLOCKCHAIN_FROM_SINGLE_NODE'' then
        and_then (bool_from_str v) (\<lambda>b. counted (self\<lparr>ibd_single_node := b\<rparr>))
      else if name = ''HEIGHT_FIRST_BLOCK_TO_DOWNLOAD'' then
        and_then (usize_from_str v) (\<lambda>n. counted (self\<lparr>height_first_block_to_download := n\<rparr>))
      else if name = ''HEADERS_FILE'' then counted (self\<lparr>headers_file := v\<rparr>)
      else if name = ''LOGS_FOLDER'' then counted (self\<lparr>logs_folder_path := v\<rparr>)
      else Err (''Invalid config setting name: '' @ name))"

definition check_number_of_attributes :: "nat \<Rightarrow> (unit, string) result" where
  "check_number_of_attributes cantidad_de_lineas =
     (if cantidad_de_lineas \<noteq> AMOUNT_OF_ATTRIBUTES then Err ''Invalid quantity of lines in file config''
      else Ok ())"

text \<open>The loop over the lines; a line that is not valid UTF-8 is an error of the reader.\<close>

fun read_settings :: "string list \<Rightarrow> Config \<Rightarrow> nat \<Rightarrow> (Config \<times> nat, string) result" where
  "read_settings [] cfg loaded = Ok (cfg, loaded)"
| "read_settings (l # ls) cfg loaded =
     and_then (from_utf8 (as_bytes l)) (\<lambda>current_line.
     if starts_with current_line ''#'' then read_settings ls cfg loaded
     else
       let setting = split_on CHR ''='' current_line in
       if length setting \<noteq> 2 then Err (''Invalid config input: '' @ current_line)
       else
         and_then (load_setting cfg (setting ! 0) (setting ! 1) loaded) (\<lambda>(cfg, loaded).
         read_settings ls cfg loaded))"

definition from_reader :: "string \<Rightarrow> (Config, string) result" where
  "from_reader content =
     and_then (read_settings (lines_of content) initial_config 0) (\<lambda>(cfg, loaded).
     and_then (check_number_of_attributes loaded) (\<lambda>_.
     Ok cfg))"

text \<open>
  The command line and the file system: \<open>open_file\<close> gives the content of a path or the text of the
  error.
\<close>

definition Config_from ::
  "(string \<Rightarrow> string + string) \<Rightarrow> string list \<Rightarrow> (Config, NodeCustomErrors) result" where
  "Config_from open_file args =
     (if length args > 2 then Err (ArgumentsError ''Too many arguments'')
      else if length args < 2 then Err (ArgumentsError ''Not enough arguments'')
      else
        (case open_file (args ! 1) of
           Inl e \<Rightarrow> Err (OpeningFileError e)
         | Inr content \<Rightarrow> map_err ReadingFileError (from_reader content)))"

subsection \<open>What is accepted\<close>

definition setting_names :: "string list" where
  "setting_names =
     [''NUMBER_OF_NODES'', ''DNS_SEED'', ''CONNECT_TO_DNS_NODES'', ''CUSTOM_NODES_IPS'', ''NET_PORT'',
      ''START_STRING'', ''PROTOCOL_VERSION'', ''USER_AGENT'', ''N_THREADS'', ''CONNECT_TIMEOUT'',
      ''MAX_CONNECTIONS'', ''ERROR_LOG_PATH'', ''INFO_LOG_PATH'', ''MESSAGE_LOG_PATH'',
      ''BLOCKS_DOWNLOAD_PER_NODE'', ''DATE_FIRST_BLOCK_TO_DOWNLOAD'', ''DATE_FORMAT'',
      ''AMOUNT_OF_HEADERS_TO_STORE_IN_DISK'', ''READ_HEADERS_FROM_DISK'',
      ''DOWNLOAD_FULL_BLOCKCHAIN_FROM_SINGLE_NODE'', ''HEIGHT_FIRST_BLOCK_TO_DOWNLOAD'',
      ''HEADERS_FILE'', ''LOGS_FOLDER'']"

definition is_setting :: "string \<Rightarrow> bool" where
  "is_setting l \<longleftrightarrow> \<not> starts_with l ''#''"

lemma load_setting_Ok:
  "load_setting c name v n = Ok (c', n') \<Longrightarrow> n' = n + 1 \<and> name \<in> set setting_names"
  by (auto simp: load_setting_def Let_def setting_names_def and_then_eq_Ok split: if_splits)

lemma from_utf8_as_bytes: "from_utf8 (as_bytes l) = Ok l' \<Longrightarrow> l' = l"
  by (simp add: from_utf8_def split: if_splits)

lemma read_settings_Ok:
  "read_settings ls c n = Ok (c', n') \<Longrightarrow>
     n' = n + length (filter is_setting ls) \<and>
     (\<forall>l \<in> set ls. is_setting l \<longrightarrow> (\<exists>name v. split_on CHR ''='' l = [name, v] \<and> name \<in> set setting_names))"
proof (induction ls arbitrary: c n)
  case (Cons l ls)
  from Cons.prems have u: "from_utf8 (as_bytes l) = Ok l"
    by (auto simp: and_then_eq_Ok dest: from_utf8_as_bytes)
  show ?case
  proof (cases "starts_with l ''#''")
    case True
    with Cons u show ?thesis by (auto simp: is_setting_def)
  next
    case False
    with Cons.prems u obtain name v c1 n1 where s: "split_on CHR ''='' l = [name, v]"
        and "load_setting c name v n = Ok (c1, n1)" and r: "read_settings ls c1 n1 = Ok (c', n')"
      by (auto simp: Let_def and_then_eq_Ok numeral_2_eq_2 length_Suc_conv split: if_splits)
    with Cons.IH [OF r] load_setting_Ok False show ?thesis
      by (fastforce simp: is_setting_def)
  qed
qed simp

lemma read_settings_repeat:
  "load_setting c name v n = Ok (c', n + 1) \<Longrightarrow> \<not> starts_with l ''#'' \<Longrightarrow>
     split_on CHR ''='' l = [name, v] \<Longrightarrow> from_utf8 (as_bytes l) = Ok l \<Longrightarrow>
     read_settings (l # ls) c n = read_settings ls c' (n + 1)"
  by (simp add: Let_def)

subsection \<open>Properties\<close>

text \<open>
  A configuration file is accepted only if it has exactly 23 lines that are not comments, and
  each of them is a known setting name and a text around one equals sign.
\<close>

theorem config_accepted_lines:
  assumes "from_reader content = Ok cfg"
  shows "length (filter is_setting (lines_of content)) = 23 \<and>
    (\<forall>l \<in> set (lines_of content). is_setting l \<longrightarrow>
       (\<exists>name v. split_on CHR ''='' l = [name, v] \<and> name \<in> set setting_names))"
  using assms read_settings_Ok [of "lines_of content" initial_config 0]
  by (auto simp: from_reader_def and_then_eq_Ok check_number_of_attributes_def AMOUNT_OF_ATTRIBUTES_def
      split: if_splits)

definition repeated_file :: string where
  "repeated_file = concat (map (\<lambda>l. l @ [CHR 0x0A]) (replicate 23 ''DNS_SEED=a''))"

lemma read_settings_dns:
  "read_settings (replicate k ''DNS_SEED=a'') c n = Ok (if k = 0 then c else c\<lparr>dns_seed := ''a''\<rparr>, n + k)"
proof (induction k arbitrary: c n)
  case (Suc k)
  have "load_setting c ''DNS_SEED'' ''a'' n = Ok (c\<lparr>dns_seed := ''a''\<rparr>, n + 1)"
    by (simp add: load_setting_def)
  moreover have "utf8_valid (as_bytes ''DNS_SEED=a'')"
    by (simp add: as_bytes_def)
  then have "from_utf8 (as_bytes ''DNS_SEED=a'') = Ok ''DNS_SEED=a''"
    by (simp add: from_utf8_def)
  ultimately show ?case
    using read_settings_repeat [of c "''DNS_SEED''" "''a''" n "c\<lparr>dns_seed := ''a''\<rparr>" "''DNS_SEED=a''"
        "replicate k ''DNS_SEED=a''"] Suc
    by simp
qed simp

lemma repeated_file_accepted: "from_reader repeated_file = Ok (initial_config\<lparr>dns_seed := ''a''\<rparr>)"
proof -
  have "lines_of repeated_file = replicate 23 ''DNS_SEED=a''"
    unfolding repeated_file_def by (rule lines_of_terminated) (auto simp: strip_cr_def)
  then show ?thesis
    by (simp add: from_reader_def read_settings_dns check_number_of_attributes_def AMOUNT_OF_ATTRIBUTES_def)
qed

theorem config_accepted_lines_witness:
  "length (filter is_setting (lines_of repeated_file)) = 23"
  using config_accepted_lines [OF repeated_file_accepted] by simp

text \<open>
  The count of settings does not notice a repetition: a file that gives one setting 23 times and
  no other is accepted, with every other field at its initial value.
\<close>

theorem config_repeated_setting:
  "from_reader (concat (map (\<lambda>l. l @ [CHR 0x0A]) (replicate 23 ''DNS_SEED=a''))) =
     Ok (initial_config\<lparr>dns_seed := ''a''\<rparr>)"
  using repeated_file_accepted by (simp add: repeated_file_def)

end
