(* ===== verification/Message_Header.thy ===== *)
theory Message_Header
  imports Block Config
begin

section \<open>Message framing (src/messages/message\_header.rs)\<close>

text \<open>
  The 24-byte header of every protocol message, the checksum, and the reading loop that skips the
  messages a peer sends before the expected one (answering pings on the way).

  A socket is the bytes that the peer will have sent and the bytes written to it so far
  (\<open>tcp\<close>). A read beyond the end of the input is the error of \<open>read_exact\<close> (closed connection or
  timeout); writes succeed. The \<open>finish\<close> flag that another thread may set, once, is the number of
  the first read of it that sees it set. The texts of UTF-8 errors are abbreviated.
\<close>

record tcp =
  inp :: bytes
  outp :: bytes

definition read_exact :: "nat \<Rightarrow> tcp \<Rightarrow> (bytes \<times> tcp, string) result" where
  "read_exact n st =
     (if length (inp st) < n then Err ''failed to fill whole buffer''
      else Ok (take n (inp st), st\<lparr>inp := drop n (inp st)\<rparr>))"

definition write_all :: "bytes \<Rightarrow> tcp \<Rightarrow> tcp" where
  "write_all bs st = st\<lparr>outp := outp st @ bs\<rparr>"

definition START_STRING_TESTNET :: bytes where
  "START_STRING_TESTNET = [0x0b, 0x11, 0x09, 0x07]"

definition CHECKSUM_EMPTY_PAYLOAD :: bytes where
  "CHECKSUM_EMPTY_PAYLOAD = [0x5d, 0xf6, 0xe0, 0xe2]"

record HeaderMessage =
  start_string :: bytes
  command_name :: string
  payload_size :: u32
  checksum :: bytes

definition get_checksum :: "crypto \<Rightarrow> bytes \<Rightarrow> bytes" where
  "get_checksum cr payload = take 4 (sha256d cr payload)"

definition HeaderMessage_new :: "crypto \<Rightarrow> string \<Rightarrow> bytes option \<Rightarrow> HeaderMessage" where
  "HeaderMessage_new cr name payload =
     (case payload of
        None \<Rightarrow> \<lparr>start_string = START_STRING_TESTNET, command_name = name, payload_size = 0,
                 checksum = CHECKSUM_EMPTY_PAYLOAD\<rparr>
      | Some payload \<Rightarrow> \<lparr>start_string = START_STRING_TESTNET, command_name = name,
                 payload_size = of_nat (length payload), checksum = get_checksum cr payload\<rparr>)"

definition command_name_to_bytes :: "string \<Rightarrow> (bytes, 'e) result" where
  "command_name_to_bytes command =
     (let command_bytes = as_bytes command in
      if length command_bytes \<le> 12 then Ok (command_bytes @ replicate (12 - length command_bytes) 0)
      else Panic)"

definition HeaderMessage_to_le_bytes :: "HeaderMessage \<Rightarrow> (bytes, 'e) result" where
  "HeaderMessage_to_le_bytes self =
     and_then (command_name_to_bytes (command_name self)) (\<lambda>name.
     Ok (start_string self @ name @ u32_to_le_bytes (payload_size self) @ checksum self))"

text \<open>The argument is an array of 24 bytes.\<close>

definition HeaderMessage_from_le_bytes :: "bytes \<Rightarrow> (HeaderMessage, string) result" where
  "HeaderMessage_from_le_bytes bs =
     (let start = take 4 bs;
          command_name_bytes = take 12 (drop 4 bs) in
      and_then (from_utf8 command_name_bytes) (\<lambda>name.
      let payload_size_bytes = take 4 (drop 16 bs);
          ck = take 4 (drop 20 bs)
      in Ok \<lparr>start_string = start, command_name = name,
             payload_size = u32_from_le_bytes payload_size_bytes, checksum = ck\<rparr>))"

definition HeaderMessage_write_to :: "HeaderMessage \<Rightarrow> tcp \<Rightarrow> (tcp, 'e) result" where
  "HeaderMessage_write_to self stream =
     and_then (HeaderMessage_to_le_bytes self) (\<lambda>header. Ok (write_all header stream))"

definition is_terminated :: "nat option \<Rightarrow> nat \<Rightarrow> bool" where
  "is_terminated finish k = (case finish of Some n \<Rightarrow> n \<le> k | None \<Rightarrow> False)"

definition read_payload :: "tcp \<Rightarrow> HeaderMessage \<Rightarrow> (bytes \<times> tcp, string) result" where
  "read_payload stream header = read_exact (unat (payload_size header)) stream"

definition write_verack_message :: "crypto \<Rightarrow> tcp \<Rightarrow> (tcp, 'e) result" where
  "write_verack_message cr stream = HeaderMessage_write_to (HeaderMessage_new cr ''verack'' None) stream"

definition write_pong_message :: "crypto \<Rightarrow> bytes \<Rightarrow> tcp \<Rightarrow> (tcp, 'e) result" where
  "write_pong_message cr payload stream =
     and_then (HeaderMessage_to_le_bytes (HeaderMessage_new cr ''pong'' (Some payload))) (\<lambda>header_bytes.
     Ok (write_all (header_bytes @ payload) stream))"

definition write_sendheaders_message :: "crypto \<Rightarrow> tcp \<Rightarrow> (tcp, 'e) result" where
  "write_sendheaders_message cr stream =
     HeaderMessage_write_to (HeaderMessage_new cr ''sendheaders'' None) stream"

lemma read_exact_shorter: "read_exact n st = Ok (bs, st') \<Longrightarrow> length (inp st) = n + length (inp st')"
  by (auto simp: read_exact_def split: if_splits)

lemma write_pong_inp: "write_pong_message cr p st = Ok st' \<Longrightarrow> inp st' = inp st"
  by (auto simp: write_pong_message_def and_then_eq_Ok write_all_def)

text \<open>The \<open>while\<close> loop of \<open>read_from\<close>; \<open>k\<close> counts the reads of the \<open>finish\<close> flag.\<close>

function read_loop ::
  "crypto \<Rightarrow> string \<Rightarrow> nat option \<Rightarrow> nat \<Rightarrow> HeaderMessage \<Rightarrow> tcp \<Rightarrow> (HeaderMessage \<times> tcp, string) result"
where
  "read_loop cr wanted finish k header stream =
     (if command_name header \<noteq> wanted \<and> \<not> is_terminated finish k then
        and_then (read_payload stream header) (\<lambda>(payload, stream).
        and_then
          (if str_contains (command_name header) ''ping'' then write_pong_message cr payload stream
           else Ok stream) (\<lambda>stream.
        and_then (read_exact 24 stream) (\<lambda>(buffer_num, stream).
        and_then (HeaderMessage_from_le_bytes buffer_num) (\<lambda>header.
        read_loop cr wanted finish (k + 1) header stream))))
      else Ok (header, stream))"
  by pat_completeness auto
termination
  by (relation "measure (\<lambda>(cr, w, f, k, h, st). length (inp st))")
    (auto dest!: read_exact_shorter write_pong_inp simp: read_payload_def split: if_splits)

declare read_loop.simps [simp del]

definition HeaderMessage_read_from ::
  "crypto \<Rightarrow> tcp \<Rightarrow> string \<Rightarrow> nat option \<Rightarrow> (HeaderMessage \<times> tcp, string) result" where
  "HeaderMessage_read_from cr stream name finish =
     and_then (command_name_to_bytes name) (\<lambda>name_bytes.
     and_then (from_utf8 name_bytes) (\<lambda>header_command_name.
     and_then (read_exact 24 stream) (\<lambda>(buffer_num, stream).
     and_then (HeaderMessage_from_le_bytes buffer_num) (\<lambda>header.
     read_loop cr header_command_name finish 0 header stream))))"

definition read_verack_message :: "crypto \<Rightarrow> tcp \<Rightarrow> (HeaderMessage \<times> tcp, string) result" where
  "read_verack_message cr stream = HeaderMessage_read_from cr stream ''verack'' None"

subsection \<open>Frames\<close>

text \<open>
  A complete message: the header for a command and a payload, then the payload. Every message
  builder of the node is shown to produce one.
\<close>

definition padded :: "string \<Rightarrow> string" where
  "padded name = name @ replicate (12 - length name) (char_of (0 :: nat))"

definition frame_header :: "crypto \<Rightarrow> string \<Rightarrow> bytes \<Rightarrow> bytes" where
  "frame_header cr name payload =
     START_STRING_TESTNET @ as_bytes (padded name) @ u32_to_le_bytes (of_nat (length payload)) @
     get_checksum cr payload"

definition frame :: "crypto \<Rightarrow> string \<Rightarrow> bytes \<Rightarrow> bytes" where
  "frame cr name payload = frame_header cr name payload @ payload"

definition command_ok :: "string \<Rightarrow> bool" where
  "command_ok name \<longleftrightarrow> length name \<le> 12 \<and> utf8_valid (as_bytes (padded name))"

lemma length_padded: "length name \<le> 12 \<Longrightarrow> length (padded name) = 12"
  by (simp add: padded_def)

lemma command_name_to_bytes_Ok:
  "length name \<le> 12 \<Longrightarrow> command_name_to_bytes name = Ok (as_bytes (padded name))"
  by (simp add: command_name_to_bytes_def padded_def as_bytes_def Let_def)

lemma HeaderMessage_new_bytes:
  "length name \<le> 12 \<Longrightarrow>
     HeaderMessage_to_le_bytes (HeaderMessage_new cr name (Some payload)) = Ok (frame_header cr name payload)"
  by (simp add: HeaderMessage_to_le_bytes_def HeaderMessage_new_def command_name_to_bytes_Ok frame_header_def)

lemma write_pong_frame: "write_pong_message cr payload st = Ok (write_all (frame cr ''pong'' payload) st)"
  by (simp add: write_pong_message_def HeaderMessage_new_bytes frame_def)

definition frame_head :: "crypto \<Rightarrow> string \<Rightarrow> bytes \<Rightarrow> HeaderMessage" where
  "frame_head cr name payload =
     \<lparr>start_string = START_STRING_TESTNET, command_name = padded name,
      payload_size = of_nat (length payload), checksum = get_checksum cr payload\<rparr>"

lemma length_frame_header:
  "length name \<le> 12 \<Longrightarrow> length (get_checksum cr payload) = 4 \<Longrightarrow> length (frame_header cr name payload) = 24"
  by (simp add: frame_header_def length_padded START_STRING_TESTNET_def)

lemma from_frame_header:
  assumes "command_ok name" and "length (get_checksum cr payload) = 4"
  shows "HeaderMessage_from_le_bytes (frame_header cr name payload) = Ok (frame_head cr name payload)"
  using assms
  by (simp add: HeaderMessage_from_le_bytes_def frame_header_def frame_head_def from_utf8_def
      command_ok_def START_STRING_TESTNET_def length_padded)

lemma read_exact_append:
  "length bs = n \<Longrightarrow> read_exact n \<lparr>inp = bs @ rest, outp = out\<rparr> = Ok (bs, \<lparr>inp = rest, outp = out\<rparr>)"
  by (simp add: read_exact_def)

lemma read_payload_frame:
  "length payload < 2 ^ 32 \<Longrightarrow>
     read_payload \<lparr>inp = payload @ rest, outp = out\<rparr> (frame_head cr name payload) =
       Ok (payload, \<lparr>inp = rest, outp = out\<rparr>)"
  by (simp add: read_payload_def frame_head_def read_exact_append unat_of_nat)

subsection \<open>Reading past other messages\<close>

text \<open>What the node answers while it skips a message.\<close>

definition answer :: "crypto \<Rightarrow> string \<times> bytes \<Rightarrow> bytes" where
  "answer cr m = (if str_contains (padded (fst m)) ''ping'' then frame cr ''pong'' (snd m) else [])"

definition skippable :: "crypto \<Rightarrow> string \<Rightarrow> string \<times> bytes \<Rightarrow> bool" where
  "skippable cr wanted m \<longleftrightarrow> command_ok (fst m) \<and> padded (fst m) \<noteq> padded wanted \<and>
     length (snd m) < 2 ^ 32 \<and> length (get_checksum cr (snd m)) = 4"

lemma command_name_frame_head [simp]: "command_name (frame_head cr name payload) = padded name"
  by (simp add: frame_head_def)

lemma read_loop_hit:
  "command_name header = wanted \<Longrightarrow> read_loop cr wanted finish k header st = Ok (header, st)"
  by (simp add: read_loop.simps [of cr wanted finish k])

lemma read_loop_step:
  assumes "skippable cr wanted m" and "command_ok n" and "length (get_checksum cr p) = 4"
  shows "read_loop cr (padded wanted) None k (frame_head cr (fst m) (snd m))
      \<lparr>inp = snd m @ frame_header cr n p @ rest, outp = out\<rparr> =
    read_loop cr (padded wanted) None (k + 1) (frame_head cr n p) \<lparr>inp = rest, outp = out @ answer cr m\<rparr>"
proof -
  have "length (frame_header cr n p) = 24"
    using assms by (intro length_frame_header) (auto simp: command_ok_def)
  then have r: "read_exact 24 \<lparr>inp = frame_header cr n p @ rest, outp = out'\<rparr> =
      Ok (frame_header cr n p, \<lparr>inp = rest, outp = out'\<rparr>)" for out'
    by (rule read_exact_append)
  have "read_payload \<lparr>inp = snd m @ frame_header cr n p @ rest, outp = out\<rparr> (frame_head cr (fst m) (snd m)) =
      Ok (snd m, \<lparr>inp = frame_header cr n p @ rest, outp = out\<rparr>)"
    using assms(1) by (intro read_payload_frame) (simp add: skippable_def)
  with r from_frame_header [OF assms(2,3)] assms(1) show ?thesis
    by (subst read_loop.simps)
      (simp add: skippable_def is_terminated_def write_pong_frame write_all_def answer_def)
qed

lemma read_loop_skip:
  assumes "command_ok wanted" and "length (get_checksum cr payload) = 4"
  shows "list_all (skippable cr wanted) ms \<Longrightarrow> skippable cr wanted m \<Longrightarrow>
    read_loop cr (padded wanted) None k (frame_head cr (fst m) (snd m))
      \<lparr>inp = snd m @ concat (map (\<lambda>m. frame cr (fst m) (snd m)) ms) @ frame_header cr wanted payload @ rest,
       outp = out\<rparr> =
    Ok (frame_head cr wanted payload,
        \<lparr>inp = rest, outp = out @ answer cr m @ concat (map (answer cr) ms)\<rparr>)"
proof (induction ms arbitrary: m k out)
  case Nil
  then show ?case
    using read_loop_step [OF _ assms] by (simp add: read_loop_hit)
next
  case (Cons m' ms)
  then have "command_ok (fst m')" "length (get_checksum cr (snd m')) = 4"
    by (simp_all add: skippable_def)
  from read_loop_step [OF Cons.prems(2) this] Cons show ?case
    by (simp add: frame_def)
qed

lemma read_from_skips:
  assumes "command_ok wanted" and "length (get_checksum cr payload) = 4"
    and "list_all (skippable cr wanted) ms"
  shows "HeaderMessage_read_from cr
      \<lparr>inp = concat (map (\<lambda>m. frame cr (fst m) (snd m)) ms) @ frame_header cr wanted payload @ rest, outp = out\<rparr>
      wanted None =
    Ok (frame_head cr wanted payload, \<lparr>inp = rest, outp = out @ concat (map (answer cr) ms)\<rparr>)"
proof -
  have name: "command_name_to_bytes wanted = (Ok (as_bytes (padded wanted)) :: (bytes, string) result)"
      "from_utf8 (as_bytes (padded wanted)) = Ok (padded wanted)"
    using assms(1) by (simp_all add: command_ok_def command_name_to_bytes_Ok from_utf8_def)
  have first: "read_exact 24 \<lparr>inp = frame_header cr n p @ rest', outp = out\<rparr> =
      Ok (frame_header cr n p, \<lparr>inp = rest', outp = out\<rparr>)"
    if "command_ok n" "length (get_checksum cr p) = 4" for n p rest'
    using that by (intro read_exact_append length_frame_header) (simp_all add: command_ok_def)
  show ?thesis
  proof (cases ms)
    case Nil
    with first [OF assms(1,2)] from_frame_header [OF assms(1,2)] name show ?thesis
      by (simp add: HeaderMessage_read_from_def read_loop_hit)
  next
    case (Cons m ms')
    then have m: "command_ok (fst m)" "length (get_checksum cr (snd m)) = 4"
      using assms(3) by (simp_all add: skippable_def)
    from first [OF m] from_frame_header [OF m] read_loop_skip [OF assms(1,2), of ms' m] assms(3) Cons name
    show ?thesis
      by (simp add: HeaderMessage_read_from_def frame_def)
  qed
qed

end
