(* ===== verification/Version.thy ===== *)
theory Version
  imports Message_Header
begin

section \<open>The version message (src/messages/payload/version\_payload.rs, version\_message.rs)\<close>

text \<open>
  The first message of a connection. The readers of the payload take the bytes and a counter that
  they advance; a slice out of range panics. The time, the random nonce and the two socket addresses
  are arguments: they come from the system clock, the \<open>rand\<close> crate and the operating system. A
  version, a timestamp and a height are signed: the same words, read with \<^const>\<open>sint\<close>.
\<close>

record VersionPayload =
  vp_version :: i32
  services :: u64
  timestamp :: i64
  addr_recv_service :: u64
  addr_recv_ip :: bytes
  addr_recv_port :: u16
  addr_trans_service :: u64
  addr_trans_ip :: bytes
  addr_trans_port :: u16
  vp_nonce :: u64
  user_agent_bytes :: CompactSizeUint
  vp_user_agent :: string
  start_height :: i32
  relay :: bool

subsection \<open>Reading the payload\<close>

text \<open>The version is read from the first four bytes, wherever the counter stands.\<close>

definition get_version_from_bytes :: "bytes \<Rightarrow> nat \<Rightarrow> (i32 \<times> nat, 'e) result" where
  "get_version_from_bytes bytes counter =
     and_then (slice bytes 0 4) (\<lambda>version_bytes. Ok (u32_from_le_bytes version_bytes, counter + 4))"

definition get_services_from_bytes :: "bytes \<Rightarrow> nat \<Rightarrow> (u64 \<times> nat, 'e) result" where
  "get_services_from_bytes bytes counter = read_u64_le bytes counter"

definition get_timestamp_from_bytes :: "bytes \<Rightarrow> nat \<Rightarrow> (i64 \<times> nat, 'e) result" where
  "get_timestamp_from_bytes bytes counter = read_u64_le bytes counter"

definition get_addr_services_from_bytes :: "bytes \<Rightarrow> nat \<Rightarrow> (u64 \<times> nat, 'e) result" where
  "get_addr_services_from_bytes bytes counter = read_u64_le bytes counter"

definition get_addr_ip_from_bytes :: "bytes \<Rightarrow> nat \<Rightarrow> (bytes \<times> nat, 'e) result" where
  "get_addr_ip_from_bytes bytes counter = read_array 16 bytes counter"

definition get_addr_port_from_bytes :: "bytes \<Rightarrow> nat \<Rightarrow> (u16 \<times> nat, 'e) result" where
  "get_addr_port_from_bytes bytes counter = read_u16_be bytes counter"

definition get_nonce_from_bytes :: "bytes \<Rightarrow> nat \<Rightarrow> (u64 \<times> nat, 'e) result" where
  "get_nonce_from_bytes bytes counter = read_u64_le bytes counter"

text \<open>An error of the reader (no byte left) leaves the counter and gives the length 0.\<close>

definition get_user_agent_bytes_from_bytes :: "bytes \<Rightarrow> nat \<Rightarrow> (CompactSizeUint \<times> nat, 'e) result" where
  "get_user_agent_bytes_from_bytes bytes counter =
     (case CompactSizeUint_unmarshalling bytes counter of
        Ok r \<Rightarrow> Ok r
      | Err _ \<Rightarrow> Ok (CompactSizeUint_new 0, counter)
      | Panic \<Rightarrow> Panic)"

definition get_user_agent_from_bytes :: "bytes \<Rightarrow> nat \<Rightarrow> u64 \<Rightarrow> (string \<times> nat, string) result" where
  "get_user_agent_from_bytes bytes counter n =
     and_then (slice bytes counter (unat n + counter)) (\<lambda>user_agent_bytes_vec.
     and_then (from_utf8 user_agent_bytes_vec) (\<lambda>agent. Ok (agent, counter + unat n)))"

definition get_start_height_from_bytes :: "bytes \<Rightarrow> nat \<Rightarrow> (i32 \<times> nat, 'e) result" where
  "get_start_height_from_bytes bytes counter = read_u32_le bytes counter"

definition get_relay_from_bytes :: "bytes \<Rightarrow> nat \<Rightarrow> (bool, 'e) result" where
  "get_relay_from_bytes bytes counter =
     and_then (index_at bytes counter) (\<lambda>relay_byte. Ok (relay_byte = 1))"

definition VersionPayload_from_le_bytes :: "bytes \<Rightarrow> (VersionPayload, string) result" where
  "VersionPayload_from_le_bytes bytes =
     and_then (get_version_from_bytes bytes 0) (\<lambda>(v, counter).
     and_then (get_services_from_bytes bytes counter) (\<lambda>(sv, counter).
     and_then (get_timestamp_from_bytes bytes counter) (\<lambda>(ts, counter).
     and_then (get_addr_services_from_bytes bytes counter) (\<lambda>(rs, counter).
     and_then (get_addr_ip_from_bytes bytes counter) (\<lambda>(ri, counter).
     and_then (get_addr_port_from_bytes bytes counter) (\<lambda>(rp, counter).
     and_then (get_addr_services_from_bytes bytes counter) (\<lambda>(trs, counter).
     and_then (get_addr_ip_from_bytes bytes counter) (\<lambda>(ti, counter).
     and_then (get_addr_port_from_bytes bytes counter) (\<lambda>(tp, counter).
     and_then (get_nonce_from_bytes bytes counter) (\<lambda>(nc, counter).
     and_then (get_user_agent_bytes_from_bytes bytes counter) (\<lambda>(uab, counter).
     and_then (decoded_value uab) (\<lambda>n.
     and_then (get_user_agent_from_bytes bytes counter n) (\<lambda>(ua, counter).
     and_then (get_start_height_from_bytes bytes counter) (\<lambda>(sh, counter).
     and_then (get_relay_from_bytes bytes counter) (\<lambda>r.
     Ok \<lparr>vp_version = v, services = sv, timestamp = ts, addr_recv_service = rs, addr_recv_ip = ri,
         addr_recv_port = rp, addr_trans_service = trs, addr_trans_ip = ti, addr_trans_port = tp,
         vp_nonce = nc, user_agent_bytes = uab, vp_user_agent = ua, start_height = sh,
         relay = r\<rparr>)))))))))))))))"

subsection \<open>Writing and building it\<close>

definition VersionPayload_to_le_bytes :: "VersionPayload \<Rightarrow> bytes" where
  "VersionPayload_to_le_bytes self =
     u32_to_le_bytes (vp_version self) @ u64_to_le_bytes (services self) @ u64_to_le_bytes (timestamp self) @
     u64_to_le_bytes (addr_recv_service self) @ addr_recv_ip self @ u16_to_be_bytes (addr_recv_port self) @
     u64_to_le_bytes (addr_trans_service self) @ addr_trans_ip self @ u16_to_be_bytes (addr_trans_port self) @
     u64_to_le_bytes (vp_nonce self) @ CompactSizeUint_marshalling (user_agent_bytes self) @
     as_bytes (vp_user_agent self) @ u32_to_le_bytes (start_height self) @ [if relay self then 1 else 0]"

datatype SocketAddr = V4 bytes u16 | V6 "u16 list" u16

text \<open>
  \<open>to_ipv6_mapped\<close> of the address \<open>a.b.c.d\<close> is \<open>::ffff:a.b.c.d\<close>; its segments are its
  16-bit words.
\<close>

fun ipv6_segments :: "SocketAddr \<Rightarrow> u16 list" where
  "ipv6_segments (V4 octets port) =
     replicate 5 0 @ [0xffff, u16_from_be_bytes (take 2 octets), u16_from_be_bytes (drop 2 octets)]"
| "ipv6_segments (V6 segments port) = segments"

definition get_ipv6_address_ip :: "SocketAddr \<Rightarrow> bytes" where
  "get_ipv6_address_ip socket_addr = concat (map u16_to_be_bytes (ipv6_segments socket_addr))"

text \<open>\<open>now\<close> is the result of reading the clock, \<open>rnd\<close> the random number.\<close>

definition get_version_payload ::
  "(i64, string) result \<Rightarrow> u64 \<Rightarrow> Config \<Rightarrow> SocketAddr \<Rightarrow> SocketAddr \<Rightarrow> (VersionPayload, string) result"
where
  "get_version_payload now rnd config socket_addr local_ip_addr =
     and_then now (\<lambda>ts.
     Ok \<lparr>vp_version = protocol_version config, services = 0, timestamp = ts, addr_recv_service = 1,
         addr_recv_ip = get_ipv6_address_ip socket_addr, addr_recv_port = 18333,
         addr_trans_service = 0, addr_trans_ip = get_ipv6_address_ip local_ip_addr,
         addr_trans_port = 18333, vp_nonce = rnd, user_agent_bytes = CompactSizeUint_new 16,
         vp_user_agent = user_agent config, start_height = 1, relay = True\<rparr>)"

subsection \<open>The message\<close>

record VersionMessage =
  vm_header :: HeaderMessage
  vm_payload :: VersionPayload

definition VersionMessage_write_to :: "VersionMessage \<Rightarrow> tcp \<Rightarrow> (tcp, 'e) result" where
  "VersionMessage_write_to self stream =
     and_then (HeaderMessage_to_le_bytes (vm_header self)) (\<lambda>header.
     Ok (write_all (header @ VersionPayload_to_le_bytes (vm_payload self)) stream))"

definition VersionMessage_read_from :: "crypto \<Rightarrow> tcp \<Rightarrow> (VersionMessage \<times> tcp, string) result" where
  "VersionMessage_read_from cr stream =
     and_then (HeaderMessage_read_from cr stream ''version'' None) (\<lambda>(header, stream).
     and_then (read_exact (unat (payload_size header)) stream) (\<lambda>(buffer_num, stream).
     and_then (VersionPayload_from_le_bytes buffer_num) (\<lambda>payload.
     Ok (\<lparr>vm_header = header, vm_payload = payload\<rparr>, stream))))"

definition get_version_message ::
  "crypto \<Rightarrow> (i64, string) result \<Rightarrow> u64 \<Rightarrow> Config \<Rightarrow> SocketAddr \<Rightarrow> SocketAddr \<Rightarrow> (VersionMessage, string) result"
where
  "get_version_message cr now rnd config socket_addr local_ip_addr =
     and_then (get_version_payload now rnd config socket_addr local_ip_addr) (\<lambda>version_payload.
     Ok \<lparr>vm_header = \<lparr>start_string = cfg_start_string config, command_name = ''version'',
             payload_size = of_nat (length (VersionPayload_to_le_bytes version_payload)),
             checksum = get_checksum cr (VersionPayload_to_le_bytes version_payload)\<rparr>,
         vm_payload = version_payload\<rparr>)"

subsection \<open>Both directions of the payload\<close>

definition wf_version :: "VersionPayload \<Rightarrow> bool" where
  "wf_version p \<longleftrightarrow> length (addr_recv_ip p) = 16 \<and> length (addr_trans_ip p) = 16 \<and>
     wf_compact (user_agent_bytes p) \<and> compact_nat (user_agent_bytes p) = length (vp_user_agent p) \<and>
     utf8_valid (as_bytes (vp_user_agent p))"

text \<open>The encoding, with any last byte.\<close>

definition version_bytes :: "VersionPayload \<Rightarrow> u8 \<Rightarrow> bytes" where
  "version_bytes p b = butlast (VersionPayload_to_le_bytes p) @ [b]"

lemma version_bytes_to_le: "version_bytes p (if relay p then 1 else 0) = VersionPayload_to_le_bytes p"
  by (simp add: version_bytes_def VersionPayload_to_le_bytes_def butlast_append)

lemma version_bytes_eq:
  "version_bytes p b =
     u32_to_le_bytes (vp_version p) @ u64_to_le_bytes (services p) @ u64_to_le_bytes (timestamp p) @
     u64_to_le_bytes (addr_recv_service p) @ addr_recv_ip p @ u16_to_be_bytes (addr_recv_port p) @
     u64_to_le_bytes (addr_trans_service p) @ addr_trans_ip p @ u16_to_be_bytes (addr_trans_port p) @
     u64_to_le_bytes (vp_nonce p) @ CompactSizeUint_marshalling (user_agent_bytes p) @
     as_bytes (vp_user_agent p) @ u32_to_le_bytes (start_height p) @ [b]"
  by (simp add: version_bytes_def VersionPayload_to_le_bytes_def butlast_append)

lemma get_version_from_bytes_iff:
  "get_version_from_bytes bs c = Ok (v, c') \<longleftrightarrow> occurs_at bs 0 (u32_to_le_bytes v) \<and> c' = c + 4"
  by (auto simp: get_version_from_bytes_def and_then_eq_Ok slice_iff to_from_bytes
      intro!: exI [of _ "u32_to_le_bytes v"])

lemma get_user_agent_from_bytes_iff:
  "get_user_agent_from_bytes bs c n = Ok (ua, c') \<longleftrightarrow>
     occurs_at bs c (as_bytes ua) \<and> unat n = length ua \<and> utf8_valid (as_bytes ua) \<and> c' = c + length ua"
  by (auto simp: get_user_agent_from_bytes_def and_then_eq_Ok slice_iff from_utf8_def split: if_splits
      intro!: exI [of _ "as_bytes ua"])

lemma get_relay_from_bytes_iff:
  "get_relay_from_bytes bs c = Ok r \<longleftrightarrow> (\<exists>b. occurs_at bs c [b] \<and> r = (b = 1))"
  by (auto simp: get_relay_from_bytes_def and_then_eq_Ok index_at_iff)

text \<open>At the end of the bytes there is no length, and then no height either.\<close>

lemma get_user_agent_bytes_iff:
  "get_user_agent_bytes_from_bytes bs c = Ok (uab, c') \<and> c' < length bs \<longleftrightarrow>
     wf_compact uab \<and> occurs_at bs c (CompactSizeUint_marshalling uab) \<and>
     c' = c + length (CompactSizeUint_marshalling uab) \<and> c' < length bs"
proof (cases "CompactSizeUint_unmarshalling bs c")
  case (Ok r)
  then show ?thesis
    using compact.dec_iff [of bs c uab c'] by (auto simp: get_user_agent_bytes_from_bytes_def)
next
  case (Err e)
  then have "c = length bs"
    by (auto simp: CompactSizeUint_unmarshalling_def and_then_eq_Err usize_sub_def Let_def split: if_splits)
  then show ?thesis
    using Err compact.dec_iff [of bs c uab c'] by (auto simp: get_user_agent_bytes_from_bytes_def)
next
  case Panic
  then show ?thesis
    using compact.dec_iff [of bs c uab c'] by (auto simp: get_user_agent_bytes_from_bytes_def)
qed

definition after_count :: "bytes \<Rightarrow> nat \<Rightarrow> VersionPayload \<Rightarrow> bool" where
  "after_count bs c p \<longleftrightarrow> unat (of_nat (compact_nat (user_agent_bytes p)) :: u64) = length (vp_user_agent p) \<and>
     utf8_valid (as_bytes (vp_user_agent p)) \<and>
     (\<exists>b. occurs_at bs c (as_bytes (vp_user_agent p) @ u32_to_le_bytes (start_height p) @ [b]) \<and> relay p = (b = 1))"

lemma after_count_less: "after_count bs c p \<Longrightarrow> c < length bs"
  by (auto simp: after_count_def dest!: occurs_at_bound)

lemma wf_compact_read:
  "get_user_agent_bytes_from_bytes bs c = Ok (uab, c') \<Longrightarrow> wf_compact uab"
  using CompactSizeUint_new_wf [of 0]
  by (auto simp: get_user_agent_bytes_from_bytes_def compact.dec_iff split: result.splits)

lemma decoded_read:
  "get_user_agent_bytes_from_bytes bs c = Ok (uab, c') \<Longrightarrow> decoded_value uab = Ok (of_nat (compact_nat uab))"
  by (rule decoded_value_wf [OF wf_compact_read])

lemma decoded_unique:
  "get_user_agent_bytes_from_bytes bs c = Ok (uab, c') \<Longrightarrow>
     decoded_value uab = Ok n \<longleftrightarrow> n = of_nat (compact_nat uab)"
  by (auto simp: decoded_read)

definition fixed_fields :: "VersionPayload \<Rightarrow> bytes" where
  "fixed_fields p =
     u32_to_le_bytes (vp_version p) @ u64_to_le_bytes (services p) @ u64_to_le_bytes (timestamp p) @
     u64_to_le_bytes (addr_recv_service p) @ addr_recv_ip p @ u16_to_be_bytes (addr_recv_port p) @
     u64_to_le_bytes (addr_trans_service p) @ addr_trans_ip p @ u16_to_be_bytes (addr_trans_port p) @
     u64_to_le_bytes (vp_nonce p)"

lemmas version_readers = get_version_from_bytes_iff get_services_from_bytes_def get_timestamp_from_bytes_def
  get_addr_services_from_bytes_def get_addr_ip_from_bytes_def get_addr_port_from_bytes_def
  get_nonce_from_bytes_def get_user_agent_from_bytes_iff get_start_height_from_bytes_def
  get_relay_from_bytes_iff read_iffs

lemma VersionPayload_fields:
  "VersionPayload_from_le_bytes bs = Ok p \<longleftrightarrow>
     length (addr_recv_ip p) = 16 \<and> length (addr_trans_ip p) = 16 \<and> occurs_at bs 0 (fixed_fields p) \<and>
     (\<exists>c'. get_user_agent_bytes_from_bytes bs 80 = (Ok (user_agent_bytes p, c') :: (CompactSizeUint \<times> nat, string) result) \<and>
       after_count bs c' p)" (is "?l \<longleftrightarrow> ?r")
proof
  assume ?l
  then show ?r
    by (cases p)
      (auto simp: VersionPayload_from_le_bytes_def and_then_eq_Ok version_readers after_count_def
        fixed_fields_def occurs_at_append decoded_unique intro!: exI)
next
  assume r: ?r
  then obtain c' b where
      u: "get_user_agent_bytes_from_bytes bs 80 = (Ok (user_agent_bytes p, c') :: (CompactSizeUint \<times> nat, string) result)"
      and n: "unat (of_nat (compact_nat (user_agent_bytes p)) :: u64) = length (vp_user_agent p)"
        "utf8_valid (as_bytes (vp_user_agent p))"
      and b: "occurs_at bs c' (as_bytes (vp_user_agent p) @ u32_to_le_bytes (start_height p) @ [b])"
        "relay p = (b = 1)"
    by (auto simp: after_count_def)
  from r have l: "length (addr_recv_ip p) = 16" "length (addr_trans_ip p) = 16"
      and o: "occurs_at bs 0 (fixed_fields p)"
    by simp_all
  define k where "k = length (vp_user_agent p)"
  have "get_version_from_bytes bs 0 = (Ok (vp_version p, 4) :: (i32 \<times> nat, string) result)"
      "get_services_from_bytes bs 4 = (Ok (services p, 12) :: (u64 \<times> nat, string) result)"
      "get_timestamp_from_bytes bs 12 = (Ok (timestamp p, 20) :: (i64 \<times> nat, string) result)"
      "get_addr_services_from_bytes bs 20 = (Ok (addr_recv_service p, 28) :: (u64 \<times> nat, string) result)"
      "get_addr_ip_from_bytes bs 28 = (Ok (addr_recv_ip p, 44) :: (bytes \<times> nat, string) result)"
      "get_addr_port_from_bytes bs 44 = (Ok (addr_recv_port p, 46) :: (u16 \<times> nat, string) result)"
      "get_addr_services_from_bytes bs 46 = (Ok (addr_trans_service p, 54) :: (u64 \<times> nat, string) result)"
      "get_addr_ip_from_bytes bs 54 = (Ok (addr_trans_ip p, 70) :: (bytes \<times> nat, string) result)"
      "get_addr_port_from_bytes bs 70 = (Ok (addr_trans_port p, 72) :: (u16 \<times> nat, string) result)"
      "get_nonce_from_bytes bs 72 = (Ok (vp_nonce p, 80) :: (u64 \<times> nat, string) result)"
    using o by (simp_all add: version_readers fixed_fields_def occurs_at_append l)
  moreover have "get_user_agent_from_bytes bs c' (of_nat (compact_nat (user_agent_bytes p))) =
        Ok (vp_user_agent p, c' + k)"
      "get_start_height_from_bytes bs (c' + k) = (Ok (start_height p, c' + k + 4) :: (i32 \<times> nat, string) result)"
      "get_relay_from_bytes bs (c' + k + 4) = (Ok (relay p) :: (bool, string) result)"
    using n b by (auto simp: version_readers occurs_at_append k_def)
  ultimately show ?l
    using u by (simp add: VersionPayload_from_le_bytes_def decoded_read [OF u])
qed

lemma VersionPayload_from_le_bytes_iff:
  "VersionPayload_from_le_bytes bs = Ok p \<longleftrightarrow>
     wf_version p \<and> (\<exists>b. occurs_at bs 0 (version_bytes p b) \<and> relay p = (b = 1))"
proof -
  let ?m = "CompactSizeUint_marshalling (user_agent_bytes p)"
  have count: "(\<exists>c'. get_user_agent_bytes_from_bytes bs 80 = (Ok (user_agent_bytes p, c') :: (CompactSizeUint \<times> nat, string) result) \<and>
       after_count bs c' p) \<longleftrightarrow>
     wf_compact (user_agent_bytes p) \<and> occurs_at bs 80 ?m \<and> after_count bs (80 + length ?m) p"
    using after_count_less get_user_agent_bytes_iff [where 'a = string] by metis
  have n: "unat (of_nat (compact_nat (user_agent_bytes p)) :: u64) = compact_nat (user_agent_bytes p)"
    if "wf_compact (user_agent_bytes p)"
    using that by (rule unat_decoded)
  show ?thesis
    unfolding VersionPayload_fields count
    by (cases "wf_compact (user_agent_bytes p)")
      (auto simp: wf_version_def after_count_def n version_bytes_eq fixed_fields_def occurs_at_append
        simp del: of_nat_id)
qed


text \<open>Too few bytes: a slice is out of range.\<close>

lemma short_version_panics:
  assumes "length bs < 80"
  shows "VersionPayload_from_le_bytes bs = Panic"
  using assms
  by (auto simp: VersionPayload_from_le_bytes_def get_version_from_bytes_def
      get_services_from_bytes_def get_timestamp_from_bytes_def get_addr_services_from_bytes_def
      get_addr_ip_from_bytes_def get_addr_port_from_bytes_def get_nonce_from_bytes_def
      read_array_def read_u64_le_def read_u16_be_def slice_def)

lemma length_get_ipv6_address_ip:
  "(\<forall>segs port. a = V6 segs port \<longrightarrow> length segs = 8) \<Longrightarrow> length (get_ipv6_address_ip a) = 16"
  by (cases a) (auto simp: get_ipv6_address_ip_def length_concat comp_def sum_list_triv sum_list_replicate)

lemma header_reads_back:
  assumes "length (start_string h) = 4" and "command_ok (command_name h)" and "length (checksum h) = 4"
    and "HeaderMessage_to_le_bytes h = (Ok bs :: (bytes, 'e) result)"
  shows "length bs = 24 \<and> HeaderMessage_from_le_bytes bs = Ok (h\<lparr>command_name := padded (command_name h)\<rparr>)"
  using assms
  by (auto simp: HeaderMessage_to_le_bytes_def and_then_eq_Ok command_name_to_bytes_Ok command_ok_def
      HeaderMessage_from_le_bytes_def from_utf8_def length_padded)

subsection \<open>Properties\<close>

text \<open>
  C30. The reader of a version payload returns \<open>p\<close> exactly when \<open>p\<close> is well typed (two addresses of
  16 bytes, the user agent valid UTF-8 with the length its count says) and the bytes begin with the
  encoding of \<open>p\<close>, whose last byte may be any byte that agrees with the relay flag: what
  \<open>to_le_bytes\<close> writes is read back.
\<close>

theorem version_payload_exact:
  "VersionPayload_from_le_bytes bs = Ok p \<longleftrightarrow>
     wf_version p \<and> (\<exists>b. occurs_at bs 0 (version_bytes p b) \<and> relay p = (b = 1))"
  by (rule VersionPayload_from_le_bytes_iff)

lemma version_payload_reads_back: "wf_version p \<Longrightarrow> VersionPayload_from_le_bytes (VersionPayload_to_le_bytes p) = Ok p"
  unfolding VersionPayload_from_le_bytes_iff
  by (intro conjI exI [of _ "if relay p then 1 else 0"]) (simp_all add: version_bytes_to_le)

text \<open>
  The version message that the node builds reads back as it was built exactly when the
  configured user agent has 16 bytes: its length is always written as 16.
\<close>

theorem own_version_reads_back:
  assumes "get_version_payload (Ok t) rnd config (V4 peer_ip peer_port) (V4 own_ip own_port) = Ok p"
    and "utf8_valid (as_bytes (user_agent config))"
  shows "VersionPayload_from_le_bytes (VersionPayload_to_le_bytes p) = Ok p \<longleftrightarrow> length (user_agent config) = 16"
proof -
  have p: "vp_user_agent p = user_agent config" "user_agent_bytes p = CompactSizeUint_new 16"
      "addr_recv_ip p = get_ipv6_address_ip (V4 peer_ip peer_port)"
      "addr_trans_ip p = get_ipv6_address_ip (V4 own_ip own_port)"
    using assms(1) by (auto simp: get_version_payload_def)
  with assms(2) CompactSizeUint_new_wf [of 16] have "wf_version p \<longleftrightarrow> length (user_agent config) = 16"
    by (auto simp: wf_version_def length_get_ipv6_address_ip)
  then show ?thesis
    using version_payload_reads_back [of p] VersionPayload_from_le_bytes_iff [of _ p] by blast
qed

theorem own_version_reads_back_witness:
  "\<exists>p. get_version_payload (Ok 0) 7 (initial_config\<lparr>user_agent := ''/satoshi:23.0.1/''\<rparr>)
       (V4 [1, 2, 3, 4] 18333) (V4 [5, 6, 7, 8] 18333) = Ok p \<and>
     VersionPayload_from_le_bytes (VersionPayload_to_le_bytes p) = Ok p"
proof -
  let ?c = "initial_config\<lparr>user_agent := ''/satoshi:23.0.1/''\<rparr>"
  obtain p where p: "get_version_payload (Ok 0) 7 ?c (V4 [1, 2, 3, 4] 18333) (V4 [5, 6, 7, 8] 18333) = Ok p"
    by (simp add: get_version_payload_def)
  have "utf8_valid (as_bytes (user_agent ?c))"
    by (simp add: as_bytes_def)
  from own_version_reads_back [OF p this] p show ?thesis
    by simp
qed

end
