(* ===== verification/Remote.thy ===== *)
theory Remote
  imports Version "HOL-Library.Multiset"
begin

section \<open>Connections that are being set up, and work that is divided among threads\<close>

text \<open>
  What the handshake and the initial download share: a connection whose writes may start to fail,
  the environment that opens connections, and \<open>slice::chunks\<close> with the chunk size that the threads
  are given.
\<close>

subsection \<open>A connection\<close>

text \<open>
  \<open>writes_left\<close> is the number of further writes that succeed, \<open>None\<close> when all do. (The \<open>pong\<close> that is
  written while a message is awaited always succeeds in the model.) A connection whose operation has
  failed is not used again: every caller discards it.
\<close>

record remote =
  stream :: tcp
  writes_left :: "nat option"

definition sending :: "(tcp \<Rightarrow> (tcp, string) result) \<Rightarrow> remote \<Rightarrow> (remote, string) result" where
  "sending f r =
     (case writes_left r of
        Some 0 \<Rightarrow> Err ''Broken pipe (os error 32)''
      | w \<Rightarrow> and_then (f (stream r)) (\<lambda>st. Ok \<lparr>stream = st, writes_left = map_option (\<lambda>n. n - 1) w\<rparr>))"

definition receiving :: "(tcp \<Rightarrow> ('a \<times> tcp, string) result) \<Rightarrow> remote \<Rightarrow> ('a \<times> remote, string) result" where
  "receiving f r = and_then (f (stream r)) (\<lambda>(x, st). Ok (x, r\<lparr>stream := st\<rparr>))"

lemma receiving_Ok_iff:
  "receiving f r = Ok (x, r') \<longleftrightarrow> (\<exists>st. f (stream r) = Ok (x, st) \<and> r' = r\<lparr>stream := st\<rparr>)"
  by (auto simp: receiving_def and_then_eq_Ok)

text \<open>
  What the system provides: opening a connection (with the local address of it), reading the clock
  and drawing a nonce for a version message, name resolution.
\<close>

record net =
  dial :: "SocketAddr \<Rightarrow> (SocketAddr \<times> remote, string) result"
  clock :: "SocketAddr \<Rightarrow> (i64, string) result"
  random :: "SocketAddr \<Rightarrow> u64"
  to_socket_addrs :: "string \<Rightarrow> u16 \<Rightarrow> (SocketAddr list, string) result"

subsection \<open>Chunks\<close>

function chunk_list :: "nat \<Rightarrow> 'a list \<Rightarrow> 'a list list" where
  "chunk_list k xs = (if xs = [] \<or> k = 0 then [] else take k xs # chunk_list k (drop k xs))"
  by pat_completeness auto
termination
  by (relation "measure (\<lambda>(k, xs). length xs)") auto

declare chunk_list.simps [simp del]

text \<open>\<open>xs.chunks(k)\<close> panics when \<open>k\<close> is zero.\<close>

definition chunks :: "nat \<Rightarrow> 'a list \<Rightarrow> ('a list list, 'e) result" where
  "chunks k xs = (if k = 0 then Panic else Ok (chunk_list k xs))"

text \<open>
  \<open>(len as f64 / n as f64).ceil() as usize\<close>. The division is exact enough for lengths below
  \<open>2 ^ 26\<close>; by zero it gives infinity (the largest \<open>usize\<close>), or not-a-number (zero) when \<open>len\<close> is zero.
\<close>

definition equal_chunk_size :: "nat \<Rightarrow> nat \<Rightarrow> nat" where
  "equal_chunk_size len n =
     (if n = 0 then (if len = 0 then 0 else 2 ^ 64 - 1) else (len + n - 1) div n)"

lemma chunk_list_Nil [simp]: "chunk_list k [] = []"
  by (simp add: chunk_list.simps [of k])

lemma concat_chunk_list: "0 < k \<Longrightarrow> concat (chunk_list k xs) = xs"
  by (induction k xs rule: chunk_list.induct) (simp add: chunk_list.simps [of k xs for k xs])

lemma chunk_list_bounds: "c \<in> set (chunk_list k xs) \<Longrightarrow> c \<noteq> [] \<and> length c \<le> k"
proof (induction k xs rule: chunk_list.induct)
  case (1 k xs)
  then show ?case
    by (cases "xs = [] \<or> k = 0") (auto simp: chunk_list.simps [of k xs])
qed

lemma length_chunk_list: "0 < k \<Longrightarrow> length xs \<le> k * n \<Longrightarrow> length (chunk_list k xs) \<le> n"
proof (induction n arbitrary: xs)
  case (Suc n)
  then have "length (chunk_list k (drop k xs)) \<le> n"
    by (intro Suc.IH) simp_all
  then show ?case
    by (simp add: chunk_list.simps [of k xs])
qed simp

lemma equal_chunks_cover: "0 < n \<Longrightarrow> len \<le> equal_chunk_size len n * n"
proof -
  assume "0 < n"
  then have "len + n - 1 = (len + n - 1) div n * n + (len + n - 1) mod n"
    by simp
  moreover have "(len + n - 1) mod n < n"
    using \<open>0 < n\<close> by simp
  ultimately have "len \<le> (len + n - 1) div n * n"
    using \<open>0 < n\<close> by linarith
  with \<open>0 < n\<close> show ?thesis
    by (simp add: equal_chunk_size_def)
qed

lemma equal_chunk_size_pos: "0 < len \<Longrightarrow> 0 < equal_chunk_size len n"
  by (cases len; cases n) (simp_all add: equal_chunk_size_def div_greater_zero_iff)

lemma equal_chunks_at_most:
  assumes "0 < n" and "xs \<noteq> []"
  shows "length (chunk_list (equal_chunk_size (length xs) n) xs) \<le> n"
  using assms equal_chunks_cover [of n "length xs"] by (intro length_chunk_list equal_chunk_size_pos) simp_all

end
