(* ===== verification/Address.thy ===== *)
theory Address
  imports Block
begin

section \<open>Addresses and scripts (src/address\_decoder.rs, src/transactions/script/)\<close>

text \<open>
  Base-58 addresses of testnet, WIF private keys, the P2PKH locking script, the unlocking script and
  their check. The hash functions, the base-58 conversion and the elliptic-curve operations are the
  parameter \<^typ>\<open>crypto\<close>. The address of an output is recovered from its script: for a script
  generated from a valid address this gives the address back.
\<close>

definition UNCOMPRESSED_WIF_LEN :: nat where "UNCOMPRESSED_WIF_LEN = 51"
definition COMPRESSED_WIF_LEN :: nat where "COMPRESSED_WIF_LEN = 52"
definition ADDRESS_LEN :: nat where "ADDRESS_LEN = 34"

definition OP_DUP :: u8 where "OP_DUP = 0x76"
definition OP_HASH160 :: u8 where "OP_HASH160 = 0xA9"
definition OP_EQUALVERIFY :: u8 where "OP_EQUALVERIFY = 0x88"
definition OP_CHECKSIG :: u8 where "OP_CHECKSIG = 0xAC"
definition BYTES_TO_PUSH :: u8 where "BYTES_TO_PUSH = 20"

lemmas opcode_defs = OP_DUP_def OP_HASH160_def OP_EQUALVERIFY_def OP_CHECKSIG_def BYTES_TO_PUSH_def

subsection \<open>Addresses\<close>

definition hash_160 :: "crypto \<Rightarrow> bytes \<Rightarrow> bytes" where
  "hash_160 cr public_key_bytes_compressed = ripemd160 cr (sha256 cr public_key_bytes_compressed)"

definition generate_address :: "crypto \<Rightarrow> bytes \<Rightarrow> (string, string) result" where
  "generate_address cr private_key =
     and_then (of_sum (secp_pubkey cr private_key)) (\<lambda>public_key_bytes_compressed.
     let ripemd160_hash = hash_160 cr public_key_bytes_compressed;
         extended_hash = 0x6f # ripemd160_hash;
         checksum = sha256 cr (sha256 cr extended_hash)
     in Ok (bs58_encode cr (extended_hash @ take 4 checksum)))"

definition validate_address :: "crypto \<Rightarrow> string \<Rightarrow> (unit, string) result" where
  "validate_address cr address =
     (if length address \<noteq> ADDRESS_LEN then Err ''The address is invalid. It has an invalid length.''
      else
        and_then (of_sum (bs58_decode cr address)) (\<lambda>address_decoded_bytes.
        and_then (usize_sub (length address_decoded_bytes) 4) (\<lambda>body_length.
        and_then (slice address_decoded_bytes 0 body_length) (\<lambda>body.
        let checksum_hash = sha256 cr (sha256 cr body) in
        and_then (slice address_decoded_bytes body_length (length address_decoded_bytes)) (\<lambda>checksum_address.
        if checksum_address \<noteq> take 4 checksum_hash then
          Err ''The address is invalid. The checksum is invalid.''
        else Ok ())))))"

definition get_pubkey_hash_from_address :: "crypto \<Rightarrow> string \<Rightarrow> (bytes, string) result" where
  "get_pubkey_hash_from_address cr address =
     and_then (validate_address cr address) (\<lambda>_.
     and_then (of_sum (bs58_decode cr address)) (\<lambda>address_decoded_bytes.
     and_then (usize_sub (length address_decoded_bytes) 4) (\<lambda>body_length.
     and_then (slice address_decoded_bytes 1 body_length) (copy_exact 20))))"

definition decode_wif_private_key :: "crypto \<Rightarrow> string \<Rightarrow> (bytes, string) result" where
  "decode_wif_private_key cr wif_private_key =
     (if length wif_private_key < UNCOMPRESSED_WIF_LEN \<or> length wif_private_key > COMPRESSED_WIF_LEN then
        Err ''The WIF private key is invalid. It has an invalid length.''
      else
        and_then (of_sum (bs58_decode cr wif_private_key)) (\<lambda>decoded.
        and_then
          (if length wif_private_key = UNCOMPRESSED_WIF_LEN then
             and_then (usize_sub (length decoded) 4) (slice decoded 1)
           else and_then (usize_sub (length decoded) 5) (slice decoded 1))
          (\<lambda>vector.
        if length vector \<noteq> 32 then Err ''The WIF private key could not be decoded.''
        else copy_exact 32 vector)))"

definition get_pubkey_compressed :: "crypto \<Rightarrow> string \<Rightarrow> (bytes, string) result" where
  "get_pubkey_compressed cr private_key =
     and_then (decode_wif_private_key cr private_key) (\<lambda>private_key.
     of_sum (secp_pubkey cr private_key))"

definition validate_address_private_key :: "crypto \<Rightarrow> bytes \<Rightarrow> string \<Rightarrow> (unit, string) result" where
  "validate_address_private_key cr private_key address =
     and_then (generate_address cr private_key) (\<lambda>generated.
     if generated \<noteq> address then Err ''The private key does not correspond to the address''
     else Ok ())"

subsection \<open>Scripts\<close>

definition Pubkey_generate_address :: "crypto \<Rightarrow> Pubkey \<Rightarrow> (string, string) result" where
  "Pubkey_generate_address cr self =
     (let bytes = pk_bytes self; len = length bytes in
      if len \<le> 3 then Err ''The pubkey field is too short''
      else
        let first_byte = bytes ! 0; adress_bytes = [0x6f] in
        and_then
          (if first_byte = 0x00 then
             and_then (slice bytes 2 len) (\<lambda>s. Ok (adress_bytes @ s))
           else Ok adress_bytes) (\<lambda>adress_bytes.
        and_then
          (if first_byte = OP_DUP then
             and_then (slice bytes 3 (len - 2)) (\<lambda>s. Ok (adress_bytes @ s))
           else Ok adress_bytes) (\<lambda>adress_bytes.
        let checksum = sha256 cr (sha256 cr adress_bytes) in
        Ok (bs58_encode cr (adress_bytes @ take 4 checksum)))))"

definition TxOut_get_address :: "crypto \<Rightarrow> TxOut \<Rightarrow> (string, string) result" where
  "TxOut_get_address cr self = Pubkey_generate_address cr (pk_script self)"

definition is_sent_to_account :: "crypto \<Rightarrow> TxOut \<Rightarrow> string \<Rightarrow> (bool, string) result" where
  "is_sent_to_account cr self address =
     and_then (TxOut_get_address cr self) (\<lambda>tx_asociate_address.
     Ok (tx_asociate_address = address))"

definition generate_pubkey_script :: "crypto \<Rightarrow> string \<Rightarrow> (bytes, string) result" where
  "generate_pubkey_script cr address =
     and_then (get_pubkey_hash_from_address cr address) (\<lambda>pubkey_hash.
     Ok ([OP_DUP, OP_HASH160, BYTES_TO_PUSH] @ pubkey_hash @ [OP_EQUALVERIFY, OP_CHECKSIG]))"

definition p2pkh_validate :: "crypto \<Rightarrow> bytes \<Rightarrow> bytes \<Rightarrow> (bool, string) result" where
  "p2pkh_validate cr p2pkh_script sig_script =
     and_then (index_at sig_script 0) (\<lambda>length_sig.
     and_then (slice sig_script (unat length_sig + 2) (unat length_sig + 35)) (\<lambda>s.
     and_then (copy_exact 33 s) (\<lambda>sig_script_pubkey.
     and_then (slice p2pkh_script 0 1) (\<lambda>s.
     if s \<noteq> [OP_DUP] then Ok False else
     and_then (slice p2pkh_script 1 2) (\<lambda>s.
     if s \<noteq> [OP_HASH160] then Ok False else
     let ripemd160_hash = hash_160 cr sig_script_pubkey in
     and_then (slice p2pkh_script 23 24) (\<lambda>s.
     if s \<noteq> [OP_EQUALVERIFY] then Ok False else
     and_then (slice p2pkh_script 3 23) (\<lambda>s.
     if s \<noteq> ripemd160_hash then Ok False else
     and_then (slice p2pkh_script 24 25) (\<lambda>s.
     if s \<noteq> [OP_CHECKSIG] then Ok False else
     Ok True))))))))"

definition generate_sig :: "crypto \<Rightarrow> hash32 \<Rightarrow> bytes \<Rightarrow> (bytes, string) result" where
  "generate_sig cr hash private_key =
     and_then (of_sum (ecdsa_sign cr private_key hash)) (\<lambda>signature_bytes.
     Ok (signature_bytes @ [0x01]))"

definition verify_sig :: "crypto \<Rightarrow> bytes \<Rightarrow> bytes \<Rightarrow> bytes \<Rightarrow> (bool, string) result" where
  "verify_sig cr hash signature public_key =
     and_then (usize_sub (length signature) 1) (\<lambda>n.
     and_then (slice signature 0 n) (\<lambda>signature_bytes_without_flag.
     of_sum (ecdsa_verify cr public_key hash signature_bytes_without_flag)))"

subsection \<open>What is documented of the primitives\<close>

text \<open>
  Digest lengths and the length of a compressed key (their Rust types), base-58 decoding undoing
  encoding (and conversely, as base-58 text is canonical), and that a signature verifies under the
  key it was made with. \<^const>\<open>sha256\<close> and the others stay arbitrary otherwise.
\<close>

definition digest_lengths :: "crypto \<Rightarrow> bool" where
  "digest_lengths cr \<longleftrightarrow>
     (\<forall>bs. length (sha256 cr bs) = 32) \<and> (\<forall>bs. length (ripemd160 cr bs) = 20) \<and>
     (\<forall>sk pk. secp_pubkey cr sk = Inr pk \<longrightarrow> length pk = 33)"

definition bs58_inverse :: "crypto \<Rightarrow> bool" where
  "bs58_inverse cr \<longleftrightarrow>
     (\<forall>bs. bs58_decode cr (bs58_encode cr bs) = Inr bs) \<and>
     (\<forall>s bs. bs58_decode cr s = Inr bs \<longrightarrow> bs58_encode cr bs = s)"

definition sign_verifies :: "crypto \<Rightarrow> bool" where
  "sign_verifies cr \<longleftrightarrow>
     (\<forall>sk pk m sig. secp_pubkey cr sk = Inr pk \<longrightarrow> ecdsa_sign cr sk m = Inr sig \<longrightarrow>
        ecdsa_verify cr pk m sig = Inr True)"

subsection \<open>What the functions accept\<close>

lemma of_sum_eq_Ok [simp]: "of_sum s = Ok x \<longleftrightarrow> s = Inr x"
  by (cases s) auto

lemma validate_address_Ok_iff:
  "validate_address cr a = Ok () \<longleftrightarrow>
     length a = 34 \<and>
     (\<exists>body checksum. bs58_decode cr a = Inr (body @ checksum) \<and> length checksum = 4 \<and>
        checksum = take 4 (sha256 cr (sha256 cr body)))"
proof
  assume "validate_address cr a = Ok ()"
  then obtain bs where "length a = 34" and d: "bs58_decode cr a = Inr bs" and n: "4 \<le> length bs"
      and ck: "drop (length bs - 4) bs = take 4 (sha256 cr (sha256 cr (take (length bs - 4) bs)))"
    by (auto simp: validate_address_def ADDRESS_LEN_def and_then_eq_Ok access_iffs Let_def
        split: if_splits)
  then show "length a = 34 \<and>
     (\<exists>body checksum. bs58_decode cr a = Inr (body @ checksum) \<and> length checksum = 4 \<and>
        checksum = take 4 (sha256 cr (sha256 cr body)))"
    by (metis append_take_drop_id diff_diff_cancel length_drop)
qed (auto simp: validate_address_def ADDRESS_LEN_def usize_sub_def slice_def)

text \<open>The address text of a public key hash, and that it is what every conversion agrees on.\<close>

definition address_of_hash :: "crypto \<Rightarrow> bytes \<Rightarrow> string" where
  "address_of_hash cr h = bs58_encode cr (0x6f # h @ take 4 (sha256 cr (sha256 cr (0x6f # h))))"

definition p2pkh_of_hash :: "bytes \<Rightarrow> bytes" where
  "p2pkh_of_hash h = [OP_DUP, OP_HASH160, BYTES_TO_PUSH] @ h @ [OP_EQUALVERIFY, OP_CHECKSIG]"

lemma generate_address_eq:
  "secp_pubkey cr sk = Inr pk \<Longrightarrow> generate_address cr sk = Ok (address_of_hash cr (hash_160 cr pk))"
  by (simp add: generate_address_def address_of_hash_def Let_def)

lemma Pubkey_generate_address_p2pkh:
  "length h = 20 \<Longrightarrow>
     Pubkey_generate_address cr (Pubkey_new (p2pkh_of_hash h)) = Ok (address_of_hash cr h)"
  by (simp add: Pubkey_generate_address_def p2pkh_of_hash_def address_of_hash_def Pubkey_new_def
      slice_def OP_DUP_def)

lemma generate_pubkey_script_Ok:
  assumes "generate_pubkey_script cr a = Ok s"
  shows "\<exists>v h ck. bs58_decode cr a = Inr (v # h @ ck) \<and> length h = 20 \<and> length ck = 4 \<and>
    ck = take 4 (sha256 cr (sha256 cr (v # h))) \<and> s = p2pkh_of_hash h"
proof -
  from assms obtain h bs where "validate_address cr a = Ok ()" and d: "bs58_decode cr a = Inr bs"
      and h: "h = take (length bs - 5) (drop 1 bs)" "length h = 20" "5 \<le> length bs" and s: "s = p2pkh_of_hash h"
    by (auto simp: generate_pubkey_script_def get_pubkey_hash_from_address_def and_then_eq_Ok
        access_iffs copy_exact_eq_Ok p2pkh_of_hash_def)
  then obtain body ck where b: "bs = body @ ck" "length ck = 4" "ck = take 4 (sha256 cr (sha256 cr body))"
    by (auto simp: validate_address_Ok_iff)
  with h obtain v where "body = v # h"
    by (cases body) auto
  with b d h(2) s show ?thesis
    by (intro exI [of _ v] exI [of _ h] exI [of _ ck]) simp
qed

lemma generate_pubkey_script_address_of_hash:
  assumes "digest_lengths cr" and "bs58_inverse cr" and "length h = 20"
    and "length (address_of_hash cr h) = 34"
  shows "generate_pubkey_script cr (address_of_hash cr h) = Ok (p2pkh_of_hash h)"
proof -
  let ?ck = "take 4 (sha256 cr (sha256 cr (0x6f # h)))"
  have d: "bs58_decode cr (address_of_hash cr h) = Inr ((0x6f # h) @ ?ck)"
    using assms(2) by (simp add: bs58_inverse_def address_of_hash_def)
  have ck: "length ?ck = 4"
    using assms(1) by (simp add: digest_lengths_def)
  have "validate_address cr (address_of_hash cr h) = Ok ()"
    unfolding validate_address_Ok_iff using d ck assms(4) by blast
  with d ck assms(3) show ?thesis
    by (simp add: generate_pubkey_script_def get_pubkey_hash_from_address_def usize_sub_def slice_def
        copy_exact_def p2pkh_of_hash_def)
qed

lemma p2pkh_validate_own:
  assumes "length h = 20" and "length sig < 256" and "length pk = 33"
  shows "p2pkh_validate cr (p2pkh_of_hash h) (of_nat (length sig) # sig @ 33 # pk) =
    Ok (h = hash_160 cr pk)"
  using assms
  by (auto simp: p2pkh_validate_def p2pkh_of_hash_def index_at_def slice_def copy_exact_def
      unat_of_nat)

text \<open>A four-byte script that starts with \<open>OP_DUP\<close> makes the slice \<open>bytes[3..2]\<close>.\<close>

lemma Pubkey_generate_address_Panic:
  "Pubkey_generate_address cr pk = Panic \<longleftrightarrow> length (pk_bytes pk) = 4 \<and> pk_bytes pk ! 0 = OP_DUP"
  by (auto simp: Pubkey_generate_address_def Let_def slice_def OP_DUP_def)

subsection \<open>The sample instance has the documented properties\<close>

lemma sample_digest_lengths: "digest_lengths sample_crypto"
  by (auto simp: digest_lengths_def sample_crypto_def split: if_splits)

lemma char_byte_inverse [simp]:
  "of_nat (of_char (char_of (unat (b :: u8)) :: char)) = b"
  "char_of (unat (of_nat (of_char c) :: u8)) = c"
  by (simp_all add: unat_of_nat)

lemma sample_bs58_inverse: "bs58_inverse sample_crypto"
  unfolding bs58_inverse_def
proof (intro conjI allI impI)
  fix s bs
  assume "bs58_decode sample_crypto s = Inr bs"
  then show "bs58_encode sample_crypto bs = s"
    by (auto simp: sample_crypto_def Let_def comp_def split: if_splits) (metis append_take_drop_id)+
qed (simp_all add: sample_crypto_def Let_def comp_def)

lemma sample_sign_verifies: "sign_verifies sample_crypto"
  by (auto simp: sign_verifies_def sample_crypto_def split: if_splits)

subsection \<open>Properties\<close>

text \<open>
  The address generated from a private key, when it has the 34 characters that the program
  requires, is accepted; its locking script is the P2PKH script of the key's hash, the address
  recovered from an output with that script is the same address, and the script check accepts
  an unlocking script exactly when it carries a public key with that hash.
\<close>

theorem address_script_roundtrip:
  assumes "digest_lengths cr" and "bs58_inverse cr"
    and "secp_pubkey cr sk = Inr pk" and "generate_address cr sk = Ok a" and "length a = 34"
    and "length sig < 256" and "length pk' = 33"
  shows "validate_address_private_key cr sk a = Ok () \<and>
    (\<exists>script. generate_pubkey_script cr a = Ok script \<and>
       Pubkey_generate_address cr (Pubkey_new script) = Ok a \<and>
       p2pkh_validate cr script (of_nat (length sig) # sig @ 33 # pk') =
         Ok (hash_160 cr pk = hash_160 cr pk'))"
proof -
  have a: "a = address_of_hash cr (hash_160 cr pk)"
    using assms(3,4) by (simp add: generate_address_eq)
  have h: "length (hash_160 cr pk) = 20"
    using assms(1) by (simp add: digest_lengths_def hash_160_def)
  have "generate_pubkey_script cr a = Ok (p2pkh_of_hash (hash_160 cr pk))"
    using generate_pubkey_script_address_of_hash [OF assms(1,2) h] a assms(5) by simp
  then show ?thesis
    using assms a h
    by (simp add: validate_address_private_key_def Pubkey_generate_address_p2pkh p2pkh_validate_own)
qed

definition sample_key :: bytes where
  "sample_key = replicate 32 7"

lemma length_sample_key [simp]: "length sample_key = 32"
  by (simp add: sample_key_def)

lemma sample_pubkey: "secp_pubkey sample_crypto sample_key = Inr (2 # sample_key)"
  by (simp add: sample_crypto_def)

definition sample_address :: string where
  "sample_address = address_of_hash sample_crypto (hash_160 sample_crypto (2 # sample_key))"

lemma sample_address_length: "length sample_address = 34"
  by (simp add: sample_address_def address_of_hash_def hash_160_def sample_crypto_def)

theorem address_script_roundtrip_witness:
  "\<exists>script. generate_pubkey_script sample_crypto sample_address = Ok script \<and>
     p2pkh_validate sample_crypto script (of_nat (length ([] :: bytes)) # [] @ 33 # (2 # sample_key)) = Ok True"
  using address_script_roundtrip [OF sample_digest_lengths sample_bs58_inverse sample_pubkey _
      sample_address_length, of "[]" "2 # sample_key"]
  by (auto simp: sample_address_def generate_address_eq sample_pubkey)

text \<open>
  Recovering the address of an output panics for exactly the scripts of four bytes that start
  with \<open>OP_DUP\<close>; for every other script the result is an address or an error.
\<close>

theorem output_address_panics:
  "TxOut_get_address cr o' = Panic \<longleftrightarrow>
     length (pk_bytes (pk_script o')) = 4 \<and> pk_bytes (pk_script o') ! 0 = OP_DUP"
  by (simp add: TxOut_get_address_def Pubkey_generate_address_Panic)

end
