(* ===== verification/Utxo.thy ===== *)
theory Utxo
  imports Address
begin

section \<open>The UTXO set (src/utxo\_tuple.rs, transaction.rs, block.rs)\<close>

text \<open>
  \<open>UtxoTuple\<close> keeps the unspent outputs of one transaction with their positions; the node's UTXO set
  is a hash map from transaction ids to such tuples. A transaction removes the outputs its inputs
  name and inserts its own; a block does so for its transactions in order.

  The specification is the partial function from outpoints to outputs that the map stands for
  (\<open>utxo_view\<close>). Every operation is shown to be the obvious operation on that view, through the
  locale \<open>utxo_store\<close>, in which the effect of a block is derived once from the laws of the two
  updates.
\<close>

record UtxoTuple =
  ut_hash :: hash32
  ut_utxos :: "(TxOut \<times> nat) list"

type_synonym utxo_map = "hash32 \<rightharpoonup> UtxoTuple"

definition UtxoTuple_new :: "hash32 \<Rightarrow> (TxOut \<times> nat) list \<Rightarrow> UtxoTuple" where
  "UtxoTuple_new h us = \<lparr>ut_hash = h, ut_utxos = us\<rparr>"

fun referenced_loop ::
  "crypto \<Rightarrow> string \<Rightarrow> (TxOut \<times> nat) list \<Rightarrow> (TxOut \<times> nat) list \<Rightarrow> ((TxOut \<times> nat) list, 'e) result"
where
  "referenced_loop cr address [] acc = Ok acc"
| "referenced_loop cr address (utxo # us) acc =
     (case TxOut_get_address cr (fst utxo) of
        Ok a \<Rightarrow> referenced_loop cr address us (if address = a then acc @ [utxo] else acc)
      | Err _ \<Rightarrow> referenced_loop cr address us acc
      | Panic \<Rightarrow> Panic)"

definition referenced_utxos :: "crypto \<Rightarrow> UtxoTuple \<Rightarrow> string \<Rightarrow> (UtxoTuple option, 'e) result" where
  "referenced_utxos cr self address =
     and_then (referenced_loop cr address (ut_utxos self) []) (\<lambda>us.
     if us = [] then Ok None else Ok (Some \<lparr>ut_hash = ut_hash self, ut_utxos = us\<rparr>))"

definition UtxoTuple_balance :: "UtxoTuple \<Rightarrow> (i64, 'e) result" where
  "UtxoTuple_balance self = i64_sum 0 (map (TxOut_value \<circ> fst) (ut_utxos self))"

definition UtxoTuple_hash :: "UtxoTuple \<Rightarrow> hash32" where
  "UtxoTuple_hash self = ut_hash self"

definition get_indexes_from_utxos :: "UtxoTuple \<Rightarrow> nat list" where
  "get_indexes_from_utxos self = map snd (ut_utxos self)"

fun utxos_to_spend_loop ::
  "i64 \<Rightarrow> (TxOut \<times> nat) list \<Rightarrow> i64 \<Rightarrow> ((TxOut \<times> nat) list \<times> i64, 'e) result"
where
  "utxos_to_spend_loop v [] partial_amount = Ok ([], partial_amount)"
| "utxos_to_spend_loop v (utxo # us) partial_amount =
     and_then (i64_add partial_amount (TxOut_value (fst utxo))) (\<lambda>partial_amount.
     if sint partial_amount > sint v then Ok ([utxo], partial_amount)
     else
       and_then (utxos_to_spend_loop v us partial_amount) (\<lambda>(rest, partial_amount).
       Ok (utxo # rest, partial_amount)))"

definition utxos_to_spend :: "UtxoTuple \<Rightarrow> i64 \<Rightarrow> i64 \<Rightarrow> (UtxoTuple \<times> i64, 'e) result" where
  "utxos_to_spend self v partial_amount =
     and_then (utxos_to_spend_loop v (ut_utxos self) partial_amount) (\<lambda>(us, partial_amount).
     Ok (UtxoTuple_new (ut_hash self) us, partial_amount))"

fun find_script :: "(TxOut \<times> nat) list \<Rightarrow> nat \<Rightarrow> bytes option" where
  "find_script [] previous_index = None"
| "find_script (utxo # us) previous_index =
     (if snd utxo = previous_index then Some (get_pub_key_script (fst utxo))
      else find_script us previous_index)"

definition UtxoTuple_find :: "UtxoTuple \<Rightarrow> hash32 \<Rightarrow> nat \<Rightarrow> bytes option" where
  "UtxoTuple_find self previous_hash previous_index =
     (if ut_hash self \<noteq> previous_hash then None else find_script (ut_utxos self) previous_index)"

fun remove_first :: "(TxOut \<times> nat) list \<Rightarrow> nat \<Rightarrow> (TxOut \<times> nat) list" where
  "remove_first [] output_index = []"
| "remove_first (utxo # us) output_index =
     (if snd utxo = output_index then us else utxo # remove_first us output_index)"

definition remove_utxo :: "UtxoTuple \<Rightarrow> nat \<Rightarrow> UtxoTuple" where
  "remove_utxo self output_index = self\<lparr>ut_utxos := remove_first (ut_utxos self) output_index\<rparr>"

subsection \<open>Transactions and blocks on the set\<close>

definition remove_utxos :: "Transaction \<Rightarrow> utxo_map \<Rightarrow> utxo_map" where
  "remove_utxos self m =
     fold (\<lambda>txin m.
        let txid = get_previous_output_hash txin;
            output_index = get_previous_output_index txin
        in case m txid of
             None \<Rightarrow> m
           | Some utxo \<Rightarrow> m(txid \<mapsto> remove_utxo utxo output_index))
       (tx_in self) m"

definition load_utxos :: "crypto \<Rightarrow> Transaction \<Rightarrow> utxo_map \<Rightarrow> utxo_map" where
  "load_utxos cr self m =
     (let hash = Transaction_hash cr self;
          utxos_and_index = zip (tx_out self) [0..<length (tx_out self)]
      in m(hash \<mapsto> UtxoTuple_new hash utxos_and_index))"

definition give_me_utxos :: "crypto \<Rightarrow> Block \<Rightarrow> utxo_map \<Rightarrow> (utxo_map, 'e) result" where
  "give_me_utxos cr self m =
     fold_result (\<lambda>tx m.
        and_then (is_coinbase_transaction tx) (\<lambda>coinbase.
        if coinbase then Ok (load_utxos cr tx m)
        else Ok (load_utxos cr tx (remove_utxos tx m))))
       (txn self) m"

subsection \<open>The specification: outpoints to outputs\<close>

type_synonym utxo_view = "hash32 \<times> nat \<rightharpoonup> TxOut"

definition utxo_view :: "utxo_map \<Rightarrow> utxo_view" where
  "utxo_view m = (\<lambda>(h, i). case m h of None \<Rightarrow> None | Some t \<Rightarrow> map_of (map prod.swap (ut_utxos t)) i)"

definition wf_utxos :: "utxo_map \<Rightarrow> bool" where
  "wf_utxos m \<longleftrightarrow> (\<forall>h t. m h = Some t \<longrightarrow> ut_hash t = h \<and> distinct (map snd (ut_utxos t)))"

definition spent_by :: "Transaction \<Rightarrow> (hash32 \<times> nat) set" where
  "spent_by tx = (\<lambda>i. (get_previous_output_hash i, get_previous_output_index i)) ` set (tx_in tx)"

definition spend :: "(hash32 \<times> nat) set \<Rightarrow> utxo_view \<Rightarrow> utxo_view" where
  "spend S u = u |` (- S)"

definition create :: "hash32 \<Rightarrow> TxOut list \<Rightarrow> utxo_view \<Rightarrow> utxo_view" where
  "create h outs u =
     (\<lambda>(h', i). if h' = h then (if i < length outs then Some (outs ! i) else None) else u (h', i))"

definition is_coinbase :: "Transaction \<Rightarrow> bool" where
  "is_coinbase tx \<longleftrightarrow> TxIn_is_coinbase (hd (tx_in tx))"

definition apply_tx :: "crypto \<Rightarrow> Transaction \<Rightarrow> utxo_view \<Rightarrow> utxo_view" where
  "apply_tx cr tx u =
     create (Transaction_hash cr tx) (tx_out tx) (if is_coinbase tx then u else spend (spent_by tx) u)"

text \<open>
  The interface between the UTXO set and its clients: two updates, a view and an invariant.
\<close>

locale utxo_store =
  fixes view :: "'s \<Rightarrow> utxo_view"
    and inv :: "'s \<Rightarrow> bool"
    and remove :: "Transaction \<Rightarrow> 's \<Rightarrow> 's"
    and load :: "crypto \<Rightarrow> Transaction \<Rightarrow> 's \<Rightarrow> 's"
  assumes view_remove: "inv s \<Longrightarrow> view (remove tx s) = spend (spent_by tx) (view s)"
    and inv_remove: "inv s \<Longrightarrow> inv (remove tx s)"
    and view_load: "inv s \<Longrightarrow> view (load cr tx s) = create (Transaction_hash cr tx) (tx_out tx) (view s)"
    and inv_load: "inv s \<Longrightarrow> inv (load cr tx s)"
begin

definition process :: "crypto \<Rightarrow> Transaction \<Rightarrow> 's \<Rightarrow> 's" where
  "process cr tx s = load cr tx (if is_coinbase tx then s else remove tx s)"

lemma process_correct:
  "inv s \<Longrightarrow> inv (process cr tx s) \<and> view (process cr tx s) = apply_tx cr tx (view s)"
  by (simp add: process_def apply_tx_def view_remove inv_remove view_load inv_load)

lemma fold_process:
  "inv s \<Longrightarrow> inv (fold (process cr) txs s) \<and>
     view (fold (process cr) txs s) = fold (apply_tx cr) txs (view s)"
  by (induction txs arbitrary: s) (auto simp: process_correct)

end

subsection \<open>The hash map implements it\<close>

lemma map_of_remove_first:
  "distinct (map snd us) \<Longrightarrow>
     map_of (map prod.swap (remove_first us i)) = (map_of (map prod.swap us))(i := None)"
proof (induction us)
  case (Cons u us)
  show ?case
  proof (cases "snd u = i")
    case True
    have "map_of (map prod.swap us) i = None"
      using Cons.prems True by (auto simp: map_of_eq_None_iff image_image)
    with True show ?thesis by (auto simp: fun_eq_iff)
  next
    case False
    with Cons show ?thesis by (auto simp: fun_eq_iff)
  qed
qed simp

lemma set_remove_first: "set (remove_first us i) \<subseteq> set us"
  by (induction us) auto

lemma distinct_remove_first: "distinct (map snd us) \<Longrightarrow> distinct (map snd (remove_first us i))"
proof (induction us)
  case (Cons u us)
  then show ?case using set_remove_first [of us i] by auto
qed simp

definition remove_outpoint :: "hash32 \<times> nat \<Rightarrow> utxo_map \<Rightarrow> utxo_map" where
  "remove_outpoint p m =
     (case m (fst p) of None \<Rightarrow> m | Some utxo \<Rightarrow> m(fst p \<mapsto> remove_utxo utxo (snd p)))"

lemma remove_utxos_fold:
  "remove_utxos tx m =
     fold remove_outpoint (map (\<lambda>i. (get_previous_output_hash i, get_previous_output_index i)) (tx_in tx)) m"
  unfolding remove_utxos_def fold_map
  by (rule fold_cong) (auto simp: remove_outpoint_def Let_def fun_eq_iff split: option.split)

lemma remove_outpoint_correct:
  assumes "wf_utxos m"
  shows "wf_utxos (remove_outpoint p m) \<and> utxo_view (remove_outpoint p m) = spend {p} (utxo_view m)"
proof (cases "m (fst p)")
  case None
  then have "utxo_view m p = None"
    by (cases p) (simp add: utxo_view_def)
  with None assms show ?thesis
    by (auto simp: remove_outpoint_def spend_def restrict_map_def fun_eq_iff)
next
  case (Some t)
  then have "ut_hash t = fst p" "distinct (map snd (ut_utxos t))"
    using assms by (auto simp: wf_utxos_def)
  with Some assms show ?thesis
    by (cases p) (auto simp: remove_outpoint_def spend_def restrict_map_def fun_eq_iff utxo_view_def
        wf_utxos_def remove_utxo_def map_of_remove_first distinct_remove_first)
qed

lemma fold_remove_outpoint:
  "wf_utxos m \<Longrightarrow> wf_utxos (fold remove_outpoint ps m) \<and>
     utxo_view (fold remove_outpoint ps m) = spend (set ps) (utxo_view m)"
proof (induction ps arbitrary: m)
  case Nil
  then show ?case by (auto simp: spend_def restrict_map_def fun_eq_iff)
next
  case (Cons p ps)
  then show ?case
    using remove_outpoint_correct [of m p]
    by (auto simp: spend_def restrict_map_def fun_eq_iff)
qed

lemma map_of_enumerate:
  "map_of (map prod.swap (zip xs [0..<length xs])) i = (if i < length xs then Some (xs ! i) else None)"
proof -
  have "map prod.swap (zip xs [0..<length xs]) = zip [0..<length xs] xs"
    by (rule nth_equalityI) simp_all
  then show ?thesis
    by (auto simp: in_set_zip map_of_eq_None_iff intro!: map_of_is_SomeI
        intro: exI [of _ i])
qed

lemma load_utxos_correct:
  "wf_utxos m \<Longrightarrow> wf_utxos (load_utxos cr tx m) \<and>
     utxo_view (load_utxos cr tx m) = create (Transaction_hash cr tx) (tx_out tx) (utxo_view m)"
  by (auto simp: load_utxos_def wf_utxos_def utxo_view_def create_def fun_eq_iff UtxoTuple_new_def
      map_of_enumerate Let_def)

interpretation utxos: utxo_store utxo_view wf_utxos remove_utxos load_utxos
  by unfold_locales
    (simp_all add: load_utxos_correct remove_utxos_fold fold_remove_outpoint spent_by_def)

lemma give_me_utxos_process:
  "\<forall>tx \<in> set (txn b). tx_in tx \<noteq> [] \<Longrightarrow>
     give_me_utxos cr b m = Ok (fold (utxos.process cr) (txn b) m)"
  unfolding give_me_utxos_def
  by (rule fold_result_all_Ok)
    (auto simp: is_coinbase_transaction_def index_at_def utxos.process_def is_coinbase_def hd_conv_nth)

lemma give_me_utxos_refines:
  assumes "\<forall>tx \<in> set (txn b). tx_in tx \<noteq> []" and "wf_utxos m"
  shows "\<exists>m'. give_me_utxos cr b m = Ok m' \<and> wf_utxos m' \<and>
    utxo_view m' = fold (apply_tx cr) (txn b) (utxo_view m)"
  unfolding give_me_utxos_process [OF assms(1)] using utxos.fold_process [OF assms(2), of cr "txn b"] by auto

subsection \<open>Properties\<close>

text \<open>
  C13. \<open>Block::give_me_utxos\<close> implements its specification on the outpoints: for a block whose
  transactions have inputs (every block that was read from the network) it returns, keeps the
  invariant of the hash map, and the set it stands for is the previous one with, for each
  transaction in order, the outputs it spends removed (except for a coinbase) and its own outputs
  added.
\<close>

theorem give_me_utxos_correct:
  assumes "list_all (\<lambda>tx. tx_in tx \<noteq> []) (txn b)" and "wf_utxos m"
  shows "\<exists>m'. give_me_utxos cr b m = (Ok m' :: (utxo_map, 'e) result) \<and> wf_utxos m' \<and>
    utxo_view m' = fold (apply_tx cr) (txn b) (utxo_view m)"
  using assms by (intro give_me_utxos_refines) (simp_all add: list_all_iff)

theorem give_me_utxos_correct_witness:
  "\<exists>m'. give_me_utxos sample_crypto sample_block Map.empty = (Ok m' :: (utxo_map, unit) result) \<and> wf_utxos m' \<and>
    utxo_view m' = fold (apply_tx sample_crypto) (txn sample_block) (utxo_view Map.empty)"
  by (rule give_me_utxos_correct)
    (simp_all add: wf_utxos_def sample_block_def Block_new_def sample_tx_def Transaction_new_def)

lemma apply_tx_other:
  "Transaction_hash cr t \<noteq> fst p \<Longrightarrow>
     apply_tx cr t u p = (if is_coinbase t then u p else spend (spent_by t) u p)"
  by (cases p) (simp add: apply_tx_def create_def)

lemma fold_apply_tx_other:
  "\<forall>t \<in> set ts. Transaction_hash cr t \<noteq> fst p \<and> (is_coinbase t \<or> p \<notin> spent_by t) \<Longrightarrow>
     fold (apply_tx cr) ts u p = u p"
  by (induction ts arbitrary: u) (auto simp: apply_tx_other spend_def)

lemma fold_apply_tx_absent:
  "\<forall>t \<in> set ts. Transaction_hash cr t \<noteq> fst p \<Longrightarrow> u p = None \<Longrightarrow> fold (apply_tx cr) ts u p = None"
  by (induction ts arbitrary: u) (auto simp: apply_tx_other spend_def restrict_map_def)

text \<open>
  No output is left spendable twice and no new output is lost: after a block, an outpoint that
  a transaction of the block spent is not in the set (unless that or a later transaction of the
  block has its transaction id), and an output that a transaction of the block created is in it
  (unless a later one spends it or has the same id).
\<close>

theorem block_spends_and_creates:
  assumes "list_all (\<lambda>tx. tx_in tx \<noteq> []) (txn b)" and "wf_utxos m"
    and "txn b = before @ tx # after" and "give_me_utxos cr b m = (Ok m' :: (utxo_map, 'e) result)"
  shows "(\<not> is_coinbase tx \<longrightarrow> p \<in> spent_by tx \<longrightarrow>
        fst p \<notin> Transaction_hash cr ` set (tx # after) \<longrightarrow> utxo_view m' p = None) \<and>
    (i < length (tx_out tx) \<longrightarrow>
        (\<forall>t \<in> set after. Transaction_hash cr t \<noteq> Transaction_hash cr tx \<and>
           (is_coinbase t \<or> (Transaction_hash cr tx, i) \<notin> spent_by t)) \<longrightarrow>
        utxo_view m' (Transaction_hash cr tx, i) = Some (tx_out tx ! i))"
proof -
  have v: "utxo_view m' = fold (apply_tx cr) after (apply_tx cr tx (fold (apply_tx cr) before (utxo_view m)))"
    using give_me_utxos_refines [where 'a = 'e, of b m cr] assms by (auto simp: list_all_iff)
  show ?thesis
  proof (intro conjI impI)
    assume "\<not> is_coinbase tx" "p \<in> spent_by tx" "fst p \<notin> Transaction_hash cr ` set (tx # after)"
    then show "utxo_view m' p = None"
      unfolding v
      by (intro fold_apply_tx_absent) (auto simp: apply_tx_other spend_def image_iff)
  next
    assume "i < length (tx_out tx)" "\<forall>t \<in> set after. Transaction_hash cr t \<noteq> Transaction_hash cr tx \<and>
        (is_coinbase t \<or> (Transaction_hash cr tx, i) \<notin> spent_by t)"
    then show "utxo_view m' (Transaction_hash cr tx, i) = Some (tx_out tx ! i)"
      unfolding v by (subst fold_apply_tx_other) (auto simp: apply_tx_def create_def)
  qed
qed

definition sample_payment :: Transaction where
  "sample_payment = Transaction_new 0 (CompactSizeUint_new 1) [incomplete_txin (Outpoint_new (replicate 32 0) 0)]
     (CompactSizeUint_new 1) [TxOut_new 5 (CompactSizeUint_new 0) []] 0"

theorem block_spends_and_creates_witness:
  "\<exists>m'. give_me_utxos sample_crypto (Block_new sample_header (CompactSizeUint_new 1) [sample_payment]) Map.empty =
      (Ok m' :: (utxo_map, unit) result) \<and>
    utxo_view m' (Transaction_hash sample_crypto sample_payment, 0) = Some (TxOut_new 5 (CompactSizeUint_new 0) [])"
proof -
  let ?b = "Block_new sample_header (CompactSizeUint_new 1) [sample_payment]"
  have b: "list_all (\<lambda>tx. tx_in tx \<noteq> []) (txn ?b)" "txn ?b = [] @ sample_payment # []"
    by (simp_all add: Block_new_def sample_payment_def Transaction_new_def)
  have w: "wf_utxos Map.empty"
    by (simp add: wf_utxos_def)
  obtain m' where m': "give_me_utxos sample_crypto ?b Map.empty = (Ok m' :: (utxo_map, unit) result)"
    using give_me_utxos_refines [where 'a = unit, of ?b Map.empty sample_crypto] b w by (auto simp: list_all_iff)
  from block_spends_and_creates [OF b(1) w b(2) m', of undefined 0] m' show ?thesis
    by (simp add: sample_payment_def Transaction_new_def)
qed

end
