(* ===== verification/Account.thy ===== *)
theory Account
  imports Utxo
begin

section \<open>Accounts and spending (src/account.rs, transaction.rs, script/sig\_script.rs)\<close>

text \<open>
  An account holds a key, an address, the tuples of the UTXO set that pay the address and its
  pending and confirmed transactions. \<open>make_transaction\<close> selects outputs, builds the transaction with
  its change output, signs every input and runs the script check. The lists behind
  \<open>Arc<RwLock<Vec<_>>>\<close> are plain lists of the record: the account is the only owner that writes
  them, and a lock is never poisoned as long as no thread panics while holding it. The order in
  which a hash map is iterated is a parameter (a list of its keys).
\<close>

record Account =
  private_key :: string
  address :: string
  utxo_set :: "UtxoTuple list"
  pending_transactions :: "Transaction list"
  confirmed_transactions :: "Transaction list"

definition Account_new :: "crypto \<Rightarrow> string \<Rightarrow> string \<Rightarrow> (Account, string) result" where
  "Account_new cr wif_private_key addr =
     and_then (decode_wif_private_key cr wif_private_key) (\<lambda>raw_private_key.
     and_then (validate_address_private_key cr raw_private_key addr) (\<lambda>_.
     Ok \<lparr>private_key = wif_private_key, address = addr, utxo_set = [],
         pending_transactions = [], confirmed_transactions = []\<rparr>))"

definition Account_get_pubkey_compressed :: "crypto \<Rightarrow> Account \<Rightarrow> (bytes, string) result" where
  "Account_get_pubkey_compressed cr self = get_pubkey_compressed cr (private_key self)"

definition get_private_key :: "crypto \<Rightarrow> Account \<Rightarrow> (bytes, string) result" where
  "get_private_key cr self = decode_wif_private_key cr (private_key self)"

definition Account_get_address :: "Account \<Rightarrow> string" where
  "Account_get_address self = address self"

definition Account_load_utxos :: "Account \<Rightarrow> UtxoTuple list \<Rightarrow> Account" where
  "Account_load_utxos self utxos = self\<lparr>utxo_set := utxos\<rparr>"

fun balance_loop :: "UtxoTuple list \<Rightarrow> i64 \<Rightarrow> (i64, 'e) result" where
  "balance_loop [] balance = Ok balance"
| "balance_loop (utxo # us) balance =
     and_then (UtxoTuple_balance utxo) (\<lambda>b. and_then (i64_add balance b) (balance_loop us))"

definition Account_balance :: "Account \<Rightarrow> (i64, 'e) result" where
  "Account_balance self = balance_loop (utxo_set self) 0"

definition has_balance :: "Account \<Rightarrow> i64 \<Rightarrow> (bool, 'e) result" where
  "has_balance self v = and_then (Account_balance self) (\<lambda>b. Ok (sint b > sint v))"

fun select_loop :: "i64 \<Rightarrow> UtxoTuple list \<Rightarrow> i64 \<Rightarrow> (UtxoTuple list, 'e) result" where
  "select_loop v [] partial_amount = Ok []"
| "select_loop v (utxo # us) partial_amount =
     and_then (UtxoTuple_balance utxo) (\<lambda>b.
     and_then (i64_add partial_amount b) (\<lambda>s.
     if sint s < sint v then
       and_then (select_loop v us s) (\<lambda>rest. Ok (utxo # rest))
     else
       and_then (utxos_to_spend utxo v partial_amount) (\<lambda>(chosen, _). Ok [chosen])))"

definition get_utxos_for_amount :: "Account \<Rightarrow> i64 \<Rightarrow> (UtxoTuple list, 'e) result" where
  "get_utxos_for_amount self v = select_loop v (utxo_set self) 0"

definition add_transaction :: "Account \<Rightarrow> Transaction \<Rightarrow> Account" where
  "add_transaction self transaction =
     self\<lparr>pending_transactions := pending_transactions self @ [transaction]\<rparr>"

subsection \<open>Building the transaction\<close>

text \<open>The loop over the tuples to spend: the inputs so far and the satoshis they carry.\<close>

fun unsigned_inputs :: "UtxoTuple list \<Rightarrow> TxIn list \<Rightarrow> i64 \<Rightarrow> (TxIn list \<times> i64, 'e) result" where
  "unsigned_inputs [] tx_ins input_balance = Ok (tx_ins, input_balance)"
| "unsigned_inputs (utxo # us) tx_ins input_balance =
     (let id = UtxoTuple_hash utxo in
      and_then (UtxoTuple_balance utxo) (\<lambda>b.
      and_then (i64_add input_balance b) (\<lambda>input_balance.
      let indexes = get_indexes_from_utxos utxo in
      unsigned_inputs us
        (tx_ins @ map (\<lambda>index. incomplete_txin (Outpoint_new id (of_nat index))) indexes)
        input_balance)))"

definition generate_unsigned_transaction ::
  "crypto \<Rightarrow> string \<Rightarrow> string \<Rightarrow> i64 \<Rightarrow> i64 \<Rightarrow> UtxoTuple list \<Rightarrow> (Transaction, string) result" where
  "generate_unsigned_transaction cr address_receiver change_adress v fee utxos =
     and_then (unsigned_inputs utxos [] 0) (\<lambda>(tx_ins, input_balance).
     and_then (i64_add v fee) (\<lambda>needed.
     and_then (i64_sub input_balance needed) (\<lambda>change_amount.
     let ic = CompactSizeUint_of_len (length tx_ins) in
     and_then (generate_pubkey_script cr address_receiver) (\<lambda>target_pk_script.
     let utxo_to_send =
           TxOut_new v (CompactSizeUint_of_len (length target_pk_script)) target_pk_script in
     and_then (generate_pubkey_script cr change_adress) (\<lambda>change_pk_script.
     let change_utxo =
           TxOut_new change_amount (CompactSizeUint_of_len (length change_pk_script)) change_pk_script;
         tx_outs = [utxo_to_send, change_utxo];
         oc = CompactSizeUint_of_len (length tx_outs)
     in Ok (Transaction_new TRANSACTION_VERSION ic tx_ins oc tx_outs 0))))))"

subsection \<open>Signing\<close>

definition generate_sig_script :: "crypto \<Rightarrow> hash32 \<Rightarrow> Account \<Rightarrow> (SigScript, string) result" where
  "generate_sig_script cr hash_transaction account =
     and_then (get_private_key cr account) (\<lambda>key.
     and_then (generate_sig cr hash_transaction key) (\<lambda>sig.
     and_then (Account_get_pubkey_compressed cr account) (\<lambda>bytes_public_key.
     Ok (SigScript_new
           (of_nat (length sig) # sig @ of_nat (length bytes_public_key) # bytes_public_key)))))"

definition script_to_sign :: "UtxoTuple list \<Rightarrow> hash32 \<Rightarrow> nat \<Rightarrow> bytes" where
  "script_to_sign utxos h i =
     fold (\<lambda>utxos script. case UtxoTuple_find utxos h i of Some v \<Rightarrow> v | None \<Rightarrow> script) utxos []"

definition generate_message_to_sign ::
  "crypto \<Rightarrow> Transaction \<Rightarrow> nat \<Rightarrow> UtxoTuple list \<Rightarrow> (hash32, 'e) result" where
  "generate_message_to_sign cr self tx_in_index utxos =
     and_then (index_at (tx_in self) tx_in_index) (\<lambda>input_to_sign.
     let script = script_to_sign utxos (get_previous_output_hash input_to_sign)
                    (get_previous_output_index input_to_sign);
         tx_copy = self\<lparr>tx_in := (tx_in self)[tx_in_index := set_signature_script input_to_sign script]\<rparr>
     in Ok (hash_message cr tx_copy True))"

definition sign :: "crypto \<Rightarrow> Transaction \<Rightarrow> Account \<Rightarrow> UtxoTuple list \<Rightarrow> (Transaction, string) result" where
  "sign cr self account utxos =
     and_then
       (traverse
          (\<lambda>index.
             and_then (generate_message_to_sign cr self index utxos) (\<lambda>z.
             generate_sig_script cr z account))
          [0..<length (tx_in self)])
       (\<lambda>signatures. Ok (self\<lparr>tx_in := map2 TxIn_add (tx_in self) signatures\<rparr>))"

subsection \<open>Checking the scripts\<close>

definition p2pkh_scripts :: "UtxoTuple list \<Rightarrow> bytes list" where
  "p2pkh_scripts utxos = concat (map (\<lambda>u. map (get_pub_key_script \<circ> fst) (ut_utxos u)) utxos)"

fun validate_loop :: "crypto \<Rightarrow> bytes list \<Rightarrow> nat \<Rightarrow> TxIn list \<Rightarrow> (unit, string) result" where
  "validate_loop cr scripts index [] = Ok ()"
| "validate_loop cr scripts index (txin # txins) =
     and_then (index_at scripts index) (\<lambda>script.
     and_then (p2pkh_validate cr script (SigScript_get_bytes (signature_script txin))) (\<lambda>valid.
     if \<not> valid then Err ''The p2pkh script is not valid''
     else validate_loop cr scripts (index + 1) txins))"

definition Transaction_validate :: "crypto \<Rightarrow> Transaction \<Rightarrow> UtxoTuple list \<Rightarrow> (unit, string) result" where
  "Transaction_validate cr self utxos = validate_loop cr (p2pkh_scripts utxos) 0 (tx_in self)"

subsection \<open>The whole payment\<close>

text \<open>On an error the account is as before: its only update is the last step.\<close>

definition make_transaction ::
  "crypto \<Rightarrow> Account \<Rightarrow> string \<Rightarrow> i64 \<Rightarrow> i64 \<Rightarrow> (Transaction \<times> Account, string) result" where
  "make_transaction cr self address_receiver amt fee =
     and_then (validate_address cr address_receiver) (\<lambda>_.
     and_then (i64_add amt fee) (\<lambda>needed.
     and_then (has_balance self needed) (\<lambda>enough.
     if \<not> enough then
       Err (''The balance of the account '' @ address self @ '' has less than '' @
            show_int (sint needed) @ '' satoshis'')
     else
     and_then (get_utxos_for_amount self needed) (\<lambda>utxos.
     and_then (generate_unsigned_transaction cr address_receiver (address self) amt fee utxos)
       (\<lambda>unsigned_transaction.
     and_then (sign cr unsigned_transaction self utxos) (\<lambda>signed_transaction.
     and_then (Transaction_validate cr signed_transaction utxos) (\<lambda>_.
     Ok (signed_transaction, add_transaction self signed_transaction))))))))"

definition set_utxos :: "crypto \<Rightarrow> hash32 list \<Rightarrow> utxo_map \<Rightarrow> Account \<Rightarrow> (Account, 'e) result" where
  "set_utxos cr key_order m self =
     and_then
       (traverse (\<lambda>h. case m h of None \<Rightarrow> Ok None | Some utxo \<Rightarrow> referenced_utxos cr utxo (address self))
          key_order)
       (\<lambda>found. Ok (self\<lparr>utxo_set := somes found\<rparr>))"

fun amount_spent_loop :: "crypto \<Rightarrow> string \<Rightarrow> TxOut list \<Rightarrow> i64 \<Rightarrow> (i64, string) result" where
  "amount_spent_loop cr addr [] amt = Ok amt"
| "amount_spent_loop cr addr (txout # outs) amt =
     and_then (is_sent_to_account cr txout addr) (\<lambda>own.
     if \<not> own then and_then (i64_add amt (TxOut_value txout)) (amount_spent_loop cr addr outs)
     else amount_spent_loop cr addr outs amt)"

definition amount_spent_by_account :: "crypto \<Rightarrow> Transaction \<Rightarrow> string \<Rightarrow> (i64, string) result" where
  "amount_spent_by_account cr self addr = amount_spent_loop cr addr (tx_out self) 0"

definition get_transactions :: "crypto \<Rightarrow> Account \<Rightarrow> ((string \<times> Transaction \<times> i64) list, string) result" where
  "get_transactions cr self =
     and_then
       (traverse (\<lambda>tx. and_then (amount_spent_by_account cr tx (address self)) (\<lambda>a. Ok (''Pending'', tx, a)))
          (pending_transactions self)) (\<lambda>pending.
     and_then
       (traverse (\<lambda>tx. and_then (amount_spent_by_account cr tx (address self)) (\<lambda>a. Ok (''Confirmed'', tx, a)))
          (confirmed_transactions self)) (\<lambda>confirmed.
     Ok (pending @ confirmed)))"

subsection \<open>The outputs of an account as one list\<close>

text \<open>Every output with its outpoint, in the order the code walks them.\<close>

definition entries :: "UtxoTuple list \<Rightarrow> (hash32 \<times> nat \<times> TxOut) list" where
  "entries us = concat (map (\<lambda>u. map (\<lambda>(o', i). (ut_hash u, i, o')) (ut_utxos u)) us)"

definition satoshis :: "hash32 \<times> nat \<times> TxOut \<Rightarrow> int" where
  "satoshis e = sint (txout_value (snd (snd e)))"

abbreviation total :: "(hash32 \<times> nat \<times> TxOut) list \<Rightarrow> int" where
  "total es \<equiv> \<Sum>e \<leftarrow> es. satoshis e"

lemma entries_simps [simp]:
  "entries [] = []"
  "entries (u # us) = map (\<lambda>(o', i). (ut_hash u, i, o')) (ut_utxos u) @ entries us"
  by (simp_all add: entries_def)

lemma UtxoTuple_balance_sint:
  "UtxoTuple_balance u = (Ok b :: (i64, 'e) result) \<Longrightarrow> sint b = total (entries [u])"
  by (auto simp: UtxoTuple_balance_def satoshis_def TxOut_value_def comp_def case_prod_beta
      dest!: i64_sum_sint)

lemma balance_loop_sint:
  "balance_loop us acc = (Ok b :: (i64, 'e) result) \<Longrightarrow> sint b = sint acc + total (entries us)"
proof (induction us arbitrary: acc)
  case (Cons u us)
  then obtain c acc' where c: "UtxoTuple_balance u = (Ok c :: (i64, 'e) result)"
      and s: "i64_add acc c = (Ok acc' :: (i64, 'e) result)" and r: "balance_loop us acc' = (Ok b :: (i64, 'e) result)"
    by (auto simp: and_then_eq_Ok)
  from Cons.IH [OF r] i64_add_sint [OF s] UtxoTuple_balance_sint [OF c] show ?case
    by simp
qed simp

lemma Account_balance_sint:
  "Account_balance a = (Ok b :: (i64, 'e) result) \<Longrightarrow> sint b = total (entries (utxo_set a))"
  by (auto simp: Account_balance_def dest: balance_loop_sint)

subsection \<open>Selection\<close>

lemma utxos_to_spend_loop_prefix:
  "utxos_to_spend_loop v us p = (Ok (sel, p') :: ((TxOut \<times> nat) list \<times> i64, 'e) result) \<Longrightarrow>
     (\<exists>k. sel = take k us) \<and> sint p' = sint p + (\<Sum>u \<leftarrow> sel. sint (txout_value (fst u))) \<and>
     (sint p' > sint v \<or> sel = us)"
proof (induction us arbitrary: p sel)
  case (Cons u us)
  from Cons.prems obtain q where q: "i64_add p (TxOut_value (fst u)) = (Ok q :: (i64, 'e) result)"
    and r: "if sint q > sint v then sel = [u] \<and> p' = q
       else \<exists>rest. utxos_to_spend_loop v us q = (Ok (rest, p') :: ((TxOut \<times> nat) list \<times> i64, 'e) result) \<and> sel = u # rest"
    by (auto simp: and_then_eq_Ok split: if_splits)
  note s = i64_add_sint [OF q]
  show ?case
  proof (cases "sint q > sint v")
    case True
    with r s show ?thesis
      by (auto simp: TxOut_value_def intro: exI [of _ 1])
  next
    case False
    with r obtain rest where l: "utxos_to_spend_loop v us q = (Ok (rest, p') :: ((TxOut \<times> nat) list \<times> i64, 'e) result)"
        and sel: "sel = u # rest"
      by auto
    from Cons.IH [OF l] obtain k where "rest = take k us" by blast
    then have "sel = take (Suc k) (u # us)" using sel by simp
    then have "\<exists>k. sel = take k (u # us)" ..
    with Cons.IH [OF l] sel s show ?thesis
      by (elim conjE, intro conjI) (simp_all add: TxOut_value_def)
  qed
qed simp

lemma select_loop_prefix:
  "select_loop v us p = (Ok sel :: (UtxoTuple list, 'e) result) \<Longrightarrow>
     \<exists>k. entries sel = take k (entries us)"
proof (induction us arbitrary: p sel)
  case (Cons u us)
  from Cons.prems obtain b s where b: "UtxoTuple_balance u = (Ok b :: (i64, 'e) result)"
    and s: "i64_add p b = (Ok s :: (i64, 'e) result)"
    and r: "if sint s < sint v
       then \<exists>rest. select_loop v us s = (Ok rest :: (UtxoTuple list, 'e) result) \<and> sel = u # rest
       else \<exists>c p'. utxos_to_spend_loop v (ut_utxos u) p =
              (Ok (c, p') :: ((TxOut \<times> nat) list \<times> i64, 'e) result) \<and> sel = [UtxoTuple_new (ut_hash u) c]"
    by (auto simp: and_then_eq_Ok utxos_to_spend_def split: if_splits)
  show ?case
  proof (cases "sint s < sint v")
    case True
    with r obtain rest where "select_loop v us s = (Ok rest :: (UtxoTuple list, 'e) result)" and sel: "sel = u # rest"
      by auto
    from Cons.IH [OF this(1)] obtain k where "entries rest = take k (entries us)" by blast
    then have "entries sel = take (length (ut_utxos u) + k) (entries (u # us))"
      using sel by simp
    then show ?thesis ..
  next
    case False
    with r obtain c p' where c: "utxos_to_spend_loop v (ut_utxos u) p =
        (Ok (c, p') :: ((TxOut \<times> nat) list \<times> i64, 'e) result)" and sel: "sel = [UtxoTuple_new (ut_hash u) c]"
      by auto
    from utxos_to_spend_loop_prefix [OF c] obtain k where "c = take k (ut_utxos u)" by blast
    then have "c = take (min k (length (ut_utxos u))) (ut_utxos u)"
      by (metis min.commute take_all_iff take_take nat_le_linear)
    then have "entries sel = take (min k (length (ut_utxos u))) (entries (u # us))"
      using sel by (simp add: UtxoTuple_new_def take_map)
    then show ?thesis ..
  qed
qed simp

lemma select_loop_covers:
  "select_loop v us p = (Ok sel :: (UtxoTuple list, 'e) result) \<Longrightarrow>
     sint v \<le> sint p + total (entries us) \<Longrightarrow> sint v \<le> sint p + total (entries sel)"
proof (induction us arbitrary: p sel)
  case (Cons u us)
  from Cons.prems obtain b s where b: "UtxoTuple_balance u = (Ok b :: (i64, 'e) result)"
    and s: "i64_add p b = (Ok s :: (i64, 'e) result)"
    and r: "if sint s < sint v
       then \<exists>rest. select_loop v us s = (Ok rest :: (UtxoTuple list, 'e) result) \<and> sel = u # rest
       else \<exists>c p'. utxos_to_spend_loop v (ut_utxos u) p =
              (Ok (c, p') :: ((TxOut \<times> nat) list \<times> i64, 'e) result) \<and> sel = [UtxoTuple_new (ut_hash u) c]"
    by (auto simp: and_then_eq_Ok utxos_to_spend_def split: if_splits)
  note sums = i64_add_sint [OF s] UtxoTuple_balance_sint [OF b]
  show ?case
  proof (cases "sint s < sint v")
    case True
    with r obtain rest where rest: "select_loop v us s = (Ok rest :: (UtxoTuple list, 'e) result)" and sel: "sel = u # rest"
      by auto
    from Cons.IH [OF rest] Cons.prems(2) sums sel show ?thesis by simp
  next
    case False
    with r obtain c p' where c: "utxos_to_spend_loop v (ut_utxos u) p =
        (Ok (c, p') :: ((TxOut \<times> nat) list \<times> i64, 'e) result)" and sel: "sel = [UtxoTuple_new (ut_hash u) c]"
      by auto
    have "total (entries sel) = (\<Sum>u \<leftarrow> c. sint (txout_value (fst u)))"
      using sel by (simp add: UtxoTuple_new_def satoshis_def comp_def case_prod_beta)
    moreover have "c = ut_utxos u \<Longrightarrow> total (entries sel) = total (entries [u])"
      using sel by (simp add: UtxoTuple_new_def)
    ultimately show ?thesis
      using utxos_to_spend_loop_prefix [OF c] sums False by auto
  qed
qed simp

subsection \<open>The built transaction\<close>

definition input_of :: "hash32 \<times> nat \<times> TxOut \<Rightarrow> Outpoint" where
  "input_of e = Outpoint_new (fst e) (of_nat (fst (snd e)))"

lemma unsigned_inputs_eq:
  "unsigned_inputs us ins bal = (Ok (ins', bal') :: (TxIn list \<times> i64, 'e) result) \<Longrightarrow>
     ins' = ins @ map (incomplete_txin \<circ> input_of) (entries us) \<and> sint bal' = sint bal + total (entries us)"
proof (induction us arbitrary: ins bal)
  case (Cons u us)
  then obtain b s where b: "UtxoTuple_balance u = (Ok b :: (i64, 'e) result)"
    and s: "i64_add bal b = (Ok s :: (i64, 'e) result)"
    and r: "unsigned_inputs us (ins @ map (\<lambda>i. incomplete_txin (Outpoint_new (ut_hash u) (of_nat i))) (map snd (ut_utxos u))) s
       = (Ok (ins', bal') :: (TxIn list \<times> i64, 'e) result)"
    by (auto simp: and_then_eq_Ok Let_def UtxoTuple_hash_def get_indexes_from_utxos_def)
  from Cons.IH [OF r] i64_add_sint [OF s] UtxoTuple_balance_sint [OF b] show ?case
    by (simp add: input_of_def comp_def case_prod_beta)
qed simp

lemma generate_unsigned_transaction_Ok:
  assumes "generate_unsigned_transaction cr r c v fee us = Ok tx"
  shows "\<exists>change rs cs. tx_in tx = map (incomplete_txin \<circ> input_of) (entries us) \<and>
    generate_pubkey_script cr r = Ok rs \<and> generate_pubkey_script cr c = Ok cs \<and>
    tx_out tx = [TxOut_new v (CompactSizeUint_of_len (length rs)) rs,
                 TxOut_new change (CompactSizeUint_of_len (length cs)) cs] \<and>
    sint change = total (entries us) - (sint v + sint fee)"
proof -
  from assms obtain ins bal needed change rs cs where
    i: "unsigned_inputs us [] 0 = (Ok (ins, bal) :: (TxIn list \<times> i64, string) result)"
    and n: "i64_add v fee = (Ok needed :: (i64, string) result)"
    and c: "i64_sub bal needed = (Ok change :: (i64, string) result)"
    and rs: "generate_pubkey_script cr r = Ok rs" "generate_pubkey_script cr c = Ok cs"
    and tx: "tx_in tx = ins" "tx_out tx = [TxOut_new v (CompactSizeUint_of_len (length rs)) rs,
                 TxOut_new change (CompactSizeUint_of_len (length cs)) cs]"
    by (auto simp: generate_unsigned_transaction_def and_then_eq_Ok Let_def Transaction_new_def)
  with unsigned_inputs_eq [OF i] i64_add_sint [OF n] i64_sub_sint [OF c] show ?thesis
    by auto
qed

lemma TxIn_add_previous_output [simp]: "previous_output (TxIn_add i s) = previous_output i"
  by (simp add: TxIn_add_def)

lemma sign_Ok:
  assumes "sign cr tx a us = Ok tx'"
  shows "map previous_output (tx_in tx') = map previous_output (tx_in tx) \<and> tx_out tx' = tx_out tx"
proof -
  from assms obtain sigs where s: "length sigs = length (tx_in tx)"
      and t: "tx' = tx\<lparr>tx_in := map2 TxIn_add (tx_in tx) sigs\<rparr>"
    by (auto simp: sign_def and_then_eq_Ok dest: traverse_length)
  have "map previous_output (map2 TxIn_add is' sigs) = map previous_output is'"
    if "length sigs = length is'" for is' and sigs :: "SigScript list"
    using that by (induction sigs is' rule: list_induct2) auto
  with s t show ?thesis by simp
qed

lemma make_transaction_Ok:
  assumes "make_transaction cr a r amt fee = Ok (tx, a')"
  shows "\<exists>k change.
    map previous_output (tx_in tx) = map input_of (take k (entries (utxo_set a))) \<and>
    map txout_value (tx_out tx) = [amt, change] \<and> 0 \<le> sint change \<and>
    total (take k (entries (utxo_set a))) = sint amt + sint fee + sint change \<and>
    a' = a\<lparr>pending_transactions := pending_transactions a @ [tx]\<rparr>"
proof -
  from assms obtain needed b us utx where
    n: "i64_add amt fee = (Ok needed :: (i64, string) result)"
    and b: "Account_balance a = (Ok b :: (i64, string) result)" "sint b > sint needed"
    and us: "select_loop needed (utxo_set a) 0 = (Ok us :: (UtxoTuple list, string) result)"
    and u: "generate_unsigned_transaction cr r (address a) amt fee us = Ok utx"
    and s: "sign cr utx a us = Ok tx"
    and a': "a' = a\<lparr>pending_transactions := pending_transactions a @ [tx]\<rparr>"
    by (auto simp: make_transaction_def and_then_eq_Ok has_balance_def get_utxos_for_amount_def
        add_transaction_def split: if_splits)
  from select_loop_prefix [OF us] obtain k where k: "entries us = take k (entries (utxo_set a))"
    by blast
  from generate_unsigned_transaction_Ok [OF u] obtain change where
    i: "map previous_output (tx_in utx) = map input_of (entries us)"
    and o: "map txout_value (tx_out utx) = [amt, change]"
    and c: "sint change = total (entries us) - (sint amt + sint fee)"
    by (auto simp: TxOut_new_def incomplete_txin_def TxIn_new_def)
  have "sint needed \<le> total (entries us)"
    using select_loop_covers [OF us] Account_balance_sint [OF b(1)] b(2) by simp
  with i64_add_sint [OF n] c have "0 \<le> sint change"
    by simp
  with i o c k a' sign_Ok [OF s] show ?thesis
    by (intro exI [of _ k] exI [of _ change]) simp
qed

subsection \<open>Payments that go through\<close>

definition nonneg :: "(hash32 \<times> nat \<times> TxOut) list \<Rightarrow> bool" where
  "nonneg es \<longleftrightarrow> (\<forall>e \<in> set es. 0 \<le> satoshis e)"

lemma nonneg_append [simp]: "nonneg (xs @ ys) \<longleftrightarrow> nonneg xs \<and> nonneg ys"
  by (auto simp: nonneg_def)

lemma nonneg_total: "nonneg es \<Longrightarrow> 0 \<le> total es"
  unfolding nonneg_def by (intro sum_list_nonneg) auto

lemma i64_add_nonneg:
  "0 \<le> sint a \<Longrightarrow> 0 \<le> sint b \<Longrightarrow> sint a + sint b \<le> i64_max \<Longrightarrow> i64_add a b = Ok (a + b)"
  by (simp add: i64_add_def fits_i64_def i64_min_def)

lemma UtxoTuple_balance_Ok:
  assumes "nonneg (entries [u])" and "total (entries [u]) \<le> i64_max"
  shows "\<exists>b. UtxoTuple_balance u = (Ok b :: (i64, 'e) result) \<and> sint b = total (entries [u]) \<and> 0 \<le> sint b"
proof -
  have "\<exists>b. UtxoTuple_balance u = (Ok b :: (i64, 'e) result)"
    unfolding UtxoTuple_balance_def using assms
    by (intro i64_sum_nonneg) (auto simp: nonneg_def satoshis_def TxOut_value_def comp_def case_prod_beta)
  with UtxoTuple_balance_sint nonneg_total [OF assms(1)] show ?thesis
    by metis
qed

text \<open>One turn of any of the loops that add up tuples.\<close>

lemma tuple_step:
  assumes "nonneg (entries (u # us))" and "0 \<le> sint p" and "sint p + total (entries (u # us)) \<le> i64_max"
  shows "\<exists>b. UtxoTuple_balance u = (Ok b :: (i64, 'e) result) \<and>
    i64_add p b = (Ok (p + b) :: (i64, 'e) result) \<and> 0 \<le> sint (p + b) \<and>
    sint (p + b) + total (entries us) \<le> i64_max \<and> nonneg (entries us)"
proof -
  have n: "nonneg (entries [u])" "nonneg (entries us)"
    using assms(1) by simp_all
  have t: "total (entries (u # us)) = total (entries [u]) + total (entries us)"
    by simp
  note pos = nonneg_total [OF n(1)] nonneg_total [OF n(2)]
  obtain b where b: "UtxoTuple_balance u = (Ok b :: (i64, 'e) result)" "sint b = total (entries [u])" "0 \<le> sint b"
    using UtxoTuple_balance_Ok [OF n(1)] assms t pos by force
  then have s: "i64_add p b = (Ok (p + b) :: (i64, 'e) result)"
    using assms t pos by (intro i64_add_nonneg) auto
  from i64_add_sint [OF s] n b assms t s show ?thesis
    by auto
qed

lemma balance_loop_Ok:
  "nonneg (entries us) \<Longrightarrow> 0 \<le> sint acc \<Longrightarrow> sint acc + total (entries us) \<le> i64_max \<Longrightarrow>
     \<exists>b. balance_loop us acc = (Ok b :: (i64, 'e) result)"
proof (induction us arbitrary: acc)
  case (Cons u us)
  from tuple_step [where 'e = 'e, OF Cons.prems] Cons.IH show ?case
    by (auto simp del: entries_simps)
qed simp

lemma utxos_to_spend_loop_Ok:
  "\<forall>u \<in> set us. 0 \<le> sint (txout_value (fst u)) \<Longrightarrow> 0 \<le> sint p \<Longrightarrow>
     sint p + (\<Sum>u \<leftarrow> us. sint (txout_value (fst u))) \<le> i64_max \<Longrightarrow>
     \<exists>r. utxos_to_spend_loop v us p = (Ok r :: ((TxOut \<times> nat) list \<times> i64, 'e) result)"
proof (induction us arbitrary: p)
  case (Cons u us)
  have "0 \<le> (\<Sum>u \<leftarrow> us. sint (txout_value (fst u)))"
    using Cons.prems(1) by (intro sum_list_nonneg) auto
  then have s: "i64_add p (txout_value (fst u)) = (Ok (p + txout_value (fst u)) :: (i64, 'e) result)"
    using Cons.prems by (intro i64_add_nonneg) auto
  from i64_add_sint [OF s] Cons.IH [of "p + txout_value (fst u)"] Cons.prems show ?case
    by (auto simp: s TxOut_value_def)
qed simp

lemma select_loop_Ok:
  "nonneg (entries us) \<Longrightarrow> 0 \<le> sint p \<Longrightarrow> sint p + total (entries us) \<le> i64_max \<Longrightarrow>
     \<exists>sel. select_loop v us p = (Ok sel :: (UtxoTuple list, 'e) result)"
proof (induction us arbitrary: p)
  case (Cons u us)
  have "0 \<le> total (entries us)"
    using Cons.prems(1) by (intro nonneg_total) simp
  then have "\<exists>r. utxos_to_spend_loop v (ut_utxos u) p = (Ok r :: ((TxOut \<times> nat) list \<times> i64, 'e) result)"
    using Cons.prems
    by (intro utxos_to_spend_loop_Ok) (force simp: nonneg_def satoshis_def comp_def case_prod_beta)+
  moreover obtain b where b: "UtxoTuple_balance u = (Ok b :: (i64, 'e) result)"
      "i64_add p b = (Ok (p + b) :: (i64, 'e) result)"
      "\<exists>sel. select_loop v us (p + b) = (Ok sel :: (UtxoTuple list, 'e) result)"
    using tuple_step [where 'e = 'e, OF Cons.prems] Cons.IH by blast
  ultimately show ?case
    by (auto simp: utxos_to_spend_def)
qed simp

lemma unsigned_inputs_Ok:
  "nonneg (entries us) \<Longrightarrow> 0 \<le> sint bal \<Longrightarrow> sint bal + total (entries us) \<le> i64_max \<Longrightarrow>
     \<exists>r. unsigned_inputs us ins bal = (Ok r :: (TxIn list \<times> i64, 'e) result)"
proof (induction us arbitrary: ins bal)
  case (Cons u us)
  obtain b where "UtxoTuple_balance u = (Ok b :: (i64, 'e) result)"
      "i64_add bal b = (Ok (bal + b) :: (i64, 'e) result)"
      "\<exists>r. unsigned_inputs us ins' (bal + b) = (Ok r :: (TxIn list \<times> i64, 'e) result)" for ins'
    using tuple_step [where 'e = 'e, OF Cons.prems] Cons.IH by blast
  then show ?case
    by (simp add: Let_def)
qed simp

text \<open>A signed transaction passes the script check when every output spent is locked to the key.\<close>

lemma generate_sig_script_Ok:
  assumes "decode_wif_private_key cr (private_key a) = Ok sk" and "secp_pubkey cr sk = Inr pk"
    and "ecdsa_sign cr sk z = Inr sig"
  shows "generate_sig_script cr z a = Ok (SigScript_new
    (of_nat (length (sig @ [1])) # (sig @ [1]) @ of_nat (length pk) # pk))"
  using assms
  by (simp add: generate_sig_script_def get_private_key_def generate_sig_def
      Account_get_pubkey_compressed_def get_pubkey_compressed_def)

lemma p2pkh_scripts_entries: "p2pkh_scripts us = map (\<lambda>e. get_pub_key_script (snd (snd e))) (entries us)"
  by (induction us) (auto simp: p2pkh_scripts_def)

lemma validate_loop_Ok:
  "\<forall>j < length ins. index + j < length scripts \<and>
      p2pkh_validate cr (scripts ! (index + j)) (sig_bytes (signature_script (ins ! j))) = Ok True \<Longrightarrow>
     validate_loop cr scripts index ins = Ok ()"
proof (induction ins arbitrary: index)
  case (Cons i ins)
  from Cons.prems have "index < length scripts \<and>
      p2pkh_validate cr (scripts ! index) (sig_bytes (signature_script i)) = Ok True"
    by (metis add_0_right length_greater_0_conv list.distinct(1) nth_Cons_0)
  moreover have "validate_loop cr scripts (index + 1) ins = Ok ()"
    using Cons.prems by (intro Cons.IH) auto
  ultimately show ?case
    by (simp add: index_at_def SigScript_get_bytes_def)
qed simp

lemma nonneg_take:
  assumes "nonneg es"
  shows "nonneg (take k es) \<and> total (take k es) \<le> total es"
proof -
  have n: "nonneg (take k es) \<and> nonneg (drop k es)"
    using assms nonneg_append [of "take k es" "drop k es"] by simp
  have "total es = total (take k es) + total (drop k es)"
    by (metis append_take_drop_id map_append sum_list_append)
  with n show ?thesis
    using nonneg_total [of "drop k es"] by simp
qed

lemma generate_unsigned_transaction_succeeds:
  assumes "nonneg (entries us)" and "total (entries us) \<le> i64_max"
    and "i64_add v fee = (Ok needed :: (i64, string) result)" and "0 \<le> sint needed"
    and "sint needed \<le> total (entries us)"
    and "generate_pubkey_script cr r = Ok rs" and "generate_pubkey_script cr c = Ok cs"
  shows "\<exists>tx. generate_unsigned_transaction cr r c v fee us = Ok tx"
proof -
  obtain ins bal where i: "unsigned_inputs us [] 0 = (Ok (ins, bal) :: (TxIn list \<times> i64, string) result)"
    using unsigned_inputs_Ok [OF assms(1), of 0 "[]"] assms(2) by auto
  have "fits_i64 (sint bal - sint needed)"
    using unsigned_inputs_eq [OF i] assms by (auto simp: fits_i64_def i64_min_def)
  with i assms show ?thesis
    by (simp add: generate_unsigned_transaction_def i64_sub_def Let_def)
qed

lemma sign_succeeds:
  assumes key: "decode_wif_private_key cr (private_key a) = Ok sk" "secp_pubkey cr sk = Inr pk"
    and sig: "\<forall>z. \<exists>sig. ecdsa_sign cr sk z = Inr sig \<and> length sig < 255"
  shows "\<exists>tx'. sign cr tx a us = Ok tx' \<and> length (tx_in tx') = length (tx_in tx) \<and>
    (\<forall>j < length (tx_in tx). \<exists>sig. length sig < 256 \<and>
       sig_bytes (signature_script (tx_in tx' ! j)) = of_nat (length sig) # sig @ of_nat (length pk) # pk)"
proof -
  define f where "f = (\<lambda>index. and_then (generate_message_to_sign cr tx index us)
      (\<lambda>z. generate_sig_script cr z a))"
  have one: "\<exists>ss sig. f j = Ok ss \<and> length sig < 256 \<and>
      sig_bytes ss = of_nat (length sig) # sig @ of_nat (length pk) # pk" if "j < length (tx_in tx)" for j
  proof -
    have "\<exists>z. generate_message_to_sign cr tx j us = (Ok z :: (hash32, string) result)"
      using that by (simp add: generate_message_to_sign_def index_at_def Let_def)
    then obtain z where "generate_message_to_sign cr tx j us = (Ok z :: (hash32, string) result)" ..
    moreover obtain s where "ecdsa_sign cr sk z = Inr s" "length s < 255"
      using sig by blast
    ultimately show ?thesis
      using generate_sig_script_Ok [OF key, of z s]
      by (auto simp: f_def SigScript_new_def intro!: exI [of _ "s @ [1]"])
  qed
  obtain g where g: "\<forall>j < length (tx_in tx). f j = Ok (g j) \<and> (\<exists>sig. length sig < 256 \<and>
      sig_bytes (g j) = of_nat (length sig) # sig @ of_nat (length pk) # pk)"
    using one by metis
  then have "traverse f [0..<length (tx_in tx)] = Ok (map g [0..<length (tx_in tx)])"
    by (intro traverse_all_Ok) auto
  then show ?thesis
    using g unfolding sign_def f_def [symmetric] by (simp add: TxIn_add_def)
qed

lemma make_transaction_succeeds:
  assumes key: "decode_wif_private_key cr (private_key a) = Ok sk" "secp_pubkey cr sk = Inr pk"
    and sig: "\<forall>z. \<exists>sig. ecdsa_sign cr sk z = Inr sig \<and> length sig < 255"
    and len: "digest_lengths cr"
    and scripts: "generate_pubkey_script cr r = Ok rs" "generate_pubkey_script cr (address a) = Ok cs"
    and own: "\<forall>e \<in> set (entries (utxo_set a)). get_pub_key_script (snd (snd e)) = p2pkh_of_hash (hash_160 cr pk)"
    and vals: "nonneg (entries (utxo_set a))" "total (entries (utxo_set a)) \<le> i64_max"
    and amt: "0 \<le> sint amt" "0 \<le> sint fee" "sint amt + sint fee < total (entries (utxo_set a))"
  shows "\<exists>tx a'. make_transaction cr a r amt fee = Ok (tx, a')"
proof -
  let ?n = "amt + fee"
  have n: "i64_add amt fee = (Ok ?n :: (i64, string) result)"
    using amt vals by (intro i64_add_nonneg) auto
  note sn = i64_add_sint [OF n]
  obtain b where b: "balance_loop (utxo_set a) 0 = (Ok b :: (i64, string) result)"
    using balance_loop_Ok [OF vals(1), of 0] vals(2) by auto
  have hb: "has_balance a ?n = (Ok True :: (bool, string) result)"
    using b balance_loop_sint [OF b] sn amt by (simp add: has_balance_def Account_balance_def)
  obtain us where us: "select_loop ?n (utxo_set a) 0 = (Ok us :: (UtxoTuple list, string) result)"
    using select_loop_Ok [OF vals(1), of 0] vals(2) by auto
  from select_loop_prefix [OF us] obtain k where k: "entries us = take k (entries (utxo_set a))"
    by blast
  have ne: "nonneg (entries us)" "total (entries us) \<le> i64_max" "sint ?n \<le> total (entries us)"
    using nonneg_take [OF vals(1), of k] vals(2) k select_loop_covers [OF us] sn amt by auto
  obtain utx where utx: "generate_unsigned_transaction cr r (address a) amt fee us = Ok utx"
    using generate_unsigned_transaction_succeeds [OF ne(1,2) n _ ne(3) scripts] sn amt by auto
  obtain tx where tx: "sign cr utx a us = Ok tx" "length (tx_in tx) = length (tx_in utx)"
      "\<forall>j < length (tx_in utx). \<exists>sig. length sig < 256 \<and>
         sig_bytes (signature_script (tx_in tx ! j)) = of_nat (length sig) # sig @ of_nat (length pk) # pk"
    using sign_succeeds [OF key sig] by blast
  have lens: "length pk = 33" "length (hash_160 cr pk) = 20"
    using len key(2) by (auto simp: digest_lengths_def hash_160_def)
  have "length (tx_in utx) = length (entries us)"
    using generate_unsigned_transaction_Ok [OF utx] by auto
  moreover have "get_pub_key_script (snd (snd e)) = p2pkh_of_hash (hash_160 cr pk)" if "e \<in> set (entries us)" for e
    using that own k by (metis in_set_takeD)
  ultimately have "j < length (p2pkh_scripts us) \<and>
      p2pkh_validate cr (p2pkh_scripts us ! j) (sig_bytes (signature_script (tx_in tx ! j))) = Ok True"
    if "j < length (tx_in tx)" for j
    using that tx(2,3) p2pkh_validate_own [OF lens(2) _ lens(1)] lens(1)
    by (auto simp: p2pkh_scripts_entries)
  then have "Transaction_validate cr tx us = Ok ()"
    unfolding Transaction_validate_def by (intro validate_loop_Ok) simp
  moreover have "validate_address cr r = Ok ()"
    using scripts(1) by (auto simp: generate_pubkey_script_def get_pubkey_hash_from_address_def and_then_eq_Ok)
  ultimately show ?thesis
    using n hb us utx tx(1) by (simp add: make_transaction_def get_utxos_for_amount_def)
qed

subsection \<open>The account's share of the UTXO set\<close>

definition pays :: "crypto \<Rightarrow> string \<Rightarrow> TxOut \<Rightarrow> bool" where
  "pays cr addr o' \<longleftrightarrow> TxOut_get_address cr o' = Ok addr"

lemma referenced_loop_Ok:
  "referenced_loop cr addr us acc = Ok r \<Longrightarrow> r = acc @ filter (pays cr addr \<circ> fst) us"
  by (induction us arbitrary: acc) (fastforce simp: pays_def split: result.splits if_splits)+

lemma referenced_utxos_entries:
  assumes "referenced_utxos cr t addr = Ok r"
  shows "entries (somes [r]) = filter (\<lambda>e. pays cr addr (snd (snd e))) (entries [t])"
proof -
  define us where us: "us = filter (pays cr addr \<circ> fst) (ut_utxos t)"
  have r: "r = (if us = [] then None else Some \<lparr>ut_hash = ut_hash t, ut_utxos = us\<rparr>)"
    using assms by (auto simp: us referenced_utxos_def and_then_eq_Ok dest!: referenced_loop_Ok split: if_splits)
  have "map (\<lambda>(o', i). (ut_hash t, i, o')) us =
      filter (\<lambda>e. pays cr addr (snd (snd e))) (map (\<lambda>(o', i). (ut_hash t, i, o')) (ut_utxos t))"
    unfolding us filter_map by (rule arg_cong [of _ _ "map _"], rule filter_cong) auto
  then show ?thesis
    using r by (cases "us = []") simp_all
qed

lemma entries_append: "entries (xs @ ys) = entries xs @ entries ys"
  by (simp add: entries_def)

lemma set_utxos_entries:
  assumes "set_utxos cr ks m a = (Ok a' :: (Account, 'e) result)" and "set ks \<subseteq> dom m"
  shows "entries (utxo_set a') = filter (\<lambda>e. pays cr (address a) (snd (snd e))) (entries (map (the \<circ> m) ks))"
proof -
  let ?f = "\<lambda>h. case m h of None \<Rightarrow> Ok None
      | Some utxo \<Rightarrow> (referenced_utxos cr utxo (address a) :: (UtxoTuple option, 'e) result)"
  from assms(1) obtain rs where rs: "list_all2 (\<lambda>h r. ?f h = Ok r) ks rs" and
      a': "utxo_set a' = somes rs"
    by (auto simp: set_utxos_def and_then_eq_Ok traverse_Ok_iff)
  from rs assms(2) have "entries (somes rs) =
      filter (\<lambda>e. pays cr (address a) (snd (snd e))) (entries (map (the \<circ> m) ks))"
  proof (induction ks rs rule: list_all2_induct)
    case (Cons h hs r rs)
    then obtain t where "m h = Some t" and "referenced_utxos cr t (address a) = (Ok r :: (UtxoTuple option, 'e) result)"
      by auto
    from this(1) referenced_utxos_entries [OF this(2)] Cons show ?case
      by (cases r) simp_all
  qed simp
  with a' show ?thesis by simp
qed

lemma mem_entries: "e \<in> set (entries us) \<longleftrightarrow> (\<exists>u \<in> set us. e \<in> set (entries [u]))"
  by (simp add: entries_def)

lemma mem_entries_single:
  "(h, i, o') \<in> set (entries [t]) \<longleftrightarrow> h = ut_hash t \<and> (o', i) \<in> set (ut_utxos t)"
  by force

lemma tuple_view:
  assumes "wf_utxos m" and "m h = Some t"
  shows "(h', i, o') \<in> set (entries [t]) \<longleftrightarrow> h' = h \<and> utxo_view m (h, i) = Some o'"
proof -
  have "map fst (map prod.swap (ut_utxos t)) = map snd (ut_utxos t)"
    by simp
  then have t: "ut_hash t = h" "distinct (map fst (map prod.swap (ut_utxos t)))"
    using assms by (auto simp: wf_utxos_def simp del: map_map)
  have "(i, o') \<in> set (map prod.swap (ut_utxos t)) \<longleftrightarrow> map_of (map prod.swap (ut_utxos t)) i = Some o'"
    using t(2) by (rule map_of_eq_Some_iff [symmetric])
  moreover have "(i, o') \<in> set (map prod.swap (ut_utxos t)) \<longleftrightarrow> (o', i) \<in> set (ut_utxos t)"
    by force
  ultimately show ?thesis
    using t(1) assms(2) by (auto simp: utxo_view_def mem_entries_single simp del: entries_simps)
qed

lemma entries_distinct:
  assumes "wf_utxos m" and "distinct ks" and "set ks \<subseteq> dom m"
  shows "distinct (map (\<lambda>(h, i, o'). (h, i)) (entries (map (the \<circ> m) ks)))"
  using assms(2,3)
proof (induction ks)
  case (Cons h ks)
  then obtain t where t: "m h = Some t" by auto
  then have wt: "ut_hash t = h" "distinct (map snd (ut_utxos t))"
    using assms(1) by (auto simp: wf_utxos_def)
  let ?k = "\<lambda>(h, i, o'). (h, i)" and ?es = "entries (map (the \<circ> m) ks)"
  have "fst e \<in> set ks" if "e \<in> set ?es" for e
  proof -
    from iffD1 [OF mem_entries that] obtain h' where "h' \<in> set ks" "e \<in> set (entries [the (m h')])"
      by (auto simp del: entries_simps)
    with Cons.prems obtain t' where "m h' = Some t'" "h' \<in> set ks" "e \<in> set (entries [t'])"
      by fastforce
    with tuple_view [OF assms(1), of h' t' "fst e" "fst (snd e)" "snd (snd e)"] show ?thesis
      by simp
  qed
  then have "set (map ?k ?es) \<subseteq> set ks \<times> UNIV"
    by fastforce
  moreover have one: "map ?k (entries [t]) = map (Pair h) (map snd (ut_utxos t))"
    using wt(1) by auto
  ultimately have "set (map ?k (entries [t])) \<inter> set (map ?k ?es) = {}"
    using Cons.prems(1) by auto
  moreover have "distinct (map ?k (entries [t]))"
    unfolding one using wt(2) by (simp add: distinct_map inj_on_def)
  moreover have "entries (map (the \<circ> m) (h # ks)) = entries [t] @ ?es"
    using t by simp
  moreover have "distinct (map ?k ?es)"
    using Cons.prems by (intro Cons.IH) auto
  ultimately show ?case
    by (simp only: map_append distinct_append)
qed simp

lemma set_entries:
  assumes "wf_utxos m" and "set ks = dom m"
  shows "(h, i, o') \<in> set (entries (map (the \<circ> m) ks)) \<longleftrightarrow> utxo_view m (h, i) = Some o'"
proof -
  have "(h, i, o') \<in> set (entries (map (the \<circ> m) ks)) \<longleftrightarrow>
      (\<exists>k t. m k = Some t \<and> (h, i, o') \<in> set (entries [t]))"
    using assms(2) by (force simp: entries_def dom_def)
  also have "\<dots> \<longleftrightarrow> (\<exists>k t. m k = Some t \<and> h = k \<and> utxo_view m (k, i) = Some o')"
    by (intro iff_exI conj_cong refl) (rule tuple_view [OF assms(1)])
  also have "\<dots> \<longleftrightarrow> utxo_view m (h, i) = Some o'"
    by (auto simp: utxo_view_def split: option.splits)
  finally show ?thesis .
qed

text \<open>The account holds exactly the outputs of the set that pay its address, each once.\<close>

definition in_sync :: "crypto \<Rightarrow> utxo_map \<Rightarrow> Account \<Rightarrow> bool" where
  "in_sync cr m a \<longleftrightarrow>
     distinct (map (\<lambda>(h, i, o'). (h, i)) (entries (utxo_set a))) \<and>
     (\<forall>h i o'. (h, i, o') \<in> set (entries (utxo_set a)) \<longleftrightarrow>
        utxo_view m (h, i) = Some o' \<and> pays cr (address a) o')"

lemma set_utxos_same:
  "set_utxos cr ks m a = Ok a' \<Longrightarrow>
     address a' = address a \<and> private_key a' = private_key a \<and>
     pending_transactions a' = pending_transactions a \<and>
     confirmed_transactions a' = confirmed_transactions a"
  by (auto simp: set_utxos_def and_then_eq_Ok)

lemma set_utxos_in_sync:
  assumes "wf_utxos m" and "distinct ks" and "set ks = dom m"
    and "set_utxos cr ks m a = (Ok a' :: (Account, 'e) result)"
  shows "in_sync cr m a'"
proof -
  let ?es = "entries (map (the \<circ> m) ks)"
  have e: "entries (utxo_set a') = filter (\<lambda>e. pays cr (address a) (snd (snd e))) ?es"
    using set_utxos_entries [OF assms(4)] assms(3) by simp
  have "distinct (map (\<lambda>(h, i, o'). (h, i)) ?es)"
    using entries_distinct [OF assms(1,2)] assms(3) by simp
  with e set_entries [OF assms(1,3)] set_utxos_same [OF assms(4)] show ?thesis
    by (auto simp: in_sync_def distinct_map_filter)
qed

subsection \<open>A sample account\<close>

definition sample_account :: Account where
  "sample_account =
     \<lparr>private_key = bs58_encode sample_crypto (0xef # sample_key @ replicate 5 0),
      address = sample_address,
      utxo_set = [UtxoTuple_new (replicate 32 3)
        [(TxOut_new 10 (CompactSizeUint_new 25) (p2pkh_of_hash (hash_160 sample_crypto (2 # sample_key))), 0)]],
      pending_transactions = [], confirmed_transactions = []\<rparr>"

lemma sample_wif: "decode_wif_private_key sample_crypto (private_key sample_account) = Ok sample_key"
proof -
  have "bs58_decode sample_crypto (private_key sample_account) = Inr (0xef # sample_key @ replicate 5 0)"
    using sample_bs58_inverse by (simp add: sample_account_def bs58_inverse_def)
  moreover have "length (private_key sample_account) = 52"
    by (simp add: sample_account_def sample_crypto_def)
  ultimately show ?thesis
    by (simp add: decode_wif_private_key_def UNCOMPRESSED_WIF_LEN_def COMPRESSED_WIF_LEN_def usize_sub_def
        slice_def copy_exact_def)
qed

lemma sample_signs: "\<forall>z. \<exists>sig. ecdsa_sign sample_crypto sample_key z = Inr sig \<and> length sig < 255"
  by (simp add: sample_crypto_def min_less_iff_disj)

lemma sample_script:
  "generate_pubkey_script sample_crypto sample_address =
     Ok (p2pkh_of_hash (hash_160 sample_crypto (2 # sample_key)))"
  using sample_address_length unfolding sample_address_def
  by (intro generate_pubkey_script_address_of_hash sample_digest_lengths sample_bs58_inverse)
    (simp_all add: hash_160_def sample_crypto_def)

lemma sample_entries:
  "entries (utxo_set sample_account) = [(replicate 32 3, 0,
     TxOut_new 10 (CompactSizeUint_new 25) (p2pkh_of_hash (hash_160 sample_crypto (2 # sample_key))))]"
  by (simp add: sample_account_def UtxoTuple_new_def)

lemma sample_total: "total (entries (utxo_set sample_account)) = 10"
  by (simp add: sample_entries satoshis_def TxOut_new_def)

lemma sample_own:
  "\<forall>e \<in> set (entries (utxo_set sample_account)).
     get_pub_key_script (snd (snd e)) = p2pkh_of_hash (hash_160 sample_crypto (2 # sample_key))"
  by (simp add: sample_entries get_pub_key_script_def TxOut_new_def Pubkey_new_def Pubkey_bytes_def)

lemma sample_nonneg: "nonneg (entries (utxo_set sample_account))"
  by (simp add: sample_entries nonneg_def satoshis_def TxOut_new_def)

subsection \<open>Properties\<close>

text \<open>
  C9. A payment conserves value: when \<open>make_transaction\<close> succeeds, the inputs of the transaction are
  the first outputs of the account, in order; it has two outputs, the amount and the change; the
  change is not negative, and the value of the inputs is amount plus fee plus change. The account
  changes only by the new pending transaction.
\<close>

theorem make_transaction_conserves:
  assumes "make_transaction cr a r amt fee = Ok (tx, a')"
  shows "\<exists>k change.
    map previous_output (tx_in tx) = map input_of (take k (entries (utxo_set a))) \<and>
    map txout_value (tx_out tx) = [amt, change] \<and> 0 \<le> sint change \<and>
    total (take k (entries (utxo_set a))) = sint amt + sint fee + sint change \<and>
    a' = a\<lparr>pending_transactions := pending_transactions a @ [tx]\<rparr>"
  using assms by (rule make_transaction_Ok)

theorem make_transaction_conserves_witness:
  "\<exists>tx a' k change. make_transaction sample_crypto sample_account sample_address 3 2 = Ok (tx, a') \<and>
    map txout_value (tx_out tx) = [3, change] \<and>
    total (take k (entries (utxo_set sample_account))) = 3 + 2 + sint change"
proof -
  have "address sample_account = sample_address"
    by (simp add: sample_account_def)
  then obtain tx a' where ok: "make_transaction sample_crypto sample_account sample_address 3 2 = Ok (tx, a')"
    using make_transaction_succeeds [OF sample_wif sample_pubkey sample_signs sample_digest_lengths
        sample_script _ sample_own sample_nonneg, of _ 3 2]
    by (auto simp: sample_total i64_max_def sample_script)
  from make_transaction_conserves [OF ok] ok show ?thesis
    by auto
qed

text \<open>
  C23. A payment that can be made is made: with a key that decodes and signs, a receiver address
  and an own address that give scripts, outputs that are all P2PKH outputs of the key with
  non-negative values whose sum fits in an \<open>i64\<close>, and amount plus fee strictly below the balance,
  \<open>make_transaction\<close> returns a transaction: no step fails or panics.
\<close>

theorem make_transaction_goes_through:
  assumes "decode_wif_private_key cr (private_key a) = Ok sk" and "secp_pubkey cr sk = Inr pk"
    and "\<forall>z. \<exists>sig. ecdsa_sign cr sk z = Inr sig \<and> length sig < 255"
    and "digest_lengths cr"
    and "generate_pubkey_script cr r = Ok rs" and "generate_pubkey_script cr (address a) = Ok cs"
    and "\<forall>e \<in> set (entries (utxo_set a)). get_pub_key_script (snd (snd e)) = p2pkh_of_hash (hash_160 cr pk)"
    and "nonneg (entries (utxo_set a))" and "total (entries (utxo_set a)) \<le> i64_max"
    and "0 \<le> sint amt" and "0 \<le> sint fee" and "sint amt + sint fee < total (entries (utxo_set a))"
  shows "\<exists>tx a'. make_transaction cr a r amt fee = Ok (tx, a')"
  using assms by (rule make_transaction_succeeds)

theorem make_transaction_goes_through_witness:
  "\<exists>tx a'. make_transaction sample_crypto sample_account sample_address 3 2 = Ok (tx, a')"
proof -
  have "address sample_account = sample_address"
    by (simp add: sample_account_def)
  then show ?thesis
    using make_transaction_goes_through [OF sample_wif sample_pubkey sample_signs sample_digest_lengths
        sample_script _ sample_own sample_nonneg, of _ 3 2]
    by (auto simp: sample_total i64_max_def sample_script)
qed

text \<open>
  \<open>Account::set_utxos\<close> gives the account exactly the outputs of the UTXO set that pay its
  address, each outpoint once, whatever the iteration order of the hash map.
\<close>

theorem set_utxos_exact:
  assumes "wf_utxos m" and "distinct ks" and "set ks = dom m"
    and "set_utxos cr ks m a = (Ok a' :: (Account, 'e) result)"
  shows "distinct (map (\<lambda>(h, i, o'). (h, i)) (entries (utxo_set a'))) \<and>
    ((h, i, o') \<in> set (entries (utxo_set a')) \<longleftrightarrow>
       utxo_view m (h, i) = Some o' \<and> pays cr (address a) o')"
  using set_utxos_in_sync [OF assms] set_utxos_same [OF assms(4)] by (simp add: in_sync_def)

lemma sample_set_utxos:
  "set_utxos sample_crypto [replicate 32 3] [replicate 32 3 \<mapsto> hd (utxo_set sample_account)] sample_account =
     Ok sample_account"
proof -
  have "length (hash_160 sample_crypto (2 # sample_key)) = 20"
    using sample_digest_lengths by (simp add: digest_lengths_def hash_160_def)
  from Pubkey_generate_address_p2pkh [OF this, of sample_crypto] show ?thesis
    by (simp add: set_utxos_def sample_account_def referenced_utxos_def TxOut_get_address_def
        UtxoTuple_new_def TxOut_new_def sample_address_def)
qed

theorem set_utxos_exact_witness:
  "utxo_view [replicate 32 3 \<mapsto> hd (utxo_set sample_account)] (replicate 32 3, 0) =
     Some (snd (snd (hd (entries (utxo_set sample_account)))))"
proof -
  have m: "wf_utxos [replicate 32 3 \<mapsto> hd (utxo_set sample_account)]"
    by (simp add: wf_utxos_def sample_account_def UtxoTuple_new_def)
  have k: "distinct [replicate 32 3 :: hash32]"
    "set [replicate 32 3] = dom [replicate 32 3 \<mapsto> hd (utxo_set sample_account)]"
    by simp_all
  from set_utxos_exact [OF m k sample_set_utxos [where 'a = unit], of "replicate 32 3" 0
      "snd (snd (hd (entries (utxo_set sample_account))))"] show ?thesis
    by (simp add: sample_entries)
qed

lemma make_transaction_first:
  assumes "make_transaction cr a r amt fee = Ok (t, a')" and "0 < sint amt + sint fee"
  shows "input_of (hd (entries (utxo_set a))) \<in> previous_output ` set (tx_in t)" "utxo_set a' = utxo_set a"
proof -
  from make_transaction_Ok [OF assms(1)] obtain k and c :: i64 where
      i: "map previous_output (tx_in t) = map input_of (take k (entries (utxo_set a)))" and c: "0 \<le> sint c"
      and s: "total (take k (entries (utxo_set a))) = sint amt + sint fee + sint c"
      and a': "a' = a\<lparr>pending_transactions := pending_transactions a @ [t]\<rparr>"
    by blast
  have "take k (entries (utxo_set a)) \<noteq> []"
  proof
    assume "take k (entries (utxo_set a)) = []"
    with s have "sint amt + sint fee + sint c = 0" by simp
    with c assms(2) show False by simp
  qed
  then have "hd (entries (utxo_set a)) \<in> set (take k (entries (utxo_set a)))"
    by (metis hd_in_set hd_take take_eq_Nil gr0I)
  then have "input_of (hd (entries (utxo_set a))) \<in> set (map previous_output (tx_in t))"
    unfolding i by simp
  then show "input_of (hd (entries (utxo_set a))) \<in> previous_output ` set (tx_in t)" by simp
  show "utxo_set a' = utxo_set a" using a' by simp
qed

text \<open>
  Two payments in a row conflict: making a payment does not take the spent outputs out of the
  account, so the next payment (before a block confirms the first) spends the same first output
  again, and at most one of the two can ever be confirmed.
\<close>

theorem second_payment_conflicts:
  assumes "make_transaction cr a r amt fee = Ok (t1, a1)" and "make_transaction cr a1 r2 amt2 fee2 = Ok (t2, a2)"
    and "0 < sint amt + sint fee" and "0 < sint amt2 + sint fee2"
  shows "\<exists>o'. o' \<in> previous_output ` set (tx_in t1) \<and> o' \<in> previous_output ` set (tx_in t2)"
  using make_transaction_first [OF assms(1,3)] make_transaction_first [OF assms(2,4)] by metis

theorem second_payment_conflicts_witness:
  "\<exists>t1 a1 t2 a2. make_transaction sample_crypto sample_account sample_address 3 2 = Ok (t1, a1) \<and>
     make_transaction sample_crypto a1 sample_address 3 2 = Ok (t2, a2) \<and>
     (\<exists>o'. o' \<in> previous_output ` set (tx_in t1) \<and> o' \<in> previous_output ` set (tx_in t2))"
proof -
  have ad: "address sample_account = sample_address"
    by (simp add: sample_account_def)
  have pay: "\<exists>t a'. make_transaction sample_crypto a sample_address 3 2 = Ok (t, a')"
    if "private_key a = private_key sample_account" "utxo_set a = utxo_set sample_account"
      "address a = sample_address" for a
    using make_transaction_succeeds [OF sample_wif [folded that(1)] sample_pubkey sample_signs sample_digest_lengths
        sample_script _ sample_own [folded that(2)] sample_nonneg [folded that(2)], of _ 3 2] that
    by (auto simp: sample_total i64_max_def sample_script)
  obtain t1 a1 where 1: "make_transaction sample_crypto sample_account sample_address 3 2 = Ok (t1, a1)"
    using pay [of sample_account] ad by auto
  then obtain t2 a2 where 2: "make_transaction sample_crypto a1 sample_address 3 2 = Ok (t2, a2)"
    using pay [of a1] make_transaction_Ok [OF 1] ad by auto
  from second_payment_conflicts [OF 1 2] 1 2 show ?thesis
    by auto
qed

end
