(* ===== verification/Messages.thy ===== *)
theory Messages
  imports Message_Header
begin

section \<open>Protocol messages (src/messages/)\<close>

text \<open>
  Inventories and the messages \<open>inv\<close>, \<open>getdata\<close>, \<open>notfound\<close>, \<open>getheaders\<close>, \<open>headers\<close> and
  \<open>block\<close>: how each is built and how its payload is read. Every builder yields a frame with the
  right length and checksum, and the readers give back what the builders were given; the messages
  for which this fails are shown too.
\<close>

subsection \<open>Inventories\<close>

record Inventory =
  type_identifier :: u32
  inv_hash :: hash32

definition Inventory_new_block :: "hash32 \<Rightarrow> Inventory" where
  "Inventory_new_block h = \<lparr>type_identifier = 2, inv_hash = h\<rparr>"

definition Inventory_new_tx :: "hash32 \<Rightarrow> Inventory" where
  "Inventory_new_tx h = \<lparr>type_identifier = 1, inv_hash = h\<rparr>"

definition Inventory_to_le_bytes :: "Inventory \<Rightarrow> bytes" where
  "Inventory_to_le_bytes self = u32_to_le_bytes (type_identifier self) @ inv_hash self"

definition Inventory_from_le_bytes :: "bytes \<Rightarrow> (Inventory, 'e) result" where
  "Inventory_from_le_bytes inventory_bytes =
     and_then (slice inventory_bytes 0 4) (\<lambda>type_identifier_bytes.
     and_then (slice inventory_bytes 4 36) (\<lambda>hash_bytes.
     Ok \<lparr>type_identifier = u32_from_le_bytes type_identifier_bytes, inv_hash = hash_bytes\<rparr>))"

definition Inventory_hash :: "Inventory \<Rightarrow> hash32" where
  "Inventory_hash self = inv_hash self"

definition inv_mershalling :: "crypto \<Rightarrow> Inventory list \<Rightarrow> (bytes, 'e) result" where
  "inv_mershalling cr inventories =
     (let count = CompactSizeUint_of_len (length inventories);
          inv_payload = CompactSizeUint_marshalling count @ concat (map Inventory_to_le_bytes inventories);
          header = HeaderMessage_new cr ''inv'' (Some inv_payload) in
      and_then (HeaderMessage_to_le_bytes header) (\<lambda>header_bytes.
      Ok (header_bytes @ inv_payload)))"

subsection \<open>getdata\<close>

definition INV_SIZE :: nat where "INV_SIZE = 36"

record GetDataPayload =
  gd_count :: CompactSizeUint
  gd_inventories :: "Inventory list"
  gd_bytes :: bytes

definition get_data_payload_bytes :: "CompactSizeUint \<Rightarrow> Inventory list \<Rightarrow> bytes" where
  "get_data_payload_bytes count inventories =
     CompactSizeUint_marshalling count @ concat (map Inventory_to_le_bytes inventories)"

definition get_payload :: "Inventory list \<Rightarrow> GetDataPayload" where
  "get_payload inventories =
     (let count = CompactSizeUint_of_len (length inventories)
      in \<lparr>gd_count = count, gd_inventories = inventories,
          gd_bytes = get_data_payload_bytes count inventories\<rparr>)"

definition GetDataPayload_to_le_bytes :: "GetDataPayload \<Rightarrow> bytes" where
  "GetDataPayload_to_le_bytes self = gd_bytes self"

definition GetDataPayload_size :: "GetDataPayload \<Rightarrow> nat" where
  "GetDataPayload_size self = length (GetDataPayload_to_le_bytes self)"

definition read_inventory :: "bytes \<Rightarrow> nat \<Rightarrow> (Inventory \<times> nat, 'e) result" where
  "read_inventory payload offset =
     and_then (slice payload offset (offset + INV_SIZE)) (\<lambda>inventory_bytes.
     and_then (Inventory_from_le_bytes inventory_bytes) (\<lambda>inv.
     Ok (inv, offset + INV_SIZE)))"

definition get_data_unmarshalling :: "bytes \<Rightarrow> (Inventory list, string) result" where
  "get_data_unmarshalling payload =
     and_then (CompactSizeUint_unmarshalling payload 0) (\<lambda>(count, offset).
     and_then (decoded_value count) (\<lambda>n.
     and_then (decode_n read_inventory (unat n) payload offset) (\<lambda>(inventories, _).
     Ok inventories)))"

record GetDataMessage =
  gdm_header :: HeaderMessage
  gdm_payload :: GetDataPayload

definition get_data_header_message :: "crypto \<Rightarrow> GetDataPayload \<Rightarrow> HeaderMessage" where
  "get_data_header_message cr payload =
     (let payload_bytes = GetDataPayload_to_le_bytes payload;
          ck = sha256d cr payload_bytes
      in \<lparr>start_string = START_STRING_TESTNET, command_name = ''getdata'',
          payload_size = of_nat (length payload_bytes), checksum = take 4 ck\<rparr>)"

definition GetDataMessage_new :: "crypto \<Rightarrow> Inventory list \<Rightarrow> GetDataMessage" where
  "GetDataMessage_new cr inventories =
     (let payload = get_payload inventories
      in \<lparr>gdm_header = get_data_header_message cr payload, gdm_payload = payload\<rparr>)"

definition GetDataMessage_marshalling :: "GetDataMessage \<Rightarrow> (bytes, 'e) result" where
  "GetDataMessage_marshalling self =
     and_then (HeaderMessage_to_le_bytes (gdm_header self)) (\<lambda>header.
     Ok (header @ GetDataPayload_to_le_bytes (gdm_payload self)))"

definition GetDataMessage_write_to :: "GetDataMessage \<Rightarrow> tcp \<Rightarrow> (tcp, 'e) result" where
  "GetDataMessage_write_to self stream =
     and_then (GetDataMessage_marshalling self) (\<lambda>message. Ok (write_all message stream))"

subsection \<open>notfound\<close>

definition get_notfound_message :: "crypto \<Rightarrow> Inventory list \<Rightarrow> (bytes, 'e) result" where
  "get_notfound_message cr inventories =
     and_then (inv_mershalling cr inventories) (\<lambda>payload.
     and_then (HeaderMessage_to_le_bytes (HeaderMessage_new cr ''notfound'' (Some payload))) (\<lambda>header.
     Ok (header @ payload)))"

subsection \<open>getheaders\<close>

record GetHeadersPayload =
  gh_version :: u32
  hash_count :: CompactSizeUint
  locator_hashes :: "hash32 list"
  stop_hash :: hash32

definition GetHeadersPayload_to_le_bytes :: "GetHeadersPayload \<Rightarrow> bytes" where
  "GetHeadersPayload_to_le_bytes self =
     u32_to_le_bytes (gh_version self) @ CompactSizeUint_marshalling (hash_count self) @
     concat (locator_hashes self) @ stop_hash self"

definition GetHeadersPayload_read_from :: "bytes \<Rightarrow> (GetHeadersPayload, string) result" where
  "GetHeadersPayload_read_from payload =
     and_then (read_u32_le payload 0) (\<lambda>(v, offset).
     and_then (CompactSizeUint_unmarshalling payload offset) (\<lambda>(count, offset).
     and_then (decoded_value count) (\<lambda>n.
     and_then (decode_n (read_array 32) (unat n) payload offset) (\<lambda>(hs, offset).
     and_then (read_array 32 payload offset) (\<lambda>(stop, _).
     Ok \<lparr>gh_version = v, hash_count = count, locator_hashes = hs, stop_hash = stop\<rparr>)))))"

record GetHeadersMessage =
  ghm_header :: HeaderMessage
  ghm_payload :: GetHeadersPayload

definition GetHeadersMessage_write_to :: "GetHeadersMessage \<Rightarrow> tcp \<Rightarrow> (tcp, 'e) result" where
  "GetHeadersMessage_write_to self stream =
     and_then (HeaderMessage_to_le_bytes (ghm_header self)) (\<lambda>header.
     Ok (write_all (header @ GetHeadersPayload_to_le_bytes (ghm_payload self)) stream))"

definition GetHeadersMessage_read_from :: "crypto \<Rightarrow> bytes \<Rightarrow> (GetHeadersMessage, string) result" where
  "GetHeadersMessage_read_from cr payload_bytes =
     and_then (GetHeadersPayload_read_from payload_bytes) (\<lambda>payload.
     Ok \<lparr>ghm_header = HeaderMessage_new cr ''getheaders'' (Some payload_bytes), ghm_payload = payload\<rparr>)"

definition build_getheaders_message :: "crypto \<Rightarrow> Config \<Rightarrow> hash32 list \<Rightarrow> GetHeadersMessage" where
  "build_getheaders_message cr config hs =
     (let payload = \<lparr>gh_version = protocol_version config, hash_count = CompactSizeUint_new 1,
                     locator_hashes = hs, stop_hash = replicate 32 0\<rparr>
      in \<lparr>ghm_header = HeaderMessage_new cr ''getheaders'' (Some (GetHeadersPayload_to_le_bytes payload)),
          ghm_payload = payload\<rparr>)"

subsection \<open>headers\<close>

definition BLOCK_HEADER_SIZE :: nat where "BLOCK_HEADER_SIZE = 80"

text \<open>One turn of the reading loop: an 80-byte header and one byte that is skipped unread.\<close>

definition read_header_item :: "bytes \<Rightarrow> nat \<Rightarrow> (BlockHeader \<times> nat, string) result" where
  "read_header_item headers_message_bytes offset =
     (if offset + BLOCK_HEADER_SIZE > length headers_message_bytes then Err ''Out of bounds''
      else
        and_then (BlockHeader_unmarshalling headers_message_bytes offset) (\<lambda>(h, offset).
        Ok (h, offset + 1)))"

definition HeadersMessage_unmarshalling :: "bytes \<Rightarrow> (BlockHeader list, string) result" where
  "HeadersMessage_unmarshalling headers_message_bytes =
     and_then (CompactSizeUint_unmarshalling headers_message_bytes 0) (\<lambda>(count, offset).
     and_then (decoded_value count) (\<lambda>n.
     and_then (decode_n read_header_item (unat n) headers_message_bytes offset) (\<lambda>(hs, _).
     Ok hs)))"

text \<open>The read of the flag after the loop is the one numbered \<open>k\<close>, a parameter.\<close>

definition HeadersMessage_read_from ::
  "crypto \<Rightarrow> tcp \<Rightarrow> nat option \<Rightarrow> nat \<Rightarrow> (BlockHeader list \<times> tcp, string) result" where
  "HeadersMessage_read_from cr stream finish k =
     and_then (HeaderMessage_read_from cr stream ''headers'' finish) (\<lambda>(header, stream).
     if is_terminated finish k then Ok ([], stream)
     else
       and_then (read_exact (unat (payload_size header)) stream) (\<lambda>(buffer_num, stream).
       and_then (HeadersMessage_unmarshalling buffer_num) (\<lambda>headers.
       Ok (headers, stream))))"

text \<open>The file is the list of bytes written to it so far; a failing write is only logged.\<close>

definition read_from_node_and_write_to_file ::
  "crypto \<Rightarrow> tcp \<Rightarrow> nat option \<Rightarrow> nat \<Rightarrow> bytes \<Rightarrow> (BlockHeader list \<times> tcp \<times> bytes, string) result"
where
  "read_from_node_and_write_to_file cr stream finish k file =
     and_then (HeaderMessage_read_from cr stream ''headers'' finish) (\<lambda>(header, stream).
     if is_terminated finish k then Ok ([], stream, file)
     else
       and_then (read_exact (unat (payload_size header)) stream) (\<lambda>(buffer_num, stream).
       and_then (HeadersMessage_unmarshalling buffer_num) (\<lambda>headers.
       Ok (headers, stream, file @ buffer_num))))"

definition headers_payload :: "BlockHeader list \<Rightarrow> bytes" where
  "headers_payload headers =
     CompactSizeUint_value (CompactSizeUint_of_len (length headers)) @
     concat (map (\<lambda>h. BlockHeader_marshalling h @ [0x00]) headers)"

definition HeadersMessage_marshalling :: "crypto \<Rightarrow> BlockHeader list \<Rightarrow> (bytes, 'e) result" where
  "HeadersMessage_marshalling cr headers =
     (let headers_message_payload = headers_payload headers;
          header = HeaderMessage_new cr ''headers'' (Some headers_message_payload) in
      and_then (HeaderMessage_to_le_bytes header) (\<lambda>header_bytes.
      Ok (header_bytes @ headers_message_payload)))"

subsection \<open>block\<close>

definition BlockMessage_unmarshalling :: "bytes \<Rightarrow> (Block, string) result" where
  "BlockMessage_unmarshalling block_message_payload_bytes =
     and_then (Block_unmarshalling block_message_payload_bytes 0) (\<lambda>(block, _). Ok block)"

definition BlockMessage_read_from :: "crypto \<Rightarrow> tcp \<Rightarrow> (Block \<times> tcp, string) result" where
  "BlockMessage_read_from cr stream =
     and_then (HeaderMessage_read_from cr stream ''block'' None) (\<lambda>(header, stream).
     and_then (read_exact (unat (payload_size header)) stream) (\<lambda>(buffer_num, stream).
     and_then (BlockMessage_unmarshalling buffer_num) (\<lambda>block.
     Ok (block, stream))))"

definition get_block_message :: "crypto \<Rightarrow> Block \<Rightarrow> (bytes, 'e) result" where
  "get_block_message cr block =
     (let block_payload = Block_marshalling block;
          header = HeaderMessage_new cr ''block'' (Some block_payload) in
      and_then (HeaderMessage_to_le_bytes header) (\<lambda>header_bytes.
      Ok (header_bytes @ block_payload)))"

subsection \<open>Every builder frames its payload\<close>

definition inventory_payload :: "Inventory list \<Rightarrow> bytes" where
  "inventory_payload invs =
     CompactSizeUint_marshalling (CompactSizeUint_of_len (length invs)) @ concat (map Inventory_to_le_bytes invs)"

lemma inv_mershalling_frame: "inv_mershalling cr invs = Ok (frame cr ''inv'' (inventory_payload invs))"
  by (simp add: inv_mershalling_def HeaderMessage_new_bytes frame_def inventory_payload_def Let_def)

lemma getdata_frame:
  "GetDataMessage_marshalling (GetDataMessage_new cr invs) = Ok (frame cr ''getdata'' (inventory_payload invs))"
proof -
  have "gdm_header (GetDataMessage_new cr invs) = HeaderMessage_new cr ''getdata'' (Some (inventory_payload invs))"
    by (simp add: GetDataMessage_new_def get_data_header_message_def HeaderMessage_new_def get_checksum_def
        get_payload_def get_data_payload_bytes_def GetDataPayload_to_le_bytes_def inventory_payload_def Let_def)
  then show ?thesis
    by (simp add: GetDataMessage_marshalling_def HeaderMessage_new_bytes frame_def)
      (simp add: GetDataMessage_new_def get_payload_def get_data_payload_bytes_def
        GetDataPayload_to_le_bytes_def inventory_payload_def Let_def)
qed

lemma notfound_frame:
  "get_notfound_message cr invs = Ok (frame cr ''notfound'' (frame cr ''inv'' (inventory_payload invs)))"
  by (simp add: get_notfound_message_def inv_mershalling_frame HeaderMessage_new_bytes frame_def [of cr "''notfound''"])

lemma headers_frame: "HeadersMessage_marshalling cr hs = Ok (frame cr ''headers'' (headers_payload hs))"
  by (simp add: HeadersMessage_marshalling_def HeaderMessage_new_bytes frame_def Let_def)

lemma block_frame: "get_block_message cr b = Ok (frame cr ''block'' (Block_marshalling b))"
  by (simp add: get_block_message_def HeaderMessage_new_bytes frame_def Let_def)

subsection \<open>Readers undo writers\<close>

definition wf_inventory :: "Inventory \<Rightarrow> bool" where
  "wf_inventory i \<longleftrightarrow> length (inv_hash i) = 32"

lemma read_inventory_iff:
  "read_inventory bs off = (Ok (i, off') :: (Inventory \<times> nat, 'a) result) \<longleftrightarrow>
     wf_inventory i \<and> occurs_at bs off (Inventory_to_le_bytes i) \<and> off' = off + length (Inventory_to_le_bytes i)"
proof
  assume "read_inventory bs off = (Ok (i, off') :: (Inventory \<times> nat, 'a) result)"
  then obtain s where sl: "slice bs off (off + 36) = (Ok s :: (bytes, 'a) result)"
      and f: "Inventory_from_le_bytes s = (Ok i :: (Inventory, 'a) result)" and o: "off' = off + 36"
    by (auto simp: read_inventory_def INV_SIZE_def and_then_eq_Ok)
  then have s: "occurs_at bs off s" "length s = 36" "off' = off + 36"
    by (auto simp: slice_iff)
  from f have i: "type_identifier i = u32_from_le_bytes (take 4 s)" "inv_hash i = take 32 (drop 4 s)"
    by (auto simp: Inventory_from_le_bytes_def and_then_eq_Ok slice_eq_Ok)
  then have "Inventory_to_le_bytes i = s"
    using s(2) append_take_drop_id [of 4 s] by (simp add: Inventory_to_le_bytes_def to_from_bytes)
  with s i show "wf_inventory i \<and> occurs_at bs off (Inventory_to_le_bytes i) \<and>
      off' = off + length (Inventory_to_le_bytes i)"
    by (simp add: wf_inventory_def)
next
  assume a: "wf_inventory i \<and> occurs_at bs off (Inventory_to_le_bytes i) \<and>
      off' = off + length (Inventory_to_le_bytes i)"
  then have l: "length (Inventory_to_le_bytes i) = 36"
    by (simp add: Inventory_to_le_bytes_def wf_inventory_def)
  with a have "slice bs off (off + 36) = (Ok (Inventory_to_le_bytes i) :: (bytes, 'a) result)"
    by (simp add: slice_iff)
  with a l show "read_inventory bs off = (Ok (i, off') :: (Inventory \<times> nat, 'a) result)"
    by (cases i) (simp add: read_inventory_def INV_SIZE_def Inventory_from_le_bytes_def
        Inventory_to_le_bytes_def wf_inventory_def slice_def)
qed

interpretation inventory: exact_codec Inventory_to_le_bytes read_inventory wf_inventory
  by unfold_locales (auto simp: read_inventory_iff)

lemma compact_of_len: "n < 2 ^ 64 \<Longrightarrow> wf_compact (CompactSizeUint_of_len n) \<and> compact_nat (CompactSizeUint_of_len n) = n"
  using CompactSizeUint_new_wf [of "of_nat n"] by (simp add: unat_of_nat)

lemma compact_len_read:
  assumes "n < 2 ^ 64"
  shows "CompactSizeUint_unmarshalling (CompactSizeUint_marshalling (CompactSizeUint_of_len n) @ post) 0 =
      Ok (CompactSizeUint_of_len n, length (CompactSizeUint_marshalling (CompactSizeUint_of_len n)))"
    and "decoded_value (CompactSizeUint_of_len n) = Ok (of_nat n)" and "unat (of_nat n :: u64) = n"
  using compact_of_len [OF assms] compact.dec_enc_in [of "CompactSizeUint_of_len n" "[]" post]
    decoded_value_wf [of "CompactSizeUint_of_len n"] assms
  by (simp_all add: unat_of_nat)

lemma get_data_unmarshalling_payload:
  assumes "length invs < 2 ^ 64" and "\<forall>i \<in> set invs. wf_inventory i"
  shows "get_data_unmarshalling (inventory_payload invs) = Ok invs"
proof -
  let ?c = "CompactSizeUint_marshalling (CompactSizeUint_of_len (length invs))"
  have "occurs_at (inventory_payload invs) (length ?c) (concat (map Inventory_to_le_bytes invs))"
    using occurs_at_here [of ?c "concat (map Inventory_to_le_bytes invs)" "[]"] by (simp add: inventory_payload_def)
  from inventory.decode_n_enc [where 'a = string, OF assms(2) this] show ?thesis
    by (simp add: get_data_unmarshalling_def inventory_payload_def compact_len_read [OF assms(1)])
qed

subsubsection \<open>Block headers in a headers message\<close>

lemma read_header_item_enc:
  assumes "wf_header h" and "occurs_at bs off (BlockHeader_marshalling h @ [0])"
  shows "read_header_item bs off = Ok (h, off + length (BlockHeader_marshalling h @ [0]))"
proof -
  have "occurs_at bs off (BlockHeader_marshalling h)"
    using assms(2) by (simp add: occurs_at_append)
  from header.dec_enc [OF assms(1) this] occurs_at_bound [OF this] assms(1) show ?thesis
    by (simp add: read_header_item_def BLOCK_HEADER_SIZE_def)
qed

interpretation header_item: codec "\<lambda>h. BlockHeader_marshalling h @ [0]" read_header_item wf_header
  by unfold_locales (rule read_header_item_enc)

lemma HeadersMessage_unmarshalling_payload:
  assumes "length hs < 2 ^ 64" and "\<forall>h \<in> set hs. wf_header h"
  shows "HeadersMessage_unmarshalling (headers_payload hs) = Ok hs"
proof -
  let ?c = "CompactSizeUint_marshalling (CompactSizeUint_of_len (length hs))"
  let ?b = "concat (map (\<lambda>h. BlockHeader_marshalling h @ [0]) hs)"
  have "occurs_at (headers_payload hs) (length ?c) ?b"
    using occurs_at_here [of ?c ?b "[]"] by (simp add: headers_payload_def CompactSizeUint_marshalling_def)
  from header_item.decode_n_enc [OF assms(2) this] show ?thesis
    by (simp add: HeadersMessage_unmarshalling_def headers_payload_def compact_len_read [OF assms(1)]
        flip: CompactSizeUint_marshalling_def)
qed

subsubsection \<open>getheaders\<close>

interpretation raw_hash: exact_codec "\<lambda>h. h" "read_array 32" "\<lambda>h. length h = 32"
  by unfold_locales (auto simp: read_iffs)

lemma GetHeadersPayload_iff:
  "GetHeadersPayload_read_from bs = Ok p \<longleftrightarrow>
     wf_compact (hash_count p) \<and> compact_nat (hash_count p) = length (locator_hashes p) \<and>
     (\<forall>h \<in> set (locator_hashes p). length h = 32) \<and> length (stop_hash p) = 32 \<and>
     occurs_at bs 0 (GetHeadersPayload_to_le_bytes p)"
proof -
  have hs: "decode_n (read_array 32) (unat (of_nat (compact_nat c) :: u64)) bs off = Ok (xs, off') \<longleftrightarrow>
      (\<forall>x \<in> set xs. length x = 32) \<and> length xs = compact_nat c \<and> occurs_at bs off (concat xs) \<and>
      off' = off + length (concat xs)" if "wf_compact c" "off \<le> length bs" for c off xs off'
    using raw_hash.decode_n_iff [OF that(2)] that(1) by (simp add: unat_decoded)
  show ?thesis
    by (cases p)
      (auto simp: GetHeadersPayload_read_from_def GetHeadersPayload_to_le_bytes_def and_then_eq_Ok
        read_u32_le_iff read_array_iff compact.dec_iff decoded_value_wf hs occurs_at_append
        occurs_at_bound cong: conj_cong)
qed

subsection \<open>Properties\<close>

text \<open>
  Waiting for a message skips the others: when the peer sends any messages of other kinds and
  then the wanted one, \<open>HeaderMessage::read_from\<close> returns the header of the wanted one with its
  payload next on the stream, and every skipped message whose command contains \<open>ping\<close> has been
  answered with a \<open>pong\<close> that carries its payload, in order.
\<close>

theorem read_from_finds_message:
  assumes "command_ok wanted" and "length (get_checksum cr payload) = 4"
    and "list_all (skippable cr wanted) ms"
  shows "HeaderMessage_read_from cr
      \<lparr>inp = concat (map (\<lambda>m. frame cr (fst m) (snd m)) ms) @ frame cr wanted payload, outp = out\<rparr> wanted None =
    Ok (frame_head cr wanted payload, \<lparr>inp = payload, outp = out @ concat (map (answer cr) ms)\<rparr>)"
  using read_from_skips [OF assms, of payload out] by (simp add: frame_def [of cr wanted])

theorem read_from_finds_message_witness:
  "HeaderMessage_read_from sample_crypto
      \<lparr>inp = frame sample_crypto ''ping'' [5] @ frame sample_crypto ''verack'' [], outp = []\<rparr> ''verack'' None =
    Ok (frame_head sample_crypto ''verack'' [], \<lparr>inp = [], outp = frame sample_crypto ''pong'' [5]\<rparr>)"
proof -
  have len: "length (get_checksum sample_crypto pl) = 4" for pl
    by (simp add: get_checksum_def sha256d_def sample_crypto_def)
  have names: "command_ok ''verack''" "command_ok ''ping''" "padded ''ping'' \<noteq> padded ''verack''"
    by (simp_all add: command_ok_def padded_def as_bytes_def compute)
  have "skippable sample_crypto ''verack'' (''ping'', [5])"
    using len names by (simp add: skippable_def)
  moreover have "answer sample_crypto (''ping'', [5]) = frame sample_crypto ''pong'' [5]"
    by (simp add: answer_def padded_def)
  ultimately show ?thesis
    using read_from_finds_message [OF names(1) len, of "[(''ping'', [5])]" "[]" "[]"] by simp
qed

text \<open>
  Messages read back as they were built: a \<open>getdata\<close> payload gives its inventories, a \<open>headers\<close>
  payload its headers, a \<open>block\<close> payload its block. A \<open>getheaders\<close> message that
  \<open>build_getheaders_message\<close> builds reads back only when it has exactly one locator hash: its count
  is 1 whatever the list.
\<close>

theorem messages_read_back:
  assumes "length invs < 2 ^ 64" and "\<forall>i \<in> set invs. wf_inventory i"
    and "length hs < 2 ^ 64" and "\<forall>h \<in> set hs. wf_header h" and "wf_block b"
    and "\<forall>h \<in> set loc. length h = 32"
  shows "get_data_unmarshalling (gd_bytes (gdm_payload (GetDataMessage_new cr invs))) = Ok invs \<and>
    HeadersMessage_unmarshalling (headers_payload hs) = Ok hs \<and>
    BlockMessage_unmarshalling (Block_marshalling b) = Ok b \<and>
    (GetHeadersPayload_read_from (GetHeadersPayload_to_le_bytes (ghm_payload (build_getheaders_message cr config loc))) =
       Ok (ghm_payload (build_getheaders_message cr config loc)) \<longleftrightarrow> length loc = 1)"
proof (intro conjI)
  show "get_data_unmarshalling (gd_bytes (gdm_payload (GetDataMessage_new cr invs))) = Ok invs"
    using get_data_unmarshalling_payload [OF assms(1,2)]
    by (simp add: GetDataMessage_new_def get_payload_def get_data_payload_bytes_def inventory_payload_def Let_def)
  show "HeadersMessage_unmarshalling (headers_payload hs) = Ok hs"
    using assms(3,4) by (rule HeadersMessage_unmarshalling_payload)
  show "BlockMessage_unmarshalling (Block_marshalling b) = Ok b"
    using assms(5) by (simp add: BlockMessage_unmarshalling_def block.dec_enc_whole)
  show "GetHeadersPayload_read_from (GetHeadersPayload_to_le_bytes (ghm_payload (build_getheaders_message cr config loc))) =
       Ok (ghm_payload (build_getheaders_message cr config loc)) \<longleftrightarrow> length loc = 1"
    using assms(6) CompactSizeUint_new_wf [of 1]
    by (auto simp: GetHeadersPayload_iff build_getheaders_message_def Let_def)
qed

theorem messages_read_back_witness:
  "get_data_unmarshalling (gd_bytes (gdm_payload (GetDataMessage_new sample_crypto [Inventory_new_tx (replicate 32 1)]))) =
     Ok [Inventory_new_tx (replicate 32 1)]"
proof -
  have "wf_block (Block_new sample_header (CompactSizeUint_new 0) [])"
    using CompactSizeUint_new_wf [of 0]
    by (simp add: wf_block_def Block_new_def wf_header_def sample_header_def BlockHeader_new_def)
  then show ?thesis
    using messages_read_back [of "[Inventory_new_tx (replicate 32 1)]" "[]" _ "[]"]
    by (simp add: wf_inventory_def Inventory_new_tx_def)
qed

end
