(* ===== verification/Handlers.thy ===== *)
theory Handlers
  imports Account Messages
begin

section \<open>Message handlers (src/handler/message\_handlers.rs, blockchain.rs)\<close>

text \<open>
  The state that all threads of the node share, and the handlers that change it when a message
  arrives. A handler returns the new state, or an error (then it has changed nothing: the only
  errors are those of reading the payload), or panics. The channel to the peer is the list of
  messages sent on it. \<open>ord\<close> is the iteration order of the UTXO hash map.
\<close>

subsection \<open>Shared state\<close>

record Blockchain =
  headers :: "BlockHeader list"
  blocks :: "hash32 \<rightharpoonup> Block"
  header_heights :: "hash32 \<rightharpoonup> nat"
  bc_utxo_set :: utxo_map

definition Blockchain_new ::
  "BlockHeader list \<Rightarrow> (hash32 \<rightharpoonup> Block) \<Rightarrow> (hash32 \<rightharpoonup> nat) \<Rightarrow> utxo_map \<Rightarrow> Blockchain" where
  "Blockchain_new hs bs hh us = \<lparr>headers = hs, blocks = bs, header_heights = hh, bc_utxo_set = us\<rparr>"

definition Blockchain_search_block :: "Blockchain \<Rightarrow> hash32 \<Rightarrow> Block option" where
  "Blockchain_search_block self hash = blocks self hash"

definition Blockchain_search_header :: "Blockchain \<Rightarrow> hash32 \<Rightarrow> (BlockHeader \<times> nat) option" where
  "Blockchain_search_header self hash =
     (case header_heights self hash of
        Some ht \<Rightarrow> if ht < length (headers self) then Some (headers self ! ht, ht) else None
      | None \<Rightarrow> None)"

record NodeDataPointers =
  connected_nodes :: "tcp list"
  blockchain :: Blockchain
  accounts :: "Account list"

definition NodeDataPointers_new :: "tcp list \<Rightarrow> Blockchain \<Rightarrow> Account list \<Rightarrow> NodeDataPointers" where
  "NodeDataPointers_new ns bc accs = \<lparr>connected_nodes = ns, blockchain = bc, accounts = accs\<rparr>"

datatype UIEvent =
    StartHandshake
  | StartDownloadingHeaders
  | FinsihDownloadingHeaders nat
  | StartDownloadingBlocks
  | ShowConfirmedTransaction Block Account Transaction
  | AccountAddedSuccesfully Account
  | AddAccountError string
  | AccountChanged Account
  | ChangeAccountError string
  | ShowPendingTransaction Account Transaction
  | AddBlock Block
  | InitializeUITabs "BlockHeader list" "hash32 \<rightharpoonup> Block"
  | UpdateHeadersDownloaded nat
  | UpdateBlocksDownloaded nat nat
  | MakeTransactionStatus string
  | NewPendingTx
  | UpdateTransactions "(string \<times> Transaction \<times> i64) list"
  | BlockFound Block
  | HeaderFound BlockHeader nat
  | POIResult string
  | NotFound

text \<open>What a handler works on: the shared data, the ids already asked for, its channel, the UI.\<close>

record node =
  pointers :: NodeDataPointers
  transactions_received :: "hash32 list"
  sent :: "bytes list"
  ui :: "UIEvent list"

definition write_to_node :: "bytes \<Rightarrow> node \<Rightarrow> node" where
  "write_to_node message st = st\<lparr>sent := sent st @ [message]\<rparr>"

definition send_event_to_ui :: "UIEvent \<Rightarrow> node \<Rightarrow> node" where
  "send_event_to_ui event st = st\<lparr>ui := ui st @ [event]\<rparr>"

definition upd_blockchain :: "(Blockchain \<Rightarrow> Blockchain) \<Rightarrow> node \<Rightarrow> node" where
  "upd_blockchain f st = st\<lparr>pointers := (pointers st)\<lparr>blockchain := f (blockchain (pointers st))\<rparr>\<rparr>"

definition upd_accounts :: "Account list \<Rightarrow> node \<Rightarrow> node" where
  "upd_accounts accs st = st\<lparr>pointers := (pointers st)\<lparr>accounts := accs\<rparr>\<rparr>"

abbreviation chain :: "node \<Rightarrow> Blockchain" where "chain st \<equiv> blockchain (pointers st)"

subsection \<open>Auxiliary functions\<close>

definition GENESIS_BLOCK_HASH :: hash32 where
  "GENESIS_BLOCK_HASH =
     [0x00, 0x00, 0x00, 0x00, 0x09, 0x33, 0xea, 0x01, 0xad, 0x0e, 0xe9, 0x84, 0x20, 0x97, 0x79, 0xba,
      0xae, 0xc3, 0xce, 0xd9, 0x0f, 0xa3, 0xf4, 0x08, 0x71, 0x95, 0x26, 0xf8, 0xd7, 0x7f, 0x49, 0x43]"

definition MSG_TX :: u32 where "MSG_TX = 1"
definition MSG_BLOCK :: u32 where "MSG_BLOCK = 2"

definition load_header_heights ::
  "crypto \<Rightarrow> BlockHeader list \<Rightarrow> (hash32 \<rightharpoonup> nat) \<Rightarrow> BlockHeader list \<Rightarrow> (hash32 \<rightharpoonup> nat)" where
  "load_header_heights cr hs heights headers_vec =
     fst (fold (\<lambda>header (heights, ht). (heights(BlockHeader_hash cr header \<mapsto> ht), ht + 1))
            hs (heights, length headers_vec))"

definition header_is_not_included :: "BlockHeader \<Rightarrow> BlockHeader list \<Rightarrow> bool" where
  "header_is_not_included header hs =
     (let start_index = length hs - 10; last_10_headers = drop start_index hs
      in header \<notin> set last_10_headers)"

definition include_new_header :: "crypto \<Rightarrow> BlockHeader \<Rightarrow> node \<Rightarrow> node" where
  "include_new_header cr header st =
     upd_blockchain (\<lambda>bc.
       let hs = headers bc @ [header]
       in bc\<lparr>headers := hs,
             header_heights := (header_heights bc)(BlockHeader_hash cr header \<mapsto> length hs - 1)\<rparr>) st"

definition include_new_block :: "crypto \<Rightarrow> Block \<Rightarrow> node \<Rightarrow> node" where
  "include_new_block cr block st =
     send_event_to_ui (AddBlock block)
       (upd_blockchain (\<lambda>bc. bc\<lparr>blocks := (blocks bc)(Block_hash cr block \<mapsto> block)\<rparr>) st)"

definition update_accounts_utxo_set ::
  "crypto \<Rightarrow> (utxo_map \<Rightarrow> hash32 list) \<Rightarrow> node \<Rightarrow> (node, 'e) result" where
  "update_accounts_utxo_set cr ord st =
     (let m = bc_utxo_set (chain st) in
      and_then (traverse (set_utxos cr (ord m) m) (accounts (pointers st))) (\<lambda>accs.
      Ok (upd_accounts accs st)))"

definition get_tx_message :: "crypto \<Rightarrow> Transaction \<Rightarrow> (bytes, 'e) result" where
  "get_tx_message cr tx =
     (let tx_payload = Transaction_marshalling tx;
          header = HeaderMessage_new cr ''tx'' (Some tx_payload) in
      and_then (HeaderMessage_to_le_bytes header) (\<lambda>header_bytes. Ok (header_bytes @ tx_payload)))"

definition ask_for_incoming_tx :: "crypto \<Rightarrow> Inventory list \<Rightarrow> node \<Rightarrow> (node, 'e) result" where
  "ask_for_incoming_tx cr inventories st =
     and_then (GetDataMessage_marshalling (GetDataMessage_new cr inventories)) (\<lambda>bytes.
     Ok (write_to_node bytes st))"

definition get_index_of_header :: "hash32 \<Rightarrow> node \<Rightarrow> nat" where
  "get_index_of_header header_hash st =
     (if header_hash = GENESIS_BLOCK_HASH then 0
      else (case header_heights (chain st) header_hash of Some ht \<Rightarrow> ht | None \<Rightarrow> 0))"

subsection \<open>headers\<close>

definition handle_new_header :: "crypto \<Rightarrow> BlockHeader \<Rightarrow> node \<Rightarrow> (node, 'e) result" where
  "handle_new_header cr header st =
     and_then (BlockHeader_validate cr header) (\<lambda>valid.
     and_then
       (if \<not> valid then Ok st
        else if header_is_not_included header (headers (chain st)) then
          and_then (GetDataMessage_marshalling
              (GetDataMessage_new cr [Inventory_new_block (BlockHeader_hash cr header)])) (\<lambda>bytes.
          Ok (write_to_node bytes st))
        else Ok st) (\<lambda>st.
     Ok (upd_blockchain (\<lambda>bc. bc\<lparr>header_heights :=
           load_header_heights cr [header] (header_heights bc) (headers bc)\<rparr>) st)))"

definition handle_headers_message :: "crypto \<Rightarrow> bytes \<Rightarrow> node \<Rightarrow> (node, NodeCustomErrors) result" where
  "handle_headers_message cr payload st =
     and_then (map_err UnmarshallingError (HeadersMessage_unmarshalling payload)) (\<lambda>new_headers.
     fold_result (handle_new_header cr) new_headers st)"

subsection \<open>getheaders\<close>

definition handle_getheaders_message :: "crypto \<Rightarrow> bytes \<Rightarrow> node \<Rightarrow> (node, NodeCustomErrors) result" where
  "handle_getheaders_message cr payload st =
     and_then (map_err UnmarshallingError (GetHeadersPayload_read_from payload)) (\<lambda>getheaders_payload.
     and_then (index_at (locator_hashes getheaders_payload) 0) (\<lambda>first_header_asked.
     let stop_hash_provided = (stop_hash getheaders_payload \<noteq> replicate 32 0);
         hs = headers (chain st);
         amount_of_headers = length hs;
         index_of_first_header_asked = get_index_of_header first_header_asked st + 1 in
     and_then
       (if \<not> stop_hash_provided then
          if index_of_first_header_asked + 2000 \<ge> amount_of_headers then
            slice hs index_of_first_header_asked (length hs)
          else slice hs index_of_first_header_asked (index_of_first_header_asked + 2000)
        else
          slice hs index_of_first_header_asked (get_index_of_header (stop_hash getheaders_payload) st))
       (\<lambda>headers_to_send.
     and_then (HeadersMessage_marshalling cr headers_to_send) (\<lambda>bytes.
     Ok (write_to_node bytes st)))))"

subsection \<open>getdata\<close>

definition handle_tx_inventory :: "crypto \<Rightarrow> Inventory \<Rightarrow> node \<Rightarrow> (node, 'e) result" where
  "handle_tx_inventory cr inventory st =
     fold_result (\<lambda>tx st.
        if Transaction_hash cr tx = inv_hash inventory then
          and_then (get_tx_message cr tx) (\<lambda>tx_message. Ok (write_to_node tx_message st))
        else Ok st)
       (concat (map pending_transactions (accounts (pointers st)))) st"

definition handle_block_inventory ::
  "crypto \<Rightarrow> Inventory \<Rightarrow> (hash32 \<rightharpoonup> Block) \<Rightarrow> bytes \<times> Inventory list \<Rightarrow> (bytes \<times> Inventory list, 'e) result" where
  "handle_block_inventory cr inventory bs = (\<lambda>(message_to_send, notfound_inventories).
     case bs (inv_hash inventory) of
       Some block \<Rightarrow>
         and_then (get_block_message cr block) (\<lambda>m. Ok (message_to_send @ m, notfound_inventories))
     | None \<Rightarrow> Ok (message_to_send, notfound_inventories @ [inventory]))"

definition handle_inventory ::
  "crypto \<Rightarrow> Inventory \<Rightarrow> node \<times> bytes \<times> Inventory list \<Rightarrow> (node \<times> bytes \<times> Inventory list, 'e) result" where
  "handle_inventory cr inventory = (\<lambda>(st, acc).
     and_then (if type_identifier inventory = MSG_TX then handle_tx_inventory cr inventory st else Ok st) (\<lambda>st.
     and_then
       (if type_identifier inventory = MSG_BLOCK then handle_block_inventory cr inventory (blocks (chain st)) acc
        else Ok acc) (\<lambda>acc.
     Ok (st, acc))))"

definition handle_getdata_message :: "crypto \<Rightarrow> bytes \<Rightarrow> node \<Rightarrow> (node, NodeCustomErrors) result" where
  "handle_getdata_message cr payload st =
     and_then (map_err UnmarshallingError (get_data_unmarshalling payload)) (\<lambda>inventories.
     and_then (fold_result (handle_inventory cr) inventories (st, [], []))
       (\<lambda>(st, message_to_send, notfound_inventories).
     and_then
       (if notfound_inventories \<noteq> [] then
          and_then (get_notfound_message cr notfound_inventories) (\<lambda>m. Ok (message_to_send @ m))
        else Ok message_to_send) (\<lambda>message_to_send.
     Ok (write_to_node message_to_send st))))"

subsection \<open>block\<close>

text \<open>\<open>Block::contains_pending_tx\<close>, one transaction and one account at a time.\<close>

fun position_by_hash :: "crypto \<Rightarrow> hash32 \<Rightarrow> Transaction list \<Rightarrow> nat option" where
  "position_by_hash cr h [] = None"
| "position_by_hash cr h (t # ts) =
     (if Transaction_hash cr t = h then Some 0 else map_option Suc (position_by_hash cr h ts))"

definition confirm_tx :: "crypto \<Rightarrow> Transaction \<Rightarrow> Account \<Rightarrow> Account option" where
  "confirm_tx cr tx account =
     (let pending = pending_transactions account in
      if tx \<in> set pending then
        (case position_by_hash cr (Transaction_hash cr tx) pending of
           Some i \<Rightarrow>
             Some (account\<lparr>pending_transactions := take i pending @ drop (i + 1) pending,
                           confirmed_transactions := confirmed_transactions account @ [pending ! i]\<rparr>)
         | None \<Rightarrow> None)
      else None)"

fun confirm_in_accounts ::
  "crypto \<Rightarrow> Block \<Rightarrow> Transaction \<Rightarrow> Account list \<Rightarrow> Account list \<times> UIEvent list" where
  "confirm_in_accounts cr block tx [] = ([], [])"
| "confirm_in_accounts cr block tx (account # accs) =
     (let (accs', events) = confirm_in_accounts cr block tx accs in
      case confirm_tx cr tx account of
        Some account' \<Rightarrow> (account' # accs', ShowConfirmedTransaction block account' tx # events)
      | None \<Rightarrow> (account # accs', events))"

definition contains_pending_tx :: "crypto \<Rightarrow> Block \<Rightarrow> node \<Rightarrow> node" where
  "contains_pending_tx cr self st =
     fold (\<lambda>tx st.
        let (accs, events) = confirm_in_accounts cr self tx (accounts (pointers st))
        in fold send_event_to_ui events (upd_accounts accs st))
       (txn self) st"

definition handle_block_message ::
  "crypto \<Rightarrow> (utxo_map \<Rightarrow> hash32 list) \<Rightarrow> bytes \<Rightarrow> node \<Rightarrow> (node, NodeCustomErrors) result" where
  "handle_block_message cr ord payload st =
     and_then (map_err UnmarshallingError (BlockMessage_unmarshalling payload)) (\<lambda>new_block.
     and_then (Block_validate cr new_block) (\<lambda>valid.
     if fst valid then
       if header_is_not_included (block_header new_block) (headers (chain st)) then
         let st = include_new_header cr (block_header new_block) st in
         and_then (give_me_utxos cr new_block (bc_utxo_set (chain st))) (\<lambda>us.
         let st = upd_blockchain (\<lambda>bc. bc\<lparr>bc_utxo_set := us\<rparr>) st in
         and_then (update_accounts_utxo_set cr ord st) (\<lambda>st.
         let st = contains_pending_tx cr new_block st in
         Ok (include_new_block cr new_block st)))
       else Ok st
     else Ok st))"

subsection \<open>inv, ping, tx\<close>

fun inv_loop ::
  "nat \<Rightarrow> bytes \<Rightarrow> nat \<Rightarrow> hash32 list \<Rightarrow> Inventory list \<Rightarrow> (hash32 list \<times> Inventory list, 'e) result" where
  "inv_loop 0 payload offset received inventories = Ok (received, inventories)"
| "inv_loop (Suc n) payload offset received inventories =
     and_then (slice payload offset (offset + 36)) (\<lambda>inventory_bytes.
     and_then (Inventory_from_le_bytes inventory_bytes) (\<lambda>inv.
     if type_identifier inv = 1 \<and> Inventory_hash inv \<notin> set received then
       inv_loop n payload (offset + 36) (received @ [Inventory_hash inv]) (inventories @ [inv])
     else inv_loop n payload (offset + 36) received inventories))"

definition handle_inv_message :: "crypto \<Rightarrow> bytes \<Rightarrow> node \<Rightarrow> (node, NodeCustomErrors) result" where
  "handle_inv_message cr payload st =
     and_then (map_err UnmarshallingError (CompactSizeUint_unmarshalling payload 0)) (\<lambda>(count, offset).
     and_then (decoded_value count) (\<lambda>n.
     and_then (inv_loop (unat n) payload offset (transactions_received st) []) (\<lambda>(received, inventories).
     let st = st\<lparr>transactions_received := received\<rparr> in
     if inventories \<noteq> [] then ask_for_incoming_tx cr inventories st else Ok st)))"

definition handle_ping_message :: "crypto \<Rightarrow> bytes \<Rightarrow> node \<Rightarrow> (node, NodeCustomErrors) result" where
  "handle_ping_message cr payload st =
     (let header = \<lparr>start_string = START_STRING_TESTNET, command_name = ''pong'',
                    payload_size = of_nat (length payload), checksum = get_checksum cr payload\<rparr> in
      and_then (HeaderMessage_to_le_bytes header) (\<lambda>header_bytes.
      Ok (write_to_node (header_bytes @ payload) st)))"

fun involves_user_account ::
  "crypto \<Rightarrow> TxOut \<Rightarrow> Transaction \<Rightarrow> Account list \<Rightarrow> (Account list \<times> UIEvent list, 'e) result" where
  "involves_user_account cr self tx [] = Ok ([], [])"
| "involves_user_account cr self tx (account # accs) =
     and_then
       (if tx \<notin> set (pending_transactions account) then
          (case TxOut_get_address cr self of
             Panic \<Rightarrow> Panic
           | Ok a \<Rightarrow> Ok (a = address account)
           | Err e \<Rightarrow> Ok (e = address account))
        else Ok False) (\<lambda>add.
     and_then (involves_user_account cr self tx accs) (\<lambda>(accs', events).
     if add then
       Ok (account\<lparr>pending_transactions := pending_transactions account @ [tx]\<rparr> # accs',
           ShowPendingTransaction account tx # events)
     else Ok (account # accs', events)))"

definition check_if_tx_involves_user_account :: "crypto \<Rightarrow> Transaction \<Rightarrow> node \<Rightarrow> (node, 'e) result" where
  "check_if_tx_involves_user_account cr self st =
     fold_result (\<lambda>txout st.
        and_then (involves_user_account cr txout self (accounts (pointers st))) (\<lambda>(accs, events).
        Ok (fold send_event_to_ui events (upd_accounts accs st))))
       (tx_out self) st"

definition handle_tx_message :: "crypto \<Rightarrow> bytes \<Rightarrow> node \<Rightarrow> (node, NodeCustomErrors) result" where
  "handle_tx_message cr payload st =
     and_then (map_err UnmarshallingError (Transaction_unmarshalling payload 0)) (\<lambda>(tx, _).
     check_if_tx_involves_user_account cr tx st)"

end
