(* ===== verification/Node_State.thy ===== *)
theory Node_State
  imports Handlers "HOL-Library.Multiset" "HOL-Library.List_Lexorder"
begin

section \<open>What the handlers do\<close>

text \<open>
  The effect of each message handler on a well-formed message, written out on the shared state and
  on the peer's channel: the answers to \<open>inv\<close>, \<open>getdata\<close>, \<open>getheaders\<close> and \<open>ping\<close>, the search
  index after \<open>headers\<close>, and what \<open>tx\<close> and \<open>block\<close> do to the accounts, the chain and the UTXO set.
\<close>

lemma frame_pong: "handle_ping_message cr payload st = Ok (write_to_node (frame cr ''pong'' payload) st)"
  by (simp add: handle_ping_message_def HeaderMessage_to_le_bytes_def command_name_to_bytes_Ok frame_def
      frame_header_def)

lemma tx_frame: "get_tx_message cr tx = Ok (frame cr ''tx'' (Transaction_marshalling tx))"
  by (simp add: get_tx_message_def HeaderMessage_new_bytes frame_def Let_def)

lemma decode_inventories:
  assumes "length invs < 2 ^ 64" and "\<forall>i \<in> set invs. wf_inventory i"
  obtains c off off' where
    "CompactSizeUint_unmarshalling (inventory_payload invs) 0 = Ok (c, off)"
    "decoded_value c = (Ok (of_nat (length invs)) :: (u64, 'e) result)" "unat (of_nat (length invs) :: u64) = length invs"
    "decode_n read_inventory (length invs) (inventory_payload invs) off = (Ok (invs, off') :: (Inventory list \<times> nat, 'e) result)"
proof -
  let ?c = "CompactSizeUint_marshalling (CompactSizeUint_of_len (length invs))"
  have "occurs_at (inventory_payload invs) (length ?c) (concat (map Inventory_to_le_bytes invs))"
    using occurs_at_here [of ?c "concat (map Inventory_to_le_bytes invs)" "[]"] by (simp add: inventory_payload_def)
  from inventory.decode_n_enc [where 'a = 'e, OF assms(2) this] compact_len_read [OF assms(1)] that
  show thesis
    unfolding inventory_payload_def by blast
qed

subsection \<open>inv\<close>

text \<open>The transactions of an \<open>inv\<close> that were not asked for before, each once.\<close>

fun fresh :: "hash32 set \<Rightarrow> Inventory list \<Rightarrow> Inventory list" where
  "fresh R [] = []"
| "fresh R (i # is) =
     (if type_identifier i = 1 \<and> inv_hash i \<notin> R then i # fresh (insert (inv_hash i) R) is else fresh R is)"

lemma inv_loop_fresh:
  "decode_n read_inventory n bs off = (Ok (invs, off') :: (Inventory list \<times> nat, 'e) result) \<Longrightarrow>
   inv_loop n bs off R acc =
     (Ok (R @ map inv_hash (fresh (set R) invs), acc @ fresh (set R) invs) :: (hash32 list \<times> Inventory list, 'e) result)"
proof (induction n arbitrary: off R acc invs)
  case (Suc n)
  from Suc.prems obtain i off1 rest where
      i: "read_inventory bs off = (Ok (i, off1) :: (Inventory \<times> nat, 'e) result)" and
      r: "decode_n read_inventory n bs off1 = (Ok (rest, off') :: (Inventory list \<times> nat, 'e) result)" and
      invs: "invs = i # rest"
    by (auto simp: and_then_eq_Ok)
  from i obtain b where "slice bs off (off + 36) = (Ok b :: (bytes, 'e) result)"
      "Inventory_from_le_bytes b = (Ok i :: (Inventory, 'e) result)" "off1 = off + 36"
    by (auto simp: read_inventory_def INV_SIZE_def and_then_eq_Ok)
  with Suc.IH [OF r] show ?case
    by (simp add: invs Inventory_hash_def)
qed simp

lemma fresh_new: "distinct (map inv_hash (fresh R is)) \<and> set (map inv_hash (fresh R is)) \<inter> R = {} \<and>
    set (map inv_hash (fresh R is)) \<union> R = {inv_hash i |i. i \<in> set is \<and> type_identifier i = 1} \<union> R"
  by (induction R "is" rule: fresh.induct) auto

lemma fresh_tx: "i \<in> set (fresh R is) \<Longrightarrow> i \<in> set is \<and> type_identifier i = 1"
  by (induction R "is" rule: fresh.induct) (auto split: if_splits)

lemma fresh_known: "(\<And>i. i \<in> set is \<Longrightarrow> type_identifier i = 1 \<Longrightarrow> inv_hash i \<in> R) \<Longrightarrow> fresh R is = []"
  by (induction R "is" rule: fresh.induct) auto

definition asks :: "crypto \<Rightarrow> Inventory list \<Rightarrow> bytes list" where
  "asks cr invs = (if invs = [] then [] else [frame cr ''getdata'' (inventory_payload invs)])"

lemma handle_inv_effect:
  assumes "length invs < 2 ^ 64" and "\<forall>i \<in> set invs. wf_inventory i"
  shows "handle_inv_message cr (inventory_payload invs) st =
    Ok (st\<lparr>transactions_received := transactions_received st @
              map inv_hash (fresh (set (transactions_received st)) invs),
           sent := sent st @ asks cr (fresh (set (transactions_received st)) invs)\<rparr>)"
proof -
  obtain c off off' where d: "CompactSizeUint_unmarshalling (inventory_payload invs) 0 = Ok (c, off)"
      "decoded_value c = (Ok (of_nat (length invs)) :: (u64, NodeCustomErrors) result)"
      "unat (of_nat (length invs) :: u64) = length invs"
      "decode_n read_inventory (length invs) (inventory_payload invs) off =
         (Ok (invs, off') :: (Inventory list \<times> nat, NodeCustomErrors) result)"
    by (rule decode_inventories [OF assms])
  from inv_loop_fresh [OF d(4), of "transactions_received st" "[]"] d(1-3) show ?thesis
    by (simp add: handle_inv_message_def ask_for_incoming_tx_def getdata_frame write_to_node_def asks_def Let_def)
qed

subsection \<open>getdata\<close>

definition pending_of :: "node \<Rightarrow> Transaction list" where
  "pending_of st = concat (map pending_transactions (accounts (pointers st)))"

definition tx_replies :: "crypto \<Rightarrow> Transaction list \<Rightarrow> Inventory \<Rightarrow> bytes list" where
  "tx_replies cr ts i =
     (if type_identifier i = 1
      then map (\<lambda>t. frame cr ''tx'' (Transaction_marshalling t)) (filter (\<lambda>t. Transaction_hash cr t = inv_hash i) ts)
      else [])"

definition block_reply :: "crypto \<Rightarrow> (hash32 \<rightharpoonup> Block) \<Rightarrow> Inventory \<Rightarrow> bytes" where
  "block_reply cr bs i =
     (if type_identifier i = 2
      then (case bs (inv_hash i) of Some b \<Rightarrow> frame cr ''block'' (Block_marshalling b) | None \<Rightarrow> []) else [])"

definition missing :: "(hash32 \<rightharpoonup> Block) \<Rightarrow> Inventory list \<Rightarrow> Inventory list" where
  "missing bs invs = filter (\<lambda>i. type_identifier i = 2 \<and> bs (inv_hash i) = None) invs"

lemma tx_inventory_fold:
  "fold_result (\<lambda>tx st. if Transaction_hash cr tx = h then
        and_then (get_tx_message cr tx) (\<lambda>tx_message. Ok (write_to_node tx_message st)) else Ok st) ts st =
     Ok (st\<lparr>sent := sent st @ map (\<lambda>t. frame cr ''tx'' (Transaction_marshalling t))
                              (filter (\<lambda>t. Transaction_hash cr t = h) ts)\<rparr>)"
  by (induction ts arbitrary: st) (simp_all add: tx_frame write_to_node_def)

lemma handle_inventory_effect:
  "handle_inventory cr i (st, m, nf) =
     Ok (st\<lparr>sent := sent st @ tx_replies cr (pending_of st) i\<rparr>,
         m @ block_reply cr (blocks (chain st)) i, nf @ missing (blocks (chain st)) [i])"
  by (simp add: handle_inventory_def handle_tx_inventory_def tx_inventory_fold handle_block_inventory_def
      block_frame tx_replies_def pending_of_def block_reply_def missing_def MSG_TX_def MSG_BLOCK_def
      split: option.split)

lemma handle_inventories_effect:
  "fold_result (handle_inventory cr) invs (st, m, nf) =
     Ok (st\<lparr>sent := sent st @ concat (map (tx_replies cr (pending_of st)) invs)\<rparr>,
         m @ concat (map (block_reply cr (blocks (chain st))) invs), nf @ missing (blocks (chain st)) invs)"
proof (induction invs arbitrary: st m nf)
  case (Cons i invs)
  have "pending_of (st\<lparr>sent := x\<rparr>) = pending_of st" for x
    by (simp add: pending_of_def)
  with Cons show ?case
    by (simp add: handle_inventory_effect missing_def)
qed (simp add: missing_def)

lemma handle_getdata_effect:
  assumes "length invs < 2 ^ 64" and "\<forall>i \<in> set invs. wf_inventory i"
  shows "handle_getdata_message cr (inventory_payload invs) st =
    Ok (st\<lparr>sent := sent st @ concat (map (tx_replies cr (pending_of st)) invs) @
           [concat (map (block_reply cr (blocks (chain st))) invs) @
            (let nf = missing (blocks (chain st)) invs in
             if nf = [] then [] else frame cr ''notfound'' (frame cr ''inv'' (inventory_payload nf)))]\<rparr>)"
  by (simp add: handle_getdata_message_def get_data_unmarshalling_payload [OF assms]
      handle_inventories_effect notfound_frame write_to_node_def Let_def)

subsection \<open>getheaders\<close>

lemma read_getheaders:
  assumes "length loc < 2 ^ 64" and "\<forall>h \<in> set loc. length h = 32" and "length stop = 32"
    and "pl = GetHeadersPayload_to_le_bytes \<lparr>gh_version = v, hash_count = CompactSizeUint_of_len (length loc),
               locator_hashes = loc, stop_hash = stop\<rparr>"
  shows "GetHeadersPayload_read_from pl = Ok \<lparr>gh_version = v, hash_count = CompactSizeUint_of_len (length loc),
               locator_hashes = loc, stop_hash = stop\<rparr>"
  using assms compact_of_len [OF assms(1)] by (simp add: GetHeadersPayload_iff)

lemma handle_getheaders_effect:
  assumes "GetHeadersPayload_read_from pl = Ok p" and "locator_hashes p = first # rest"
    and "stop_hash p = replicate 32 0" and "get_index_of_header first st < length (headers (chain st))"
  shows "handle_getheaders_message cr pl st =
    Ok (st\<lparr>sent := sent st @ [frame cr ''headers''
           (headers_payload (take 2000 (drop (get_index_of_header first st + 1) (headers (chain st)))))]\<rparr>)"
  using assms
  by (simp add: handle_getheaders_message_def index_at_def slice_def headers_frame write_to_node_def Let_def)

lemma handle_getheaders_empty:
  "GetHeadersPayload_read_from pl = Ok p \<Longrightarrow> locator_hashes p = [] \<Longrightarrow> handle_getheaders_message cr pl st = Panic"
  by (simp add: handle_getheaders_message_def index_at_def)

lemma handle_getheaders_beyond:
  assumes "GetHeadersPayload_read_from pl = Ok p" and "locator_hashes p = first # rest"
    and "stop_hash p = replicate 32 0" and "length (headers (chain st)) \<le> get_index_of_header first st"
  shows "handle_getheaders_message cr pl st = Panic"
  using assms by (simp add: handle_getheaders_message_def index_at_def slice_def Let_def)

subsection \<open>headers\<close>

definition announces :: "crypto \<Rightarrow> BlockHeader list \<Rightarrow> BlockHeader \<Rightarrow> bytes list" where
  "announces cr hs h =
     (if meets_target cr h \<and> header_is_not_included h hs
      then [frame cr ''getdata'' (inventory_payload [Inventory_new_block (BlockHeader_hash cr h)])] else [])"

definition heights_after :: "crypto \<Rightarrow> BlockHeader list \<Rightarrow> Blockchain \<Rightarrow> (hash32 \<rightharpoonup> nat)" where
  "heights_after cr new bc =
     (\<lambda>x. if x \<in> BlockHeader_hash cr ` set new then Some (length (headers bc)) else header_heights bc x)"

lemma sha_length: "digest_lengths cr \<Longrightarrow> length (sha256d cr bs) = 32"
  by (simp add: digest_lengths_def sha256d_def)

lemma hash_lengths:
  assumes "digest_lengths cr"
  shows "length (BlockHeader_hash cr h) = 32" "length (Block_hash cr b) = 32"
  using assms by (simp_all add: BlockHeader_hash_def Block_hash_def sha_length)

lemma handle_new_header_effect:
  assumes "digest_lengths cr" and "3 \<le> bits_exponent h"
  shows "handle_new_header cr h st =
    Ok (upd_blockchain (\<lambda>bc. bc\<lparr>header_heights := heights_after cr [h] bc\<rparr>)
          (st\<lparr>sent := sent st @ announces cr (headers (chain st)) h\<rparr>))"
proof -
  have "load_header_heights cr [h] (header_heights bc) (headers bc) = heights_after cr [h] bc" for bc
    by (auto simp: load_header_heights_def heights_after_def fun_eq_iff)
  with assms show ?thesis
    by (simp add: handle_new_header_def BlockHeader_validate_Ok hash_lengths getdata_frame write_to_node_def
        announces_def)
qed

lemma handle_headers_fold:
  assumes "digest_lengths cr"
  shows "\<forall>h \<in> set hs. 3 \<le> bits_exponent h \<Longrightarrow>
    fold_result (handle_new_header cr) hs st =
      Ok (upd_blockchain (\<lambda>bc. bc\<lparr>header_heights := heights_after cr hs bc\<rparr>)
            (st\<lparr>sent := sent st @ concat (map (announces cr (headers (chain st))) hs)\<rparr>))"
proof (induction hs arbitrary: st)
  case Nil
  then show ?case by (simp add: upd_blockchain_def heights_after_def)
next
  case (Cons h hs)
  have "heights_after cr hs (bc\<lparr>header_heights := heights_after cr [h] bc\<rparr>) = heights_after cr (h # hs) bc" for bc
    by (auto simp: heights_after_def fun_eq_iff)
  with Cons show ?case
    by (simp add: handle_new_header_effect [OF assms] upd_blockchain_def)
qed

lemma handle_headers_effect:
  assumes "digest_lengths cr" and "length hs < 2 ^ 64" and "\<forall>h \<in> set hs. wf_header h \<and> 3 \<le> bits_exponent h"
  shows "handle_headers_message cr (headers_payload hs) st =
    Ok (upd_blockchain (\<lambda>bc. bc\<lparr>header_heights := heights_after cr hs bc\<rparr>)
          (st\<lparr>sent := sent st @ concat (map (announces cr (headers (chain st))) hs)\<rparr>))"
  using assms
  by (simp add: handle_headers_message_def HeadersMessage_unmarshalling_payload handle_headers_fold)

subsection \<open>tx\<close>

text \<open>
  An output concerns an account when its address text is the account's address. (The code compares
  the text of the error when the output has no address.)
\<close>

definition concerns :: "crypto \<Rightarrow> TxOut \<Rightarrow> Account \<Rightarrow> bool" where
  "concerns cr out a \<longleftrightarrow> TxOut_get_address cr out = Ok (address a) \<or> TxOut_get_address cr out = Err (address a)"

definition note_tx :: "crypto \<Rightarrow> Transaction \<Rightarrow> TxOut list \<Rightarrow> Account \<Rightarrow> Account" where
  "note_tx cr t outs a =
     (if t \<notin> set (pending_transactions a) \<and> (\<exists>out \<in> set outs. concerns cr out a)
      then a\<lparr>pending_transactions := pending_transactions a @ [t]\<rparr> else a)"

lemma involves_effect:
  assumes "TxOut_get_address cr out \<noteq> Panic"
  shows "involves_user_account cr out t accs =
    Ok (map (note_tx cr t [out]) accs,
        map (\<lambda>a. ShowPendingTransaction a t)
          (filter (\<lambda>a. t \<notin> set (pending_transactions a) \<and> concerns cr out a) accs))"
  using assms
  by (induction accs) (auto simp: note_tx_def concerns_def split: result.splits)

lemma fold_ui:
  "pointers (fold send_event_to_ui es st) = pointers st"
  "transactions_received (fold send_event_to_ui es st) = transactions_received st"
  "sent (fold send_event_to_ui es st) = sent st"
  "ui (fold send_event_to_ui es st) = ui st @ es"
  by (induction es arbitrary: st) (simp_all add: send_event_to_ui_def)

lemma fold_ui_eq: "fold send_event_to_ui es st = st\<lparr>ui := ui st @ es\<rparr>"
  by (induction es arbitrary: st) (simp_all add: send_event_to_ui_def)

lemma note_tx_trans: "note_tx cr t outs (note_tx cr t [out] a) = note_tx cr t (out # outs) a"
  by (auto simp: note_tx_def concerns_def)

lemma check_tx_effect:
  "\<forall>out \<in> set outs. TxOut_get_address cr out \<noteq> Panic \<Longrightarrow>
   \<exists>es. fold_result (\<lambda>txout st.
        and_then (involves_user_account cr txout t (accounts (pointers st))) (\<lambda>(accs, events).
        Ok (fold send_event_to_ui events (upd_accounts accs st)))) outs st =
     (Ok ((upd_accounts (map (note_tx cr t outs) (accounts (pointers st))) st)\<lparr>ui := ui st @ es\<rparr>) :: (node, 'e) result)"
proof (induction outs arbitrary: st)
  case Nil
  have "map (note_tx cr t []) accs = accs" for accs
    by (simp add: note_tx_def map_idI)
  then show ?case
    by (auto simp: upd_accounts_def intro!: exI [of _ "[]"])
next
  case (Cons out outs)
  define accs es1 where "accs = map (note_tx cr t [out]) (accounts (pointers st))"
    and "es1 = map (\<lambda>a. ShowPendingTransaction a t)
          (filter (\<lambda>a. t \<notin> set (pending_transactions a) \<and> concerns cr out a) (accounts (pointers st)))"
  let ?st = "(upd_accounts accs st)\<lparr>ui := ui st @ es1\<rparr>"
  have accs: "map (note_tx cr t outs) accs = map (note_tx cr t (out # outs)) (accounts (pointers st))"
    by (simp add: accs_def note_tx_trans)
  from Cons.IH [of ?st] Cons.prems obtain es where es:
    "fold_result (\<lambda>txout st.
        and_then (involves_user_account cr txout t (accounts (pointers st))) (\<lambda>(accs, events).
        Ok (fold send_event_to_ui events (upd_accounts accs st)))) outs ?st =
     (Ok ((upd_accounts (map (note_tx cr t outs) accs) ?st)\<lparr>ui := ui ?st @ es\<rparr>) :: (node, 'e) result)"
    by (auto simp: upd_accounts_def)
  show ?case
    using es Cons.prems
    by (auto simp: involves_effect fold_ui_eq accs_def [symmetric] es1_def [symmetric] accs
        upd_accounts_def intro!: exI [of _ "es1 @ es"])
qed

lemma handle_tx_effect:
  assumes "wf_tx t" and "\<forall>out \<in> set (tx_out t). TxOut_get_address cr out \<noteq> Panic"
  shows "\<exists>es. handle_tx_message cr (Transaction_marshalling t) st =
    Ok ((upd_accounts (map (note_tx cr t (tx_out t)) (accounts (pointers st))) st)\<lparr>ui := ui st @ es\<rparr>)"
  using check_tx_effect [where 'e = NodeCustomErrors, OF assms(2), of t st]
  by (simp add: handle_tx_message_def tx.dec_enc_whole [OF assms(1)] check_if_tx_involves_user_account_def)

subsection \<open>block\<close>

text \<open>Moving one confirmed transaction from the pending to the confirmed ones of an account.\<close>

definition confirm :: "crypto \<Rightarrow> Transaction \<Rightarrow> Account \<Rightarrow> Account" where
  "confirm cr t a = (case confirm_tx cr t a of Some a' \<Rightarrow> a' | None \<Rightarrow> a)"

lemma confirm_in_accounts_fst: "fst (confirm_in_accounts cr b t accs) = map (confirm cr t) accs"
  by (induction accs) (auto simp: confirm_def Let_def split: option.split prod.split)

lemma contains_pending_effect:
  "\<exists>es. contains_pending_tx cr b st =
     (upd_accounts (map (fold (confirm cr) (txn b)) (accounts (pointers st))) st)\<lparr>ui := ui st @ es\<rparr>"
proof -
  have "\<exists>es. fold (\<lambda>tx st. let (accs, events) = confirm_in_accounts cr b tx (accounts (pointers st))
        in fold send_event_to_ui events (upd_accounts accs st)) ts st =
     (upd_accounts (map (fold (confirm cr) ts) (accounts (pointers st))) st)\<lparr>ui := ui st @ es\<rparr>" for ts
  proof (induction ts arbitrary: st)
    case Nil
    show ?case by (auto simp: upd_accounts_def id_def intro!: exI [of _ "[]"])
  next
    case (Cons t ts)
    obtain accs es1 where c: "confirm_in_accounts cr b t (accounts (pointers st)) = (accs, es1)"
      by fastforce
    then have accs: "accs = map (confirm cr t) (accounts (pointers st))"
      using confirm_in_accounts_fst [of cr b t "accounts (pointers st)"] by simp
    from Cons.IH [of "(upd_accounts accs st)\<lparr>ui := ui st @ es1\<rparr>"] obtain es where
      "fold (\<lambda>tx st. let (accs, events) = confirm_in_accounts cr b tx (accounts (pointers st))
          in fold send_event_to_ui events (upd_accounts accs st)) ts ((upd_accounts accs st)\<lparr>ui := ui st @ es1\<rparr>) =
        (upd_accounts (map (fold (confirm cr) ts) accs) st)\<lparr>ui := ui st @ es1 @ es\<rparr>"
      by (auto simp: upd_accounts_def)
    with c show ?case
      by (auto simp: fold_ui_eq accs upd_accounts_def comp_def intro!: exI [of _ "es1 @ es"])
  qed
  then show ?thesis by (simp add: contains_pending_tx_def)
qed

lemma position_by_hash_Some:
  "position_by_hash cr h ts = Some i \<Longrightarrow> i < length ts \<and> Transaction_hash cr (ts ! i) = h"
  by (induction ts arbitrary: i) (auto split: if_splits)

lemma position_by_hash_None: "position_by_hash cr h ts = None \<longleftrightarrow> h \<notin> Transaction_hash cr ` set ts"
  by (induction ts) auto

lemma confirm_cases:
  obtains (same) "t \<notin> set (pending_transactions a)" "confirm cr t a = a"
    | (moved) xs u ys where "t \<in> set (pending_transactions a)" "pending_transactions a = xs @ u # ys"
        "Transaction_hash cr u = Transaction_hash cr t"
        "confirm cr t a = a\<lparr>pending_transactions := xs @ ys, confirmed_transactions := confirmed_transactions a @ [u]\<rparr>"
proof (cases "t \<in> set (pending_transactions a)")
  case False
  with same show thesis by (simp add: confirm_def confirm_tx_def Let_def)
next
  case True
  let ?p = "pending_transactions a"
  have "position_by_hash cr (Transaction_hash cr t) ?p \<noteq> None"
    using True by (auto simp: position_by_hash_None)
  then obtain i where i: "position_by_hash cr (Transaction_hash cr t) ?p = Some i"
    by blast
  from position_by_hash_Some [OF i] have "?p = take i ?p @ ?p ! i # drop (i + 1) ?p"
    by (simp add: id_take_nth_drop)
  with moved [OF True this] position_by_hash_Some [OF i] i True show thesis
    by (simp add: confirm_def confirm_tx_def Let_def)
qed

lemma confirm_keeps:
  "address (confirm cr t a) = address a" "utxo_set (confirm cr t a) = utxo_set a"
  "private_key (confirm cr t a) = private_key a"
  "mset (pending_transactions (confirm cr t a)) + mset (confirmed_transactions (confirm cr t a)) =
     mset (pending_transactions a) + mset (confirmed_transactions a)"
  by (cases rule: confirm_cases [of t a cr]; simp)+

lemma fold_confirm_keeps:
  "address (fold (confirm cr) ts a) = address a" "utxo_set (fold (confirm cr) ts a) = utxo_set a"
  "private_key (fold (confirm cr) ts a) = private_key a"
  "mset (pending_transactions (fold (confirm cr) ts a)) + mset (confirmed_transactions (fold (confirm cr) ts a)) =
     mset (pending_transactions a) + mset (confirmed_transactions a)"
  by (induction ts arbitrary: a) (simp_all add: confirm_keeps)

lemma filter_neq: "t \<notin> set xs \<Longrightarrow> filter (\<lambda>u. u \<noteq> t) xs = xs"
  by (induction xs) auto

lemma confirm_exact:
  assumes "inj_on (Transaction_hash cr) (set (pending_transactions a))" and "distinct (pending_transactions a)"
  shows "pending_transactions (confirm cr t a) = filter (\<lambda>u. u \<noteq> t) (pending_transactions a) \<and>
    set (confirmed_transactions (confirm cr t a)) =
      set (confirmed_transactions a) \<union> (set (pending_transactions a) \<inter> {t})"
proof (cases rule: confirm_cases [of t a cr])
  case same
  then show ?thesis by (simp add: filter_neq)
next
  case (moved xs u ys)
  then have "u = t"
    using assms(1) by (auto dest: inj_onD)
  with moved assms(2) show ?thesis by (auto simp: filter_neq)
qed

lemma fold_confirm_exact:
  "inj_on (Transaction_hash cr) (set (pending_transactions a)) \<Longrightarrow> distinct (pending_transactions a) \<Longrightarrow>
    pending_transactions (fold (confirm cr) ts a) = filter (\<lambda>u. u \<notin> set ts) (pending_transactions a) \<and>
    set (confirmed_transactions (fold (confirm cr) ts a)) =
      set (confirmed_transactions a) \<union> (set (pending_transactions a) \<inter> set ts)"
proof (induction ts arbitrary: a)
  case (Cons t ts)
  let ?a = "confirm cr t a"
  have c: "pending_transactions ?a = filter (\<lambda>u. u \<noteq> t) (pending_transactions a)"
      "set (confirmed_transactions ?a) = set (confirmed_transactions a) \<union> (set (pending_transactions a) \<inter> {t})"
    using confirm_exact [OF Cons.prems] by auto
  then have "inj_on (Transaction_hash cr) (set (pending_transactions ?a))" "distinct (pending_transactions ?a)"
    using Cons.prems by (auto intro: inj_on_subset)
  from Cons.IH [OF this] c show ?case
    by (auto intro: filter_cong)
qed simp

text \<open>The iteration order of the UTXO hash map lists every key once.\<close>

definition iteration_order :: "(utxo_map \<Rightarrow> hash32 list) \<Rightarrow> bool" where
  "iteration_order ord \<longleftrightarrow> (\<forall>m. finite (dom m) \<longrightarrow> distinct (ord m) \<and> set (ord m) = dom m)"

text \<open>Reading the address of an output does not panic (it does for some malformed scripts).\<close>

definition readable_output :: "crypto \<Rightarrow> TxOut \<Rightarrow> bool" where
  "readable_output cr out \<longleftrightarrow> TxOut_get_address cr out \<noteq> Panic"

definition readable_utxos :: "crypto \<Rightarrow> utxo_map \<Rightarrow> bool" where
  "readable_utxos cr m \<longleftrightarrow> (\<forall>t \<in> ran m. \<forall>u \<in> set (ut_utxos t). readable_output cr (fst u))"

lemma referenced_loop_total:
  "\<forall>u \<in> set us. readable_output cr (fst u) \<Longrightarrow>
     \<exists>r. referenced_loop cr addr us acc = (Ok r :: ((TxOut \<times> nat) list, 'e) result)"
  by (induction us arbitrary: acc) (auto simp: readable_output_def split: result.splits)

lemma set_utxos_total:
  assumes "readable_utxos cr m"
  shows "\<exists>a'. set_utxos cr ks m a = (Ok a' :: (Account, 'e) result)"
proof -
  let ?f = "\<lambda>h. case m h of None \<Rightarrow> Ok None
      | Some utxo \<Rightarrow> (referenced_utxos cr utxo (address a) :: (UtxoTuple option, 'e) result)"
  have "\<exists>r. ?f h = Ok r" for h
  proof (cases "m h")
    case (Some t)
    then have "\<forall>u \<in> set (ut_utxos t). readable_output cr (fst u)"
      using assms by (auto simp: readable_utxos_def ran_def)
    from referenced_loop_total [where 'e = 'e, OF this, of "address a" "[]"] Some show ?thesis
      by (auto simp: referenced_utxos_def)
  qed simp
  then obtain g where "\<And>h. ?f h = Ok (g h)"
    by metis
  then have "traverse ?f ks = Ok (map g ks)"
    by (intro traverse_all_Ok) auto
  then show ?thesis
    by (simp add: set_utxos_def)
qed

lemma update_accounts_effect:
  assumes "iteration_order ord" and "finite (dom (bc_utxo_set (chain st)))" and "wf_utxos (bc_utxo_set (chain st))"
    and "update_accounts_utxo_set cr ord st = (Ok st' :: (node, 'e) result)"
  shows "\<exists>accs. st' = upd_accounts accs st \<and> list_all2 (\<lambda>a a'. in_sync cr (bc_utxo_set (chain st)) a' \<and>
      address a' = address a \<and> private_key a' = private_key a \<and>
      pending_transactions a' = pending_transactions a \<and>
      confirmed_transactions a' = confirmed_transactions a) (accounts (pointers st)) accs"
proof -
  let ?m = "bc_utxo_set (chain st)"
  from assms(4) obtain accs where accs:
      "list_all2 (\<lambda>a a'. set_utxos cr (ord ?m) ?m a = (Ok a' :: (Account, 'e) result)) (accounts (pointers st)) accs"
      "st' = upd_accounts accs st"
    by (auto simp: update_accounts_utxo_set_def Let_def and_then_eq_Ok traverse_Ok_iff)
  have o: "distinct (ord ?m)" "set (ord ?m) = dom ?m"
    using assms(1,2) by (auto simp: iteration_order_def)
  have "list_all2 (\<lambda>a a'. in_sync cr ?m a' \<and> address a' = address a \<and> private_key a' = private_key a \<and>
      pending_transactions a' = pending_transactions a \<and>
      confirmed_transactions a' = confirmed_transactions a) (accounts (pointers st)) accs"
    using accs(1)
    by (rule list_all2_mono) (auto dest: set_utxos_same set_utxos_in_sync [OF assms(3) o])
  with accs(2) show ?thesis by blast
qed

lemma update_accounts_total:
  assumes "readable_utxos cr (bc_utxo_set (chain st))"
  shows "\<exists>st'. update_accounts_utxo_set cr ord st = (Ok st' :: (node, 'e) result)"
proof -
  let ?m = "bc_utxo_set (chain st)"
  obtain g where "\<And>a. set_utxos cr (ord ?m) ?m a = (Ok (g a) :: (Account, 'e) result)"
    using set_utxos_total [where 'e = 'e, OF assms] by metis
  then have "traverse (set_utxos cr (ord ?m) ?m) (accounts (pointers st)) =
      (Ok (map g (accounts (pointers st))) :: (Account list, 'e) result)"
    by (intro traverse_all_Ok) auto
  then show ?thesis
    by (simp add: update_accounts_utxo_set_def Let_def)
qed

subsubsection \<open>The whole handler\<close>

definition account_after :: "crypto \<Rightarrow> utxo_map \<Rightarrow> Block \<Rightarrow> Account \<Rightarrow> Account \<Rightarrow> bool" where
  "account_after cr m b a a' \<longleftrightarrow> in_sync cr m a' \<and> address a' = address a \<and> private_key a' = private_key a \<and>
     pending_transactions a' = pending_transactions (fold (confirm cr) (txn b) a) \<and>
     confirmed_transactions a' = confirmed_transactions (fold (confirm cr) (txn b) a)"

text \<open>What taking in a new block means for the shared state.\<close>

definition block_applied :: "crypto \<Rightarrow> Block \<Rightarrow> node \<Rightarrow> node \<Rightarrow> bool" where
  "block_applied cr b st st' \<longleftrightarrow>
     headers (chain st') = headers (chain st) @ [block_header b] \<and>
     header_heights (chain st') = (header_heights (chain st))(Block_hash cr b \<mapsto> length (headers (chain st))) \<and>
     blocks (chain st') = (blocks (chain st))(Block_hash cr b \<mapsto> b) \<and>
     wf_utxos (bc_utxo_set (chain st')) \<and> finite (dom (bc_utxo_set (chain st'))) \<and>
     utxo_view (bc_utxo_set (chain st')) = fold (apply_tx cr) (txn b) (utxo_view (bc_utxo_set (chain st))) \<and>
     list_all2 (account_after cr (bc_utxo_set (chain st')) b) (accounts (pointers st)) (accounts (pointers st')) \<and>
     sent st' = sent st \<and> transactions_received st' = transactions_received st"

lemma confirm_fields:
  "pending_transactions (confirm cr t a) =
     (if t \<in> set (pending_transactions a) then
        (case position_by_hash cr (Transaction_hash cr t) (pending_transactions a) of
           Some i \<Rightarrow> take i (pending_transactions a) @ drop (i + 1) (pending_transactions a)
         | None \<Rightarrow> pending_transactions a)
      else pending_transactions a)"
  "confirmed_transactions (confirm cr t a) =
     (if t \<in> set (pending_transactions a) then
        (case position_by_hash cr (Transaction_hash cr t) (pending_transactions a) of
           Some i \<Rightarrow> confirmed_transactions a @ [pending_transactions a ! i]
         | None \<Rightarrow> confirmed_transactions a)
      else confirmed_transactions a)"
  by (simp_all add: confirm_def confirm_tx_def Let_def split: option.split)

lemma fold_confirm_cong:
  "pending_transactions a = pending_transactions c \<Longrightarrow> confirmed_transactions a = confirmed_transactions c \<Longrightarrow>
     pending_transactions (fold (confirm cr) ts a) = pending_transactions (fold (confirm cr) ts c) \<and>
     confirmed_transactions (fold (confirm cr) ts a) = confirmed_transactions (fold (confirm cr) ts c)"
proof (induction ts arbitrary: a c)
  case (Cons t ts)
  have "pending_transactions (confirm cr t a) = pending_transactions (confirm cr t c)"
      "confirmed_transactions (confirm cr t a) = confirmed_transactions (confirm cr t c)"
    unfolding confirm_fields Cons.prems by (rule refl)+
  from Cons.IH [OF this] show ?case by simp
qed simp

lemma finite_process: "finite (dom m) \<Longrightarrow> finite (dom (utxos.process cr t m))"
proof -
  have "dom (fold remove_outpoint ps m) = dom m" for ps and m :: utxo_map
    by (induction ps arbitrary: m) (auto simp: remove_outpoint_def split: option.splits)
  then show "finite (dom m) \<Longrightarrow> finite (dom (utxos.process cr t m))"
    by (simp add: utxos.process_def load_utxos_def remove_utxos_fold Let_def)
qed

lemma wf_block_inputs: "wf_block b \<Longrightarrow> \<forall>tx \<in> set (txn b). tx_in tx \<noteq> []"
  by (auto simp: wf_block_def list_all_iff wf_tx_def)

definition utxos_after :: "crypto \<Rightarrow> Block \<Rightarrow> utxo_map \<Rightarrow> utxo_map" where
  "utxos_after cr b m = fold (utxos.process cr) (txn b) m"

lemma give_me_utxos_block: "wf_block b \<Longrightarrow> give_me_utxos cr b m = Ok (utxos_after cr b m)"
  using give_me_utxos_process [OF wf_block_inputs] by (simp add: utxos_after_def)

lemma utxos_after_correct:
  assumes "wf_utxos m"
  shows "wf_utxos (utxos_after cr b m)" "utxo_view (utxos_after cr b m) = fold (apply_tx cr) (txn b) (utxo_view m)"
  using utxos.fold_process [OF assms, of cr "txn b"] by (simp_all add: utxos_after_def)

lemma finite_utxos_after: "finite (dom m) \<Longrightarrow> finite (dom (utxos_after cr b m))"
proof -
  have "finite (dom m) \<Longrightarrow> finite (dom (fold (utxos.process cr) ts m))" for ts
    by (induction ts arbitrary: m) (simp_all add: finite_process)
  then show "finite (dom m) \<Longrightarrow> finite (dom (utxos_after cr b m))"
    by (simp add: utxos_after_def)
qed

text \<open>The state in which the accounts are brought up to date.\<close>

definition with_block :: "crypto \<Rightarrow> Block \<Rightarrow> node \<Rightarrow> node" where
  "with_block cr b st =
     upd_blockchain (\<lambda>bc. bc\<lparr>headers := headers bc @ [block_header b],
        header_heights := (header_heights bc)(Block_hash cr b \<mapsto> length (headers bc)),
        bc_utxo_set := utxos_after cr b (bc_utxo_set bc)\<rparr>) st"

lemma handle_block_unfold:
  assumes "wf_block b" and "valid_block cr b" and "digest_lengths cr"
    and "header_is_not_included (block_header b) (headers (chain st))"
  shows "handle_block_message cr ord (Block_marshalling b) st =
    and_then (update_accounts_utxo_set cr ord (with_block cr b st)) (\<lambda>st.
      Ok (include_new_block cr b (contains_pending_tx cr b st)))"
proof -
  have "upd_blockchain (\<lambda>bc. bc\<lparr>bc_utxo_set := utxos_after cr b (bc_utxo_set (chain st))\<rparr>)
      (include_new_header cr (block_header b) st) = with_block cr b st"
    by (simp add: with_block_def include_new_header_def upd_blockchain_def Block_hash_def Let_def)
  moreover have "bc_utxo_set (chain (include_new_header cr (block_header b) st)) = bc_utxo_set (chain st)"
    by (simp add: include_new_header_def upd_blockchain_def Let_def)
  ultimately show ?thesis
    using assms
    by (simp add: handle_block_message_def BlockMessage_unmarshalling_def block.dec_enc_whole
        Block_validate_valid hash_lengths give_me_utxos_block Let_def)
qed

lemma handle_block_refused:
  assumes "wf_block b" and "digest_lengths cr" and "Block_validate cr b = (Ok v :: (bool \<times> string, NodeCustomErrors) result)"
    and "\<not> valid_block cr b \<or> \<not> header_is_not_included (block_header b) (headers (chain st))"
  shows "handle_block_message cr ord (Block_marshalling b) st = Ok st"
  using assms Block_validate_fst [OF hash_lengths(2) [OF assms(2)] assms(3)]
  by (auto simp: handle_block_message_def BlockMessage_unmarshalling_def block.dec_enc_whole)

lemma include_new_block_fields [simp]:
  "pointers (include_new_block cr b st) = (pointers st)\<lparr>blockchain :=
     (chain st)\<lparr>blocks := (blocks (chain st))(Block_hash cr b \<mapsto> b)\<rparr>\<rparr>"
  "sent (include_new_block cr b st) = sent st"
  "transactions_received (include_new_block cr b st) = transactions_received st"
  by (simp_all add: include_new_block_def send_event_to_ui_def upd_blockchain_def)

lemma handle_block_applied:
  assumes "wf_block b" and "valid_block cr b" and "digest_lengths cr" and "iteration_order ord"
    and "header_is_not_included (block_header b) (headers (chain st))"
    and "wf_utxos (bc_utxo_set (chain st))" and "finite (dom (bc_utxo_set (chain st)))"
    and "handle_block_message cr ord (Block_marshalling b) st = Ok st'"
  shows "block_applied cr b st st'"
proof -
  let ?m = "utxos_after cr b (bc_utxo_set (chain st))"
  have m: "bc_utxo_set (chain (with_block cr b st)) = ?m" "wf_utxos ?m" "finite (dom ?m)"
      "utxo_view ?m = fold (apply_tx cr) (txn b) (utxo_view (bc_utxo_set (chain st)))"
    using assms(6,7) by (simp_all add: with_block_def upd_blockchain_def utxos_after_correct finite_utxos_after)
  from assms(8) obtain st1 where st1: "update_accounts_utxo_set cr ord (with_block cr b st) = (Ok st1 :: (node, NodeCustomErrors) result)"
      and st': "st' = include_new_block cr b (contains_pending_tx cr b st1)"
    by (auto simp: handle_block_unfold [OF assms(1,2,3,5)] and_then_eq_Ok)
  from update_accounts_effect [OF assms(4) _ _ st1] m obtain accs where accs: "st1 = upd_accounts accs (with_block cr b st)"
      "list_all2 (\<lambda>a a'. in_sync cr ?m a' \<and> address a' = address a \<and> private_key a' = private_key a \<and>
         pending_transactions a' = pending_transactions a \<and> confirmed_transactions a' = confirmed_transactions a)
        (accounts (pointers st)) accs"
    by (auto simp: with_block_def upd_blockchain_def)
  have "list_all2 (account_after cr ?m b) (accounts (pointers st)) (map (fold (confirm cr) (txn b)) accs)"
    unfolding list_all2_map2 using accs(2)
    by (rule list_all2_mono) (use fold_confirm_cong in \<open>unfold account_after_def in_sync_def fold_confirm_keeps, metis\<close>)
  moreover obtain es where "contains_pending_tx cr b st1 =
      (upd_accounts (map (fold (confirm cr) (txn b)) (accounts (pointers st1))) st1)\<lparr>ui := ui st1 @ es\<rparr>"
    using contains_pending_effect by blast
  ultimately show ?thesis
    using m by (simp add: block_applied_def st' accs(1) upd_accounts_def with_block_def upd_blockchain_def)
qed

lemma handle_block_succeeds:
  assumes "wf_block b" and "valid_block cr b" and "digest_lengths cr"
    and "header_is_not_included (block_header b) (headers (chain st))"
    and "readable_utxos cr (utxos_after cr b (bc_utxo_set (chain st)))"
  shows "\<exists>st'. handle_block_message cr ord (Block_marshalling b) st = Ok st'"
proof -
  have "readable_utxos cr (bc_utxo_set (chain (with_block cr b st)))"
    using assms(5) by (simp add: with_block_def upd_blockchain_def)
  from update_accounts_total [where 'e = NodeCustomErrors, OF this, of ord] show ?thesis
    by (auto simp: handle_block_unfold [OF assms(1-4)])
qed

subsection \<open>Properties\<close>

text \<open>
  An \<open>inv\<close> message makes the node ask, in one \<open>getdata\<close> message, for exactly the announced
  transactions that no peer announced before, each once, and remember them; the same announcement
  from any peer afterwards changes and sends nothing.
\<close>

theorem inv_asks_each_once:
  assumes "length invs < 2 ^ 64" and "\<forall>i \<in> set invs. wf_inventory i"
  shows "\<exists>new st'. handle_inv_message cr (inventory_payload invs) st = Ok st' \<and>
    st' = st\<lparr>transactions_received := transactions_received st @ map inv_hash new,
             sent := sent st @ (if new = [] then [] else [frame cr ''getdata'' (inventory_payload new)])\<rparr> \<and>
    distinct (map inv_hash new) \<and> set new \<subseteq> set invs \<and>
    set (map inv_hash new) =
      {inv_hash i |i. i \<in> set invs \<and> type_identifier i = 1} - set (transactions_received st) \<and>
    handle_inv_message cr (inventory_payload invs) st' = Ok st'"
proof -
  let ?R = "set (transactions_received st)"
  let ?new = "fresh ?R invs"
  let ?st' = "st\<lparr>transactions_received := transactions_received st @ map inv_hash ?new, sent := sent st @ asks cr ?new\<rparr>"
  have f: "distinct (map inv_hash ?new)" "set (map inv_hash ?new) \<inter> ?R = {}"
      "set (map inv_hash ?new) \<union> ?R = {inv_hash i |i. i \<in> set invs \<and> type_identifier i = 1} \<union> ?R"
    using fresh_new [of ?R invs] by auto
  have "fresh (set (transactions_received ?st')) invs = []"
    by (rule fresh_known) (use f(3) in auto)
  then have "handle_inv_message cr (inventory_payload invs) ?st' = Ok ?st'"
    using handle_inv_effect [OF assms, of cr ?st'] by (simp add: asks_def)
  moreover have "set (map inv_hash ?new) = {inv_hash i |i. i \<in> set invs \<and> type_identifier i = 1} - ?R"
    using f(2,3) by blast
  moreover have "set ?new \<subseteq> set invs"
    using fresh_tx by blast
  ultimately show ?thesis
    using handle_inv_effect [OF assms, of cr st] f(1) by (intro exI [of _ ?new] exI [of _ ?st']) (simp add: asks_def)
qed

definition sample_node :: node where
  "sample_node = \<lparr>pointers = NodeDataPointers_new [] (Blockchain_new [] Map.empty Map.empty Map.empty) [],
     transactions_received = [], sent = [], ui = []\<rparr>"

theorem inv_asks_each_once_witness:
  "\<exists>st'. handle_inv_message sample_crypto
      (inventory_payload [Inventory_new_tx (replicate 32 1), Inventory_new_tx (replicate 32 1)]) sample_node = Ok st' \<and>
    set (transactions_received st') = {replicate 32 1}"
  using inv_asks_each_once [of "[Inventory_new_tx (replicate 32 1), Inventory_new_tx (replicate 32 1)]" sample_crypto sample_node]
  by (fastforce simp: Inventory_new_tx_def wf_inventory_def sample_node_def)

text \<open>
  The answer to a \<open>getdata\<close> message: for every requested transaction that is pending in an
  account, a \<open>tx\<close> message with it; then one write with a \<open>block\<close> message for every requested block
  that the node has and, if some block is not there, a message that names those blocks. That last
  message is not a valid \<open>notfound\<close> message: its payload is a complete \<open>inv\<close> message.
\<close>

theorem getdata_answers:
  assumes "length invs < 2 ^ 64" and "\<forall>i \<in> set invs. wf_inventory i"
  shows "handle_getdata_message cr (inventory_payload invs) st =
    Ok (st\<lparr>sent := sent st @ concat (map (tx_replies cr (pending_of st)) invs) @
           [concat (map (block_reply cr (blocks (chain st))) invs) @
            (let nf = missing (blocks (chain st)) invs in
             if nf = [] then [] else frame cr ''notfound'' (frame cr ''inv'' (inventory_payload nf)))]\<rparr>)"
  using assms by (rule handle_getdata_effect)

theorem getdata_answers_witness:
  "handle_getdata_message sample_crypto (inventory_payload [Inventory_new_block (replicate 32 1)]) sample_node =
    Ok (sample_node\<lparr>sent := [frame sample_crypto ''notfound''
          (frame sample_crypto ''inv'' (inventory_payload [Inventory_new_block (replicate 32 1)]))]\<rparr>)"
  using getdata_answers [of "[Inventory_new_block (replicate 32 1)]" sample_crypto sample_node]
  by (simp add: Inventory_new_block_def wf_inventory_def sample_node_def NodeDataPointers_new_def Blockchain_new_def
      missing_def tx_replies_def block_reply_def)

text \<open>
  The answer to a \<open>getheaders\<close> message without a stop hash: when the first locator hash stands
  at position \<open>i\<close> of the chain (position 0 when it is unknown), the node sends the headers after
  \<open>i\<close>, at most 2000, and a peer that reads the message gets them back.
\<close>

theorem getheaders_answers:
  assumes "length (first # rest) < 2 ^ 64" and "\<forall>h \<in> set (first # rest). length h = 32"
    and "get_index_of_header first st < length (headers (chain st))"
    and "list_all wf_header (headers (chain st))"
  shows "\<exists>hs. hs = take 2000 (drop (get_index_of_header first st + 1) (headers (chain st))) \<and>
    handle_getheaders_message cr (GetHeadersPayload_to_le_bytes
        \<lparr>gh_version = v, hash_count = CompactSizeUint_of_len (length (first # rest)),
         locator_hashes = first # rest, stop_hash = replicate 32 0\<rparr>) st =
      Ok (st\<lparr>sent := sent st @ [frame cr ''headers'' (headers_payload hs)]\<rparr>) \<and>
    HeadersMessage_unmarshalling (headers_payload hs) = Ok hs"
proof -
  let ?hs = "take 2000 (drop (get_index_of_header first st + 1) (headers (chain st)))"
  have "length ?hs < 2 ^ 64" and "\<forall>h \<in> set ?hs. wf_header h"
    using assms(4) by (auto simp: list_all_iff dest!: in_set_takeD in_set_dropD)
  from HeadersMessage_unmarshalling_payload [OF this]
    handle_getheaders_effect [OF read_getheaders [OF assms(1,2) _ refl] _ _ assms(3)] show ?thesis
    by auto
qed

theorem getheaders_answers_witness:
  "handle_getheaders_message sample_crypto (GetHeadersPayload_to_le_bytes
        \<lparr>gh_version = 70015, hash_count = CompactSizeUint_of_len (length [replicate 32 9 :: hash32]),
         locator_hashes = [replicate 32 9], stop_hash = replicate 32 0\<rparr>)
      (upd_blockchain (\<lambda>bc. bc\<lparr>headers := [sample_header, sample_header]\<rparr>) sample_node) =
    Ok ((upd_blockchain (\<lambda>bc. bc\<lparr>headers := [sample_header, sample_header]\<rparr>) sample_node)
        \<lparr>sent := [frame sample_crypto ''headers'' (headers_payload [sample_header])]\<rparr>)"
  using getheaders_answers [of "replicate 32 9" "[]"
      "upd_blockchain (\<lambda>bc. bc\<lparr>headers := [sample_header, sample_header]\<rparr>) sample_node" sample_crypto 70015]
  by (simp add: sample_node_def upd_blockchain_def NodeDataPointers_new_def Blockchain_new_def get_index_of_header_def
      GENESIS_BLOCK_HASH_def wf_header_def sample_header_def BlockHeader_new_def compute)

text \<open>
  A \<open>headers\<close> message that repeats a header of the chain damages the index of heights: the
  handler stores the current length of the chain as the height of every header of the message, the
  known ones too. Afterwards the header is not found by a search although it is still in the chain,
  and a \<open>getheaders\<close> message that starts from it makes the listening thread panic.
\<close>

theorem headers_repeat_breaks_search:
  assumes "digest_lengths cr" and "wf_header h" and "3 \<le> bits_exponent h"
    and "Blockchain_search_header (chain st) (BlockHeader_hash cr h) = Some (h, i)"
    and "BlockHeader_hash cr h \<noteq> GENESIS_BLOCK_HASH"
  shows "\<exists>st'. handle_headers_message cr (headers_payload [h]) st = Ok st' \<and> h \<in> set (headers (chain st')) \<and>
    Blockchain_search_header (chain st') (BlockHeader_hash cr h) = None \<and>
    handle_getheaders_message cr (GetHeadersPayload_to_le_bytes
        \<lparr>gh_version = v, hash_count = CompactSizeUint_of_len 1,
         locator_hashes = [BlockHeader_hash cr h], stop_hash = replicate 32 0\<rparr>) st' = Panic"
proof -
  let ?st = "upd_blockchain (\<lambda>bc. bc\<lparr>header_heights := heights_after cr [h] bc\<rparr>)
      (st\<lparr>sent := sent st @ announces cr (headers (chain st)) h\<rparr>)"
  have e: "handle_headers_message cr (headers_payload [h]) st = Ok ?st"
    using handle_headers_effect [OF assms(1), of "[h]" st] assms(2,3) by simp
  have "h \<in> set (headers (chain st))"
    using assms(4) by (auto simp: Blockchain_search_header_def split: option.splits if_splits)
  moreover have n: "header_heights (chain ?st) (BlockHeader_hash cr h) = Some (length (headers (chain ?st)))"
    by (simp add: upd_blockchain_def heights_after_def)
  moreover have "get_index_of_header (BlockHeader_hash cr h) ?st = length (headers (chain ?st))"
    using assms(5) n by (simp add: get_index_of_header_def)
  then have "handle_getheaders_message cr (GetHeadersPayload_to_le_bytes
        \<lparr>gh_version = v, hash_count = CompactSizeUint_of_len 1,
         locator_hashes = [BlockHeader_hash cr h], stop_hash = replicate 32 0\<rparr>) ?st = Panic"
    using handle_getheaders_beyond [OF read_getheaders [of "[BlockHeader_hash cr h]" "replicate 32 0" _ v, OF _ _ _ refl]]
      hash_lengths(1) [OF assms(1)] by simp
  ultimately show ?thesis
    using e by (auto simp: Blockchain_search_header_def upd_blockchain_def)
qed

theorem headers_repeat_breaks_search_witness:
  "\<exists>st'. handle_headers_message sample_crypto (headers_payload [sample_header])
      (include_new_header sample_crypto sample_header sample_node) = Ok st' \<and>
    Blockchain_search_header (chain st') (BlockHeader_hash sample_crypto sample_header) = None"
proof -
  have "Blockchain_search_header (chain (include_new_header sample_crypto sample_header sample_node))
      (BlockHeader_hash sample_crypto sample_header) = Some (sample_header, 0)"
    by (simp add: Blockchain_search_header_def include_new_header_def upd_blockchain_def sample_node_def
        NodeDataPointers_new_def Blockchain_new_def Let_def)
  moreover have "wf_header sample_header"
    by (simp add: wf_header_def sample_header_def BlockHeader_new_def)
  moreover have "BlockHeader_hash sample_crypto sample_header \<noteq> GENESIS_BLOCK_HASH"
    by (simp add: sample_header_hash GENESIS_BLOCK_HASH_def)
  moreover have "3 \<le> bits_exponent sample_header"
    by (simp add: sample_header_bits)
  ultimately show ?thesis
    using headers_repeat_breaks_search [OF sample_digest_lengths] by blast
qed

text \<open>
  A transaction from the network becomes pending exactly in the accounts that one of its outputs
  concerns and that do not list it already, once per account; nothing else of the accounts changes,
  nor the chain, nor the channel.
\<close>

theorem tx_message_notes:
  assumes "wf_tx t" and "list_all (readable_output cr) (tx_out t)"
  shows "\<exists>st'. handle_tx_message cr (Transaction_marshalling t) st = Ok st' \<and>
    chain st' = chain st \<and> sent st' = sent st \<and>
    accounts (pointers st') =
      map (\<lambda>a. if t \<notin> set (pending_transactions a) \<and> (\<exists>out \<in> set (tx_out t). concerns cr out a)
               then a\<lparr>pending_transactions := pending_transactions a @ [t]\<rparr> else a) (accounts (pointers st))"
proof -
  have "\<forall>out \<in> set (tx_out t). TxOut_get_address cr out \<noteq> Panic"
    using assms(2) by (simp add: list_all_iff readable_output_def)
  from handle_tx_effect [OF assms(1) this, of st] show ?thesis
    by (auto simp: upd_accounts_def note_tx_def)
qed

lemma sample_tx_wf: "wf_tx sample_tx"
  by (simp add: wf_tx_def sample_tx_def Transaction_new_def wf_txin_def TxIn_is_coinbase_def incomplete_txin_def
      TxIn_new_def Outpoint_new_def CompactSizeUint_new_wf is_a_coinbase_outpoint_def wf_outpoint_def SigScript_new_def compute)

theorem tx_message_notes_witness:
  "\<exists>st'. handle_tx_message sample_crypto (Transaction_marshalling sample_tx) sample_node = Ok st' \<and> chain st' = chain sample_node"
  using tx_message_notes [OF sample_tx_wf, of sample_crypto sample_node]
  by (auto simp: sample_tx_def Transaction_new_def)

text \<open>
  C12. A new valid block from the network is taken in: the handler returns, the header is appended to
  the chain, the block and its height are found under its hash, the UTXO set is the previous one
  with the block's transactions applied, every account holds exactly its share of the new set, and
  the transactions of the block move from pending to confirmed.
\<close>

theorem block_message_applied:
  assumes "wf_block b" and "valid_block cr b" and "digest_lengths cr" and "iteration_order ord"
    and "header_is_not_included (block_header b) (headers (chain st))"
    and "wf_utxos (bc_utxo_set (chain st))" and "finite (dom (bc_utxo_set (chain st)))"
    and "readable_utxos cr (utxos_after cr b (bc_utxo_set (chain st)))"
  shows "\<exists>st'. handle_block_message cr ord (Block_marshalling b) st = Ok st' \<and> block_applied cr b st st' \<and>
    Blockchain_search_block (chain st') (Block_hash cr b) = Some b \<and>
    Blockchain_search_header (chain st') (Block_hash cr b) = Some (block_header b, length (headers (chain st)))"
proof -
  from handle_block_succeeds [OF assms(1-3,5,8)] obtain st' where
    st': "handle_block_message cr ord (Block_marshalling b) st = Ok st'"
    by blast
  from handle_block_applied [OF assms(1-7) this] st' show ?thesis
    by (intro exI [of _ st'])
      (simp add: block_applied_def Blockchain_search_block_def Blockchain_search_header_def nth_append)
qed

text \<open>An iteration order: the keys in lexicographic order.\<close>

definition sorted_order :: "utxo_map \<Rightarrow> hash32 list" where
  "sorted_order m = sorted_list_of_set (dom m)"

lemma sorted_order_iterates: "iteration_order sorted_order"
  by (simp add: iteration_order_def sorted_order_def)

lemma sample_block_wf: "wf_block sample_block"
  using sample_tx_wf
  by (simp add: wf_block_def sample_block_def Block_new_def wf_header_def sample_header_def BlockHeader_new_def
      CompactSizeUint_new_wf)

lemma sample_block_valid: "valid_block sample_crypto sample_block"
proof -
  have "length (Block_marshalling sample_block) \<le> 1048576"
    by (simp add: sample_block_def Block_new_def Block_marshalling_def sample_tx_bytes
        BlockHeader_marshalling_def sample_header_def BlockHeader_new_def
        CompactSizeUint_marshalling_def CompactSizeUint_value_def CompactSizeUint_new_def generate_cases)
  moreover have "meets_target sample_crypto sample_header"
    by (simp add: meets_target_def sample_header_hash sample_header_bits)
  ultimately show ?thesis
    using sample_block_root by (simp add: valid_block_def sample_block_def Block_new_def)
qed

lemma sample_block_readable: "readable_utxos sample_crypto (utxos_after sample_crypto sample_block Map.empty)"
  by (simp add: readable_utxos_def utxos_after_def sample_block_def Block_new_def utxos.process_def load_utxos_def
      remove_utxos_def sample_tx_def Transaction_new_def UtxoTuple_new_def Let_def)

theorem block_message_applied_witness:
  "\<exists>st'. handle_block_message sample_crypto sorted_order (Block_marshalling sample_block) sample_node = Ok st' \<and>
    Blockchain_search_header (chain st') (Block_hash sample_crypto sample_block) = Some (sample_header, 0)"
  using block_message_applied [OF sample_block_wf sample_block_valid sample_digest_lengths sorted_order_iterates,
      of sample_node] sample_block_readable
  by (simp add: sample_node_def NodeDataPointers_new_def Blockchain_new_def header_is_not_included_def wf_utxos_def)
    (auto simp: sample_block_def Block_new_def)

text \<open>
  A block that is not valid, or whose header is among the last ten of the chain, changes
  nothing.
\<close>

theorem block_message_ignored:
  assumes "wf_block b" and "digest_lengths cr"
    and "Block_validate cr b = (Ok v :: (bool \<times> string, NodeCustomErrors) result)"
    and "\<not> valid_block cr b \<or> \<not> header_is_not_included (block_header b) (headers (chain st))"
  shows "handle_block_message cr ord (Block_marshalling b) st = Ok st"
  using assms by (rule handle_block_refused)

theorem block_message_ignored_witness:
  "handle_block_message sample_crypto sorted_order (Block_marshalling sample_block)
      (include_new_header sample_crypto sample_header sample_node) =
    Ok (include_new_header sample_crypto sample_header sample_node)"
proof (rule block_message_ignored [OF sample_block_wf sample_digest_lengths])
  show "Block_validate sample_crypto sample_block = Ok (True, ''Valid block'')"
    using Block_validate_valid [OF hash_lengths(2) [OF sample_digest_lengths] sample_block_valid] .
qed (simp add: include_new_header_def upd_blockchain_def sample_node_def NodeDataPointers_new_def Blockchain_new_def
    header_is_not_included_def sample_block_def Block_new_def Let_def)

text \<open>
  C28. A block confirms exactly the pending transactions that it contains: for an account whose
  pending transactions are distinct and have distinct ids, they leave the pending list (the others
  stay, in order) and join the confirmed ones; keys, address and unspent outputs are untouched.
\<close>

theorem block_confirms_pending:
  assumes "i < length (accounts (pointers st))" and "a = accounts (pointers st) ! i"
    and "inj_on (Transaction_hash cr) (set (pending_transactions a))" and "distinct (pending_transactions a)"
  shows "\<exists>a'. accounts (pointers (contains_pending_tx cr b st)) ! i = a' \<and>
    pending_transactions a' = filter (\<lambda>u. u \<notin> set (txn b)) (pending_transactions a) \<and>
    set (confirmed_transactions a') = set (confirmed_transactions a) \<union> (set (pending_transactions a) \<inter> set (txn b)) \<and>
    address a' = address a \<and> private_key a' = private_key a \<and> utxo_set a' = utxo_set a"
proof -
  obtain es where "contains_pending_tx cr b st =
      (upd_accounts (map (fold (confirm cr) (txn b)) (accounts (pointers st))) st)\<lparr>ui := ui st @ es\<rparr>"
    using contains_pending_effect by blast
  then have "accounts (pointers (contains_pending_tx cr b st)) ! i = fold (confirm cr) (txn b) a"
    using assms(1,2) by (simp add: upd_accounts_def)
  with fold_confirm_exact [OF assms(3,4), of "txn b"] fold_confirm_keeps(1-3) [of cr "txn b" a] show ?thesis
    by simp
qed

theorem block_confirms_pending_witness:
  "\<exists>a'. accounts (pointers (contains_pending_tx sample_crypto sample_block
       (upd_accounts [sample_account\<lparr>pending_transactions := [sample_tx]\<rparr>] sample_node))) ! 0 = a' \<and>
     pending_transactions a' = []"
  using block_confirms_pending [of 0 "upd_accounts [sample_account\<lparr>pending_transactions := [sample_tx]\<rparr>] sample_node"
      _ sample_crypto sample_block]
  by (simp add: upd_accounts_def sample_block_def Block_new_def)

end
