(* ===== verification/Download.thy ===== *)
theory Download
  imports Remote Node_State
begin

section \<open>The state of the initial download (src/blockchain\_download/utils.rs, mod.rs)\<close>

text \<open>
  What the threads of the initial download share. A call changes the shared data as it goes and may
  then fail, so it is an \<open>action\<close>: it returns its result and the state, also when it fails. The two
  channels are the lists of what was sent and not yet received; the channel to the block download is
  open while its receiver exists. A lock that cannot be taken (only after a panic) is not modelled,
  nor is logging.
\<close>

record download =
  dl_headers :: "BlockHeader list"
  dl_heights :: "hash32 \<rightharpoonup> nat"
  dl_nodes :: "remote list"
  dl_blocks :: "hash32 \<rightharpoonup> Block"
  dl_queue :: "BlockHeader list list"
  dl_queue_open :: bool
  dl_utxo_queue :: "Block list list"
  dl_file :: bytes
  dl_ui :: "UIEvent list"

type_synonym 'a action = "download \<Rightarrow> ('a, NodeCustomErrors) result \<times> download"

definition act_then :: "'a action \<Rightarrow> ('a \<Rightarrow> 'b action) \<Rightarrow> 'b action" where
  "act_then m f s =
     (case m s of
        (Ok x, s) \<Rightarrow> f x s
      | (Err e, s) \<Rightarrow> (Err e, s)
      | (Panic, s) \<Rightarrow> (Panic, s))"

definition lift :: "('a, NodeCustomErrors) result \<Rightarrow> 'a action" where
  "lift r s = (r, s)"

definition modify :: "(download \<Rightarrow> download) \<Rightarrow> unit action" where
  "modify f s = (Ok (), f s)"

definition inspect :: "(download \<Rightarrow> ('a, NodeCustomErrors) result) \<Rightarrow> 'a action" where
  "inspect f s = (f s, s)"

named_theorems action_simps \<comment> \<open>the actions of the download, unfolded\<close>

lemmas [action_simps] = lift_def modify_def inspect_def

lemma act_then_cong [fundef_cong]:
  "\<lbrakk>s = s'; m s' = m' s'; \<And>x t. m' s' = (Ok x, t) \<Longrightarrow> f x t = f' x t\<rbrakk> \<Longrightarrow> act_then m f s = act_then m' f' s'"
  by (auto simp: act_then_def split: prod.splits result.splits)

lemma act_then_eq_Ok:
  "act_then m f s = (Ok y, s') \<longleftrightarrow> (\<exists>x t. m s = (Ok x, t) \<and> f x t = (Ok y, s'))"
  by (auto simp: act_then_def split: prod.splits result.splits)

lemma act_then_eq_Err:
  "act_then m f s = (Err e, s') \<longleftrightarrow> m s = (Err e, s') \<or> (\<exists>x t. m s = (Ok x, t) \<and> f x t = (Err e, s'))"
  by (auto simp: act_then_def split: prod.splits result.splits)

lemma act_then_eq_Panic:
  "act_then m f s = (Panic, s') \<longleftrightarrow> m s = (Panic, s') \<or> (\<exists>x t. m s = (Ok x, t) \<and> f x t = (Panic, s'))"
  by (auto simp: act_then_def split: prod.splits result.splits)

lemma act_then_Ok [simp]: "m s = (Ok x, t) \<Longrightarrow> act_then m f s = f x t"
  by (simp add: act_then_def)

lemma act_then_lift [action_simps]:
  "act_then (lift (Ok x)) f s = f x s" "act_then (lift (Err e)) f s = (Err e, s)"
  "act_then (lift Panic) f s = (Panic, s)"
  by (simp_all add: act_then_def lift_def)

lemma act_then_modify [action_simps]: "act_then (modify g) f s = f () (g s)"
  by (simp add: act_then_def modify_def)

lemma act_then_assoc [action_simps]: "act_then (act_then m f) h s = act_then m (\<lambda>x. act_then (f x) h) s"
  by (auto simp: act_then_def split: prod.splits result.splits)

text \<open>A relation between the states before and after that every part of an action keeps.\<close>

definition steps_by :: "(download \<Rightarrow> download \<Rightarrow> bool) \<Rightarrow> 'a action \<Rightarrow> bool" where
  "steps_by R m \<longleftrightarrow> (\<forall>s. R s (snd (m s)))"

lemma steps_by_then:
  assumes "\<And>s t u. R s t \<Longrightarrow> R t u \<Longrightarrow> R s u" and "steps_by R m" and "\<And>x. steps_by R (f x)"
  shows "steps_by R (act_then m f)"
  unfolding steps_by_def
proof
  fix s
  obtain r t where m: "m s = (r, t)" by fastforce
  with assms(2) have st: "R s t" by (metis snd_conv steps_by_def)
  show "R s (snd (act_then m f s))"
  proof (cases r)
    case (Ok x)
    then show ?thesis
      using assms(1) [OF st] assms(3) [of x] m by (simp add: act_then_def steps_by_def)
  qed (use m st in \<open>simp_all add: act_then_def\<close>)
qed

lemma steps_by_run: "steps_by R m \<Longrightarrow> m s = (r, t) \<Longrightarrow> R s t"
  by (metis snd_conv steps_by_def)

subsection \<open>Nodes and amounts\<close>

definition get_node :: "remote action" where
  "get_node s =
     (if dl_nodes s = [] then (Err (BlockchainDownloadError ''Error there are no more nodes available''), s)
      else (Ok (last (dl_nodes s)), s\<lparr>dl_nodes := butlast (dl_nodes s)\<rparr>))"

definition return_node_to_vec :: "remote \<Rightarrow> unit action" where
  "return_node_to_vec node = modify (\<lambda>s. s\<lparr>dl_nodes := dl_nodes s @ [node]\<rparr>)"

definition amount_of_headers :: "download \<Rightarrow> nat" where
  "amount_of_headers s = length (dl_headers s)"

definition amount_of_blocks :: "download \<Rightarrow> nat" where
  "amount_of_blocks s = card (dom (dl_blocks s))"

definition get_amount_of_headers_and_blocks :: "download \<Rightarrow> nat \<times> nat" where
  "get_amount_of_headers_and_blocks s = (amount_of_headers s, amount_of_blocks s)"

text \<open>
  \<open>join_threads\<close> waits for the threads in order: each is its result, or still runs (\<open>None\<close>).
\<close>

fun join_threads :: "(unit, NodeCustomErrors) result option list \<Rightarrow> (unit, NodeCustomErrors) result option" where
  "join_threads [] = Some (Ok ())"
| "join_threads (None # hs) = None"
| "join_threads (Some (Ok _) # hs) = join_threads hs"
| "join_threads (Some (Err e) # hs) = Some (Err e)"
| "join_threads (Some Panic # hs) = Some (Err (ThreadJoinError ''Any { .. }''))"

lemma join_threads_Ok: "join_threads hs = Some (Ok u) \<Longrightarrow> h \<in> set hs \<Longrightarrow> \<exists>r. h = Some (Ok r)"
  by (induction hs rule: join_threads.induct) auto

subsection \<open>Sending headers to the block download, and events\<close>

definition send_headers :: "BlockHeader list \<Rightarrow> unit action" where
  "send_headers hs s =
     (if dl_queue_open s then (Ok (), s\<lparr>dl_queue := dl_queue s @ [hs]\<rparr>)
      else (Err (ThreadChannelError ''sending on a closed channel''), s))"

definition send_ui :: "UIEvent \<Rightarrow> unit action" where
  "send_ui event = modify (\<lambda>s. s\<lparr>dl_ui := dl_ui s @ [event]\<rparr>)"

lemmas [action_simps] = send_headers_def send_ui_def return_node_to_vec_def

end
