(* ===== verification/Headers_Download.thy ===== *)
theory Headers_Download
  imports Download
begin

section \<open>Downloading the headers (src/blockchain\_download/headers\_download.rs)\<close>

text \<open>
  The headers of the chain come from the file of an earlier run or from a peer, in batches; each
  batch that is valid is appended to the shared list, and, from the configured date on, sent to the
  block download. A peer that fails is dropped and another one is asked. The parser of dates
  (\<open>chrono\<close>) is the argument \<open>parse_date\<close>: text and format to seconds.
\<close>

definition HEADERS_MESSAGE_SIZE :: nat where
  "HEADERS_MESSAGE_SIZE = 162003"

definition GENESIS_BLOCK_HEADER :: BlockHeader where
  "GENESIS_BLOCK_HEADER =
     \<lparr>bh_version = 1, previous_block_header_hash = replicate 32 0,
      merkle_root_hash =
        [59, 163, 237, 253, 122, 123, 18, 178, 122, 199, 44, 62, 103, 118, 143, 97, 127, 200, 27,
         195, 136, 138, 81, 50, 58, 159, 184, 170, 75, 30, 94, 74],
      bh_time = 1296677802, n_bits = 486604799, nonce = 414098458\<rparr>"

subsection \<open>Auxiliary functions\<close>

definition get_last_hash_header_downloaded :: "crypto \<Rightarrow> hash32 action" where
  "get_last_hash_header_downloaded cr = inspect (\<lambda>s.
     if dl_headers s = [] then
       Err (BlockchainDownloadError (''Error, there are not headers downloaded!'' @ [CHR 0x0A]))
     else if last (dl_headers s) = GENESIS_BLOCK_HEADER then Ok GENESIS_BLOCK_HASH
     else Ok (BlockHeader_hash cr (last (dl_headers s))))"

definition request_headers_from_node :: "crypto \<Rightarrow> Config \<Rightarrow> remote \<Rightarrow> remote action" where
  "request_headers_from_node cr config node =
     act_then (get_last_hash_header_downloaded cr) (\<lambda>last_hash_header_downloaded.
     lift (map_err WriteNodeError
       (sending (GetHeadersMessage_write_to (build_getheaders_message cr config [last_hash_header_downloaded])) node)))"

definition receive_headers_from_node :: "crypto \<Rightarrow> remote \<Rightarrow> (BlockHeader list \<times> remote) action" where
  "receive_headers_from_node cr node =
     lift (map_err (\<lambda>_. BlockchainDownloadError ''Error trying to read headers'')
       (receiving (\<lambda>st. HeadersMessage_read_from cr st None 0) node))"

fun validate_headers :: "crypto \<Rightarrow> BlockHeader list \<Rightarrow> (unit, NodeCustomErrors) result" where
  "validate_headers cr [] = Ok ()"
| "validate_headers cr (header # hs) =
     and_then (BlockHeader_validate cr header) (\<lambda>valid.
     if \<not> valid then Err (InvalidHeaderError ''partial validation of header is invalid!'')
     else validate_headers cr hs)"

definition store_headers_in_local_headers_vec :: "crypto \<Rightarrow> BlockHeader list \<Rightarrow> unit action" where
  "store_headers_in_local_headers_vec cr headers_read =
     act_then (lift (validate_headers cr headers_read)) (\<lambda>_.
     modify (\<lambda>s. s\<lparr>dl_headers := dl_headers s @ headers_read\<rparr>))"

definition load_heights :: "crypto \<Rightarrow> BlockHeader list \<Rightarrow> unit action" where
  "load_heights cr hs = modify (\<lambda>s. s\<lparr>dl_heights := load_header_heights cr hs (dl_heights s) (dl_headers s)\<rparr>)"

definition get_first_block_timestamp ::
  "(string \<Rightarrow> string \<Rightarrow> (int, string) result) \<Rightarrow> Config \<Rightarrow> (u32, NodeCustomErrors) result" where
  "get_first_block_timestamp parse_date config =
     and_then (map_err OtherError (parse_date (first_block_date config) (date_format config))) (\<lambda>date_time.
     Ok (of_int date_time))"

definition first_block_to_download_is_in_headers ::
  "(string \<Rightarrow> string \<Rightarrow> (int, string) result) \<Rightarrow> Config \<Rightarrow> BlockHeader list \<Rightarrow> (bool, NodeCustomErrors) result"
where
  "first_block_to_download_is_in_headers parse_date config hs =
     and_then (get_first_block_timestamp parse_date config) (\<lambda>block_timestamp.
     if hs = [] then Err (OtherError ''Can not get last header'')
     else Ok (block_timestamp \<le> bh_time (last hs)))"

text \<open>The loop of \<open>search_first_header_block_to_download\<close>; \<open>found\<close> is the caller's flag.\<close>

fun keep_from :: "u32 \<Rightarrow> BlockHeader list \<Rightarrow> bool \<Rightarrow> BlockHeader list \<times> bool" where
  "keep_from ts [] found = ([], found)"
| "keep_from ts (header # hs) found =
     (let found = (found \<or> ts \<le> bh_time header);
          (rest, found') = keep_from ts hs found
      in (if found then header # rest else rest, found'))"

definition search_first_header_block_to_download ::
  "(string \<Rightarrow> string \<Rightarrow> (int, string) result) \<Rightarrow> Config \<Rightarrow> BlockHeader list \<Rightarrow> bool \<Rightarrow>
     (BlockHeader list \<times> bool, NodeCustomErrors) result" where
  "search_first_header_block_to_download parse_date config hs found =
     and_then (get_first_block_timestamp parse_date config) (\<lambda>ts. Ok (keep_from ts hs found))"

definition download_blocks_in_other_thread :: "BlockHeader list \<Rightarrow> unit action" where
  "download_blocks_in_other_thread headers_read = send_headers headers_read"

definition download_first_blocks_in_other_thread ::
  "(string \<Rightarrow> string \<Rightarrow> (int, string) result) \<Rightarrow> Config \<Rightarrow> BlockHeader list \<Rightarrow> bool \<Rightarrow> bool action" where
  "download_first_blocks_in_other_thread parse_date config headers_read first_block_found =
     act_then (lift (map_err (\<lambda>e. FirstBlockNotFoundError (display_error e))
         (search_first_header_block_to_download parse_date config headers_read first_block_found)))
       (\<lambda>(first_block_headers_to_download, found).
     act_then (send_ui StartDownloadingBlocks) (\<lambda>_.
     act_then (download_blocks_in_other_thread first_block_headers_to_download) (\<lambda>_.
     lift (Ok found))))"

subsection \<open>Headers on disk\<close>

text \<open>
  \<open>contents\<close> is the outcome of opening and reading the file. Each turn takes the bytes of one message
  of 2000 headers; what is read is not validated.
\<close>

function read_messages ::
  "crypto \<Rightarrow> bytes \<Rightarrow> nat \<Rightarrow> nat \<Rightarrow> unit action" where
  "read_messages cr contents i amt s =
     (if i < length contents then
        act_then (lift (slice contents i (i + HEADERS_MESSAGE_SIZE))) (\<lambda>message_bytes.
        act_then (lift (map_err UnmarshallingError (HeadersMessage_unmarshalling message_bytes))) (\<lambda>unmarshalled_headers.
        act_then (load_heights cr unmarshalled_headers) (\<lambda>_.
        act_then (modify (\<lambda>s. s\<lparr>dl_headers := dl_headers s @ unmarshalled_headers\<rparr>)) (\<lambda>_.
        act_then (send_ui (UpdateHeadersDownloaded (amt + 2000))) (\<lambda>_.
        read_messages cr contents (i + HEADERS_MESSAGE_SIZE) (amt + 2000)))))) s
      else (Ok (), s))"
  by pat_completeness auto
termination
  by (relation "measure (\<lambda>(cr, contents, i, amt, s). length contents - i)") (auto simp: HEADERS_MESSAGE_SIZE_def)

declare read_messages.simps [simp del]

definition read_headers_from_disk_act :: "crypto \<Rightarrow> (bytes, NodeCustomErrors) result \<Rightarrow> unit action" where
  "read_headers_from_disk_act cr contents =
     act_then (send_ui StartDownloadingHeaders) (\<lambda>_.
     act_then (lift contents) (\<lambda>contents.
     read_messages cr contents 0 0))"

definition receive_and_persist_initial_headers_from_node ::
  "crypto \<Rightarrow> remote \<Rightarrow> (BlockHeader list \<times> remote) action" where
  "receive_and_persist_initial_headers_from_node cr node s =
     (case read_from_node_and_write_to_file cr (stream node) None 0 (dl_file s) of
        Ok (hs, st, file) \<Rightarrow> (Ok (hs, node\<lparr>stream := st\<rparr>), s\<lparr>dl_file := file\<rparr>)
      | Err _ \<Rightarrow> (Err (BlockchainDownloadError ''Error trying to read and save headers in disk''), s)
      | Panic \<Rightarrow> (Panic, s))"


subsection \<open>What a part of the header download changes\<close>

text \<open>
  It leaves the nodes, the blocks and the UTXO channel alone, adds headers (each with the property
  \<open>P\<close>) at the end of the list, and adds to the queue of the block download.
\<close>

definition headers_by :: "(BlockHeader \<Rightarrow> bool) \<Rightarrow> download \<Rightarrow> download \<Rightarrow> bool" where
  "headers_by P s t \<longleftrightarrow> dl_nodes t = dl_nodes s \<and> dl_blocks t = dl_blocks s \<and>
     dl_utxo_queue t = dl_utxo_queue s \<and> dl_queue_open t = dl_queue_open s \<and>
     (\<exists>new. dl_headers t = dl_headers s @ new \<and> list_all P new) \<and> (\<exists>q. dl_queue t = dl_queue s @ q)"

lemma headers_by_refl [simp]: "headers_by P s s"
  by (simp add: headers_by_def)

lemma headers_by_trans: "headers_by P s t \<Longrightarrow> headers_by P t u \<Longrightarrow> headers_by P s u"
  unfolding headers_by_def by fastforce

named_theorems header_steps \<comment> \<open>parts of the header download keep \<open>headers_by\<close>\<close>

lemmas [header_steps] = steps_by_then [where R = "headers_by P" for P, OF headers_by_trans]

lemma header_steps_basic [header_steps]:
  "steps_by (headers_by P) (lift r)" "steps_by (headers_by P) (inspect f)"
  "steps_by (headers_by P) (send_ui e)" "steps_by (headers_by P) (\<lambda>s. send_ui (g s) s)"
  "steps_by (headers_by P) (send_headers hs)" "steps_by (headers_by P) (load_heights cr hs)"
  by (auto simp: steps_by_def headers_by_def action_simps load_heights_def)

text \<open>A header that \<open>BlockHeader::validate\<close> has accepted.\<close>

definition checked :: "crypto \<Rightarrow> BlockHeader \<Rightarrow> bool" where
  "checked cr h \<longleftrightarrow> BlockHeader_validate cr h = (Ok True :: (bool, NodeCustomErrors) result)"

lemma validate_headers_Ok: "validate_headers cr hs = Ok u \<longleftrightarrow> list_all (checked cr) hs"
  by (induction hs) (auto simp: and_then_eq_Ok checked_def)

lemma store_headers_eq:
  "store_headers_in_local_headers_vec cr hs s = (Ok u, s') \<longleftrightarrow>
     list_all (checked cr) hs \<and> s' = s\<lparr>dl_headers := dl_headers s @ hs\<rparr>"
  by (auto simp: store_headers_in_local_headers_vec_def act_then_eq_Ok action_simps validate_headers_Ok)

lemma store_headers_steps [header_steps]:
  "steps_by (headers_by (checked cr)) (store_headers_in_local_headers_vec cr hs)"
proof -
  have "headers_by (checked cr) s (snd (store_headers_in_local_headers_vec cr hs s))" for s
    by (cases "validate_headers cr hs")
      (auto simp: store_headers_in_local_headers_vec_def act_then_def action_simps headers_by_def
        dest: validate_headers_Ok [THEN iffD1])
  then show ?thesis by (simp add: steps_by_def)
qed

lemma request_headers_steps [header_steps]: "steps_by (headers_by P) (request_headers_from_node cr config node)"
  by (simp add: request_headers_from_node_def get_last_hash_header_downloaded_def header_steps)

lemma receive_headers_steps [header_steps]: "steps_by (headers_by P) (receive_headers_from_node cr node)"
  by (simp add: receive_headers_from_node_def header_steps)

lemma receive_and_persist_steps [header_steps]:
  "steps_by (headers_by P) (receive_and_persist_initial_headers_from_node cr node)"
  by (auto simp: steps_by_def headers_by_def receive_and_persist_initial_headers_from_node_def
      split: result.splits)

lemma first_blocks_steps [header_steps]:
  "steps_by (headers_by P) (download_first_blocks_in_other_thread parse_date config hs found)"
  by (auto simp: download_first_blocks_in_other_thread_def download_blocks_in_other_thread_def
      intro!: header_steps split: prod.splits)

subsection \<open>Every message that is received is taken off the input\<close>

lemma read_loop_inp: "read_loop cr w fin k h st = Ok (h', st') \<Longrightarrow> length (inp st') \<le> length (inp st)"
proof (induction cr w fin k h st arbitrary: h' st' rule: read_loop.induct)
  case (1 cr w fin k h st)
  show ?case
  proof (cases "command_name h \<noteq> w \<and> \<not> is_terminated fin k")
    case False
    with "1.prems" show ?thesis by (simp add: read_loop.simps [of cr w fin k])
  next
    case True
    with "1.prems" obtain p st1 st2 b st3 h2 where
        r: "read_payload st h = (Ok (p, st1) :: (bytes \<times> tcp, string) result)"
          "(if str_contains (command_name h) ''ping'' then write_pong_message cr p st1 else Ok st1) =
             (Ok st2 :: (tcp, string) result)"
          "read_exact 24 st2 = Ok (b, st3)" "HeaderMessage_from_le_bytes b = Ok h2"
        and l: "read_loop cr w fin (k + 1) h2 st3 = Ok (h', st')"
      by (auto simp: read_loop.simps [of cr w fin k] and_then_eq_Ok)
    have "length (inp st') \<le> length (inp st3)"
      by (rule "1.IH" [OF True r(1) refl r(2) r(3) refl r(4) l])
    with r read_exact_shorter [OF r(3)] show ?thesis
      by (auto simp: read_payload_def dest!: read_exact_shorter write_pong_inp split: if_splits)
  qed
qed

lemma HeaderMessage_read_from_inp:
  "HeaderMessage_read_from cr st name fin = Ok (h, st') \<Longrightarrow> length (inp st') < length (inp st)"
  by (auto simp: HeaderMessage_read_from_def and_then_eq_Ok dest!: read_loop_inp read_exact_shorter)

lemma HeadersMessage_read_from_inp:
  "HeadersMessage_read_from cr st fin k = Ok (hs, st') \<Longrightarrow> length (inp st') < length (inp st)"
  by (auto simp: HeadersMessage_read_from_def and_then_eq_Ok
      dest!: HeaderMessage_read_from_inp read_exact_shorter split: if_splits)

lemma read_from_node_inp:
  "read_from_node_and_write_to_file cr st fin k file = Ok (hs, st', file') \<Longrightarrow> length (inp st') < length (inp st)"
  by (auto simp: read_from_node_and_write_to_file_def and_then_eq_Ok
      dest!: HeaderMessage_read_from_inp read_exact_shorter split: if_splits)

abbreviation unread :: "remote \<Rightarrow> nat" where
  "unread node \<equiv> length (inp (stream node))"

lemma request_headers_unread:
  "request_headers_from_node cr config node s = (Ok node', s') \<Longrightarrow> unread node' = unread node \<and> s' = s"
  by (auto simp: request_headers_from_node_def act_then_eq_Ok get_last_hash_header_downloaded_def
      inspect_def lift_def sending_def GetHeadersMessage_write_to_def and_then_eq_Ok write_all_def
      split: if_splits option.splits nat.splits)

lemma receive_headers_unread:
  "receive_headers_from_node cr node s = (Ok (hs, node'), s') \<Longrightarrow> unread node' < unread node \<and> s' = s"
  by (auto simp: receive_headers_from_node_def lift_def receiving_def and_then_eq_Ok
      dest!: HeadersMessage_read_from_inp)

definition persist_turn :: "crypto \<Rightarrow> Config \<Rightarrow> remote \<Rightarrow> remote action" where
  "persist_turn cr config node =
     act_then (request_headers_from_node cr config node) (\<lambda>node.
     act_then (receive_and_persist_initial_headers_from_node cr node) (\<lambda>(headers_read, node).
     act_then (load_heights cr headers_read) (\<lambda>_.
     act_then (store_headers_in_local_headers_vec cr headers_read) (\<lambda>_.
     act_then (\<lambda>s. send_ui (UpdateHeadersDownloaded (amount_of_headers s)) s) (\<lambda>_.
     lift (Ok node))))))"

lemma receive_and_persist_unread:
  "receive_and_persist_initial_headers_from_node cr node s = (Ok (hs, node'), s') \<Longrightarrow> unread node' < unread node"
  by (auto simp: receive_and_persist_initial_headers_from_node_def
      dest!: read_from_node_inp split: result.split_asm)

lemma persist_turn_unread:
  "persist_turn cr config node s = (Ok node', s') \<Longrightarrow> unread node' < unread node"
  by (auto simp: persist_turn_def act_then_eq_Ok lift_def
      dest!: request_headers_unread receive_and_persist_unread split: prod.splits)

function download_and_persist_initial_headers_from_node :: "crypto \<Rightarrow> Config \<Rightarrow> remote \<Rightarrow> remote action" where
  "download_and_persist_initial_headers_from_node cr config node s =
     (if length (dl_headers s) < headers_in_disk config
      then act_then (persist_turn cr config node) (download_and_persist_initial_headers_from_node cr config) s
      else (Ok node, s))"
  by pat_completeness auto
termination
  by (relation "measure (\<lambda>(cr, config, node, s). unread node)") (auto dest: persist_turn_unread)

declare download_and_persist_initial_headers_from_node.simps [simp del]


lemma persist_turn_steps [header_steps]: "steps_by (headers_by (checked cr)) (persist_turn cr config node)"
  by (auto simp: persist_turn_def intro!: header_steps split: prod.splits)

lemma persist_loop_steps [header_steps]:
  "steps_by (headers_by (checked cr)) (download_and_persist_initial_headers_from_node cr config node)"
proof -
  have "headers_by (checked cr) s (snd (download_and_persist_initial_headers_from_node cr config node s))" for s
  proof (induction cr config node s rule: download_and_persist_initial_headers_from_node.induct)
    case (1 cr config node s)
    show ?case
    proof (cases "length (dl_headers s) < headers_in_disk config")
      case True
      obtain r t where m: "persist_turn cr config node s = (r, t)" by fastforce
      then have st: "headers_by (checked cr) s t"
        by (rule steps_by_run [OF persist_turn_steps])
      with m 1 [OF True] True headers_by_trans [OF st] show ?thesis
        by (cases r) (simp_all add: download_and_persist_initial_headers_from_node.simps [of cr config node] act_then_def)
    qed (simp add: download_and_persist_initial_headers_from_node.simps)
  qed
  then show ?thesis by (simp add: steps_by_def)
qed


subsection \<open>The first headers\<close>

text \<open>A node that fails is dropped, and the last of the remaining ones is asked.\<close>

lemma headers_by_nodes: "headers_by P s t \<Longrightarrow> dl_nodes t = dl_nodes s"
  by (simp add: headers_by_def)

function persist_from_nodes :: "crypto \<Rightarrow> Config \<Rightarrow> remote \<Rightarrow> unit action" where
  "persist_from_nodes cr config node s =
     (case download_and_persist_initial_headers_from_node cr config node s of
        (Ok node, s) \<Rightarrow> return_node_to_vec node s
      | (Err err, s) \<Rightarrow> act_then get_node (persist_from_nodes cr config) s
      | (Panic, s) \<Rightarrow> (Panic, s))"
  by pat_completeness auto
termination
  by (relation "measure (\<lambda>(cr, config, node, s). length (dl_nodes s))")
    (auto simp: get_node_def split: if_splits
      dest!: headers_by_nodes [OF steps_by_run [OF persist_loop_steps sym]])

declare persist_from_nodes.simps [simp del]

definition download_and_persist_headers :: "crypto \<Rightarrow> Config \<Rightarrow> (unit, string) result \<Rightarrow> unit action" where
  "download_and_persist_headers cr config created =
     act_then (send_ui StartDownloadingHeaders) (\<lambda>_.
     act_then (lift (map_err OpeningFileError created)) (\<lambda>_.
     act_then (modify (\<lambda>s. s\<lparr>dl_file := []\<rparr>)) (\<lambda>_.
     act_then get_node (persist_from_nodes cr config))))"

text \<open>
  \<open>disk\<close> is what opening and reading the file of headers gives when it exists, \<open>created\<close> the
  outcome of creating it.
\<close>

definition get_initial_headers ::
  "crypto \<Rightarrow> Config \<Rightarrow> (bytes, NodeCustomErrors) result option \<Rightarrow> (unit, string) result \<Rightarrow> unit action" where
  "get_initial_headers cr config disk created s =
     (case (if read_headers_from_disk config then disk else None) of
        Some contents \<Rightarrow>
          (case read_headers_from_disk_act cr contents s of
             (Ok _, s) \<Rightarrow> (Ok (), s)
           | (Err err, s) \<Rightarrow> download_and_persist_headers cr config created s
           | (Panic, s) \<Rightarrow> (Panic, s))
      | None \<Rightarrow> download_and_persist_headers cr config created s)"

subsection \<open>The remaining headers\<close>

text \<open>One turn of the loop, on the node and the flag that the first block has been found.\<close>

definition headers_turn ::
  "crypto \<Rightarrow> (string \<Rightarrow> string \<Rightarrow> (int, string) result) \<Rightarrow> Config \<Rightarrow> remote \<Rightarrow> bool \<Rightarrow>
     (BlockHeader list \<times> remote \<times> bool) action" where
  "headers_turn cr parse_date config node first_block_found =
     act_then (request_headers_from_node cr config node) (\<lambda>node.
     act_then (receive_headers_from_node cr node) (\<lambda>(headers_read, node).
     act_then (load_heights cr headers_read) (\<lambda>_.
     act_then (store_headers_in_local_headers_vec cr headers_read) (\<lambda>_.
     act_then
       (if first_block_found then
          act_then (download_blocks_in_other_thread headers_read) (\<lambda>_. lift (Ok True))
        else
          act_then (lift (first_block_to_download_is_in_headers parse_date config headers_read)) (\<lambda>here.
          if here then download_first_blocks_in_other_thread parse_date config headers_read False
          else lift (Ok False))) (\<lambda>first_block_found.
     act_then (inspect (\<lambda>s. usize_sub (amount_of_headers s) 1)) (\<lambda>amount_of_headers.
     act_then (send_ui (UpdateHeadersDownloaded amount_of_headers)) (\<lambda>_.
     lift (Ok (headers_read, node, first_block_found)))))))))"

lemma headers_turn_steps [header_steps]: "steps_by (headers_by (checked cr)) (headers_turn cr parse_date config node found)"
  by (auto simp: headers_turn_def download_blocks_in_other_thread_def intro!: header_steps split: prod.splits)

lemma headers_turn_unread:
  "headers_turn cr parse_date config node found s = (Ok (hs, node', found'), s') \<Longrightarrow> unread node' < unread node"
  by (auto simp: headers_turn_def act_then_eq_Ok lift_def
      dest!: request_headers_unread receive_headers_unread split: prod.splits)

text \<open>The loop goes on while a batch is full.\<close>

function headers_loop ::
  "crypto \<Rightarrow> (string \<Rightarrow> string \<Rightarrow> (int, string) result) \<Rightarrow> Config \<Rightarrow> BlockHeader list \<times> remote \<times> bool \<Rightarrow> remote action"
where
  "headers_loop cr parse_date config (headers_read, node, first_block_found) s =
     (if length headers_read = 2000
      then act_then (headers_turn cr parse_date config node first_block_found) (headers_loop cr parse_date config) s
      else (Ok node, s))"
  by pat_completeness auto
termination
  by (relation "measure (\<lambda>(cr, parse_date, config, (hs, node, found), s). unread node)")
    (auto dest: headers_turn_unread)

declare headers_loop.simps [simp del]

text \<open>The first batch of a node is stored, and not sent to the block download.\<close>

definition first_batch :: "crypto \<Rightarrow> Config \<Rightarrow> remote \<Rightarrow> (BlockHeader list \<times> remote \<times> bool) action" where
  "first_batch cr config node =
     act_then (request_headers_from_node cr config node) (\<lambda>node.
     act_then (receive_headers_from_node cr node) (\<lambda>(headers_read, node).
     act_then (load_heights cr headers_read) (\<lambda>_.
     act_then (store_headers_in_local_headers_vec cr headers_read) (\<lambda>_.
     lift (Ok (headers_read, node, False))))))"

definition download_missing_headers_from_node ::
  "crypto \<Rightarrow> (string \<Rightarrow> string \<Rightarrow> (int, string) result) \<Rightarrow> Config \<Rightarrow> remote \<Rightarrow> remote action" where
  "download_missing_headers_from_node cr parse_date config node =
     act_then (first_batch cr config node) (headers_loop cr parse_date config)"

lemma first_batch_steps [header_steps]: "steps_by (headers_by (checked cr)) (first_batch cr config node)"
  by (auto simp: first_batch_def intro!: header_steps split: prod.splits)

lemma headers_loop_steps [header_steps]: "steps_by (headers_by (checked cr)) (headers_loop cr parse_date config b)"
proof -
  have "headers_by (checked cr) s (snd (headers_loop cr parse_date config (hs, node, found) s))" for hs node found s
  proof (induction cr parse_date config "(hs, node, found)" s arbitrary: hs node found rule: headers_loop.induct)
    case (1 cr parse_date config hs node found s)
    show ?case
    proof (cases "length hs = 2000")
      case True
      obtain r t where m: "headers_turn cr parse_date config node found s = (r, t)" by fastforce
      then have st: "headers_by (checked cr) s t"
        by (rule steps_by_run [OF headers_turn_steps])
      show ?thesis
      proof (cases r)
        case (Ok b)
        obtain hs' node' found' where b: "b = (hs', node', found')" by (cases b)
        from 1 [OF True m [unfolded Ok b]] m Ok headers_by_trans [OF st] True b show ?thesis
          by (simp add: headers_loop.simps [of cr parse_date config hs])
      qed (use m st True in \<open>simp_all add: headers_loop.simps [of cr parse_date config hs] act_then_def\<close>)
    qed (simp add: headers_loop.simps)
  qed
  then show ?thesis by (cases b) (simp add: steps_by_def)
qed

lemma missing_headers_steps [header_steps]:
  "steps_by (headers_by (checked cr)) (download_missing_headers_from_node cr parse_date config node)"
  by (auto simp: download_missing_headers_from_node_def intro!: header_steps)

function missing_headers_from_nodes ::
  "crypto \<Rightarrow> (string \<Rightarrow> string \<Rightarrow> (int, string) result) \<Rightarrow> Config \<Rightarrow> remote \<Rightarrow> remote action" where
  "missing_headers_from_nodes cr parse_date config node s =
     (case download_missing_headers_from_node cr parse_date config node s of
        (Ok node, s) \<Rightarrow> (Ok node, s)
      | (Err (ThreadChannelError _), s) \<Rightarrow>
          (Err (ThreadChannelError ''Error the channel that comunicates the headers and blocks paralell download is closed''), s)
      | (Err err, s) \<Rightarrow> act_then get_node (missing_headers_from_nodes cr parse_date config) s
      | (Panic, s) \<Rightarrow> (Panic, s))"
  by pat_completeness auto
termination
  by (relation "measure (\<lambda>(cr, parse_date, config, node, s). length (dl_nodes s))")
    (auto simp: get_node_def split: if_splits
      dest!: headers_by_nodes [OF steps_by_run [OF missing_headers_steps sym]])

declare missing_headers_from_nodes.simps [simp del]

definition download_missing_headers ::
  "crypto \<Rightarrow> (string \<Rightarrow> string \<Rightarrow> (int, string) result) \<Rightarrow> Config \<Rightarrow> unit action" where
  "download_missing_headers cr parse_date config =
     act_then get_node (\<lambda>node.
     act_then (missing_headers_from_nodes cr parse_date config node) (\<lambda>node.
     act_then (return_node_to_vec node) (\<lambda>_.
     \<lambda>s. send_ui (FinsihDownloadingHeaders (amount_of_headers s)) s)))"


subsection \<open>What a successful download has stored and sent\<close>

lemma keep_from_eq:
  "keep_from ts hs True = (hs, True)"
  "keep_from ts hs False = (dropWhile (\<lambda>h. bh_time h < ts) hs, \<exists>h \<in> set hs. ts \<le> bh_time h)"
proof -
  show all: "keep_from ts hs True = (hs, True)" for hs
    by (induction hs) simp_all
  show "keep_from ts hs False = (dropWhile (\<lambda>h. bh_time h < ts) hs, \<exists>h \<in> set hs. ts \<le> bh_time h)"
    by (induction hs) (auto simp: Let_def all simp flip: not_le)
qed

text \<open>Of the batches that follow the first one, what is sent to the block download.\<close>

fun sent_batches :: "u32 \<Rightarrow> bool \<Rightarrow> BlockHeader list list \<Rightarrow> BlockHeader list list" where
  "sent_batches ts found [] = []"
| "sent_batches ts found (b # bs) =
     (if found then b # sent_batches ts True bs
      else if ts \<le> bh_time (last b) then dropWhile (\<lambda>h. bh_time h < ts) b # sent_batches ts True bs
      else sent_batches ts False bs)"

definition index_header ::
  "crypto \<Rightarrow> BlockHeader \<Rightarrow> (hash32 \<rightharpoonup> nat) \<times> nat \<Rightarrow> (hash32 \<rightharpoonup> nat) \<times> nat" where
  "index_header cr header = (\<lambda>(heights, ht). (heights(BlockHeader_hash cr header \<mapsto> ht), ht + 1))"

lemma load_header_heights_eq:
  "load_header_heights cr hs m old = fst (fold (index_header cr) hs (m, length old))"
  by (simp add: load_header_heights_def index_header_def [abs_def])

lemma index_header_parts [simp]:
  "fst (index_header cr h mn) = (fst mn)(BlockHeader_hash cr h \<mapsto> snd mn)" "snd (index_header cr h mn) = snd mn + 1"
  by (simp_all add: index_header_def split: prod.splits)

lemma index_headers_snd: "snd (fold (index_header cr) hs mn) = snd mn + length hs"
  by (induction hs arbitrary: mn) simp_all

lemma index_headers_other:
  "x \<notin> set (map (BlockHeader_hash cr) hs) \<Longrightarrow> fst (fold (index_header cr) hs mn) x = fst mn x"
  by (induction hs arbitrary: mn) simp_all

lemma index_headers_nth:
  "i < length hs \<Longrightarrow> distinct (map (BlockHeader_hash cr) hs) \<Longrightarrow>
     fst (fold (index_header cr) hs mn) (BlockHeader_hash cr (hs ! i)) = Some (snd mn + i)"
proof (induction hs arbitrary: i mn)
  case (Cons h hs)
  show ?case
  proof (cases i)
    case 0
    with Cons.prems index_headers_other [of "BlockHeader_hash cr h" cr hs "index_header cr h mn"] show ?thesis
      by simp
  next
    case (Suc j)
    with Cons.IH [of j "index_header cr h mn"] Cons.prems show ?thesis
      by simp
  qed
qed simp

lemma sent_batches_step:
  "sent_batches ts found [b] @ sent_batches ts (found \<or> ts \<le> bh_time (last b)) bs = sent_batches ts found (b # bs)"
  by simp

lemma load_header_heights_append:
  "load_header_heights cr ys (load_header_heights cr xs m hs) (hs @ xs) = load_header_heights cr (xs @ ys) m hs"
proof -
  have "(fst (fold (index_header cr) xs (m, length hs)), length hs + length xs) = fold (index_header cr) xs (m, length hs)"
    using index_headers_snd [of cr xs "(m, length hs)"] by (simp add: prod_eq_iff)
  then show ?thesis
    by (simp add: load_header_heights_eq)
qed

lemma load_header_heights_nth:
  "distinct (map (BlockHeader_hash cr) hs) \<Longrightarrow> i < length hs \<Longrightarrow>
     load_header_heights cr hs m old (BlockHeader_hash cr (hs ! i)) = Some (length old + i)"
  by (simp add: load_header_heights_eq index_headers_nth)

text \<open>The headers, the index of their heights and the queue, after the batches \<open>bs\<close>.\<close>

definition stored :: "crypto \<Rightarrow> download \<Rightarrow> BlockHeader list \<Rightarrow> BlockHeader list list \<Rightarrow> download \<Rightarrow> bool" where
  "stored cr s hs q t \<longleftrightarrow> list_all (checked cr) hs \<and> dl_headers t = dl_headers s @ hs \<and>
     dl_heights t = load_header_heights cr hs (dl_heights s) (dl_headers s) \<and> dl_queue t = dl_queue s @ q"

lemma stored_Nil: "stored cr s [] [] s"
  by (simp add: stored_def load_header_heights_def)

lemma stored_trans: "stored cr s hs q t \<Longrightarrow> stored cr t hs' q' u \<Longrightarrow> stored cr s (hs @ hs') (q @ q') u"
  by (simp add: stored_def load_header_heights_append)

lemma request_headers_state: "request_headers_from_node cr config node s = (r, s') \<Longrightarrow> s' = s"
  by (auto simp: request_headers_from_node_def act_then_def get_last_hash_header_downloaded_def
      inspect_def lift_def split: result.splits if_splits)

lemma receive_headers_state: "receive_headers_from_node cr node s = (r, s') \<Longrightarrow> s' = s"
  by (auto simp: receive_headers_from_node_def lift_def)

lemma first_batch_stored:
  assumes "first_batch cr config node s = (Ok (hs, node', found), s')"
  shows "stored cr s hs [] s' \<and> \<not> found"
  using assms
  by (auto simp: first_batch_def act_then_eq_Ok store_headers_eq load_heights_def modify_def lift_def stored_def
      dest!: request_headers_state receive_headers_state)

lemma store_batch:
  assumes "request_headers_from_node cr config node s = (Ok node1, s1)"
    and "receive_headers_from_node cr node1 s1 = (Ok (hs, node2), s2)"
    and "load_heights cr hs s2 = (Ok u, s3)" and "store_headers_in_local_headers_vec cr hs s3 = (Ok v, s4)"
  shows "stored cr s hs [] s4 \<and> dl_queue_open s4 = dl_queue_open s"
  using request_headers_state [OF assms(1)] receive_headers_state [OF assms(2)] assms(3,4)
  by (auto simp: store_headers_eq load_heights_def modify_def stored_def)

lemma send_headers_stored: "send_headers hs s = (Ok u, t) \<Longrightarrow> stored cr s [] [hs] t"
  by (auto simp: send_headers_def stored_def load_header_heights_eq split: if_splits)

lemma send_ui_stored: "send_ui e s = (r, t) \<Longrightarrow> stored cr s [] [] t"
  by (auto simp: send_ui_def modify_def stored_def load_header_heights_eq)

lemma first_blocks_stored:
  assumes "download_first_blocks_in_other_thread parse_date config hs False s = (Ok found, t)"
    and "get_first_block_timestamp parse_date config = Ok ts"
  shows "stored cr s [] [dropWhile (\<lambda>h. bh_time h < ts) hs] t \<and> found = (\<exists>h \<in> set hs. ts \<le> bh_time h)"
proof -
  from assms obtain s1 s2 where "send_ui StartDownloadingBlocks s = (Ok (), s1)"
      "send_headers (dropWhile (\<lambda>h. bh_time h < ts) hs) s1 = (Ok (), s2)" "t = s2"
      "found = (\<exists>h \<in> set hs. ts \<le> bh_time h)"
    by (auto simp: download_first_blocks_in_other_thread_def search_first_header_block_to_download_def
        keep_from_eq act_then_eq_Ok lift_def download_blocks_in_other_thread_def)
  with stored_trans [OF send_ui_stored send_headers_stored] show ?thesis
    by (metis append_Nil)
qed

lemma headers_turn_stored:
  assumes "headers_turn cr parse_date config node found s = (Ok (hs, node', found'), s')"
    and "get_first_block_timestamp parse_date config = Ok ts"
  shows "stored cr s hs (sent_batches ts found [hs]) s'" and "\<not> found \<longrightarrow> hs \<noteq> []"
    and "found' = (found \<or> ts \<le> bh_time (last hs))"
proof -
  from assms(1) obtain node1 s1 node2 s2 u s3 v s4 s5 n s6 where
      b: "request_headers_from_node cr config node s = (Ok node1, s1)"
        "receive_headers_from_node cr node1 s1 = (Ok (hs, node2), s2)"
        "load_heights cr hs s2 = (Ok u, s3)" "store_headers_in_local_headers_vec cr hs s3 = (Ok v, s4)"
      and choice: "(if found then act_then (download_blocks_in_other_thread hs) (\<lambda>_. lift (Ok True))
          else act_then (lift (first_block_to_download_is_in_headers parse_date config hs)) (\<lambda>here.
            if here then download_first_blocks_in_other_thread parse_date config hs False
            else lift (Ok False))) s4 = (Ok found', s5)"
      and rest: "send_ui (UpdateHeadersDownloaded n) s5 = (Ok (), s')"
    unfolding headers_turn_def by (fastforce simp: act_then_eq_Ok lift_def inspect_def send_ui_def modify_def)
  have mem: "hs \<noteq> [] \<Longrightarrow> ts \<le> bh_time (last hs) \<Longrightarrow> \<exists>h \<in> set hs. ts \<le> bh_time h"
    using last_in_set by blast
  have mid: "stored cr s4 [] (sent_batches ts found [hs]) s5 \<and> (\<not> found \<longrightarrow> hs \<noteq> []) \<and>
      found' = (found \<or> ts \<le> bh_time (last hs))"
  proof (cases found)
    case True
    with choice send_headers_stored [of hs s4 _ s5] show ?thesis
      by (auto simp: act_then_eq_Ok lift_def download_blocks_in_other_thread_def)
  next
    case False
    with choice assms(2) have ne: "hs \<noteq> []"
      by (auto simp: act_then_eq_Ok lift_def first_block_to_download_is_in_headers_def)
    show ?thesis
    proof (cases "ts \<le> bh_time (last hs)")
      case True
      with choice assms(2) ne False
      have "download_first_blocks_in_other_thread parse_date config hs False s4 = (Ok found', s5)"
        by (auto simp: act_then_eq_Ok lift_def first_block_to_download_is_in_headers_def)
      from first_blocks_stored [OF this assms(2), of cr] True False ne mem show ?thesis
        by simp
    next
      case late: False
      with choice assms(2) ne False stored_Nil [of cr s4] show ?thesis
        by (auto simp: act_then_eq_Ok lift_def first_block_to_download_is_in_headers_def)
    qed
  qed
  have "stored cr s hs [] s4"
    using store_batch [OF b] by simp
  from stored_trans [OF stored_trans [OF this] send_ui_stored [OF rest]] mid
  show "stored cr s hs (sent_batches ts found [hs]) s'"
    by (metis append_Nil append_Nil2)
  from mid show "\<not> found \<longrightarrow> hs \<noteq> []" "found' = (found \<or> ts \<le> bh_time (last hs))"
    by simp_all
qed

text \<open>All batches but the last one are full.\<close>

definition full_but_last :: "BlockHeader list list \<Rightarrow> bool" where
  "full_but_last bs \<longleftrightarrow> bs \<noteq> [] \<and> list_all (\<lambda>b. length b = 2000) (butlast bs) \<and> length (last bs) \<noteq> 2000"

lemma headers_loop_stored:
  assumes "get_first_block_timestamp parse_date config = Ok ts"
  shows "headers_loop cr parse_date config (hs, node, found) s = (Ok node', s') \<Longrightarrow>
    \<exists>bs. stored cr s (concat bs) (sent_batches ts found bs) s' \<and> full_but_last (hs # bs)"
  using assms
proof (induction cr parse_date config "(hs, node, found)" s arbitrary: hs node found rule: headers_loop.induct)
  case (1 cr parse_date config hs node found s)
  show ?case
  proof (cases "length hs = 2000")
    case True
    with "1.prems" obtain hs1 node1 found1 t where
        m: "headers_turn cr parse_date config node found s = (Ok (hs1, node1, found1), t)"
        and l: "headers_loop cr parse_date config (hs1, node1, found1) t = (Ok node', s')"
      by (auto simp: headers_loop.simps [of cr parse_date config hs] act_then_eq_Ok)
    from "1.hyps" [OF True m l "1.prems"(2)] obtain bs where
        bs: "stored cr t (concat bs) (sent_batches ts found1 bs) s'" "full_but_last (hs1 # bs)"
      by blast
    note turn = headers_turn_stored [OF m "1.prems"(2)]
    have q: "sent_batches ts found [hs1] @ sent_batches ts found1 bs = sent_batches ts found (hs1 # bs)"
      unfolding turn(3) by (rule sent_batches_step)
    show ?thesis
      using stored_trans [OF turn(1) bs(1)] bs(2) True
      by (intro exI [of _ "hs1 # bs"]) (simp add: q full_but_last_def del: sent_batches.simps)
  next
    case False
    with "1.prems" show ?thesis
      by (intro exI [of _ "[]"]) (simp add: headers_loop.simps stored_Nil full_but_last_def)
  qed
qed

lemma missing_headers_stored:
  assumes "download_missing_headers_from_node cr parse_date config node s = (Ok node', s')"
    and "get_first_block_timestamp parse_date config = Ok ts"
  shows "\<exists>first rest. stored cr s (concat (first # rest)) (sent_batches ts False rest) s' \<and> full_but_last (first # rest)"
proof -
  from assms(1) obtain hs node1 found t where
      f: "first_batch cr config node s = (Ok (hs, node1, found), t)"
      and l: "headers_loop cr parse_date config (hs, node1, found) t = (Ok node', s')"
    by (auto simp: download_missing_headers_from_node_def act_then_eq_Ok)
  from headers_loop_stored [OF assms(2) l] obtain bs where
      bs: "stored cr t (concat bs) (sent_batches ts found bs) s'" "full_but_last (hs # bs)"
    by blast
  from stored_trans [OF _ bs(1), of s hs "[]"] first_batch_stored [OF f] bs show ?thesis
    by (intro exI [of _ hs] exI [of _ bs]) simp
qed

lemma sent_batches_sorted:
  assumes "sorted (map bh_time (concat bs))" and "[] \<notin> set bs"
  shows "concat (sent_batches ts found bs) =
    (if found then concat bs else filter (\<lambda>h. ts \<le> bh_time h) (concat bs))"
  using assms
proof (induction bs arbitrary: found)
  case (Cons b bs)
  have b: "sorted (map bh_time b)" "b \<noteq> []" "sorted (map bh_time (concat bs))"
      "\<forall>x \<in> set b. \<forall>y \<in> set (concat bs). bh_time x \<le> bh_time y"
    using Cons.prems by (auto simp: sorted_append)
  have last_max: "\<forall>x \<in> set b. bh_time x \<le> bh_time (last b)"
  proof
    fix x assume "x \<in> set b"
    then obtain i where i: "i < length b" "b ! i = x"
      by (metis in_set_conv_nth)
    then have "map bh_time b ! i \<le> map bh_time b ! (length b - 1)"
      using b(1) by (intro sorted_nth_mono) auto
    with i b(2) show "bh_time x \<le> bh_time (last b)"
      by (simp add: last_conv_nth)
  qed
  have drop: "sorted (map bh_time hs) \<Longrightarrow> dropWhile (\<lambda>h. bh_time h < ts) hs = filter (\<lambda>h. ts \<le> bh_time h) hs" for hs
  proof (induction hs)
    case (Cons h hs)
    show ?case
    proof (cases "ts \<le> bh_time h")
      case True
      with Cons.prems have "filter (\<lambda>h. ts \<le> bh_time h) hs = hs"
        by (intro filter_True) (auto intro: order_trans)
      with True show ?thesis by (simp add: not_less)
    qed (use Cons in \<open>simp add: not_le\<close>)
  qed simp
  have rest: "ts \<le> bh_time (last b) \<Longrightarrow> filter (\<lambda>h. ts \<le> bh_time h) (concat bs) = concat bs"
    using b(2,4) by (auto simp: filter_id_conv intro: order_trans)
  have none: "\<not> ts \<le> bh_time (last b) \<Longrightarrow> filter (\<lambda>h. ts \<le> bh_time h) b = []"
    using last_max by (auto simp: filter_empty_conv intro: order_trans)
  show ?case
    using Cons b drop [OF b(1)] rest none by auto
qed simp


subsection \<open>A node that answers\<close>

definition headers_stream :: "crypto \<Rightarrow> BlockHeader list list \<Rightarrow> bytes" where
  "headers_stream cr bs = concat (map (\<lambda>b. frame cr ''headers'' (headers_payload b)) bs)"

definition serves :: "crypto \<Rightarrow> BlockHeader list list \<Rightarrow> remote \<Rightarrow> bool" where
  "serves cr bs node \<longleftrightarrow> (\<exists>rest. inp (stream node) = headers_stream cr bs @ rest) \<and> writes_left node = None"

definition batch_ok :: "crypto \<Rightarrow> BlockHeader list \<Rightarrow> bool" where
  "batch_ok cr b \<longleftrightarrow> (\<forall>h \<in> set b. wf_header h \<and> checked cr h) \<and> length b \<le> 2000"

lemma length_headers_payload:
  "(\<forall>h \<in> set b. wf_header h) \<Longrightarrow>
     length (headers_payload b) = length (CompactSizeUint_value (CompactSizeUint_of_len (length b))) + 81 * length b"
  by (induction b) (simp_all add: headers_payload_def length_concat comp_def sum_list_triv sum_list_replicate
      cong: map_cong)

lemma length_compact: "length (CompactSizeUint_value (CompactSizeUint_new n)) \<le> 9"
  by (simp add: CompactSizeUint_value_def CompactSizeUint_new_def generate_compact_size_uint_def
      get_compact_size_uint_def)

lemma headers_payload_small: "batch_ok cr b \<Longrightarrow> length (headers_payload b) < 2 ^ 32"
  using length_headers_payload [of b] length_compact [of "of_nat (length b)"] by (auto simp: batch_ok_def)

lemma headers_name: "command_ok ''headers''"
  by (simp add: command_ok_def padded_def as_bytes_def compute)

lemma receive_exact:
  assumes "inp (stream node) = frame cr ''headers'' (headers_payload b) @ rest"
    and "batch_ok cr b" and "\<And>p. length (get_checksum cr p) = 4"
  shows "receive_headers_from_node cr node s = (Ok (b, node\<lparr>stream := (stream node)\<lparr>inp := rest\<rparr>\<rparr>), s)"
proof -
  have "HeaderMessage_read_from cr (stream node) ''headers'' None =
      Ok (frame_head cr ''headers'' (headers_payload b), (stream node)\<lparr>inp := headers_payload b @ rest\<rparr>)"
    using read_from_skips [OF headers_name assms(3), where payload = "headers_payload b" and ms = "[]"
        and rest = "headers_payload b @ rest" and out = "outp (stream node)"] assms(1)
    by (cases "stream node") (simp add: frame_def)
  moreover have "HeadersMessage_unmarshalling (headers_payload b) = Ok b"
    using assms(2) by (intro HeadersMessage_unmarshalling_payload) (auto simp: batch_ok_def)
  ultimately have "HeadersMessage_read_from cr (stream node) None 0 = Ok (b, (stream node)\<lparr>inp := rest\<rparr>)"
    using headers_payload_small [OF assms(2)]
    by (cases "stream node")
      (simp add: HeadersMessage_read_from_def is_terminated_def frame_head_def unat_of_nat read_exact_append)
  then show ?thesis
    by (simp add: receive_headers_from_node_def lift_def receiving_def)
qed

lemma receive_served:
  assumes "serves cr (b # bs) node" and "batch_ok cr b" and "\<And>p. length (get_checksum cr p) = 4"
  shows "\<exists>node'. receive_headers_from_node cr node s = (Ok (b, node'), s) \<and> serves cr bs node'"
proof -
  obtain rest where i: "inp (stream node) = frame cr ''headers'' (headers_payload b) @ headers_stream cr bs @ rest"
    using assms(1) by (auto simp: serves_def headers_stream_def)
  from receive_exact [OF i assms(2,3)] assms(1) show ?thesis
    by (auto simp: serves_def)
qed

text \<open>What \<open>request_headers_from_node\<close> writes: the hash of the last header is the only locator.\<close>

definition locator_of :: "crypto \<Rightarrow> BlockHeader \<Rightarrow> hash32" where
  "locator_of cr h = (if h = GENESIS_BLOCK_HEADER then GENESIS_BLOCK_HASH else BlockHeader_hash cr h)"

abbreviation headers_request :: "crypto \<Rightarrow> Config \<Rightarrow> BlockHeader \<Rightarrow> bytes" where
  "headers_request cr config h \<equiv> frame cr ''getheaders''
     (GetHeadersPayload_to_le_bytes (ghm_payload (build_getheaders_message cr config [locator_of cr h])))"

lemma request_exact:
  assumes "writes_left node = None" and "dl_headers s \<noteq> []"
  shows "request_headers_from_node cr config node s =
    (Ok (node\<lparr>stream := (stream node)\<lparr>outp := outp (stream node) @ headers_request cr config (last (dl_headers s))\<rparr>\<rparr>), s)"
  using assms
  by (cases node) (simp add: request_headers_from_node_def act_then_def get_last_hash_header_downloaded_def inspect_def
      lift_def sending_def GetHeadersMessage_write_to_def HeaderMessage_to_le_bytes_def locator_of_def frame_def
      frame_header_def build_getheaders_message_def HeaderMessage_new_def command_name_to_bytes_Ok write_all_def Let_def)

lemma request_served:
  assumes "serves cr bs node" and "dl_headers s \<noteq> []"
  shows "\<exists>node'. request_headers_from_node cr config node s = (Ok node', s) \<and> serves cr bs node'"
  using request_exact [of node s cr config] assms by (auto simp: serves_def)

lemma store_batch_ok:
  "batch_ok cr b \<Longrightarrow> store_headers_in_local_headers_vec cr b s = (Ok (), s\<lparr>dl_headers := dl_headers s @ b\<rparr>)"
  by (subst store_headers_eq) (auto simp: batch_ok_def list_all_iff)

lemma first_batch_served:
  assumes "serves cr (b # bs) node" and "batch_ok cr b" and "\<And>p. length (get_checksum cr p) = 4"
    and "dl_headers s \<noteq> []"
  shows "\<exists>node' t. first_batch cr config node s = (Ok (b, node', False), t) \<and> serves cr bs node' \<and>
    dl_headers t \<noteq> [] \<and> dl_queue_open t = dl_queue_open s"
proof -
  obtain node1 where r: "request_headers_from_node cr config node s = (Ok node1, s)" "serves cr (b # bs) node1"
    using request_served [OF assms(1,4)] by blast
  obtain node2 where "receive_headers_from_node cr node1 s = (Ok (b, node2), s)" "serves cr bs node2"
    using receive_served [OF r(2) assms(2,3)] by blast
  with r assms(2,4) show ?thesis
    by (simp add: first_batch_def load_heights_def modify_def store_batch_ok lift_def)
qed

lemma headers_turn_served:
  assumes "serves cr (b # bs) node" and "batch_ok cr b" and "\<And>p. length (get_checksum cr p) = 4"
    and "dl_headers s \<noteq> []" and "dl_queue_open s" and "b \<noteq> []"
    and "get_first_block_timestamp parse_date config = Ok ts"
  shows "\<exists>node' found' t. headers_turn cr parse_date config node found s = (Ok (b, node', found'), t) \<and>
    serves cr bs node' \<and> dl_headers t \<noteq> [] \<and> dl_queue_open t"
proof -
  obtain node1 where r: "request_headers_from_node cr config node s = (Ok node1, s)" "serves cr (b # bs) node1"
    using request_served [OF assms(1,4)] by blast
  obtain node2 where "receive_headers_from_node cr node1 s = (Ok (b, node2), s)" "serves cr bs node2"
    using receive_served [OF r(2) assms(2,3)] by blast
  note parts = r this assms(2,4-7) headers_turn_def load_heights_def action_simps store_batch_ok
    download_blocks_in_other_thread_def first_block_to_download_is_in_headers_def
    download_first_blocks_in_other_thread_def search_first_header_block_to_download_def keep_from_eq
    amount_of_headers_def usize_sub_def Suc_le_eq act_then_def
  show ?thesis
    by (cases found; cases "ts \<le> bh_time (last b)") (auto simp: parts)
qed

lemma headers_loop_served:
  assumes ts: "get_first_block_timestamp parse_date config = Ok ts" and ck: "\<And>p. length (get_checksum cr p) = 4"
  shows "serves cr bs node \<Longrightarrow> full_but_last (hs # bs) \<Longrightarrow> \<forall>b \<in> set bs. batch_ok cr b \<and> b \<noteq> [] \<Longrightarrow>
    dl_headers s \<noteq> [] \<Longrightarrow> dl_queue_open s \<Longrightarrow>
    \<exists>node' t. headers_loop cr parse_date config (hs, node, found) s = (Ok node', t) \<and>
      stored cr s (concat bs) (sent_batches ts found bs) t"
proof (induction bs arbitrary: hs node found s)
  case Nil
  then show ?case
    by (simp add: headers_loop.simps full_but_last_def stored_Nil)
next
  case (Cons b bs)
  then obtain node1 found1 t where t: "headers_turn cr parse_date config node found s = (Ok (b, node1, found1), t)"
      "serves cr bs node1" "dl_headers t \<noteq> []" "dl_queue_open t"
    using headers_turn_served [OF Cons.prems(1) _ ck Cons.prems(4,5) _ ts, of found] by auto
  have full: "full_but_last (b # bs)" "length hs = 2000"
    using Cons.prems(2) by (auto simp: full_but_last_def)
  from Cons.IH [OF t(2) full(1) _ t(3,4), of found1] Cons.prems(3) obtain node' u where
      u: "headers_loop cr parse_date config (b, node1, found1) t = (Ok node', u)"
        "stored cr t (concat bs) (sent_batches ts found1 bs) u"
    by auto
  note turn = headers_turn_stored [OF t(1) ts]
  have "stored cr s (concat (b # bs)) (sent_batches ts found (b # bs)) u"
    using stored_trans [OF turn(1) u(2)] unfolding turn(3) sent_batches_step by simp
  with full(2) t(1) u(1) show ?case
    by (simp add: headers_loop.simps [of cr parse_date config hs] del: sent_batches.simps)
qed

lemma missing_headers_served:
  assumes "serves cr (b # bs) node" and "full_but_last (b # bs)" and "batch_ok cr b"
    and "\<forall>b \<in> set bs. batch_ok cr b \<and> b \<noteq> []"
    and "dl_headers s \<noteq> []" and "dl_queue_open s"
    and "get_first_block_timestamp parse_date config = Ok ts" and "\<And>p. length (get_checksum cr p) = 4"
  shows "\<exists>node' t. download_missing_headers_from_node cr parse_date config node s = (Ok node', t) \<and>
    stored cr s (concat (b # bs)) (sent_batches ts False bs) t"
proof -
  obtain node1 t where t: "first_batch cr config node s = (Ok (b, node1, False), t)" "serves cr bs node1"
      "dl_headers t \<noteq> []" "dl_queue_open t"
    using first_batch_served [OF assms(1,3,8,5)] assms(6) by metis
  from headers_loop_served [OF assms(7,8) t(2) assms(2,4) t(3,4), of False] t(1)
    stored_trans [of cr s b "[]" t] first_batch_stored [OF t(1)] show ?thesis
    by (fastforce simp: download_missing_headers_from_node_def)
qed

end
