(* ===== verification/Headers_Facts.thy ===== *)
theory Headers_Facts
  imports Headers_Download
begin

section \<open>Properties of the header download\<close>

text \<open>
  What a header download stores, indexes and sends, when it ends, that an honest node completes it,
  and when the file of headers can be read back.
\<close>

subsection \<open>Reading the file\<close>

lemma length_full_payload:
  assumes "length b = 2000" and "\<forall>h \<in> set b. wf_header h"
  shows "length (headers_payload b) = HEADERS_MESSAGE_SIZE"
  using length_headers_payload [OF assms(2)] assms(1)
  by (simp add: HEADERS_MESSAGE_SIZE_def CompactSizeUint_value_def CompactSizeUint_new_def
      generate_compact_size_uint_def get_compact_size_uint_def)

lemma read_one_message:
  assumes "length b = 2000" and "\<forall>h \<in> set b. wf_header h" and "i = length pre"
  shows "\<exists>t. read_messages cr (pre @ headers_payload b @ post) i amt s =
      read_messages cr (pre @ headers_payload b @ post) (length (pre @ headers_payload b)) (amt + 2000) t \<and>
    dl_headers t = dl_headers s @ b \<and> dl_heights t = load_header_heights cr b (dl_heights s) (dl_headers s)"
proof -
  note len = length_full_payload [OF assms(1,2)]
  have "slice (pre @ headers_payload b @ post) i (i + HEADERS_MESSAGE_SIZE) =
      (Ok (headers_payload b) :: (bytes, NodeCustomErrors) result)"
    using slice_append_exact [of pre i "headers_payload b" _ post, OF assms(3) [symmetric] len] .
  moreover have "HeadersMessage_unmarshalling (headers_payload b) = Ok b"
    using assms by (intro HeadersMessage_unmarshalling_payload) auto
  moreover have "i < length (pre @ headers_payload b @ post)"
    using len assms(3) by (simp add: HEADERS_MESSAGE_SIZE_def)
  ultimately show ?thesis
    using len assms(3)
    by (subst read_messages.simps) (simp add: load_heights_def action_simps, intro exI conjI, rule refl, simp_all)
qed

lemma read_all_messages:
  assumes "\<forall>b \<in> set bs. length b = 2000 \<and> (\<forall>h \<in> set b. wf_header h)"
  shows "\<exists>t amt'. read_messages cr (pre @ concat (map headers_payload bs) @ post) (length pre) amt s =
      read_messages cr (pre @ concat (map headers_payload bs) @ post)
        (length (pre @ concat (map headers_payload bs))) amt' t \<and>
    dl_headers t = dl_headers s @ concat bs \<and>
    dl_heights t = load_header_heights cr (concat bs) (dl_heights s) (dl_headers s)"
  using assms
proof (induction bs arbitrary: pre amt s)
  case Nil
  then show ?case
    by (auto simp: load_header_heights_eq)
next
  case (Cons b bs)
  obtain t where t: "read_messages cr (pre @ headers_payload b @ concat (map headers_payload bs) @ post) (length pre) amt s =
      read_messages cr (pre @ headers_payload b @ concat (map headers_payload bs) @ post)
        (length (pre @ headers_payload b)) (amt + 2000) t"
      "dl_headers t = dl_headers s @ b" "dl_heights t = load_header_heights cr b (dl_heights s) (dl_headers s)"
    using read_one_message [of b "length pre" pre cr "concat (map headers_payload bs) @ post" amt s] Cons.prems
    by auto
  from Cons.IH [of "pre @ headers_payload b" "amt + 2000" t] Cons.prems t show ?case
    by (auto simp: load_header_heights_append)
qed

lemma read_messages_end: "length contents \<le> i \<Longrightarrow> read_messages cr contents i amt s = (Ok (), s)"
  by (simp add: read_messages.simps)

lemma read_messages_short:
  "i < length contents \<Longrightarrow> length contents < i + HEADERS_MESSAGE_SIZE \<Longrightarrow> read_messages cr contents i amt s = (Panic, s)"
  by (simp add: read_messages.simps [of cr contents i] slice_def action_simps)

lemma full_batches_read:
  assumes "\<forall>b \<in> set bs. length b = 2000 \<and> (\<forall>h \<in> set b. wf_header h)"
  shows "\<exists>t. read_headers_from_disk_act cr (Ok (concat (map headers_payload bs))) s = (Ok (), t) \<and>
      dl_headers t = dl_headers s @ concat bs \<and>
      dl_heights t = load_header_heights cr (concat bs) (dl_heights s) (dl_headers s)"
    and "\<lbrakk>extra \<noteq> []; length extra < HEADERS_MESSAGE_SIZE\<rbrakk> \<Longrightarrow>
      fst (read_headers_from_disk_act cr (Ok (concat (map headers_payload bs) @ extra)) s) = Panic"
proof -
  let ?file = "concat (map headers_payload bs)"
  show "\<exists>t. read_headers_from_disk_act cr (Ok ?file) s = (Ok (), t) \<and>
      dl_headers t = dl_headers s @ concat bs \<and>
      dl_heights t = load_header_heights cr (concat bs) (dl_heights s) (dl_headers s)"
    using read_all_messages [OF assms, of cr "[]" "[]" 0 "s\<lparr>dl_ui := dl_ui s @ [StartDownloadingHeaders]\<rparr>"]
    by (auto simp: read_headers_from_disk_act_def action_simps read_messages_end)
  assume "extra \<noteq> []" and "length extra < HEADERS_MESSAGE_SIZE"
  then have "read_messages cr (?file @ extra) (length ?file) amt t = (Panic, t)" for amt t
    by (intro read_messages_short) simp_all
  then show "fst (read_headers_from_disk_act cr (Ok (?file @ extra)) s) = Panic"
    using read_all_messages [OF assms, of cr "[]" extra 0 "s\<lparr>dl_ui := dl_ui s @ [StartDownloadingHeaders]\<rparr>"]
    by (auto simp: read_headers_from_disk_act_def action_simps)
qed

subsection \<open>Dropping nodes\<close>

text \<open>How a download that asks one node after the other ends.\<close>

fun ended :: "remote list \<Rightarrow> (remote, NodeCustomErrors) result \<times> download \<Rightarrow> bool" where
  "ended nodes (Ok node, t) = (\<exists>k \<le> length nodes. dl_nodes t = take k nodes)"
| "ended nodes (Err e, t) = (dl_nodes t = [] \<or> (\<exists>msg. e = ThreadChannelError msg))"
| "ended nodes (Panic, t) = True"

lemma ended_fewer:
  assumes "ended (take k nodes) r"
  shows "ended nodes r"
proof -
  have "\<exists>j \<le> length nodes. take (min i k) nodes = take j nodes" for i
    by (rule exI [of _ "min (min i k) (length nodes)"]) (simp add: min_def)
  with assms show ?thesis
    by (cases "(nodes, r)" rule: ended.cases) fastforce+
qed

lemma missing_headers_ended: "ended (dl_nodes s) (missing_headers_from_nodes cr parse_date config node s)"
proof (induction "length (dl_nodes s)" arbitrary: node s rule: less_induct)
  case (less s node)
  obtain r t where m: "download_missing_headers_from_node cr parse_date config node s = (r, t)" by fastforce
  have nodes: "dl_nodes t = dl_nodes s"
    by (rule headers_by_nodes [OF steps_by_run [OF missing_headers_steps m]])
  show ?case
  proof (cases r)
    case (Ok node')
    with m nodes show ?thesis
      by (simp add: missing_headers_from_nodes.simps [of cr parse_date config node])
        (metis order_refl take_all)
  next
    case (Err e)
    show ?thesis
    proof (cases "\<exists>msg. e = ThreadChannelError msg")
      case True
      with Err m show ?thesis
        by (auto simp: missing_headers_from_nodes.simps [of cr parse_date config node])
    next
      case False
      have step: "missing_headers_from_nodes cr parse_date config node s =
          act_then get_node (missing_headers_from_nodes cr parse_date config) t"
        using False Err m
        by (cases e) (simp_all add: missing_headers_from_nodes.simps [of cr parse_date config node])
      show ?thesis
      proof (cases "dl_nodes t = []")
        case True
        then show ?thesis
          by (simp add: step act_then_def get_node_def)
      next
        case ne: False
        let ?t = "t\<lparr>dl_nodes := butlast (dl_nodes t)\<rparr>"
        have g: "get_node t = (Ok (last (dl_nodes t)), ?t)"
          using ne by (simp add: get_node_def)
        have "ended (dl_nodes ?t) (missing_headers_from_nodes cr parse_date config (last (dl_nodes t)) ?t)"
          using ne nodes by (intro less) simp
        then have "ended (take (length (dl_nodes t) - 1) (dl_nodes t))
            (missing_headers_from_nodes cr parse_date config (last (dl_nodes t)) ?t)"
          by (simp add: butlast_conv_take)
        then have "ended (dl_nodes t) (missing_headers_from_nodes cr parse_date config (last (dl_nodes t)) ?t)"
          by (rule ended_fewer)
        then show ?thesis
          by (simp add: step g nodes)
      qed
    qed
  next
    case Panic
    with m show ?thesis
      by (simp add: missing_headers_from_nodes.simps [of cr parse_date config node])
  qed
qed

lemma download_missing_headers_served:
  assumes "dl_nodes s = nodes @ [node]" and "serves cr (b # bs) node" and "full_but_last (b # bs)"
    and "batch_ok cr b" and "\<forall>b \<in> set bs. batch_ok cr b \<and> b \<noteq> []"
    and "dl_headers s \<noteq> []" and "dl_queue_open s"
    and "get_first_block_timestamp parse_date config = Ok ts" and "\<And>p. length (get_checksum cr p) = 4"
  shows "\<exists>node' t. download_missing_headers cr parse_date config s = (Ok (), t) \<and>
    stored cr s (concat (b # bs)) (sent_batches ts False bs) t \<and> dl_nodes t = nodes @ [node'] \<and>
    dl_blocks t = dl_blocks s \<and> dl_utxo_queue t = dl_utxo_queue s"
proof -
  let ?s = "s\<lparr>dl_nodes := nodes\<rparr>"
  obtain node' t where m: "download_missing_headers_from_node cr parse_date config node ?s = (Ok node', t)"
      and st: "stored cr ?s (concat (b # bs)) (sent_batches ts False bs) t"
    using missing_headers_served [OF assms(2-5) _ _ assms(8,9), of ?s] assms(6,7) by auto
  have n: "dl_nodes t = nodes" "dl_blocks t = dl_blocks s" "dl_utxo_queue t = dl_utxo_queue s"
    using steps_by_run [OF missing_headers_steps m] by (simp_all add: headers_by_def)
  have g: "get_node s = (Ok node, ?s)"
    using assms(1) by (simp add: get_node_def)
  show ?thesis
    using m st n
    by (simp add: download_missing_headers_def g missing_headers_from_nodes.simps [of cr parse_date config node]
        action_simps stored_def)
qed

subsection \<open>Properties\<close>

text \<open>
  C18. When the headers are downloaded from a node, what has been stored is a first batch and further
  ones, all full but the last; every header in them has passed the proof-of-work check, stands at the
  end of the list, and (when no two have the same hash) is indexed at its height. What has been sent
  to the block download is the later batches from the first one that ends at the configured date or
  after, of that one the part from the date on; of the first batch, nothing. If the times of the later
  headers ascend, exactly the blocks dated from the configured date on are requested, but for those of
  the first batch.
\<close>

theorem headers_download_exact:
  assumes "download_missing_headers_from_node cr parse_date config node s = (Ok node', s')"
    and "get_first_block_timestamp parse_date config = Ok ts"
  shows "\<exists>first rest q. full_but_last (first # rest) \<and> list_all (checked cr) (concat (first # rest)) \<and>
    dl_headers s' = dl_headers s @ concat (first # rest) \<and>
    (distinct (map (BlockHeader_hash cr) (concat (first # rest))) \<longrightarrow>
       (\<forall>i < length (concat (first # rest)).
          dl_heights s' (BlockHeader_hash cr (concat (first # rest) ! i)) = Some (length (dl_headers s) + i))) \<and>
    dl_queue s' = dl_queue s @ q \<and> q = sent_batches ts False rest \<and>
    (sorted (map bh_time (concat rest)) \<and> [] \<notin> set rest \<longrightarrow> concat q = filter (\<lambda>h. ts \<le> bh_time h) (concat rest))"
proof -
  from missing_headers_stored [OF assms] obtain first rest where
      st: "stored cr s (concat (first # rest)) (sent_batches ts False rest) s'" "full_but_last (first # rest)"
    by blast
  moreover have "concat (sent_batches ts False rest) = filter (\<lambda>h. ts \<le> bh_time h) (concat rest)"
    if "sorted (map bh_time (concat rest))" "[] \<notin> set rest"
    using sent_batches_sorted [OF that, of ts False] by simp
  ultimately show ?thesis
    by (intro exI [of _ first] exI [of _ rest] exI [of _ "sent_batches ts False rest"])
      (auto simp: stored_def load_header_heights_nth simp del: concat.simps)
qed

text \<open>
  A node that answers completes the download: when the last connected node sends its headers in
  batches, full but for the last one, not empty after the first, and each passing the proof-of-work
  check, the headers of all batches are stored and the node is back in the list.
\<close>

theorem honest_node_completes:
  assumes "dl_nodes s = nodes @ [node]" and "serves cr (b # bs) node" and "full_but_last (b # bs)"
    and "batch_ok cr b" and "\<forall>b \<in> set bs. batch_ok cr b \<and> b \<noteq> []"
    and "dl_headers s \<noteq> []" and "dl_queue_open s"
    and "get_first_block_timestamp parse_date config = Ok ts" and "\<And>p. length (get_checksum cr p) = 4"
  shows "\<exists>node' s'. download_missing_headers cr parse_date config s = (Ok (), s') \<and>
    dl_headers s' = dl_headers s @ concat (b # bs) \<and> dl_queue s' = dl_queue s @ sent_batches ts False bs \<and>
    dl_nodes s' = nodes @ [node']"
  using download_missing_headers_served [OF assms] by (auto simp: stored_def)

text \<open>
  The header download ends: with success, and then the nodes that failed have been dropped from
  the end of the list while the one that answered is back in it; or with an error, and then no node is
  left or the block download has closed its channel; or by a panic.
\<close>

theorem header_download_ends:
  "case download_missing_headers cr parse_date config s of
     (Ok _, t) \<Rightarrow> \<exists>k < length (dl_nodes s). \<exists>node. dl_nodes t = take k (dl_nodes s) @ [node]
   | (Err e, t) \<Rightarrow> dl_nodes t = [] \<or> (\<exists>msg. e = ThreadChannelError msg)
   | (Panic, t) \<Rightarrow> True"
proof (cases "dl_nodes s = []")
  case True
  then show ?thesis
    by (simp add: download_missing_headers_def act_then_def get_node_def)
next
  case False
  let ?s = "s\<lparr>dl_nodes := butlast (dl_nodes s)\<rparr>"
  have g: "get_node s = (Ok (last (dl_nodes s)), ?s)"
    using False by (simp add: get_node_def)
  obtain r t where m: "missing_headers_from_nodes cr parse_date config (last (dl_nodes s)) ?s = (r, t)"
    by fastforce
  have e: "ended (butlast (dl_nodes s)) (r, t)"
    using missing_headers_ended [of ?s cr parse_date config "last (dl_nodes s)"] m by simp
  show ?thesis
  proof (cases r)
    case (Ok node)
    from e Ok obtain k where k: "k \<le> length (butlast (dl_nodes s))" "dl_nodes t = take k (butlast (dl_nodes s))"
      by auto
    have "k < length (dl_nodes s)"
      using k(1) False by (cases "dl_nodes s" rule: rev_cases) auto
    moreover have "take k (butlast (dl_nodes s)) = take k (dl_nodes s)"
      using k(1) by (simp add: butlast_conv_take min_absorb1)
    ultimately show ?thesis
      using Ok m k(2) by (auto simp: download_missing_headers_def g action_simps)
  next
    case (Err err)
    with e m show ?thesis
      by (auto simp: download_missing_headers_def g act_then_def)
  next
    case Panic
    with m show ?thesis
      by (simp add: download_missing_headers_def g act_then_def)
  qed
qed

text \<open>
  The file of headers reads back when it is made of full batches: the headers are appended and
  indexed as they were. When an incomplete batch follows them (the last batch that a peer had was
  shorter than 2000 headers), the start of the program panics.
\<close>

theorem headers_file_reads_back:
  assumes "\<forall>b \<in> set bs. length b = 2000 \<and> (\<forall>h \<in> set b. wf_header h)"
  shows "(\<exists>t. read_headers_from_disk_act cr (Ok (concat (map headers_payload bs))) s = (Ok (), t) \<and>
      dl_headers t = dl_headers s @ concat bs \<and>
      dl_heights t = load_header_heights cr (concat bs) (dl_heights s) (dl_headers s)) \<and>
    (\<forall>extra. extra \<noteq> [] \<and> length extra < HEADERS_MESSAGE_SIZE \<longrightarrow>
      fst (read_headers_from_disk_act cr (Ok (concat (map headers_payload bs) @ extra)) s) = Panic)"
  using full_batches_read [OF assms] by blast


subsection \<open>A sample download\<close>

definition sample_batches :: "BlockHeader list list" where
  "sample_batches = [replicate 2000 sample_header, [sample_header]]"

definition sample_remote :: remote where
  "sample_remote = \<lparr>stream = \<lparr>inp = headers_stream sample_crypto sample_batches, outp = []\<rparr>, writes_left = None\<rparr>"

definition sample_download :: "remote list \<Rightarrow> download" where
  "sample_download nodes =
     \<lparr>dl_headers = [GENESIS_BLOCK_HEADER], dl_heights = Map.empty, dl_nodes = nodes, dl_blocks = Map.empty,
      dl_queue = [], dl_queue_open = True, dl_utxo_queue = [], dl_file = [], dl_ui = []\<rparr>"

lemma sample_batch_facts:
  "serves sample_crypto sample_batches sample_remote" "full_but_last sample_batches"
  "\<forall>b \<in> set sample_batches. batch_ok sample_crypto b \<and> b \<noteq> []" "length (get_checksum sample_crypto p) = 4"
  by (auto simp: serves_def sample_remote_def sample_batches_def full_but_last_def batch_ok_def wf_header_def
      sample_header_def BlockHeader_new_def checked_def get_checksum_def sha256d_def sample_crypto_def)
    (use sample_header_pow in \<open>simp_all add: sample_header_def BlockHeader_new_def sample_crypto_def\<close>)

theorem honest_node_completes_witness:
  "\<exists>node' s'. download_missing_headers sample_crypto (\<lambda>d f. Ok 0) initial_config (sample_download [sample_remote]) = (Ok (), s') \<and>
     dl_headers s' = GENESIS_BLOCK_HEADER # replicate 2001 sample_header \<and> dl_queue s' = [[sample_header]] \<and>
     dl_nodes s' = [node']"
proof -
  have ts: "get_first_block_timestamp (\<lambda>d f. Ok 0) initial_config = Ok 0"
    by (simp add: get_first_block_timestamp_def)
  have "replicate 2000 sample_header @ [sample_header] = replicate 2001 sample_header"
    using replicate_append_same [of 2000 sample_header] by (simp flip: replicate_Suc)
  with honest_node_completes [of "sample_download [sample_remote]" "[]" sample_remote sample_crypto
      "replicate 2000 sample_header" "[[sample_header]]", OF _ _ _ _ _ _ _ ts sample_batch_facts(4)]
    sample_batch_facts(1-3) show ?thesis
    by (simp add: sample_download_def sample_batches_def)
qed

theorem headers_download_exact_witness:
  "\<exists>node' s' first rest. download_missing_headers_from_node sample_crypto (\<lambda>d f. Ok 0) initial_config sample_remote
      (sample_download []) = (Ok node', s') \<and> full_but_last (first # rest) \<and>
    dl_queue s' = sent_batches 0 False rest"
proof -
  have ts: "get_first_block_timestamp (\<lambda>d f. Ok 0) initial_config = Ok 0"
    by (simp add: get_first_block_timestamp_def)
  obtain node' s' where m: "download_missing_headers_from_node sample_crypto (\<lambda>d f. Ok 0) initial_config sample_remote
      (sample_download []) = (Ok node', s')"
    using missing_headers_served [of sample_crypto "replicate 2000 sample_header" "[[sample_header]]" sample_remote
        "sample_download []", OF _ _ _ _ _ _ ts sample_batch_facts(4)] sample_batch_facts(1-3)
    by (auto simp: sample_download_def sample_batches_def)
  from headers_download_exact [OF m ts] m show ?thesis
    by (fastforce simp: sample_download_def)
qed

theorem headers_file_reads_back_witness:
  "\<exists>t. read_headers_from_disk_act sample_crypto (Ok (headers_payload (replicate 2000 sample_header))) (sample_download []) =
      (Ok (), t) \<and> length (dl_headers t) = 2001"
  using headers_file_reads_back [of "[replicate 2000 sample_header]" sample_crypto "sample_download []"]
  by (auto simp: wf_header_def sample_header_def BlockHeader_new_def sample_download_def)

end
