(* ===== verification/Blocks_Download.thy ===== *)
theory Blocks_Download
  imports Headers_Facts
begin

section \<open>Downloading the blocks (src/blockchain\_download/blocks\_download.rs)\<close>

text \<open>
  The blocks of the headers that the header download has sent, asked for in small groups, validated,
  passed on to the thread that updates the UTXO set and added to the shared map. In the mode with
  several nodes a batch is divided among threads, one node each: a thread whose node fails sends its
  whole part back to the channel and ends without an error. A thread is a \<open>worker\<close>; one of its moves
  fetches a group, and the last one stores what it has.
\<close>

text \<open>Whether there is a channel to send the headers back on is a flag.\<close>

definition try_to_download_blocks_from_other_node :: "bool \<Rightarrow> BlockHeader list \<Rightarrow> unit action" where
  "try_to_download_blocks_from_other_node tx headers_read = (if tx then send_headers headers_read else lift (Ok ()))"

definition request_blocks_from_node ::
  "crypto \<Rightarrow> remote \<Rightarrow> BlockHeader list \<Rightarrow> BlockHeader list \<Rightarrow> bool \<Rightarrow> remote action" where
  "request_blocks_from_node cr node blocks_chunk_to_download blocks_to_download tx =
     (let inventory = map (\<lambda>h. Inventory_new_block (BlockHeader_hash cr h)) blocks_chunk_to_download in
      case sending (GetDataMessage_write_to (GetDataMessage_new cr inventory)) node of
        Ok node \<Rightarrow> lift (Ok node)
      | Err err \<Rightarrow>
          act_then (try_to_download_blocks_from_other_node tx blocks_to_download) (\<lambda>_.
          lift (Err (WriteNodeError err)))
      | Panic \<Rightarrow> lift Panic)"

fun receive_blocks ::
  "crypto \<Rightarrow> nat \<Rightarrow> remote \<Rightarrow> BlockHeader list \<Rightarrow> bool \<Rightarrow> Block list \<Rightarrow> (Block list \<times> remote) action" where
  "receive_blocks cr 0 node blocks_to_download tx current_blocks = lift (Ok (current_blocks, node))"
| "receive_blocks cr (Suc n) node blocks_to_download tx current_blocks =
     (case receiving (BlockMessage_read_from cr) node of
        Err err \<Rightarrow>
          act_then (try_to_download_blocks_from_other_node tx blocks_to_download) (\<lambda>_.
          lift (Err (ReadNodeError (''Error at receiving `block` message: '' @ err))))
      | Panic \<Rightarrow> lift Panic
      | Ok (block, node) \<Rightarrow>
          act_then (lift (Block_validate cr block)) (\<lambda>validation_result.
          if \<not> fst validation_result then
            act_then (try_to_download_blocks_from_other_node tx blocks_to_download) (\<lambda>_.
            lift (Err (ReadNodeError (''Error at receiving `block` message: '' @ snd validation_result))))
          else receive_blocks cr n node blocks_to_download tx (current_blocks @ [block])))"

definition receive_requested_blocks_from_node ::
  "crypto \<Rightarrow> remote \<Rightarrow> BlockHeader list \<Rightarrow> BlockHeader list \<Rightarrow> bool \<Rightarrow> (Block list \<times> remote) action" where
  "receive_requested_blocks_from_node cr node blocks_chunk_to_download blocks_to_download tx =
     receive_blocks cr (length blocks_chunk_to_download) node blocks_to_download tx []"

definition insert_blocks :: "crypto \<Rightarrow> Block list \<Rightarrow> (hash32 \<rightharpoonup> Block) \<Rightarrow> (hash32 \<rightharpoonup> Block)" where
  "insert_blocks cr bs m = fold (\<lambda>block m. m(Block_hash cr block \<mapsto> block)) bs m"

text \<open>One turn of the loop over the groups: the node and the blocks fetched so far.\<close>

definition fetch_group ::
  "crypto \<Rightarrow> bool \<Rightarrow> BlockHeader list \<Rightarrow> BlockHeader list \<Rightarrow> remote \<times> (hash32 \<rightharpoonup> Block) \<Rightarrow>
     (remote \<times> (hash32 \<rightharpoonup> Block)) action" where
  "fetch_group cr tx block_headers blocks_to_download = (\<lambda>(node, current_blocks).
     act_then (request_blocks_from_node cr node blocks_to_download block_headers tx) (\<lambda>node.
     act_then (receive_requested_blocks_from_node cr node blocks_to_download block_headers tx) (\<lambda>(received_blocks, node).
     act_then (modify (\<lambda>s. s\<lparr>dl_utxo_queue := dl_utxo_queue s @ [received_blocks]\<rparr>)) (\<lambda>_.
     lift (Ok (node, insert_blocks cr received_blocks current_blocks))))))"

definition add_blocks_downloaded_to_local_blocks :: "Config \<Rightarrow> (hash32 \<rightharpoonup> Block) \<Rightarrow> unit action" where
  "add_blocks_downloaded_to_local_blocks config downloaded_blocks =
     act_then (modify (\<lambda>s. s\<lparr>dl_blocks := dl_blocks s ++ downloaded_blocks\<rparr>)) (\<lambda>_.
     act_then (inspect (\<lambda>s. usize_sub (amount_of_headers s) (height_first_block_to_download config)))
       (\<lambda>total_blocks_to_download.
     \<lambda>s. send_ui (UpdateBlocksDownloaded (amount_of_blocks s) total_blocks_to_download) s))"

subsection \<open>From a single node\<close>

fun fetch_groups ::
  "crypto \<Rightarrow> BlockHeader list \<Rightarrow> BlockHeader list list \<Rightarrow> remote \<times> (hash32 \<rightharpoonup> Block) \<Rightarrow>
     (remote \<times> (hash32 \<rightharpoonup> Block)) action" where
  "fetch_groups cr block_headers [] nc = lift (Ok nc)"
| "fetch_groups cr block_headers (blocks_to_download # groups) nc =
     act_then (fetch_group cr False block_headers blocks_to_download nc) (fetch_groups cr block_headers groups)"

definition download_blocks_single_node :: "crypto \<Rightarrow> Config \<Rightarrow> BlockHeader list \<Rightarrow> remote \<Rightarrow> remote action" where
  "download_blocks_single_node cr config block_headers node =
     act_then (lift (chunks (blocks_download_per_node config) block_headers)) (\<lambda>groups.
     act_then (fetch_groups cr block_headers groups (node, Map.empty)) (\<lambda>(node, current_blocks).
     act_then (add_blocks_downloaded_to_local_blocks config current_blocks) (\<lambda>_.
     lift (Ok node))))"

subsection \<open>With several threads\<close>

datatype worker =
    Fetching remote "BlockHeader list list" "BlockHeader list" "hash32 \<rightharpoonup> Block"
  | Ended "(unit, NodeCustomErrors) result"

fun worker_result :: "worker \<Rightarrow> (unit, NodeCustomErrors) result option" where
  "worker_result (Fetching node groups block_headers current_blocks) = None"
| "worker_result (Ended r) = Some r"

text \<open>A move of \<open>download_blocks_single_thread\<close>.\<close>

fun download_blocks_single_thread :: "crypto \<Rightarrow> Config \<Rightarrow> worker \<Rightarrow> download \<Rightarrow> worker \<times> download" where
  "download_blocks_single_thread cr config (Fetching node (blocks_to_download # groups) block_headers current_blocks) s =
     (case fetch_group cr True block_headers blocks_to_download (node, current_blocks) s of
        (Ok (node, current_blocks), s) \<Rightarrow> (Fetching node groups block_headers current_blocks, s)
      | (Err (WriteNodeError _), s) \<Rightarrow> (Ended (Ok ()), s)
      | (Err (ReadNodeError _), s) \<Rightarrow> (Ended (Ok ()), s)
      | (Err error, s) \<Rightarrow> (Ended (Err error), s)
      | (Panic, s) \<Rightarrow> (Ended Panic, s))"
| "download_blocks_single_thread cr config (Fetching node [] block_headers current_blocks) s =
     (let (r, s) = act_then (add_blocks_downloaded_to_local_blocks config current_blocks)
                     (\<lambda>_. return_node_to_vec node) s
      in (Ended r, s))"
| "download_blocks_single_thread cr config (Ended r) s = (Ended r, s)"

text \<open>\<open>download_blocks_chunck\<close> takes a node and starts a thread; dividing its part into groups of zero panics there.\<close>

definition download_blocks_chunck :: "Config \<Rightarrow> BlockHeader list \<Rightarrow> worker action" where
  "download_blocks_chunck config block_headers =
     act_then get_node (\<lambda>node.
     lift (Ok (case chunks (blocks_download_per_node config) block_headers :: (BlockHeader list list, unit) result of
                 Ok groups \<Rightarrow> Fetching node groups block_headers Map.empty
               | _ \<Rightarrow> Ended Panic)))"

fun start_workers :: "Config \<Rightarrow> BlockHeader list list \<Rightarrow> worker list action" where
  "start_workers config [] = lift (Ok [])"
| "start_workers config (part # parts) =
     act_then (download_blocks_chunck config part) (\<lambda>w.
     act_then (start_workers config parts) (\<lambda>ws. lift (Ok (w # ws))))"

definition divide_blocks_to_download_in_equal_chunks ::
  "BlockHeader list \<Rightarrow> nat \<Rightarrow> (BlockHeader list list, NodeCustomErrors) result" where
  "divide_blocks_to_download_in_equal_chunks blocks_to_download n =
     chunks (equal_chunk_size (length blocks_to_download) n) blocks_to_download"

datatype blocks_thread = Waiting | Joining "worker list" | Stopped "(unit, NodeCustomErrors) result"

definition close_queue :: "download \<Rightarrow> download" where
  "close_queue s = s\<lparr>dl_queue_open := False\<rparr>"

text \<open>
  The moves of \<open>download_blocks\<close>: taking a batch from the channel and starting threads for it; and,
  when they have all been joined, comparing the number of blocks with the number expected. When the
  channel is empty it waits, as it holds a sender of its own channel.
\<close>

definition start_batch :: "Config \<Rightarrow> BlockHeader list \<Rightarrow> download \<Rightarrow> blocks_thread \<times> download" where
  "start_batch config blocks_to_download s =
     (if blocks_to_download = [] then
        (Stopped (Err (ThreadChannelError ''The list has 0 elements!'')), close_queue s)
      else
        let n = (if length blocks_to_download \<le> blocks_download_per_node config then 1 else n_threads config) in
        case act_then (lift (divide_blocks_to_download_in_equal_chunks blocks_to_download n)) (start_workers config) s of
          (Ok ws, s) \<Rightarrow> (Joining ws, s)
        | (Err e, s) \<Rightarrow> (Stopped (Err e), close_queue s)
        | (Panic, s) \<Rightarrow> (Stopped Panic, close_queue s))"

definition finish_batch :: "Config \<Rightarrow> download \<Rightarrow> blocks_thread \<times> download" where
  "finish_batch config s =
     (case usize_sub (amount_of_headers s) (height_first_block_to_download config) :: (nat, unit) result of
        Ok total_blocks_to_download \<Rightarrow>
          if amount_of_blocks s = total_blocks_to_download then (Stopped (Ok ()), close_queue s) else (Waiting, s)
      | _ \<Rightarrow> (Stopped Panic, close_queue s))"

fun download_blocks :: "Config \<Rightarrow> blocks_thread \<Rightarrow> download \<Rightarrow> (blocks_thread \<times> download) option" where
  "download_blocks config Waiting s =
     (case dl_queue s of
        [] \<Rightarrow> None
      | blocks_to_download # q \<Rightarrow> Some (start_batch config blocks_to_download (s\<lparr>dl_queue := q\<rparr>)))"
| "download_blocks config (Joining ws) s =
     (case join_threads (map worker_result ws) of
        None \<Rightarrow> None
      | Some (Ok _) \<Rightarrow> Some (finish_batch config s)
      | Some (Err e) \<Rightarrow> Some (Stopped (Err e), close_queue s)
      | Some Panic \<Rightarrow> Some (Stopped Panic, close_queue s))"
| "download_blocks config (Stopped r) s = None"


subsection \<open>What fetching changes\<close>

definition good_block :: "crypto \<Rightarrow> Block \<Rightarrow> bool" where
  "good_block cr b \<longleftrightarrow> wf_block b \<and> valid_block cr b"

definition good_blocks :: "crypto \<Rightarrow> (hash32 \<rightharpoonup> Block) \<Rightarrow> bool" where
  "good_blocks cr m \<longleftrightarrow> finite (dom m) \<and> (\<forall>h b. m h = Some b \<longrightarrow> Block_hash cr b = h \<and> good_block cr b)"

lemma good_blocks_empty [simp]: "good_blocks cr Map.empty"
  by (simp add: good_blocks_def)

lemma good_blocks_add: "good_blocks cr m \<Longrightarrow> good_blocks cr m' \<Longrightarrow> good_blocks cr (m ++ m')"
  by (simp add: good_blocks_def map_add_Some_iff) blast

lemma good_blocks_update: "good_blocks cr m \<Longrightarrow> good_block cr b \<Longrightarrow> good_blocks cr (m(Block_hash cr b \<mapsto> b))"
  by (auto simp: good_blocks_def split: if_splits)

lemma insert_blocks_Nil [simp]: "insert_blocks cr [] m = m"
  by (simp add: insert_blocks_def)

lemma insert_blocks_Cons [simp]: "insert_blocks cr (b # bs) m = insert_blocks cr bs (m(Block_hash cr b \<mapsto> b))"
  by (simp add: insert_blocks_def)

lemma insert_blocks_append: "insert_blocks cr (xs @ ys) m = insert_blocks cr ys (insert_blocks cr xs m)"
  by (simp add: insert_blocks_def)

lemma insert_blocks_add: "insert_blocks cr bs m = m ++ insert_blocks cr bs Map.empty"
proof (induction bs rule: rev_induct)
  case (snoc b bs)
  then show ?case
    by (simp add: insert_blocks_append fun_eq_iff map_add_def)
qed (simp add: insert_blocks_def)

lemma good_insert_blocks: "list_all (good_block cr) bs \<Longrightarrow> good_blocks cr m \<Longrightarrow> good_blocks cr (insert_blocks cr bs m)"
  by (induction bs arbitrary: m) (simp_all add: good_blocks_update)

lemma insert_blocks_dom: "dom (insert_blocks cr bs m) = dom m \<union> Block_hash cr ` set bs"
  by (induction bs arbitrary: m) auto

text \<open>The invariant of the blocks, and how they and the channel of the UTXO thread grow.\<close>

definition blocks_ok :: "crypto \<Rightarrow> download \<Rightarrow> bool" where
  "blocks_ok cr s \<longleftrightarrow> good_blocks cr (dl_blocks s) \<and> (\<forall>bs \<in> set (dl_utxo_queue s). list_all (good_block cr) bs)"

definition fetched_by :: "crypto \<Rightarrow> download \<Rightarrow> download \<Rightarrow> bool" where
  "fetched_by cr s t \<longleftrightarrow> (blocks_ok cr s \<longrightarrow> blocks_ok cr t) \<and> dl_headers t = dl_headers s \<and>
     dom (dl_blocks s) \<subseteq> dom (dl_blocks t) \<and> (\<exists>new. dl_utxo_queue t = dl_utxo_queue s @ new)"

lemma fetched_by_refl [simp]: "fetched_by cr s s"
  by (simp add: fetched_by_def)

lemma fetched_by_trans: "fetched_by cr s t \<Longrightarrow> fetched_by cr t u \<Longrightarrow> fetched_by cr s u"
  by (fastforce simp: fetched_by_def)

named_theorems fetch_steps \<comment> \<open>parts of the block download keep \<open>fetched_by\<close>\<close>

lemmas [fetch_steps] = steps_by_then [where R = "fetched_by cr" for cr, OF fetched_by_trans]

lemma fetch_steps_basic [fetch_steps]:
  "steps_by (fetched_by cr) (lift r)" "steps_by (fetched_by cr) (inspect f)"
  "steps_by (fetched_by cr) (send_ui e)" "steps_by (fetched_by cr) (\<lambda>s. send_ui (g s) s)"
  "steps_by (fetched_by cr) (send_headers hs)" "steps_by (fetched_by cr) (return_node_to_vec node)"
  "steps_by (fetched_by cr) get_node"
  by (auto simp: steps_by_def fetched_by_def action_simps blocks_ok_def get_node_def)

lemma try_other_steps [fetch_steps]: "steps_by (fetched_by cr) (try_to_download_blocks_from_other_node tx hs)"
  by (simp add: try_to_download_blocks_from_other_node_def fetch_steps)

lemma request_blocks_steps [fetch_steps]: "steps_by (fetched_by cr) (request_blocks_from_node cr' node part hs tx)"
  by (auto simp: request_blocks_from_node_def Let_def intro!: fetch_steps split: result.splits)

lemma receive_blocks_steps [fetch_steps]: "steps_by (fetched_by cr) (receive_blocks cr' n node hs tx acc)"
proof (induction n arbitrary: node acc)
  case (Suc n)
  then show ?case
    by (auto intro!: fetch_steps split: result.splits)
qed (simp add: fetch_steps)

text \<open>A block that was read and validated is good.\<close>

lemma read_block_wf: "receiving (BlockMessage_read_from cr) node = Ok (b, node') \<Longrightarrow> wf_block b"
  by (auto simp: receiving_Ok_iff BlockMessage_read_from_def BlockMessage_unmarshalling_def and_then_eq_Ok
      block.dec_iff)

lemma receive_blocks_good:
  assumes len: "\<And>x. length (sha256d cr x) = 32"
  shows "receive_blocks cr n node hs tx acc s = (Ok (bs, node'), t) \<Longrightarrow> list_all (good_block cr) acc \<Longrightarrow>
    list_all (good_block cr) bs \<and> length bs = length acc + n \<and> t = s"
proof (induction n arbitrary: node acc)
  case (Suc n)
  from Suc.prems(1) obtain b node1 v where r: "receiving (BlockMessage_read_from cr) node = Ok (b, node1)"
      and v: "Block_validate cr b = (Ok v :: (bool \<times> string, NodeCustomErrors) result)" "fst v"
      and l: "receive_blocks cr n node1 hs tx (acc @ [b]) s = (Ok (bs, node'), t)"
    by (auto simp: act_then_eq_Ok lift_def split: result.split_asm if_split_asm)
  have "length (Block_hash cr b) = 32"
    by (simp add: Block_hash_def BlockHeader_hash_def len)
  with Block_validate_fst [OF this v(1)] v(2) read_block_wf [OF r] have "good_block cr b"
    by (simp add: good_block_def)
  with Suc.IH [OF l] Suc.prems(2) show ?case
    by simp
qed (simp add: lift_def)

lemma fetch_group_Ok:
  assumes "\<And>x. length (sha256d cr x) = 32" and "fetch_group cr tx hs part (node, cur) s = (Ok (node', cur'), t)"
  shows "\<exists>bs. list_all (good_block cr) bs \<and> length bs = length part \<and> cur' = insert_blocks cr bs cur \<and>
    t = s\<lparr>dl_utxo_queue := dl_utxo_queue s @ [bs]\<rparr>"
proof -
  from assms(2) obtain node1 s1 bs node2 s2 where
      q: "request_blocks_from_node cr node part hs tx s = (Ok node1, s1)"
      and r: "receive_requested_blocks_from_node cr node1 part hs tx s1 = (Ok (bs, node2), s2)"
      and t: "cur' = insert_blocks cr bs cur" "t = s2\<lparr>dl_utxo_queue := dl_utxo_queue s2 @ [bs]\<rparr>"
    by (auto simp: fetch_group_def act_then_eq_Ok action_simps)
  have "s1 = s"
    using q by (auto simp: request_blocks_from_node_def Let_def act_then_eq_Ok lift_def split: result.split_asm)
  with receive_blocks_good [OF assms(1) r [unfolded receive_requested_blocks_from_node_def]] t show ?thesis
    by auto
qed

lemma fetch_group_steps:
  assumes len: "\<And>x. length (sha256d cr x) = 32"
  shows "steps_by (fetched_by cr) (fetch_group cr tx hs part nc)"
  unfolding steps_by_def
proof
  fix s
  obtain node cur where nc: "nc = (node, cur)" by (cases nc)
  obtain r t where m: "fetch_group cr tx hs part nc s = (r, t)" by fastforce
  show "fetched_by cr s (snd (fetch_group cr tx hs part nc s))"
  proof (cases "\<exists>x. r = Ok x")
    case True
    then obtain node' cur' where "fetch_group cr tx hs part (node, cur) s = (Ok (node', cur'), t)"
      using m nc by (metis surj_pair)
    from fetch_group_Ok [OF len this] m show ?thesis
      by (auto simp: fetched_by_def blocks_ok_def)
  next
    case False
    define front where "front = act_then (request_blocks_from_node cr node part hs tx)
      (\<lambda>node. receive_requested_blocks_from_node cr node part hs tx)"
    have "steps_by (fetched_by cr) front"
      by (simp add: front_def receive_requested_blocks_from_node_def fetch_steps)
    moreover obtain r' where f: "front s = (r', t)" 
      using m False
      by (auto simp: fetch_group_def nc front_def act_then_def action_simps split: prod.splits result.splits)
    ultimately have "fetched_by cr s t"
      by (rule steps_by_run)
    with m show ?thesis by simp
  qed
qed

lemma add_blocks_fetched:
  assumes "good_blocks cr cur"
  shows "steps_by (fetched_by cr) (add_blocks_downloaded_to_local_blocks config cur)"
proof -
  have "steps_by (fetched_by cr) (modify (\<lambda>s. s\<lparr>dl_blocks := dl_blocks s ++ cur\<rparr>))"
    using assms by (auto simp: steps_by_def modify_def fetched_by_def blocks_ok_def good_blocks_add)
  then show ?thesis
    unfolding add_blocks_downloaded_to_local_blocks_def by (intro fetch_steps)
qed

lemma fetch_groups_good:
  assumes len: "\<And>x. length (sha256d cr x) = 32"
  shows "fetch_groups cr hs groups (node, cur) s = (r, t) \<Longrightarrow> good_blocks cr cur \<Longrightarrow>
    fetched_by cr s t \<and> (\<forall>node' cur'. r = Ok (node', cur') \<longrightarrow> good_blocks cr cur')"
proof (induction groups arbitrary: node cur s)
  case (Cons part groups)
  obtain r1 t1 where m: "fetch_group cr False hs part (node, cur) s = (r1, t1)" by fastforce
  have st: "fetched_by cr s t1"
    by (rule steps_by_run [OF fetch_group_steps [OF len] m])
  show ?case
  proof (cases r1)
    case (Ok x)
    obtain node1 cur1 where x: "x = (node1, cur1)" by (cases x)
    from fetch_group_Ok [OF len m [unfolded Ok x]] Cons.prems(2) have "good_blocks cr cur1"
      by (auto intro: good_insert_blocks)
    moreover have "fetch_groups cr hs groups (node1, cur1) t1 = (r, t)"
      using Cons.prems(1) m Ok x by simp
    ultimately show ?thesis
      using Cons.IH fetched_by_trans [OF st] by blast
  qed (use Cons.prems(1) m st in \<open>auto simp: act_then_def\<close>)
qed (auto simp: lift_def)

lemma single_node_fetched:
  assumes "\<And>x. length (sha256d cr x) = 32"
  shows "steps_by (fetched_by cr) (download_blocks_single_node cr config hs node)"
  unfolding steps_by_def
proof
  fix s
  show "fetched_by cr s (snd (download_blocks_single_node cr config hs node s))"
  proof (cases "chunks (blocks_download_per_node config) hs :: (BlockHeader list list, NodeCustomErrors) result")
    case (Ok groups)
    obtain r t where m: "fetch_groups cr hs groups (node, Map.empty) s = (r, t)" by fastforce
    note g = fetch_groups_good [OF assms m good_blocks_empty]
    show ?thesis
    proof (cases r)
      case rOk: (Ok x)
      obtain node' cur' where x: "x = (node', cur')" by (cases x)
      with rOk g have "good_blocks cr cur'" by simp
      then have "steps_by (fetched_by cr) (act_then (add_blocks_downloaded_to_local_blocks config cur') (\<lambda>_. lift (Ok node')))"
        by (intro fetch_steps add_blocks_fetched)
      with g m Ok rOk x show ?thesis
        by (simp add: download_blocks_single_node_def action_simps steps_by_def) (metis fetched_by_trans)
    qed (use g m Ok in \<open>simp_all add: download_blocks_single_node_def action_simps act_then_def\<close>)
  qed (simp_all add: download_blocks_single_node_def action_simps)
qed


subsection \<open>A node that serves the blocks\<close>

definition blocks_stream :: "crypto \<Rightarrow> Block list \<Rightarrow> bytes" where
  "blocks_stream cr bs = concat (map (\<lambda>b. frame cr ''block'' (Block_marshalling b)) bs)"

definition serves_blocks :: "crypto \<Rightarrow> Block list \<Rightarrow> remote \<Rightarrow> bool" where
  "serves_blocks cr bs node \<longleftrightarrow> (\<exists>rest. inp (stream node) = blocks_stream cr bs @ rest) \<and> writes_left node = None"

lemma blocks_stream_append: "blocks_stream cr (xs @ ys) = blocks_stream cr xs @ blocks_stream cr ys"
  by (simp add: blocks_stream_def)

lemma block_name: "command_ok ''block''"
  by (simp add: command_ok_def padded_def as_bytes_def compute)

lemma checksum_length: "digest_lengths cr \<Longrightarrow> length (get_checksum cr p) = 4"
  by (simp add: get_checksum_def sha_length)

lemma good_block_facts:
  assumes "good_block cr b"
  shows "wf_block b" "valid_block cr b" "unat (of_nat (length (Block_marshalling b)) :: u32) = length (Block_marshalling b)"
proof -
  show "wf_block b" "valid_block cr b"
    using assms by (simp_all add: good_block_def)
  then show "unat (of_nat (length (Block_marshalling b)) :: u32) = length (Block_marshalling b)"
    by (simp add: valid_block_def unat_of_nat)
qed

text \<open>The node after some of what it sent was read and something was written to it.\<close>

definition advanced :: "remote \<Rightarrow> bytes \<Rightarrow> bytes \<Rightarrow> remote" where
  "advanced node left new = node\<lparr>stream := \<lparr>inp = left, outp = outp (stream node) @ new\<rparr>\<rparr>"

lemma advanced_simps [simp]:
  "advanced (advanced node i o') i' o'' = advanced node i' (o' @ o'')"
  "inp (stream (advanced node i o')) = i" "writes_left (advanced node i o') = writes_left node"
  by (simp_all add: advanced_def)

lemma block_exact:
  assumes "inp (stream node) = frame cr ''block'' (Block_marshalling b) @ rest" and "good_block cr b" and "digest_lengths cr"
  shows "receiving (BlockMessage_read_from cr) node = Ok (b, advanced node rest [])"
proof -
  have "HeaderMessage_read_from cr (stream node) ''block'' None =
      Ok (frame_head cr ''block'' (Block_marshalling b), \<lparr>inp = Block_marshalling b @ rest, outp = outp (stream node)\<rparr>)"
    using read_from_skips [OF block_name checksum_length [OF assms(3)], where payload = "Block_marshalling b"
        and ms = "[]" and rest = "Block_marshalling b @ rest" and out = "outp (stream node)"] assms(1)
    by (cases "stream node") (simp add: frame_def)
  moreover have "BlockMessage_unmarshalling (Block_marshalling b) = Ok b"
    using good_block_facts(1) [OF assms(2)] by (simp add: BlockMessage_unmarshalling_def block.dec_enc_whole)
  ultimately have "BlockMessage_read_from cr (stream node) = Ok (b, \<lparr>inp = rest, outp = outp (stream node)\<rparr>)"
    using good_block_facts(3) [OF assms(2)]
    by (simp add: BlockMessage_read_from_def frame_head_def read_exact_append)
  then show ?thesis
    by (simp add: receiving_def advanced_def)
qed

lemma blocks_exact:
  assumes "digest_lengths cr"
  shows "inp (stream node) = blocks_stream cr bs @ rest \<Longrightarrow> list_all (good_block cr) bs \<Longrightarrow>
    receive_blocks cr (length bs) node hs tx acc s = (Ok (acc @ bs, advanced node rest []), s)"
proof (induction bs arbitrary: node acc)
  case Nil
  then show ?case
    by (cases node) (simp add: action_simps blocks_stream_def advanced_def)
next
  case (Cons b bs)
  then have r: "receiving (BlockMessage_read_from cr) node = Ok (b, advanced node (blocks_stream cr bs @ rest) [])"
    using assms by (intro block_exact) (simp_all add: blocks_stream_def)
  have "Block_validate cr b = (Ok (True, ''Valid block'') :: (bool \<times> string, NodeCustomErrors) result)"
    using Cons.prems(2) by (intro Block_validate_valid hash_lengths [OF assms]) (simp add: good_block_def)
  with r Cons.IH [of "advanced node (blocks_stream cr bs @ rest) []" "acc @ [b]"] Cons.prems(2) show ?case
    by (simp add: action_simps)
qed

text \<open>What \<open>request_blocks_from_node\<close> writes.\<close>

abbreviation blocks_request :: "crypto \<Rightarrow> BlockHeader list \<Rightarrow> bytes" where
  "blocks_request cr part \<equiv>
     frame cr ''getdata'' (inventory_payload (map (\<lambda>h. Inventory_new_block (BlockHeader_hash cr h)) part))"

lemma request_blocks_exact:
  "writes_left node = None \<Longrightarrow>
     request_blocks_from_node cr node part hs tx s = (Ok (advanced node (inp (stream node)) (blocks_request cr part)), s)"
  by (cases node) (simp add: request_blocks_from_node_def sending_def GetDataMessage_write_to_def getdata_frame
      write_all_def lift_def advanced_def Let_def)

lemma group_exact:
  assumes "digest_lengths cr" and "inp (stream node) = blocks_stream cr bs @ rest" and "writes_left node = None"
    and "list_all (good_block cr) bs" and "length bs = length part"
  shows "fetch_group cr tx hs part (node, cur) s =
    (Ok (advanced node rest (blocks_request cr part), insert_blocks cr bs cur),
     s\<lparr>dl_utxo_queue := dl_utxo_queue s @ [bs]\<rparr>)"
  using blocks_exact [OF assms(1) _ assms(4), of "advanced node (inp (stream node)) (blocks_request cr part)" rest hs tx "[]" s]
    assms(2,3,5)
  by (simp add: fetch_group_def receive_requested_blocks_from_node_def request_blocks_exact action_simps)

lemma groups_exact:
  assumes "digest_lengths cr"
  shows "inp (stream node) = blocks_stream cr bs @ rest \<Longrightarrow> writes_left node = None \<Longrightarrow> list_all (good_block cr) bs \<Longrightarrow>
    length bs = length (concat groups) \<Longrightarrow>
    \<exists>new. fetch_groups cr hs groups (node, cur) s =
        (Ok (advanced node rest (concat (map (blocks_request cr) groups)), insert_blocks cr bs cur),
         s\<lparr>dl_utxo_queue := dl_utxo_queue s @ new\<rparr>) \<and> concat new = bs"
proof (induction groups arbitrary: bs node cur s)
  case Nil
  then show ?case
    by (cases node; intro exI [of _ "[]"]) (simp add: lift_def advanced_def blocks_stream_def)
next
  case (Cons part groups)
  let ?now = "take (length part) bs" and ?later = "drop (length part) bs"
  have split: "bs = ?now @ ?later" by simp
  have good: "list_all (good_block cr) ?now" "list_all (good_block cr) ?later"
    using Cons.prems(3) split by (metis list_all_append)+
  let ?node = "advanced node (blocks_stream cr ?later @ rest) (blocks_request cr part)"
  have "inp (stream node) = blocks_stream cr ?now @ blocks_stream cr ?later @ rest"
    using Cons.prems(1) split by (metis append_assoc blocks_stream_append)
  then have g: "fetch_group cr False hs part (node, cur) s =
      (Ok (?node, insert_blocks cr ?now cur), s\<lparr>dl_utxo_queue := dl_utxo_queue s @ [?now]\<rparr>)"
    using Cons.prems(2,4) by (intro group_exact assms good) simp_all
  from Cons.IH [of ?node ?later "insert_blocks cr ?now cur" "s\<lparr>dl_utxo_queue := dl_utxo_queue s @ [?now]\<rparr>"]
    good(2) Cons.prems(2,4) obtain new where "concat new = ?later"
      "fetch_groups cr hs groups (?node, insert_blocks cr ?now cur) (s\<lparr>dl_utxo_queue := dl_utxo_queue s @ [?now]\<rparr>) =
        (Ok (advanced ?node rest (concat (map (blocks_request cr) groups)), insert_blocks cr ?later (insert_blocks cr ?now cur)),
         s\<lparr>dl_utxo_queue := dl_utxo_queue s @ [?now] @ new\<rparr>)"
    by auto
  with g show ?case
    by (intro exI [of _ "?now # new"]) (simp add: insert_blocks_append [symmetric])
qed

lemma single_node_exact:
  assumes "digest_lengths cr" and "inp (stream node) = blocks_stream cr bs @ rest" and "writes_left node = None"
    and "list_all (good_block cr) bs" and "length bs = length hs" and "0 < blocks_download_per_node config"
    and "height_first_block_to_download config \<le> length (dl_headers s)"
  shows "\<exists>t new. download_blocks_single_node cr config hs node s =
      (Ok (advanced node rest (concat (map (blocks_request cr) (chunk_list (blocks_download_per_node config) hs)))), t) \<and>
    dl_blocks t = dl_blocks s ++ insert_blocks cr bs Map.empty \<and> dl_headers t = dl_headers s \<and> dl_nodes t = dl_nodes s \<and>
    dl_heights t = dl_heights s \<and> dl_queue t = dl_queue s \<and> dl_utxo_queue t = dl_utxo_queue s @ new \<and> concat new = bs"
proof -
  have "length bs = length (concat (chunk_list (blocks_download_per_node config) hs))"
    using assms(5,6) by (simp add: concat_chunk_list)
  from groups_exact [OF assms(1-4) this, of hs Map.empty s] assms(6,7) show ?thesis
    by (auto simp: download_blocks_single_node_def chunks_def add_blocks_downloaded_to_local_blocks_def action_simps
        amount_of_headers_def usize_sub_def)
qed

lemma single_node_served:
  assumes "digest_lengths cr" and "serves_blocks cr (bs @ after_them) node" and "list_all (good_block cr) bs"
    and "length bs = length hs" and "0 < blocks_download_per_node config"
    and "height_first_block_to_download config \<le> length (dl_headers s)"
  shows "\<exists>node' t new. download_blocks_single_node cr config hs node s = (Ok node', t) \<and> serves_blocks cr after_them node' \<and>
    dl_blocks t = dl_blocks s ++ insert_blocks cr bs Map.empty \<and> dl_headers t = dl_headers s \<and> dl_nodes t = dl_nodes s \<and>
    dl_heights t = dl_heights s \<and> dl_queue t = dl_queue s \<and> dl_utxo_queue t = dl_utxo_queue s @ new \<and> concat new = bs"
proof -
  obtain rest where "inp (stream node) = blocks_stream cr bs @ blocks_stream cr after_them @ rest" "writes_left node = None"
    using assms(2) by (auto simp: serves_blocks_def blocks_stream_append)
  from single_node_exact [OF assms(1) this assms(3-6)] this(2) show ?thesis
    by (fastforce simp: serves_blocks_def)
qed


subsection \<open>What a move of a thread does\<close>

fun worker_ok :: "crypto \<Rightarrow> worker \<Rightarrow> bool" where
  "worker_ok cr (Fetching node groups hs cur) = good_blocks cr cur"
| "worker_ok cr (Ended r) = True"

text \<open>A group that could not be fetched: the part is sent back and nothing else changes, or the channel is closed.\<close>

definition given_back :: "BlockHeader list \<Rightarrow> NodeCustomErrors \<Rightarrow> download \<Rightarrow> download \<Rightarrow> bool" where
  "given_back hs e s t \<longleftrightarrow>
     (if dl_queue_open s
      then t = s\<lparr>dl_queue := dl_queue s @ [hs]\<rparr> \<and> ((\<exists>m. e = WriteNodeError m) \<or> (\<exists>m. e = ReadNodeError m))
      else t = s \<and> (\<exists>m. e = ThreadChannelError m))"

lemma give_back:
  "act_then (try_to_download_blocks_from_other_node True hs) (\<lambda>_. lift (Err (WriteNodeError m))) s = (Err e, t) \<Longrightarrow>
     given_back hs e s t"
  "act_then (try_to_download_blocks_from_other_node True hs) (\<lambda>_. lift (Err (ReadNodeError m))) s = (Err e, t) \<Longrightarrow>
     given_back hs e s t"
  by (auto simp: try_to_download_blocks_from_other_node_def act_then_eq_Err action_simps given_back_def split: if_splits)

lemma request_blocks_state: "request_blocks_from_node cr node part hs tx s = (Ok node', t) \<Longrightarrow> t = s"
  by (auto simp: request_blocks_from_node_def Let_def act_then_eq_Ok lift_def split: result.split_asm)

lemma request_blocks_fails:
  "request_blocks_from_node cr node part hs True s = (Err e, t) \<Longrightarrow> given_back hs e s t"
  by (auto simp: request_blocks_from_node_def Let_def lift_def [of "Ok _"] lift_def [of Panic]
      split: result.split_asm dest!: give_back)

lemma write_mantissa_no_Err: "write_mantissa pos i ms t \<noteq> Err e"
  by (induction ms arbitrary: i t) (auto simp: and_then_eq_Err array_set_def)

lemma Block_validate_no_Err: "Block_validate cr b \<noteq> Err e"
  by (auto simp: Block_validate_def BlockHeader_validate_def and_then_eq_Err write_mantissa_no_Err Let_def
      generate_merkle_root_def split: if_splits option.splits)

lemma receive_blocks_fails:
  "receive_blocks cr n node hs True acc s = (Err e, t) \<Longrightarrow> given_back hs e s t"
proof (induction n arbitrary: node acc)
  case (Suc n)
  then show ?case
    by (auto simp: lift_def [of Panic] act_then_eq_Err [of "lift (Block_validate cr b)" for b]
        lift_def [of "Block_validate cr b" for b] Block_validate_no_Err
        dest!: give_back split: result.split_asm if_split_asm)
qed (simp add: lift_def)

lemma fetch_group_fails:
  assumes "fetch_group cr True hs part (node, cur) s = (Err e, t)"
  shows "given_back hs e s t"
proof -
  from assms consider "request_blocks_from_node cr node part hs True s = (Err e, t)"
    | node1 s1 where "request_blocks_from_node cr node part hs True s = (Ok node1, s1)"
        "receive_requested_blocks_from_node cr node1 part hs True s1 = (Err e, t)"
    by (auto simp: fetch_group_def act_then_eq_Err action_simps split: prod.splits)
  then show ?thesis
    by cases (auto simp: receive_requested_blocks_from_node_def
        dest!: request_blocks_fails receive_blocks_fails request_blocks_state)
qed


text \<open>What one move of a thread with the part \<open>hs\<close> leaves behind.\<close>

fun worker_outcome ::
  "crypto \<Rightarrow> remote \<Rightarrow> BlockHeader list list \<Rightarrow> BlockHeader list \<Rightarrow> (hash32 \<rightharpoonup> Block) \<Rightarrow> download \<Rightarrow> worker \<Rightarrow> download \<Rightarrow> bool"
where
  "worker_outcome cr node groups hs cur s (Fetching node' groups' hs' cur') t =
     (\<exists>part bs. groups = part # groups' \<and> hs' = hs \<and> list_all (good_block cr) bs \<and> length bs = length part \<and>
        cur' = insert_blocks cr bs cur \<and> t = s\<lparr>dl_utxo_queue := dl_utxo_queue s @ [bs]\<rparr>)"
| "worker_outcome cr node groups hs cur s (Ended (Ok _)) t =
     (if groups = [] then \<exists>e. t = s\<lparr>dl_blocks := dl_blocks s ++ cur, dl_ui := dl_ui s @ [e], dl_nodes := dl_nodes s @ [node]\<rparr>
      else dl_queue_open s \<and> t = s\<lparr>dl_queue := dl_queue s @ [hs]\<rparr>)"
| "worker_outcome cr node groups hs cur s (Ended (Err e)) t =
     (groups \<noteq> [] \<and> \<not> dl_queue_open s \<and> t = s \<and> (\<exists>m. e = ThreadChannelError m))"
| "worker_outcome cr node groups hs cur s (Ended Panic) t = (dl_nodes t = dl_nodes s \<and> dl_queue t = dl_queue s)"

lemma last_move_outcome:
  "download_blocks_single_thread cr config (Fetching node [] hs cur) s = (w, t) \<Longrightarrow>
     worker_outcome cr node [] hs cur s w t \<and> (\<forall>n g h c. w \<noteq> Fetching n g h c)"
  by (auto simp: add_blocks_downloaded_to_local_blocks_def action_simps act_then_def usize_sub_def Let_def
      split: if_splits prod.splits)

lemma no_panic_back: "act_then (try_to_download_blocks_from_other_node tx hs) (\<lambda>_. lift (Err e)) s \<noteq> (Panic, t)"
  by (auto simp: try_to_download_blocks_from_other_node_def act_then_def action_simps split: if_splits)

lemma request_blocks_panics: "request_blocks_from_node cr node part hs tx s = (Panic, t) \<Longrightarrow> t = s"
  by (auto simp: request_blocks_from_node_def Let_def no_panic_back lift_def split: result.split_asm)

lemma receive_blocks_panics: "receive_blocks cr n node hs tx acc s = (Panic, t) \<Longrightarrow> t = s"
proof (induction n arbitrary: node acc)
  case (Suc n)
  then show ?case
    by (auto simp: lift_def [of Panic] act_then_eq_Panic [of "lift (Block_validate cr b)" for b]
        lift_def [of "Block_validate cr b" for b] no_panic_back split: result.split_asm if_split_asm)
qed (simp add: lift_def)

lemma fetch_group_panics:
  "fetch_group cr tx hs part (node, cur) s = (Panic, t) \<Longrightarrow> t = s"
  by (auto simp: fetch_group_def act_then_eq_Panic action_simps receive_requested_blocks_from_node_def
      dest!: request_blocks_state request_blocks_panics receive_blocks_panics split: prod.splits)

lemma worker_move_outcome:
  assumes "digest_lengths cr" and "download_blocks_single_thread cr config (Fetching node groups hs cur) s = (w, t)"
  shows "worker_outcome cr node groups hs cur s w t"
proof (cases groups)
  case Nil
  with last_move_outcome assms(2) show ?thesis by blast
next
  case (Cons part groups')
  obtain r u where m: "fetch_group cr True hs part (node, cur) s = (r, u)" by fastforce
  show ?thesis
  proof (cases r)
    case (Ok x)
    obtain node' cur' where x: "x = (node', cur')" by (cases x)
    from fetch_group_Ok [OF sha_length [OF assms(1)] m [unfolded Ok x]] assms(2) m Ok x Cons show ?thesis
      by auto
  next
    case (Err e)
    from fetch_group_fails [OF m [unfolded Err]] assms(2) m Err Cons show ?thesis
      by (cases e) (auto simp: given_back_def split: if_splits)
  next
    case Panic
    with fetch_group_panics [OF m [unfolded Panic]] assms(2) m Cons show ?thesis
      by auto
  qed
qed

lemma map_add_covers: "m x = Some y \<Longrightarrow> \<exists>z. (m ++ m') x = Some z"
  by (cases "m' x") (auto simp: map_add_def)

lemma worker_move_ok:
  assumes "digest_lengths cr" and "worker_ok cr w" and "download_blocks_single_thread cr config w s = (w', t)"
  shows "worker_ok cr w' \<and> fetched_by cr s t"
proof (cases w)
  case (Fetching node groups hs cur)
  note out = worker_move_outcome [OF assms(1) assms(3) [unfolded Fetching]]
  show ?thesis
  proof (cases "(cr, node, groups, hs, cur, s, w', t)" rule: worker_outcome.cases)
    case (4 a b c d e f g)
    have "steps_by (fetched_by cr) (act_then (add_blocks_downloaded_to_local_blocks config cur) (\<lambda>_. return_node_to_vec node))"
      by (intro fetch_steps add_blocks_fetched) (use assms(2) Fetching in simp_all)
    moreover have "steps_by (fetched_by cr) (fetch_group cr True hs (hd groups) (node, cur))"
      by (rule fetch_group_steps [OF sha_length [OF assms(1)]])
    ultimately show ?thesis
      using assms(3) Fetching 4
      by (cases groups) (auto intro: steps_by_run split: prod.split_asm result.split_asm NodeCustomErrors.split_asm)
  qed (use out assms(2) Fetching in \<open>auto simp: fetched_by_def blocks_ok_def good_insert_blocks good_blocks_add intro: map_add_covers split: if_splits\<close>)
qed (use assms in auto)

subsection \<open>Properties\<close>

text \<open>
  A node that answers the requests completes its part of the block download: the blocks are
  asked for in groups, every one of them is stored under its own hash, and they go to the thread of
  the UTXO set in the order in which they came. (They are checked to be valid, but not to be those
  that were asked for: \<open>hs\<close> is any list of as many headers.)
\<close>

theorem serving_node_gives_blocks:
  assumes "digest_lengths cr" and "serves_blocks cr bs node" and "list_all (good_block cr) bs"
    and "length bs = length hs" and "0 < blocks_download_per_node config"
    and "height_first_block_to_download config \<le> length (dl_headers s)"
  shows "\<exists>node' t. download_blocks_single_node cr config hs node s = (Ok node', t) \<and>
    dl_blocks t = dl_blocks s ++ insert_blocks cr bs Map.empty \<and>
    (\<forall>b \<in> set bs. \<exists>b'. dl_blocks t (Block_hash cr b) = Some b' \<and> Block_hash cr b' = Block_hash cr b) \<and>
    concat (dl_utxo_queue t) = concat (dl_utxo_queue s) @ bs"
proof -
  from single_node_served [of cr bs "[]" node hs config s] assms obtain node' t new where
      t: "download_blocks_single_node cr config hs node s = (Ok node', t)"
        "dl_blocks t = dl_blocks s ++ insert_blocks cr bs Map.empty"
        "dl_utxo_queue t = dl_utxo_queue s @ new" "concat new = bs"
    by auto
  moreover have "\<forall>b \<in> set bs. \<exists>b'. dl_blocks t (Block_hash cr b) = Some b' \<and> Block_hash cr b' = Block_hash cr b"
  proof
    fix b assume "b \<in> set bs"
    then obtain b' where b': "insert_blocks cr bs Map.empty (Block_hash cr b) = Some b'"
      using insert_blocks_dom [of cr bs Map.empty] by blast
    with good_insert_blocks [OF assms(3) good_blocks_empty] have "Block_hash cr b' = Block_hash cr b"
      by (simp add: good_blocks_def)
    with t(2) b' show "\<exists>b'. dl_blocks t (Block_hash cr b) = Some b' \<and> Block_hash cr b' = Block_hash cr b"
      by simp
  qed
  ultimately show ?thesis
    by (intro exI [of _ node'] exI [of _ t]) simp
qed

text \<open>
  C25. No request for blocks is lost: a move of a download thread fetches the next group whole; or
  stores all its blocks and returns its node; or, when its node fails, sends its whole part back for
  another node, with nothing stored; it fails only when the channel is closed, or panics. (The blocks of
  its earlier groups have gone to the UTXO thread all the same.)
\<close>

theorem no_request_lost:
  assumes "digest_lengths cr" and "download_blocks_single_thread cr config (Fetching node groups hs cur) s = (w, t)"
  shows "worker_outcome cr node groups hs cur s w t"
  by (rule worker_move_outcome [OF assms])


definition sample_blocks_remote :: remote where
  "sample_blocks_remote =
     \<lparr>stream = \<lparr>inp = blocks_stream sample_crypto [sample_block], outp = []\<rparr>, writes_left = None\<rparr>"

definition sample_ibd_config :: Config where
  "sample_ibd_config = initial_config\<lparr>blocks_download_per_node := 16, n_threads := 8\<rparr>"

lemma sample_blocks_served:
  "serves_blocks sample_crypto [sample_block] sample_blocks_remote" "good_block sample_crypto sample_block"
  "0 < blocks_download_per_node sample_ibd_config"
  "height_first_block_to_download sample_ibd_config \<le> length (dl_headers (sample_download nodes))"
  by (simp_all add: serves_blocks_def sample_blocks_remote_def good_block_def sample_block_wf sample_block_valid
      sample_ibd_config_def initial_config_def sample_download_def)

theorem serving_node_gives_blocks_witness:
  "\<exists>node' t. download_blocks_single_node sample_crypto sample_ibd_config [sample_header] sample_blocks_remote
      (sample_download []) = (Ok node', t) \<and>
    dl_blocks t (Block_hash sample_crypto sample_block) = Some sample_block \<and> concat (dl_utxo_queue t) = [sample_block]"
  using serving_node_gives_blocks [OF sample_digest_lengths sample_blocks_served(1), of "[sample_header]"
      sample_ibd_config "sample_download []"] sample_blocks_served
  by (auto simp: sample_download_def)

theorem no_request_lost_witness:
  "worker_outcome sample_crypto (sample_remote\<lparr>writes_left := Some 0\<rparr>) [[sample_header]] [sample_header] Map.empty
     (sample_download []) (Ended (Ok ())) ((sample_download [])\<lparr>dl_queue := [[sample_header]]\<rparr>)"
proof -
  have "download_blocks_single_thread sample_crypto sample_ibd_config
      (Fetching (sample_remote\<lparr>writes_left := Some 0\<rparr>) [[sample_header]] [sample_header] Map.empty) (sample_download []) =
      (Ended (Ok ()), (sample_download [])\<lparr>dl_queue := [[sample_header]]\<rparr>)"
    by (simp add: fetch_group_def request_blocks_from_node_def sending_def try_to_download_blocks_from_other_node_def
        action_simps act_then_def sample_download_def)
  from no_request_lost [OF sample_digest_lengths this] show ?thesis .
qed

end
