(* ===== verification/Listener.thy ===== *)
theory Listener
  imports Node_State
begin

section \<open>Listening to the peers (src/handler/node\_message\_handler.rs)\<close>

text \<open>
  The thread that serves one peer: it writes what is queued in the peer's channel, reads a message,
  dispatches it to its handler, and stops on an error or when the \<open>finish\<close> flag is set.

  What a peer sends is a list of segments: between two segments the read timeout of the socket
  expires, after the last one the connection is closed. A \<open>read_exact\<close> that meets a timeout has
  consumed the bytes that had arrived. A write fails when the connection is broken. \<open>reads\<close> counts
  how often the thread has read the \<open>finish\<close> flag (see \<^const>\<open>is_terminated\<close>).
\<close>

record connection =
  arrivals :: "bytes list"
  broken :: bool
  written :: bytes
  reads :: nat

datatype io_error = WouldBlock | Other string

text \<open>Outcome of \<open>read_exact\<close>: the bytes, or an error and the bytes that were consumed in vain.\<close>

fun sock_read :: "nat \<Rightarrow> bytes list \<Rightarrow> (bytes, io_error \<times> bytes) result \<times> bytes list" where
  "sock_read n [] = ((if n = 0 then Ok [] else Err (Other ''failed to fill whole buffer'', [])), [])"
| "sock_read n (seg # segs) =
     (if n \<le> length seg then (Ok (take n seg), drop n seg # segs)
      else if segs = [] then (Err (Other ''failed to fill whole buffer'', seg), [])
      else (Err (WouldBlock, seg), segs))"

definition poll_finish :: "nat option \<Rightarrow> connection \<Rightarrow> bool \<times> connection" where
  "poll_finish finish c = (is_terminated finish (reads c), c\<lparr>reads := reads c + 1\<rparr>)"

definition get_header_command_name_as_str :: "string \<Rightarrow> string" where
  "get_header_command_name_as_str command = takeWhile (\<lambda>c. c \<noteq> char_of (0 :: nat)) command"

definition write_message_in_node :: "bytes \<Rightarrow> connection \<Rightarrow> (connection, NodeCustomErrors) result" where
  "write_message_in_node message c =
     (if broken c then Err (WriteNodeError ''Broken pipe (os error 32)'')
      else Ok (c\<lparr>written := written c @ message\<rparr>))"

definition read_header_bytes :: "connection \<Rightarrow> (bytes, NodeCustomErrors) result \<times> connection" where
  "read_header_bytes c =
     (case sock_read 24 (arrivals c) of
        (Ok bs, segs) \<Rightarrow> (Ok bs, c\<lparr>arrivals := segs\<rparr>)
      | (Err (WouldBlock, _), segs) \<Rightarrow>
          (Err (OtherError ''Resource temporarily unavailable (os error 11)''), c\<lparr>arrivals := segs\<rparr>)
      | (Err (Other e, _), segs) \<Rightarrow> (Err (ReadNodeError e), c\<lparr>arrivals := segs\<rparr>)
      | (Panic, segs) \<Rightarrow> (Panic, c))"

definition read_header ::
  "crypto \<Rightarrow> nat option \<Rightarrow> connection \<Rightarrow> (HeaderMessage, NodeCustomErrors) result \<times> connection" where
  "read_header cr finish c =
     (let (stop, c) = poll_finish finish c;
          (buffer_num, c) = (if \<not> stop then read_header_bytes c else (Ok (replicate 24 0), c)) in
      case buffer_num of
        Err e \<Rightarrow> (Err e, c)
      | Panic \<Rightarrow> (Panic, c)
      | Ok buffer_num \<Rightarrow>
          (let (stop, c) = poll_finish finish c in
           if stop then (Ok (HeaderMessage_new cr ''none'' None), c)
           else (map_err UnmarshallingError (HeaderMessage_from_le_bytes buffer_num), c)))"

text \<open>A timeout in the payload leaves what had arrived in the buffer, and the loop starts over.\<close>

fun pending_bytes :: "bytes list \<Rightarrow> nat" where
  "pending_bytes [] = 0"
| "pending_bytes (seg # segs) = Suc (length seg + pending_bytes segs)"

lemma sock_read_less: "sock_read n segs = (Err (e, seg), segs') \<Longrightarrow> e = WouldBlock \<Longrightarrow> pending_bytes segs' < pending_bytes segs"
  by (cases segs) (auto split: if_splits)

function read_payload_loop ::
  "nat option \<Rightarrow> bytes \<Rightarrow> connection \<Rightarrow> (bytes, NodeCustomErrors) result \<times> connection" where
  "read_payload_loop finish buf c =
     (let (stop, c) = poll_finish finish c in
      if stop then (Ok buf, c)
      else
        case sock_read (length buf) (arrivals c) of
          (Ok bs, segs) \<Rightarrow> (Ok bs, c\<lparr>arrivals := segs\<rparr>)
        | (Err (WouldBlock, seg), segs) \<Rightarrow>
            read_payload_loop finish (seg @ drop (length seg) buf) (c\<lparr>arrivals := segs\<rparr>)
        | (Err (Other e, seg), segs) \<Rightarrow> (Err (ReadNodeError e), c\<lparr>arrivals := segs\<rparr>)
        | (Panic, segs) \<Rightarrow> (Panic, c))"
  by pat_completeness auto
termination
  by (relation "measure (\<lambda>(f, b, c). pending_bytes (arrivals c))")
    (auto simp: poll_finish_def dest: sock_read_less [OF sym])

declare read_payload_loop.simps [simp del]

definition listener_read_payload ::
  "nat option \<Rightarrow> nat \<Rightarrow> connection \<Rightarrow> (bytes, NodeCustomErrors) result \<times> connection" where
  "listener_read_payload finish size' c = read_payload_loop finish (replicate size' 0) c"

subsection \<open>Dispatch\<close>

definition dispatch ::
  "crypto \<Rightarrow> (utxo_map \<Rightarrow> hash32 list) \<Rightarrow> string \<Rightarrow> bytes \<Rightarrow> node \<Rightarrow> (node, NodeCustomErrors) result" where
  "dispatch cr ord command payload st =
     (if command = ''headers'' then handle_headers_message cr payload st
      else if command = ''getdata'' then handle_getdata_message cr payload st
      else if command = ''block'' then handle_block_message cr ord payload st
      else if command = ''inv'' then handle_inv_message cr payload st
      else if command = ''ping'' then handle_ping_message cr payload st
      else if command = ''tx'' then handle_tx_message cr payload st
      else if command = ''getheaders'' then handle_getheaders_message cr payload st
      else Ok st)"

text \<open>
  One turn of the loop: go on, or leave it (with the error, if there was one). A handler that fails
  has changed nothing; a panic ends the thread.
\<close>

datatype turn = Continue connection node | Break NodeCustomErrors connection node

definition next_message ::
  "crypto \<Rightarrow> (utxo_map \<Rightarrow> hash32 list) \<Rightarrow> nat option \<Rightarrow> connection \<Rightarrow> node \<Rightarrow> (turn, unit) result" where
  "next_message cr ord finish c st =
     (case read_header cr finish c of
        (Err (OtherError _), c) \<Rightarrow> Ok (Continue c st)
      | (Err err, c) \<Rightarrow> Ok (Break err c st)
      | (Panic, c) \<Rightarrow> Panic
      | (Ok header, c) \<Rightarrow>
          (case listener_read_payload finish (unat (payload_size header)) c of
             (Err err, c) \<Rightarrow> Ok (Break err c st)
           | (Panic, c) \<Rightarrow> Panic
           | (Ok payload, c) \<Rightarrow>
               (case dispatch cr ord (get_header_command_name_as_str (command_name header)) payload st of
                  Ok st \<Rightarrow> Ok (Continue c st)
                | Err err \<Rightarrow> Ok (Break err c st)
                | Panic \<Rightarrow> Panic)))"

definition listen_turn ::
  "crypto \<Rightarrow> (utxo_map \<Rightarrow> hash32 list) \<Rightarrow> nat option \<Rightarrow> connection \<Rightarrow> node \<Rightarrow> (turn, unit) result" where
  "listen_turn cr ord finish c st =
     (case sent st of
        [] \<Rightarrow> next_message cr ord finish c st
      | message # queue \<Rightarrow>
          (let st = st\<lparr>sent := queue\<rparr> in
           case write_message_in_node message c of
             Err err \<Rightarrow> Ok (Break err c st)
           | Panic \<Rightarrow> Panic
           | Ok c \<Rightarrow> next_message cr ord finish c st))"

subsection \<open>The loop\<close>

lemma is_terminated_later: "is_terminated finish k \<Longrightarrow> k \<le> k' \<Longrightarrow> is_terminated finish k'"
  by (auto simp: is_terminated_def split: option.splits)

lemma sock_read_bytes:
  "sock_read n segs = (r, segs') \<Longrightarrow> pending_bytes segs' \<le> pending_bytes segs"
  by (cases segs) (auto split: if_splits)

lemma sock_read_some:
  "sock_read n segs = (Ok bs, segs') \<Longrightarrow> 0 < n \<Longrightarrow> pending_bytes segs' < pending_bytes segs"
  by (cases segs) (auto split: if_splits)

lemma read_payload_loop_bytes:
  "read_payload_loop finish buf c = (r, c') \<Longrightarrow>
     pending_bytes (arrivals c') \<le> pending_bytes (arrivals c) \<and> reads c \<le> reads c'"
proof (induction finish buf c arbitrary: r c' rule: read_payload_loop.induct)
  case (1 finish buf c)
  let ?c = "c\<lparr>reads := reads c + 1\<rparr>"
  have p: "poll_finish finish c = (is_terminated finish (reads c), ?c)"
    by (simp add: poll_finish_def)
  obtain r1 segs where s: "sock_read (length buf) (arrivals c) = (r1, segs)"
    by fastforce
  note le = sock_read_bytes [OF s] and call = "1.prems" [unfolded read_payload_loop.simps [of finish buf c] p]
  consider (stop) "is_terminated finish (reads c)" | (ok) bs where "r1 = Ok bs"
    | (block) seg where "\<not> is_terminated finish (reads c)" "r1 = Err (WouldBlock, seg)"
    | (other) e seg where "r1 = Err (Other e, seg)" | (panic) "r1 = Panic"
    by (metis io_error.exhaust result.exhaust surj_pair)
  then show ?case
  proof cases
    case block
    with call s have "read_payload_loop finish (seg @ drop (length seg) buf) (?c\<lparr>arrivals := segs\<rparr>) = (r, c')"
      by simp
    moreover have "(Err (WouldBlock, seg), segs) = sock_read (length buf) (arrivals ?c)"
      using s block(2) by simp
    ultimately show ?thesis
      using "1.IH" [OF refl p [symmetric] block(1) _ refl refl refl] le by fastforce
  qed (use call s le in \<open>auto split: if_splits\<close>)
qed

text \<open>A turn consumes input, or has seen the flag.\<close>

definition progress :: "nat option \<Rightarrow> connection \<Rightarrow> connection \<Rightarrow> bool" where
  "progress finish c c' \<longleftrightarrow> reads c \<le> reads c' \<and>
     (pending_bytes (arrivals c') < pending_bytes (arrivals c) \<or>
      pending_bytes (arrivals c') = pending_bytes (arrivals c) \<and> is_terminated finish (reads c'))"

lemma read_header_bytes_less:
  assumes "read_header_bytes c = (r, c')" and "r = Ok bs \<or> r = Err (OtherError e)"
  shows "pending_bytes (arrivals c') < pending_bytes (arrivals c)" "reads c' = reads c"
proof -
  obtain r1 segs where s: "sock_read 24 (arrivals c) = (r1, segs)"
    by fastforce
  consider bs where "r1 = Ok bs" | seg where "r1 = Err (WouldBlock, seg)"
    | e' seg where "r1 = Err (Other e', seg)" | "r1 = Panic"
    by (metis io_error.exhaust result.exhaust surj_pair)
  then show "pending_bytes (arrivals c') < pending_bytes (arrivals c)" "reads c' = reads c"
    using assms s sock_read_some [of 24 "arrivals c"] sock_read_less [of 24 "arrivals c"]
    by (cases; auto simp: read_header_bytes_def)+
qed

lemma read_header_progress:
  assumes "read_header cr finish c = (r, c')" and "r = Ok h \<or> r = Err (OtherError e)"
  shows "progress finish c c'"
proof (cases "is_terminated finish (reads c)")
  case True
  with assms(1) is_terminated_later [OF True] show ?thesis
    by (auto simp: read_header_def poll_finish_def progress_def)
next
  case False
  let ?c = "c\<lparr>reads := reads c + 1\<rparr>"
  obtain r1 c1 where b: "read_header_bytes ?c = (r1, c1)"
    by fastforce
  with assms False have "\<exists>bs e. r1 = Ok bs \<or> r1 = Err (OtherError e)" "reads c' = reads c1 \<or> reads c' = reads c1 + 1"
      "arrivals c' = arrivals c1"
    by (cases r1; auto simp: read_header_def poll_finish_def map_err_eq_Err split: if_splits)+
  with read_header_bytes_less [OF b] show ?thesis
    by (auto simp: progress_def)
qed

lemma next_message_progress:
  assumes "next_message cr ord finish c st = Ok (Continue c' st')"
  shows "progress finish c c'"
proof -
  obtain r c1 where h: "read_header cr finish c = (r, c1)"
    by fastforce
  note p = read_header_progress [OF h]
  show ?thesis
  proof (cases r)
    case (Ok header)
    obtain r2 c2 where pl: "listener_read_payload finish (unat (payload_size header)) c1 = (r2, c2)"
      by fastforce
    with Ok h assms have "c' = c2"
      by (cases r2) (auto simp: next_message_def split: result.splits)
    moreover have "pending_bytes (arrivals c2) \<le> pending_bytes (arrivals c1) \<and> reads c1 \<le> reads c2"
      using read_payload_loop_bytes pl by (simp add: listener_read_payload_def)
    ultimately show ?thesis
      using p Ok is_terminated_later [of finish "reads c1" "reads c2"] by (auto simp: progress_def)
  next
    case (Err e)
    with h assms p show ?thesis
      by (cases e) (auto simp: next_message_def)
  qed (use h assms in \<open>auto simp: next_message_def\<close>)
qed

lemma listen_turn_progress:
  "listen_turn cr ord finish c st = Ok (Continue c' st') \<Longrightarrow> progress finish c c'"
  by (auto simp: listen_turn_def write_message_in_node_def Let_def progress_def
      dest!: next_message_progress split: list.splits if_splits)

function listen_loop ::
  "crypto \<Rightarrow> (utxo_map \<Rightarrow> hash32 list) \<Rightarrow> nat option \<Rightarrow> connection \<Rightarrow> node \<Rightarrow>
     (NodeCustomErrors option \<times> connection \<times> node, unit) result" where
  "listen_loop cr ord finish c st =
     (let (stop, c) = poll_finish finish c in
      if stop then Ok (None, c, st)
      else
        case listen_turn cr ord finish c st of
          Ok (Continue c st) \<Rightarrow> listen_loop cr ord finish c st
        | Ok (Break err c st) \<Rightarrow> Ok (Some err, c, st)
        | Err e \<Rightarrow> Err e
        | Panic \<Rightarrow> Panic)"
  by pat_completeness auto
termination
  by (relation "measure (\<lambda>(cr, ord, finish, c, st).
      2 * pending_bytes (arrivals c) + (if is_terminated finish (reads c) then 0 else 1))")
    (auto simp: poll_finish_def progress_def dest!: listen_turn_progress)

declare listen_loop.simps [simp del]

subsection \<open>Messages that arrive whole\<close>

lemma takeWhile_padded:
  assumes "char_of (0 :: nat) \<notin> set name"
  shows "get_header_command_name_as_str (padded name) = name"
proof -
  have "takeWhile (\<lambda>c. c \<noteq> char_of (0 :: nat)) name = name"
    using assms by (simp add: takeWhile_eq_all_conv) (metis (full_types))
  with assms show ?thesis
    by (cases "12 - length name") (auto simp: get_header_command_name_as_str_def padded_def takeWhile_append)
qed

lemma sock_read_append: "length bs = n \<Longrightarrow> sock_read n ((bs @ rest) # segs) = (Ok bs, rest # segs)"
  by simp

lemma read_header_frame:
  assumes "command_ok name" and "length (get_checksum cr payload) = 4"
    and "arrivals c = (frame cr name payload @ rest) # segs"
  shows "read_header cr None c =
    (Ok (frame_head cr name payload), c\<lparr>arrivals := (payload @ rest) # segs, reads := reads c + 2\<rparr>)"
proof -
  have "length (frame_header cr name payload) = 24"
    using assms by (intro length_frame_header) (auto simp: command_ok_def)
  then have "sock_read 24 (arrivals c) = (Ok (frame_header cr name payload), (payload @ rest) # segs)"
    by (simp add: assms(3) frame_def)
  with from_frame_header [OF assms(1,2)] show ?thesis
    by (simp add: read_header_def poll_finish_def is_terminated_def read_header_bytes_def)
qed

lemma read_payload_whole:
  "arrivals c = (payload @ rest) # segs \<Longrightarrow>
     listener_read_payload None (length payload) c = (Ok payload, c\<lparr>arrivals := rest # segs, reads := reads c + 1\<rparr>)"
  by (simp add: listener_read_payload_def read_payload_loop.simps [of None] poll_finish_def is_terminated_def)

lemma listen_turn_frame:
  assumes "command_ok name" and "char_of (0 :: nat) \<notin> set name"
    and "length (get_checksum cr payload) = 4" and "length payload < 2 ^ 32"
    and "sent st = []" and "arrivals c = (frame cr name payload @ rest) # segs"
  shows "listen_turn cr ord None c st =
    (let c' = c\<lparr>arrivals := rest # segs, reads := reads c + 3\<rparr> in
     case dispatch cr ord name payload st of
       Ok st' \<Rightarrow> Ok (Continue c' st') | Err e \<Rightarrow> Ok (Break e c' st) | Panic \<Rightarrow> Panic)"
proof -
  have "unat (payload_size (frame_head cr name payload)) = length payload"
    using assms(4) by (simp add: frame_head_def unat_of_nat)
  then have p: "listener_read_payload None (unat (payload_size (frame_head cr name payload)))
      (c\<lparr>arrivals := (payload @ rest) # segs, reads := Suc (Suc (reads c))\<rparr>) =
      (Ok payload, c\<lparr>arrivals := rest # segs, reads := reads c + 3\<rparr>)"
    by (simp add: read_payload_whole eval_nat_numeral)
  show ?thesis
    by (cases "dispatch cr ord name payload st")
      (simp_all add: listen_turn_def next_message_def read_header_frame [OF assms(1,3,6)] p assms(5)
        takeWhile_padded [OF assms(2)] Let_def)
qed

lemma nul_char [compute]: "char_of (0 :: nat) = CHR 0x00"
  by (simp add: char_of_def)

subsection \<open>Properties\<close>


definition sample_connection :: "bytes list \<Rightarrow> connection" where
  "sample_connection segs = \<lparr>arrivals = segs, broken = False, written = [], reads = 0\<rparr>"

lemma sample_checksum: "length (get_checksum sample_crypto payload) = 4"
  using sample_digest_lengths by (simp add: get_checksum_def sha_length)


text \<open>
  A message header that the read timeout cuts in two is lost: the turn consumes the part that
  had arrived, changes nothing else and goes on, so that the next turn starts to read in the middle
  of the message.
\<close>

theorem split_header_is_lost:
  assumes "0 < k" and "k < 24" and "k \<le> length (frame cr name payload)" and "sent st = []"
    and "arrivals c = [take k (frame cr name payload), drop k (frame cr name payload) @ rest]"
  shows "listen_turn cr ord None c st =
    Ok (Continue (c\<lparr>arrivals := [drop k (frame cr name payload) @ rest], reads := reads c + 1\<rparr>) st)"
proof -
  have "sock_read 24 (arrivals c) =
      (Err (WouldBlock, take k (frame cr name payload)), [drop k (frame cr name payload) @ rest])"
    using assms by simp
  then show ?thesis
    using assms(4)
    by (simp add: listen_turn_def next_message_def read_header_def read_header_bytes_def poll_finish_def
        is_terminated_def)
qed

theorem split_header_is_lost_witness:
  "listen_turn sample_crypto (\<lambda>_. []) None
      (sample_connection [take 4 (frame sample_crypto ''ping'' [7]), drop 4 (frame sample_crypto ''ping'' [7]) @ []])
      sample_node =
    Ok (Continue ((sample_connection [drop 4 (frame sample_crypto ''ping'' [7]) @ []])\<lparr>reads := 1\<rparr>) sample_node)"
  using split_header_is_lost [of 4 sample_crypto "''ping''" "[7]" sample_node
      "sample_connection [take 4 (frame sample_crypto ''ping'' [7]), drop 4 (frame sample_crypto ''ping'' [7]) @ []]"
      "[]" "\<lambda>_. []"]
  by (simp add: sample_node_def sample_connection_def frame_def length_frame_header sample_checksum)

end
