(* ===== verification/Wallet.thy ===== *)
theory Wallet
  imports Listener
begin

section \<open>The node, the wallet and the user's requests (src/node.rs, wallet.rs, wallet\_event.rs)\<close>

text \<open>
  The running program: the state that the threads share, one entry per peer that is being
  listened to (its connection, its channel, whether its thread still runs), and the flag that ends
  the threads. A \<open>NodeMessageHandler\<close> holds the sending ends of channels: a list of indexes of
  peers. A clone of it has its own list, while the peers are shared.

  A call of the wallet may change the state and then fail, so it returns its result and the state.
\<close>

record peer =
  conn :: connection
  channel :: "bytes list"
  listening :: bool

record program =
  shared :: node
  peers :: "peer list"
  finished :: bool

record NodeMessageHandler =
  nodes_sender :: "nat list"

record Node =
  peers_handler :: NodeMessageHandler

record Wallet =
  w_node :: Node
  current_account_index :: "nat option"

definition connection_of :: "tcp \<Rightarrow> connection" where
  "connection_of stream = \<lparr>arrivals = [inp stream], broken = False, written = outp stream, reads = 0\<rparr>"

abbreviation prog_chain :: "program \<Rightarrow> Blockchain" where "prog_chain p \<equiv> chain (shared p)"
abbreviation prog_accounts :: "program \<Rightarrow> Account list" where "prog_accounts p \<equiv> accounts (pointers (shared p))"

definition set_prog_accounts :: "Account list \<Rightarrow> program \<Rightarrow> program" where
  "set_prog_accounts accs p = p\<lparr>shared := upd_accounts accs (shared p)\<rparr>"

definition show_ui :: "UIEvent \<Rightarrow> program \<Rightarrow> program" where
  "show_ui event p = p\<lparr>shared := send_event_to_ui event (shared p)\<rparr>"

subsection \<open>The handler of the peers\<close>

definition get_last_node :: "tcp list \<Rightarrow> (tcp \<times> tcp list, NodeCustomErrors) result" where
  "get_last_node nodes =
     (if nodes = [] then Err (CanNotRead (''Error no hay mas nodos para descargar los headers!'' @ [CHR 0x0A]))
      else Ok (last nodes, butlast nodes))"

definition get_amount_of_nodes :: "tcp list \<Rightarrow> nat" where
  "get_amount_of_nodes nodes = length nodes"

text \<open>\<open>handle_messages_from_node\<close> starts the thread of a peer, with a new channel.\<close>

definition handle_messages_from_node :: "connection \<Rightarrow> NodeMessageHandler \<Rightarrow> program \<Rightarrow> NodeMessageHandler \<times> program" where
  "handle_messages_from_node c h p =
     (\<lparr>nodes_sender = nodes_sender h @ [length (peers p)]\<rparr>,
      p\<lparr>peers := peers p @ [\<lparr>conn = c, channel = [], listening = True\<rparr>]\<rparr>)"

fun start_listeners ::
  "nat \<Rightarrow> NodeMessageHandler \<Rightarrow> program \<Rightarrow> (NodeMessageHandler \<times> program, NodeCustomErrors) result" where
  "start_listeners 0 h p = Ok (h, p)"
| "start_listeners (Suc n) h p =
     and_then (get_last_node (connected_nodes (pointers (shared p)))) (\<lambda>(node, rest).
     let p = p\<lparr>shared := (shared p)\<lparr>pointers := (pointers (shared p))\<lparr>connected_nodes := rest\<rparr>\<rparr>\<rparr>;
         (h, p) = handle_messages_from_node (connection_of node) h p
     in start_listeners n h p)"

definition NodeMessageHandler_new :: "program \<Rightarrow> (NodeMessageHandler \<times> program, NodeCustomErrors) result" where
  "NodeMessageHandler_new p =
     start_listeners (get_amount_of_nodes (connected_nodes (pointers (shared p)))) \<lparr>nodes_sender = []\<rparr>
       (p\<lparr>shared := (shared p)\<lparr>transactions_received := []\<rparr>, finished := False\<rparr>)"

definition send_to_peer :: "bytes \<Rightarrow> nat \<Rightarrow> program \<Rightarrow> program" where
  "send_to_peer message i p =
     (if i < length (peers p) \<and> listening (peers p ! i)
      then p\<lparr>peers := (peers p)[i := (peers p ! i)\<lparr>channel := channel (peers p ! i) @ [message]\<rparr>]\<rparr>
      else p)"

definition broadcast_to_nodes ::
  "NodeMessageHandler \<Rightarrow> bytes \<Rightarrow> program \<Rightarrow> (program, NodeCustomErrors) result" where
  "broadcast_to_nodes self message p =
     (let amount_of_failed_nodes =
            length (filter (\<lambda>i. \<not> (i < length (peers p) \<and> listening (peers p ! i))) (nodes_sender self));
          p = fold (send_to_peer message) (nodes_sender self) p
      in if amount_of_failed_nodes = length (nodes_sender self) then Err (ThreadChannelError ''All nodes failed'')
         else Ok p)"

text \<open>The threads see the flag and end; their ends of the channels close.\<close>

definition NodeMessageHandler_finish :: "program \<Rightarrow> program" where
  "NodeMessageHandler_finish p = p\<lparr>finished := True, peers := map (\<lambda>q. q\<lparr>listening := False\<rparr>) (peers p)\<rparr>"

definition NodeMessageHandler_add_connection ::
  "NodeMessageHandler \<Rightarrow> connection \<Rightarrow> program \<Rightarrow> NodeMessageHandler \<times> program" where
  "NodeMessageHandler_add_connection self c p = handle_messages_from_node c self p"

subsection \<open>The node\<close>

definition Node_new :: "tcp list \<Rightarrow> Blockchain \<Rightarrow> UIEvent list \<Rightarrow> (Node \<times> program, NodeCustomErrors) result" where
  "Node_new nodes bc events =
     (let p = \<lparr>shared = \<lparr>pointers = NodeDataPointers_new nodes bc [], transactions_received = [],
                         sent = [], ui = events\<rparr>, peers = [], finished = False\<rparr> in
      and_then (NodeMessageHandler_new p) (\<lambda>(h, p). Ok (\<lparr>peers_handler = h\<rparr>, p)))"

definition block_validation :: "crypto \<Rightarrow> Block \<Rightarrow> (bool \<times> string, 'e) result" where
  "block_validation cr block = Block_validate cr block"

definition utxos_referenced_to_account ::
  "crypto \<Rightarrow> (utxo_map \<Rightarrow> hash32 list) \<Rightarrow> string \<Rightarrow> program \<Rightarrow> (UtxoTuple list, 'e) result" where
  "utxos_referenced_to_account cr ord addr p =
     (let m = bc_utxo_set (prog_chain p) in
      and_then
        (traverse (\<lambda>h. case m h of None \<Rightarrow> Ok None | Some utxo \<Rightarrow> referenced_utxos cr utxo addr) (ord m))
        (\<lambda>found. Ok (somes found)))"

definition shutdown_node :: "program \<Rightarrow> program" where
  "shutdown_node p = NodeMessageHandler_finish p"

definition broadcast_tx :: "crypto \<Rightarrow> Node \<Rightarrow> hash32 \<Rightarrow> program \<Rightarrow> (program, NodeCustomErrors) result" where
  "broadcast_tx cr self raw_tx p =
     and_then (inv_mershalling cr [Inventory_new_tx raw_tx]) (\<lambda>inv_message_bytes.
     broadcast_to_nodes (peers_handler self) inv_message_bytes p)"

definition set_accounts :: "Account list \<Rightarrow> program \<Rightarrow> program" where
  "set_accounts accs p = set_prog_accounts accs p"

definition Node_merkle_proof_of_inclusion ::
  "crypto \<Rightarrow> hash32 \<Rightarrow> hash32 \<Rightarrow> program \<Rightarrow> ((hash32 \<times> bool) list option, NodeCustomErrors) result" where
  "Node_merkle_proof_of_inclusion cr block_hash tx_hash p =
     (case blocks (prog_chain p) block_hash of
        Some block \<Rightarrow> merkle_proof_of_inclusion cr block tx_hash
      | None \<Rightarrow> Err (OtherError ''Block hash not found''))"

definition Node_add_connection :: "connection \<Rightarrow> Node \<Rightarrow> program \<Rightarrow> Node \<times> program" where
  "Node_add_connection c self p =
     (let (h, p) = NodeMessageHandler_add_connection (peers_handler self) c p in (\<lparr>peers_handler = h\<rparr>, p))"

definition Node_search_block :: "hash32 \<Rightarrow> program \<Rightarrow> Block option" where
  "Node_search_block hash p = Blockchain_search_block (prog_chain p) hash"

definition Node_search_header :: "hash32 \<Rightarrow> program \<Rightarrow> (BlockHeader \<times> nat) option" where
  "Node_search_header hash p = Blockchain_search_header (prog_chain p) hash"

subsection \<open>The wallet\<close>

definition Wallet_new :: "Node \<Rightarrow> program \<Rightarrow> Wallet \<times> program" where
  "Wallet_new node p = (\<lparr>w_node = node, current_account_index = None\<rparr>, set_accounts [] p)"

definition validate_transaction_data :: "i64 \<Rightarrow> i64 \<Rightarrow> (unit, string) result" where
  "validate_transaction_data amt fee =
     and_then (i64_add amt fee) (\<lambda>s.
     if sint s \<le> 0 then Err ''Error trying to make transaction. Amount and fee must be greater than zero''
     else Ok ())"

definition Wallet_make_transaction ::
  "crypto \<Rightarrow> Wallet \<Rightarrow> string \<Rightarrow> i64 \<Rightarrow> i64 \<Rightarrow> program \<Rightarrow> (unit, string) result \<times> program" where
  "Wallet_make_transaction cr self address_receiver amt fee p =
     (case current_account_index self of
        None \<Rightarrow> (Err ''Error trying to make transaction. No account selected'', p)
      | Some account_index \<Rightarrow>
          (case and_then (validate_transaction_data amt fee) (\<lambda>_.
                and_then (index_at (prog_accounts p) account_index) (\<lambda>a.
                make_transaction cr a address_receiver amt fee)) of
             Err e \<Rightarrow> (Err e, p)
           | Panic \<Rightarrow> (Panic, p)
           | Ok (transaction, a) \<Rightarrow>
               (let p = set_prog_accounts ((prog_accounts p)[account_index := a]) p in
                case broadcast_tx cr (w_node self) (Transaction_hash cr transaction) p of
                  Err e \<Rightarrow> (Err (display_error e), p)
                | Panic \<Rightarrow> (Panic, p)
                | Ok p \<Rightarrow> (Ok (), show_ui NewPendingTx p))))"

definition load_data ::
  "crypto \<Rightarrow> (utxo_map \<Rightarrow> hash32 list) \<Rightarrow> Account \<Rightarrow> program \<Rightarrow> (Account, 'e) result" where
  "load_data cr ord account p =
     and_then (utxos_referenced_to_account cr ord (Account_get_address account) p) (\<lambda>utxos_to_account.
     Ok (Account_load_utxos account utxos_to_account))"

definition add_account ::
  "crypto \<Rightarrow> (utxo_map \<Rightarrow> hash32 list) \<Rightarrow> string \<Rightarrow> string \<Rightarrow> program \<Rightarrow> (unit, NodeCustomErrors) result \<times> program"
where
  "add_account cr ord wif_private_key addr p =
     (case Account_new cr wif_private_key addr of
        Err e \<Rightarrow> (Err (UnmarshallingError e), show_ui (AddAccountError e) p)
      | Panic \<Rightarrow> (Panic, p)
      | Ok account \<Rightarrow>
          (case load_data cr ord account p of
             Err e \<Rightarrow> (Err (LockError e), p)
           | Panic \<Rightarrow> (Panic, p)
           | Ok account \<Rightarrow>
               (Ok (), show_ui (AccountAddedSuccesfully account)
                         (set_prog_accounts (prog_accounts p @ [account]) p))))"

definition change_account :: "nat \<Rightarrow> Wallet \<Rightarrow> program \<Rightarrow> (Wallet \<times> program, string) result" where
  "change_account index_of_new_account self p =
     (if index_of_new_account \<ge> length (prog_accounts p)
      then Err ''Error trying to change account. Index out of bounds''
      else
        and_then (index_at (prog_accounts p) index_of_new_account) (\<lambda>new_account.
        Ok (self\<lparr>current_account_index := Some index_of_new_account\<rparr>, show_ui (AccountChanged new_account) p)))"

definition tx_proof_of_inclusion :: "crypto \<Rightarrow> string \<Rightarrow> string \<Rightarrow> program \<Rightarrow> (bool, string) result" where
  "tx_proof_of_inclusion cr block_hash_hex tx_hash_hex p =
     and_then (string_to_bytes block_hash_hex) (\<lambda>block_hash.
     and_then (string_to_bytes tx_hash_hex) (\<lambda>tx_hash.
     let block_hash = rev block_hash; tx_hash = rev tx_hash in
     and_then (map_err display_error (Node_merkle_proof_of_inclusion cr block_hash tx_hash p)) (\<lambda>poi.
     case poi of
       None \<Rightarrow> Ok False
     | Some hs \<Rightarrow> make_merkle_proof cr hs tx_hash)))"

definition get_current_account :: "Wallet \<Rightarrow> program \<Rightarrow> (Account option, 'e) result" where
  "get_current_account self p =
     (case current_account_index self of
        Some index \<Rightarrow> and_then (index_at (prog_accounts p) index) (\<lambda>a. Ok (Some a))
      | None \<Rightarrow> Ok None)"

definition Wallet_get_transactions ::
  "crypto \<Rightarrow> Wallet \<Rightarrow> program \<Rightarrow> ((string \<times> Transaction \<times> i64) list option, 'e) result" where
  "Wallet_get_transactions cr self p =
     (case current_account_index self of
        Some index \<Rightarrow>
          and_then (index_at (prog_accounts p) index) (\<lambda>a.
          case get_transactions cr a of
            Ok transactions \<Rightarrow> Ok (Some transactions)
          | Err _ \<Rightarrow> Ok None
          | Panic \<Rightarrow> Panic)
      | None \<Rightarrow> Ok None)"

definition Wallet_search_block :: "hash32 \<Rightarrow> program \<Rightarrow> Block option" where
  "Wallet_search_block hash p = Node_search_block hash p"

definition Wallet_search_header :: "hash32 \<Rightarrow> program \<Rightarrow> (BlockHeader \<times> nat) option" where
  "Wallet_search_header hash p = Node_search_header hash p"

subsection \<open>Requests of the user interface\<close>

datatype WalletEvent =
    Start
  | AddAccountRequest string string
  | MakeTransaction string i64 i64
  | PoiOfTransactionRequest string string
  | Finish
  | ChangeAccount nat
  | GetAccountRequest
  | GetTransactionsRequest
  | SearchBlock hash32
  | SearchHeader hash32

definition handle_add_account ::
  "crypto \<Rightarrow> (utxo_map \<Rightarrow> hash32 list) \<Rightarrow> string \<Rightarrow> string \<Rightarrow> program \<Rightarrow> (program, 'e) result" where
  "handle_add_account cr ord private_key_wif addr p =
     (case add_account cr ord private_key_wif addr p of
        (Err (LockError err), p) \<Rightarrow> Ok (show_ui (AddAccountError err) p)
      | (Err _, p) \<Rightarrow> Ok p
      | (Ok _, p) \<Rightarrow> Ok p
      | (Panic, p) \<Rightarrow> Panic)"

definition handle_change_account :: "nat \<Rightarrow> Wallet \<Rightarrow> program \<Rightarrow> (Wallet \<times> program, 'e) result" where
  "handle_change_account account_index wallet p =
     (case change_account account_index wallet p of
        Err err \<Rightarrow> Ok (wallet, show_ui (ChangeAccountError err) p)
      | Ok wp \<Rightarrow> Ok wp
      | Panic \<Rightarrow> Panic)"

definition handle_get_account :: "Wallet \<Rightarrow> program \<Rightarrow> (program, 'e) result" where
  "handle_get_account wallet p =
     and_then (get_current_account wallet p) (\<lambda>found.
     case found of Some account \<Rightarrow> Ok (show_ui (AccountChanged account) p) | None \<Rightarrow> Ok p)"

definition handle_make_transaction ::
  "crypto \<Rightarrow> Wallet \<Rightarrow> string \<Rightarrow> i64 \<Rightarrow> i64 \<Rightarrow> program \<Rightarrow> (program, 'e) result" where
  "handle_make_transaction cr wallet addr amt fee p =
     (case Wallet_make_transaction cr wallet addr amt fee p of
        (Err err, p) \<Rightarrow> Ok (show_ui (MakeTransactionStatus err) p)
      | (Ok _, p) \<Rightarrow> Ok (show_ui (MakeTransactionStatus ''The transaction was made succesfuly!'') p)
      | (Panic, p) \<Rightarrow> Panic)"

definition handle_poi :: "crypto \<Rightarrow> string \<Rightarrow> string \<Rightarrow> program \<Rightarrow> (program, 'e) result" where
  "handle_poi cr block_hash transaction_hash p =
     (case tx_proof_of_inclusion cr block_hash transaction_hash p of
        Err _ \<Rightarrow> Ok (show_ui (POIResult ''Block not found'') p)
      | Ok poi \<Rightarrow>
          Ok (show_ui (POIResult
            (if poi then ''The transaction '' @ transaction_hash @ '' was found on block '' @ block_hash
             else ''The transaction '' @ transaction_hash @ '' was not found on block '' @ block_hash)) p)
      | Panic \<Rightarrow> Panic)"

definition handle_search_block :: "hash32 \<Rightarrow> program \<Rightarrow> program" where
  "handle_search_block block_hash p =
     (case Wallet_search_block block_hash p of
        Some block \<Rightarrow> show_ui (BlockFound block) p
      | None \<Rightarrow> show_ui NotFound p)"

definition handle_search_header :: "hash32 \<Rightarrow> program \<Rightarrow> program" where
  "handle_search_header block_hash p =
     (case Wallet_search_header block_hash p of
        Some (header, ht) \<Rightarrow> show_ui (HeaderFound header ht) p
      | None \<Rightarrow> show_ui NotFound p)"

definition handle_get_transactions :: "crypto \<Rightarrow> Wallet \<Rightarrow> program \<Rightarrow> (program, 'e) result" where
  "handle_get_transactions cr wallet p =
     and_then (Wallet_get_transactions cr wallet p) (\<lambda>found.
     case found of Some transactions \<Rightarrow> Ok (show_ui (UpdateTransactions transactions) p) | None \<Rightarrow> Ok p)"

text \<open>One event other than \<open>Finish\<close>, and the loop over the events that arrive.\<close>

fun handle_wallet_event ::
  "crypto \<Rightarrow> (utxo_map \<Rightarrow> hash32 list) \<Rightarrow> WalletEvent \<Rightarrow> Wallet \<times> program \<Rightarrow> (Wallet \<times> program, 'e) result" where
  "handle_wallet_event cr ord (AddAccountRequest wif addr) (w, p) =
     and_then (handle_add_account cr ord wif addr p) (\<lambda>p. Ok (w, p))"
| "handle_wallet_event cr ord (ChangeAccount account_index) (w, p) = handle_change_account account_index w p"
| "handle_wallet_event cr ord GetAccountRequest (w, p) = and_then (handle_get_account w p) (\<lambda>p. Ok (w, p))"
| "handle_wallet_event cr ord (MakeTransaction addr amt fee) (w, p) =
     and_then (handle_make_transaction cr w addr amt fee p) (\<lambda>p. Ok (w, p))"
| "handle_wallet_event cr ord (PoiOfTransactionRequest block_hash transaction_hash) (w, p) =
     and_then (handle_poi cr block_hash transaction_hash p) (\<lambda>p. Ok (w, p))"
| "handle_wallet_event cr ord (SearchBlock block_hash) (w, p) = Ok (w, handle_search_block block_hash p)"
| "handle_wallet_event cr ord (SearchHeader block_hash) (w, p) = Ok (w, handle_search_header block_hash p)"
| "handle_wallet_event cr ord GetTransactionsRequest (w, p) =
     and_then (handle_get_transactions cr w p) (\<lambda>p. Ok (w, p))"
| "handle_wallet_event cr ord Finish (w, p) = Ok (w, p)"
| "handle_wallet_event cr ord Start (w, p) = Ok (w, p)"

fun handle_ui_request ::
  "crypto \<Rightarrow> (utxo_map \<Rightarrow> hash32 list) \<Rightarrow> WalletEvent list \<Rightarrow> Wallet \<times> program \<Rightarrow> (Wallet \<times> program, 'e) result" where
  "handle_ui_request cr ord [] wp = Ok wp"
| "handle_ui_request cr ord (event # events) wp =
     (if event = Finish then Ok wp
      else and_then (handle_wallet_event cr ord event wp) (handle_ui_request cr ord events))"

subsection \<open>Effect of a broadcast\<close>

lemma fold_send_peers:
  "distinct is \<Longrightarrow> j < length (peers p) \<Longrightarrow>
     peers (fold (send_to_peer m) is p) ! j =
       (if j \<in> set is \<and> listening (peers p ! j)
        then (peers p ! j)\<lparr>channel := channel (peers p ! j) @ [m]\<rparr> else peers p ! j) \<and>
     length (peers (fold (send_to_peer m) is p)) = length (peers p)"
proof (induction "is" arbitrary: p)
  case (Cons i "is")
  from Cons.IH [of "send_to_peer m i p"] Cons.prems show ?case
    by (auto simp: send_to_peer_def nth_list_update)
qed simp

lemma fold_send_shared: "shared (fold (send_to_peer m) is p) = shared p"
  by (induction "is" arbitrary: p) (simp_all add: send_to_peer_def)

abbreviation tx_announcement :: "crypto \<Rightarrow> Transaction \<Rightarrow> bytes" where
  "tx_announcement cr t \<equiv> frame cr ''inv'' (inventory_payload [Inventory_new_tx (Transaction_hash cr t)])"

lemma broadcast_tx_eq:
  "broadcast_tx cr n (Transaction_hash cr t) p =
     (if \<forall>i \<in> set (nodes_sender (peers_handler n)). \<not> (i < length (peers p) \<and> listening (peers p ! i))
      then Err (ThreadChannelError ''All nodes failed'')
      else Ok (fold (send_to_peer (tx_announcement cr t)) (nodes_sender (peers_handler n)) p))"
proof -
  have "length (filter P xs) = length xs \<longleftrightarrow> (\<forall>x \<in> set xs. P x)" for P and xs :: "nat list"
    by (metis filter_True length_filter_less less_irrefl)
  then show ?thesis
    by (simp add: broadcast_tx_def inv_mershalling_frame broadcast_to_nodes_def Let_def)
qed

lemma Wallet_make_transaction_cases:
  assumes "current_account_index w = Some i" and "i < length (prog_accounts p)"
    and "validate_transaction_data amt fee = Ok ()"
    and "make_transaction cr (prog_accounts p ! i) addr amt fee = Ok (t, a)"
  shows "Wallet_make_transaction cr w addr amt fee p =
    (let p1 = set_prog_accounts ((prog_accounts p)[i := a]) p in
     case broadcast_tx cr (w_node w) (Transaction_hash cr t) p1 of
       Err e \<Rightarrow> (Err (display_error e), p1) | Panic \<Rightarrow> (Panic, p1) | Ok p2 \<Rightarrow> (Ok (), show_ui NewPendingTx p2))"
  using assms by (simp add: Wallet_make_transaction_def index_at_def Let_def)

lemma hash32_length: "digest_lengths cr \<Longrightarrow> length (Transaction_hash cr t) = 32"
  by (simp add: Transaction_hash_def hash_message_def sha_length)

lemma set_prog_accounts_fields [simp]:
  "peers (set_prog_accounts accs p) = peers p" "prog_accounts (set_prog_accounts accs p) = accs"
  "prog_chain (set_prog_accounts accs p) = prog_chain p"
  by (simp_all add: set_prog_accounts_def upd_accounts_def)

subsection \<open>Properties\<close>

text \<open>
  C19. A payment of the wallet is announced and can be fetched: when the selected account can make
  the transaction and some peer of the wallet's node is still connected, the call succeeds, the
  transaction is pending in the account, every connected peer of the node has its announcement
  queued, and whoever asks for it with \<open>getdata\<close> is sent the transaction.
\<close>

theorem payment_announced_and_served:
  assumes "digest_lengths cr" and "current_account_index w = Some i" and "i < length (prog_accounts p)"
    and "validate_transaction_data amt fee = Ok ()"
    and "make_transaction cr (prog_accounts p ! i) addr amt fee = Ok (t, a)"
    and "distinct (nodes_sender (peers_handler (w_node w)))"
    and "j \<in> set (nodes_sender (peers_handler (w_node w)))" and "j < length (peers p)" and "listening (peers p ! j)"
  shows "\<exists>p'. Wallet_make_transaction cr w addr amt fee p = (Ok (), p') \<and>
    t \<in> set (pending_transactions (prog_accounts p' ! i)) \<and>
    channel (peers p' ! j) = channel (peers p ! j) @ [tx_announcement cr t] \<and>
    (\<exists>st'. handle_getdata_message cr (inventory_payload [Inventory_new_tx (Transaction_hash cr t)]) (shared p') = Ok st' \<and>
       frame cr ''tx'' (Transaction_marshalling t) \<in> set (sent st'))"
proof -
  let ?p1 = "set_prog_accounts ((prog_accounts p)[i := a]) p"
  let ?p2 = "fold (send_to_peer (tx_announcement cr t)) (nodes_sender (peers_handler (w_node w))) ?p1"
  have "broadcast_tx cr (w_node w) (Transaction_hash cr t) ?p1 = Ok ?p2"
    using assms(7-9) by (auto simp: broadcast_tx_eq)
  then have ok: "Wallet_make_transaction cr w addr amt fee p = (Ok (), show_ui NewPendingTx ?p2)"
    by (simp add: Wallet_make_transaction_cases [OF assms(2-5)])
  have a: "t \<in> set (pending_transactions a)"
    using make_transaction_Ok [OF assms(5)] by auto
  have sh: "shared (show_ui NewPendingTx ?p2) = send_event_to_ui NewPendingTx (shared ?p1)"
    by (simp add: show_ui_def fold_send_shared)
  have pend: "t \<in> set (pending_of (shared (show_ui NewPendingTx ?p2)))"
    using a assms(3) unfolding sh
    by (auto simp: pending_of_def send_event_to_ui_def set_prog_accounts_def upd_accounts_def
        intro!: bexI [of _ a] set_update_memI)
  have "\<forall>inv \<in> set [Inventory_new_tx (Transaction_hash cr t)]. wf_inventory inv"
    using assms(1) by (simp add: wf_inventory_def Inventory_new_tx_def hash32_length)
  from handle_getdata_effect [OF _ this, of cr "shared (show_ui NewPendingTx ?p2)"] obtain st' where
      "handle_getdata_message cr (inventory_payload [Inventory_new_tx (Transaction_hash cr t)])
         (shared (show_ui NewPendingTx ?p2)) = Ok st'"
      "set (tx_replies cr (pending_of (shared (show_ui NewPendingTx ?p2))) (Inventory_new_tx (Transaction_hash cr t)))
         \<subseteq> set (sent st')"
    by fastforce
  moreover from pend have "frame cr ''tx'' (Transaction_marshalling t) \<in>
      set (tx_replies cr (pending_of (shared (show_ui NewPendingTx ?p2))) (Inventory_new_tx (Transaction_hash cr t)))"
    by (auto simp: tx_replies_def Inventory_new_tx_def)
  moreover have "channel (peers (show_ui NewPendingTx ?p2) ! j) = channel (peers p ! j) @ [tx_announcement cr t]"
    using fold_send_peers [OF assms(6), of j ?p1] assms(7-9) by (simp add: show_ui_def)
  moreover have "prog_accounts (show_ui NewPendingTx ?p2) ! i = a"
    using assms(3) by (simp add: show_ui_def fold_send_shared send_event_to_ui_def)
  ultimately show ?thesis
    using ok a by auto
qed

definition sample_peer :: "bytes list \<Rightarrow> peer" where
  "sample_peer segs = \<lparr>conn = sample_connection segs, channel = [], listening = True\<rparr>"

definition sample_program :: "Account list \<Rightarrow> peer list \<Rightarrow> program" where
  "sample_program accs ps = \<lparr>shared = upd_accounts accs sample_node, peers = ps, finished = False\<rparr>"

definition sample_wallet :: Wallet where
  "sample_wallet = \<lparr>w_node = \<lparr>peers_handler = \<lparr>nodes_sender = [0]\<rparr>\<rparr>, current_account_index = Some 0\<rparr>"

lemma sample_accounts [simp]: "prog_accounts (sample_program accs ps) = accs"
  by (simp add: sample_program_def upd_accounts_def)

lemma sample_payment: "\<exists>t a. make_transaction sample_crypto sample_account sample_address 3 2 = Ok (t, a)"
proof -
  have "address sample_account = sample_address"
    by (simp add: sample_account_def)
  then show ?thesis
    using make_transaction_succeeds [OF sample_wif sample_pubkey sample_signs sample_digest_lengths
        sample_script _ sample_own sample_nonneg, of _ 3 2]
    by (auto simp: sample_total i64_max_def sample_script)
qed

lemma sample_amounts: "validate_transaction_data 3 2 = Ok ()"
  by (simp add: validate_transaction_data_def i64_add_def fits_i64_def i64_min_def i64_max_def)

theorem payment_announced_and_served_witness:
  "\<exists>p'. Wallet_make_transaction sample_crypto sample_wallet sample_address 3 2
      (sample_program [sample_account] [sample_peer []]) = (Ok (), p')"
proof -
  obtain t a where t: "make_transaction sample_crypto sample_account sample_address 3 2 = Ok (t, a)"
    using sample_payment by blast
  show ?thesis
    using payment_announced_and_served [OF sample_digest_lengths, of sample_wallet 0
        "sample_program [sample_account] [sample_peer []]" 3 2 sample_address t a 0] t sample_amounts
    by (auto simp: sample_wallet_def sample_peer_def) (auto simp: sample_program_def)
qed

text \<open>
  When no peer of the wallet's node is connected any more, a payment is reported as failed, and
  yet the transaction stays among the pending ones of the account.
\<close>

theorem failed_payment_stays_pending:
  assumes "current_account_index w = Some i" and "i < length (prog_accounts p)"
    and "validate_transaction_data amt fee = Ok ()"
    and "make_transaction cr (prog_accounts p ! i) addr amt fee = Ok (t, a)"
    and "\<forall>j \<in> set (nodes_sender (peers_handler (w_node w))). \<not> (j < length (peers p) \<and> listening (peers p ! j))"
  shows "\<exists>p'. Wallet_make_transaction cr w addr amt fee p =
      (Err ''Can not send elements to channel Error: All nodes failed'', p') \<and>
    pending_transactions (prog_accounts p' ! i) = pending_transactions (prog_accounts p ! i) @ [t]"
  using assms(1,2,5) make_transaction_Ok [OF assms(4)]
  by (auto simp: Wallet_make_transaction_cases [OF assms(1-4)] broadcast_tx_eq)

theorem failed_payment_stays_pending_witness:
  "\<exists>t p'. Wallet_make_transaction sample_crypto sample_wallet sample_address 3 2 (sample_program [sample_account] []) =
      (Err ''Can not send elements to channel Error: All nodes failed'', p') \<and>
    pending_transactions (prog_accounts p' ! 0) = [t]"
proof -
  obtain t a where t: "make_transaction sample_crypto sample_account sample_address 3 2 = Ok (t, a)"
    using sample_payment by blast
  show ?thesis
    using failed_payment_stays_pending [of sample_wallet 0 "sample_program [sample_account] []" 3 2 sample_crypto
        sample_address t a] t sample_amounts
    by (auto simp: sample_wallet_def sample_account_def) (auto simp: sample_program_def)
qed

text \<open>
  The check of the amounts of a payment accepts exactly the pairs whose sum fits in an \<open>i64\<close> and
  is positive (it panics when the sum overflows): a negative amount with a larger fee, or the
  reverse, passes.
\<close>

theorem transaction_data_check:
  "validate_transaction_data amt fee =
    (if fits_i64 (sint amt + sint fee)
     then if 0 < sint amt + sint fee then Ok ()
          else Err ''Error trying to make transaction. Amount and fee must be greater than zero''
     else Panic)"
  by (simp add: validate_transaction_data_def i64_add_def sint_i64_add)

text \<open>
  The proof of inclusion that the user asks for answers membership: for the texts of a block
  hash and of a transaction id, the answer is whether the transaction is in the stored block, and an
  error when no such block is stored.
\<close>

theorem poi_answers_membership:
  assumes "length bh = 32" and "length x = 32"
    and "\<And>b. blocks (prog_chain p) bh = Some b \<Longrightarrow> txn b \<noteq> []"
  shows "tx_proof_of_inclusion cr (bytes_to_hex_hash bh) (bytes_to_hex_hash x) p =
    (case blocks (prog_chain p) bh of
       None \<Rightarrow> Err ''Error: Block hash not found''
     | Some b \<Rightarrow> Ok (x \<in> set (tx_ids cr b)))"
proof -
  have hex: "string_to_bytes (bytes_to_hex_hash h) = Ok (rev h)" if "length h = 32" for h
    using that by (simp add: bytes_to_hex_hash_def string_to_bytes_hex)
  show ?thesis
  proof (cases "blocks (prog_chain p) bh")
    case None
    with assms show ?thesis
      by (simp add: tx_proof_of_inclusion_def hex Node_merkle_proof_of_inclusion_def)
  next
    case (Some b)
    note path = inclusion_path [where 'e = NodeCustomErrors, OF assms(3) [OF Some], of x cr]
    show ?thesis
    proof (cases "x \<in> set (tx_ids cr b)")
      case True
      with path obtain ps where
        "merkle_proof_of_inclusion cr b x = (Ok (Some ps) :: ((hash32 \<times> bool) list option, NodeCustomErrors) result)"
        "make_merkle_proof cr ps x = (Ok True :: (bool, NodeCustomErrors) result)"
        by auto
      moreover from this(2) have "make_merkle_proof cr ps x = (Ok True :: (bool, string) result)"
        by (auto simp: make_merkle_proof_def and_then_eq_Ok usize_sub_eq_Ok index_at_eq_Ok Let_def)
      ultimately show ?thesis
        using assms(1,2) True Some by (simp add: tx_proof_of_inclusion_def hex Node_merkle_proof_of_inclusion_def)
    next
      case False
      with path assms(1,2) Some show ?thesis
        by (simp add: tx_proof_of_inclusion_def hex Node_merkle_proof_of_inclusion_def)
    qed
  qed
qed

theorem poi_answers_membership_witness:
  "tx_proof_of_inclusion sample_crypto (bytes_to_hex_hash (replicate 32 1)) (bytes_to_hex_hash (replicate 32 2))
      (sample_program [] []) = Err ''Error: Block hash not found''"
  using poi_answers_membership [of "replicate 32 1" "replicate 32 2" "sample_program [] []" sample_crypto]
  by (simp add: sample_program_def sample_node_def upd_accounts_def NodeDataPointers_new_def Blockchain_new_def)

text \<open>
  A peer that connects through the server is not reached by the wallet's announcements: the
  server works on a clone of the node, whose list of channels is its own, so whatever the wallet
  broadcasts leaves the new peer's channel empty.
\<close>

theorem server_peer_not_reached:
  assumes "Node_add_connection c server p = (server', p1)"
    and "\<forall>i \<in> set (nodes_sender (peers_handler n)). i < length (peers p)"
    and "broadcast_tx cr n (Transaction_hash cr t) p1 = Ok p2"
  shows "listening (peers p1 ! length (peers p)) \<and> channel (peers p2 ! length (peers p)) = []"
proof -
  have p1: "peers p1 = peers p @ [\<lparr>conn = c, channel = [], listening = True\<rparr>]"
    using assms(1) by (auto simp: Node_add_connection_def NodeMessageHandler_add_connection_def
        handle_messages_from_node_def)
  have "peers (fold (send_to_peer m) is q) ! k = peers q ! k" if "k \<notin> set is" for m "is" k q
    using that by (induction "is" arbitrary: q) (auto simp: send_to_peer_def)
  from this [of "length (peers p)" "nodes_sender (peers_handler n)" "tx_announcement cr t" p1] p1 assms(2,3) show ?thesis
    by (auto simp: broadcast_tx_eq split: if_splits)
qed

theorem server_peer_not_reached_witness:
  "\<exists>p1 p2. broadcast_tx sample_crypto (w_node sample_wallet) (Transaction_hash sample_crypto sample_tx) p1 = Ok p2 \<and>
     listening (peers p1 ! 1) \<and> channel (peers p2 ! 1) = []"
proof -
  obtain s p1 where a: "Node_add_connection (sample_connection []) (w_node sample_wallet)
      (sample_program [] [sample_peer []]) = (s, p1)"
    by fastforce
  then have p1: "peers p1 = [sample_peer [], \<lparr>conn = sample_connection [], channel = [], listening = True\<rparr>]"
    by (auto simp: Node_add_connection_def NodeMessageHandler_add_connection_def handle_messages_from_node_def
        sample_program_def)
  have "\<exists>p2. broadcast_tx sample_crypto (w_node sample_wallet) (Transaction_hash sample_crypto sample_tx) p1 = Ok p2"
    by (simp add: broadcast_tx_eq p1 sample_wallet_def sample_peer_def)
  then obtain p2 where "broadcast_tx sample_crypto (w_node sample_wallet) (Transaction_hash sample_crypto sample_tx) p1 = Ok p2" ..
  with server_peer_not_reached [OF a _ this] show ?thesis
    by (auto simp: sample_wallet_def sample_program_def)
qed

end
