(* ===== verification/Ledger.thy ===== *)
theory Ledger
  imports Node_State
begin

section \<open>The abstract ledger\<close>

text \<open>
  The specification of the running node, without threads, wire formats, caches and hash maps: a list
  of headers, the unspent outputs as a partial function on outpoints, and for every account its address
  with the multisets of transactions that wait for a block and that are settled. Four kinds of events
  change it. The account's own copy of the unspent outputs is not part of it: the invariant of the node
  says that the copy is a function of the ledger.

  The locale \<open>contract\<close> carries invariants and guarantees from the steps of a relation to its runs;
  the locale \<open>refinement\<close>, of steps that a run of an abstract system simulates, is a contract.
\<close>

record holder =
  owner :: string
  awaiting :: "Transaction multiset"
  settled :: "Transaction multiset"

record ledger =
  l_headers :: "BlockHeader list"
  l_coins :: utxo_view
  l_holders :: "holder list"

definition holder_of :: "Account \<Rightarrow> holder" where
  "holder_of a = \<lparr>owner = address a, awaiting = mset (pending_transactions a),
     settled = mset (confirmed_transactions a)\<rparr>"

definition ledger_of :: "node \<Rightarrow> ledger" where
  "ledger_of st = \<lparr>l_headers = headers (chain st), l_coins = utxo_view (bc_utxo_set (chain st)),
     l_holders = map holder_of (accounts (pointers st))\<rparr>"

subsection \<open>Events\<close>

datatype ledger_event =
    Mined Block
  | Noted Transaction
  | Paid nat i64 i64 Transaction
  | Opened string

text \<open>
  A block settles transactions that wait for it, identified by their ids; when no two waiting
  transactions have the same id, exactly the waiting transactions of the block.
\<close>

definition settle :: "crypto \<Rightarrow> Transaction list \<Rightarrow> holder \<Rightarrow> holder \<Rightarrow> bool" where
  "settle cr ts h h' \<longleftrightarrow>
     (\<exists>moved. moved \<subseteq># awaiting h \<and>
        image_mset (Transaction_hash cr) moved \<subseteq># image_mset (Transaction_hash cr) (mset ts) \<and>
        (inj_on (Transaction_hash cr) (set_mset (awaiting h)) \<longrightarrow> moved = awaiting h \<inter># mset ts) \<and>
        h' = h\<lparr>awaiting := awaiting h - moved, settled := settled h + moved\<rparr>)"

text \<open>A transaction waits with an owner whom one of its outputs names, once.\<close>

definition named_by :: "crypto \<Rightarrow> Transaction \<Rightarrow> string \<Rightarrow> bool" where
  "named_by cr t addr \<longleftrightarrow> (\<exists>o' \<in> set (tx_out t). TxOut_get_address cr o' \<in> {Ok addr, Err addr})"

definition noting :: "crypto \<Rightarrow> Transaction \<Rightarrow> holder \<Rightarrow> holder" where
  "noting cr t h =
     (if t \<in># awaiting h \<or> \<not> named_by cr t (owner h) then h else h\<lparr>awaiting := add_mset t (awaiting h)\<rparr>)"

text \<open>A payment spends outputs that pay the owner: they cover the amount, the fee and the change.\<close>

definition funds :: "crypto \<Rightarrow> utxo_view \<Rightarrow> string \<Rightarrow> i64 \<Rightarrow> i64 \<Rightarrow> Transaction \<Rightarrow> bool" where
  "funds cr u addr amt fee t \<longleftrightarrow>
     (\<exists>es change. distinct (map (\<lambda>(h, i, o'). (h, i)) es) \<and>
        (\<forall>h i o'. (h, i, o') \<in> set es \<longrightarrow> u (h, i) = Some o' \<and> pays cr addr o') \<and>
        map previous_output (tx_in t) = map input_of es \<and>
        map txout_value (tx_out t) = [amt, change] \<and> 0 \<le> sint change \<and>
        total es = sint amt + sint fee + sint change)"

inductive ledger_step :: "crypto \<Rightarrow> ledger \<Rightarrow> ledger_event \<Rightarrow> ledger \<Rightarrow> bool" for cr :: crypto where
  mined: "\<lbrakk>wf_block b; valid_block cr b; header_is_not_included (block_header b) (l_headers l);
     list_all2 (settle cr (txn b)) (l_holders l) hs\<rbrakk> \<Longrightarrow>
   ledger_step cr l (Mined b)
     \<lparr>l_headers = l_headers l @ [block_header b], l_coins = fold (apply_tx cr) (txn b) (l_coins l), l_holders = hs\<rparr>"
| noted: "wf_tx t \<Longrightarrow> ledger_step cr l (Noted t) (l\<lparr>l_holders := map (noting cr t) (l_holders l)\<rparr>)"
| paid: "\<lbrakk>i < length (l_holders l); 0 < sint amt + sint fee; funds cr (l_coins l) (owner (l_holders l ! i)) amt fee t\<rbrakk> \<Longrightarrow>
   ledger_step cr l (Paid i amt fee t)
     (l\<lparr>l_holders := (l_holders l)[i := (l_holders l ! i)\<lparr>awaiting := add_mset t (awaiting (l_holders l ! i))\<rparr>]\<rparr>)"
| opened: "ledger_step cr l (Opened addr)
     (l\<lparr>l_holders := l_holders l @ [\<lparr>owner = addr, awaiting = {#}, settled = {#}\<rparr>]\<rparr>)"

inductive_cases ledger_step_MinedE: "ledger_step cr l (Mined b) l'"
inductive_cases ledger_step_NotedE: "ledger_step cr l (Noted t) l'"
inductive_cases ledger_step_PaidE: "ledger_step cr l (Paid i amt fee t) l'"
inductive_cases ledger_step_OpenedE: "ledger_step cr l (Opened addr) l'"

lemmas ledger_stepE = ledger_step_MinedE ledger_step_NotedE ledger_step_PaidE ledger_step_OpenedE

fun ledger_run :: "crypto \<Rightarrow> ledger \<Rightarrow> ledger_event list \<Rightarrow> ledger \<Rightarrow> bool" where
  "ledger_run cr l [] l' \<longleftrightarrow> l' = l"
| "ledger_run cr l (e # es) l' \<longleftrightarrow> (\<exists>m. ledger_step cr l e m \<and> ledger_run cr m es l')"

lemma ledger_run_append: "ledger_run cr l (es @ fs) l' \<longleftrightarrow> (\<exists>m. ledger_run cr l es m \<and> ledger_run cr m fs l')"
  by (induction es arbitrary: l) auto

lemma ledger_run_single: "ledger_run cr l [e] l' \<longleftrightarrow> ledger_step cr l e l'"
  by auto

subsection \<open>What a run of the ledger does\<close>

fun mined_blocks :: "ledger_event list \<Rightarrow> Block list" where
  "mined_blocks [] = []"
| "mined_blocks (Mined b # es) = b # mined_blocks es"
| "mined_blocks (_ # es) = mined_blocks es"

fun opened_accounts :: "ledger_event list \<Rightarrow> string list" where
  "opened_accounts [] = []"
| "opened_accounts (Opened a # es) = a # opened_accounts es"
| "opened_accounts (_ # es) = opened_accounts es"

fun seen_transactions :: "ledger_event list \<Rightarrow> Transaction set" where
  "seen_transactions [] = {}"
| "seen_transactions (Noted t # es) = insert t (seen_transactions es)"
| "seen_transactions (Paid i amt fee t # es) = insert t (seen_transactions es)"
| "seen_transactions (_ # es) = seen_transactions es"

lemma run_chain:
  "ledger_run cr l es l' \<Longrightarrow>
     l_headers l' = l_headers l @ map block_header (mined_blocks es) \<and>
     l_coins l' = fold (apply_tx cr) (concat (map txn (mined_blocks es))) (l_coins l) \<and>
     (\<forall>b \<in> set (mined_blocks es). wf_block b \<and> valid_block cr b)"
proof (induction es arbitrary: l rule: mined_blocks.induct)
  case (2 b es)
  then show ?case by (fastforce elim: ledger_step_MinedE)
qed (auto elim!: ledger_stepE)

lemma settle_owner: "settle cr ts h h' \<Longrightarrow> owner h' = owner h"
  by (auto simp: settle_def)

lemma noting_fields [simp]: "owner (noting cr t h) = owner h" "settled (noting cr t h) = settled h"
  by (simp_all add: noting_def)

lemma step_owners:
  assumes "ledger_step cr l e l'"
  shows "map owner (l_holders l') = map owner (l_holders l) @ opened_accounts [e]"
  using assms
proof cases
  case (mined b hs)
  have "map owner hs = map owner (l_holders l)"
    using mined(6) by (induction rule: list_all2_induct) (auto dest: settle_owner)
  with mined show ?thesis by simp
qed (simp_all add: comp_def map_update list_update_same_conv nth_list_update list_eq_iff_nth_eq)

lemma run_owners:
  "ledger_run cr l es l' \<Longrightarrow> map owner (l_holders l') = map owner (l_holders l) @ opened_accounts es"
proof (induction es arbitrary: l rule: opened_accounts.induct)
  case (2 a es)
  then show ?case by (fastforce dest: step_owners)
qed (auto dest!: step_owners)

text \<open>No transaction comes from nowhere, and none is settled that no block confirmed.\<close>

definition accounted :: "crypto \<Rightarrow> Transaction set \<Rightarrow> hash32 multiset \<Rightarrow> holder \<Rightarrow> holder \<Rightarrow> bool" where
  "accounted cr T B h h' \<longleftrightarrow>
     awaiting h + settled h \<subseteq># awaiting h' + settled h' \<and> settled h \<subseteq># settled h' \<and>
     set_mset (awaiting h' + settled h') \<subseteq> set_mset (awaiting h + settled h) \<union> T \<and>
     image_mset (Transaction_hash cr) (settled h') \<subseteq># image_mset (Transaction_hash cr) (settled h) + B"

lemma accounted_refl: "accounted cr {} {#} h h"
  by (simp add: accounted_def)

lemma accounted_trans:
  assumes "accounted cr S A h i" and "accounted cr T B i j"
  shows "accounted cr (S \<union> T) (A + B) h j"
proof -
  have "image_mset (Transaction_hash cr) (settled i) + B \<subseteq># image_mset (Transaction_hash cr) (settled h) + A + B"
    using assms(1) by (intro subset_mset.add_right_mono) (simp add: accounted_def)
  with assms show ?thesis
    by (fastforce simp: accounted_def add.assoc intro: subset_mset.order_trans)
qed

lemma settle_accounted:
  assumes "settle cr ts h h'"
  shows "accounted cr {} (image_mset (Transaction_hash cr) (mset ts)) h h'"
proof -
  from assms obtain moved where "moved \<subseteq># awaiting h"
      "image_mset (Transaction_hash cr) moved \<subseteq># image_mset (Transaction_hash cr) (mset ts)"
      "h' = h\<lparr>awaiting := awaiting h - moved, settled := settled h + moved\<rparr>"
    by (auto simp: settle_def)
  moreover from this(1) have "awaiting h - moved + (settled h + moved) = awaiting h + settled h"
    by (metis ab_semigroup_add_class.add.left_commute add.commute subset_mset.diff_add)
  ultimately show ?thesis
    by (simp add: accounted_def)
qed

definition block_ids :: "crypto \<Rightarrow> ledger_event list \<Rightarrow> hash32 multiset" where
  "block_ids cr es = image_mset (Transaction_hash cr) (mset (concat (map txn (mined_blocks es))))"

lemma noting_accounted: "accounted cr {t} {#} h (noting cr t h)"
  by (auto simp: accounted_def noting_def)

lemma step_accounted:
  assumes "ledger_step cr l e l'" and "i < length (l_holders l)"
  shows "accounted cr (seen_transactions [e]) (block_ids cr [e]) (l_holders l ! i) (l_holders l' ! i)"
  using assms(1)
proof cases
  case (mined b hs)
  with assms(2) show ?thesis
    by (auto simp: block_ids_def list_all2_conv_all_nth intro: settle_accounted)
next
  case (noted t)
  with assms(2) noting_accounted show ?thesis
    by (simp add: block_ids_def)
next
  case (paid j amt fee t)
  with assms(2) show ?thesis
    by (auto simp: block_ids_def accounted_def nth_list_update)
next
  case (opened a)
  with assms(2) show ?thesis
    by (simp add: block_ids_def accounted_refl nth_append)
qed

lemma run_accounted:
  "ledger_run cr l es l' \<Longrightarrow> i < length (l_holders l) \<Longrightarrow>
     accounted cr (seen_transactions es) (block_ids cr es) (l_holders l ! i) (l_holders l' ! i)"
proof (induction es arbitrary: l)
  case Nil
  then show ?case by (simp add: block_ids_def accounted_refl)
next
  case (Cons e es)
  then obtain m where m: "ledger_step cr l e m" "ledger_run cr m es l'" by auto
  have "length (l_holders m) = length (l_holders l) + length (opened_accounts [e])"
    using arg_cong [OF step_owners [OF m(1)], of length] by simp
  with Cons.prems(2) have "i < length (l_holders m)" by simp
  from accounted_trans [OF step_accounted [OF m(1) Cons.prems(2)] Cons.IH [OF m(2) this]]
  have "accounted cr (seen_transactions [e] \<union> seen_transactions es) (block_ids cr [e] + block_ids cr es)
      (l_holders l ! i) (l_holders l' ! i)" .
  moreover have "seen_transactions [e] \<union> seen_transactions es = seen_transactions (e # es)"
      "block_ids cr [e] + block_ids cr es = block_ids cr (e # es)"
    by (cases e; simp add: block_ids_def)+
  ultimately show ?case by simp
qed

subsection \<open>Holdings\<close>

text \<open>What an address owns in a set of unspent outputs.\<close>

definition coins_of :: "crypto \<Rightarrow> utxo_view \<Rightarrow> string \<Rightarrow> (hash32 \<times> nat) set" where
  "coins_of cr u addr = {p. \<exists>o'. u p = Some o' \<and> pays cr addr o'}"

definition coin_value :: "utxo_view \<Rightarrow> hash32 \<times> nat \<Rightarrow> int" where
  "coin_value u p = (case u p of None \<Rightarrow> 0 | Some o' \<Rightarrow> sint (txout_value o'))"

definition holdings :: "crypto \<Rightarrow> utxo_view \<Rightarrow> string \<Rightarrow> int" where
  "holdings cr u addr = sum (coin_value u) (coins_of cr u addr)"

lemma in_sync_coins:
  assumes "in_sync cr m a"
  shows "(\<lambda>(h, i, o'). (h, i)) ` set (entries (utxo_set a)) = coins_of cr (utxo_view m) (address a)"
proof -
  have m: "(h, i, o') \<in> set (entries (utxo_set a)) \<longleftrightarrow> utxo_view m (h, i) = Some o' \<and> pays cr (address a) o'" for h i o'
    using assms by (auto simp: in_sync_def)
  show ?thesis
  proof (intro set_eqI iffI)
    fix p assume "p \<in> coins_of cr (utxo_view m) (address a)"
    then obtain o' where "(fst p, snd p, o') \<in> set (entries (utxo_set a))"
      using m by (auto simp: coins_of_def)
    then show "p \<in> (\<lambda>(h, i, o'). (h, i)) ` set (entries (utxo_set a))"
      by (force intro: rev_image_eqI)
  qed (use m in \<open>auto simp: coins_of_def\<close>)
qed

text \<open>An account in agreement with the set shows exactly what its address owns.\<close>

lemma in_sync_holdings:
  assumes "in_sync cr m a"
  shows "total (entries (utxo_set a)) = holdings cr (utxo_view m) (address a)"
proof -
  let ?k = "\<lambda>(h, i, o'). (h, i)" and ?es = "entries (utxo_set a)"
  have v: "satoshis e = coin_value (utxo_view m) (?k e)" if "e \<in> set ?es" for e
    using assms that by (cases e) (auto simp: in_sync_def satoshis_def coin_value_def)
  have "total ?es = (\<Sum>p \<leftarrow> map ?k ?es. coin_value (utxo_view m) p)"
    using v by (simp add: comp_def cong: map_cong)
  also have "\<dots> = sum (coin_value (utxo_view m)) (set (map ?k ?es))"
    using assms by (intro sum_list_distinct_conv_sum_set) (simp add: in_sync_def)
  finally show ?thesis
    using in_sync_coins [OF assms] by (simp add: holdings_def)
qed

subsection \<open>The handlers as events\<close>

text \<open>A \<open>tx\<close> message is the event \<open>Noted\<close>.\<close>

lemma involves_notes:
  "involves_user_account cr out t accs = Ok (accs', es) \<Longrightarrow> accs' = map (note_tx cr t [out]) accs"
proof (induction accs arbitrary: accs' es)
  case (Cons a accs)
  then show ?case
    by (auto simp: and_then_eq_Ok note_tx_def concerns_def split: if_split_asm result.split_asm)
qed simp

lemma check_tx_notes:
  "fold_result (\<lambda>txout st.
      and_then (involves_user_account cr txout t (accounts (pointers st))) (\<lambda>(accs, events).
      Ok (fold send_event_to_ui events (upd_accounts accs st)))) outs st = (Ok st' :: (node, 'e) result) \<Longrightarrow>
   chain st' = chain st \<and> accounts (pointers st') = map (note_tx cr t outs) (accounts (pointers st))"
proof (induction outs arbitrary: st)
  case Nil
  then show ?case by (simp add: note_tx_def map_idI)
next
  case (Cons out outs)
  from Cons.prems obtain accs es where
      i: "involves_user_account cr out t (accounts (pointers st)) = (Ok (accs, es) :: (Account list \<times> UIEvent list, 'e) result)"
      and r: "fold_result (\<lambda>txout st.
        and_then (involves_user_account cr txout t (accounts (pointers st))) (\<lambda>(accs, events).
        Ok (fold send_event_to_ui events (upd_accounts accs st)))) outs (fold send_event_to_ui es (upd_accounts accs st)) =
        (Ok st' :: (node, 'e) result)"
    by (auto simp: and_then_eq_Ok)
  from Cons.IH [OF r] involves_notes [OF i] show ?case
    by (simp add: fold_ui upd_accounts_def note_tx_trans)
qed

lemma holder_of_note_tx: "holder_of (note_tx cr t (tx_out t) a) = noting cr t (holder_of a)"
  by (auto simp: holder_of_def note_tx_def noting_def named_by_def concerns_def)

lemma handle_tx_noted:
  assumes "handle_tx_message cr payload st = Ok st'"
  shows "\<exists>t. ledger_step cr (ledger_of st) (Noted t) (ledger_of st')"
proof -
  from assms obtain t off where t: "Transaction_unmarshalling payload 0 = Ok (t, off)"
      and c: "check_if_tx_involves_user_account cr t st = (Ok st' :: (node, NodeCustomErrors) result)"
    by (auto simp: handle_tx_message_def and_then_eq_Ok)
  from check_tx_notes [OF c [unfolded check_if_tx_involves_user_account_def]]
  have "ledger_of st' = (ledger_of st)\<lparr>l_holders := map (noting cr t) (l_holders (ledger_of st))\<rparr>"
    by (simp add: ledger_of_def holder_of_note_tx)
  moreover have "wf_tx t"
    using t by (simp add: tx.dec_iff)
  ultimately show ?thesis
    by (metis ledger_step.noted)
qed

text \<open>A \<open>block\<close> message that is taken in is the event \<open>Mined\<close>.\<close>

lemma settle_none: "settle cr [] h h"
  by (simp add: settle_def)

lemma settle_add:
  assumes "settle cr ts h i" and "settle cr us i j"
  shows "settle cr (ts @ us) h j"
proof -
  let ?ids = "image_mset (Transaction_hash cr)"
  from assms obtain m n where m: "m \<subseteq># awaiting h" "?ids m \<subseteq># ?ids (mset ts)"
      "inj_on (Transaction_hash cr) (set_mset (awaiting h)) \<longrightarrow> m = awaiting h \<inter># mset ts"
      "i = h\<lparr>awaiting := awaiting h - m, settled := settled h + m\<rparr>"
    and n: "n \<subseteq># awaiting i" "?ids n \<subseteq># ?ids (mset us)"
      "inj_on (Transaction_hash cr) (set_mset (awaiting i)) \<longrightarrow> n = awaiting i \<inter># mset us"
      "j = i\<lparr>awaiting := awaiting i - n, settled := settled i + n\<rparr>"
    unfolding settle_def by blast
  have "inj_on (Transaction_hash cr) (set_mset (awaiting h)) \<longrightarrow> m + n = awaiting h \<inter># mset (ts @ us)"
  proof
    assume inj: "inj_on (Transaction_hash cr) (set_mset (awaiting h))"
    then have "inj_on (Transaction_hash cr) (set_mset (awaiting i))"
      by (rule inj_on_subset) (auto simp: m(4) dest: in_diffD)
    with inj m n have "m = awaiting h \<inter># mset ts" "n = (awaiting h - awaiting h \<inter># mset ts) \<inter># mset us"
      by auto
    then show "m + n = awaiting h \<inter># mset (ts @ us)"
      by (auto intro!: multiset_eqI)
  qed
  moreover have "m + n \<subseteq># awaiting h"
    using m(1,4) n(1) by (simp add: subset_eq_diff_conv add.commute subset_mset.le_diff_conv2)
  moreover have "?ids (m + n) \<subseteq># ?ids (mset (ts @ us))"
    using m(2) n(2) by (simp add: subset_mset.add_mono)
  ultimately show ?thesis
    using m(4) n(4) unfolding settle_def by (intro exI [of _ "m + n"]) (simp add: add.assoc)
qed

lemma confirm_settles: "settle cr [t] (holder_of a) (holder_of (confirm cr t a))"
proof (cases rule: confirm_cases [of t a cr])
  case same
  then show ?thesis
    by (auto simp: settle_def holder_of_def intro!: exI [of _ "{#}"])
next
  case (moved xs u ys)
  have "u = t" if "inj_on (Transaction_hash cr) (set (pending_transactions a))"
    using that moved by (auto dest: inj_onD)
  moreover from moved(1) have "mset (pending_transactions a) \<inter># {#t#} = {#t#}"
    by (intro subset_mset.inf.absorb2) simp
  ultimately show ?thesis
    using moved(2-4) unfolding settle_def
    by (intro exI [of _ "{#u#}"]) (simp add: holder_of_def)
qed

lemma fold_confirm_settles: "settle cr ts (holder_of a) (holder_of (fold (confirm cr) ts a))"
proof (induction ts arbitrary: a)
  case (Cons t ts)
  from settle_add [OF confirm_settles Cons.IH] show ?case by simp
qed (simp add: settle_none)

lemma block_applied_mined:
  assumes "block_applied cr b st st'" and "wf_block b" and "valid_block cr b"
    and "header_is_not_included (block_header b) (headers (chain st))"
  shows "ledger_step cr (ledger_of st) (Mined b) (ledger_of st')"
proof -
  have "holder_of a' = holder_of (fold (confirm cr) (txn b) a)" if "account_after cr m b a a'" for m a a'
    using that by (simp add: account_after_def holder_of_def fold_confirm_keeps)
  then have "settle cr (txn b) (holder_of a) (holder_of a')" if "account_after cr m b a a'" for m a a'
    using that fold_confirm_settles by metis
  then have "list_all2 (settle cr (txn b)) (map holder_of (accounts (pointers st))) (map holder_of (accounts (pointers st')))"
    using assms(1) unfolding block_applied_def list_all2_map1 list_all2_map2 by (auto elim: list_all2_mono)
  with ledger_step.mined [OF assms(2,3), of "ledger_of st"] assms show ?thesis
    by (simp add: ledger_of_def block_applied_def)
qed

subsection \<open>Contracts and simulation\<close>

locale contract =
  fixes step :: "'s \<Rightarrow> 's \<Rightarrow> bool" and ok :: "'s \<Rightarrow> bool" and grow :: "'s \<Rightarrow> 's \<Rightarrow> bool"
  assumes keeps: "step s s' \<Longrightarrow> ok s \<Longrightarrow> ok s'"
    and promises: "step s s' \<Longrightarrow> ok s \<Longrightarrow> grow s s'"
    and grow_refl: "grow s s"
    and grow_trans: "grow s t \<Longrightarrow> grow t u \<Longrightarrow> grow s u"
begin

lemma run_ok: "step\<^sup>*\<^sup>* s s' \<Longrightarrow> ok s \<Longrightarrow> ok s' \<and> grow s s'"
proof (induction rule: rtranclp_induct)
  case base
  then show ?case by (simp add: grow_refl)
next
  case (step t u)
  then show ?case using keeps promises grow_trans by blast
qed

end

locale refinement =
  fixes step :: "'s \<Rightarrow> 's \<Rightarrow> bool" and ok :: "'s \<Rightarrow> bool" and abs :: "'s \<Rightarrow> 'a"
    and run :: "'a \<Rightarrow> 'e list \<Rightarrow> 'a \<Rightarrow> bool"
  assumes ok_step: "step s s' \<Longrightarrow> ok s \<Longrightarrow> ok s'"
    and step_run: "step s s' \<Longrightarrow> ok s \<Longrightarrow> \<exists>es. run (abs s) es (abs s')"
    and run_nil: "run x [] x"
    and run_append: "run x es y \<Longrightarrow> run y fs z \<Longrightarrow> run x (es @ fs) z"
begin

definition follows :: "'s \<Rightarrow> 's \<Rightarrow> bool" where
  "follows s s' \<longleftrightarrow> (\<exists>es. run (abs s) es (abs s'))"

lemma follows_refl: "follows s s"
  using run_nil by (auto simp: follows_def)

lemma follows_trans: "follows s t \<Longrightarrow> follows t u \<Longrightarrow> follows s u"
  using run_append by (fastforce simp: follows_def)

end

sublocale refinement \<subseteq> simulated: contract step ok follows
  by unfold_locales (use ok_step step_run follows_refl follows_trans in \<open>auto simp: follows_def\<close>)

end
