(* ===== verification/Program.thy ===== *)
theory Program
  imports Wallet Ledger
begin

section \<open>The running program\<close>

text \<open>
  The threads of the program as a step relation: in one step the thread of one peer makes a turn of
  its loop, the user interface makes a request, the server accepts a connection, or the program is
  told to finish. The steps of different threads interleave freely. A turn is atomic (in the code a
  handler takes the locks of the shared data one after the other), and a panic, which ends its
  thread, is not a step.

  Every step keeps the invariant \<open>node_ok\<close>, guarantees \<open>node_grows\<close> and is simulated by events of the
  abstract ledger: the locales \<open>contract\<close> and \<open>refinement\<close> of theory Ledger are interpreted on the
  program.
\<close>

subsection \<open>Steps and runs\<close>

inductive program_step ::
  "crypto \<Rightarrow> (utxo_map \<Rightarrow> hash32 list) \<Rightarrow> Wallet \<times> program \<Rightarrow> Wallet \<times> program \<Rightarrow> bool"
  for cr :: crypto and ord :: "utxo_map \<Rightarrow> hash32 list"
where
  peer_turn: "\<lbrakk>i < length (peers p); listening (peers p ! i);
     listen_turn cr ord fin (conn (peers p ! i)) ((shared p)\<lparr>sent := channel (peers p ! i)\<rparr>) = Ok (Continue c st)\<rbrakk> \<Longrightarrow>
   program_step cr ord (w, p)
     (w, p\<lparr>shared := st\<lparr>sent := []\<rparr>,
           peers := (peers p)[i := (peers p ! i)\<lparr>conn := c, channel := sent st\<rparr>]\<rparr>)"
| peer_stops: "\<lbrakk>i < length (peers p); listening (peers p ! i);
     listen_turn cr ord fin (conn (peers p ! i)) ((shared p)\<lparr>sent := channel (peers p ! i)\<rparr>) = Ok (Break err c st)\<rbrakk> \<Longrightarrow>
   program_step cr ord (w, p)
     (w, p\<lparr>shared := st\<lparr>sent := []\<rparr>,
           peers := (peers p)[i := (peers p ! i)\<lparr>conn := c, channel := sent st, listening := False\<rparr>]\<rparr>)"
| user: "handle_wallet_event cr ord event (w, p) = (Ok (w', p') :: (Wallet \<times> program, unit) result) \<Longrightarrow>
   program_step cr ord (w, p) (w', p')"
| connected: "Node_add_connection c n p = (n', p') \<Longrightarrow> program_step cr ord (w, p) (w, p')"
| finish: "program_step cr ord (w, p) (w, shutdown_node p)"

subsection \<open>The invariant and the guarantee\<close>

definition node_ok :: "crypto \<Rightarrow> node \<Rightarrow> bool" where
  "node_ok cr st \<longleftrightarrow>
     wf_utxos (bc_utxo_set (chain st)) \<and> finite (dom (bc_utxo_set (chain st))) \<and>
     (\<forall>h b. blocks (chain st) h = Some b \<longrightarrow> Block_hash cr b = h \<and> wf_block b \<and> valid_block cr b) \<and>
     list_all (in_sync cr (bc_utxo_set (chain st))) (accounts (pointers st)) \<and>
     distinct (transactions_received st)"

text \<open>The transactions of an account, pending or confirmed, with repetitions.\<close>

definition known_txs :: "Account \<Rightarrow> Transaction multiset" where
  "known_txs a = mset (pending_transactions a) + mset (confirmed_transactions a)"

definition account_grows :: "Account \<Rightarrow> Account \<Rightarrow> bool" where
  "account_grows a a' \<longleftrightarrow> address a' = address a \<and> private_key a' = private_key a \<and>
     known_txs a \<subseteq># known_txs a' \<and> mset (confirmed_transactions a) \<subseteq># mset (confirmed_transactions a')"

definition accounts_extend :: "Account list \<Rightarrow> Account list \<Rightarrow> bool" where
  "accounts_extend as bs \<longleftrightarrow> (\<exists>old new. bs = old @ new \<and> list_all2 account_grows as old)"

definition node_grows :: "crypto \<Rightarrow> node \<Rightarrow> node \<Rightarrow> bool" where
  "node_grows cr st st' \<longleftrightarrow>
     (\<exists>new. headers (chain st') = headers (chain st) @ new \<and> list_all (meets_target cr) new) \<and>
     dom (blocks (chain st)) \<subseteq> dom (blocks (chain st')) \<and>
     accounts_extend (accounts (pointers st)) (accounts (pointers st')) \<and>
     set (transactions_received st) \<subseteq> set (transactions_received st')"

lemma account_grows_refl [simp]: "account_grows a a"
  by (simp add: account_grows_def)

lemma account_grows_trans: "account_grows a b \<Longrightarrow> account_grows b c \<Longrightarrow> account_grows a c"
  by (auto simp: account_grows_def)

lemma accounts_extend_same: "list_all2 account_grows as bs \<Longrightarrow> accounts_extend as bs"
  by (auto simp: accounts_extend_def)

lemma accounts_extend_refl [simp]: "accounts_extend as as"
  by (intro accounts_extend_same list_all2_refl) simp

lemma accounts_extend_trans:
  assumes "accounts_extend as bs" and "accounts_extend bs cs"
  shows "accounts_extend as cs"
proof -
  from assms obtain old1 new1 old2 new2 where a: "bs = old1 @ new1" "list_all2 account_grows as old1"
      "cs = old2 @ new2" "list_all2 account_grows bs old2"
    by (auto simp: accounts_extend_def)
  then obtain us vs where u: "old2 = us @ vs" "list_all2 account_grows old1 us"
    by (auto simp: list_all2_append1)
  have "list_all2 account_grows as us"
    by (rule list_all2_trans [OF account_grows_trans a(2) u(2)])
  with a u show ?thesis by (auto simp: accounts_extend_def)
qed

lemma node_grows_refl: "node_grows cr st st"
  by (simp add: node_grows_def)

lemma node_grows_trans:
  assumes "node_grows cr s t" and "node_grows cr t u"
  shows "node_grows cr s u"
  unfolding node_grows_def
proof (intro conjI)
  from assms obtain h1 h2 where "headers (chain t) = headers (chain s) @ h1" "list_all (meets_target cr) h1"
      "headers (chain u) = headers (chain t) @ h2" "list_all (meets_target cr) h2"
    by (auto simp: node_grows_def)
  then show "\<exists>new. headers (chain u) = headers (chain s) @ new \<and> list_all (meets_target cr) new"
    by (intro exI [of _ "h1 @ h2"]) simp
  show "dom (blocks (chain s)) \<subseteq> dom (blocks (chain u))"
    by (rule subset_trans [of _ "dom (blocks (chain t))"]) (use assms in \<open>simp_all add: node_grows_def\<close>)
  show "accounts_extend (accounts (pointers s)) (accounts (pointers u))"
    by (rule accounts_extend_trans [of _ "accounts (pointers t)"]) (use assms in \<open>simp_all add: node_grows_def\<close>)
  show "set (transactions_received s) \<subseteq> set (transactions_received u)"
    by (rule subset_trans [of _ "set (transactions_received t)"]) (use assms in \<open>simp_all add: node_grows_def\<close>)
qed

text \<open>What a correct operation on the shared state does.\<close>

definition follows_ledger :: "crypto \<Rightarrow> node \<Rightarrow> node \<Rightarrow> bool" where
  "follows_ledger cr st st' \<longleftrightarrow> (\<exists>es. ledger_run cr (ledger_of st) es (ledger_of st'))"

lemma follows_same: "ledger_of st' = ledger_of st \<Longrightarrow> follows_ledger cr st st'"
  by (auto simp: follows_ledger_def intro: exI [of _ "[]"])

lemma follows_step: "ledger_step cr (ledger_of st) e (ledger_of st') \<Longrightarrow> follows_ledger cr st st'"
  unfolding follows_ledger_def by (rule exI [of _ "[e]"]) simp

lemma follows_ledger_trans: "follows_ledger cr s t \<Longrightarrow> follows_ledger cr t u \<Longrightarrow> follows_ledger cr s u"
  unfolding follows_ledger_def using ledger_run_append by blast

definition keeps_node :: "crypto \<Rightarrow> node \<Rightarrow> node \<Rightarrow> bool" where
  "keeps_node cr st st' \<longleftrightarrow>
     (node_ok cr st \<longrightarrow> node_ok cr st' \<and> node_grows cr st st' \<and> follows_ledger cr st st')"

lemma keeps_node_trans: "keeps_node cr s t \<Longrightarrow> keeps_node cr t u \<Longrightarrow> keeps_node cr s u"
  using node_grows_trans follows_ledger_trans by (auto simp: keeps_node_def)

definition same_core :: "node \<Rightarrow> node \<Rightarrow> bool" where
  "same_core st st' \<longleftrightarrow> headers (chain st') = headers (chain st) \<and> blocks (chain st') = blocks (chain st) \<and>
     bc_utxo_set (chain st') = bc_utxo_set (chain st) \<and> accounts (pointers st') = accounts (pointers st) \<and>
     transactions_received st' = transactions_received st"

lemma same_core_refl [simp]: "same_core st st"
  by (simp add: same_core_def)

lemma same_core_keeps: "same_core st st' \<Longrightarrow> keeps_node cr st st'"
  by (auto simp: same_core_def keeps_node_def node_ok_def node_grows_def ledger_of_def intro: follows_same)

lemma same_core_sent [simp]: "same_core st (st'\<lparr>sent := q\<rparr>) \<longleftrightarrow> same_core st st'"
  "same_core (st\<lparr>sent := q\<rparr>) st' \<longleftrightarrow> same_core st st'"
  by (simp_all add: same_core_def)

lemma keeps_node_sent [simp]: "keeps_node cr (st\<lparr>sent := q\<rparr>) st' \<longleftrightarrow> keeps_node cr st st'"
  "keeps_node cr st (st'\<lparr>sent := q\<rparr>) \<longleftrightarrow> keeps_node cr st st'"
  by (simp_all add: keeps_node_def node_ok_def node_grows_def follows_ledger_def ledger_of_def)

subsubsection \<open>Handlers that only answer\<close>

lemma handle_headers_keeps:
  assumes "handle_headers_message cr payload st = Ok st'"
  shows "same_core st st'"
proof -
  from assms obtain hs where "fold_result (handle_new_header cr) hs st = (Ok st' :: (node, NodeCustomErrors) result)"
    by (auto simp: handle_headers_message_def and_then_eq_Ok)
  then show ?thesis
  proof (rule fold_result_invariant [where I = "same_core st"])
    fix h s s'
    assume "same_core st s" and "handle_new_header cr h s = (Ok s' :: (node, NodeCustomErrors) result)"
    then show "same_core st s'"
      by (auto simp: handle_new_header_def and_then_eq_Ok same_core_def upd_blockchain_def write_to_node_def
          split: if_splits)
  qed simp
qed

lemma handle_getheaders_keeps: "handle_getheaders_message cr payload st = Ok st' \<Longrightarrow> same_core st st'"
  by (auto simp: handle_getheaders_message_def and_then_eq_Ok write_to_node_def Let_def)

lemma handle_getdata_keeps: "handle_getdata_message cr payload st = Ok st' \<Longrightarrow> same_core st st'"
  by (auto simp: handle_getdata_message_def and_then_eq_Ok handle_inventories_effect write_to_node_def)

lemma inv_loop_received:
  "inv_loop n bs off R acc = Ok (R', acc') \<Longrightarrow> distinct R \<Longrightarrow> distinct R' \<and> set R \<subseteq> set R'"
proof (induction n arbitrary: off R acc)
  case (Suc n)
  then show ?case by (fastforce simp: and_then_eq_Ok split: if_splits)
qed simp

lemma handle_inv_keeps:
  assumes "handle_inv_message cr payload st = Ok st'"
  shows "keeps_node cr st st'"
proof -
  from assms obtain n off R acc where
      l: "inv_loop n payload off (transactions_received st) [] = (Ok (R, acc) :: (hash32 list \<times> Inventory list, NodeCustomErrors) result)"
      and st': "pointers st' = pointers st" "transactions_received st' = R"
    by (auto simp: handle_inv_message_def and_then_eq_Ok ask_for_incoming_tx_def getdata_frame write_to_node_def
        Let_def split: if_splits)
  show ?thesis
    using st' inv_loop_received [OF l]
    by (auto simp: keeps_node_def node_ok_def node_grows_def ledger_of_def intro: follows_same)
qed

subsubsection \<open>Handlers that change accounts\<close>

definition accounts_grow :: "node \<Rightarrow> node \<Rightarrow> bool" where
  "accounts_grow st st' \<longleftrightarrow> blockchain (pointers st') = blockchain (pointers st) \<and>
     transactions_received st' = transactions_received st \<and>
     list_all2 (\<lambda>a a'. account_grows a a' \<and> utxo_set a' = utxo_set a) (accounts (pointers st)) (accounts (pointers st'))"

lemma in_sync_cong: "in_sync cr m a \<Longrightarrow> address a' = address a \<Longrightarrow> utxo_set a' = utxo_set a \<Longrightarrow> in_sync cr m a'"
  by (simp add: in_sync_def)

lemma accounts_grow_keeps:
  assumes "accounts_grow st st'" and "node_ok cr st \<Longrightarrow> follows_ledger cr st st'"
  shows "keeps_node cr st st'"
proof -
  have l: "list_all2 (\<lambda>a a'. account_grows a a' \<and> utxo_set a' = utxo_set a) (accounts (pointers st)) (accounts (pointers st'))"
    and s: "blockchain (pointers st') = blockchain (pointers st)" "transactions_received st' = transactions_received st"
    using assms by (simp_all add: accounts_grow_def)
  from l have "list_all2 account_grows (accounts (pointers st)) (accounts (pointers st'))"
    by (rule list_all2_mono) simp
  moreover from l have "list_all (in_sync cr m) (accounts (pointers st)) \<Longrightarrow> list_all (in_sync cr m) (accounts (pointers st'))" for m
    by (induction rule: list_all2_induct) (auto simp: account_grows_def intro: in_sync_cong)
  ultimately show ?thesis
    using s assms(2) unfolding keeps_node_def node_ok_def node_grows_def by (auto intro: accounts_extend_same)
qed

lemma accounts_grow_trans: "accounts_grow s t \<Longrightarrow> accounts_grow t u \<Longrightarrow> accounts_grow s u"
  unfolding accounts_grow_def
  by (elim conjE, intro conjI, simp, simp, erule (1) list_all2_trans [rotated]) (auto dest: account_grows_trans)

lemma involves_grows:
  "involves_user_account cr out t accs = Ok (accs', es) \<Longrightarrow>
     list_all2 (\<lambda>a a'. account_grows a a' \<and> utxo_set a' = utxo_set a) accs accs'"
proof (induction accs arbitrary: accs' es)
  case (Cons a accs)
  then show ?case
    by (fastforce simp: and_then_eq_Ok account_grows_def known_txs_def split: if_splits)
qed simp

lemma handle_tx_keeps:
  assumes "handle_tx_message cr payload st = Ok st'"
  shows "keeps_node cr st st'"
proof (rule accounts_grow_keeps)
  from assms obtain t where f: "fold_result (\<lambda>txout st.
        and_then (involves_user_account cr txout t (accounts (pointers st))) (\<lambda>(accs, events).
        Ok (fold send_event_to_ui events (upd_accounts accs st)))) (tx_out t) st = (Ok st' :: (node, NodeCustomErrors) result)"
    by (auto simp: handle_tx_message_def check_if_tx_involves_user_account_def and_then_eq_Ok)
  show "accounts_grow st st'"
  proof (rule fold_result_invariant [where I = "accounts_grow st", OF f])
    show "accounts_grow st st"
      by (auto simp: accounts_grow_def intro: list_all2_refl)
    fix out s s'
    assume I: "accounts_grow st s" and "and_then (involves_user_account cr out t (accounts (pointers s))) (\<lambda>(accs, events).
        Ok (fold send_event_to_ui events (upd_accounts accs s))) = (Ok s' :: (node, NodeCustomErrors) result)"
    then have "accounts_grow s s'"
      by (auto simp: and_then_eq_Ok accounts_grow_def fold_ui_eq upd_accounts_def dest!: involves_grows)
    with I show "accounts_grow st s'"
      by (rule accounts_grow_trans)
  qed
  show "follows_ledger cr st st'"
    using handle_tx_noted [OF assms] follows_step by blast
qed

lemma account_after_grows: "account_after cr m b a a' \<Longrightarrow> account_grows a a'"
proof -
  have "mset (confirmed_transactions a) \<subseteq># mset (confirmed_transactions (fold (confirm cr) ts a))" for ts
  proof (induction ts arbitrary: a)
    case (Cons t ts)
    have "mset (confirmed_transactions a) \<subseteq># mset (confirmed_transactions (confirm cr t a))"
      by (simp add: confirm_fields split: option.split)
    with Cons [of "confirm cr t a"] show ?case by (auto intro: subset_mset.order_trans)
  qed simp
  then show "account_after cr m b a a' \<Longrightarrow> account_grows a a'"
    using fold_confirm_keeps(4) [of cr "txn b" a] by (simp add: account_after_def account_grows_def known_txs_def)
qed

lemma block_applied_keeps:
  assumes "block_applied cr b st st'" and "wf_block b" and "valid_block cr b"
    and "header_is_not_included (block_header b) (headers (chain st))"
  shows "keeps_node cr st st'"
proof -
  from assms(1) have l: "list_all2 (account_after cr (bc_utxo_set (chain st')) b) (accounts (pointers st)) (accounts (pointers st'))"
    by (simp add: block_applied_def)
  then have "list_all2 account_grows (accounts (pointers st)) (accounts (pointers st'))"
    by (rule list_all2_mono) (rule account_after_grows)
  moreover from l have "list_all (in_sync cr (bc_utxo_set (chain st'))) (accounts (pointers st'))"
    by (induction rule: list_all2_induct) (auto simp: account_after_def)
  ultimately show ?thesis
    using assms(1-3) follows_step [OF block_applied_mined [OF assms]]
    unfolding keeps_node_def node_ok_def node_grows_def block_applied_def
    by (auto simp: valid_block_def intro: accounts_extend_same)
qed

lemma handle_block_keeps:
  assumes "digest_lengths cr" and "iteration_order ord" and "node_ok cr st"
    and "handle_block_message cr ord payload st = Ok st'"
  shows "keeps_node cr st st'"
proof -
  from assms(4) obtain b v where b: "BlockMessage_unmarshalling payload = Ok b"
      and v: "Block_validate cr b = (Ok v :: (bool \<times> string, NodeCustomErrors) result)"
    by (auto simp: handle_block_message_def and_then_eq_Ok)
  then have wf: "wf_block b"
    by (auto simp: BlockMessage_unmarshalling_def and_then_eq_Ok block.dec_iff)
  with b have "handle_block_message cr ord payload st = handle_block_message cr ord (Block_marshalling b) st"
    by (simp add: handle_block_message_def BlockMessage_unmarshalling_def block.dec_enc_whole)
  with assms(4) have h: "handle_block_message cr ord (Block_marshalling b) st = Ok st'"
    by simp
  show ?thesis
  proof (cases "valid_block cr b \<and> header_is_not_included (block_header b) (headers (chain st))")
    case True
    with handle_block_applied [OF wf _ assms(1,2) _ _ _ h] assms(3) wf show ?thesis
      by (intro block_applied_keeps) (auto simp: node_ok_def)
  next
    case False
    with handle_block_refused [OF wf assms(1) v] h show ?thesis
      by (auto intro: same_core_keeps)
  qed
qed

lemma handle_ping_keeps: "handle_ping_message cr payload st = Ok st' \<Longrightarrow> same_core st st'"
  by (auto simp: frame_pong write_to_node_def)

lemma dispatch_keeps:
  assumes "digest_lengths cr" and "iteration_order ord" and "node_ok cr st"
    and "dispatch cr ord command payload st = Ok st'"
  shows "keeps_node cr st st'"
  using assms(4)
  by (auto simp: dispatch_def split: if_splits
      dest: handle_headers_keeps handle_getdata_keeps handle_inv_keeps handle_ping_keeps handle_tx_keeps
        handle_getheaders_keeps handle_block_keeps [OF assms(1-3)]
      intro: same_core_keeps)

subsubsection \<open>Turns of the listeners\<close>

fun turn_node :: "turn \<Rightarrow> node" where
  "turn_node (Continue c st) = st"
| "turn_node (Break err c st) = st"

lemma next_message_node:
  assumes "next_message cr ord finish c st = Ok t"
  shows "turn_node t = st \<or> (\<exists>command payload. dispatch cr ord command payload st = Ok (turn_node t))"
proof -
  obtain r c1 where h: "read_header cr finish c = (r, c1)"
    by fastforce
  show ?thesis
  proof (cases r)
    case (Ok header)
    obtain r2 c2 where pl: "listener_read_payload finish (unat (payload_size header)) c1 = (r2, c2)"
      by fastforce
    with Ok h assms show ?thesis
      by (cases r2) (auto simp: next_message_def split: result.splits)
  next
    case (Err e)
    with h assms show ?thesis by (cases e) (auto simp: next_message_def)
  qed (use h assms in \<open>auto simp: next_message_def\<close>)
qed

lemma listen_turn_keeps:
  assumes "digest_lengths cr" and "iteration_order ord" and "node_ok cr st"
    and "listen_turn cr ord finish c st = Ok t"
  shows "keeps_node cr st (turn_node t)"
proof -
  have n: "keeps_node cr st' (turn_node t)"
    if "next_message cr ord finish c' st' = Ok t" "node_ok cr st'" for c' st'
    using next_message_node [OF that(1)] dispatch_keeps [OF assms(1,2) that(2)] same_core_keeps by fastforce
  have ok: "node_ok cr (st\<lparr>sent := q\<rparr>)" for q
    using assms(3) by (simp add: node_ok_def)
  show ?thesis
  proof (cases "sent st")
    case Nil
    with assms(4) n assms(3) show ?thesis by (simp add: listen_turn_def)
  next
    case (Cons m q)
    with assms(4) n [OF _ ok [of q]] show ?thesis
      by (auto simp: listen_turn_def write_message_in_node_def Let_def same_core_keeps split: if_splits)
  qed
qed

subsubsection \<open>Requests of the user\<close>

lemma keeps_node_ui [simp]: "keeps_node cr st (send_event_to_ui e st') \<longleftrightarrow> keeps_node cr st st'"
  by (simp add: send_event_to_ui_def keeps_node_def node_ok_def node_grows_def follows_ledger_def ledger_of_def)

lemma keeps_node_refl [simp]: "keeps_node cr st st"
  by (simp add: keeps_node_def node_grows_refl follows_same)

lemma shared_show_ui [simp]: "shared (show_ui e p) = send_event_to_ui e (shared p)"
  by (simp add: show_ui_def)

lemma load_data_set_utxos:
  "load_data cr ord a p = set_utxos cr (ord (bc_utxo_set (prog_chain p))) (bc_utxo_set (prog_chain p)) a"
  by (simp add: load_data_def utxos_referenced_to_account_def set_utxos_def Account_load_utxos_def
      Account_get_address_def and_then_assoc Let_def)

lemma add_account_keeps:
  assumes "iteration_order ord" and "add_account cr ord wif addr p = (r, p')"
  shows "keeps_node cr (shared p) (shared p')"
proof -
  let ?m = "bc_utxo_set (prog_chain p)"
  have "keeps_node cr (shared p) (upd_accounts (prog_accounts p @ [a]) (shared p))"
    if "Account_new cr wif addr = Ok a0" and "set_utxos cr (ord ?m) ?m a0 = (Ok a :: (Account, string) result)" for a0 a
    unfolding keeps_node_def
  proof
    assume ok: "node_ok cr (shared p)"
    then have m: "wf_utxos ?m" "distinct (ord ?m)" "set (ord ?m) = dom ?m"
      using assms(1) by (auto simp: node_ok_def iteration_order_def)
    from set_utxos_in_sync [OF m that(2)] ok have "node_ok cr (upd_accounts (prog_accounts p @ [a]) (shared p))"
      by (simp add: node_ok_def upd_accounts_def)
    moreover have "accounts_extend (prog_accounts p) (prog_accounts p @ [a])"
      using list_all2_refl [of account_grows] unfolding accounts_extend_def by auto
    moreover have "holder_of a = \<lparr>owner = addr, awaiting = {#}, settled = {#}\<rparr>"
      using that(1) set_utxos_same [OF that(2)] by (auto simp: Account_new_def and_then_eq_Ok holder_of_def)
    then have "follows_ledger cr (shared p) (upd_accounts (prog_accounts p @ [a]) (shared p))"
      using ledger_step.opened [of cr "ledger_of (shared p)" addr]
      by (intro follows_step) (simp add: ledger_of_def upd_accounts_def)
    ultimately show "node_ok cr (upd_accounts (prog_accounts p @ [a]) (shared p)) \<and>
        node_grows cr (shared p) (upd_accounts (prog_accounts p @ [a]) (shared p)) \<and>
        follows_ledger cr (shared p) (upd_accounts (prog_accounts p @ [a]) (shared p))"
      by (simp add: node_grows_def upd_accounts_def)
  qed
  with assms(2) show ?thesis
    by (auto simp: add_account_def load_data_set_utxos set_prog_accounts_def split: result.splits)
qed

lemma broadcast_shared [simp]: "broadcast_tx cr n h p = Ok p' \<Longrightarrow> shared p' = shared p"
proof -
  have "shared (fold (send_to_peer msg) is p) = shared p" for msg "is"
    by (induction "is" arbitrary: p) (simp_all add: send_to_peer_def)
  then show "broadcast_tx cr n h p = Ok p' \<Longrightarrow> shared p' = shared p"
    by (auto simp: broadcast_tx_def broadcast_to_nodes_def inv_mershalling_frame Let_def split: if_splits)
qed

lemma make_transaction_grows:
  assumes "make_transaction cr (accs ! i) r amt fee = Ok (t, a')" and "i < length accs"
  shows "list_all2 (\<lambda>a a'. account_grows a a' \<and> utxo_set a' = utxo_set a) accs (accs[i := a'])"
  using make_transaction_Ok [OF assms(1)] assms(2)
  by (auto simp: list_all2_conv_all_nth nth_list_update account_grows_def known_txs_def)

text \<open>A payment that the account can make is the event \<open>Paid\<close>.\<close>

lemma distinct_map_take: "distinct (map f xs) \<Longrightarrow> distinct (map f (take k xs))"
  by (metis distinct_take take_map)

lemma make_transaction_funds:
  assumes "make_transaction cr a r amt fee = Ok (t, a')" and "in_sync cr m a"
  shows "funds cr (utxo_view m) (address a) amt fee t"
proof -
  from make_transaction_Ok [OF assms(1)] obtain k and change :: i64 where
      "map previous_output (tx_in t) = map input_of (take k (entries (utxo_set a)))"
      "map txout_value (tx_out t) = [amt, change]" "0 \<le> sint change"
      "total (take k (entries (utxo_set a))) = sint amt + sint fee + sint change"
    by auto
  moreover have "distinct (map (\<lambda>(h, i, o'). (h, i)) (take k (entries (utxo_set a))))"
    using assms(2) by (intro distinct_map_take) (simp add: in_sync_def)
  moreover have "\<forall>h i o'. (h, i, o') \<in> set (take k (entries (utxo_set a))) \<longrightarrow>
      utxo_view m (h, i) = Some o' \<and> pays cr (address a) o'"
    using assms(2) by (auto simp: in_sync_def dest: in_set_takeD)
  ultimately show ?thesis
    unfolding funds_def by (intro exI [of _ "take k (entries (utxo_set a))"] exI [of _ change]) simp
qed

lemma payment_paid:
  assumes "make_transaction cr (accounts (pointers st) ! i) r amt fee = Ok (t, a')" and "i < length (accounts (pointers st))"
    and "node_ok cr st" and "0 < sint amt + sint fee"
  shows "ledger_step cr (ledger_of st) (Paid i amt fee t) (ledger_of (upd_accounts ((accounts (pointers st))[i := a']) st))"
proof -
  let ?l = "ledger_of st" and ?a = "accounts (pointers st) ! i"
  have h: "l_holders ?l ! i = holder_of ?a" "i < length (l_holders ?l)"
    using assms(2) by (simp_all add: ledger_of_def)
  have "in_sync cr (bc_utxo_set (chain st)) ?a"
    using assms(2,3) by (simp add: node_ok_def list_all_length)
  from make_transaction_funds [OF assms(1) this]
  have "funds cr (l_coins ?l) (owner (l_holders ?l ! i)) amt fee t"
    by (simp add: h(1)) (simp add: ledger_of_def holder_of_def)
  moreover have "holder_of a' = (holder_of ?a)\<lparr>awaiting := add_mset t (awaiting (holder_of ?a))\<rparr>"
    using make_transaction_Ok [OF assms(1)] by (auto simp: holder_of_def)
  then have "ledger_of (upd_accounts ((accounts (pointers st))[i := a']) st) =
      ?l\<lparr>l_holders := (l_holders ?l)[i := (l_holders ?l ! i)\<lparr>awaiting := add_mset t (awaiting (l_holders ?l ! i))\<rparr>]\<rparr>"
    using assms(2) by (simp add: ledger_of_def upd_accounts_def map_update)
  ultimately show ?thesis
    using ledger_step.paid [OF h(2) assms(4)] by simp
qed

lemma Wallet_make_transaction_keeps:
  assumes "Wallet_make_transaction cr w addr amt fee p = (r, p')"
  shows "keeps_node cr (shared p) (shared p')"
proof -
  have k: "keeps_node cr (shared p) (shared (set_prog_accounts ((prog_accounts p)[i := a']) p))"
    if "make_transaction cr (prog_accounts p ! i) addr amt fee = Ok (t, a')" "i < length (prog_accounts p)"
      "validate_transaction_data amt fee = Ok ()" for i t a'
  proof (rule accounts_grow_keeps)
    show "accounts_grow (shared p) (shared (set_prog_accounts ((prog_accounts p)[i := a']) p))"
      using make_transaction_grows [OF that(1,2)] by (simp add: accounts_grow_def set_prog_accounts_def upd_accounts_def)
    have "0 < sint amt + sint fee"
      using that(3) by (auto simp: validate_transaction_data_def and_then_eq_Ok dest: i64_add_sint split: if_split_asm)
    with payment_paid [OF that(1,2)] follows_step
    show "follows_ledger cr (shared p) (shared (set_prog_accounts ((prog_accounts p)[i := a']) p))"
      if "node_ok cr (shared p)" using that by (simp add: set_prog_accounts_def)
  qed
  with assms show ?thesis
    by (auto simp: Wallet_make_transaction_def and_then_eq_Ok index_at_eq_Ok Let_def
        split: option.splits result.splits)
qed

lemma wallet_event_keeps:
  assumes "iteration_order ord" and "handle_wallet_event cr ord event (w, p) = Ok (w', p')"
  shows "keeps_node cr (shared p) (shared p')"
  using assms(2)
proof (cases event)
  case (AddAccountRequest wif addr)
  obtain r p1 where a: "add_account cr ord wif addr p = (r, p1)" by fastforce
  from add_account_keeps [OF assms(1) a] a AddAccountRequest assms(2) show ?thesis
    by (auto simp: handle_add_account_def and_then_eq_Ok split: result.splits NodeCustomErrors.splits)
next
  case (MakeTransaction addr amt fee)
  obtain r p1 where a: "Wallet_make_transaction cr w addr amt fee p = (r, p1)" by fastforce
  from Wallet_make_transaction_keeps [OF a] a MakeTransaction assms(2) show ?thesis
    by (auto simp: handle_make_transaction_def and_then_eq_Ok split: result.splits)
qed (auto simp: handle_change_account_def change_account_def handle_get_account_def handle_poi_def
    handle_search_block_def handle_search_header_def handle_get_transactions_def and_then_eq_Ok
    split: result.splits option.splits if_splits)

subsection \<open>Runs\<close>

definition program_ok :: "crypto \<Rightarrow> (utxo_map \<Rightarrow> hash32 list) \<Rightarrow> Wallet \<times> program \<Rightarrow> bool" where
  "program_ok cr ord wp \<longleftrightarrow> digest_lengths cr \<and> iteration_order ord \<and> node_ok cr (shared (snd wp))"

definition program_grows :: "crypto \<Rightarrow> Wallet \<times> program \<Rightarrow> Wallet \<times> program \<Rightarrow> bool" where
  "program_grows cr wp wp' \<longleftrightarrow> node_grows cr (shared (snd wp)) (shared (snd wp'))"

definition program_ledger :: "Wallet \<times> program \<Rightarrow> ledger" where
  "program_ledger wp = ledger_of (shared (snd wp))"

lemma step_keeps:
  assumes "program_step cr ord wp wp'" and "digest_lengths cr" and "iteration_order ord"
    and "node_ok cr (shared (snd wp))"
  shows "keeps_node cr (shared (snd wp)) (shared (snd wp'))"
  using assms(1)
proof cases
  case (peer_turn i p fin c st w)
  have "node_ok cr ((shared p)\<lparr>sent := q\<rparr>)" for q
    using assms(4) peer_turn(1) by (simp add: node_ok_def)
  from listen_turn_keeps [OF assms(2,3) this peer_turn(5)] peer_turn(1,2) show ?thesis by simp
next
  case (peer_stops i p fin err c st w)
  have "node_ok cr ((shared p)\<lparr>sent := q\<rparr>)" for q
    using assms(4) peer_stops(1) by (simp add: node_ok_def)
  from listen_turn_keeps [OF assms(2,3) this peer_stops(5)] peer_stops(1,2) show ?thesis by simp
next
  case (user event w p w' p')
  from wallet_event_keeps [OF assms(3) user(3)] user(1,2) show ?thesis by simp
next
  case (connected c n p n' p' w)
  then show ?thesis
    by (auto simp: Node_add_connection_def NodeMessageHandler_add_connection_def handle_messages_from_node_def)
next
  case (finish w p)
  then show ?thesis by (simp add: shutdown_node_def NodeMessageHandler_finish_def)
qed

interpretation run: contract "program_step cr ord" "program_ok cr ord" "program_grows cr" for cr ord
proof unfold_locales
  fix s s'
  assume "program_step cr ord s s'" and "program_ok cr ord s"
  with step_keeps show "program_ok cr ord s'" "program_grows cr s s'"
    by (auto simp: program_ok_def program_grows_def keeps_node_def)
qed (auto simp: program_grows_def node_grows_refl intro: node_grows_trans)

interpretation refined: refinement "program_step cr ord" "program_ok cr ord" program_ledger "ledger_run cr" for cr ord
proof unfold_locales
  fix s s'
  assume "program_step cr ord s s'" and "program_ok cr ord s"
  with step_keeps show "\<exists>es. ledger_run cr (program_ledger s) es (program_ledger s')"
    by (auto simp: program_ok_def keeps_node_def follows_ledger_def program_ledger_def)
qed (use run.keeps ledger_run_append in auto)

subsection \<open>Properties\<close>


lemma sample_block_turn:
  assumes "p = sample_program [] [sample_peer [frame sample_crypto ''block'' (Block_marshalling sample_block)]]"
  shows "\<exists>p'. program_step sample_crypto sorted_order (w, p) (w, p') \<and> headers (prog_chain p') = [sample_header]"
proof -
  let ?pl = "Block_marshalling sample_block"
  let ?c = "sample_connection [frame sample_crypto ''block'' ?pl]"
  have sh: "(shared p)\<lparr>sent := []\<rparr> = sample_node" "peers p = [\<lparr>conn = ?c, channel = [], listening = True\<rparr>]"
    by (simp_all add: assms sample_program_def sample_node_def upd_accounts_def NodeDataPointers_new_def sample_peer_def)
  have s: "header_is_not_included (block_header sample_block) (headers (chain sample_node))"
      "wf_utxos (bc_utxo_set (chain sample_node))" "finite (dom (bc_utxo_set (chain sample_node)))"
      "readable_utxos sample_crypto (utxos_after sample_crypto sample_block (bc_utxo_set (chain sample_node)))"
    using sample_block_readable
    by (simp_all add: sample_node_def NodeDataPointers_new_def Blockchain_new_def header_is_not_included_def wf_utxos_def)
  from handle_block_succeeds [OF sample_block_wf sample_block_valid sample_digest_lengths s(1,4)] obtain st where
      h: "handle_block_message sample_crypto sorted_order ?pl sample_node = Ok st"
    by blast
  from handle_block_applied [OF sample_block_wf sample_block_valid sample_digest_lengths sorted_order_iterates s(1-3) h]
  have hs: "headers (chain st) = [sample_header]"
    by (simp add: block_applied_def sample_node_def NodeDataPointers_new_def Blockchain_new_def)
      (simp add: sample_block_def Block_new_def)
  have "length ?pl < 2 ^ 32"
    using sample_block_valid by (simp add: valid_block_def)
  moreover have "command_ok ''block''"
    by (simp add: command_ok_def padded_def as_bytes_def compute)
  ultimately have t: "listen_turn sample_crypto sorted_order None ?c sample_node =
      Ok (Continue (?c\<lparr>arrivals := [[]], reads := 3\<rparr>) st)"
    using listen_turn_frame [of "''block''" sample_crypto ?pl sample_node ?c "[]" "[]" sorted_order] h
    by (simp add: sample_checksum sample_connection_def dispatch_def compute) (simp add: sample_node_def)
  from peer_turn [of 0 p sample_crypto sorted_order None "?c\<lparr>arrivals := [[]], reads := 3\<rparr>" st w] t sh hs
  show ?thesis by fastforce
qed




text \<open>
  An account that is added to the wallet starts with exactly the unspent outputs that pay its
  address, and with no transactions; the accounts before it are untouched.
\<close>

theorem added_account_is_complete:
  assumes "iteration_order ord" and "node_ok cr (shared p)"
    and "add_account cr ord wif addr p = (Ok (), p')"
  shows "\<exists>a. prog_accounts p' = prog_accounts p @ [a] \<and> address a = addr \<and> private_key a = wif \<and>
    pending_transactions a = [] \<and> confirmed_transactions a = [] \<and> in_sync cr (bc_utxo_set (prog_chain p')) a"
proof -
  let ?m = "bc_utxo_set (prog_chain p)"
  from assms(3) obtain a0 a where a0: "Account_new cr wif addr = Ok a0"
      and a: "set_utxos cr (ord ?m) ?m a0 = (Ok a :: (Account, string) result)"
      and p': "p' = show_ui (AccountAddedSuccesfully a) (set_prog_accounts (prog_accounts p @ [a]) p)"
    by (auto simp: add_account_def load_data_set_utxos split: result.splits)
  have m: "wf_utxos ?m" "distinct (ord ?m)" "set (ord ?m) = dom ?m"
    using assms(1,2) by (auto simp: node_ok_def iteration_order_def)
  have "address a0 = addr" "private_key a0 = wif" "pending_transactions a0 = []" "confirmed_transactions a0 = []"
    using a0 by (auto simp: Account_new_def and_then_eq_Ok)
  with set_utxos_in_sync [OF m a] set_utxos_same [OF a] show ?thesis
    by (auto simp: p' show_ui_def send_event_to_ui_def)
qed

lemma sample_account_added:
  "\<exists>p'. add_account sample_crypto sorted_order (private_key sample_account) sample_address (sample_program [] []) = (Ok (), p')"
proof -
  have "validate_address_private_key sample_crypto sample_key sample_address = Ok ()"
    using generate_address_eq [OF sample_pubkey] by (simp add: validate_address_private_key_def sample_address_def)
  then have n: "Account_new sample_crypto (private_key sample_account) sample_address =
      Ok \<lparr>private_key = private_key sample_account, address = sample_address, utxo_set = [],
          pending_transactions = [], confirmed_transactions = []\<rparr>"
    by (simp add: Account_new_def sample_wif)
  have "bc_utxo_set (prog_chain (sample_program [] [])) = Map.empty"
    by (simp add: sample_program_def sample_node_def upd_accounts_def NodeDataPointers_new_def Blockchain_new_def)
  then show ?thesis
    by (simp add: add_account_def n load_data_set_utxos set_utxos_def sorted_order_def)
qed

theorem added_account_is_complete_witness:
  "\<exists>p' a. add_account sample_crypto sorted_order (private_key sample_account) sample_address (sample_program [] []) =
      (Ok (), p') \<and> prog_accounts p' = [a] \<and> address a = sample_address"
proof -
  obtain p' where p': "add_account sample_crypto sorted_order (private_key sample_account) sample_address
      (sample_program [] []) = (Ok (), p')"
    using sample_account_added by blast
  have "node_ok sample_crypto (shared (sample_program [] []))"
    by (simp add: node_ok_def sample_program_def sample_node_def upd_accounts_def NodeDataPointers_new_def
        Blockchain_new_def wf_utxos_def)
  from added_account_is_complete [OF sorted_order_iterates this p'] p' show ?thesis
    by auto
qed

end
