(* ===== verification/Ibd.thy ===== *)
theory Ibd
  imports Blocks_Download Program
begin

section \<open>The initial block download (src/blockchain\_download/mod.rs)\<close>

text \<open>
  The two modes of the download. With a single node everything happens in order. With several nodes
  the header thread, the block thread and its download threads interleave: each has its moves, and a
  run is a sequence of moves, chosen by the scheduler. The thread of the UTXO set only empties its
  channel, in order, and is joined last, so its result depends on what was sent to it alone.

  A download thread that was started in a batch which then failed is not followed any further: the
  whole start has failed.
\<close>

subsection \<open>The UTXO set\<close>

definition load_utxo_set :: "crypto \<Rightarrow> Block list list \<Rightarrow> utxo_map \<Rightarrow> (utxo_map, NodeCustomErrors) result" where
  "load_utxo_set cr received utxo =
     fold_result (\<lambda>bs utxo. fold_result (\<lambda>block utxo. map_err UtxoError (give_me_utxos cr block utxo)) bs utxo) received utxo"

text \<open>\<open>JoinHandle::join\<close> of a thread that has ended.\<close>

fun join_ended :: "('a, NodeCustomErrors) result \<Rightarrow> ('a, NodeCustomErrors) result" where
  "join_ended Panic = Err (ThreadJoinError ''Any { .. }'')"
| "join_ended r = r"

subsection \<open>From a single node\<close>

fun download_batches :: "crypto \<Rightarrow> Config \<Rightarrow> BlockHeader list list \<Rightarrow> remote \<Rightarrow> remote action" where
  "download_batches cr config [] node = lift (Ok node)"
| "download_batches cr config (blocks_to_download # batches) node =
     act_then (download_blocks_single_node cr config blocks_to_download node) (download_batches cr config batches)"

definition download_full_blockchain_from_single_node ::
  "crypto \<Rightarrow> (string \<Rightarrow> string \<Rightarrow> (int, string) result) \<Rightarrow> Config \<Rightarrow> utxo_map \<Rightarrow> utxo_map action" where
  "download_full_blockchain_from_single_node cr parse_date config utxo =
     act_then (download_missing_headers cr parse_date config) (\<lambda>_.
     act_then get_node (\<lambda>node.
     act_then (send_ui StartDownloadingBlocks) (\<lambda>_.
     act_then (\<lambda>s. download_batches cr config (dl_queue s) node (s\<lparr>dl_queue := []\<rparr>)) (\<lambda>node.
     act_then (return_node_to_vec node) (\<lambda>_.
     inspect (\<lambda>s. join_ended (load_utxo_set cr (dl_utxo_queue s) utxo)))))))"

subsection \<open>From several nodes\<close>

text \<open>
  The header thread, in the moves of \<open>download_missing_headers\<close>: it takes a node, gets a first batch
  from it, then further batches while they are full; a node that fails is replaced.
\<close>

datatype headers_thread =
    NextNode
  | FirstBatch remote
  | Batches "BlockHeader list" remote bool
  | HeadersEnded "(unit, NodeCustomErrors) result"

fun headers_failed :: "NodeCustomErrors \<Rightarrow> headers_thread" where
  "headers_failed (ThreadChannelError _) =
     HeadersEnded (Err (ThreadChannelError ''Error the channel that comunicates the headers and blocks paralell download is closed''))"
| "headers_failed err = NextNode"

fun headers_move ::
  "crypto \<Rightarrow> (string \<Rightarrow> string \<Rightarrow> (int, string) result) \<Rightarrow> Config \<Rightarrow> headers_thread \<Rightarrow> download \<Rightarrow> headers_thread \<times> download"
where
  "headers_move cr parse_date config NextNode s =
     (case get_node s of
        (Ok node, s) \<Rightarrow> (FirstBatch node, s)
      | (Err e, s) \<Rightarrow> (HeadersEnded (Err e), s)
      | (Panic, s) \<Rightarrow> (HeadersEnded Panic, s))"
| "headers_move cr parse_date config (FirstBatch node) s =
     (case first_batch cr config node s of
        (Ok (headers_read, node, found), s) \<Rightarrow> (Batches headers_read node found, s)
      | (Err e, s) \<Rightarrow> (headers_failed e, s)
      | (Panic, s) \<Rightarrow> (HeadersEnded Panic, s))"
| "headers_move cr parse_date config (Batches headers_read node found) s =
     (if length headers_read = 2000 then
        case headers_turn cr parse_date config node found s of
          (Ok (headers_read, node, found), s) \<Rightarrow> (Batches headers_read node found, s)
        | (Err e, s) \<Rightarrow> (headers_failed e, s)
        | (Panic, s) \<Rightarrow> (HeadersEnded Panic, s)
      else
        let (r, s) = act_then (return_node_to_vec node) (\<lambda>_.
              \<lambda>s. send_ui (FinsihDownloadingHeaders (amount_of_headers s)) s) s
        in (HeadersEnded r, s))"
| "headers_move cr parse_date config (HeadersEnded r) s = (HeadersEnded r, s)"

record ibd =
  shared_data :: download
  headers_state :: headers_thread
  blocks_state :: blocks_thread

text \<open>A move that a thread makes, or \<open>None\<close> when it has ended or has to wait.\<close>

datatype ibd_action = HeadersMove | BlocksMove | WorkerMove nat

fun ibd_move ::
  "crypto \<Rightarrow> (string \<Rightarrow> string \<Rightarrow> (int, string) result) \<Rightarrow> Config \<Rightarrow> ibd_action \<Rightarrow> ibd \<Rightarrow> ibd option" where
  "ibd_move cr parse_date config HeadersMove x =
     (case headers_state x of
        HeadersEnded r \<Rightarrow> None
      | h \<Rightarrow> (let (h, s) = headers_move cr parse_date config h (shared_data x)
              in Some (x\<lparr>shared_data := s, headers_state := h\<rparr>)))"
| "ibd_move cr parse_date config BlocksMove x =
     (case download_blocks config (blocks_state x) (shared_data x) of
        None \<Rightarrow> None
      | Some (b, s) \<Rightarrow> Some (x\<lparr>shared_data := s, blocks_state := b\<rparr>))"
| "ibd_move cr parse_date config (WorkerMove i) x =
     (case blocks_state x of
        Joining ws \<Rightarrow>
          if i < length ws \<and> worker_result (ws ! i) = None then
            let (w, s) = download_blocks_single_thread cr config (ws ! i) (shared_data x)
            in Some (x\<lparr>shared_data := s, blocks_state := Joining (ws[i := w])\<rparr>)
          else None
      | _ \<Rightarrow> None)"

text \<open>A schedule; a thread that cannot move is passed over.\<close>

fun ibd_run ::
  "crypto \<Rightarrow> (string \<Rightarrow> string \<Rightarrow> (int, string) result) \<Rightarrow> Config \<Rightarrow> ibd_action list \<Rightarrow> ibd \<Rightarrow> ibd" where
  "ibd_run cr parse_date config [] x = x"
| "ibd_run cr parse_date config (a # as) x =
     ibd_run cr parse_date config as (case ibd_move cr parse_date config a x of None \<Rightarrow> x | Some y \<Rightarrow> y)"

fun headers_result :: "headers_thread \<Rightarrow> (unit, NodeCustomErrors) result option" where
  "headers_result (HeadersEnded r) = Some r"
| "headers_result h = None"

fun blocks_result :: "blocks_thread \<Rightarrow> (unit, NodeCustomErrors) result option" where
  "blocks_result (Stopped r) = Some r"
| "blocks_result b = None"

definition ibd_start :: "download \<Rightarrow> ibd" where
  "ibd_start s = \<lparr>shared_data = s, headers_state = NextNode, blocks_state = Waiting\<rparr>"

text \<open>\<open>None\<close>: the function has not returned at the end of the schedule.\<close>

definition download_full_blockchain_from_multiple_nodes ::
  "crypto \<Rightarrow> (string \<Rightarrow> string \<Rightarrow> (int, string) result) \<Rightarrow> Config \<Rightarrow> ibd_action list \<Rightarrow> utxo_map \<Rightarrow> download \<Rightarrow>
     ((utxo_map, NodeCustomErrors) result \<times> download) option" where
  "download_full_blockchain_from_multiple_nodes cr parse_date config schedule utxo s =
     (let x = ibd_run cr parse_date config schedule (ibd_start s) in
      case join_threads [headers_result (headers_state x), blocks_result (blocks_state x)] of
        None \<Rightarrow> None
      | Some (Ok _) \<Rightarrow> Some (join_ended (load_utxo_set cr (dl_utxo_queue (shared_data x)) utxo), shared_data x)
      | Some (Err e) \<Rightarrow> Some (Err e, shared_data x)
      | Some Panic \<Rightarrow> Some (Panic, shared_data x))"

subsection \<open>Both\<close>

definition download_start :: "remote list \<Rightarrow> download" where
  "download_start nodes =
     \<lparr>dl_headers = [GENESIS_BLOCK_HEADER], dl_heights = [replicate 32 0 \<mapsto> 0], dl_nodes = nodes,
      dl_blocks = Map.empty, dl_queue = [], dl_queue_open = True, dl_utxo_queue = [], dl_file = [], dl_ui = []\<rparr>"

definition initial_block_download ::
  "crypto \<Rightarrow> (string \<Rightarrow> string \<Rightarrow> (int, string) result) \<Rightarrow> Config \<Rightarrow> (bytes, NodeCustomErrors) result option \<Rightarrow>
     (unit, string) result \<Rightarrow> ibd_action list \<Rightarrow> remote list \<Rightarrow>
     ((Blockchain, NodeCustomErrors) result \<times> download) option" where
  "initial_block_download cr parse_date config disk created schedule nodes =
     (case get_initial_headers cr config disk created (download_start nodes) of
        (Ok _, s) \<Rightarrow>
          map_option (\<lambda>(r, s).
              (and_then r (\<lambda>utxo_set. Ok (Blockchain_new (dl_headers s) (dl_blocks s) (dl_heights s) utxo_set)), s))
            (if ibd_single_node config \<or> length (dl_nodes s) < 2
             then Some (download_full_blockchain_from_single_node cr parse_date config Map.empty s)
             else download_full_blockchain_from_multiple_nodes cr parse_date config schedule Map.empty s)
      | (Err e, s) \<Rightarrow> Some (Err e, s)
      | (Panic, s) \<Rightarrow> Some (Panic, s))"

end
