(* ===== verification/Ibd_Facts.thy ===== *)
theory Ibd_Facts
  imports Ibd
begin

section \<open>Properties of the initial block download\<close>

text \<open>
  The invariant of the downloaded blocks under every schedule (the locale \<open>contract\<close> of the running
  program, interpreted on the threads of the download), what the download returns, that every schedule
  runs out of moves, and when it then has not returned.
\<close>

subsection \<open>The invariant of the shared data\<close>

definition download_grows :: "crypto \<Rightarrow> (BlockHeader \<Rightarrow> bool) \<Rightarrow> download \<Rightarrow> download \<Rightarrow> bool" where
  "download_grows cr P s t \<longleftrightarrow> (blocks_ok cr s \<longrightarrow> blocks_ok cr t) \<and>
     (\<exists>new. dl_headers t = dl_headers s @ new \<and> list_all P new) \<and>
     dom (dl_blocks s) \<subseteq> dom (dl_blocks t) \<and> (\<exists>q. dl_utxo_queue t = dl_utxo_queue s @ q)"

lemma download_grows_refl [simp]: "download_grows cr P s s"
  by (simp add: download_grows_def)

lemma download_grows_trans:
  assumes "download_grows cr P s t" and "download_grows cr P t u"
  shows "download_grows cr P s u"
proof -
  from assms obtain n1 n2 q1 q2 where
      "dl_headers t = dl_headers s @ n1" "list_all P n1" "dl_headers u = dl_headers t @ n2" "list_all P n2"
      "dl_utxo_queue t = dl_utxo_queue s @ q1" "dl_utxo_queue u = dl_utxo_queue t @ q2"
    by (auto simp: download_grows_def)
  then have "dl_headers u = dl_headers s @ n1 @ n2 \<and> list_all P (n1 @ n2)"
      "dl_utxo_queue u = dl_utxo_queue s @ q1 @ q2"
    by simp_all
  with assms show ?thesis
    unfolding download_grows_def by (intro conjI) blast+
qed

lemma headers_by_grows: "headers_by P s t \<Longrightarrow> download_grows cr P s t"
  by (simp add: headers_by_def download_grows_def blocks_ok_def)

lemma fetched_by_grows: "fetched_by cr s t \<Longrightarrow> download_grows cr P s t"
  by (simp add: fetched_by_def download_grows_def)

lemma steps_by_mono: "steps_by R m \<Longrightarrow> (\<And>s t. R s t \<Longrightarrow> R' s t) \<Longrightarrow> steps_by R' m"
  by (simp add: steps_by_def)

named_theorems grow_steps \<comment> \<open>parts of the download keep \<open>download_grows\<close>\<close>

lemmas [grow_steps] = steps_by_then [where R = "download_grows cr P" for cr P, OF download_grows_trans]

lemma grow_steps_basic [grow_steps]:
  "steps_by (download_grows cr P) (lift r)" "steps_by (download_grows cr P) (inspect f)"
  "steps_by (download_grows cr P) get_node" "steps_by (download_grows cr P) (return_node_to_vec node)"
  "steps_by (download_grows cr P) (send_ui e)" "steps_by (download_grows cr P) (\<lambda>s. send_ui (g s) s)"
  "steps_by (download_grows cr P) (modify (\<lambda>s. s\<lparr>dl_file := file\<rparr>))"
  by (auto simp: steps_by_def action_simps download_grows_def blocks_ok_def get_node_def)

lemma missing_headers_from_nodes_grows [grow_steps]:
  "steps_by (download_grows cr (checked cr)) (missing_headers_from_nodes cr parse_date config node)"
proof -
  have "download_grows cr (checked cr) s (snd (missing_headers_from_nodes cr parse_date config node s))" for node s
  proof (induction "length (dl_nodes s)" arbitrary: node s rule: less_induct)
    case (less s node)
    obtain r t where m: "download_missing_headers_from_node cr parse_date config node s = (r, t)" by fastforce
    note step = steps_by_run [OF missing_headers_steps m]
    have st: "download_grows cr (checked cr) s t"
      by (rule headers_by_grows [OF step])
    have "download_grows cr (checked cr) s (snd (act_then get_node (missing_headers_from_nodes cr parse_date config) t))"
    proof (cases "dl_nodes t = []")
      case False
      let ?t = "t\<lparr>dl_nodes := butlast (dl_nodes t)\<rparr>"
      have g: "get_node t = (Ok (last (dl_nodes t)), ?t)" "download_grows cr (checked cr) t ?t"
        using False by (simp_all add: get_node_def download_grows_def blocks_ok_def)
      have "download_grows cr (checked cr) ?t
          (snd (missing_headers_from_nodes cr parse_date config (last (dl_nodes t)) ?t))"
        using False headers_by_nodes [OF step] by (intro less) simp
      from download_grows_trans [OF download_grows_trans [OF st g(2)] this] g(1) show ?thesis
        by simp
    qed (use st in \<open>simp add: act_then_def get_node_def\<close>)
    with m st show ?case
      by (auto simp: missing_headers_from_nodes.simps [of cr parse_date config node]
          split: result.split NodeCustomErrors.split)
  qed
  then show ?thesis by (simp add: steps_by_def)
qed

lemma download_missing_headers_grows [grow_steps]:
  "steps_by (download_grows cr (checked cr)) (download_missing_headers cr parse_date config)"
  unfolding download_missing_headers_def by (intro grow_steps)

lemma single_node_grows [grow_steps]:
  "digest_lengths cr \<Longrightarrow> steps_by (download_grows cr P) (download_blocks_single_node cr config hs node)"
  by (rule steps_by_mono [OF single_node_fetched [OF sha_length] fetched_by_grows])

lemma download_batches_grows [grow_steps]:
  "digest_lengths cr \<Longrightarrow> steps_by (download_grows cr P) (download_batches cr config batches node)"
proof (induction batches arbitrary: node)
  case (Cons b bs)
  then show ?case by (auto intro!: grow_steps)
qed (simp add: grow_steps)

lemma queue_batches_grows [grow_steps]:
  assumes "digest_lengths cr"
  shows "steps_by (download_grows cr P) (\<lambda>s. download_batches cr config (dl_queue s) node (s\<lparr>dl_queue := []\<rparr>))"
proof -
  have "download_grows cr P s (snd (download_batches cr config bs node (s\<lparr>dl_queue := []\<rparr>)))" for s bs
  proof (rule download_grows_trans [of _ _ _ "s\<lparr>dl_queue := []\<rparr>"])
    show "download_grows cr P (s\<lparr>dl_queue := []\<rparr>) (snd (download_batches cr config bs node (s\<lparr>dl_queue := []\<rparr>)))"
      using download_batches_grows [OF assms] by (simp add: steps_by_def)
  qed (simp add: download_grows_def blocks_ok_def)
  then show ?thesis by (simp add: steps_by_def)
qed

lemma single_full_grows:
  "digest_lengths cr \<Longrightarrow> steps_by (download_grows cr (checked cr)) (download_full_blockchain_from_single_node cr parse_date config utxo)"
  unfolding download_full_blockchain_from_single_node_def by (intro grow_steps)


subsubsection \<open>The first headers\<close>

lemma download_grows_weaken: "download_grows cr P s t \<Longrightarrow> download_grows cr (\<lambda>h. True) s t"
  by (auto simp: download_grows_def list_all_iff)

lemma read_messages_grows: "download_grows cr' (\<lambda>h. True) s (snd (read_messages cr contents i amt s))"
proof (induction "length contents - i" arbitrary: i amt s rule: less_induct)
  case less
  let ?slice = "slice contents i (i + HEADERS_MESSAGE_SIZE) :: (bytes, NodeCustomErrors) result"
  show ?case
  proof (cases "\<exists>bs hs. i < length contents \<and> ?slice = Ok bs \<and> HeadersMessage_unmarshalling bs = Ok hs")
    case True
    then obtain bs hs where b: "i < length contents" "?slice = Ok bs" "HeadersMessage_unmarshalling bs = Ok hs"
      by blast
    let ?t = "s\<lparr>dl_heights := load_header_heights cr hs (dl_heights s) (dl_headers s), dl_headers := dl_headers s @ hs,
      dl_ui := dl_ui s @ [UpdateHeadersDownloaded (amt + 2000)]\<rparr>"
    have "download_grows cr' (\<lambda>h. True) s ?t"
      by (simp add: download_grows_def blocks_ok_def list_all_iff)
    moreover have "download_grows cr' (\<lambda>h. True) ?t
        (snd (read_messages cr contents (i + HEADERS_MESSAGE_SIZE) (amt + 2000) ?t))"
      using b(1) by (intro less) (simp add: HEADERS_MESSAGE_SIZE_def)
    ultimately have "download_grows cr' (\<lambda>h. True) s
        (snd (read_messages cr contents (i + HEADERS_MESSAGE_SIZE) (amt + 2000) ?t))"
      by (rule download_grows_trans)
    then show ?thesis
      using b by (subst read_messages.simps) (simp add: load_heights_def action_simps)
  next
    case False
    then have "snd (read_messages cr contents i amt s) = s"
      by (cases ?slice; subst read_messages.simps)
        (auto simp: action_simps act_then_def split: result.splits)
    then show ?thesis by simp
  qed
qed

lemma read_disk_grows: "steps_by (download_grows cr' (\<lambda>h. True)) (read_headers_from_disk_act cr contents)"
  unfolding read_headers_from_disk_act_def
  by (intro grow_steps) (simp_all add: steps_by_def read_messages_grows)

lemma persist_from_nodes_grows [grow_steps]:
  "steps_by (download_grows cr (checked cr)) (persist_from_nodes cr config node)"
proof -
  have "download_grows cr (checked cr) s (snd (persist_from_nodes cr config node s))" for node s
  proof (induction "length (dl_nodes s)" arbitrary: node s rule: less_induct)
    case (less s node)
    obtain r t where m: "download_and_persist_initial_headers_from_node cr config node s = (r, t)" by fastforce
    note step = steps_by_run [OF persist_loop_steps m]
    have st: "download_grows cr (checked cr) s t"
      by (rule headers_by_grows [OF step])
    have "download_grows cr (checked cr) s (snd (act_then get_node (persist_from_nodes cr config) t))"
    proof (cases "dl_nodes t = []")
      case False
      let ?t = "t\<lparr>dl_nodes := butlast (dl_nodes t)\<rparr>"
      have g: "get_node t = (Ok (last (dl_nodes t)), ?t)" "download_grows cr (checked cr) t ?t"
        using False by (simp_all add: get_node_def download_grows_def blocks_ok_def)
      have "download_grows cr (checked cr) ?t (snd (persist_from_nodes cr config (last (dl_nodes t)) ?t))"
        using False headers_by_nodes [OF step] by (intro less) simp
      from download_grows_trans [OF download_grows_trans [OF st g(2)] this] g(1) show ?thesis
        by simp
    qed (use st in \<open>simp add: act_then_def get_node_def\<close>)
    moreover have "download_grows cr (checked cr) t (snd (return_node_to_vec node' t))" for node'
      using grow_steps_basic(4) by (simp add: steps_by_def)
    ultimately show ?case
      using m st download_grows_trans [OF st]
      by (auto simp: persist_from_nodes.simps [of cr config node] split: result.split)
  qed
  then show ?thesis by (simp add: steps_by_def)
qed

lemma persist_headers_grows:
  "steps_by (download_grows cr (checked cr)) (download_and_persist_headers cr config created)"
  unfolding download_and_persist_headers_def by (intro grow_steps)

lemma initial_headers_grow:
  assumes "get_initial_headers cr config disk created s = (r, t)"
  shows "download_grows cr (\<lambda>h. True) s t"
    and "\<not> (read_headers_from_disk config \<and> disk \<noteq> None) \<Longrightarrow> download_grows cr (checked cr) s t"
proof -
  have dp: "download_grows cr (checked cr) s' (snd (download_and_persist_headers cr config created s'))" for s'
    using persist_headers_grows by (simp add: steps_by_def)
  have rd: "download_grows cr (\<lambda>h. True) s' (snd (read_headers_from_disk_act cr contents s'))" for contents s'
    using read_disk_grows by (simp add: steps_by_def)
  show "\<not> (read_headers_from_disk config \<and> disk \<noteq> None) \<Longrightarrow> download_grows cr (checked cr) s t"
    using assms dp [of s] by (auto simp: get_initial_headers_def split: if_splits)
  show "download_grows cr (\<lambda>h. True) s t"
  proof (cases "read_headers_from_disk config \<and> disk \<noteq> None")
    case False
    with assms dp [of s] show ?thesis
      by (auto simp: get_initial_headers_def intro: download_grows_weaken split: if_splits)
  next
    case True
    then obtain contents where d: "read_headers_from_disk config" "disk = Some contents" by blast
    obtain r' u where u: "read_headers_from_disk_act cr contents s = (r', u)" by fastforce
    have su: "download_grows cr (\<lambda>h. True) s u"
      using rd [of s contents] u by simp
    from assms d u show ?thesis
      using su download_grows_trans [OF su download_grows_weaken [OF dp [of u]]]
      by (cases r') (auto simp: get_initial_headers_def)
  qed
qed

subsubsection \<open>The moves of the threads\<close>

definition ibd_step ::
  "crypto \<Rightarrow> (string \<Rightarrow> string \<Rightarrow> (int, string) result) \<Rightarrow> Config \<Rightarrow> ibd \<Rightarrow> ibd \<Rightarrow> bool" where
  "ibd_step cr parse_date config x y \<longleftrightarrow> (\<exists>a. ibd_move cr parse_date config a x = Some y)"

fun threads_ok :: "crypto \<Rightarrow> blocks_thread \<Rightarrow> bool" where
  "threads_ok cr (Joining ws) = list_all (worker_ok cr) ws"
| "threads_ok cr b = True"

definition ibd_ok :: "crypto \<Rightarrow> ibd \<Rightarrow> bool" where
  "ibd_ok cr x \<longleftrightarrow> digest_lengths cr \<and> blocks_ok cr (shared_data x) \<and> threads_ok cr (blocks_state x)"

definition ibd_grows :: "crypto \<Rightarrow> ibd \<Rightarrow> ibd \<Rightarrow> bool" where
  "ibd_grows cr x y \<longleftrightarrow> download_grows cr (checked cr) (shared_data x) (shared_data y)"

lemma headers_move_grows:
  "headers_move cr parse_date config h s = (h', t) \<Longrightarrow> download_grows cr (checked cr) s t"
proof (cases h)
  case NextNode
  assume "headers_move cr parse_date config h s = (h', t)"
  with NextNode show ?thesis
    by (auto simp: get_node_def download_grows_def blocks_ok_def split: if_splits)
next
  case (FirstBatch node)
  assume "headers_move cr parse_date config h s = (h', t)"
  with FirstBatch show ?thesis
    by (auto intro!: headers_by_grows steps_by_run [OF first_batch_steps] split: prod.split_asm result.split_asm)
next
  case (Batches hs node found)
  assume m: "headers_move cr parse_date config h s = (h', t)"
  show ?thesis
  proof (cases "length hs = 2000")
    case True
    with m Batches show ?thesis
      by (auto intro!: headers_by_grows steps_by_run [OF headers_turn_steps] split: prod.split_asm result.split_asm)
  next
    case False
    with m Batches show ?thesis
      by (auto simp: action_simps download_grows_def blocks_ok_def)
  qed
qed simp

lemma start_workers_grow: "steps_by (download_grows cr P) (start_workers config parts)"
proof (induction parts)
  case (Cons part parts)
  have "steps_by (download_grows cr P) (download_blocks_chunck config part)"
    unfolding download_blocks_chunck_def by (intro grow_steps)
  with Cons show ?case
    by (auto intro!: grow_steps)
qed (simp add: grow_steps)

lemma new_worker:
  "download_blocks_chunck config part s = (Ok w, t) \<Longrightarrow>
     get_node s = (Ok (last (dl_nodes s)), t) \<and> dl_nodes s \<noteq> [] \<and>
     w = (if blocks_download_per_node config = 0 then Ended Panic
          else Fetching (last (dl_nodes s)) (chunk_list (blocks_download_per_node config) part) part Map.empty)"
  by (auto simp: download_blocks_chunck_def act_then_eq_Ok lift_def chunks_def get_node_def split: if_splits)

lemma start_workers_ok: "start_workers config parts s = (Ok ws, t) \<Longrightarrow> list_all (worker_ok cr) ws"
  by (induction parts arbitrary: s ws) (auto simp: act_then_eq_Ok lift_def dest!: new_worker)

lemma close_queue_grows: "download_grows cr P s t \<Longrightarrow> download_grows cr P s (close_queue t)"
  by (simp add: download_grows_def close_queue_def blocks_ok_def)

lemma start_batch_ok:
  assumes "start_batch config hs s = (b, t)"
  shows "download_grows cr P s t \<and> threads_ok cr b"
proof (cases "hs = []")
  case True
  with assms show ?thesis
    by (auto simp: start_batch_def intro: close_queue_grows)
next
  case False
  define n where "n = (if length hs \<le> blocks_download_per_node config then 1 else n_threads config)"
  define m where "m = act_then (lift (divide_blocks_to_download_in_equal_chunks hs n)) (start_workers config)"
  obtain r u where r: "m s = (r, u)" by fastforce
  have "steps_by (download_grows cr P) m"
    unfolding m_def by (intro grow_steps start_workers_grow)
  from steps_by_run [OF this r] have g: "download_grows cr P s u" .
  have "r = Ok ws \<Longrightarrow> list_all (worker_ok cr) ws" for ws
    using r by (auto simp: m_def act_then_eq_Ok lift_def dest: start_workers_ok)
  with g r assms False show ?thesis
    by (auto simp: start_batch_def n_def [symmetric] m_def [symmetric] Let_def intro: close_queue_grows
        split: result.split_asm)
qed

lemma blocks_move_ok:
  assumes "download_blocks config b s = Some (b', t)"
  shows "download_grows cr P s t \<and> threads_ok cr b'"
proof (cases b)
  case Waiting
  with assms obtain hs q where q: "start_batch config hs (s\<lparr>dl_queue := q\<rparr>) = (b', t)"
    by (auto split: list.split_asm)
  have "download_grows cr P s (s\<lparr>dl_queue := q\<rparr>)"
    by (simp add: download_grows_def blocks_ok_def)
  with start_batch_ok [OF q] show ?thesis
    by (blast intro: download_grows_trans)
next
  case (Joining ws)
  with assms show ?thesis
    by (auto simp: finish_batch_def intro: close_queue_grows split: option.split_asm result.split_asm if_splits)
qed (use assms in simp)

lemma ibd_headers_move:
  "ibd_move cr parse_date config HeadersMove x = Some y \<Longrightarrow>
     \<exists>h s. headers_move cr parse_date config (headers_state x) (shared_data x) = (h, s) \<and>
       y = x\<lparr>shared_data := s, headers_state := h\<rparr> \<and> headers_result (headers_state x) = None"
  by (cases "headers_state x") (auto simp del: headers_move.simps split: prod.split_asm)

lemma ibd_worker_move:
  "ibd_move cr parse_date config (WorkerMove i) x = Some y \<Longrightarrow>
     \<exists>ws w s. blocks_state x = Joining ws \<and> i < length ws \<and> worker_result (ws ! i) = None \<and>
       download_blocks_single_thread cr config (ws ! i) (shared_data x) = (w, s) \<and>
       y = x\<lparr>shared_data := s, blocks_state := Joining (ws[i := w])\<rparr>"
  by (auto split: blocks_thread.split_asm if_split_asm prod.split_asm)

lemma ibd_move_keeps:
  assumes "ibd_move cr parse_date config a x = Some y" and "ibd_ok cr x"
  shows "ibd_ok cr y \<and> ibd_grows cr x y"
proof -
  have grows: "ibd_ok cr y \<and> ibd_grows cr x y"
    if "download_grows cr (checked cr) (shared_data x) (shared_data y)" "threads_ok cr (blocks_state y)"
    using that assms(2) by (simp add: ibd_ok_def ibd_grows_def download_grows_def)
  show ?thesis
  proof (cases a)
    case HeadersMove
    with assms show ?thesis
      by (intro grows) (auto simp: ibd_ok_def simp del: ibd_move.simps dest!: ibd_headers_move headers_move_grows)
  next
    case BlocksMove
    with assms(1) blocks_move_ok show ?thesis
      by (intro grows) (auto split: option.split_asm)
  next
    case (WorkerMove i)
    with assms(1) obtain ws w s where ws: "blocks_state x = Joining ws" "i < length ws"
        "download_blocks_single_thread cr config (ws ! i) (shared_data x) = (w, s)"
        "y = x\<lparr>shared_data := s, blocks_state := Joining (ws[i := w])\<rparr>"
      using ibd_worker_move by blast
    from assms(2) ws have "digest_lengths cr" "worker_ok cr (ws ! i)"
      by (auto simp: ibd_ok_def list_all_length)
    from worker_move_ok [OF this ws(3)] have "worker_ok cr w" "download_grows cr (checked cr) (shared_data x) s"
      by (simp_all add: fetched_by_grows)
    with ws assms(2) show ?thesis
      by (intro grows) (auto simp: ibd_ok_def list_all_length nth_list_update)
  qed
qed

interpretation download_run: contract "ibd_step cr parse_date config" "ibd_ok cr" "ibd_grows cr"
  for cr parse_date config
proof unfold_locales
  fix x y
  assume "ibd_step cr parse_date config x y" and "ibd_ok cr x"
  then show "ibd_ok cr y" "ibd_grows cr x y"
    using ibd_move_keeps by (auto simp: ibd_step_def)
qed (auto simp: ibd_grows_def intro: download_grows_trans)

lemma ibd_run_steps: "(ibd_step cr parse_date config)\<^sup>*\<^sup>* x (ibd_run cr parse_date config as x)"
proof (induction as arbitrary: x)
  case (Cons a as)
  show ?case
  proof (cases "ibd_move cr parse_date config a x")
    case (Some y)
    then have "ibd_step cr parse_date config x y"
      by (auto simp: ibd_step_def)
    with Some Cons [of y] show ?thesis
      by (simp add: converse_rtranclp_into_rtranclp)
  qed (use Cons in simp)
qed simp


subsection \<open>What the download returns\<close>

lemma load_utxo_set_eq:
  assumes "\<forall>b \<in> set (concat q). \<forall>tx \<in> set (txn b). tx_in tx \<noteq> []"
  shows "load_utxo_set cr q m = Ok (fold (utxos_after cr) (concat q) m)"
proof -
  have one: "fold_result (\<lambda>block utxo. map_err UtxoError (give_me_utxos cr block utxo)) bs m =
      Ok (fold (utxos_after cr) bs m)" if "\<forall>b \<in> set bs. \<forall>tx \<in> set (txn b). tx_in tx \<noteq> []" for bs m
    using that by (intro fold_result_all_Ok) (auto simp: give_me_utxos_process utxos_after_def)
  have "load_utxo_set cr q m = Ok (fold (\<lambda>bs. fold (utxos_after cr) bs) q m)"
    unfolding load_utxo_set_def by (rule fold_result_all_Ok, rule one) (use assms in auto)
  also have "fold (\<lambda>bs. fold (utxos_after cr) bs) q m = fold (utxos_after cr) (concat q) m"
    by (induction q arbitrary: m) simp_all
  finally show ?thesis .
qed

lemma load_good_blocks:
  assumes "\<forall>bs \<in> set q. list_all (good_block cr) bs"
  shows "load_utxo_set cr q m = Ok (fold (utxos_after cr) (concat q) m)"
  using assms wf_block_inputs by (intro load_utxo_set_eq) (fastforce simp: list_all_iff good_block_def)

lemma fold_utxos_after:
  assumes "wf_utxos m" and "finite (dom m)"
  shows "wf_utxos (fold (utxos_after cr) bs m) \<and> finite (dom (fold (utxos_after cr) bs m)) \<and>
    utxo_view (fold (utxos_after cr) bs m) = fold (apply_tx cr) (concat (map txn bs)) (utxo_view m)"
  using assms by (induction bs arbitrary: m) (simp_all add: utxos_after_correct finite_utxos_after)

lemma single_full_result:
  assumes "digest_lengths cr" and "blocks_ok cr s"
    and "download_full_blockchain_from_single_node cr parse_date config utxo s = (Ok m, t)"
  shows "blocks_ok cr t \<and> (\<exists>new. dl_headers t = dl_headers s @ new \<and> list_all (checked cr) new) \<and>
    load_utxo_set cr (dl_utxo_queue t) utxo = Ok m"
proof -
  from assms(3) have "join_ended (load_utxo_set cr (dl_utxo_queue t) utxo) = Ok m"
    by (auto simp: download_full_blockchain_from_single_node_def act_then_eq_Ok inspect_def)
  then have "load_utxo_set cr (dl_utxo_queue t) utxo = Ok m"
    by (cases "load_utxo_set cr (dl_utxo_queue t) utxo") simp_all
  moreover have "download_grows cr (checked cr) s t"
    by (rule steps_by_run [OF single_full_grows [OF assms(1)] assms(3)])
  ultimately show ?thesis
    using assms(2) by (simp add: download_grows_def)
qed

lemma multiple_full_result:
  assumes "digest_lengths cr" and "blocks_ok cr s"
    and "download_full_blockchain_from_multiple_nodes cr parse_date config schedule utxo s = Some (Ok m, t)"
  shows "blocks_ok cr t \<and> (\<exists>new. dl_headers t = dl_headers s @ new \<and> list_all (checked cr) new) \<and>
    load_utxo_set cr (dl_utxo_queue t) utxo = Ok m"
proof -
  define x where "x = ibd_run cr parse_date config schedule (ibd_start s)"
  from assms(3) have t: "t = shared_data x" and "join_ended (load_utxo_set cr (dl_utxo_queue t) utxo) = Ok m"
    by (auto simp: download_full_blockchain_from_multiple_nodes_def x_def [symmetric] Let_def
        split: option.split_asm result.split_asm)
  then have "load_utxo_set cr (dl_utxo_queue t) utxo = Ok m"
    by (cases "load_utxo_set cr (dl_utxo_queue t) utxo") simp_all
  moreover have "ibd_ok cr (ibd_start s)"
    using assms by (simp add: ibd_ok_def ibd_start_def)
  with download_run.run_ok [OF ibd_run_steps] have "ibd_ok cr x \<and> ibd_grows cr (ibd_start s) x"
    unfolding x_def by blast
  ultimately show ?thesis
    using t by (simp add: ibd_ok_def ibd_grows_def ibd_start_def download_grows_def)
qed

lemma initial_download_result:
  assumes "digest_lengths cr"
    and "initial_block_download cr parse_date config disk created schedule nodes = Some (Ok bc, t)"
  shows "\<exists>first rest. headers bc = GENESIS_BLOCK_HEADER # first @ rest \<and> list_all (checked cr) rest \<and>
      (\<not> (read_headers_from_disk config \<and> disk \<noteq> None) \<longrightarrow> list_all (checked cr) first)"
    and "good_blocks cr (blocks bc)" and "\<forall>bs \<in> set (dl_utxo_queue t). list_all (good_block cr) bs"
    and "bc_utxo_set bc = fold (utxos_after cr) (concat (dl_utxo_queue t)) Map.empty"
proof -
  obtain r s where i: "get_initial_headers cr config disk created (download_start nodes) = (r, s)"
    by fastforce
  with assms(2) obtain u where "r = Ok u"
    by (cases r) (simp_all add: initial_block_download_def)
  with i have g: "get_initial_headers cr config disk created (download_start nodes) = (Ok u, s)"
    by simp
  have start: "blocks_ok cr (download_start nodes)" "dl_headers (download_start nodes) = [GENESIS_BLOCK_HEADER]"
    by (simp_all add: blocks_ok_def download_start_def)
  note grow = initial_headers_grow [OF g]
  have s: "blocks_ok cr s"
    using grow(1) start by (simp add: download_grows_def)
  from assms(2) g obtain m where bc: "bc = Blockchain_new (dl_headers t) (dl_blocks t) (dl_heights t) m"
      and "download_full_blockchain_from_single_node cr parse_date config Map.empty s = (Ok m, t) \<or>
        download_full_blockchain_from_multiple_nodes cr parse_date config schedule Map.empty s = Some (Ok m, t)"
    by (auto simp: initial_block_download_def and_then_eq_Ok split: if_split_asm)
  then have t: "blocks_ok cr t" "\<exists>new. dl_headers t = dl_headers s @ new \<and> list_all (checked cr) new"
      "load_utxo_set cr (dl_utxo_queue t) Map.empty = Ok m"
    using single_full_result [OF assms(1) s] multiple_full_result [OF assms(1) s] by blast+
  show "\<exists>first rest. headers bc = GENESIS_BLOCK_HEADER # first @ rest \<and> list_all (checked cr) rest \<and>
      (\<not> (read_headers_from_disk config \<and> disk \<noteq> None) \<longrightarrow> list_all (checked cr) first)"
    using grow t(2) start(2) by (fastforce simp: download_grows_def bc Blockchain_new_def)
  show "good_blocks cr (blocks bc)" "\<forall>bs \<in> set (dl_utxo_queue t). list_all (good_block cr) bs"
    using t(1) by (simp_all add: blocks_ok_def bc Blockchain_new_def)
  then show "bc_utxo_set bc = fold (utxos_after cr) (concat (dl_utxo_queue t)) Map.empty"
    using t(3) load_good_blocks by (simp add: bc Blockchain_new_def)
qed

subsection \<open>Every schedule runs out of moves\<close>

text \<open>
  The nodes that are connected, in the list or with a thread. A thread gives its node back or drops
  it, so there are never more; what they have not been asked to send yet only shrinks.
\<close>

fun headers_node :: "headers_thread \<Rightarrow> remote list" where
  "headers_node (FirstBatch node) = [node]"
| "headers_node (Batches hs node found) = [node]"
| "headers_node h = []"

fun worker_node :: "worker \<Rightarrow> remote list" where
  "worker_node (Fetching node groups hs cur) = [node]"
| "worker_node (Ended r) = []"

fun workers_of :: "blocks_thread \<Rightarrow> worker list" where
  "workers_of (Joining ws) = ws"
| "workers_of b = []"

definition live_nodes :: "ibd \<Rightarrow> remote list" where
  "live_nodes x = dl_nodes (shared_data x) @ headers_node (headers_state x) @
     concat (map worker_node (workers_of (blocks_state x)))"

definition to_receive :: "ibd \<Rightarrow> nat" where
  "to_receive x = sum_list (map unread (live_nodes x))"

fun groups_left :: "worker \<Rightarrow> nat" where
  "groups_left (Fetching node groups hs cur) = Suc (length groups)"
| "groups_left (Ended r) = 0"

fun blocks_phase :: "blocks_thread \<Rightarrow> nat" where
  "blocks_phase (Joining ws) = 2"
| "blocks_phase Waiting = 1"
| "blocks_phase (Stopped r) = 0"

fun headers_phase :: "headers_thread \<Rightarrow> nat" where
  "headers_phase NextNode = 3"
| "headers_phase (FirstBatch node) = 2"
| "headers_phase (Batches hs node found) = 1"
| "headers_phase (HeadersEnded r) = 0"

definition ibd_order :: "(ibd \<times> ibd) set" where
  "ibd_order = measures
     [\<lambda>x. length (live_nodes x), to_receive, \<lambda>x. length (dl_queue (shared_data x)),
      \<lambda>x. sum_list (map groups_left (workers_of (blocks_state x))), \<lambda>x. blocks_phase (blocks_state x),
      \<lambda>x. headers_phase (headers_state x)]"


abbreviation node_count :: "worker \<Rightarrow> nat" where
  "node_count w \<equiv> length (worker_node w)"

abbreviation worker_unread :: "worker \<Rightarrow> nat" where
  "worker_unread w \<equiv> sum_list (map unread (worker_node w))"

lemma length_live:
  "length (live_nodes x) = length (dl_nodes (shared_data x)) + length (headers_node (headers_state x)) +
     sum_list (map node_count (workers_of (blocks_state x)))"
  by (simp add: live_nodes_def length_concat comp_def)

lemma to_receive_eq:
  "to_receive x = sum_list (map unread (dl_nodes (shared_data x))) +
     sum_list (map unread (headers_node (headers_state x))) +
     sum_list (map worker_unread (workers_of (blocks_state x)))"
proof -
  have "sum_list (map unread (concat (map worker_node ws))) = sum_list (map worker_unread ws)" for ws
    by (induction ws) simp_all
  then show ?thesis
    by (simp add: to_receive_def live_nodes_def)
qed

lemma ibd_order_trivial: "wf ibd_order"
  by (simp add: ibd_order_def)

lemma fewer_nodes: "length (live_nodes y) < length (live_nodes x) \<Longrightarrow> (y, x) \<in> ibd_order"
  by (simp add: ibd_order_def)

lemma less_to_receive:
  "\<lbrakk>length (live_nodes y) \<le> length (live_nodes x); to_receive y < to_receive x\<rbrakk> \<Longrightarrow> (y, x) \<in> ibd_order"
  by (auto simp: ibd_order_def)

lemma later_phase:
  "\<lbrakk>length (live_nodes y) \<le> length (live_nodes x); to_receive y \<le> to_receive x;
    (y, x) \<in> measures [\<lambda>x. length (dl_queue (shared_data x)),
      \<lambda>x. sum_list (map groups_left (workers_of (blocks_state x))), \<lambda>x. blocks_phase (blocks_state x),
      \<lambda>x. headers_phase (headers_state x)]\<rbrakk> \<Longrightarrow> (y, x) \<in> ibd_order"
  unfolding ibd_order_def by (auto simp del: in_measures simp: in_measures(2) [of _ _ "\<lambda>x. length (live_nodes x)"]
      in_measures(2) [of _ _ to_receive])

lemma nodes_split: "xs \<noteq> [] \<Longrightarrow> sum_list (map unread xs) = sum_list (map unread (butlast xs)) + unread (last xs)"
  by (induction xs rule: rev_induct) simp_all

lemma first_batch_unread:
  "first_batch cr config node s = (Ok (hs, node', found), t) \<Longrightarrow> unread node' < unread node"
  by (auto simp: first_batch_def act_then_eq_Ok lift_def dest!: request_headers_unread receive_headers_unread)

lemma headers_failed_phase [simp]: "headers_node (headers_failed e) = []"
  by (cases e) simp_all

lemma headers_move_order:
  assumes "headers_move cr parse_date config (headers_state x) (shared_data x) = (h, s)"
    and "headers_result (headers_state x) = None"
  shows "(x\<lparr>shared_data := s, headers_state := h\<rparr>, x) \<in> ibd_order"
proof (cases "headers_state x")
  case NextNode
  with assms show ?thesis
    by (intro later_phase)
      (auto simp: get_node_def length_live to_receive_eq nodes_split [of "dl_nodes (shared_data x)"]
        split: if_splits)
next
  case (FirstBatch node)
  obtain r t where m: "first_batch cr config node (shared_data x) = (r, t)" by fastforce
  have n: "dl_nodes t = dl_nodes (shared_data x)"
    by (rule headers_by_nodes [OF steps_by_run [OF first_batch_steps m]])
  show ?thesis
  proof (cases r)
    case (Ok b)
    obtain hs node' found where b: "b = (hs, node', found)" by (cases b)
    with m Ok FirstBatch n assms(1) first_batch_unread [of cr config node "shared_data x"] show ?thesis
      by (intro less_to_receive) (auto simp: length_live to_receive_eq)
  qed (use m FirstBatch n assms(1) in \<open>auto simp: length_live intro!: fewer_nodes\<close>)
next
  case (Batches hs node found)
  show ?thesis
  proof (cases "length hs = 2000")
    case full: True
    obtain r t where m: "headers_turn cr parse_date config node found (shared_data x) = (r, t)" by fastforce
    have n: "dl_nodes t = dl_nodes (shared_data x)"
      by (rule headers_by_nodes [OF steps_by_run [OF headers_turn_steps m]])
    show ?thesis
    proof (cases r)
      case (Ok b)
      obtain hs' node' found' where b: "b = (hs', node', found')" by (cases b)
      with m Ok Batches full n assms(1) headers_turn_unread [of cr parse_date config node found "shared_data x"] show ?thesis
        by (intro less_to_receive) (auto simp: length_live to_receive_eq)
    qed (use m Batches full n assms(1) in \<open>auto simp: length_live intro!: fewer_nodes\<close>)
  next
    case False
    with Batches assms show ?thesis
      by (intro later_phase) (auto simp: action_simps length_live to_receive_eq)
  qed
next
  case (HeadersEnded r)
  with assms(2) show ?thesis by simp
qed

lemma no_worker: "download_blocks_chunck config part s = (r, t) \<Longrightarrow> (\<forall>w. r \<noteq> Ok w) \<Longrightarrow> t = s"
  by (auto simp: download_blocks_chunck_def act_then_def get_node_def lift_def split: if_splits)

fun workers_started :: "(worker list, NodeCustomErrors) result \<Rightarrow> worker list" where
  "workers_started (Ok ws) = ws"
| "workers_started r = []"

lemma start_workers_nodes:
  "start_workers config parts s = (r, t) \<Longrightarrow>
     length (dl_nodes t) + sum_list (map node_count (workers_started r)) \<le> length (dl_nodes s) \<and>
     sum_list (map unread (dl_nodes t)) + sum_list (map worker_unread (workers_started r)) \<le>
       sum_list (map unread (dl_nodes s)) \<and> dl_queue t = dl_queue s"
proof (induction parts arbitrary: s r t)
  case Nil
  then show ?case by (auto simp: lift_def)
next
  case (Cons part parts)
  obtain r1 t1 where c: "download_blocks_chunck config part s = (r1, t1)" by fastforce
  show ?case
  proof (cases r1)
    case (Ok w)
    note w = new_worker [OF c [unfolded Ok]]
    obtain r2 t2 where p: "start_workers config parts t1 = (r2, t2)" by fastforce
    have t1: "t1 = s\<lparr>dl_nodes := butlast (dl_nodes s)\<rparr>" "dl_nodes s \<noteq> []"
      using w by (auto simp: get_node_def)
    have "length (dl_nodes s) = Suc (length (butlast (dl_nodes s)))"
      using t1(2) by (cases "dl_nodes s" rule: rev_cases) simp_all
    moreover have "node_count w \<le> 1" "worker_unread w \<le> unread (last (dl_nodes s))"
      using w by auto
    moreover have "t = t2" "workers_started r = [] \<or> workers_started r = w # workers_started r2"
      using Cons.prems c p Ok by (cases r2; auto simp: act_then_def lift_def)+
    ultimately show ?thesis
      using Cons.IH [OF p] nodes_split [OF t1(2)] by (auto simp: t1(1))
  next
    case (Err e)
    with no_worker [OF c] Cons.prems c show ?thesis
      by (auto simp: act_then_def)
  next
    case Panic
    with no_worker [OF c] Cons.prems c show ?thesis
      by (auto simp: act_then_def)
  qed
qed

lemma start_batch_nodes:
  assumes "start_batch config hs s = (b, t)"
  shows "length (dl_nodes t) + sum_list (map node_count (workers_of b)) \<le> length (dl_nodes s) \<and>
    sum_list (map unread (dl_nodes t)) + sum_list (map worker_unread (workers_of b)) \<le>
      sum_list (map unread (dl_nodes s)) \<and> dl_queue t = dl_queue s"
proof (cases "hs = []")
  case True
  with assms show ?thesis
    by (auto simp: start_batch_def close_queue_def)
next
  case False
  define n where "n = (if length hs \<le> blocks_download_per_node config then 1 else n_threads config)"
  define m where "m = act_then (lift (divide_blocks_to_download_in_equal_chunks hs n)) (start_workers config)"
  obtain r u where r: "m s = (r, u)" by fastforce
  have "length (dl_nodes u) + sum_list (map node_count (workers_started r)) \<le> length (dl_nodes s) \<and>
      sum_list (map unread (dl_nodes u)) + sum_list (map worker_unread (workers_started r)) \<le>
        sum_list (map unread (dl_nodes s)) \<and> dl_queue u = dl_queue s"
  proof (cases "divide_blocks_to_download_in_equal_chunks hs n")
    case (Ok parts)
    with r start_workers_nodes [of config parts s r u] show ?thesis
      by (simp add: m_def action_simps)
  qed (use r in \<open>auto simp: m_def action_simps\<close>)
  with r assms False show ?thesis
    by (cases r) (auto simp: start_batch_def n_def [symmetric] m_def [symmetric] Let_def close_queue_def)
qed

lemma blocks_move_order:
  assumes "download_blocks config (blocks_state x) (shared_data x) = Some (b, s)"
  shows "(x\<lparr>shared_data := s, blocks_state := b\<rparr>, x) \<in> ibd_order"
proof (cases "blocks_state x")
  case Waiting
  with assms obtain hs q where q: "dl_queue (shared_data x) = hs # q"
      "start_batch config hs ((shared_data x)\<lparr>dl_queue := q\<rparr>) = (b, s)"
    by (auto split: list.split_asm)
  from start_batch_nodes [OF q(2)] q(1) Waiting show ?thesis
    by (intro later_phase) (auto simp: length_live to_receive_eq)
next
  case (Joining ws)
  with assms have "workers_of b = [] \<and> blocks_phase b < 2 \<and> dl_nodes s = dl_nodes (shared_data x) \<and>
      dl_queue s = dl_queue (shared_data x)"
    by (auto simp: finish_batch_def close_queue_def split: option.split_asm result.split_asm if_splits)
  with Joining show ?thesis
    by (intro later_phase) (auto simp: length_live to_receive_eq)
qed (use assms in simp)

lemma BlockMessage_read_from_inp:
  "BlockMessage_read_from cr st = Ok (b, st') \<Longrightarrow> length (inp st') < length (inp st)"
  by (auto simp: BlockMessage_read_from_def and_then_eq_Ok dest!: HeaderMessage_read_from_inp read_exact_shorter
      split: if_splits)

lemma receive_blocks_unread:
  "receive_blocks cr n node hs tx acc s = (Ok (bs, node'), t) \<Longrightarrow> unread node' \<le> unread node"
proof (induction n arbitrary: node acc)
  case (Suc n)
  from Suc.prems obtain b node1 where r: "receiving (BlockMessage_read_from cr) node = Ok (b, node1)"
      and l: "receive_blocks cr n node1 hs tx (acc @ [b]) s = (Ok (bs, node'), t)"
    by (auto simp: act_then_eq_Ok lift_def split: result.split_asm if_split_asm)
  from Suc.IH [OF l] r show ?case
    by (auto simp: receiving_Ok_iff dest!: BlockMessage_read_from_inp)
qed (simp add: lift_def)

lemma fetch_group_unread:
  assumes "fetch_group cr tx hs part (node, cur) s = (Ok (node', cur'), t)"
  shows "unread node' \<le> unread node"
proof -
  from assms obtain node1 s1 bs s2 where
      q: "request_blocks_from_node cr node part hs tx s = (Ok node1, s1)"
      and r: "receive_requested_blocks_from_node cr node1 part hs tx s1 = (Ok (bs, node'), s2)"
    by (auto simp: fetch_group_def act_then_eq_Ok action_simps)
  have "unread node1 = unread node"
    using q by (auto simp: request_blocks_from_node_def Let_def act_then_eq_Ok lift_def sending_def and_then_eq_Ok
        GetDataMessage_write_to_def write_all_def split: result.split_asm option.split_asm nat.split_asm)
  with receive_blocks_unread [OF r [unfolded receive_requested_blocks_from_node_def]] show ?thesis
    by simp
qed


lemma sum_list_replace:
  fixes f :: "'a \<Rightarrow> nat"
  assumes "i < length ws"
  shows "sum_list (map f (ws[i := w])) + f (ws ! i) = sum_list (map f ws) + f w"
proof -
  have "sum_list ((map f ws)[i := f w]) = sum_list (map f ws) + f w - map f ws ! i"
    using assms by (intro sum_list_update) simp
  moreover have "f (ws ! i) \<le> sum_list (map f ws)"
    using assms by (intro member_le_sum_list) simp_all
  ultimately show ?thesis
    using assms by (simp add: map_update)
qed

lemma worker_move_order:
  assumes "digest_lengths cr" and "blocks_state x = Joining ws" and "i < length ws" and "worker_result (ws ! i) = None"
    and "download_blocks_single_thread cr config (ws ! i) (shared_data x) = (w, s)"
  shows "(x\<lparr>shared_data := s, blocks_state := Joining (ws[i := w])\<rparr>, x) \<in> ibd_order"
proof -
  obtain node groups hs cur where f: "ws ! i = Fetching node groups hs cur"
    using assms(4) by (cases "ws ! i") simp_all
  note out = worker_move_outcome [OF assms(1) assms(5) [unfolded f]]
  note sums = sum_list_replace [OF assms(3), of node_count w] sum_list_replace [OF assms(3), of worker_unread w]
    sum_list_replace [OF assms(3), of groups_left w]
  show ?thesis
  proof (cases w)
    case (Fetching node' groups' hs' cur')
    have "unread node' \<le> unread node"
      using assms(5) f Fetching out
      by (auto split: prod.split_asm result.split_asm NodeCustomErrors.split_asm dest: fetch_group_unread)
    with out sums Fetching f assms(2) show ?thesis
      by (intro later_phase) (auto simp: length_live to_receive_eq)
  next
    case (Ended r)
    show ?thesis
    proof (cases "groups = [] \<and> (\<exists>u. r = Ok u)")
      case True
      with out sums Ended f assms(2) show ?thesis
        by (intro later_phase) (auto simp: length_live to_receive_eq)
    next
      case False
      then have "dl_nodes s = dl_nodes (shared_data x)"
        using out Ended by (cases r) auto
      with sums Ended f assms(2) show ?thesis
        by (intro fewer_nodes) (auto simp: length_live)
    qed
  qed
qed

lemma ibd_move_order:
  assumes "digest_lengths cr" and "ibd_move cr parse_date config a x = Some y"
  shows "(y, x) \<in> ibd_order"
proof (cases a)
  case HeadersMove
  with ibd_headers_move [OF assms(2) [unfolded HeadersMove]] headers_move_order show ?thesis
    by blast
next
  case BlocksMove
  with assms(2) blocks_move_order show ?thesis
    by (auto split: option.split_asm)
next
  case (WorkerMove i)
  with ibd_worker_move [OF assms(2) [unfolded WorkerMove]] worker_move_order [OF assms(1)] show ?thesis
    by blast
qed

text \<open>No thread can move.\<close>

definition quiet :: "crypto \<Rightarrow> (string \<Rightarrow> string \<Rightarrow> (int, string) result) \<Rightarrow> Config \<Rightarrow> ibd \<Rightarrow> bool" where
  "quiet cr parse_date config x \<longleftrightarrow> (\<forall>a. ibd_move cr parse_date config a x = None)"

lemma join_threads_None: "join_threads hs = None \<Longrightarrow> None \<in> set hs"
  by (induction hs rule: join_threads.induct) auto

lemma quiet_cases:
  assumes "quiet cr parse_date config x"
  shows "(\<exists>r. headers_state x = HeadersEnded r) \<and>
    ((\<exists>r. blocks_state x = Stopped r) \<or> blocks_state x = Waiting \<and> dl_queue (shared_data x) = [])"
proof
  have "ibd_move cr parse_date config HeadersMove x = None"
    using assms by (simp add: quiet_def del: ibd_move.simps)
  then show "\<exists>r. headers_state x = HeadersEnded r"
    by (cases "headers_state x") (auto simp del: headers_move.simps split: prod.split_asm)
  have b: "download_blocks config (blocks_state x) (shared_data x) = None"
    using spec [OF assms [unfolded quiet_def], of BlocksMove] by (auto split: option.split_asm)
  show "(\<exists>r. blocks_state x = Stopped r) \<or> blocks_state x = Waiting \<and> dl_queue (shared_data x) = []"
  proof (cases "blocks_state x")
    case Waiting
    with b show ?thesis by (auto split: list.split_asm)
  next
    case (Joining ws)
    with b have "None \<in> set (map worker_result ws)"
      by (intro join_threads_None) (auto split: option.split_asm result.split_asm)
    then obtain i where "i < length ws" "worker_result (ws ! i) = None"
      by (auto simp: in_set_conv_nth)
    with Joining spec [OF assms [unfolded quiet_def], of "WorkerMove i"] show ?thesis
      by (auto split: prod.split_asm)
  qed blast
qed

lemma ibd_run_append:
  "ibd_run cr parse_date config (as @ bs) x = ibd_run cr parse_date config bs (ibd_run cr parse_date config as x)"
  by (induction as arbitrary: x) simp_all

lemma runs_to_quiet:
  assumes "digest_lengths cr"
  shows "\<exists>schedule. quiet cr parse_date config (ibd_run cr parse_date config schedule x)"
proof (induction x rule: wf_induct_rule [OF ibd_order_trivial])
  case (1 x)
  show ?case
  proof (cases "quiet cr parse_date config x")
    case True
    then show ?thesis by (intro exI [of _ "[]"]) simp
  next
    case False
    then obtain a y where a: "ibd_move cr parse_date config a x = Some y"
      by (auto simp: quiet_def)
    with 1 [OF ibd_move_order [OF assms a]] obtain schedule where
      "quiet cr parse_date config (ibd_run cr parse_date config schedule y)" by blast
    with a show ?thesis by (intro exI [of _ "a # schedule"]) simp
  qed
qed


subsection \<open>The header thread on its own\<close>

text \<open>The moves of the header thread, one after the other, are \<open>download_missing_headers\<close>.\<close>

definition headers_step ::
  "crypto \<Rightarrow> (string \<Rightarrow> string \<Rightarrow> (int, string) result) \<Rightarrow> Config \<Rightarrow> headers_thread \<times> download \<Rightarrow> headers_thread \<times> download \<Rightarrow> bool"
where
  "headers_step cr parse_date config = (\<lambda>(h, s) y. headers_result h = None \<and> headers_move cr parse_date config h s = y)"

lemma headers_step_move: "headers_result h = None \<Longrightarrow> headers_step cr parse_date config (h, s) (headers_move cr parse_date config h s)"
  by (simp add: headers_step_def)

text \<open>Where a call that is to return a node leaves the thread.\<close>

fun left_at :: "(remote, NodeCustomErrors) result \<times> download \<Rightarrow> headers_thread \<times> download \<Rightarrow> bool" where
  "left_at (Ok node, t) y = (\<exists>hs found. y = (Batches hs node found, t) \<and> length hs \<noteq> 2000)"
| "left_at (Err e, t) y = (y = (headers_failed e, t))"
| "left_at (Panic, t) y = (y = (HeadersEnded Panic, t))"

lemma headers_loop_steps_thread:
  "\<exists>y. (headers_step cr parse_date config)\<^sup>*\<^sup>* (Batches hs node found, s) y \<and>
     left_at (headers_loop cr parse_date config (hs, node, found) s) y"
proof (induction "unread node" arbitrary: hs node found s rule: less_induct)
  case less
  show ?case
  proof (cases "length hs = 2000")
    case True
    let ?step = "headers_step cr parse_date config"
    obtain r t where m: "headers_turn cr parse_date config node found s = (r, t)" by fastforce
    have st: "?step (Batches hs node found, s) (headers_move cr parse_date config (Batches hs node found) s)"
      by (rule headers_step_move) simp
    show ?thesis
    proof (cases r)
      case (Ok b)
      obtain hs' node' found' where b: "b = (hs', node', found')" by (cases b)
      have "unread node' < unread node"
        using headers_turn_unread [OF m [unfolded Ok b]] .
      from less [OF this, of hs' found' t] obtain y where
          y: "?step\<^sup>*\<^sup>* (Batches hs' node' found', t) y" "left_at (headers_loop cr parse_date config (hs', node', found') t) y"
        by blast
      from st m Ok b True y show ?thesis
        by (intro exI [of _ y]) (auto simp: headers_loop.simps [of cr parse_date config hs]
            intro: converse_rtranclp_into_rtranclp)
    qed (use st m True in \<open>auto simp: headers_loop.simps [of cr parse_date config hs] act_then_def\<close>)
  next
    case False
    then show ?thesis
      by (auto simp: headers_loop.simps [of cr parse_date config hs])
  qed
qed

lemma from_node_steps_thread:
  "\<exists>y. (headers_step cr parse_date config)\<^sup>*\<^sup>* (FirstBatch node, s) y \<and>
     left_at (download_missing_headers_from_node cr parse_date config node s) y"
proof -
  obtain r t where m: "first_batch cr config node s = (r, t)" by fastforce
  have st: "headers_step cr parse_date config (FirstBatch node, s) (headers_move cr parse_date config (FirstBatch node) s)"
    by (rule headers_step_move) simp
  show ?thesis
  proof (cases r)
    case (Ok b)
    obtain hs' node' found' where b: "b = (hs', node', found')" by (cases b)
    from headers_loop_steps_thread [of cr parse_date config hs' node' found' t] obtain y where
        "(headers_step cr parse_date config)\<^sup>*\<^sup>* (Batches hs' node' found', t) y"
        "left_at (headers_loop cr parse_date config (hs', node', found') t) y"
      by blast
    with st m Ok b show ?thesis
      by (intro exI [of _ y]) (auto simp: download_missing_headers_from_node_def intro: converse_rtranclp_into_rtranclp)
  qed (use st m in \<open>auto simp: download_missing_headers_from_node_def act_then_def\<close>)
qed

text \<open>The same for the whole: here an error has ended the thread.\<close>

fun done_at :: "(remote, NodeCustomErrors) result \<times> download \<Rightarrow> headers_thread \<times> download \<Rightarrow> bool" where
  "done_at (Ok node, t) y = (\<exists>hs found. y = (Batches hs node found, t) \<and> length hs \<noteq> 2000)"
| "done_at (Err e, t) y = (y = (HeadersEnded (Err e), t))"
| "done_at (Panic, t) y = (y = (HeadersEnded Panic, t))"

lemma from_nodes_steps_thread:
  "\<exists>y. (headers_step cr parse_date config)\<^sup>*\<^sup>* (FirstBatch node, s) y \<and>
     done_at (missing_headers_from_nodes cr parse_date config node s) y"
proof (induction "length (dl_nodes s)" arbitrary: node s rule: less_induct)
  case (less s node)
  let ?step = "headers_step cr parse_date config"
  obtain r t where m: "download_missing_headers_from_node cr parse_date config node s = (r, t)" by fastforce
  have n: "dl_nodes t = dl_nodes s"
    by (rule headers_by_nodes [OF steps_by_run [OF missing_headers_steps m]])
  from from_node_steps_thread [of cr parse_date config node s] m obtain y where
      y: "?step\<^sup>*\<^sup>* (FirstBatch node, s) y" "left_at (r, t) y"
    by auto
  have next_node: "\<exists>z. ?step\<^sup>*\<^sup>* (NextNode, t) z \<and>
      done_at (act_then get_node (missing_headers_from_nodes cr parse_date config) t) z"
  proof (cases "dl_nodes t = []")
    case True
    have "?step (NextNode, t) (HeadersEnded (Err (BlockchainDownloadError ''Error there are no more nodes available'')), t)"
      using headers_step_move [of NextNode cr parse_date config t] True by (simp add: get_node_def)
    with True show ?thesis
      by (auto simp: act_then_def get_node_def)
  next
    case False
    let ?t = "t\<lparr>dl_nodes := butlast (dl_nodes t)\<rparr>"
    have "?step (NextNode, t) (FirstBatch (last (dl_nodes t)), ?t)"
      using headers_step_move [of NextNode cr parse_date config t] False by (simp add: get_node_def)
    moreover from less [of ?t "last (dl_nodes t)"] False n obtain z where
        "?step\<^sup>*\<^sup>* (FirstBatch (last (dl_nodes t)), ?t) z"
        "done_at (missing_headers_from_nodes cr parse_date config (last (dl_nodes t)) ?t) z"
      by auto
    ultimately show ?thesis
      using False by (intro exI [of _ z]) (auto simp: act_then_def get_node_def intro: converse_rtranclp_into_rtranclp)
  qed
  show ?case
  proof (cases "\<exists>e. r = Err e \<and> headers_failed e = NextNode")
    case True
    then obtain e where e: "r = Err e" "headers_failed e = NextNode" by blast
    then have "missing_headers_from_nodes cr parse_date config node s =
        act_then get_node (missing_headers_from_nodes cr parse_date config) t"
      using m by (cases e) (simp_all add: missing_headers_from_nodes.simps [of cr parse_date config node])
    with e y next_node show ?thesis
      by (auto intro: rtranclp_trans)
  next
    case False
    show ?thesis
    proof (cases r)
      case (Err e)
      with False have "\<exists>msg. e = ThreadChannelError msg"
        by (cases e) simp_all
      with Err y m show ?thesis
        by (auto simp: missing_headers_from_nodes.simps [of cr parse_date config node])
    qed (use y m in \<open>auto simp: missing_headers_from_nodes.simps [of cr parse_date config node]\<close>)
  qed
qed

lemma headers_thread_result:
  assumes "download_missing_headers cr parse_date config s = (r, t)"
  shows "(headers_step cr parse_date config)\<^sup>*\<^sup>* (NextNode, s) (HeadersEnded r, t)"
proof (cases "dl_nodes s = []")
  case True
  with assms headers_step_move [of NextNode cr parse_date config s] show ?thesis
    by (auto simp: download_missing_headers_def act_then_def get_node_def)
next
  case False
  let ?step = "headers_step cr parse_date config"
  let ?s = "s\<lparr>dl_nodes := butlast (dl_nodes s)\<rparr>" and ?node = "last (dl_nodes s)"
  have first: "?step (NextNode, s) (FirstBatch ?node, ?s)"
    using headers_step_move [of NextNode cr parse_date config s] False by (simp add: get_node_def)
  obtain r' u where m: "missing_headers_from_nodes cr parse_date config ?node ?s = (r', u)" by fastforce
  with from_nodes_steps_thread [of cr parse_date config ?node ?s] obtain y where
      y: "?step\<^sup>*\<^sup>* (FirstBatch ?node, ?s) y" "done_at (r', u) y"
    by auto
  have "?step\<^sup>*\<^sup>* y (HeadersEnded r, t)"
  proof (cases r')
    case (Ok node)
    with y(2) obtain hs found where "y = (Batches hs node found, u)" "length hs \<noteq> 2000"
      by auto
    with headers_step_move [of "Batches hs node found" cr parse_date config u] assms m Ok False show ?thesis
      by (auto simp: download_missing_headers_def get_node_def action_simps act_then_def)
  qed (use y(2) assms m False in \<open>auto simp: download_missing_headers_def get_node_def act_then_def\<close>)
  with first y(1) show ?thesis
    by (meson converse_rtranclp_into_rtranclp rtranclp_trans)
qed

lemma headers_steps_run:
  assumes "(headers_step cr parse_date config)\<^sup>*\<^sup>* (h, s) (h', t)"
  shows "\<exists>n. ibd_run cr parse_date config (replicate n HeadersMove) \<lparr>shared_data = s, headers_state = h, blocks_state = b\<rparr> =
    \<lparr>shared_data = t, headers_state = h', blocks_state = b\<rparr>"
  using assms
proof (induction "(h, s)" arbitrary: h s rule: converse_rtranclp_induct)
  case base
  then show ?case by (intro exI [of _ 0]) simp
next
  case (step z)
  obtain h1 s1 where z: "z = (h1, s1)" by (cases z)
  from step(3) [OF z] obtain n where n: "ibd_run cr parse_date config (replicate n HeadersMove)
      \<lparr>shared_data = s1, headers_state = h1, blocks_state = b\<rparr> = \<lparr>shared_data = t, headers_state = h', blocks_state = b\<rparr>"
    by blast
  have "ibd_move cr parse_date config HeadersMove \<lparr>shared_data = s, headers_state = h, blocks_state = b\<rparr> =
      Some \<lparr>shared_data = s1, headers_state = h1, blocks_state = b\<rparr>"
    using step(1) by (cases h) (auto simp: headers_step_def z simp del: headers_move.simps)
  with n show ?case by (intro exI [of _ "Suc n"]) simp
qed

end
