(* ===== verification/Ibd_Properties.thy ===== *)
theory Ibd_Properties
  imports Ibd_Facts
begin

section \<open>Properties of the initial block download: statements\<close>

text \<open>What the start of the node relies on, proved from the lemmas on the threads.\<close>

subsection \<open>A chain that fits in one batch\<close>

text \<open>The states of a download whose header thread gets a single, short batch.\<close>

definition only_one_batch :: "crypto \<Rightarrow> remote list \<Rightarrow> remote \<Rightarrow> BlockHeader list \<Rightarrow> ibd \<Rightarrow> bool" where
  "only_one_batch cr nodes node b x \<longleftrightarrow>
     blocks_state x = Waiting \<and> dl_queue (shared_data x) = [] \<and> dl_headers (shared_data x) \<noteq> [] \<and>
     (case headers_state x of
        NextNode \<Rightarrow> dl_nodes (shared_data x) = nodes @ [node]
      | FirstBatch n \<Rightarrow> serves cr [b] n
      | Batches hs n found \<Rightarrow> length hs \<noteq> 2000
      | HeadersEnded r \<Rightarrow> r = Ok ())"

lemma only_one_batch_move:
  assumes "digest_lengths cr" and "serves cr [b] node" and "batch_ok cr b" and "length b \<noteq> 2000"
    and "only_one_batch cr nodes node b x" and "ibd_move cr parse_date config a x = Some y"
  shows "only_one_batch cr nodes node b y"
proof (cases a)
  case HeadersMove
  from ibd_headers_move [OF assms(6) [unfolded HeadersMove]] obtain h s where
      m: "headers_move cr parse_date config (headers_state x) (shared_data x) = (h, s)"
      and y: "y = x\<lparr>shared_data := s, headers_state := h\<rparr>" and r: "headers_result (headers_state x) = None"
    by blast
  show ?thesis
  proof (cases "headers_state x")
    case (FirstBatch n)
    with assms(5) have n: "serves cr [b] n" "dl_headers (shared_data x) \<noteq> []"
      by (simp_all add: only_one_batch_def)
    from first_batch_served [OF n(1) assms(3) checksum_length [OF assms(1)] n(2), of config] obtain n' t where
        t: "first_batch cr config n (shared_data x) = (Ok (b, n', False), t)" "dl_headers t \<noteq> []"
      by blast
    from first_batch_stored [OF t(1)] t m y FirstBatch assms(4,5) show ?thesis
      by (auto simp: only_one_batch_def stored_def)
  next
    case (HeadersEnded r')
    with r show ?thesis by simp
  qed (use assms(2,5) m y in \<open>auto simp: only_one_batch_def get_node_def action_simps\<close>)
qed (use assms(5,6) in \<open>simp_all add: only_one_batch_def\<close>)

lemma only_one_batch_run:
  assumes "digest_lengths cr" and "serves cr [b] node" and "batch_ok cr b" and "length b \<noteq> 2000"
  shows "only_one_batch cr nodes node b x \<Longrightarrow> only_one_batch cr nodes node b (ibd_run cr parse_date config schedule x)"
proof (induction schedule arbitrary: x)
  case (Cons a schedule)
  then show ?case
    using only_one_batch_move [OF assms Cons.prems] by (simp split: option.split)
qed simp

subsection \<open>Properties\<close>

text \<open>
  C11. Soundness of the download, in both modes and under every schedule: when it returns a
  blockchain, the headers start with the genesis header and every later one has passed the
  proof-of-work check, except those that were read from the file; every block is valid and stored
  under its hash; and the UTXO set is well formed and is the result of applying the transactions of
  the received blocks, in the order in which they were received.
\<close>

theorem initial_download_sound:
  assumes "digest_lengths cr"
    and "initial_block_download cr parse_date config disk created schedule nodes = Some (Ok bc, t)"
  shows "(\<exists>first rest. headers bc = GENESIS_BLOCK_HEADER # first @ rest \<and> list_all (meets_target cr) rest \<and>
      (\<not> (read_headers_from_disk config \<and> disk \<noteq> None) \<longrightarrow> list_all (meets_target cr) first)) \<and>
    (\<forall>h b. blocks bc h = Some b \<longrightarrow> Block_hash cr b = h \<and> wf_block b \<and> valid_block cr b) \<and>
    wf_utxos (bc_utxo_set bc) \<and>
    utxo_view (bc_utxo_set bc) = fold (apply_tx cr) (concat (map txn (concat (dl_utxo_queue t)))) Map.empty"
proof -
  have "checked cr = meets_target cr"
    using BlockHeader_validate_iff hash_lengths(1) [OF assms(1)] by (auto simp: checked_def fun_eq_iff)
  moreover have "wf_utxos Map.empty" "utxo_view Map.empty = Map.empty"
    by (simp_all add: wf_utxos_def utxo_view_def fun_eq_iff)
  ultimately show ?thesis
    using initial_download_result [OF assms] fold_utxos_after [of Map.empty cr "concat (dl_utxo_queue t)"]
    by (simp add: good_blocks_def good_block_def)
qed




text \<open>
  C40. With several nodes the program does not start when the peer has fewer than 2000 further
  headers: the first batch is never sent to the block thread, which holds a sender of its own
  channel and waits in it for ever. No schedule lets the download return.
\<close>

theorem short_chain_hangs:
  assumes "dl_nodes s = nodes @ [node]" and "serves cr [b] node" and "batch_ok cr b" and "length b \<noteq> 2000"
    and "dl_headers s \<noteq> []" and "dl_queue s = []" and "digest_lengths cr"
  shows "download_full_blockchain_from_multiple_nodes cr parse_date config schedule utxo s = None"
proof -
  define x where "x = ibd_run cr parse_date config schedule (ibd_start s)"
  have "only_one_batch cr nodes node b (ibd_start s)"
    using assms by (simp add: only_one_batch_def ibd_start_def)
  then have "only_one_batch cr nodes node b x"
    unfolding x_def by (rule only_one_batch_run [OF assms(7,2-4)])
  then have "blocks_state x = Waiting" "\<forall>r. headers_result (headers_state x) = Some r \<longrightarrow> r = Ok ()"
    by (auto simp: only_one_batch_def split: headers_thread.splits)
  then have "join_threads [headers_result (headers_state x), blocks_result (blocks_state x)] = None"
    by (cases "headers_result (headers_state x)") simp_all
  then show ?thesis
    by (simp add: download_full_blockchain_from_multiple_nodes_def x_def [symmetric])
qed

text \<open>
  The UTXO set depends on the order in which the blocks arrive: when the block that spends an
  output comes before the one that creates it (the download threads of a batch send their groups as
  they get them), the output stays in the set although it is spent.
\<close>

theorem utxo_set_depends_on_order:
  assumes "txn c = [tc]" and "txn p = [tp]" and "tx_in tc \<noteq> []" and "tx_in tp \<noteq> []"
    and "\<not> is_coinbase tp" and "(Transaction_hash cr tc, i) \<in> spent_by tp" and "i < length (tx_out tc)"
    and "Transaction_hash cr tp \<noteq> Transaction_hash cr tc"
  shows "\<exists>m m'. load_utxo_set cr [[c], [p]] Map.empty = Ok m \<and> load_utxo_set cr [[p], [c]] Map.empty = Ok m' \<and>
    utxo_view m (Transaction_hash cr tc, i) = None \<and>
    utxo_view m' (Transaction_hash cr tc, i) = Some (tx_out tc ! i)"
proof -
  have m: "load_utxo_set cr [[c], [p]] Map.empty = Ok (fold (utxos_after cr) [c, p] Map.empty)"
      "load_utxo_set cr [[p], [c]] Map.empty = Ok (fold (utxos_after cr) [p, c] Map.empty)"
    using assms by (simp_all add: load_utxo_set_eq)
  have "wf_utxos Map.empty" "finite (dom (Map.empty :: utxo_map))"
    by (simp_all add: wf_utxos_def)
  note views = fold_utxos_after [OF this, of cr "[c, p]"] fold_utxos_after [OF this, of cr "[p, c]"]
  have "utxo_view (fold (utxos_after cr) [c, p] Map.empty) (Transaction_hash cr tc, i) = None"
      "utxo_view (fold (utxos_after cr) [p, c] Map.empty) (Transaction_hash cr tc, i) = Some (tx_out tc ! i)"
    using views assms by (simp_all add: apply_tx_def create_def spend_def)
  with m show ?thesis by blast
qed


subsection \<open>Samples\<close>

definition sample_short_remote :: remote where
  "sample_short_remote =
     \<lparr>stream = \<lparr>inp = headers_stream sample_crypto [[sample_header]], outp = []\<rparr>, writes_left = None\<rparr>"

lemma sample_short_facts: "serves sample_crypto [[sample_header]] sample_short_remote" "batch_ok sample_crypto [sample_header]"
  using sample_batch_facts(3) by (auto simp: serves_def sample_short_remote_def sample_batches_def)

theorem short_chain_hangs_witness:
  "download_full_blockchain_from_multiple_nodes sample_crypto (\<lambda>d f. Ok 0) initial_config
     [HeadersMove, HeadersMove, BlocksMove, HeadersMove, HeadersMove, BlocksMove] Map.empty
     (sample_download [sample_remote, sample_short_remote]) = None"
  by (rule short_chain_hangs [of _ "[sample_remote]" sample_short_remote, OF _ sample_short_facts])
    (simp_all add: sample_download_def sample_digest_lengths)

definition sample_creator :: Transaction where
  "sample_creator = Transaction_new 0 (CompactSizeUint_new 1) [incomplete_txin (Outpoint_new (replicate 32 1) 0)]
     (CompactSizeUint_new 1) [TxOut_new 5 (CompactSizeUint_new 0) []] 0"

definition sample_spender :: Transaction where
  "sample_spender = Transaction_new 7 (CompactSizeUint_new 1)
     [incomplete_txin (Outpoint_new (Transaction_hash sample_crypto sample_creator) 0)] (CompactSizeUint_new 0) [] 0"

theorem utxo_set_depends_on_order_witness:
  "\<exists>m m'. load_utxo_set sample_crypto [[sample_block\<lparr>txn := [sample_creator]\<rparr>], [sample_block\<lparr>txn := [sample_spender]\<rparr>]] Map.empty = Ok m \<and>
    load_utxo_set sample_crypto [[sample_block\<lparr>txn := [sample_spender]\<rparr>], [sample_block\<lparr>txn := [sample_creator]\<rparr>]] Map.empty = Ok m' \<and>
    utxo_view m (Transaction_hash sample_crypto sample_creator, 0) = None \<and>
    utxo_view m' (Transaction_hash sample_crypto sample_creator, 0) = Some (TxOut_new 5 (CompactSizeUint_new 0) [])"
proof -
  let ?c = "sample_block\<lparr>txn := [sample_creator]\<rparr>" and ?p = "sample_block\<lparr>txn := [sample_spender]\<rparr>"
  have "hd (Transaction_hash sample_crypto t) = hd (Transaction_marshalling t)" if "Transaction_marshalling t \<noteq> []" for t
    using that by (cases "Transaction_marshalling t")
      (simp_all add: Transaction_hash_def hash_message_def sha256d_def sample_crypto_def)
  moreover have "hd (Transaction_marshalling sample_creator) \<noteq> hd (Transaction_marshalling sample_spender)"
      "Transaction_marshalling sample_creator \<noteq> []" "Transaction_marshalling sample_spender \<noteq> []"
    by (simp_all add: Transaction_marshalling_def sample_creator_def sample_spender_def Transaction_new_def compute)
  ultimately have ne: "Transaction_hash sample_crypto sample_spender \<noteq> Transaction_hash sample_crypto sample_creator"
    by metis
  have c: "tx_in sample_creator \<noteq> []" "0 < length (tx_out sample_creator)"
      "tx_out sample_creator ! 0 = TxOut_new 5 (CompactSizeUint_new 0) []"
    by (simp_all add: sample_creator_def Transaction_new_def)
  have p: "tx_in sample_spender \<noteq> []" "\<not> is_coinbase sample_spender"
      "(Transaction_hash sample_crypto sample_creator, 0) \<in> spent_by sample_spender"
    by (simp_all add: sample_spender_def Transaction_new_def incomplete_txin_def TxIn_new_def is_coinbase_def
        TxIn_is_coinbase_def spent_by_def get_previous_output_hash_def get_previous_output_index_def Outpoint_new_def
        Outpoint_hash_def Outpoint_index_def)
  show ?thesis
    using utxo_set_depends_on_order [of ?c sample_creator ?p sample_spender sample_crypto 0, OF _ _ c(1) p c(2) ne]
    by (simp add: c(3))
qed


lemma served_initial_download:
  assumes "serves sample_crypto [[sample_header]] node" and "\<not> read_headers_from_disk config" and "headers_in_disk config = 0"
  shows "\<exists>bc t. initial_block_download sample_crypto (\<lambda>d f. Ok 0) config disk (Ok ()) [] [node] = Some (Ok bc, t) \<and>
     headers bc = [GENESIS_BLOCK_HEADER, sample_header] \<and> bc_utxo_set bc = Map.empty"
proof -
  obtain s where g: "get_initial_headers sample_crypto config disk (Ok ()) (download_start [node]) = (Ok (), s)"
      and s: "dl_nodes s = [] @ [node]" "dl_headers s = [GENESIS_BLOCK_HEADER]" "dl_queue_open s"
        "dl_queue s = []" "dl_utxo_queue s = []"
    using assms(2,3)
    by (simp add: get_initial_headers_def download_and_persist_headers_def action_simps act_then_def
        get_node_def persist_from_nodes.simps download_and_persist_initial_headers_from_node.simps download_start_def)
  have ts: "get_first_block_timestamp (\<lambda>d f. Ok 0) config = Ok 0"
    by (simp add: get_first_block_timestamp_def)
  have "full_but_last [[sample_header]]"
    by (simp add: full_but_last_def)
  with download_missing_headers_served [OF s(1) assms(1) _ sample_short_facts(2) _ _ s(3) ts
      checksum_length [OF sample_digest_lengths]] s(2) obtain node' t where
      t: "download_missing_headers sample_crypto (\<lambda>d f. Ok 0) config s = (Ok (), t)"
        "stored sample_crypto s [sample_header] [] t" "dl_nodes t = [node']" "dl_utxo_queue t = []"
    using s(5) by auto
  then have "\<exists>u. download_full_blockchain_from_single_node sample_crypto (\<lambda>d f. Ok 0) config Map.empty s = (Ok Map.empty, u) \<and>
      dl_headers u = [GENESIS_BLOCK_HEADER, sample_header]"
    using s(2,4) by (simp add: download_full_blockchain_from_single_node_def action_simps act_then_def get_node_def
        stored_def load_utxo_set_def)
  with g s(1) show ?thesis
    by (auto simp: initial_block_download_def Blockchain_new_def)
qed

theorem initial_download_sound_witness:
  "\<exists>bc t. initial_block_download sample_crypto (\<lambda>d f. Ok 0) initial_config None (Ok ()) [] [sample_short_remote] = Some (Ok bc, t) \<and>
     headers bc = [GENESIS_BLOCK_HEADER, sample_header] \<and> meets_target sample_crypto sample_header \<and> wf_utxos (bc_utxo_set bc)"
proof -
  have c: "\<not> read_headers_from_disk initial_config" "headers_in_disk initial_config = 0"
    by (simp_all add: initial_config_def)
  obtain bc t where d: "initial_block_download sample_crypto (\<lambda>d f. Ok 0) initial_config None (Ok ()) []
      [sample_short_remote] = Some (Ok bc, t)" "headers bc = [GENESIS_BLOCK_HEADER, sample_header]"
    using served_initial_download [OF sample_short_facts(1) c] by blast
  from initial_download_sound [OF sample_digest_lengths d(1)] d show ?thesis
    by (auto simp: Cons_eq_append_conv)
qed

end
