(* ===== verification/Handshake.thy ===== *)
theory Handshake
  imports Remote
begin

section \<open>Peer addresses and the handshake (src/network.rs, handshake.rs)\<close>

text \<open>
  The addresses to connect to, the exchange of messages that opens a connection, and the threads
  that connect in parallel, each to its part of the addresses. The threads share one list of
  connections. A schedule is the sequence of the threads that make a move: every interleaving of
  their moves is a schedule.
\<close>

subsection \<open>IPv4 addresses\<close>

text \<open>\<open>Ipv4Addr::from_str\<close>: four decimal numbers of at most three digits, without leading zeros.\<close>

definition ipv4_octet :: "string \<Rightarrow> u8 option" where
  "ipv4_octet s =
     (if s = [] \<or> 3 < length s \<or> (1 < length s \<and> hd s = CHR ''0'') \<or> \<not> list_all (\<lambda>c. dec_val c \<noteq> None) s
      then None
      else case u8_from_str s of Ok b \<Rightarrow> Some b | _ \<Rightarrow> None)"

definition ipv4_from_str :: "string \<Rightarrow> (bytes, string) result" where
  "ipv4_from_str s =
     (let os = map ipv4_octet (split_on CHR ''.'' s)
      in if length os = 4 \<and> None \<notin> set os then Ok (somes os) else Err ''invalid IPv4 address syntax'')"

definition get_nodes_from_dns_seed ::
  "net \<Rightarrow> Config \<Rightarrow> bytes list \<Rightarrow> (bytes list, NodeCustomErrors) result" where
  "get_nodes_from_dns_seed net config node_ips =
     and_then (map_err SocketError (to_socket_addrs net (dns_seed config) (net_port config))) (\<lambda>addrs.
     Ok (node_ips @ somes (map (\<lambda>a. case a of V4 ip port \<Rightarrow> Some ip | V6 segs port \<Rightarrow> None) addrs)))"

definition get_active_nodes_from_dns_seed :: "net \<Rightarrow> Config \<Rightarrow> (bytes list, NodeCustomErrors) result" where
  "get_active_nodes_from_dns_seed net config =
     and_then (if connect_to_dns_nodes config then get_nodes_from_dns_seed net config [] else Ok []) (\<lambda>node_ips.
     Ok (node_ips @ somes (map (\<lambda>custom_node. case ipv4_from_str custom_node of Ok ip \<Rightarrow> Some ip | _ \<Rightarrow> None)
                             (custom_nodes_ips config))))"

subsection \<open>One connection\<close>

definition connect_to_node :: "crypto \<Rightarrow> net \<Rightarrow> Config \<Rightarrow> bytes \<Rightarrow> (remote, string) result" where
  "connect_to_node cr net config node_ip =
     (let socket_addr = V4 node_ip (net_port config) in
      and_then (dial net socket_addr) (\<lambda>(local_ip_addr, s).
      and_then (get_version_message cr (clock net socket_addr) (random net socket_addr) config
                  socket_addr local_ip_addr) (\<lambda>version_message.
      and_then (sending (VersionMessage_write_to version_message) s) (\<lambda>s.
      and_then (receiving (VersionMessage_read_from cr) s) (\<lambda>(_, s).
      and_then (sending (write_verack_message cr) s) (\<lambda>s.
      and_then (receiving (read_verack_message cr) s) (\<lambda>(_, s).
      sending (write_sendheaders_message cr) s)))))))"

subsection \<open>The threads\<close>

text \<open>One turn of the loop of \<open>connect_to_nodes\<close>, and the check after the loop.\<close>

definition connect_next :: "crypto \<Rightarrow> net \<Rightarrow> Config \<Rightarrow> bytes \<Rightarrow> remote list \<Rightarrow> (remote list, NodeCustomErrors) result" where
  "connect_next cr net config node sockets =
     (case connect_to_node cr net config node of
        Ok s \<Rightarrow> Ok (sockets @ [s])
      | Err err \<Rightarrow> Ok sockets
      | Panic \<Rightarrow> Panic)"

definition any_connection :: "remote list \<Rightarrow> (unit, NodeCustomErrors) result" where
  "any_connection sockets =
     (if sockets = [] then Err (HandshakeError ''Any connection could be made'') else Ok ())"

datatype thread = Connecting "bytes list" | Finished "(unit, NodeCustomErrors) result"

record handshake =
  sockets :: "remote list"
  workers :: "thread list"

text \<open>A move of thread \<open>i\<close> of \<open>connect_to_nodes\<close>; a thread that has finished does not move.\<close>

definition connect_to_nodes :: "crypto \<Rightarrow> net \<Rightarrow> Config \<Rightarrow> nat \<Rightarrow> handshake \<Rightarrow> handshake" where
  "connect_to_nodes cr net config i s =
     (if i < length (workers s) then
        (case workers s ! i of
           Connecting (node # nodes) \<Rightarrow>
             (case connect_next cr net config node (sockets s) of
                Ok ss \<Rightarrow> s\<lparr>sockets := ss, workers := (workers s)[i := Connecting nodes]\<rparr>
              | Err e \<Rightarrow> s\<lparr>workers := (workers s)[i := Finished (Err e)]\<rparr>
              | Panic \<Rightarrow> s\<lparr>workers := (workers s)[i := Finished Panic]\<rparr>)
         | Connecting [] \<Rightarrow> s\<lparr>workers := (workers s)[i := Finished (any_connection (sockets s))]\<rparr>
         | Finished r \<Rightarrow> s)
      else s)"

text \<open>The threads are joined in order; \<open>None\<close> while the one that is awaited still runs.\<close>

fun join_workers :: "thread list \<Rightarrow> (unit, NodeCustomErrors) result option" where
  "join_workers [] = Some (Ok ())"
| "join_workers (Connecting nodes # ws) = None"
| "join_workers (Finished (Ok _) # ws) = join_workers ws"
| "join_workers (Finished (Err e) # ws) = Some (Err e)"
| "join_workers (Finished Panic # ws) = Some (Err (ThreadJoinError ''Any { .. }''))"

definition handshake_start :: "Config \<Rightarrow> bytes list \<Rightarrow> (handshake, NodeCustomErrors) result" where
  "handshake_start config node_ips =
     and_then (chunks (equal_chunk_size (length node_ips) (n_threads config)) node_ips) (\<lambda>active_nodes_chunks.
     Ok \<lparr>sockets = [], workers = map Connecting (take (n_threads config) active_nodes_chunks)\<rparr>)"

definition handshake_with_nodes ::
  "crypto \<Rightarrow> net \<Rightarrow> Config \<Rightarrow> nat list \<Rightarrow> bytes list \<Rightarrow> (remote list, NodeCustomErrors) result option" where
  "handshake_with_nodes cr net config schedule node_ips =
     (case handshake_start config node_ips of
        Err e \<Rightarrow> Some (Err e)
      | Panic \<Rightarrow> Some Panic
      | Ok s \<Rightarrow>
          (let s = fold (connect_to_nodes cr net config) schedule s in
           map_option (\<lambda>r. and_then r (\<lambda>_. Ok (sockets s))) (join_workers (workers s))))"


subsection \<open>The exchange with a peer that follows the protocol\<close>

definition bare_header :: "string \<Rightarrow> bytes" where
  "bare_header name =
     START_STRING_TESTNET @ as_bytes (padded name) @ u32_to_le_bytes 0 @ CHECKSUM_EMPTY_PAYLOAD"

lemma write_bare_header:
  "length name \<le> 12 \<Longrightarrow>
     HeaderMessage_write_to (HeaderMessage_new cr name None) st = Ok (write_all (bare_header name) st)"
  by (simp add: HeaderMessage_write_to_def HeaderMessage_to_le_bytes_def HeaderMessage_new_def
      command_name_to_bytes_Ok bare_header_def)

lemma write_control:
  "write_verack_message cr st = Ok (write_all (bare_header ''verack'') st)"
  "write_sendheaders_message cr st = Ok (write_all (bare_header ''sendheaders'') st)"
  by (simp_all add: write_verack_message_def write_sendheaders_message_def write_bare_header)

text \<open>The bytes of a version message of the node.\<close>

definition version_message_bytes :: "VersionMessage \<Rightarrow> bytes" where
  "version_message_bytes m =
     start_string (vm_header m) @ as_bytes (padded ''version'') @ u32_to_le_bytes (payload_size (vm_header m)) @
     checksum (vm_header m) @ VersionPayload_to_le_bytes (vm_payload m)"

lemma write_own_version:
  "get_version_message cr now rnd config a b = Ok m \<Longrightarrow>
     VersionMessage_write_to m st = Ok (write_all (version_message_bytes m) st)"
  by (auto simp: get_version_message_def and_then_eq_Ok VersionMessage_write_to_def
      HeaderMessage_to_le_bytes_def command_name_to_bytes_Ok version_message_bytes_def)

definition framed :: "crypto \<Rightarrow> (string \<times> bytes) list \<Rightarrow> bytes" where
  "framed cr ms = concat (map (\<lambda>m. frame cr (fst m) (snd m)) ms)"

definition answers :: "crypto \<Rightarrow> (string \<times> bytes) list \<Rightarrow> bytes" where
  "answers cr ms = concat (map (answer cr) ms)"

lemma read_from_skips_framed:
  "command_ok wanted \<Longrightarrow> length (get_checksum cr payload) = 4 \<Longrightarrow> list_all (skippable cr wanted) ms \<Longrightarrow>
   HeaderMessage_read_from cr \<lparr>inp = framed cr ms @ frame cr wanted payload @ rest, outp = out\<rparr> wanted None =
     Ok (frame_head cr wanted payload, \<lparr>inp = payload @ rest, outp = out @ answers cr ms\<rparr>)"
  using read_from_skips [of wanted cr payload ms "payload @ rest" out]
  by (simp add: frame_def framed_def answers_def)

lemma control_names: "command_ok ''version''" "command_ok ''verack''"
  by (simp_all add: command_ok_def padded_def as_bytes_def compute)

lemma read_version_frame:
  assumes "length (get_checksum cr payload) = 4" and "list_all (skippable cr ''version'') ms"
    and "length payload < 2 ^ 32"
  shows "VersionMessage_read_from cr \<lparr>inp = framed cr ms @ frame cr ''version'' payload @ rest, outp = out\<rparr> =
    and_then (VersionPayload_from_le_bytes payload) (\<lambda>pv.
      Ok (\<lparr>vm_header = frame_head cr ''version'' payload, vm_payload = pv\<rparr>,
          \<lparr>inp = rest, outp = out @ answers cr ms\<rparr>))"
  using assms
  by (simp add: VersionMessage_read_from_def read_from_skips_framed control_names frame_head_def
      unat_of_nat read_exact_append)

lemma read_verack_frame:
  assumes "length (get_checksum cr []) = 4" and "list_all (skippable cr ''verack'') ms"
  shows "read_verack_message cr \<lparr>inp = framed cr ms @ frame cr ''verack'' [] @ rest, outp = out\<rparr> =
    Ok (frame_head cr ''verack'' [], \<lparr>inp = rest, outp = out @ answers cr ms\<rparr>)"
  using assms read_from_skips_framed [of "''verack''" cr "[]"] control_names
  by (simp add: read_verack_message_def)

lemma connect_to_honest_node:
  assumes "dial net (V4 ip (net_port config)) =
      Ok (own, \<lparr>stream = \<lparr>inp = framed cr ms @ frame cr ''version'' (VersionPayload_to_le_bytes pv) @
                           framed cr ms' @ frame cr ''verack'' [] @ rest, outp = []\<rparr>, writes_left = None\<rparr>)"
    and "get_version_message cr (clock net (V4 ip (net_port config))) (random net (V4 ip (net_port config)))
           config (V4 ip (net_port config)) own = Ok m"
    and "list_all (skippable cr ''version'') ms" and "list_all (skippable cr ''verack'') ms'"
    and "wf_version pv" and "length (VersionPayload_to_le_bytes pv) < 2 ^ 32"
    and "\<And>p. length (get_checksum cr p) = 4"
  shows "connect_to_node cr net config ip =
    Ok \<lparr>stream = \<lparr>inp = rest, outp = version_message_bytes m @ answers cr ms @ bare_header ''verack'' @
                   answers cr ms' @ bare_header ''sendheaders''\<rparr>, writes_left = None\<rparr>"
  using assms
  by (simp add: connect_to_node_def Let_def sending_def receiving_def write_own_version write_all_def
      read_version_frame version_payload_reads_back write_control read_verack_frame)

lemma connect_short_version:
  assumes "dial net (V4 ip (net_port config)) =
      Ok (own, \<lparr>stream = \<lparr>inp = framed cr ms @ frame cr ''version'' payload @ rest, outp = out\<rparr>, writes_left = None\<rparr>)"
    and "get_version_message cr (clock net (V4 ip (net_port config))) (random net (V4 ip (net_port config)))
           config (V4 ip (net_port config)) own = Ok m"
    and "list_all (skippable cr ''version'') ms" and "length payload < 80" and "length (get_checksum cr payload) = 4"
  shows "connect_to_node cr net config ip = Panic"
  using assms
  by (simp add: connect_to_node_def Let_def sending_def receiving_def write_own_version write_all_def
      read_version_frame short_version_panics)

subsection \<open>Every interleaving\<close>

definition attempt :: "crypto \<Rightarrow> net \<Rightarrow> Config \<Rightarrow> bytes \<Rightarrow> remote option" where
  "attempt cr net config ip = (case connect_to_node cr net config ip of Ok s \<Rightarrow> Some s | _ \<Rightarrow> None)"

lemma attempt_simps:
  "connect_to_node cr net config ip = Ok s \<Longrightarrow> attempt cr net config ip = Some s"
  "connect_to_node cr net config ip = Err e \<Longrightarrow> attempt cr net config ip = None"
  by (simp_all add: attempt_def)

fun remaining :: "thread \<Rightarrow> bytes list" where
  "remaining (Connecting ips) = ips"
| "remaining (Finished r) = []"

definition pool :: "crypto \<Rightarrow> net \<Rightarrow> Config \<Rightarrow> handshake \<Rightarrow> remote multiset" where
  "pool cr net config s =
     mset (sockets s) + (\<Sum>w \<leftarrow> workers s. mset (somes (map (attempt cr net config) (remaining w))))"

lemma sum_list_update_add:
  fixes f :: "'a \<Rightarrow> 'b multiset"
  assumes "i < length xs" and "f (xs ! i) = f x + d"
  shows "(\<Sum>w \<leftarrow> xs. f w) = (\<Sum>w \<leftarrow> xs[i := x]. f w) + d"
proof -
  have "xs = take i xs @ xs ! i # drop (Suc i) xs"
    using assms(1) by (rule id_take_nth_drop)
  then have "(\<Sum>w \<leftarrow> xs. f w) = (\<Sum>w \<leftarrow> take i xs @ xs ! i # drop (Suc i) xs. f w)"
    by simp
  with assms show ?thesis
    by (simp add: upd_conv_take_nth_drop)
qed

definition calm :: "crypto \<Rightarrow> net \<Rightarrow> Config \<Rightarrow> handshake \<Rightarrow> bool" where
  "calm cr net config s \<longleftrightarrow> (\<forall>w \<in> set (workers s). \<forall>ip \<in> set (remaining w). connect_to_node cr net config ip \<noteq> Panic)"

lemma connect_to_nodes_pool:
  assumes "calm cr net config s"
  shows "pool cr net config (connect_to_nodes cr net config i s) = pool cr net config s \<and>
    calm cr net config (connect_to_nodes cr net config i s)"
proof (cases "i < length (workers s)")
  case i: True
  let ?f = "\<lambda>w. mset (somes (map (attempt cr net config) (remaining w)))"
  have sub: "w \<in> set ((workers s)[i := x]) \<Longrightarrow> w \<in> set (workers s) \<or> w = x" for w x
    using set_update_subset_insert [of "workers s" i x] by auto
  show ?thesis
  proof (cases "workers s ! i")
    case (Finished r)
    with assms show ?thesis by (simp add: connect_to_nodes_def)
  next
    case (Connecting ips)
    show ?thesis
    proof (cases ips)
      case Nil
      with sum_list_update_add [OF i, of ?f "Finished r" "{#}" for r] Connecting i assms show ?thesis
        by (auto simp: connect_to_nodes_def pool_def calm_def dest!: sub)
    next
      case (Cons ip ips')
      with Connecting i assms have np: "connect_to_node cr net config ip \<noteq> Panic"
          "\<forall>x \<in> set ips'. connect_to_node cr net config x \<noteq> Panic"
        by (force simp: calm_def dest: nth_mem)+
      have "?f (workers s ! i) = ?f (Connecting ips') + (case attempt cr net config ip of Some s \<Rightarrow> {#s#} | None \<Rightarrow> {#})"
        using Connecting Cons by (cases "attempt cr net config ip") simp_all
      from sum_list_update_add [OF i this] np Connecting Cons i assms show ?thesis
        by (cases "connect_to_node cr net config ip")
          (auto simp: connect_to_nodes_def connect_next_def attempt_simps pool_def calm_def dest!: sub)
    qed
  qed
qed (use assms in \<open>simp add: connect_to_nodes_def\<close>)

lemma run_pool:
  "calm cr net config s \<Longrightarrow> pool cr net config (fold (connect_to_nodes cr net config) schedule s) = pool cr net config s"
  by (induction schedule arbitrary: s) (simp_all add: connect_to_nodes_pool)

lemma join_workers_Ok: "join_workers ws = Some (Ok u) \<Longrightarrow> w \<in> set ws \<Longrightarrow> \<exists>r. w = Finished (Ok r)"
  by (induction ws rule: join_workers.induct) auto

lemma handshake_start_Ok:
  assumes "handshake_start config ips = Ok s" and "0 < n_threads config"
  shows "sockets s = []" and "concat (map remaining (workers s)) = ips" and "ips \<noteq> []"
proof -
  let ?k = "equal_chunk_size (length ips) (n_threads config)"
  from assms(1) have k: "0 < ?k"
    by (auto simp: handshake_start_def chunks_def and_then_eq_Ok split: if_splits)
  then show ne: "ips \<noteq> []"
    using assms(2) by (auto simp: equal_chunk_size_def)
  have "take (n_threads config) (chunk_list ?k ips) = chunk_list ?k ips"
    using equal_chunks_at_most [OF assms(2) ne] by simp
  with assms(1) k show "sockets s = []" "concat (map remaining (workers s)) = ips"
    by (auto simp: handshake_start_def chunks_def comp_def concat_chunk_list)
qed

lemma sum_list_somes:
  "(\<Sum>w \<leftarrow> ws. mset (somes (map f (g w)))) = mset (somes (map f (concat (map g ws))))"
  by (induction ws) simp_all


text \<open>A thread that has met a panic, or still has it ahead.\<close>

definition doomed :: "crypto \<Rightarrow> net \<Rightarrow> Config \<Rightarrow> thread \<Rightarrow> bool" where
  "doomed cr net config w \<longleftrightarrow>
     w = Finished Panic \<or> (\<exists>ip \<in> set (remaining w). connect_to_node cr net config ip = Panic)"

lemma connect_to_nodes_doomed:
  assumes "\<exists>w \<in> set (workers s). doomed cr net config w"
  shows "\<exists>w \<in> set (workers (connect_to_nodes cr net config i s)). doomed cr net config w"
proof -
  from assms obtain j where j: "j < length (workers s)" "doomed cr net config (workers s ! j)"
    by (metis in_set_conv_nth)
  let ?s = "connect_to_nodes cr net config i s"
  have len: "length (workers ?s) = length (workers s)"
    by (auto simp: connect_to_nodes_def split: thread.splits list.splits result.splits)
  have "doomed cr net config (workers ?s ! j)"
  proof (cases "i = j")
    case True
    with j show ?thesis
      by (auto simp: connect_to_nodes_def connect_next_def doomed_def
          split: thread.splits list.splits result.splits)
  next
    case False
    then have "workers ?s ! j = workers s ! j"
      by (auto simp: connect_to_nodes_def split: thread.splits list.splits result.splits)
    with j show ?thesis by simp
  qed
  with j(1) len show ?thesis
    by (metis nth_mem)
qed

lemma run_doomed:
  "\<exists>w \<in> set (workers s). doomed cr net config w \<Longrightarrow>
     \<exists>w \<in> set (workers (fold (connect_to_nodes cr net config) schedule s)). doomed cr net config w"
  by (induction schedule arbitrary: s) (simp_all add: connect_to_nodes_doomed)

lemma panic_prevents_handshake:
  assumes "0 < n_threads config" and "ip \<in> set ips" and "connect_to_node cr net config ip = Panic"
  shows "handshake_with_nodes cr net config schedule ips \<noteq> Some (Ok ss)"
proof
  assume "handshake_with_nodes cr net config schedule ips = Some (Ok ss)"
  then obtain s u where s: "handshake_start config ips = Ok s"
      and j: "join_workers (workers (fold (connect_to_nodes cr net config) schedule s)) = Some (Ok u)"
    by (auto simp: handshake_with_nodes_def and_then_eq_Ok Let_def split: result.splits)
  from handshake_start_Ok(2) [OF s assms(1)] assms(2) obtain w where "w \<in> set (workers s)" "ip \<in> set (remaining w)"
    by auto
  with assms(3) run_doomed [of s cr net config schedule] obtain w' where
      w': "w' \<in> set (workers (fold (connect_to_nodes cr net config) schedule s))" "doomed cr net config w'"
    by (auto simp: doomed_def)
  from join_workers_Ok [OF j w'(1)] w'(2) show False
    by (auto simp: doomed_def)
qed

lemma two_threads:
  assumes "n_threads config = 2"
    and "connect_to_node cr net config a = Err e" and "connect_to_node cr net config b = Ok s"
  shows "handshake_with_nodes cr net config [0, 0, 1, 1] [a, b] =
      Some (Err (HandshakeError ''Any connection could be made''))"
    and "handshake_with_nodes cr net config [1, 1, 0, 0] [a, b] = Some (Ok [s])"
  using assms
  by (simp_all add: handshake_with_nodes_def handshake_start_def chunks_def equal_chunk_size_def
      chunk_list.simps [of _ "_ # _"] connect_to_nodes_def connect_next_def any_connection_def Let_def)

subsection \<open>Properties\<close>

text \<open>
  A peer that answers as the protocol says (its version message, then its \<open>verack\<close>, each after
  any other messages) is connected: what the node has written to it is its own version message, then
  \<open>verack\<close>, then \<open>sendheaders\<close>, with the answers to the pings that came in between, and everything the
  peer sent after its \<open>verack\<close> is still to be read.
\<close>

theorem handshake_with_honest_peer:
  assumes "dial net (V4 ip (net_port config)) =
      Ok (own, \<lparr>stream = \<lparr>inp = framed cr ms @ frame cr ''version'' (VersionPayload_to_le_bytes pv) @
                           framed cr ms' @ frame cr ''verack'' [] @ rest, outp = []\<rparr>, writes_left = None\<rparr>)"
    and "get_version_message cr (clock net (V4 ip (net_port config))) (random net (V4 ip (net_port config)))
           config (V4 ip (net_port config)) own = Ok m"
    and "list_all (skippable cr ''version'') ms" and "list_all (skippable cr ''verack'') ms'"
    and "wf_version pv" and "length (VersionPayload_to_le_bytes pv) < 2 ^ 32"
    and "\<And>p. length (get_checksum cr p) = 4"
  shows "connect_to_node cr net config ip =
    Ok \<lparr>stream = \<lparr>inp = rest, outp = version_message_bytes m @ answers cr ms @ bare_header ''verack'' @
                   answers cr ms' @ bare_header ''sendheaders''\<rparr>, writes_left = None\<rparr>"
  by (rule connect_to_honest_node [OF assms])

definition sample_version :: VersionPayload where
  "sample_version =
     \<lparr>vp_version = 70015, services = 0, timestamp = 0, addr_recv_service = 0, addr_recv_ip = replicate 16 0,
      addr_recv_port = 18333, addr_trans_service = 0, addr_trans_ip = replicate 16 0, addr_trans_port = 18333,
      vp_nonce = 1, user_agent_bytes = CompactSizeUint_new 0, vp_user_agent = [], start_height = 0, relay = True\<rparr>"

text \<open>A network with a peer that refuses, one that follows the protocol, and one that sends too little.\<close>

definition sample_net :: net where
  "sample_net =
     \<lparr>dial = (\<lambda>a. case a of
        V4 ip port \<Rightarrow>
          if ip = [2, 2, 2, 2] then
            Ok (V4 [9, 9, 9, 9] 5, \<lparr>stream = \<lparr>inp = frame sample_crypto ''version'' (VersionPayload_to_le_bytes sample_version) @
              frame sample_crypto ''verack'' [] @ [7], outp = []\<rparr>, writes_left = None\<rparr>)
          else if ip = [3, 3, 3, 3] then
            Ok (V4 [9, 9, 9, 9] 5, \<lparr>stream = \<lparr>inp = frame sample_crypto ''version'' [1, 2, 3], outp = []\<rparr>, writes_left = None\<rparr>)
          else Err ''Connection refused (os error 111)''
      | V6 segs port \<Rightarrow> Err ''Connection refused (os error 111)''),
      clock = (\<lambda>a. Ok 0), random = (\<lambda>a. 7),
      to_socket_addrs = (\<lambda>host port. Ok [])\<rparr>"

lemma sample_checksum_length: "length (get_checksum sample_crypto p) = 4"
  by (simp add: get_checksum_def sha256d_def sample_crypto_def)

lemma sample_version_wf: "wf_version sample_version" "length (VersionPayload_to_le_bytes sample_version) < 2 ^ 32"
  using CompactSizeUint_new_wf [of 0]
  by (simp_all add: wf_version_def sample_version_def as_bytes_def VersionPayload_to_le_bytes_def
      CompactSizeUint_marshalling_def CompactSizeUint_value_def CompactSizeUint_new_def
      generate_compact_size_uint_def)

lemma sample_own_version:
  "\<exists>m. get_version_message sample_crypto (clock sample_net (V4 ip port)) (random sample_net (V4 ip port)) config
      (V4 ip port) own = Ok m"
  by (simp add: get_version_message_def get_version_payload_def sample_net_def)

lemma sample_dial:
  "dial sample_net (V4 [2, 2, 2, 2] port) = Ok (V4 [9, 9, 9, 9] 5,
      \<lparr>stream = \<lparr>inp = framed sample_crypto [] @ frame sample_crypto ''version'' (VersionPayload_to_le_bytes sample_version) @
              framed sample_crypto [] @ frame sample_crypto ''verack'' [] @ [7], outp = []\<rparr>, writes_left = None\<rparr>)"
  by (simp add: sample_net_def framed_def)

lemma sample_connects:
  "\<exists>s. connect_to_node sample_crypto sample_net config [2, 2, 2, 2] = Ok s"
  "connect_to_node sample_crypto sample_net config [1, 1, 1, 1] = Err ''Connection refused (os error 111)''"
proof -
  obtain m where m: "get_version_message sample_crypto (clock sample_net (V4 [2, 2, 2, 2] (net_port config)))
      (random sample_net (V4 [2, 2, 2, 2] (net_port config))) config
      (V4 [2, 2, 2, 2] (net_port config)) (V4 [9, 9, 9, 9] 5) = Ok m"
    using sample_own_version by blast
  show "\<exists>s. connect_to_node sample_crypto sample_net config [2, 2, 2, 2] = Ok s"
    using connect_to_honest_node [OF sample_dial m _ _ sample_version_wf sample_checksum_length] by simp
  show "connect_to_node sample_crypto sample_net config [1, 1, 1, 1] = Err ''Connection refused (os error 111)''"
    by (simp add: connect_to_node_def sample_net_def Let_def)
qed

theorem handshake_with_honest_peer_witness:
  "\<exists>r. connect_to_node sample_crypto sample_net initial_config [2, 2, 2, 2] = Ok r \<and> inp (stream r) = [7]"
proof -
  obtain m where m: "get_version_message sample_crypto (clock sample_net (V4 [2, 2, 2, 2] (net_port initial_config)))
      (random sample_net (V4 [2, 2, 2, 2] (net_port initial_config))) initial_config
      (V4 [2, 2, 2, 2] (net_port initial_config)) (V4 [9, 9, 9, 9] 5) = Ok m"
    using sample_own_version by blast
  from handshake_with_honest_peer [OF sample_dial m _ _ sample_version_wf sample_checksum_length] show ?thesis
    by simp
qed

text \<open>
  C20. However the threads interleave, a handshake that succeeds returns each connection that could be
  made exactly once: the connections are those of the addresses whose exchange succeeds.
\<close>

theorem handshake_collects_connections:
  assumes "0 < n_threads config" and "\<forall>ip \<in> set ips. connect_to_node cr net config ip \<noteq> Panic"
    and "handshake_with_nodes cr net config schedule ips = Some (Ok ss)"
  shows "mset ss = mset (somes (map (attempt cr net config) ips))"
proof -
  from assms(3) obtain s u where s: "handshake_start config ips = Ok s"
      and j: "join_workers (workers (fold (connect_to_nodes cr net config) schedule s)) = Some (Ok u)"
      and ss: "ss = sockets (fold (connect_to_nodes cr net config) schedule s)"
    by (auto simp: handshake_with_nodes_def and_then_eq_Ok Let_def split: result.splits)
  let ?t = "fold (connect_to_nodes cr net config) schedule s"
  note start = handshake_start_Ok [OF s assms(1)]
  have "calm cr net config s"
    using assms(2) start(2) by (fastforce simp: calm_def)
  then have "pool cr net config ?t = pool cr net config s"
    by (rule run_pool)
  moreover have "\<forall>w \<in> set (workers ?t). remaining w = []"
    using join_workers_Ok [OF j] by force
  then have "pool cr net config ?t = mset ss"
    by (simp add: pool_def ss cong: map_cong)
  ultimately show ?thesis
    using start by (simp add: pool_def sum_list_somes)
qed

theorem handshake_collects_connections_witness:
  "\<exists>s. handshake_with_nodes sample_crypto sample_net (initial_config\<lparr>n_threads := 2\<rparr>) [1, 1, 0, 0]
       [[1, 1, 1, 1], [2, 2, 2, 2]] = Some (Ok [s]) \<and>
     {#s#} = mset (somes (map (attempt sample_crypto sample_net (initial_config\<lparr>n_threads := 2\<rparr>)) [[1, 1, 1, 1], [2, 2, 2, 2]]))"
proof -
  let ?c = "initial_config\<lparr>n_threads := 2\<rparr>"
  obtain s where s: "connect_to_node sample_crypto sample_net ?c [2, 2, 2, 2] = Ok s"
    using sample_connects(1) by blast
  have h: "handshake_with_nodes sample_crypto sample_net ?c [1, 1, 0, 0] [[1, 1, 1, 1], [2, 2, 2, 2]] = Some (Ok [s])"
    by (rule two_threads(2) [OF _ sample_connects(2) s]) simp
  have "mset [s] = mset (somes (map (attempt sample_crypto sample_net ?c) [[1, 1, 1, 1], [2, 2, 2, 2]]))"
    by (rule handshake_collects_connections [OF _ _ h]) (simp_all add: sample_connects(2) s)
  with h show ?thesis by auto
qed

text \<open>
  Whether the node starts can depend on the timing of its threads: with two threads, one whose
  peer cannot be reached and one whose peer can, the handshake fails when the first thread checks the
  shared list before the second has added its connection, and succeeds otherwise.
\<close>

theorem handshake_depends_on_timing:
  assumes "n_threads config = 2"
    and "connect_to_node cr net config a = Err e" and "connect_to_node cr net config b = Ok s"
  shows "handshake_with_nodes cr net config [0, 0, 1, 1] [a, b] =
      Some (Err (HandshakeError ''Any connection could be made'')) \<and>
    handshake_with_nodes cr net config [1, 1, 0, 0] [a, b] = Some (Ok [s])"
  using two_threads [OF assms] by blast

theorem handshake_depends_on_timing_witness:
  "\<exists>s. handshake_with_nodes sample_crypto sample_net (initial_config\<lparr>n_threads := 2\<rparr>) [0, 0, 1, 1]
       [[1, 1, 1, 1], [2, 2, 2, 2]] = Some (Err (HandshakeError ''Any connection could be made'')) \<and>
     handshake_with_nodes sample_crypto sample_net (initial_config\<lparr>n_threads := 2\<rparr>) [1, 1, 0, 0]
       [[1, 1, 1, 1], [2, 2, 2, 2]] = Some (Ok [s])"
proof -
  obtain s where s: "connect_to_node sample_crypto sample_net (initial_config\<lparr>n_threads := 2\<rparr>) [2, 2, 2, 2] = Ok s"
    using sample_connects(1) by blast
  show ?thesis
    using handshake_depends_on_timing [OF _ sample_connects(2) s] by simp
qed

text \<open>
  One peer whose version message is too short stops the node from starting: its payload of fewer
  than 80 bytes panics the thread that reads it, and whatever the other peers and threads do, the
  handshake does not succeed.
\<close>

theorem short_version_stops_start:
  assumes "0 < n_threads config" and "ip \<in> set ips"
    and "dial net (V4 ip (net_port config)) =
      Ok (own, \<lparr>stream = \<lparr>inp = framed cr ms @ frame cr ''version'' payload @ rest, outp = out\<rparr>, writes_left = None\<rparr>)"
    and "get_version_message cr (clock net (V4 ip (net_port config))) (random net (V4 ip (net_port config)))
           config (V4 ip (net_port config)) own = Ok m"
    and "list_all (skippable cr ''version'') ms" and "length payload < 80" and "length (get_checksum cr payload) = 4"
  shows "handshake_with_nodes cr net config schedule ips \<noteq> Some (Ok ss)"
  using panic_prevents_handshake [OF assms(1,2)] connect_short_version [OF assms(3-7)] by blast

theorem short_version_stops_start_witness:
  "\<forall>schedule ss. handshake_with_nodes sample_crypto sample_net (initial_config\<lparr>n_threads := 2\<rparr>) schedule
     [[2, 2, 2, 2], [3, 3, 3, 3]] \<noteq> Some (Ok ss)"
proof -
  let ?c = "initial_config\<lparr>n_threads := 2\<rparr>"
  obtain m where m: "get_version_message sample_crypto (clock sample_net (V4 [3, 3, 3, 3] (net_port ?c)))
      (random sample_net (V4 [3, 3, 3, 3] (net_port ?c))) ?c (V4 [3, 3, 3, 3] (net_port ?c)) (V4 [9, 9, 9, 9] 5) = Ok m"
    by (simp add: get_version_message_def get_version_payload_def sample_net_def)
  have d: "dial sample_net (V4 [3, 3, 3, 3] (net_port ?c)) = Ok (V4 [9, 9, 9, 9] 5,
      \<lparr>stream = \<lparr>inp = framed sample_crypto [] @ frame sample_crypto ''version'' [1, 2, 3] @ [], outp = []\<rparr>,
       writes_left = None\<rparr>)"
    by (simp add: sample_net_def framed_def)
  show ?thesis
    using short_version_stops_start [OF _ _ d m _ _ sample_checksum_length] by simp
qed

end
