(* ===== verification/Server.thy ===== *)
theory Server
  imports Handshake Wallet
begin

section \<open>Incoming connections (src/server.rs)\<close>

text \<open>
  The thread that accepts connections from other nodes. What it meets is the list of the turns of its
  loop: whether the message to stop is in its channel, and what accepting gives. A turn in which the
  list ends is still waited for: the loop has then not returned.
\<close>

definition LOCALHOST :: string where
  "LOCALHOST = ''127.0.0.1''"

text \<open>The parser of IPv6 addresses of the standard library is an argument.\<close>

definition get_socket :: "(string \<Rightarrow> u16 list option) \<Rightarrow> string \<Rightarrow> u16 \<Rightarrow> (SocketAddr, NodeCustomErrors) result" where
  "get_socket ipv6_from_str ip port =
     (case ipv4_from_str ip of
        Ok octets \<Rightarrow> Ok (V4 octets port)
      | _ \<Rightarrow> (case ipv6_from_str ip of
               Some segs \<Rightarrow> Ok (V6 segs port)
             | None \<Rightarrow> Err (SocketError ''invalid IP address syntax'')))"

text \<open>An accepted connection, with what the system says of it and the inputs of its version message.\<close>

record incoming =
  inc_stream :: remote
  inc_local :: "(SocketAddr, string) result"
  inc_peer :: "(SocketAddr, string) result"
  inc_clock :: "(i64, string) result"
  inc_random :: u64

definition handle_incoming_connection ::
  "crypto \<Rightarrow> Config \<Rightarrow> incoming \<Rightarrow> Node \<times> program \<Rightarrow> (Node \<times> program, NodeCustomErrors) result" where
  "handle_incoming_connection cr config c = (\<lambda>(self, p).
     and_then (map_err SocketError (inc_local c)) (\<lambda>local_ip_addr.
     and_then (map_err SocketError (inc_peer c)) (\<lambda>socket_addr.
     and_then (map_err CanNotRead (receiving (VersionMessage_read_from cr) (inc_stream c))) (\<lambda>(_, s).
     and_then (map_err OtherError
         (get_version_message cr (inc_clock c) (inc_random c) config socket_addr local_ip_addr)) (\<lambda>version_message.
     and_then (map_err WriteNodeError (sending (VersionMessage_write_to version_message) s)) (\<lambda>s.
     and_then (map_err CanNotRead (receiving (read_verack_message cr) s)) (\<lambda>(_, s).
     and_then (map_err WriteNodeError (sending (write_verack_message cr) s)) (\<lambda>s.
     Ok (Node_add_connection ((connection_of (stream s))\<lparr>broken := (writes_left s = Some 0)\<rparr>) self p)))))))))"

datatype arrival = Accepted incoming | NoConnection | AcceptFailed string

fun listen_incoming ::
  "crypto \<Rightarrow> Config \<Rightarrow> (bool \<times> arrival) list \<Rightarrow> u8 \<Rightarrow> Node \<times> program \<Rightarrow>
     (unit, NodeCustomErrors) result option \<times> Node \<times> program" where
  "listen_incoming cr config [] amount_of_connections np = (None, np)"
| "listen_incoming cr config ((stop, arrived) # turns) amount_of_connections np =
     (if stop then (Some (Ok ()), np)
      else case arrived of
        Accepted c \<Rightarrow>
          if amount_of_connections > max_connections_to_server config then (Some (Ok ()), np)
          else (case handle_incoming_connection cr config c np of
             Err e \<Rightarrow> (Some (Err e), np)
           | Panic \<Rightarrow> (Some Panic, np)
           | Ok np \<Rightarrow>
               if amount_of_connections = 255 then (Some Panic, np)
               else listen_incoming cr config turns (amount_of_connections + 1) np)
      | NoConnection \<Rightarrow> listen_incoming cr config turns amount_of_connections np
      | AcceptFailed msg \<Rightarrow> (Some (Err (CanNotRead msg)), np))"

text \<open>\<open>bound\<close> is the outcome of binding the address.\<close>

definition server_listen ::
  "crypto \<Rightarrow> Config \<Rightarrow> (unit, string) result \<Rightarrow> (bool \<times> arrival) list \<Rightarrow> Node \<times> program \<Rightarrow>
     (unit, NodeCustomErrors) result option \<times> Node \<times> program" where
  "server_listen cr config bound turns np =
     (case bound of
        Ok _ \<Rightarrow> listen_incoming cr config turns 0 np
      | Err e \<Rightarrow> (Some (Err (SocketError e)), np)
      | Panic \<Rightarrow> (Some Panic, np))"

text \<open>
  \<open>NodeServer::new\<close> parses the address and starts the thread on a clone of the node.
\<close>

definition NodeServer_new :: "(string \<Rightarrow> u16 list option) \<Rightarrow> Config \<Rightarrow> (SocketAddr, NodeCustomErrors) result" where
  "NodeServer_new ipv6_from_str config = get_socket ipv6_from_str LOCALHOST (net_port config)"

text \<open>
  The message to stop cannot be sent to a thread that has ended; a thread that still listens sees it
  in its next turn and returns \<open>Ok\<close>.
\<close>

definition shutdown_server :: "(unit, NodeCustomErrors) result option \<Rightarrow> (unit, NodeCustomErrors) result" where
  "shutdown_server ended =
     (case ended of
        None \<Rightarrow> Ok ()
      | Some r \<Rightarrow> Err (ThreadChannelError ''sending on a closed channel''))"

lemma server_address: "NodeServer_new f config = Ok (V4 [127, 0, 0, 1] (net_port config))"
  by (simp add: NodeServer_new_def get_socket_def ipv4_from_str_def LOCALHOST_def ipv4_octet_def dec_val_def
      u8_from_str_def parse_int_def Let_def)

subsection \<open>A peer that follows the protocol\<close>

definition honest_incoming :: "crypto \<Rightarrow> incoming \<Rightarrow> bool" where
  "honest_incoming cr c \<longleftrightarrow>
     (\<exists>ms pv ms' rest out a b t.
        stream (inc_stream c) = \<lparr>inp = framed cr ms @ frame cr ''version'' (VersionPayload_to_le_bytes pv) @
           framed cr ms' @ frame cr ''verack'' [] @ rest, outp = out\<rparr> \<and>
        writes_left (inc_stream c) = None \<and>
        list_all (skippable cr ''version'') ms \<and> list_all (skippable cr ''verack'') ms' \<and>
        wf_version pv \<and> length (VersionPayload_to_le_bytes pv) < 2 ^ 32 \<and>
        inc_local c = Ok a \<and> inc_peer c = Ok b \<and> inc_clock c = Ok t)"

lemma Node_add_connection_peers:
  "Node_add_connection c self p = (self', p') \<Longrightarrow> length (peers p') = Suc (length (peers p))"
  by (auto simp: Node_add_connection_def NodeMessageHandler_add_connection_def handle_messages_from_node_def Let_def)

lemma handle_honest_incoming:
  assumes "honest_incoming cr c" and "\<And>p. length (get_checksum cr p) = 4"
  shows "\<exists>self' p'. handle_incoming_connection cr config c (self, p) = Ok (self', p') \<and>
    length (peers p') = Suc (length (peers p))"
proof -
  from assms(1) obtain ms pv ms' rest out a b t where
      st: "stream (inc_stream c) = \<lparr>inp = framed cr ms @ frame cr ''version'' (VersionPayload_to_le_bytes pv) @
           framed cr ms' @ frame cr ''verack'' [] @ rest, outp = out\<rparr>" "writes_left (inc_stream c) = None"
      and sk: "list_all (skippable cr ''version'') ms" "list_all (skippable cr ''verack'') ms'"
      and pv: "wf_version pv" "length (VersionPayload_to_le_bytes pv) < 2 ^ 32"
      and sys: "inc_local c = Ok a" "inc_peer c = Ok b" "inc_clock c = Ok t"
    by (auto simp: honest_incoming_def)
  obtain m where m: "get_version_message cr (Ok t) (inc_random c) config b a = Ok m"
    by (simp add: get_version_message_def get_version_payload_def)
  obtain conn' where "handle_incoming_connection cr config c (self, p) = Ok (Node_add_connection conn' self p)"
    using st sk pv sys m assms(2)
    by (simp add: handle_incoming_connection_def sending_def receiving_def read_version_frame
        version_payload_reads_back write_own_version write_all_def read_verack_frame write_control)
  then show ?thesis
    by (cases "Node_add_connection conn' self p") (auto dest: Node_add_connection_peers)
qed


definition incoming_turns :: "incoming list \<Rightarrow> (bool \<times> arrival) list" where
  "incoming_turns cs = map (\<lambda>c. (False, Accepted c)) cs"

lemma u8_less_of_nat: "k < 256 \<Longrightarrow> (m < of_nat k) \<longleftrightarrow> unat m < k" for m :: u8
  by (simp add: word_less_nat_alt unat_of_nat)

lemma listen_incoming_honest:
  assumes cs: "\<forall>c \<in> set cs. honest_incoming cr c" and ck: "\<And>p. length (get_checksum cr p) = 4"
    and m: "unat (max_connections_to_server config) = m" "m < 255"
  shows "k \<le> m + 1 \<Longrightarrow> m + 1 - k < length cs \<Longrightarrow>
    \<exists>self' p'. listen_incoming cr config (incoming_turns cs) (of_nat k) (self, p) = (Some (Ok ()), self', p') \<and>
      length (peers p') = length (peers p) + (m + 1 - k)"
  using cs
proof (induction cs arbitrary: k self p)
  case (Cons c cs)
  obtain self' p' where h: "handle_incoming_connection cr config c (self, p) = Ok (self', p')"
      "length (peers p') = Suc (length (peers p))"
    using handle_honest_incoming [OF _ ck] Cons.prems(3) by (metis list.set_intros(1))
  show ?case
  proof (cases "k = m + 1")
    case True
    with m u8_less_of_nat [of k "max_connections_to_server config"]
    have "max_connections_to_server config < of_nat k"
      by (simp del: of_nat_Suc of_nat_add)
    with True show ?thesis
      by (simp add: incoming_turns_def)
  next
    case False
    with Cons.prems have k: "Suc k \<le> m + 1" "m + 1 - Suc k < length cs"
      by auto
    from False Cons.prems m have le: "\<not> max_connections_to_server config < of_nat k"
        and ne: "(of_nat k :: u8) \<noteq> 255"
      by (auto simp: u8_less_of_nat word_unat_eq_iff unat_of_nat)
    have "\<forall>c \<in> set cs. honest_incoming cr c"
      using Cons.prems(3) by simp
    from Cons.IH [OF k this, of self' p'] h le ne False Cons.prems(1) show ?thesis
      by (auto simp: incoming_turns_def add.commute)
  qed
qed simp

subsection \<open>Properties\<close>

text \<open>
  C39. The server accepts one connection more than \<open>max_connections_to_server\<close>: of any longer sequence
  of peers that follow the protocol it takes \<open>m + 1\<close>, adds each to the node, and stops listening.
\<close>

theorem server_accepts_one_more:
  assumes "\<forall>c \<in> set cs. honest_incoming cr c" and "\<And>p. length (get_checksum cr p) = 4"
    and "unat (max_connections_to_server config) = m" and "m < 255" and "m + 1 < length cs"
  shows "\<exists>self' p'. server_listen cr config (Ok ()) (incoming_turns cs) (self, p) = (Some (Ok ()), self', p') \<and>
    length (peers p') = length (peers p) + (m + 1)"
  using listen_incoming_honest [OF assms(1-4), of 0] assms(5) by (simp add: server_listen_def)

definition sample_incoming :: incoming where
  "sample_incoming =
     \<lparr>inc_stream = \<lparr>stream = \<lparr>inp = frame sample_crypto ''version'' (VersionPayload_to_le_bytes sample_version) @
        frame sample_crypto ''verack'' [], outp = []\<rparr>, writes_left = None\<rparr>,
      inc_local = Ok (V4 [127, 0, 0, 1] 18333), inc_peer = Ok (V4 [127, 0, 0, 1] 40000), inc_clock = Ok 0,
      inc_random = 3\<rparr>"

theorem server_accepts_one_more_witness:
  "\<exists>self' p'. server_listen sample_crypto (initial_config\<lparr>max_connections_to_server := 1\<rparr>) (Ok ())
      (incoming_turns [sample_incoming, sample_incoming, sample_incoming]) (\<lparr>peers_handler = \<lparr>nodes_sender = []\<rparr>\<rparr>, sample_program [] []) =
      (Some (Ok ()), self', p') \<and> length (peers p') = length (peers (sample_program [] [])) + 2"
proof -
  have h: "honest_incoming sample_crypto sample_incoming"
    unfolding honest_incoming_def
    by (rule exI [of _ "[]"], rule exI [of _ sample_version], rule exI [of _ "[]"], rule exI [of _ "[]"])
      (use sample_version_wf in \<open>simp add: sample_incoming_def framed_def\<close>)
  show ?thesis
    using server_accepts_one_more [of "[sample_incoming, sample_incoming, sample_incoming]" sample_crypto
        "initial_config\<lparr>max_connections_to_server := 1\<rparr>" 1] h sample_checksum_length
    by simp
qed

end
