(* ===== verification/Terminal.thy ===== *)
theory Terminal
  imports Program
begin

section \<open>The terminal interface (src/terminal\_ui.rs)\<close>

text \<open>
  The loop that reads commands from the standard input. The input is the list of the results of
  \<open>read_line\<close> (a line with its newline, or an error); at its end \<open>read_line\<close> returns the empty string,
  again and again. The loop is a \<open>partial_function\<close>: \<open>None\<close> is a session that does not end. What is
  printed is kept as a list of lines; a balance is kept as a number of satoshis.
\<close>

subsection \<open>Text\<close>

text \<open>The characters that \<open>str::trim\<close> removes, as bytes of UTF-8.\<close>

definition white_space :: "string list" where
  "white_space =
     map (\<lambda>c. [char_of c]) [9, 10, 11, 12, 13, 32 :: nat] @
     map (map char_of) ([[0xC2, 0x85], [0xC2, 0xA0], [0xE1, 0x9A, 0x80], [0xE2, 0x80, 0xA8], [0xE2, 0x80, 0xA9],
       [0xE2, 0x80, 0xAF], [0xE2, 0x81, 0x9F], [0xE3, 0x80, 0x80]] :: nat list list) @
     map (\<lambda>b. map char_of [0xE2, 0x80, b]) [0x80..<0x8B :: nat]"

fun strip_prefixes :: "string list \<Rightarrow> nat \<Rightarrow> string \<Rightarrow> string" where
  "strip_prefixes ws 0 s = s"
| "strip_prefixes ws (Suc n) s =
     (case filter (starts_with s) ws of
        [] \<Rightarrow> s
      | w # _ \<Rightarrow> strip_prefixes ws n (drop (length w) s))"

definition trim :: "string \<Rightarrow> string" where
  "trim s =
     (let s = strip_prefixes white_space (length s) s
      in rev (strip_prefixes (map rev white_space) (length s) (rev s)))"

definition string_from_str :: "string \<Rightarrow> (string, string) result" where
  "string_from_str s = Ok s"

subsection \<open>A session\<close>

datatype screen_line =
    Printed string
  | Options
  | IndexLine nat string
  | BalanceLine string i64

record terminal =
  t_wallet :: Wallet
  t_program :: program
  t_input :: "(string, string) result list"
  t_screen :: "screen_line list"

abbreviation newline :: string where
  "newline \<equiv> [CHR 0x0A]"

definition println :: "string \<Rightarrow> terminal \<Rightarrow> terminal" where
  "println msg t = t\<lparr>t_screen := t_screen t @ [Printed msg]\<rparr>"

definition show_options :: "terminal \<Rightarrow> terminal" where
  "show_options t = t\<lparr>t_screen := t_screen t @ [Options]\<rparr>"

definition read_line :: "terminal \<Rightarrow> (string, string) result \<times> terminal" where
  "read_line t =
     (case t_input t of
        [] \<Rightarrow> (Ok [], t)
      | r # rest \<Rightarrow> (r, t\<lparr>t_input := rest\<rparr>))"

text \<open>\<open>read_input\<close>, for a type with the parser \<open>from_str\<close>.\<close>

definition read_input :: "(string \<Rightarrow> ('a, string) result) \<Rightarrow> string \<Rightarrow> terminal \<Rightarrow> ('a, string) result \<times> terminal" where
  "read_input from_str prompt t =
     (let (r, t) = read_line (println prompt t)
      in (and_then r (\<lambda>input. map_err (\<lambda>err. ''Error parsing input: '' @ err) (from_str (trim input))), t))"

text \<open>\<open>unwrap_or_else\<close> with the error printed.\<close>

definition or_default :: "'a \<Rightarrow> ('a, string) result \<times> terminal \<Rightarrow> 'a \<times> terminal" where
  "or_default d rt =
     (case rt of
        (Ok x, t) \<Rightarrow> (x, t)
      | (Err err, t) \<Rightarrow> (d, println (''Error trying to read the input: '' @ err) t)
      | (Panic, t) \<Rightarrow> (d, t))"

subsection \<open>The requests\<close>

definition show_indexes_of_accounts :: "terminal \<Rightarrow> (unit, string) result \<times> terminal" where
  "show_indexes_of_accounts t =
     (let accs = prog_accounts (t_program t) in
      if accs = [] then
        (Err ''There are no accounts in the wallet. It is not possible to make a transaction!'',
         println ''There are no accounts in the wallet. It is not possible to make a transaction!'' t)
      else
        let t = println ''ACCOUNT INDEXES:'' t;
            t = t\<lparr>t_screen := t_screen t @ map (\<lambda>(i, a). IndexLine i (address a)) (zip [0..<length accs] accs)\<rparr>
        in (Ok (), println [] t))"

definition show_accounts_balance :: "terminal \<Rightarrow> (terminal, string) result" where
  "show_accounts_balance t =
     (let accs = prog_accounts (t_program t);
          t = (if accs = [] then println ''No accounts in the wallet'' t else t) in
      fold_result (\<lambda>account t.
          and_then (Account_balance account) (\<lambda>b.
          Ok (t\<lparr>t_screen := t_screen t @ [BalanceLine (address account) b]\<rparr>))) accs t)"

text \<open>The last part of \<open>handle_transaccion_request\<close>: the data of the payment, and the payment.\<close>

definition payment_request :: "crypto \<Rightarrow> terminal \<Rightarrow> (terminal, string) result" where
  "payment_request cr t =
     (let (address_receiver, t) = or_default [] (read_input string_from_str ''Reciever address: '' t);
          (amt, t) = or_default 0 (read_input i64_from_str ''Amount(Satoshis): '' t);
          (fee, t) = or_default 0 (read_input i64_from_str ''Fee(Satoshis): '' t);
          t = println ''Broadcasting transaction...'' t in
      case Wallet_make_transaction cr (t_wallet t) address_receiver amt fee (t_program t) of
        (Err error, p) \<Rightarrow> Ok (println (''Error trying to make the transaction: '' @ error) (t\<lparr>t_program := p\<rparr>))
      | (Ok _, p) \<Rightarrow> Ok (println ''TRANSACTION MADE SUCCESSFULLY!'' (t\<lparr>t_program := p\<rparr>))
      | (Panic, p) \<Rightarrow> Panic)"

definition handle_transaccion_request :: "crypto \<Rightarrow> terminal \<Rightarrow> (terminal, string) result" where
  "handle_transaccion_request cr t =
     (case show_indexes_of_accounts t of
        (Err _, t) \<Rightarrow> Ok t
      | (Panic, t) \<Rightarrow> Panic
      | (Ok _, t) \<Rightarrow>
          let t = println (''ENTER THE FOLLOWING DATA TO MAKE A TRANSACTION '' @ newline) t;
              (account_index, t) = or_default 0 (read_input usize_from_str ''Account index: '' t) in
          and_then
            (case change_account account_index (t_wallet t) (t_program t) of
               Ok (w, p) \<Rightarrow> Ok (t\<lparr>t_wallet := w, t_program := p\<rparr>)
             | Err err \<Rightarrow> Ok (println (''Error trying to change account: '' @ err) t)
             | Panic \<Rightarrow> Panic)
            (payment_request cr))"

text \<open>Two lines, for the requests that take two texts; an error is printed and ends the request.\<close>

definition with_two_lines ::
  "string \<Rightarrow> string \<Rightarrow> (string \<Rightarrow> string \<Rightarrow> terminal \<Rightarrow> (terminal, string) result) \<Rightarrow> terminal \<Rightarrow> (terminal, string) result" where
  "with_two_lines prompt1 prompt2 f t =
     (case read_line (println prompt1 t) of
        (Ok input1, t) \<Rightarrow>
          (case read_line (println prompt2 t) of
             (Ok input2, t) \<Rightarrow> f (trim input1) (trim input2) t
           | (Err error, t) \<Rightarrow> Ok (println (''Error trying to read the input: '' @ error) t)
           | (Panic, t) \<Rightarrow> Panic)
      | (Err error, t) \<Rightarrow> Ok (println (''Error trying to read the input: '' @ error) t)
      | (Panic, t) \<Rightarrow> Panic)"

definition handle_add_account_request ::
  "crypto \<Rightarrow> (utxo_map \<Rightarrow> hash32 list) \<Rightarrow> terminal \<Rightarrow> (terminal, string) result" where
  "handle_add_account_request cr ord =
     with_two_lines ''Enter the  PRIVATE KEY in WIF format: '' ''Enter the ADDRESS (compressed) of the account: ''
       (\<lambda>wif_private_key addr t.
          let t = println (''Adding account -- '' @ addr @ '' -- to wallet...'' @ newline) t in
          case add_account cr ord wif_private_key addr (t_program t) of
            (Err err, p) \<Rightarrow>
              Ok (println (''An error occurred while trying to add a new account, try again! '' @ newline)
                   (println (''ERROR: '' @ display_error err @ newline) (t\<lparr>t_program := p\<rparr>)))
          | (Ok _, p) \<Rightarrow> Ok (println (''ACCOUNT -- '' @ addr @ '' -- ADDED CORRECTLY TO THE WALLET!'' @ newline) (t\<lparr>t_program := p\<rparr>))
          | (Panic, p) \<Rightarrow> Panic)"

definition handle_balance_request :: "terminal \<Rightarrow> (terminal, string) result" where
  "handle_balance_request t =
     (let t = println (''Calculating balance of all the accounts...'' @ newline) t in
      case show_accounts_balance t of
        Ok t \<Rightarrow> Ok t
      | Err e \<Rightarrow> Ok (println (''Error trying to get the balance: '' @ e) t)
      | Panic \<Rightarrow> Panic)"

definition handle_poi_request :: "crypto \<Rightarrow> terminal \<Rightarrow> (terminal, string) result" where
  "handle_poi_request cr =
     with_two_lines ''Enter the hash of the block: '' ''Enter the hash of the transaction: ''
       (\<lambda>block_hash txid t.
          let t = println (''Calculating proof of inclusion...'' @ newline) t in
          case tx_proof_of_inclusion cr block_hash txid (t_program t) of
            Err err \<Rightarrow>
              Ok (println (''An error occurred while trying to calculate the proof of inclusion, try again! '' @ newline)
                   (println (''ERROR: '' @ err @ newline) t))
          | Ok True \<Rightarrow> Ok (println ''The transaction is in the block.'' t)
          | Ok False \<Rightarrow> Ok (println ''The transaction is not in the block.'' t)
          | Panic \<Rightarrow> Panic)"

subsection \<open>The loop\<close>

datatype turn_end = Closing terminal | Again terminal

definition command :: "crypto \<Rightarrow> (utxo_map \<Rightarrow> hash32 list) \<Rightarrow> u32 \<Rightarrow> terminal \<Rightarrow> (terminal, string) result" where
  "command cr ord num t =
     (if num = 1 then handle_add_account_request cr ord t
      else if num = 2 then handle_balance_request t
      else if num = 3 then handle_transaccion_request cr t
      else if num = 4 then handle_poi_request cr t
      else Ok (println (''Not valid number. Try again! '' @ newline) t))"

definition terminal_turn ::
  "crypto \<Rightarrow> (utxo_map \<Rightarrow> hash32 list) \<Rightarrow> terminal \<Rightarrow> (turn_end, string) result" where
  "terminal_turn cr ord t =
     (case read_line t of
        (Err error, t) \<Rightarrow> Ok (Again (println (''Error trying to read input: '' @ error) t))
      | (Panic, t) \<Rightarrow> Panic
      | (Ok input, t) \<Rightarrow>
          let t = println newline t in
          case u32_from_str (trim input) of
            Ok num \<Rightarrow>
              if num = 0 then Ok (Closing (println (''Closing node...'' @ newline) t))
              else and_then (command cr ord num t) (\<lambda>t. Ok (Again (show_options t)))
          | _ \<Rightarrow> Ok (Again (println (''Invalid input. Try again! '' @ newline) t)))"

partial_function (option) terminal_loop ::
  "crypto \<Rightarrow> (utxo_map \<Rightarrow> hash32 list) \<Rightarrow> terminal \<Rightarrow> (terminal, string) result option" where
  "terminal_loop cr ord t =
     (case terminal_turn cr ord t of
        Ok (Again t) \<Rightarrow> terminal_loop cr ord t
      | Ok (Closing t) \<Rightarrow> Some (Ok t)
      | Err e \<Rightarrow> Some (Err e)
      | Panic \<Rightarrow> Some Panic)"

definition terminal_ui ::
  "crypto \<Rightarrow> (utxo_map \<Rightarrow> hash32 list) \<Rightarrow> terminal \<Rightarrow> (terminal, string) result option" where
  "terminal_ui cr ord t = terminal_loop cr ord (show_options t)"


subsection \<open>What a turn changes\<close>

lemma println_fields [simp]:
  "t_program (println m t) = t_program t" "t_wallet (println m t) = t_wallet t" "t_input (println m t) = t_input t"
  "t_program (show_options t) = t_program t" "t_wallet (show_options t) = t_wallet t"
  "t_input (show_options t) = t_input t"
  by (simp_all add: println_def show_options_def)

lemma read_line_fields:
  "read_line t = (r, t') \<Longrightarrow> t_program t' = t_program t \<and> t_wallet t' = t_wallet t \<and> t_input t' = tl (t_input t)"
  by (auto simp: read_line_def split: list.splits)

lemma or_default_fields:
  assumes "or_default d (read_input f prompt t) = (x, t')"
  shows "t_program t' = t_program t \<and> t_wallet t' = t_wallet t \<and> t_input t' = tl (t_input t)"
proof -
  obtain r u where u: "read_line (println prompt t) = (r, u)" by fastforce
  then have "t' = u \<or> (\<exists>m. t' = println m u)"
    using assms by (auto simp: or_default_def read_input_def split: result.split_asm)
  with read_line_fields [OF u] show ?thesis by auto
qed

text \<open>
  A turn keeps the invariant of the node, and each line that it leaves was there before.
\<close>

definition turn_keeps :: "crypto \<Rightarrow> terminal \<Rightarrow> terminal \<Rightarrow> bool" where
  "turn_keeps cr t t' \<longleftrightarrow> keeps_node cr (shared (t_program t)) (shared (t_program t')) \<and>
     set (t_input t') \<subseteq> set (t_input t)"

lemma turn_keeps_refl [simp]: "turn_keeps cr t t"
  by (simp add: turn_keeps_def)

lemma turn_keeps_trans: "turn_keeps cr t u \<Longrightarrow> turn_keeps cr u v \<Longrightarrow> turn_keeps cr t v"
  by (auto simp: turn_keeps_def intro: keeps_node_trans)

lemma turn_keeps_show [simp]:
  "turn_keeps cr t (println m t') \<longleftrightarrow> turn_keeps cr t t'" "turn_keeps cr (println m t) t' \<longleftrightarrow> turn_keeps cr t t'"
  "turn_keeps cr t (show_options t') \<longleftrightarrow> turn_keeps cr t t'" "turn_keeps cr (show_options t) t' \<longleftrightarrow> turn_keeps cr t t'"
  "turn_keeps cr t (t'\<lparr>t_screen := l\<rparr>) \<longleftrightarrow> turn_keeps cr t t'" "turn_keeps cr (t\<lparr>t_screen := l\<rparr>) t' \<longleftrightarrow> turn_keeps cr t t'"
  by (simp_all add: turn_keeps_def)

lemma tl_subset: "set (tl xs) \<subseteq> set xs"
  by (cases xs) auto

lemma read_line_keeps: "read_line t = (r, t') \<Longrightarrow> turn_keeps cr t t'"
  using tl_subset by (simp add: turn_keeps_def read_line_fields)

lemma or_default_keeps: "or_default d (read_input f prompt t) = (x, t') \<Longrightarrow> turn_keeps cr t t'"
  using tl_subset by (simp add: turn_keeps_def or_default_fields)

lemma with_two_lines_keeps:
  assumes "with_two_lines prompt1 prompt2 f t = Ok t'"
    and "\<And>x y u v. f x y u = Ok v \<Longrightarrow> turn_keeps cr u v"
  shows "turn_keeps cr t t'"
proof -
  obtain r1 u1 where u1: "read_line (println prompt1 t) = (r1, u1)" by fastforce
  obtain r2 u2 where u2: "read_line (println prompt2 u1) = (r2, u2)" by fastforce
  have k: "turn_keeps cr t u1" "turn_keeps cr t u2"
    using read_line_keeps [OF u1, of cr] turn_keeps_trans [OF _ read_line_keeps [OF u2, of cr], of t] by simp_all
  show ?thesis
  proof (cases r1)
    case ok1: (Ok x)
    show ?thesis
    proof (cases r2)
      case (Ok y)
      with assms(1) u1 u2 ok1 have "f (trim x) (trim y) u2 = Ok t'"
        by (simp add: with_two_lines_def)
      from turn_keeps_trans [OF k(2) assms(2) [OF this]] show ?thesis .
    qed (use assms(1) u1 u2 ok1 k in \<open>auto simp: with_two_lines_def\<close>)
  qed (use assms(1) u1 k in \<open>auto simp: with_two_lines_def\<close>)
qed

lemma program_keeps:
  "keeps_node cr (shared (t_program t)) (shared p) \<Longrightarrow> turn_keeps cr t (t\<lparr>t_program := p\<rparr>)"
  "keeps_node cr (shared (t_program t)) (shared p) \<Longrightarrow> turn_keeps cr t (t\<lparr>t_wallet := w, t_program := p\<rparr>)"
  by (simp_all add: turn_keeps_def)

lemma add_account_request_keeps:
  assumes "iteration_order ord" and "handle_add_account_request cr ord t = Ok t'"
  shows "turn_keeps cr t t'"
proof (rule with_two_lines_keeps [OF assms(2) [unfolded handle_add_account_request_def]])
  fix wif addr u v
  let ?u = "println (''Adding account -- '' @ addr @ '' -- to wallet...'' @ newline) u"
  obtain r p where a: "add_account cr ord wif addr (t_program ?u) = (r, p)" by fastforce
  have "turn_keeps cr u (?u\<lparr>t_program := p\<rparr>)"
    using program_keeps(1) [OF add_account_keeps [OF assms(1) a]] by (simp only: turn_keeps_show)
  moreover assume "(let t = ?u in
      case add_account cr ord wif addr (t_program t) of
        (Err err, p) \<Rightarrow>
          Ok (println (''An error occurred while trying to add a new account, try again! '' @ newline)
               (println (''ERROR: '' @ display_error err @ newline) (t\<lparr>t_program := p\<rparr>)))
      | (Ok _, p) \<Rightarrow> Ok (println (''ACCOUNT -- '' @ addr @ '' -- ADDED CORRECTLY TO THE WALLET!'' @ newline) (t\<lparr>t_program := p\<rparr>))
      | (Panic, p) \<Rightarrow> Panic) = Ok v"
  ultimately show "turn_keeps cr u v"
    using a by (cases r) (auto simp: Let_def)
qed

lemma poi_request_keeps: "handle_poi_request cr t = Ok t' \<Longrightarrow> turn_keeps cr t t'"
  unfolding handle_poi_request_def
  by (erule with_two_lines_keeps) (auto simp: Let_def split: result.split_asm bool.split_asm)

lemma balance_request_keeps:
  assumes "handle_balance_request t = Ok t'"
  shows "turn_keeps cr t t'"
proof -
  have "turn_keeps cr t u" if "show_accounts_balance (println m t) = Ok u" for m u
    using that unfolding show_accounts_balance_def Let_def
    by (rule fold_result_invariant) (auto simp: and_then_eq_Ok)
  with assms show ?thesis
    by (auto simp: handle_balance_request_def Let_def split: result.split_asm)
qed

lemma payment_request_keeps:
  assumes "payment_request cr t = Ok t'"
  shows "turn_keeps cr t t'"
proof -
  obtain receiver u1 where u1: "or_default [] (read_input string_from_str ''Reciever address: '' t) = (receiver, u1)" by fastforce
  obtain amt u2 where u2: "or_default 0 (read_input i64_from_str ''Amount(Satoshis): '' u1) = (amt, u2)" by fastforce
  obtain fee u3 where u3: "or_default 0 (read_input i64_from_str ''Fee(Satoshis): '' u2) = (fee, u3)" by fastforce
  obtain r p where p: "Wallet_make_transaction cr (t_wallet u3) receiver amt fee (t_program u3) = (r, p)" by fastforce
  have "turn_keeps cr t u3"
    by (meson or_default_keeps turn_keeps_trans u1 u2 u3)
  moreover have "turn_keeps cr u3 (u3\<lparr>t_program := p\<rparr>)"
    by (rule program_keeps(1) [OF Wallet_make_transaction_keeps [OF p]])
  ultimately have "turn_keeps cr t (u3\<lparr>t_program := p\<rparr>)"
    by (rule turn_keeps_trans)
  moreover have "t_input t' = t_input u3 \<and> t_program t' = p"
    using assms u1 u2 u3 p by (cases r) (auto simp: payment_request_def)
  ultimately show ?thesis
    by (simp add: turn_keeps_def)
qed

lemma show_indexes_keeps: "show_indexes_of_accounts t = (r, t') \<Longrightarrow> turn_keeps cr t t'"
  by (auto simp: show_indexes_of_accounts_def Let_def split: if_split_asm)

lemma change_account_keeps: "change_account i w p = Ok (w', p') \<Longrightarrow> keeps_node cr (shared p) (shared p')"
  by (auto simp: change_account_def and_then_eq_Ok split: if_split_asm)

lemma transaction_request_keeps:
  assumes "handle_transaccion_request cr t = Ok t'"
  shows "turn_keeps cr t t'"
proof -
  obtain r u where u: "show_indexes_of_accounts t = (r, u)" by fastforce
  let ?u = "println (''ENTER THE FOLLOWING DATA TO MAKE A TRANSACTION '' @ newline) u"
  obtain i v where v: "or_default 0 (read_input usize_from_str ''Account index: '' ?u) = (i, v)" by fastforce
  have tv: "turn_keeps cr t v"
    using show_indexes_keeps [OF u] or_default_keeps [OF v] by (auto intro: turn_keeps_trans)
  show ?thesis
  proof (cases r)
    case (Ok x)
    with assms u v obtain z where z: "payment_request cr z = Ok t'" and
        "(\<exists>w p. change_account i (t_wallet v) (t_program v) = Ok (w, p) \<and> z = v\<lparr>t_wallet := w, t_program := p\<rparr>) \<or>
          (\<exists>m. z = println m v)"
      by (cases "change_account i (t_wallet v) (t_program v)") (auto simp: handle_transaccion_request_def)
    then have "turn_keeps cr v z"
      using program_keeps(2) [OF change_account_keeps] by auto
    with tv payment_request_keeps [OF z] show ?thesis
      by (blast intro: turn_keeps_trans)
  next
    case (Err e)
    with assms u show_indexes_keeps [OF u] show ?thesis
      by (simp add: handle_transaccion_request_def)
  qed (use assms u in \<open>simp add: handle_transaccion_request_def\<close>)
qed

lemma empty_line: "u32_from_str (trim []) \<noteq> Ok n"
  by (simp add: trim_def u32_from_str_def parse_int_def)

definition closing_line :: "(string, string) result \<Rightarrow> bool" where
  "closing_line r \<longleftrightarrow> (\<exists>l. r = Ok l \<and> u32_from_str (trim l) = Ok 0)"

fun turn_result :: "turn_end \<Rightarrow> terminal" where
  "turn_result (Closing t) = t"
| "turn_result (Again t) = t"

lemma command_keeps: "iteration_order ord \<Longrightarrow> command cr ord num t = Ok t' \<Longrightarrow> turn_keeps cr t t'"
  by (auto simp: command_def split: if_split_asm
      intro: add_account_request_keeps balance_request_keeps transaction_request_keeps poi_request_keeps)

lemma terminal_turn_cases:
  assumes "terminal_turn cr ord t = Ok e"
  obtains (silent) r u m where "read_line t = (r, u)" "e = Again (println m u)"
    | (noise) r u m where "read_line t = (r, u)" "e = Again (println m (println newline u))"
    | (zero) l u m where "read_line t = (Ok l, u)" "u32_from_str (trim l) = Ok 0" "e = Closing (println m (println newline u))"
    | (run) l u num v where "read_line t = (Ok l, u)" "u32_from_str (trim l) = Ok num"
        "command cr ord num (println newline u) = Ok v" "e = Again (show_options v)"
proof -
  obtain r u where u: "read_line t = (r, u)" by fastforce
  show ?thesis
  proof (cases r)
    case (Ok l)
    note l = this
    show ?thesis
    proof (cases "u32_from_str (trim l)")
      case (Ok num)
      show ?thesis
      proof (cases "num = 0")
        case True
        with assms u l Ok show ?thesis
          by (intro zero) (auto simp: terminal_turn_def)
      next
        case False
        with assms u l Ok have "and_then (command cr ord num (println newline u)) (\<lambda>t. Ok (Again (show_options t))) = Ok e"
          by (simp add: terminal_turn_def)
        then obtain v where "command cr ord num (println newline u) = Ok v" "e = Again (show_options v)"
          by (auto simp: and_then_eq_Ok)
        with u l Ok show ?thesis
          by (intro run) auto
      qed
    qed (use assms u l in \<open>auto simp: terminal_turn_def intro: noise\<close>)
  qed (use assms u in \<open>auto simp: terminal_turn_def intro: silent\<close>)
qed

lemma terminal_turn_keeps:
  assumes "iteration_order ord" and "terminal_turn cr ord t = Ok e"
  shows "turn_keeps cr t (turn_result e)"
    and "(\<exists>t'. e = Closing t') \<Longrightarrow> \<exists>r \<in> set (t_input t). closing_line r"
    and "t_input t = [] \<Longrightarrow> \<exists>t'. e = Again t' \<and> t_input t' = []"
proof -
  have read: "t_input t \<noteq> [] \<and> Ok l \<in> set (t_input t)" if "read_line t = (Ok l, u)" "u32_from_str (trim l) = Ok num" for l u num
    using that empty_line by (auto simp: read_line_def split: list.split_asm)
  show "turn_keeps cr t (turn_result e)"
    by (rule terminal_turn_cases [OF assms(2)])
      (auto dest!: read_line_keeps [where cr = cr] command_keeps [OF assms(1)] intro: turn_keeps_trans)
  show "(\<exists>t'. e = Closing t') \<Longrightarrow> \<exists>r \<in> set (t_input t). closing_line r"
    by (rule terminal_turn_cases [OF assms(2)]) (auto simp: closing_line_def dest: read)
  show "t_input t = [] \<Longrightarrow> \<exists>t'. e = Again t' \<and> t_input t' = []"
    by (rule terminal_turn_cases [OF assms(2)]) (auto dest: read_line_fields read)
qed

lemma terminal_turn_end: "t_input t = [] \<Longrightarrow> \<exists>t'. terminal_turn cr ord t = Ok (Again t') \<and> t_input t' = []"
  using empty_line
  by (cases "u32_from_str (trim [])") (auto simp: terminal_turn_def read_line_def)

lemma terminal_loop_result:
  assumes "iteration_order ord" and "terminal_loop cr ord t = Some y"
  shows "t_input t \<noteq> [] \<and> (\<forall>t'. y = Ok t' \<longrightarrow> turn_keeps cr t t' \<and> (\<exists>r \<in> set (t_input t). closing_line r))"
proof -
  have "iteration_order ord \<longrightarrow>
      t_input t \<noteq> [] \<and> (\<forall>t'. y = Ok t' \<longrightarrow> turn_keeps cr t t' \<and> (\<exists>r \<in> set (t_input t). closing_line r))"
  proof (rule terminal_loop.raw_induct [OF _ assms(2)], intro impI)
    fix loop cr ord t y
    assume IH: "\<And>cr ord t y. loop cr ord t = Some y \<Longrightarrow> iteration_order ord \<longrightarrow>
        t_input t \<noteq> [] \<and> (\<forall>t'. y = Ok t' \<longrightarrow> turn_keeps cr t t' \<and> (\<exists>r \<in> set (t_input t). closing_line r))"
      and body: "(case terminal_turn cr ord t of
          Ok (Again t) \<Rightarrow> loop cr ord t | Ok (Closing t) \<Rightarrow> Some (Ok t) | Err e \<Rightarrow> Some (Err e) | Panic \<Rightarrow> Some Panic) = Some y"
      and ord: "iteration_order ord"
    show "t_input t \<noteq> [] \<and> (\<forall>t'. y = Ok t' \<longrightarrow> turn_keeps cr t t' \<and> (\<exists>r \<in> set (t_input t). closing_line r))"
    proof (cases "terminal_turn cr ord t")
      case (Ok e)
      note keeps = terminal_turn_keeps [OF ord Ok]
      show ?thesis
      proof (cases e)
        case (Closing t1)
        with body Ok keeps show ?thesis by auto
      next
        case (Again t1)
        with body Ok have "loop cr ord t1 = Some y" by simp
        with IH ord have t1: "t_input t1 \<noteq> []"
            "\<And>t'. y = Ok t' \<Longrightarrow> turn_keeps cr t1 t' \<and> (\<exists>r \<in> set (t_input t1). closing_line r)"
          by blast+
        have "turn_keeps cr t t1"
          using keeps(1) Again by simp
        then show ?thesis
          using t1 keeps(3) Again turn_keeps_trans [of cr t t1] by (fastforce simp: turn_keeps_def [of cr t t1])
      qed
    next
      case (Err e)
      with terminal_turn_end [of t cr ord] body show ?thesis by auto
    next
      case Panic
      with terminal_turn_end [of t cr ord] body show ?thesis by auto
    qed
  qed
  with assms(1) show ?thesis by blast
qed

subsection \<open>Properties\<close>

text \<open>
  C32. A terminal session keeps the state of the node correct: when it ends, the invariant of the
  node (UTXO set, stored blocks, the outputs of every account) holds if it did before, nothing of the
  chain or the accounts was lost, and what happened is a run of the abstract ledger.
\<close>

theorem terminal_session_safe:
  assumes "iteration_order ord" and "terminal_ui cr ord t = Some (Ok t')" and "node_ok cr (shared (t_program t))"
  shows "node_ok cr (shared (t_program t')) \<and> node_grows cr (shared (t_program t)) (shared (t_program t')) \<and>
    (\<exists>es. ledger_run cr (ledger_of (shared (t_program t))) es (ledger_of (shared (t_program t'))))"
  using terminal_loop_result [OF assms(1) assms(2) [unfolded terminal_ui_def]] assms(3)
  by (auto simp: turn_keeps_def keeps_node_def follows_ledger_def)

text \<open>
  C33. A terminal session ends only by a line that reads as the number zero. At the end of the input
  (when the standard input is closed, or the program runs in the background) \<open>read_line\<close> keeps
  returning an empty line, so the loop runs for ever and the node is never shut down.
\<close>

theorem terminal_ends_by_zero:
  assumes "iteration_order ord"
  shows "(\<forall>t'. terminal_ui cr ord t = Some (Ok t') \<longrightarrow> (\<exists>l. Ok l \<in> set (t_input t) \<and> u32_from_str (trim l) = Ok 0)) \<and>
    (t_input t = [] \<longrightarrow> terminal_ui cr ord t = None)"
proof (intro conjI allI impI)
  fix t'
  assume "terminal_ui cr ord t = Some (Ok t')"
  from terminal_loop_result [OF assms this [unfolded terminal_ui_def]]
  show "\<exists>l. Ok l \<in> set (t_input t) \<and> u32_from_str (trim l) = Ok 0"
    by (auto simp: closing_line_def)
next
  assume "t_input t = []"
  then show "terminal_ui cr ord t = None"
    using terminal_loop_result [OF assms, of cr "show_options t"]
    by (cases "terminal_ui cr ord t") (auto simp: terminal_ui_def)
qed

text \<open>
  When the account index that the user enters does not exist, the payment is not refused: it is
  made from the account that was selected before.
\<close>

theorem wrong_index_pays_from_old_account:
  assumes "t_input t = Ok i # Ok receiver # Ok a # Ok f # rest" and "prog_accounts (t_program t) \<noteq> []"
    and "usize_from_str (trim i) = Ok n" and "length (prog_accounts (t_program t)) \<le> n"
    and "i64_from_str (trim a) = Ok amt" and "i64_from_str (trim f) = Ok fee"
    and "Wallet_make_transaction cr (t_wallet t) (trim receiver) amt fee (t_program t) = (Ok (), p)"
  shows "\<exists>t'. handle_transaccion_request cr t = Ok t' \<and> t_program t' = p \<and> t_wallet t' = t_wallet t \<and>
    last (t_screen t') = Printed ''TRANSACTION MADE SUCCESSFULLY!''"
  using assms
  by (simp add: handle_transaccion_request_def show_indexes_of_accounts_def payment_request_def read_input_def
      read_line_def or_default_def string_from_str_def change_account_def println_def Let_def)


subsection \<open>Sample sessions\<close>

lemma white_space_chars:
  "white_space = [[CHR 0x09], [CHR 0x0A], [CHR 0x0B], [CHR 0x0C], [CHR 0x0D], [CHR 0x20],
     [CHR 0xC2, CHR 0x85], [CHR 0xC2, CHR 0xA0], [CHR 0xE1, CHR 0x9A, CHR 0x80], [CHR 0xE2, CHR 0x80, CHR 0xA8],
     [CHR 0xE2, CHR 0x80, CHR 0xA9], [CHR 0xE2, CHR 0x80, CHR 0xAF], [CHR 0xE2, CHR 0x81, CHR 0x9F],
     [CHR 0xE3, CHR 0x80, CHR 0x80], [CHR 0xE2, CHR 0x80, CHR 0x80], [CHR 0xE2, CHR 0x80, CHR 0x81],
     [CHR 0xE2, CHR 0x80, CHR 0x82], [CHR 0xE2, CHR 0x80, CHR 0x83], [CHR 0xE2, CHR 0x80, CHR 0x84],
     [CHR 0xE2, CHR 0x80, CHR 0x85], [CHR 0xE2, CHR 0x80, CHR 0x86], [CHR 0xE2, CHR 0x80, CHR 0x87],
     [CHR 0xE2, CHR 0x80, CHR 0x88], [CHR 0xE2, CHR 0x80, CHR 0x89], [CHR 0xE2, CHR 0x80, CHR 0x8A]]"
  by code_simp

lemma strip_none:
  assumes "s \<noteq> []" and "[] \<notin> set ws" and "hd s \<notin> hd ` set ws"
  shows "strip_prefixes ws n s = s"
proof (cases n)
  case (Suc m)
  have "filter (starts_with s) ws = []"
    unfolding filter_empty_conv
  proof
    fix w assume "w \<in> set ws"
    with assms show "\<not> starts_with s w"
      by (cases s; cases w) force+
  qed
  with Suc show ?thesis by simp
qed simp

text \<open>A line that neither starts nor ends with white space is what is left of it when it is trimmed.\<close>

lemma trim_line:
  assumes "s \<noteq> []" and "hd s \<notin> hd ` set white_space" and "last s \<notin> hd ` set (map rev white_space)"
  shows "trim (s @ newline) = s"
proof -
  have "[] \<notin> set white_space"
    by (simp add: white_space_chars)
  then have "strip_prefixes white_space (length (s @ newline)) (s @ newline) = s @ newline"
    using assms(1,2) by (intro strip_none) simp_all
  moreover have "filter (starts_with (CHR 0x0A # rev s)) (map rev white_space) = [newline]"
    by (simp add: white_space_chars)
  moreover have "strip_prefixes (map rev white_space) n (rev s) = rev s" for n
    using assms(1,3) \<open>[] \<notin> set white_space\<close> by (intro strip_none) (auto simp: hd_rev)
  ultimately show ?thesis
    unfolding trim_def Let_def by (simp del: strip_prefixes.simps(2)) simp
qed

definition sample_terminal :: "Account list \<Rightarrow> peer list \<Rightarrow> string list \<Rightarrow> terminal" where
  "sample_terminal accs ps ls =
     \<lparr>t_wallet = sample_wallet, t_program = sample_program accs ps, t_input = map Ok ls, t_screen = []\<rparr>"

lemma sample_lines:
  "u32_from_str (trim (''0'' @ newline)) = Ok 0" "usize_from_str (trim (''7'' @ newline)) = Ok 7"
  "i64_from_str (trim (''3'' @ newline)) = Ok 3" "i64_from_str (trim (''2'' @ newline)) = Ok 2"
  "trim (sample_address @ newline) = sample_address"
proof -
  have "char_of (7 :: nat) = CHR 0x07"
    by code_simp
  then have "hd sample_address = CHR ''1''" "last sample_address = CHR 0x07" "sample_address \<noteq> []"
    by (simp_all add: sample_address_def address_of_hash_def sample_crypto_def hash_160_def sample_key_def compute)
  then show "trim (sample_address @ newline) = sample_address"
    by (intro trim_line) (simp_all add: white_space_chars)
  have "trim ([c] @ newline) = [c]" if "c \<in> set ''0732''" for c
    using that by (intro trim_line) (auto simp: white_space_chars)
  then show "u32_from_str (trim (''0'' @ newline)) = Ok 0" "usize_from_str (trim (''7'' @ newline)) = Ok 7"
    "i64_from_str (trim (''3'' @ newline)) = Ok 3" "i64_from_str (trim (''2'' @ newline)) = Ok 2"
    by (simp_all add: u32_from_str_def usize_from_str_def i64_from_str_def parse_int_def dec_val_def)
qed

theorem terminal_session_safe_witness:
  "\<exists>t'. terminal_ui sample_crypto sorted_order (sample_terminal [] [] [''0'' @ newline]) = Some (Ok t') \<and>
     node_ok sample_crypto (shared (t_program t'))"
proof -
  let ?t = "sample_terminal [] [] [''0'' @ newline]"
  obtain t' where t': "terminal_ui sample_crypto sorted_order ?t = Some (Ok t')"
    using terminal_loop.simps [of sample_crypto sorted_order "show_options ?t"] sample_lines(1)
    by (simp add: terminal_ui_def terminal_turn_def read_line_def sample_terminal_def show_options_def)
  have "node_ok sample_crypto (shared (t_program ?t))"
    by (simp add: node_ok_def sample_terminal_def sample_program_def sample_node_def upd_accounts_def NodeDataPointers_new_def
        Blockchain_new_def wf_utxos_def)
  from terminal_session_safe [OF sorted_order_iterates t' this] t' show ?thesis by blast
qed

theorem terminal_ends_by_zero_witness:
  "terminal_ui sample_crypto sorted_order (sample_terminal [] [] []) = None"
  using terminal_ends_by_zero [OF sorted_order_iterates, of sample_crypto "sample_terminal [] [] []"]
  by (simp add: sample_terminal_def)


theorem wrong_index_pays_from_old_account_witness:
  "\<exists>t'. handle_transaccion_request sample_crypto (sample_terminal [sample_account] [sample_peer []]
        [''7'' @ newline, sample_address @ newline, ''3'' @ newline, ''2'' @ newline]) = Ok t' \<and>
     last (t_screen t') = Printed ''TRANSACTION MADE SUCCESSFULLY!''"
proof -
  let ?p = "sample_program [sample_account] [sample_peer []]"
  let ?t = "sample_terminal [sample_account] [sample_peer []]
    [''7'' @ newline, sample_address @ newline, ''3'' @ newline, ''2'' @ newline]"
  have accs: "prog_accounts ?p = [sample_account]"
    by (simp add: sample_program_def upd_accounts_def)
  obtain t a where "make_transaction sample_crypto sample_account sample_address 3 2 = Ok (t, a)"
    using sample_payment by blast
  then obtain p where p: "Wallet_make_transaction sample_crypto sample_wallet sample_address 3 2 ?p = (Ok (), p)"
    using Wallet_make_transaction_cases [of sample_wallet 0 ?p 3 2 sample_crypto sample_address t a] sample_amounts accs
    by (auto simp: broadcast_tx_eq sample_wallet_def sample_peer_def) (auto simp: sample_program_def)
  have "\<exists>t'. handle_transaccion_request sample_crypto ?t = Ok t' \<and> t_program t' = p \<and> t_wallet t' = t_wallet ?t \<and>
      last (t_screen t') = Printed ''TRANSACTION MADE SUCCESSFULLY!''"
    by (rule wrong_index_pays_from_old_account
        [where i = "''7'' @ newline" and receiver = "sample_address @ newline" and a = "''3'' @ newline"
          and f = "''2'' @ newline" and n = 7 and amt = 3 and fee = 2 and rest = "[]"])
      (use accs p sample_lines in \<open>simp_all add: sample_terminal_def\<close>)
  then show ?thesis by blast
qed

end
