(* ===== verification/Log.thy ===== *)
theory Log
  imports Config
begin

section \<open>Log files (src/logwriter/log\_writer.rs)\<close>

text \<open>
  A logger is a thread that writes the messages sent to it to its file, each with the time. What it
  has not yet received is a queue; senders are closed only at the shutdown, which waits for the
  thread to empty the queue. The clock is read as the thread runs: the readings are arguments.
\<close>

record local_time =
  lt_day :: nat
  lt_month :: nat
  lt_year :: nat
  lt_hour :: nat
  lt_minute :: nat
  lt_second :: nat

text \<open>The format \<open>{:02}\<close>.\<close>

definition two_digits :: "nat \<Rightarrow> string" where
  "two_digits n = (if n < 10 then CHR ''0'' # decimal n else decimal n)"

definition CENTER_DATE_LINE :: string where
  "CENTER_DATE_LINE = replicate 43 CHR ''-''"

definition FINAL_LOG_LINE :: string where
  "FINAL_LOG_LINE = replicate 125 CHR ''-''"

definition get_initial_date_format :: "local_time \<Rightarrow> string" where
  "get_initial_date_format now =
     [CHR 0x0A] @ CENTER_DATE_LINE @ '' Actual date: '' @ decimal (lt_day now) @ ''-'' @ decimal (lt_month now) @ ''-'' @
     decimal (lt_year now) @ '' Hour: '' @ two_digits (lt_hour now) @ '':'' @ two_digits (lt_minute now) @ '':'' @
     two_digits (lt_second now) @ '' '' @ CENTER_DATE_LINE @ [CHR 0x0A]"

text \<open>The clock is read three times.\<close>

definition get_date_as_string :: "local_time \<times> local_time \<times> local_time \<Rightarrow> string" where
  "get_date_as_string = (\<lambda>(now1, now2, now3).
     decimal (lt_hour now1) @ '':'' @ decimal (lt_minute now2) @ '':'' @ two_digits (lt_second now3))"

subsection \<open>One logger\<close>

text \<open>\<open>writable\<close>: whether writing to the file works; when it does not, the line is lost (and shown on the console).\<close>

record logger =
  log_contents :: string
  writable :: bool
  log_queue :: "string list"

definition writeln :: "string \<Rightarrow> logger \<Rightarrow> logger" where
  "writeln line lg = (if writable lg then lg\<lparr>log_contents := log_contents lg @ line @ [CHR 0x0A]\<rparr> else lg)"

text \<open>What the file system answers: whether the folder exists, creating it, and opening the file.\<close>

record log_disk =
  dir_exists :: bool
  create_dir :: "(unit, string) result"
  opened :: "(string \<times> bool, string) result"

definition open_log_file :: "log_disk \<Rightarrow> (string \<times> bool, NodeCustomErrors) result" where
  "open_log_file d =
     and_then (if \<not> dir_exists d then map_err OpeningFileError (create_dir d) else Ok ()) (\<lambda>_.
     map_err OpeningFileError (opened d))"

definition create_logger :: "log_disk \<Rightarrow> local_time \<Rightarrow> (logger, NodeCustomErrors) result" where
  "create_logger d now =
     and_then (open_log_file d) (\<lambda>(contents, works).
     Ok (writeln (get_initial_date_format now) \<lparr>log_contents = contents, writable = works, log_queue = []\<rparr>))"

definition write_in_log :: "string \<Rightarrow> logger \<Rightarrow> logger" where
  "write_in_log msg lg = lg\<lparr>log_queue := log_queue lg @ [msg]\<rparr>"

text \<open>A turn of the thread, and its run until the queue is empty; a reading of the clock for each message.\<close>

definition log_turn :: "local_time \<times> local_time \<times> local_time \<Rightarrow> logger \<Rightarrow> logger" where
  "log_turn now lg =
     (case log_queue lg of
        [] \<Rightarrow> lg
      | msg # q \<Rightarrow> writeln (get_date_as_string now @ '': '' @ msg) (lg\<lparr>log_queue := q\<rparr>))"

function log_drain :: "(nat \<Rightarrow> local_time \<times> local_time \<times> local_time) \<Rightarrow> nat \<Rightarrow> logger \<Rightarrow> logger" where
  "log_drain clocks k lg = (if log_queue lg = [] then lg else log_drain clocks (Suc k) (log_turn (clocks k) lg))"
  by pat_completeness auto
termination
  by (relation "measure (\<lambda>(clocks, k, lg). length (log_queue lg))")
    (auto simp: log_turn_def writeln_def split: list.split)

declare log_drain.simps [simp del]

definition shutdown_logger :: "(nat \<Rightarrow> local_time \<times> local_time \<times> local_time) \<Rightarrow> logger \<Rightarrow> logger" where
  "shutdown_logger clocks lg =
     log_drain clocks 0 (write_in_log (''Closing log '' @ [CHR 0x0A, CHR 0x0A] @ FINAL_LOG_LINE) lg)"

subsection \<open>The three of the program\<close>

record LogSender =
  info_log :: logger
  error_log :: logger
  message_log :: logger

definition set_up_loggers ::
  "(string \<Rightarrow> log_disk) \<Rightarrow> (string \<Rightarrow> local_time) \<Rightarrow> Config \<Rightarrow> (LogSender, NodeCustomErrors) result" where
  "set_up_loggers disk now config =
     and_then (create_logger (disk (info_log_path config)) (now (info_log_path config))) (\<lambda>info.
     and_then (create_logger (disk (error_log_path config)) (now (error_log_path config))) (\<lambda>error.
     and_then (create_logger (disk (message_log_path config)) (now (message_log_path config))) (\<lambda>message.
     Ok \<lparr>info_log = info, error_log = error, message_log = message\<rparr>)))"

definition shutdown_loggers :: "(nat \<Rightarrow> local_time \<times> local_time \<times> local_time) \<Rightarrow> LogSender \<Rightarrow> LogSender" where
  "shutdown_loggers clocks s =
     \<lparr>info_log = shutdown_logger clocks (info_log s), error_log = shutdown_logger clocks (error_log s),
      message_log = shutdown_logger clocks (message_log s)\<rparr>"

subsection \<open>Nothing that was logged is lost\<close>

fun log_lines :: "(nat \<Rightarrow> local_time \<times> local_time \<times> local_time) \<Rightarrow> nat \<Rightarrow> string list \<Rightarrow> string" where
  "log_lines clocks k [] = []"
| "log_lines clocks k (msg # msgs) =
     get_date_as_string (clocks k) @ '': '' @ msg @ [CHR 0x0A] @ log_lines clocks (Suc k) msgs"

lemma log_drain_contents:
  "writable lg \<Longrightarrow>
     log_contents (log_drain clocks k lg) = log_contents lg @ log_lines clocks k (log_queue lg) \<and>
     log_queue (log_drain clocks k lg) = []"
proof (induction clocks k lg rule: log_drain.induct)
  case (1 clocks k lg)
  show ?case
  proof (cases "log_queue lg")
    case Nil
    then show ?thesis by (simp add: log_drain.simps [of clocks k lg])
  next
    case (Cons msg q)
    with 1 show ?thesis
      by (simp add: log_drain.simps [of clocks k lg] log_turn_def writeln_def)
  qed
qed

text \<open>
  C36. Every message of a log reaches its file: the messages that were sent, and then the closing one,
  are written in the order in which they were sent, after what the file had before, and the shutdown
  returns with the queue empty.
\<close>

theorem log_is_complete:
  assumes "create_logger d now = Ok lg" and "opened d = Ok (before, True)"
  shows "log_contents (shutdown_logger clocks (fold write_in_log msgs lg)) =
      before @ get_initial_date_format now @ [CHR 0x0A] @
      log_lines clocks 0 (msgs @ [''Closing log '' @ [CHR 0x0A, CHR 0x0A] @ FINAL_LOG_LINE]) \<and>
    log_queue (shutdown_logger clocks (fold write_in_log msgs lg)) = []"
proof -
  have fold: "fold write_in_log msgs l = l\<lparr>log_queue := log_queue l @ msgs\<rparr>" for l
    by (induction msgs arbitrary: l) (simp_all add: write_in_log_def)
  have "lg = \<lparr>log_contents = before @ get_initial_date_format now @ [CHR 0x0A], writable = True, log_queue = []\<rparr>"
    using assms by (auto simp: create_logger_def open_log_file_def and_then_eq_Ok writeln_def split: if_splits)
  then show ?thesis
    by (simp add: shutdown_logger_def log_drain_contents write_in_log_def fold)
qed

theorem log_is_complete_witness:
  "\<exists>lg. create_logger \<lparr>dir_exists = True, create_dir = Ok (), opened = Ok ([], True)\<rparr>
      \<lparr>lt_day = 1, lt_month = 2, lt_year = 2023, lt_hour = 3, lt_minute = 4, lt_second = 5\<rparr> = Ok lg \<and>
    (\<forall>clocks. log_queue (shutdown_logger clocks (fold write_in_log [''hello''] lg)) = [])"
proof -
  let ?d = "\<lparr>dir_exists = True, create_dir = Ok (), opened = Ok ([], True)\<rparr>"
  let ?now = "\<lparr>lt_day = 1, lt_month = 2, lt_year = 2023, lt_hour = 3, lt_minute = 4, lt_second = 5\<rparr>"
  obtain lg where lg: "create_logger ?d ?now = Ok lg"
    by (simp add: create_logger_def open_log_file_def)
  with log_is_complete [OF lg, of "[]" _ "[''hello'']"] show ?thesis by auto
qed

end
