(* ===== verification/Startup.thy ===== *)
theory Startup
  imports Ibd_Properties Server Terminal Log
begin

section \<open>From the arguments to the running program (src/main.rs)\<close>

text \<open>
  \<open>run_node\<close> up to the point where the user interface is served is the function \<open>start_node\<close> here; from
  there on the threads of the program are the step relation of the theory \<open>Program\<close>, and the last
  steps are \<open>handle_ui_events\<close> and \<open>shut_down\<close>. What the system provides is
  a record; \<open>None\<close> is a start that has not finished under the given schedules of the handshake and the
  download.
\<close>

text \<open>The arguments: with a third one \<open>-i\<close>, which is removed, the graphical interface is used.\<close>

definition main :: "string list \<Rightarrow> bool \<times> string list" where
  "main args = (if length args = 3 \<and> args ! 2 = ''-i'' then (True, butlast args) else (False, args))"

text \<open>The events that the node takes from the interface before it starts; what is left is served later.\<close>

fun wait_for_start_button :: "WalletEvent list option \<Rightarrow> WalletEvent list option" where
  "wait_for_start_button (Some (event # events)) =
     (if event = Start then Some events else wait_for_start_button (Some events))"
| "wait_for_start_button rx = rx"

record system =
  sys_open :: "string \<Rightarrow> string + string"
  sys_log_disk :: "string \<Rightarrow> log_disk"
  sys_log_now :: "string \<Rightarrow> local_time"
  sys_net :: net
  sys_parse_date :: "string \<Rightarrow> string \<Rightarrow> (int, string) result"
  sys_headers_file :: "string \<Rightarrow> (bytes, NodeCustomErrors) result option"
  sys_create_file :: "string \<Rightarrow> (unit, string) result"
  sys_ipv6_from_str :: "string \<Rightarrow> u16 list option"

text \<open>The state of the program once it runs: the wallet, the node that the server has, the shared data.\<close>

record started =
  st_config :: Config
  st_logs :: LogSender
  st_wallet :: Wallet
  st_node :: Node
  st_program :: program
  st_server :: SocketAddr
  st_events :: "WalletEvent list option"

definition prepare :: "system \<Rightarrow> string list \<Rightarrow> (Config \<times> LogSender \<times> bytes list, NodeCustomErrors) result" where
  "prepare sys args =
     and_then (Config_from (sys_open sys) args) (\<lambda>config.
     and_then (set_up_loggers (sys_log_disk sys) (sys_log_now sys) config) (\<lambda>logs.
     and_then (get_active_nodes_from_dns_seed (sys_net sys) config) (\<lambda>node_ips.
     Ok (config, logs, node_ips))))"

definition begin_serving ::
  "system \<Rightarrow> WalletEvent list option \<Rightarrow> Config \<Rightarrow> LogSender \<Rightarrow> Blockchain \<Rightarrow> download \<Rightarrow> (started, NodeCustomErrors) result" where
  "begin_serving sys rx config logs bc t =
     and_then (Node_new (map stream (dl_nodes t)) bc (StartHandshake # dl_ui t)) (\<lambda>(node, p).
     let p = show_ui (InitializeUITabs (headers bc) (blocks bc)) p;
         (wallet, p) = Wallet_new node p in
     and_then (NodeServer_new (sys_ipv6_from_str sys) config) (\<lambda>server.
     Ok \<lparr>st_config = config, st_logs = logs, st_wallet = wallet, st_node = node, st_program = p,
         st_server = server, st_events = rx\<rparr>))"

definition start_node ::
  "crypto \<Rightarrow> system \<Rightarrow> nat list \<Rightarrow> ibd_action list \<Rightarrow> string list \<Rightarrow> WalletEvent list option \<Rightarrow>
     (started, NodeCustomErrors) result option" where
  "start_node cr sys hs_schedule dl_schedule args node_rx =
     (let rx = wait_for_start_button node_rx in
      case prepare sys args of
        Err e \<Rightarrow> Some (Err e)
      | Panic \<Rightarrow> Some Panic
      | Ok (config, logs, node_ips) \<Rightarrow>
          (case handshake_with_nodes cr (sys_net sys) config hs_schedule node_ips of
             None \<Rightarrow> None
           | Some (Err e) \<Rightarrow> Some (Err e)
           | Some Panic \<Rightarrow> Some Panic
           | Some (Ok nodes) \<Rightarrow>
               map_option (\<lambda>(r, t). and_then r (\<lambda>blockchain. begin_serving sys rx config logs blockchain t))
                 (initial_block_download cr (sys_parse_date sys) config
                    (sys_headers_file sys (headers_file config)) (sys_create_file sys (headers_file config))
                    dl_schedule nodes)))"

text \<open>Serving the user, by the events of the interface or at the terminal.\<close>

definition handle_ui_events ::
  "crypto \<Rightarrow> (utxo_map \<Rightarrow> hash32 list) \<Rightarrow> WalletEvent list option \<Rightarrow> terminal \<Rightarrow> (terminal, string) result option" where
  "handle_ui_events cr ord node_rx t =
     (case node_rx of
        Some events \<Rightarrow>
          Some (and_then (handle_ui_request cr ord events (t_wallet t, t_program t)) (\<lambda>(w, p).
                Ok (t\<lparr>t_wallet := w, t_program := p\<rparr>)))
      | None \<Rightarrow> terminal_ui cr ord t)"

text \<open>
  Closing: the peers' threads, the server (whose thread may already have ended), the loggers.
\<close>

definition shut_down ::
  "(unit, NodeCustomErrors) result option \<Rightarrow> (nat \<Rightarrow> local_time \<times> local_time \<times> local_time) \<Rightarrow> LogSender \<Rightarrow> program \<Rightarrow>
     (LogSender, NodeCustomErrors) result \<times> program" where
  "shut_down server clocks logs p =
     (and_then (shutdown_server server) (\<lambda>_. Ok (shutdown_loggers clocks logs)), shutdown_node p)"

text \<open>
  With the graphical interface the node runs in a thread of its own, which first waits for the sender of
  the interface; \<open>node\<close> is what \<open>run_node\<close> returns, \<open>None\<close> as long as it runs. The main thread joins it.
\<close>

definition run_with_ui ::
  "(unit, string) result \<Rightarrow> (unit, NodeCustomErrors) result option \<Rightarrow> (unit, NodeCustomErrors) result option" where
  "run_with_ui ui_tx node =
     map_option join_ended
       (case ui_tx of
          Ok _ \<Rightarrow> node
        | Err e \<Rightarrow> Some (Err (ThreadChannelError e))
        | Panic \<Rightarrow> Some Panic)"

lemma run_with_ui_error: "run_with_ui ui_tx node \<noteq> Some Panic"
proof -
  have "join_ended r \<noteq> Panic" for r :: "(unit, NodeCustomErrors) result"
    by (cases r) simp_all
  then show ?thesis
    by (auto simp: run_with_ui_def)
qed

subsection \<open>The state after the start\<close>

lemma start_listeners_shared:
  "start_listeners n h p = Ok (h', p') \<Longrightarrow>
     prog_chain p' = prog_chain p \<and> prog_accounts p' = prog_accounts p \<and>
     transactions_received (shared p') = transactions_received (shared p)"
proof (induction n arbitrary: h p)
  case (Suc n)
  from Suc.prems obtain node rest where
      n: "start_listeners n \<lparr>nodes_sender = nodes_sender h @ [length (peers p)]\<rparr>
        (p\<lparr>shared := (shared p)\<lparr>pointers := (pointers (shared p))\<lparr>connected_nodes := rest\<rparr>\<rparr>,
           peers := peers p @ [\<lparr>conn = connection_of node, channel = [], listening = True\<rparr>]\<rparr>) = Ok (h', p')"
    by (auto simp: and_then_eq_Ok handle_messages_from_node_def Let_def)
  from Suc.IH [OF n] show ?case by simp
qed simp

lemma begin_serving_Ok:
  assumes "begin_serving sys rx config logs bc t = Ok s"
  shows "prog_chain (st_program s) = bc \<and> prog_accounts (st_program s) = [] \<and>
    transactions_received (shared (st_program s)) = []"
proof -
  define p0 where "p0 = \<lparr>shared = \<lparr>pointers = NodeDataPointers_new (map stream (dl_nodes t)) bc [],
      transactions_received = [], sent = [], ui = StartHandshake # dl_ui t\<rparr>, peers = [], finished = False\<rparr>"
  from assms obtain h p where n: "NodeMessageHandler_new p0 = Ok (h, p)"
      and s: "st_program s = set_accounts [] (show_ui (InitializeUITabs (headers bc) (blocks bc)) p)"
    by (auto simp: begin_serving_def Node_new_def p0_def [symmetric] and_then_eq_Ok Wallet_new_def Let_def)
  have "prog_chain p = bc \<and> transactions_received (shared p) = []"
    using start_listeners_shared [OF n [unfolded NodeMessageHandler_new_def]]
    by (simp add: p0_def NodeDataPointers_new_def)
  with s show ?thesis
    by (simp add: set_accounts_def set_prog_accounts_def upd_accounts_def show_ui_def send_event_to_ui_def)
qed

lemma start_node_Ok:
  assumes "start_node cr sys hs_schedule dl_schedule args node_rx = Some (Ok s)"
  obtains rx config logs ips nodes bc t where "prepare sys args = Ok (config, logs, ips)"
    "handshake_with_nodes cr (sys_net sys) config hs_schedule ips = Some (Ok nodes)"
    "initial_block_download cr (sys_parse_date sys) config (sys_headers_file sys (headers_file config))
       (sys_create_file sys (headers_file config)) dl_schedule nodes = Some (Ok bc, t)"
    "begin_serving sys rx config logs bc t = Ok s"
  using assms unfolding start_node_def Let_def
  by (auto simp: and_then_eq_Ok split: result.split_asm option.split_asm prod.split_asm)

lemma started_ok:
  assumes "digest_lengths cr" and "start_node cr sys hs_schedule dl_schedule args node_rx = Some (Ok s)"
  shows "node_ok cr (shared (st_program s)) \<and> (\<exists>later. headers (prog_chain (st_program s)) = GENESIS_BLOCK_HEADER # later)"
proof (rule start_node_Ok [OF assms(2)])
  fix rx config logs ips nodes bc t
  assume d: "initial_block_download cr (sys_parse_date sys) config (sys_headers_file sys (headers_file config))
       (sys_create_file sys (headers_file config)) dl_schedule nodes = Some (Ok bc, t)"
    and b: "begin_serving sys rx config logs bc t = Ok s"
  have "wf_utxos Map.empty" "finite (dom (Map.empty :: utxo_map))"
    by (simp_all add: wf_utxos_def)
  from fold_utxos_after [OF this, of cr "concat (dl_utxo_queue t)"] initial_download_result [OF assms(1) d]
    begin_serving_Ok [OF b]
  show ?thesis
    by (auto simp: node_ok_def good_blocks_def good_block_def)
qed

text \<open>The unspent outputs after the start come from the received blocks.\<close>

lemma started_coins:
  assumes "digest_lengths cr" and "start_node cr sys hs_schedule dl_schedule args node_rx = Some (Ok s)"
  shows "\<exists>ds. list_all (good_block cr) ds \<and>
    utxo_view (bc_utxo_set (prog_chain (st_program s))) = fold (apply_tx cr) (concat (map txn ds)) Map.empty"
proof (rule start_node_Ok [OF assms(2)])
  fix rx config logs ips nodes bc t
  assume d: "initial_block_download cr (sys_parse_date sys) config (sys_headers_file sys (headers_file config))
       (sys_create_file sys (headers_file config)) dl_schedule nodes = Some (Ok bc, t)"
    and b: "begin_serving sys rx config logs bc t = Ok s"
  let ?ds = "concat (dl_utxo_queue t)"
  have "wf_utxos Map.empty" "finite (dom (Map.empty :: utxo_map))" "utxo_view Map.empty = Map.empty"
    by (simp_all add: wf_utxos_def utxo_view_def fun_eq_iff)
  with fold_utxos_after [of Map.empty cr ?ds] initial_download_result(3,4) [OF assms(1) d] begin_serving_Ok [OF b]
  show ?thesis
    by (intro exI [of _ ?ds]) (auto simp: list_all_iff)
qed

subsection \<open>Properties\<close>



subsection \<open>A start on a small network\<close>

definition sample_settings :: "string list" where
  "sample_settings =
     [''CONNECT_TO_DNS_NODES=false'', ''CUSTOM_NODES_IPS=2.2.2.2'', ''N_THREADS=1''] @ replicate 20 ''DNS_SEED=a''"

definition sample_file :: string where
  "sample_file = concat (map (\<lambda>l. l @ [CHR 0x0A]) sample_settings)"

definition sample_config :: Config where
  "sample_config = initial_config\<lparr>connect_to_dns_nodes := False, custom_nodes_ips := [''2.2.2.2''], n_threads := 1,
     dns_seed := ''a''\<rparr>"

lemma from_utf8_ok: "utf8_valid (as_bytes l) \<Longrightarrow> from_utf8 (as_bytes l) = Ok l"
  by (simp add: from_utf8_def)

lemma sample_file_accepted: "from_reader sample_file = Ok sample_config"
proof -
  have l: "lines_of sample_file = sample_settings"
    unfolding sample_file_def
    by (rule lines_of_terminated) (auto simp: sample_settings_def strip_cr_def)
  have v: "from_utf8 (as_bytes ''CONNECT_TO_DNS_NODES=false'') = Ok ''CONNECT_TO_DNS_NODES=false''"
      "from_utf8 (as_bytes ''CUSTOM_NODES_IPS=2.2.2.2'') = Ok ''CUSTOM_NODES_IPS=2.2.2.2''"
      "from_utf8 (as_bytes ''N_THREADS=1'') = Ok ''N_THREADS=1''"
    by (rule from_utf8_ok, simp add: as_bytes_def)+
  have s: "read_settings sample_settings initial_config 0 = Ok (sample_config, 23)"
    by (simp add: sample_settings_def v Let_def load_setting_def bool_from_str_def usize_from_str_def parse_int_def
        dec_val_def read_settings_dns sample_config_def del: replicate.simps)
  show ?thesis
    by (simp add: from_reader_def l s check_number_of_attributes_def AMOUNT_OF_ATTRIBUTES_def)
qed

definition serving_net :: net where
  "serving_net = sample_net\<lparr>dial := (\<lambda>a.
     Ok (V4 [9, 9, 9, 9] 5, \<lparr>stream = \<lparr>inp = frame sample_crypto ''version'' (VersionPayload_to_le_bytes sample_version) @
       frame sample_crypto ''verack'' [] @ headers_stream sample_crypto [[sample_header]], outp = []\<rparr>, writes_left = None\<rparr>))\<rparr>"

definition sample_system :: system where
  "sample_system =
     \<lparr>sys_open = (\<lambda>path. Inr sample_file),
      sys_log_disk = (\<lambda>path. \<lparr>dir_exists = True, create_dir = Ok (), opened = Ok ([], True)\<rparr>),
      sys_log_now = (\<lambda>path. \<lparr>lt_day = 1, lt_month = 1, lt_year = 2023, lt_hour = 0, lt_minute = 0, lt_second = 0\<rparr>), sys_net = serving_net, sys_parse_date = (\<lambda>d f. Ok 0),
      sys_headers_file = (\<lambda>path. None), sys_create_file = (\<lambda>path. Ok ()), sys_ipv6_from_str = (\<lambda>s. None)\<rparr>"

lemma sample_prepare:
  "\<exists>logs. prepare sample_system [''node'', ''conf''] = Ok (sample_config, logs, [[2, 2, 2, 2]])"
  by (simp add: prepare_def sample_system_def Config_from_def sample_file_accepted set_up_loggers_def create_logger_def
      open_log_file_def get_active_nodes_from_dns_seed_def sample_config_def ipv4_from_str_def ipv4_octet_def
      u8_from_str_def parse_int_def dec_val_def Let_def)

lemma sample_handshake:
  "\<exists>node. handshake_with_nodes sample_crypto serving_net sample_config [0, 0] [[2, 2, 2, 2]] = Some (Ok [node]) \<and>
     serves sample_crypto [[sample_header]] node"
proof -
  let ?a = "V4 [2, 2, 2, 2] (net_port sample_config)"
  have d: "dial serving_net ?a = Ok (V4 [9, 9, 9, 9] 5,
      \<lparr>stream = \<lparr>inp = framed sample_crypto [] @ frame sample_crypto ''version'' (VersionPayload_to_le_bytes sample_version) @
          framed sample_crypto [] @ frame sample_crypto ''verack'' [] @ headers_stream sample_crypto [[sample_header]],
        outp = []\<rparr>, writes_left = None\<rparr>)"
    by (simp add: serving_net_def framed_def)
  obtain m where m: "get_version_message sample_crypto (clock serving_net ?a) (random serving_net ?a) sample_config ?a
      (V4 [9, 9, 9, 9] 5) = Ok m"
    using sample_own_version [of "[2, 2, 2, 2]"] by (fastforce simp: serving_net_def)
  from connect_to_honest_node [OF d m _ _ sample_version_wf sample_checksum_length] obtain node where
      "connect_to_node sample_crypto serving_net sample_config [2, 2, 2, 2] = Ok node"
      "serves sample_crypto [[sample_header]] node"
    by (simp add: serves_def)
  then show ?thesis
    by (simp add: handshake_with_nodes_def handshake_start_def chunks_def equal_chunk_size_def sample_config_def
        chunk_list.simps [of _ "_ # _"] connect_to_nodes_def connect_next_def any_connection_def Let_def)
qed

lemma start_listeners_Ok:
  "n \<le> length (connected_nodes (pointers (shared p))) \<Longrightarrow> \<exists>r. start_listeners n h p = Ok r"
proof (induction n arbitrary: h p)
  case (Suc n)
  then show ?case
    by (cases "connected_nodes (pointers (shared p))" rule: rev_cases)
      (auto simp: get_last_node_def handle_messages_from_node_def Let_def)
qed simp

lemma begin_serving_succeeds: "\<exists>s. begin_serving sys rx config logs bc t = Ok s"
proof -
  obtain h p where "NodeMessageHandler_new \<lparr>shared = \<lparr>pointers = NodeDataPointers_new (map stream (dl_nodes t)) bc [],
      transactions_received = [], sent = [], ui = StartHandshake # dl_ui t\<rparr>, peers = [], finished = False\<rparr> = Ok (h, p)"
    using start_listeners_Ok by (fastforce simp: NodeMessageHandler_new_def get_amount_of_nodes_def)
  then show ?thesis
    by (simp add: begin_serving_def Node_new_def server_address Wallet_new_def Let_def)
qed

lemma sample_start: "\<exists>s. start_node sample_crypto sample_system [0, 0] [] [''node'', ''conf''] None = Some (Ok s)"
proof -
  obtain logs where p: "prepare sample_system [''node'', ''conf''] = Ok (sample_config, logs, [[2, 2, 2, 2]])"
    using sample_prepare by blast
  obtain node where h: "handshake_with_nodes sample_crypto serving_net sample_config [0, 0] [[2, 2, 2, 2]] = Some (Ok [node])"
      "serves sample_crypto [[sample_header]] node"
    using sample_handshake by blast
  have c: "\<not> read_headers_from_disk sample_config" "headers_in_disk sample_config = 0"
    by (simp_all add: sample_config_def initial_config_def)
  obtain bc t where d: "initial_block_download sample_crypto (\<lambda>d f. Ok 0) sample_config None (Ok ()) [] [node] = Some (Ok bc, t)"
    using served_initial_download [OF h(2) c] by blast
  obtain s where "begin_serving sample_system None sample_config logs bc t = Ok s"
    using begin_serving_succeeds by blast
  moreover have "sys_net sample_system = serving_net" "sys_parse_date sample_system = (\<lambda>d f. Ok 0)"
      "sys_headers_file sample_system path = None" "sys_create_file sample_system path = Ok ()" for path
    by (simp_all add: sample_system_def)
  ultimately show ?thesis
    by (simp add: start_node_def p h(1) d)
qed



end
