(* ===== verification/Interface.thy ===== *)
theory Interface
  imports Program
begin

section \<open>The graphical interface (src/gtk/)\<close>

text \<open>
  The functions that answer the events of the node and the actions of the user. The widgets belong to
  GTK, which is not modelled: what a function does to them is the list of the calls it makes, in their
  order, under the names that the widgets have in the interface file; what it reads from them (the
  text of an entry, the selected account) is an argument. The requests that it sends to the node are a
  list too; when the node no longer receives, the \<open>expect\<close> of the sender panics. The time of a header in
  the local time zone, and whether the picture and style files can be loaded, come from the system.
\<close>

datatype row =
    BlockRow u32 string string u64
  | HeaderRow u32 string string
  | TransactionRow string string string string i64
  | EmptyRow

datatype widget_call =
    SetLabel string string
  | SetText string string
  | SetTitle string string
  | SetVisible string bool
  | SetSensitive string bool
  | SetFraction string nat nat \<comment> \<open>the quotient of the two numbers\<close>
  | SetImage string string
  | SetIcon string
  | SetModel string string
  | SetNewModel string "row list"
  | AppendRow string row
  | PrependRow string row
  | AppendText string string
  | ShowWindow string
  | CloseWindow string
  | Dialog string string \<comment> \<open>the message and the title\<close>
  | AddStyle
  | Quit

record gui =
  calls :: "widget_call list"
  requests :: "WalletEvent list"
  node_receives :: bool

record desktop =
  local_time_to_string :: "u32 \<Rightarrow> string"
  from_file :: "string \<Rightarrow> bool"
  scales_icon :: bool
  style_applies :: bool

definition BlockHeader_local_time :: "desktop \<Rightarrow> BlockHeader \<Rightarrow> string" where
  "BlockHeader_local_time desk self = local_time_to_string desk (bh_time self)"

definition Block_local_time :: "desktop \<Rightarrow> Block \<Rightarrow> string" where
  "Block_local_time desk self = BlockHeader_local_time desk (block_header self)"

definition perform :: "widget_call list \<Rightarrow> gui \<Rightarrow> gui" where
  "perform cs g = g\<lparr>calls := calls g @ cs\<rparr>"

definition request :: "WalletEvent \<Rightarrow> gui \<Rightarrow> (gui, unit) result" where
  "request event g = (if node_receives g then Ok (g\<lparr>requests := requests g @ [event]\<rparr>) else Panic)"

definition show_dialog_message_pop_up :: "string \<Rightarrow> string \<Rightarrow> gui \<Rightarrow> gui" where
  "show_dialog_message_pop_up message title g = perform [Dialog message title] g"

subsection \<open>The tables (ui\_functions.rs)\<close>

definition AMOUNT_TO_SHOW :: nat where "AMOUNT_TO_SHOW = 500"

definition ICON_FILE :: string where "ICON_FILE = ''src/gtk/resources/icon.png''"

definition add_block_row :: "crypto \<Rightarrow> desktop \<Rightarrow> (row \<Rightarrow> widget_call) \<Rightarrow> Block \<Rightarrow> gui \<Rightarrow> (gui, unit) result" where
  "add_block_row cr desk at block g =
     and_then (Block_get_height block) (\<lambda>ht.
     and_then (decoded_value (txn_count block)) (\<lambda>count.
     Ok (perform [at (BlockRow ht (Block_hex_hash cr block) (Block_local_time desk block) count)] g)))"

definition add_row_last_to_liststore_block :: "crypto \<Rightarrow> desktop \<Rightarrow> Block \<Rightarrow> gui \<Rightarrow> (gui, unit) result" where
  "add_row_last_to_liststore_block cr desk = add_block_row cr desk (AppendRow ''liststore-blocks'')"

definition add_row_first_to_liststore_block :: "crypto \<Rightarrow> desktop \<Rightarrow> Block \<Rightarrow> gui \<Rightarrow> (gui, unit) result" where
  "add_row_first_to_liststore_block cr desk = add_block_row cr desk (PrependRow ''liststore-blocks'')"

definition add_header_row :: "crypto \<Rightarrow> desktop \<Rightarrow> (row \<Rightarrow> widget_call) \<Rightarrow> BlockHeader \<Rightarrow> u32 \<Rightarrow> gui \<Rightarrow> gui" where
  "add_header_row cr desk at header ht g =
     perform [at (HeaderRow ht (BlockHeader_hex_hash cr header) (BlockHeader_local_time desk header))] g"

definition add_row_last_to_liststore_headers :: "crypto \<Rightarrow> desktop \<Rightarrow> BlockHeader \<Rightarrow> u32 \<Rightarrow> gui \<Rightarrow> gui" where
  "add_row_last_to_liststore_headers cr desk = add_header_row cr desk (AppendRow ''liststore-headers'')"

definition add_row_first_to_liststore_headers :: "crypto \<Rightarrow> desktop \<Rightarrow> BlockHeader \<Rightarrow> u32 \<Rightarrow> gui \<Rightarrow> gui" where
  "add_row_first_to_liststore_headers cr desk = add_header_row cr desk (PrependRow ''liststore-headers'')"

definition initialize_blocks_tab ::
  "crypto \<Rightarrow> desktop \<Rightarrow> BlockHeader list \<Rightarrow> (hash32 \<rightharpoonup> Block) \<Rightarrow> gui \<Rightarrow> (gui, unit) result" where
  "initialize_blocks_tab cr desk hs bs g =
     (let g = perform [SetNewModel ''block_table'' []] g;
          block_hash = map (BlockHeader_hash cr) (take AMOUNT_TO_SHOW (rev hs)) in
      and_then
        (fold_result (\<lambda>hash g.
            case bs hash of Some block \<Rightarrow> add_row_last_to_liststore_block cr desk block g | None \<Rightarrow> Panic) block_hash g)
        (\<lambda>g. Ok (perform [SetModel ''block_table'' ''liststore-blocks''] g)))"

definition initialize_headers_tab :: "crypto \<Rightarrow> desktop \<Rightarrow> BlockHeader list \<Rightarrow> gui \<Rightarrow> gui" where
  "initialize_headers_tab cr desk hs g =
     (let add = (\<lambda>(index, header). add_row_last_to_liststore_headers cr desk header (of_nat index));
          g = perform [SetNewModel ''header_table'' []] g;
          g = fold add (take (AMOUNT_TO_SHOW div 2) (rev (enumerate 0 hs))) g;
          g = fold add (rev (take (AMOUNT_TO_SHOW div 2) (drop 1 (enumerate 0 hs)))) g in
      perform [SetModel ''header_table'' ''liststore-headers''] g)"

definition set_icon :: "desktop \<Rightarrow> string \<Rightarrow> gui \<Rightarrow> gui" where
  "set_icon desk window g = (if from_file desk ICON_FILE \<and> scales_icon desk then perform [SetIcon window] g else g)"

definition render_main_window ::
  "crypto \<Rightarrow> desktop \<Rightarrow> BlockHeader list \<Rightarrow> (hash32 \<rightharpoonup> Block) \<Rightarrow> gui \<Rightarrow> (gui, unit) result" where
  "render_main_window cr desk hs bs g =
     (let g = perform [CloseWindow ''initial-window'', SetTitle ''main-window'' ''Bitcoin Wallet''] g;
          g = set_icon desk ''main-window'' g;
          g = perform [ShowWindow ''main-window''] g in
      initialize_blocks_tab cr desk hs bs (initialize_headers_tab cr desk hs g))"

definition handle_add_block :: "crypto \<Rightarrow> desktop \<Rightarrow> Block \<Rightarrow> gui \<Rightarrow> (gui, unit) result" where
  "handle_add_block cr desk block g =
     and_then (add_row_first_to_liststore_block cr desk block g) (\<lambda>g.
     and_then (Block_get_height block) (\<lambda>ht.
     request GetAccountRequest (add_row_first_to_liststore_headers cr desk (block_header block) ht g)))"

subsection \<open>The transactions of the account\<close>

definition transaction_row :: "crypto \<Rightarrow> desktop \<Rightarrow> string \<times> Transaction \<times> i64 \<Rightarrow> row" where
  "transaction_row cr desk = (\<lambda>(status, tx, v).
     let file = (if status = ''Pending'' then ''src/gtk/resources/pending.png'' else ''src/gtk/resources/confirmed.png'') in
     if from_file desk file then TransactionRow file status (Transaction_hex_hash cr tx) ''P2PKH'' v else EmptyRow)"

definition render_transactions :: "crypto \<Rightarrow> desktop \<Rightarrow> (string \<times> Transaction \<times> i64) list \<Rightarrow> gui \<Rightarrow> gui" where
  "render_transactions cr desk transactions g =
     perform [SetNewModel ''tx_table'' (map (transaction_row cr desk) transactions)] g"

definition amount_labels :: "string list" where
  "amount_labels = [''amount-tx-1'', ''amount-tx-2'', ''amount-tx-3'', ''amount-tx-4'', ''amount-tx-5'']"

definition icons :: "string list" where
  "icons = [''icon-tx-1'', ''icon-tx-2'', ''icon-tx-3'', ''icon-tx-4'', ''icon-tx-5'']"

definition type_labels :: "string list" where
  "type_labels = [''type-tx-1'', ''type-tx-2'', ''type-tx-3'', ''type-tx-4'', ''type-tx-5'']"

definition recent_tx :: "string list" where
  "recent_tx = [''recent-tx-1'', ''recent-tx-2'', ''recent-tx-3'', ''recent-tx-4'', ''recent-tx-5'']"

definition recent_calls :: "crypto \<Rightarrow> nat \<times> string \<times> Transaction \<times> i64 \<Rightarrow> widget_call list" where
  "recent_calls cr = (\<lambda>(i, status, tx, v).
     [SetLabel (recent_tx ! i) (Transaction_hex_hash cr tx), SetVisible (recent_tx ! i) True,
      SetLabel (amount_labels ! i) (decimal_int (sint v) @ '' Satoshis''), SetVisible (amount_labels ! i) True,
      SetImage (icons ! i) (if status = ''Pending'' then ''src/gtk/resources/ov_pending.png''
                            else ''src/gtk/resources/ov_confirmed.png''), SetVisible (icons ! i) True,
      SetVisible (type_labels ! i) True])"

definition render_recent_transactions :: "crypto \<Rightarrow> (string \<times> Transaction \<times> i64) list \<Rightarrow> gui \<Rightarrow> gui" where
  "render_recent_transactions cr transactions g =
     (let recent_transactions =
        (if length transactions \<le> 5 then transactions else drop (length transactions - 5) transactions) in
      perform (concat (map (recent_calls cr) (enumerate 0 recent_transactions))) g)"

definition update_overview :: "Account \<Rightarrow> gui \<Rightarrow> (gui, unit) result" where
  "update_overview account g =
     and_then (Account_balance account) (\<lambda>b.
     let g = perform [SetLabel ''available label'' (decimal_int (sint b))] g in
     Ok (perform (concat (map (\<lambda>i. [SetVisible (recent_tx ! i) False, SetVisible (amount_labels ! i) False,
                                 SetVisible (icons ! i) False, SetVisible (type_labels ! i) False]) [0..<5])) g))"

subsection \<open>The windows while the node starts and while an account is added\<close>

definition update_progress_bar :: "nat \<Rightarrow> nat \<Rightarrow> gui \<Rightarrow> gui" where
  "update_progress_bar blocks_downloaded blocks_to_download g =
     perform [SetFraction ''block-bar'' blocks_downloaded blocks_to_download,
       SetText ''block-bar'' (''Blocks downloaded: '' @ decimal blocks_downloaded @ ''/'' @ decimal blocks_to_download)] g"

definition update_message_header :: "string \<Rightarrow> gui \<Rightarrow> gui" where
  "update_message_header msg g = perform [SetLabel ''message-header'' msg] g"

definition update_message_and_spinner :: "bool \<Rightarrow> string \<Rightarrow> gui \<Rightarrow> gui" where
  "update_message_and_spinner visible msg g =
     perform [SetVisible ''message-header'' visible, SetVisible ''header-spin'' visible, SetVisible ''headers-box'' visible,
       SetVisible ''total-box'' True, SetLabel ''total-headers'' msg, SetVisible ''total-headers'' True] g"

definition render_progress_bar :: "gui \<Rightarrow> gui" where
  "render_progress_bar g = perform [SetVisible ''block-bar'' True, SetText ''block-bar'' ''Blocks downloaded: 0''] g"

definition get_buttons :: "string list" where
  "get_buttons = [''send-button'', ''search-tx-button'', ''search-blocks-button'', ''search-header-button'', ''login-button'']"

definition get_entries :: "string list" where
  "get_entries = [''pay to entry'', ''amount-entry'', ''fee'', ''search-tx'', ''search-block'', ''search-block-headers'',
     ''address'', ''private-key'']"

definition enable_buttons_and_entries :: "string list \<Rightarrow> string list \<Rightarrow> gui \<Rightarrow> gui" where
  "enable_buttons_and_entries buttons entry_list g = perform (map (\<lambda>w. SetSensitive w True) (buttons @ entry_list)) g"

definition disable_buttons_and_entries :: "string list \<Rightarrow> string list \<Rightarrow> gui \<Rightarrow> gui" where
  "disable_buttons_and_entries buttons entry_list g = perform (map (\<lambda>w. SetSensitive w False) (buttons @ entry_list)) g"

definition update_account_tab :: "Account \<Rightarrow> gui \<Rightarrow> gui" where
  "update_account_tab account g =
     (let g = perform [SetVisible ''account-spin'' False, SetVisible ''load-account'' False] g;
          g = enable_buttons_and_entries get_buttons get_entries g;
          g = perform [SetSensitive ''dropdown-menu'' True] g;
          g = show_dialog_message_pop_up (''Account '' @ address account @ '' added to wallet!'') ''Account added succesfully'' g in
      perform [AppendText ''dropdown-menu'' (address account)] g)"

definition render_account_tab :: "gui \<Rightarrow> gui" where
  "render_account_tab g =
     perform [SetVisible ''account-spin'' False, SetVisible ''load-account'' False, SetSensitive ''dropdown-menu'' True]
       (enable_buttons_and_entries get_buttons get_entries g)"

subsection \<open>The events of the node\<close>

definition newline_text :: string where "newline_text = [CHR '' '', CHR 0x0A]"

definition block_found_text :: "crypto \<Rightarrow> desktop \<Rightarrow> Block \<Rightarrow> (string, unit) result" where
  "block_found_text cr desk block =
     and_then (Block_get_height block) (\<lambda>ht.
     and_then (decoded_value (txn_count block)) (\<lambda>count.
     Ok (''Height: '' @ decimal (unat ht) @ newline_text @ ''Hash: '' @ Block_hex_hash cr block @ newline_text @
         ''Time (UTC): '' @ Block_local_time desk block @ newline_text @
         ''Tx Count: '' @ decimal (unat count))))"

fun handle_ui_event :: "crypto \<Rightarrow> desktop \<Rightarrow> UIEvent \<Rightarrow> gui \<Rightarrow> (gui, unit) result" where
  "handle_ui_event cr desk (UpdateBlocksDownloaded blocks_downloaded blocks_to_download) g =
     Ok (update_progress_bar blocks_downloaded blocks_to_download g)"
| "handle_ui_event cr desk StartHandshake g = Ok (update_message_header ''Making handshake with nodes...'' g)"
| "handle_ui_event cr desk (UpdateHeadersDownloaded headers_downloaded) g =
     Ok (update_message_header (''Headers downloaded: '' @ decimal headers_downloaded) g)"
| "handle_ui_event cr desk (InitializeUITabs hs bs) g = render_main_window cr desk hs bs g"
| "handle_ui_event cr desk StartDownloadingHeaders g =
     Ok (perform [SetVisible ''headers-box'' True, SetVisible ''message-header'' True, SetVisible ''header-spin'' True] g)"
| "handle_ui_event cr desk (FinsihDownloadingHeaders hs) g =
     Ok (update_message_and_spinner False (''TOTAL HEADERS DOWNLOADED: '' @ decimal hs) g)"
| "handle_ui_event cr desk StartDownloadingBlocks g = Ok (render_progress_bar g)"
| "handle_ui_event cr desk (AccountAddedSuccesfully account) g = Ok (update_account_tab account g)"
| "handle_ui_event cr desk (AddAccountError error) g =
     Ok (show_dialog_message_pop_up error ''Error trying to add account'' (render_account_tab g))"
| "handle_ui_event cr desk (ChangeAccountError error) g =
     Ok (show_dialog_message_pop_up error ''Error trying to change account'' g)"
| "handle_ui_event cr desk (AccountChanged account) g =
     and_then (update_overview account g) (request GetTransactionsRequest)"
| "handle_ui_event cr desk (MakeTransactionStatus status) g =
     Ok (show_dialog_message_pop_up status ''transaction's status'' g)"
| "handle_ui_event cr desk (AddBlock block) g = handle_add_block cr desk block g"
| "handle_ui_event cr desk (ShowPendingTransaction account transaction) g =
     request GetTransactionsRequest
       (show_dialog_message_pop_up (''New incoming pending transaction: '' @ Transaction_hex_hash cr transaction @
          '' received for account: '' @ address account) ''Account added succesfully'' g)"
| "handle_ui_event cr desk (UpdateTransactions transactions) g =
     Ok (render_recent_transactions cr transactions (render_transactions cr desk transactions g))"
| "handle_ui_event cr desk NewPendingTx g = request GetTransactionsRequest g"
| "handle_ui_event cr desk (ShowConfirmedTransaction block account transaction) g =
     request GetTransactionsRequest
       (show_dialog_message_pop_up (''Transaction confirmed: '' @ Transaction_hex_hash cr transaction @ '' for account: '' @
          address account @ '' in block: '' @ Block_hex_hash cr block) ''Account added succesfully'' g)"
| "handle_ui_event cr desk (BlockFound block) g =
     and_then (block_found_text cr desk block) (\<lambda>msg. Ok (show_dialog_message_pop_up msg ''Block found'' g))"
| "handle_ui_event cr desk (HeaderFound header ht) g =
     Ok (show_dialog_message_pop_up (''Height: '' @ decimal ht @ newline_text @ ''Hash: '' @ BlockHeader_hex_hash cr header @
          newline_text @ ''Time: '' @ BlockHeader_local_time desk header) ''Header found'' g)"
| "handle_ui_event cr desk NotFound g = Ok (show_dialog_message_pop_up ''Not found'' ''Not found'' g)"
| "handle_ui_event cr desk (POIResult message) g = Ok (show_dialog_message_pop_up message ''POI Result'' g)"

subsection \<open>The actions of the user (callbacks.rs)\<close>

definition start_button_clicked :: "gui \<Rightarrow> (gui, unit) result" where
  "start_button_clicked g = and_then (request Start g) (\<lambda>g. Ok (perform [SetVisible ''start-button'' False] g))"

definition sync_balance_labels :: "string \<Rightarrow> gui \<Rightarrow> gui" where
  "sync_balance_labels new_text g = perform [SetLabel ''send-balance'' new_text] g"

definition sync_account_labels :: "string \<Rightarrow> gui \<Rightarrow> gui" where
  "sync_account_labels new_text g = perform [SetLabel ''overview-account'' new_text] g"

definition validate_amount_and_fee :: "string \<Rightarrow> string \<Rightarrow> gui \<Rightarrow> (i64 \<times> i64) option \<times> gui" where
  "validate_amount_and_fee amount_text fee_text g =
     (case i64_from_str amount_text of
        Ok valid_amount \<Rightarrow>
          (case i64_from_str fee_text of
             Ok valid_fee \<Rightarrow> (Some (valid_amount, valid_fee), g)
           | _ \<Rightarrow> (None, show_dialog_message_pop_up ''Error, please enter a valid fee of Satoshis'' ''Failed to make transaction'' g))
      | _ \<Rightarrow> (None, show_dialog_message_pop_up ''Error, please enter a valid amount of Satoshis'' ''Failed to make transaction'' g))"

definition send_button_clicked :: "string \<Rightarrow> string \<Rightarrow> string \<Rightarrow> gui \<Rightarrow> (gui, unit) result" where
  "send_button_clicked address_to_send amount_text fee_text g =
     (let g = perform [SetText ''pay to entry'' [], SetText ''amount-entry'' [], SetText ''fee'' []] g in
      case validate_amount_and_fee amount_text fee_text g of
        (Some (valid_amount, valid_fee), g) \<Rightarrow> request (MakeTransaction address_to_send valid_amount valid_fee) g
      | (None, g) \<Rightarrow> Ok g)"

definition search_blocks_button_clicked :: "string \<Rightarrow> gui \<Rightarrow> (gui, unit) result" where
  "search_blocks_button_clicked txt g =
     and_then (hex_string_to_bytes txt) (\<lambda>found.
     and_then
       (case found of
          Some block_hash \<Rightarrow> request (SearchBlock block_hash) g
        | None \<Rightarrow> Ok (show_dialog_message_pop_up (''Error '' @ txt @ '' is not a valid block hash'') ''Error searching block'' g))
       (\<lambda>g. Ok (perform [SetText ''search-block'' []] g)))"

definition search_headers_button_clicked :: "string \<Rightarrow> gui \<Rightarrow> (gui, unit) result" where
  "search_headers_button_clicked txt g =
     and_then (hex_string_to_bytes txt) (\<lambda>found.
     and_then
       (case found of
          Some block_hash \<Rightarrow> request (SearchHeader block_hash) g
        | None \<Rightarrow> Ok (show_dialog_message_pop_up (''Error '' @ txt @ '' is not a valid block hash'') ''Error searching header'' g))
       (\<lambda>g. Ok (perform [SetText ''search-block-headers'' []] g)))"

definition login_button_clicked :: "string \<Rightarrow> string \<Rightarrow> gui \<Rightarrow> (gui, unit) result" where
  "login_button_clicked addr private_key_text g =
     (let g = disable_buttons_and_entries get_buttons get_entries g;
          g = perform [SetSensitive ''dropdown-menu'' False, SetVisible ''account-spin'' True, SetVisible ''load-account'' True,
                SetText ''address'' [], SetText ''private-key'' []] g in
      request (AddAccountRequest private_key_text addr) g)"

definition dropdown_accounts_changed :: "string option \<Rightarrow> u32 option \<Rightarrow> gui \<Rightarrow> (gui, unit) result" where
  "dropdown_accounts_changed active_text active g =
     (case active_text of
        Some selected_text \<Rightarrow>
          let g = perform [SetLabel ''status-login'' selected_text, SetVisible ''status-login'' True] g in
          (case active of Some new_index \<Rightarrow> request (ChangeAccount (unat new_index)) g | None \<Rightarrow> Ok g)
      | None \<Rightarrow> Ok g)"

definition close_main_window_on_exit :: "gui \<Rightarrow> (gui, unit) result" where
  "close_main_window_on_exit g = and_then (request Finish g) (\<lambda>g. Ok (perform [Quit] g))"

definition waiting_labels :: "string list" where
  "waiting_labels =
     [''Hold tight! Setting up your Bitcoin account...'', ''We're ensuring your account's security...'',
      ''Be patient! Your Bitcoin account is being created...'']"

definition update_label :: "string \<Rightarrow> gui \<Rightarrow> gui" where
  "update_label current_text g =
     (case filter (\<lambda>i. current_text = waiting_labels ! i) [0..<length waiting_labels] of
        i # _ \<Rightarrow> perform [SetText ''load-account'' (waiting_labels ! ((i + 1) mod length waiting_labels))] g
      | [] \<Rightarrow> g)"

definition search_tx_poi_button_clicked :: "string \<Rightarrow> string \<Rightarrow> gui \<Rightarrow> (gui, unit) result" where
  "search_tx_poi_button_clicked tx_hash_string block_hash_string g =
     and_then (hex_string_to_bytes tx_hash_string) (\<lambda>r. let tx_is_valid = (r \<noteq> None) in
     and_then (hex_string_to_bytes tx_hash_string) (\<lambda>r. let block_is_valid = (r \<noteq> None) in
     and_then
       (if tx_is_valid \<and> block_is_valid then request (PoiOfTransactionRequest block_hash_string tx_hash_string) g
        else Ok
          (if \<not> tx_is_valid \<and> \<not> block_is_valid then
             show_dialog_message_pop_up (''Error '' @ tx_hash_string @ '' and '' @ block_hash_string @ '' are not valid hashes'')
               ''Error searching POI'' g
           else if \<not> tx_is_valid then
             show_dialog_message_pop_up (''Error '' @ tx_hash_string @ '' is not a valid tx hash'') ''Error searching tx'' g
           else if \<not> block_is_valid then
             show_dialog_message_pop_up (''Error '' @ block_hash_string @ '' is not a valid block hash'') ''Error searching block'' g
           else g))
       (\<lambda>g. Ok (perform [SetText ''search-tx'' [], SetText ''search-poi-block'' []] g))))"

subsection \<open>The interface as a whole (callbacks.rs, ui\_gtk.rs)\<close>

text \<open>
  The signals for which \<open>connect_ui_callbacks\<close> connects a callback, each with what the callback reads
  from the widgets.
\<close>

datatype signal =
    StartClicked
  | SendClicked string string string
  | BalanceLabelChanged string
  | AccountLabelChanged string
  | SearchBlocksClicked string
  | SearchHeadersClicked string
  | LoginClicked string string
  | DropdownChanged "string option" "u32 option"
  | WindowDeleted
  | LabelTimeout string
  | SearchPoiClicked string string

fun connect_ui_callbacks :: "signal \<Rightarrow> gui \<Rightarrow> (gui, unit) result" where
  "connect_ui_callbacks StartClicked g = start_button_clicked g"
| "connect_ui_callbacks (SendClicked pay_to amount_text fee_text) g = send_button_clicked pay_to amount_text fee_text g"
| "connect_ui_callbacks (BalanceLabelChanged txt) g = Ok (sync_balance_labels txt g)"
| "connect_ui_callbacks (AccountLabelChanged txt) g = Ok (sync_account_labels txt g)"
| "connect_ui_callbacks (SearchBlocksClicked txt) g = search_blocks_button_clicked txt g"
| "connect_ui_callbacks (SearchHeadersClicked txt) g = search_headers_button_clicked txt g"
| "connect_ui_callbacks (LoginClicked addr key) g = login_button_clicked addr key g"
| "connect_ui_callbacks (DropdownChanged active_text active) g = dropdown_accounts_changed active_text active g"
| "connect_ui_callbacks WindowDeleted g = close_main_window_on_exit g"
| "connect_ui_callbacks (LabelTimeout txt) g = Ok (update_label txt g)"
| "connect_ui_callbacks (SearchPoiClicked tx_text block_text) g = search_tx_poi_button_clicked tx_text block_text g"

definition add_css_to_screen :: "desktop \<Rightarrow> gui \<Rightarrow> (gui, unit) result" where
  "add_css_to_screen desk g = (if style_applies desk then Ok (perform [AddStyle] g) else Panic)"

text \<open>The first window; \<open>None\<close> when GTK cannot be initialised, and then nothing is connected.\<close>

definition build_ui :: "bool \<Rightarrow> desktop \<Rightarrow> gui \<Rightarrow> (gui, unit) result option" where
  "build_ui initialised desk g =
     (if \<not> initialised then None
      else Some (and_then (add_css_to_screen desk g) (\<lambda>g.
        let g = perform [SetTitle ''initial-window'' ''Bitcoin Wallet''] g;
            g = set_icon desk ''initial-window'' g in
        Ok (perform [ShowWindow ''initial-window''] g))))"

subsection \<open>What the interface asks of the node\<close>

fun asks_node :: "UIEvent \<Rightarrow> WalletEvent list" where
  "asks_node (AccountChanged account) = [GetTransactionsRequest]"
| "asks_node (ShowPendingTransaction account transaction) = [GetTransactionsRequest]"
| "asks_node NewPendingTx = [GetTransactionsRequest]"
| "asks_node (ShowConfirmedTransaction block account transaction) = [GetTransactionsRequest]"
| "asks_node (AddBlock block) = [GetAccountRequest]"
| "asks_node e = []"

lemma perform_fields [simp]:
  "requests (perform cs g) = requests g" "node_receives (perform cs g) = node_receives g"
  "calls (perform cs g) = calls g @ cs"
  by (simp_all add: perform_def)

lemma request_eq_Ok:
  "request e g = Ok g' \<longleftrightarrow> node_receives g \<and> g' = g\<lparr>requests := requests g @ [e]\<rparr>"
  by (auto simp: request_def)

lemma add_header_rows_fields [simp]:
  "requests (fold (\<lambda>(i, h). add_row_last_to_liststore_headers cr desk h (f i)) xs g) = requests g"
  by (induction xs arbitrary: g) (auto simp: add_row_last_to_liststore_headers_def add_header_row_def)

lemma add_block_row_Ok: "add_block_row cr desk at b g = Ok g' \<Longrightarrow> requests g' = requests g"
  by (auto simp: add_block_row_def and_then_eq_Ok)

lemma add_block_rows_Ok:
  "fold_result (\<lambda>h g. case bs h of Some b \<Rightarrow> add_row_last_to_liststore_block cr desk b g | None \<Rightarrow> Panic) hs g = Ok g' \<Longrightarrow>
     requests g' = requests g"
proof (induction hs arbitrary: g)
  case (Cons h hs)
  then show ?case
    by (auto simp: and_then_eq_Ok add_row_last_to_liststore_block_def dest: add_block_row_Ok split: option.split_asm)
qed simp

named_theorems screen_defs \<comment> \<open>the functions that only call widgets\<close>

lemmas [screen_defs] = show_dialog_message_pop_up_def update_progress_bar_def update_message_header_def
  update_message_and_spinner_def render_progress_bar_def update_account_tab_def render_account_tab_def
  enable_buttons_and_entries_def disable_buttons_and_entries_def render_transactions_def
  render_recent_transactions_def

lemma handle_ui_event_asks: "handle_ui_event cr desk e g = Ok g' \<Longrightarrow> requests g' = requests g @ asks_node e"
proof (cases e)
  case (InitializeUITabs hs bs)
  assume "handle_ui_event cr desk e g = Ok g'"
  with InitializeUITabs show ?thesis
    by (auto simp: render_main_window_def initialize_blocks_tab_def initialize_headers_tab_def set_icon_def Let_def
        and_then_eq_Ok dest: add_block_rows_Ok)
qed (auto simp: screen_defs Let_def and_then_eq_Ok request_eq_Ok update_overview_def handle_add_block_def
    add_row_first_to_liststore_block_def add_row_first_to_liststore_headers_def add_header_row_def dest: add_block_row_Ok)

text \<open>How far an event is from one that asks for nothing.\<close>

fun exchange_rank :: "UIEvent \<Rightarrow> nat" where
  "exchange_rank (AddBlock block) = 2"
| "exchange_rank (AccountChanged account) = 1"
| "exchange_rank (ShowPendingTransaction account transaction) = 1"
| "exchange_rank NewPendingTx = 1"
| "exchange_rank (ShowConfirmedTransaction block account transaction) = 1"
| "exchange_rank e = 0"

lemma ui_send_event [simp]: "ui (send_event_to_ui e st) = ui st @ [e]"
  by (simp add: send_event_to_ui_def)

lemma ui_set_prog_accounts [simp]: "ui (shared (set_prog_accounts accs p)) = ui (shared p)"
  by (simp add: set_prog_accounts_def upd_accounts_def)

lemma node_answers:
  "handle_get_transactions cr w p = Ok p' \<Longrightarrow>
     \<exists>es. ui (shared p') = ui (shared p) @ es \<and> (es = [] \<or> (\<exists>ts. es = [UpdateTransactions ts]))"
  "handle_get_account w p = Ok p' \<Longrightarrow>
     \<exists>es. ui (shared p') = ui (shared p) @ es \<and> (es = [] \<or> (\<exists>a. es = [AccountChanged a]))"
  by (auto simp: handle_get_transactions_def handle_get_account_def and_then_eq_Ok split: option.split_asm)

lemma exchange_steps_down:
  assumes "handle_ui_request cr ord (asks_node e) (w, p) = Ok (w', p')"
  shows "\<exists>es. ui (shared p') = ui (shared p) @ es \<and> length es \<le> 1 \<and> (\<forall>x \<in> set es. exchange_rank x < exchange_rank e)"
proof -
  have "asks_node e = [] \<or> asks_node e = [GetTransactionsRequest] \<and> 1 \<le> exchange_rank e \<or> asks_node e = [GetAccountRequest] \<and> exchange_rank e = 2"
    by (cases e) simp_all
  then show ?thesis
    using assms by (elim disjE conjE) (auto simp: and_then_eq_Ok dest!: node_answers)
qed

subsection \<open>Which widgets can be used\<close>

fun sets_to :: "widget_call \<Rightarrow> string \<Rightarrow> bool option" where
  "sets_to (SetSensitive w' b) w = (if w' = w then Some b else None)"
| "sets_to c w = None"

fun sensitive :: "widget_call list \<Rightarrow> string \<Rightarrow> bool option" where
  "sensitive [] w = None"
| "sensitive (c # cs) w = (case sensitive cs w of Some b \<Rightarrow> Some b | None \<Rightarrow> sets_to c w)"

lemma sensitive_append [simp]:
  "sensitive (cs @ ds) w = (case sensitive ds w of None \<Rightarrow> sensitive cs w | Some b \<Rightarrow> Some b)"
  by (induction cs) (auto split: option.split)

lemma sensitive_all [simp]: "sensitive (map (\<lambda>w. SetSensitive w b) ws) w = (if w \<in> set ws then Some b else None)"
  by (induction ws) auto

definition inputs :: "string list" where
  "inputs = get_buttons @ get_entries @ [''dropdown-menu'']"

lemma get_height_not_Err: "Block_get_height b \<noteq> Err e"
  by (simp add: Block_get_height_def Transaction_get_height_def TxIn_get_height_def and_then_eq_Err index_at_def
      usize_sub_def split: option.split)

lemma decoded_value_not_Err: "decoded_value c \<noteq> Err e"
  by (simp add: decoded_value_def and_then_eq_Err index_at_def)

lemma add_block_row_not_Err: "add_block_row cr desk at b g \<noteq> Err e"
  by (simp add: add_block_row_def and_then_eq_Err get_height_not_Err decoded_value_not_Err)

subsection \<open>Properties\<close>

text \<open>
  C34. The exchange between the interface and the node ends: what the interface asks for when it has
  handled an event (the transactions, the account) makes the node send at most one event back, and
  that one is nearer to an event that asks for nothing, so after at most two rounds nothing is asked.
\<close>

theorem interface_settles:
  assumes "handle_ui_event cr desk e g = Ok g'"
    and "handle_ui_request cr ord (drop (length (requests g)) (requests g')) (w, p) = Ok (w', p')"
  shows "exchange_rank e \<le> 2 \<and> (\<exists>es. ui (shared p') = ui (shared p) @ es \<and> length es \<le> 1 \<and>
    (\<forall>x \<in> set es. exchange_rank x < exchange_rank e))"
proof
  show "exchange_rank e \<le> 2" by (cases e) simp_all
  from handle_ui_event_asks [OF assms(1)] assms(2) show
    "\<exists>es. ui (shared p') = ui (shared p) @ es \<and> length es \<le> 1 \<and> (\<forall>x \<in> set es. exchange_rank x < exchange_rank e)"
    by (intro exchange_steps_down) simp
qed

text \<open>
  A hash that is shown can be searched: the text in the row that the interface adds for a block,
  typed into the search entry, sends the node a request for that block, and the node answers with it.
\<close>

theorem shown_hash_finds_block:
  assumes "digest_lengths cr" and "blocks (prog_chain p) (Block_hash cr b) = Some b"
    and "handle_ui_event cr desk (AddBlock b) g = Ok g'"
  shows "\<exists>ht txt time count more_calls g'' p'.
    calls g' = calls g @ PrependRow ''liststore-blocks'' (BlockRow ht txt time count) # more_calls \<and>
    connect_ui_callbacks (SearchBlocksClicked txt) g' = Ok g'' \<and> requests g'' = requests g' @ [SearchBlock (Block_hash cr b)] \<and>
    handle_wallet_event cr ord (SearchBlock (Block_hash cr b)) (w, p) = Ok (w, p') \<and>
    ui (shared p') = ui (shared p) @ [BlockFound b]"
proof -
  have "length (Block_hash cr b) = 32"
    by (rule hash_lengths(1) [OF assms(1), of "block_header b", folded Block_hash_def])
  then have h: "hex_string_to_bytes (Block_hex_hash cr b) = (Ok (Some (Block_hash cr b)) :: (hash32 option, unit) result)"
    using hex_string_to_bytes_hex [of "rev (Block_hash cr b)"]
    by (simp add: Block_hex_hash_def BlockHeader_hex_hash_def bytes_to_hex_hash_def Block_hash_def)
  from assms(3) h show ?thesis
    by (auto simp: handle_add_block_def add_row_first_to_liststore_block_def add_block_row_def and_then_eq_Ok
        add_row_first_to_liststore_headers_def add_header_row_def request_eq_Ok search_blocks_button_clicked_def
        handle_search_block_def Wallet_search_block_def Node_search_block_def Blockchain_search_block_def assms(2))
qed

text \<open>
  C35. Adding an account from the interface: the click disables the buttons, the entries and the list
  of accounts (but not the entry for the block of a proof of inclusion); when the node has handled the
  request it has sent one event, of success or of failure, and that event enables all of them again.
\<close>

theorem login_is_answered:
  assumes "login_button_clicked addr key g = Ok g1"
    and "handle_wallet_event cr ord (AddAccountRequest key addr) (w, p) = Ok (w', p')"
  shows "requests g1 = requests g @ [AddAccountRequest key addr] \<and>
    (\<forall>x \<in> set inputs. sensitive (calls g1) x = Some False) \<and>
    sensitive (calls g1) ''search-poi-block'' = sensitive (calls g) ''search-poi-block'' \<and>
    (\<exists>e g2. ui (shared p') = ui (shared p) @ [e] \<and> handle_ui_event cr desk e g1 = Ok g2 \<and>
      (\<forall>x \<in> set inputs. sensitive (calls g2) x = Some True))"
proof -
  from assms(1) have g1: "requests g1 = requests g @ [AddAccountRequest key addr]"
      "\<forall>x \<in> set inputs. sensitive (calls g1) x = Some False"
      "sensitive (calls g1) ''search-poi-block'' = sensitive (calls g) ''search-poi-block''"
    by (auto simp: login_button_clicked_def screen_defs Let_def request_eq_Ok inputs_def get_buttons_def get_entries_def)
  from assms(2) consider a where "ui (shared p') = ui (shared p) @ [AccountAddedSuccesfully a]"
    | m where "ui (shared p') = ui (shared p) @ [AddAccountError m]"
    by (auto simp: handle_add_account_def add_account_def and_then_eq_Ok split: result.split_asm prod.split_asm)
  then have "\<exists>e g2. ui (shared p') = ui (shared p) @ [e] \<and> handle_ui_event cr desk e g1 = Ok g2 \<and>
      (\<forall>x \<in> set inputs. sensitive (calls g2) x = Some True)"
    by cases (auto simp: screen_defs Let_def inputs_def)
  with g1 show ?thesis by blast
qed

text \<open>
  The main window cannot be shown unless the block of each of the last 500 headers has been
  downloaded: when one is missing (the blocks before the configured date, and those of the first
  batch of headers, are never downloaded), the interface panics.
\<close>

theorem tabs_need_every_block:
  assumes "header \<in> set (take 500 (rev hs))" and "bs (BlockHeader_hash cr header) = None"
  shows "handle_ui_event cr desk (InitializeUITabs hs bs) g = Panic"
proof -
  have "fold_result (\<lambda>hash g. case bs hash of Some block \<Rightarrow> add_row_last_to_liststore_block cr desk block g | None \<Rightarrow> Panic)
      hashes g = Panic" if "BlockHeader_hash cr header \<in> set hashes" for hashes g
    using that
  proof (induction hashes arbitrary: g)
    case (Cons hash hashes)
    then show ?case
      using assms(2) add_block_row_not_Err
      by (cases "bs hash") (auto simp: add_row_last_to_liststore_block_def and_then_eq_Panic,
          metis result.exhaust add_block_row_not_Err)
  qed simp
  with assms(1) show ?thesis
    by (simp add: render_main_window_def initialize_blocks_tab_def AMOUNT_TO_SHOW_def Let_def)
qed

text \<open>
  The search for a proof of inclusion checks only one of its two texts: when the hash of the
  transaction is readable, the request is sent whatever is in the entry of the block; when it is not,
  the message says that neither is valid.
\<close>

theorem poi_search_checks_transaction_only:
  assumes "hex_string_to_bytes tx_text = (Ok r :: (hash32 option, unit) result)" and "node_receives g"
  shows "\<exists>g'. search_tx_poi_button_clicked tx_text block_text g = Ok g' \<and>
    (r \<noteq> None \<longrightarrow> requests g' = requests g @ [PoiOfTransactionRequest block_text tx_text]) \<and>
    (r = None \<longrightarrow> requests g' = requests g \<and>
       Dialog (''Error '' @ tx_text @ '' and '' @ block_text @ '' are not valid hashes'') ''Error searching POI'' \<in> set (calls g'))"
  using assms
  by (cases r) (auto simp: search_tx_poi_button_clicked_def Let_def request_def show_dialog_message_pop_up_def)

subsection \<open>A sample interface\<close>

definition sample_gui :: gui where
  "sample_gui = \<lparr>calls = [], requests = [], node_receives = True\<rparr>"

definition sample_desktop :: desktop where
  "sample_desktop =
     \<lparr>local_time_to_string = (\<lambda>time. ''2023-01-01 00:00:00''), from_file = (\<lambda>path. True), scales_icon = True,
      style_applies = True\<rparr>"

lemma sample_block_shown: "\<exists>g. handle_ui_event sample_crypto sample_desktop (AddBlock sample_block) sample_gui = Ok g"
proof -
  have "\<exists>ht. Block_get_height sample_block = (Ok ht :: (u32, unit) result)"
    by (simp add: Block_get_height_def Transaction_get_height_def TxIn_get_height_def sample_block_def Block_new_def
        sample_tx_def Transaction_new_def incomplete_txin_def TxIn_new_def index_at_def)
  moreover have "\<exists>n. decoded_value (txn_count sample_block) = (Ok n :: (u64, unit) result)"
    using decoded_value_ex [of "CompactSizeUint_new 1"] CompactSizeUint_new_wf [of 1]
    by (auto simp: sample_block_def Block_new_def)
  ultimately show ?thesis
    by (auto simp: handle_add_block_def add_row_first_to_liststore_block_def add_block_row_def request_def
        add_row_first_to_liststore_headers_def add_header_row_def perform_def sample_gui_def)
qed

theorem interface_settles_witness:
  "\<exists>g' p'. handle_ui_event sample_crypto sample_desktop NewPendingTx sample_gui = Ok g' \<and>
    handle_ui_request sample_crypto sorted_order (drop (length (requests sample_gui)) (requests g'))
      (sample_wallet, sample_program [sample_account] []) = (Ok (sample_wallet, p') :: (Wallet \<times> program, unit) result) \<and>
    (\<exists>es. ui (shared p') = es \<and> (\<forall>x \<in> set es. exchange_rank x < exchange_rank NewPendingTx))"
proof -
  let ?p = "sample_program [sample_account] []"
  let ?g = "sample_gui\<lparr>requests := [GetTransactionsRequest]\<rparr>"
  have g: "handle_ui_event sample_crypto sample_desktop NewPendingTx sample_gui = Ok ?g"
    by (simp add: request_def sample_gui_def)
  have "get_transactions sample_crypto sample_account = (Ok [] :: ((string \<times> Transaction \<times> i64) list, string) result)"
    by (simp add: get_transactions_def sample_account_def)
  then have r: "handle_ui_request sample_crypto sorted_order (drop (length (requests sample_gui)) (requests ?g)) (sample_wallet, ?p) =
      (Ok (sample_wallet, show_ui (UpdateTransactions []) ?p) :: (Wallet \<times> program, unit) result)"
    by (simp add: sample_gui_def handle_get_transactions_def Wallet_get_transactions_def sample_wallet_def index_at_def)
  have "ui (shared ?p) = []"
    by (simp add: sample_program_def upd_accounts_def sample_node_def)
  with interface_settles [OF g r] g r show ?thesis
    by auto
qed

theorem shown_hash_finds_block_witness:
  "\<exists>g' g'' txt. handle_ui_event sample_crypto sample_desktop (AddBlock sample_block) sample_gui = Ok g' \<and>
    connect_ui_callbacks (SearchBlocksClicked txt) g' = Ok g'' \<and>
    requests g'' = [GetAccountRequest, SearchBlock (Block_hash sample_crypto sample_block)]"
proof -
  obtain g' where g': "handle_ui_event sample_crypto sample_desktop (AddBlock sample_block) sample_gui = Ok g'"
    using sample_block_shown by blast
  let ?p = "(sample_program [] [])\<lparr>shared := upd_blockchain
      (\<lambda>bc. bc\<lparr>blocks := [Block_hash sample_crypto sample_block \<mapsto> sample_block]\<rparr>) sample_node\<rparr>"
  have b: "blocks (prog_chain ?p) (Block_hash sample_crypto sample_block) = Some sample_block"
    by (simp add: upd_blockchain_def)
  have "requests g' = [GetAccountRequest]"
    using handle_ui_event_asks [OF g'] by (simp add: sample_gui_def)
  with shown_hash_finds_block [OF sample_digest_lengths b g', of sorted_order sample_wallet] g' show ?thesis
    by auto
qed

theorem login_is_answered_witness:
  "\<exists>g1 (p' :: program) e g2. login_button_clicked sample_address (private_key sample_account) sample_gui = Ok g1 \<and>
    ui (shared p') = [e] \<and> handle_ui_event sample_crypto sample_desktop e g1 = Ok g2 \<and>
    sensitive (calls g2) ''login-button'' = Some True"
proof -
  let ?p = "sample_program [] []"
  obtain p' where p': "add_account sample_crypto sorted_order (private_key sample_account) sample_address ?p = (Ok (), p')"
    using sample_account_added by blast
  then have n: "handle_wallet_event sample_crypto sorted_order (AddAccountRequest (private_key sample_account) sample_address)
      (sample_wallet, ?p) = (Ok (sample_wallet, p') :: (Wallet \<times> program, unit) result)"
    by (simp add: handle_add_account_def)
  obtain g1 where g1: "login_button_clicked sample_address (private_key sample_account) sample_gui = Ok g1"
    by (simp add: login_button_clicked_def Let_def request_def perform_def screen_defs sample_gui_def)
  from login_is_answered [OF g1 n, of sample_desktop] obtain e g2 where
      "ui (shared p') = ui (shared ?p) @ [e]" and e: "handle_ui_event sample_crypto sample_desktop e g1 = Ok g2"
      and s: "\<forall>x \<in> set inputs. sensitive (calls g2) x = Some True"
    by blast
  then have "ui (shared p') = [e]"
    by (simp add: sample_program_def upd_accounts_def sample_node_def)
  moreover have "sensitive (calls g2) ''login-button'' = Some True"
    using s by (simp add: inputs_def get_buttons_def)
  ultimately show ?thesis
    using g1 e by blast
qed

theorem tabs_need_every_block_witness:
  "handle_ui_event sample_crypto sample_desktop (InitializeUITabs [sample_header] Map.empty) sample_gui = Panic"
  by (rule tabs_need_every_block [of sample_header]) simp_all

theorem poi_search_checks_transaction_only_witness:
  "\<exists>g'. search_tx_poi_button_clicked [] ''anything'' sample_gui = Ok g' \<and> requests g' = []"
proof -
  have "hex_string_to_bytes [] = (Ok None :: (hash32 option, unit) result)"
    by (simp add: hex_string_to_bytes_def)
  from poi_search_checks_transaction_only [OF this, of sample_gui "''anything''"] show ?thesis
    by (auto simp: sample_gui_def)
qed

end
