(* ===== verification/Payment.thy ===== *)
theory Payment
  imports Program Headers_Download
begin

section \<open>The transaction of a payment\<close>

text \<open>
  What \<open>make_transaction\<close> builds, in full: the coins it spends, the addresses its outputs pay, and that
  the result is a transaction of the wire format, which every node can read.
\<close>

definition spends :: "Transaction \<Rightarrow> (hash32 \<times> nat) set" where
  "spends t = (if is_coinbase t then {} else spent_by t)"


subsection \<open>Coins and outputs\<close>

definition testnet_address :: "crypto \<Rightarrow> string \<Rightarrow> bool" where
  "testnet_address cr addr \<longleftrightarrow> (\<exists>h. length h = 20 \<and> addr = address_of_hash cr h)"

lemma script_pays:
  assumes "digest_lengths cr" and "bs58_inverse cr" and "testnet_address cr addr" and "generate_pubkey_script cr addr = Ok s"
  shows "TxOut_get_address cr (TxOut_new v n s) = Ok addr"
proof -
  from assms(3) obtain h where h: "length h = 20" "addr = address_of_hash cr h"
    by (auto simp: testnet_address_def)
  then have "bs58_decode cr addr = Inr (0x6f # h @ take 4 (sha256 cr (sha256 cr (0x6f # h))))"
    using assms(2) by (simp add: bs58_inverse_def address_of_hash_def)
  with generate_pubkey_script_Ok [OF assms(4)] h(1) have "s = p2pkh_of_hash h"
    by auto
  with h show ?thesis
    by (simp add: TxOut_get_address_def TxOut_new_def Pubkey_generate_address_p2pkh)
qed

text \<open>Signing only fills in the scripts of the inputs; a script holds one signature and one key.\<close>

definition short_signatures :: "crypto \<Rightarrow> bool" where
  "short_signatures cr \<longleftrightarrow>
     (\<forall>sk pk z sig. secp_pubkey cr sk = Inr pk \<longrightarrow> ecdsa_sign cr sk z = Inr sig \<longrightarrow> length sig < 255)"

lemma sign_fills:
  assumes "sign cr tx a us = Ok tx'"
  obtains sigs where "length sigs = length (tx_in tx)" "tx' = tx\<lparr>tx_in := map2 TxIn_add (tx_in tx) sigs\<rparr>"
    "\<forall>s \<in> set sigs. \<exists>z. generate_sig_script cr z a = Ok s"
proof -
  let ?f = "\<lambda>index. and_then (generate_message_to_sign cr tx index us) (\<lambda>z. generate_sig_script cr z a)"
  from assms obtain sigs where s: "traverse ?f [0..<length (tx_in tx)] = Ok sigs"
      and t: "tx' = tx\<lparr>tx_in := map2 TxIn_add (tx_in tx) sigs\<rparr>"
    by (auto simp: sign_def and_then_eq_Ok)
  from s have l: "list_all2 (\<lambda>i s. ?f i = Ok s) [0..<length (tx_in tx)] sigs"
    by (simp add: traverse_Ok_iff)
  then have "\<exists>z. generate_sig_script cr z a = Ok s" if "s \<in> set sigs" for s
    using that by (auto simp: list_all2_conv_all_nth in_set_conv_nth and_then_eq_Ok)
  with that [OF _ t] list_all2_lengthD [OF l] show thesis
    by simp
qed

lemma map2_TxIn_add:
  "length sigs = length ins \<Longrightarrow> map height (map2 TxIn_add ins sigs) = map height ins"
  by (induction sigs ins rule: list_induct2) (auto simp: TxIn_add_def)

lemma sign_heights:
  assumes "sign cr tx a us = Ok tx'"
  shows "map height (tx_in tx') = map height (tx_in tx)"
  by (rule sign_fills [OF assms]) (simp add: map2_TxIn_add del: map_map)

lemma script_length:
  assumes "generate_sig_script cr z a = Ok s" and "short_signatures cr" and "digest_lengths cr"
  shows "length (sig_bytes s) \<le> 290"
proof -
  from assms(1) obtain sk sig pk where "ecdsa_sign cr sk z = Inr sig" "secp_pubkey cr sk = Inr pk"
      "s = SigScript_new (of_nat (length (sig @ [1])) # (sig @ [1]) @ of_nat (length pk) # pk)"
    by (auto simp: generate_sig_script_def get_private_key_def generate_sig_def Account_get_pubkey_compressed_def
        get_pubkey_compressed_def and_then_eq_Ok of_sum_eq_Ok)
  moreover from this have "length sig < 255" "length pk = 33"
    using assms(2,3) by (auto simp: short_signatures_def digest_lengths_def)
  ultimately show ?thesis
    by (simp add: SigScript_new_def)
qed

text \<open>
  A payment spends some coins of the account, worth the amount, the fee and the change; its first
  output pays the amount to the receiver and its second the change to the account.
\<close>

lemma payment_shape:
  assumes "make_transaction cr a r amt fee = Ok (t, a')" and "0 < sint amt + sint fee" and "in_sync cr m a"
    and "\<forall>(h, i, o') \<in> set (entries (utxo_set a)). i < 2 ^ 32"
    and "digest_lengths cr" and "bs58_inverse cr" and "testnet_address cr r" and "testnet_address cr (address a)"
  obtains change to_receiver to_self where
    "spends t \<subseteq> coins_of cr (utxo_view m) (address a)"
    "sum (coin_value (utxo_view m)) (spends t) = sint amt + sint fee + sint change"
    "tx_out t = [to_receiver, to_self]" "txout_value to_receiver = amt" "txout_value to_self = change"
    "TxOut_get_address cr to_receiver = Ok r" "TxOut_get_address cr to_self = Ok (address a)"
proof -
  let ?k = "\<lambda>(h, i, o'). (h, i)"
  from assms(1) obtain us utx where
      u: "generate_unsigned_transaction cr r (address a) amt fee us = Ok utx" and s: "sign cr utx a us = Ok t"
    by (auto simp: make_transaction_def and_then_eq_Ok split: if_split_asm)
  from generate_unsigned_transaction_Ok [OF u] obtain change rs cs where
      ins: "tx_in utx = map (incomplete_txin \<circ> input_of) (entries us)"
      and scripts: "generate_pubkey_script cr r = Ok rs" "generate_pubkey_script cr (address a) = Ok cs"
      and out: "tx_out utx = [TxOut_new amt (CompactSizeUint_of_len (length rs)) rs,
                 TxOut_new change (CompactSizeUint_of_len (length cs)) cs]"
    by blast
  from make_transaction_Ok [OF assms(1)] obtain k and c :: i64 where
      i: "map previous_output (tx_in t) = map input_of (take k (entries (utxo_set a)))"
      and v: "map txout_value (tx_out t) = [amt, c]"
      and tot: "total (take k (entries (utxo_set a))) = sint amt + sint fee + sint c" and c: "0 \<le> sint c"
    by auto
  define es where "es = take k (entries (utxo_set a))"
  have es: "set es \<subseteq> set (entries (utxo_set a))" "distinct (map ?k es)"
    using assms(3) by (auto simp: es_def in_sync_def take_map [symmetric] dest: in_set_takeD)
  have "tx_in t \<noteq> []"
    using i tot c assms(2) by auto
  moreover have "list_all (\<lambda>i. height i = None) (tx_in t)"
    using sign_heights [OF s] ins by (simp add: list_all_length list_eq_iff_nth_eq incomplete_txin_def TxIn_new_def)
  ultimately have "\<not> is_coinbase t"
    by (cases "tx_in t") (simp_all add: is_coinbase_def TxIn_is_coinbase_def)
  then have "spends t = (\<lambda>o'. (Outpoint_hash o', Outpoint_index o')) ` previous_output ` set (tx_in t)"
    by (simp add: spends_def spent_by_def get_previous_output_hash_def get_previous_output_index_def image_image)
  also have "previous_output ` set (tx_in t) = input_of ` set es"
    using arg_cong [OF i, of set] by (simp add: es_def)
  also have "(\<lambda>o'. (Outpoint_hash o', Outpoint_index o')) ` input_of ` set es = ?k ` set es"
    unfolding image_image
    by (rule image_cong [OF refl])
      (use assms(4) es(1) in \<open>fastforce simp: input_of_def Outpoint_new_def Outpoint_hash_def Outpoint_index_def
         unat_of_nat take_bit_nat_eq_self\<close>)
  finally have sp: "spends t = ?k ` set es" .
  have e: "satoshis e = coin_value (utxo_view m) (?k e) \<and> ?k e \<in> coins_of cr (utxo_view m) (address a)"
    if "e \<in> set es" for e
    using assms(3) es(1) that by (cases e) (auto simp: in_sync_def satoshis_def coin_value_def coins_of_def)
  have "sum (coin_value (utxo_view m)) (spends t) = sum_list (map (coin_value (utxo_view m)) (map ?k es))"
    unfolding sp using sum_list_distinct_conv_sum_set [OF es(2), of "coin_value (utxo_view m)"] by simp
  also have "\<dots> = total es"
    using e by (simp add: comp_def cong: map_cong)
  finally have "sum (coin_value (utxo_view m)) (spends t) = sint amt + sint fee + sint c"
    using tot by (simp add: es_def)
  moreover have o: "tx_out t = tx_out utx"
    using sign_Ok [OF s] by simp
  moreover from o v out have "change = c"
    by (simp add: TxOut_new_def)
  moreover have "spends t \<subseteq> coins_of cr (utxo_view m) (address a)"
    unfolding sp using e by blast
  ultimately show thesis
    using that [of c "TxOut_new amt (CompactSizeUint_of_len (length rs)) rs" "TxOut_new c (CompactSizeUint_of_len (length cs)) cs"]
      out script_pays [OF assms(5,6,7) scripts(1)] script_pays [OF assms(5,6,8) scripts(2)]
    by (simp add: TxOut_new_def)
qed


subsection \<open>The wire format of a payment\<close>

text \<open>The outputs of an account that the wire format can name as inputs.\<close>

definition spendable :: "hash32 \<times> nat \<times> TxOut \<Rightarrow> bool" where
  "spendable e \<longleftrightarrow> length (fst e) = 32 \<and> fst e \<noteq> replicate 32 0 \<and> fst (snd e) < 2 ^ 32 - 1"

lemma spendable_input:
  assumes "spendable e" and "length (sig_bytes s) \<le> 290"
  shows "wf_txin (TxIn_add (incomplete_txin (input_of e)) s)"
    and "length (TxIn_marshalling (TxIn_add (incomplete_txin (input_of e)) s)) \<le> 339"
proof -
  have "\<not> is_a_coinbase_outpoint (input_of e)"
    using assms(1) by (auto simp: is_a_coinbase_outpoint_def input_of_def Outpoint_new_def spendable_def
        unat_of_nat take_bit_nat_eq_self dest!: arg_cong [of _ _ unat])
  then show w: "wf_txin (TxIn_add (incomplete_txin (input_of e)) s)"
    using assms compact_of_len [of "length (sig_bytes s)"]
    by (simp add: wf_txin_def TxIn_add_def incomplete_txin_def TxIn_new_def wf_outpoint_def input_of_def Outpoint_new_def
        spendable_def SigScript_get_bytes_def)
  show "length (TxIn_marshalling (TxIn_add (incomplete_txin (input_of e)) s)) \<le> 339"
    using assms length_compact [of "of_nat (length (sig_bytes s))"]
    by (simp add: TxIn_marshalling_def TxIn_add_def incomplete_txin_def TxIn_new_def TxIn_is_coinbase_def
        length_Outpoint_marshalling wf_outpoint_def input_of_def Outpoint_new_def spendable_def SigScript_get_bytes_def
        CompactSizeUint_marshalling_def)
qed

lemma paying_output:
  assumes "generate_pubkey_script cr addr = Ok s"
  shows "wf_txout (TxOut_new v (CompactSizeUint_of_len (length s)) s)"
    and "length (TxOut_marshalling (TxOut_new v (CompactSizeUint_of_len (length s)) s)) \<le> 42"
proof -
  have "length s = 25"
    using generate_pubkey_script_Ok [OF assms] by (auto simp: p2pkh_of_hash_def)
  then show "wf_txout (TxOut_new v (CompactSizeUint_of_len (length s)) s)"
      "length (TxOut_marshalling (TxOut_new v (CompactSizeUint_of_len (length s)) s)) \<le> 42"
    using compact_of_len [of 25] length_compact [of 25]
    by (simp_all add: wf_txout_def TxOut_new_def TxOut_marshalling_def Pubkey_new_def Pubkey_bytes_def
        CompactSizeUint_marshalling_def)
qed

lemma unsigned_parts:
  assumes "generate_unsigned_transaction cr r c v fee us = Ok tx"
  shows "txin_count tx = CompactSizeUint_of_len (length (tx_in tx))" and "txout_count tx = CompactSizeUint_of_len 2"
    and "version tx = TRANSACTION_VERSION" and "list_all wf_txout (tx_out tx)" and "length (tx_out tx) = 2"
    and "\<forall>o' \<in> set (tx_out tx). length (TxOut_marshalling o') \<le> 42"
proof -
  from generate_unsigned_transaction_Ok [OF assms] obtain change rs cs where
      "generate_pubkey_script cr r = Ok rs" "generate_pubkey_script cr c = Ok cs"
      "tx_out tx = [TxOut_new v (CompactSizeUint_of_len (length rs)) rs,
                 TxOut_new change (CompactSizeUint_of_len (length cs)) cs]"
    by blast
  with paying_output show "list_all wf_txout (tx_out tx)" "length (tx_out tx) = 2"
      "\<forall>o' \<in> set (tx_out tx). length (TxOut_marshalling o') \<le> 42"
    by auto
  show "txin_count tx = CompactSizeUint_of_len (length (tx_in tx))" "txout_count tx = CompactSizeUint_of_len 2"
      "version tx = TRANSACTION_VERSION"
    using assms by (auto simp: generate_unsigned_transaction_def and_then_eq_Ok Let_def Transaction_new_def)
qed

lemma length_concat_le: "\<forall>x \<in> set xs. length (f x) \<le> n \<Longrightarrow> length (concat (map f xs)) \<le> n * length xs"
  by (induction xs) auto

text \<open>Every payment can be written, read back and is of moderate size.\<close>

lemma make_transaction_wf:
  assumes "make_transaction cr a r amt fee = Ok (t, a')" and "0 < sint amt + sint fee"
    and "digest_lengths cr" and "short_signatures cr" and "length (entries (utxo_set a)) < 2 ^ 64"
    and "\<forall>e \<in> set (entries (utxo_set a)). spendable e"
  shows "wf_tx t" and "length (Transaction_marshalling t) \<le> 110 + 339 * length (entries (utxo_set a))"
    and "version t = TRANSACTION_VERSION"
proof -
  from assms(1) obtain us utx where sel: "get_utxos_for_amount a (amt + fee) = (Ok us :: (UtxoTuple list, string) result)"
      and u: "generate_unsigned_transaction cr r (address a) amt fee us = Ok utx" and s: "sign cr utx a us = Ok t"
    by (auto simp: make_transaction_def and_then_eq_Ok i64_add_def split: if_split_asm)
  from select_loop_prefix [OF sel [unfolded get_utxos_for_amount_def]] obtain k where
      k: "entries us = take k (entries (utxo_set a))"
    by blast
  from generate_unsigned_transaction_Ok [OF u] have ins: "tx_in utx = map (incomplete_txin \<circ> input_of) (entries us)"
    by blast
  obtain sigs where sigs: "length sigs = length (tx_in utx)" "t = utx\<lparr>tx_in := map2 TxIn_add (tx_in utx) sigs\<rparr>"
      and "\<forall>s \<in> set sigs. \<exists>z. generate_sig_script cr z a = Ok s"
    by (rule sign_fills [OF s])
  then have short: "\<forall>s \<in> set sigs. length (sig_bytes s) \<le> 290"
    using script_length assms(3,4) by blast
  have len: "length (tx_in t) = length (entries us)" "length (entries us) \<le> length (entries (utxo_set a))"
    using sigs ins k by auto
  have i: "wf_txin i \<and> length (TxIn_marshalling i) \<le> 339 \<and> \<not> TxIn_is_coinbase i" if "i \<in> set (tx_in t)" for i
  proof -
    from that sigs obtain e s' where "e \<in> set (entries us)" "s' \<in> set sigs"
        "i = TxIn_add (incomplete_txin (input_of e)) s'"
      by (auto simp: ins dest!: in_set_zipE elim!: in_set_zipE)
    moreover from this have "spendable e" "\<not> TxIn_is_coinbase i"
      using assms(6) k by (auto simp: TxIn_is_coinbase_def TxIn_add_def incomplete_txin_def TxIn_new_def dest: in_set_takeD)
    ultimately show ?thesis
      using spendable_input short by blast
  qed
  have "tx_in t \<noteq> []"
    using make_transaction_first(1) [OF assms(1,2)] by auto
  then have "\<not> TxIn_is_coinbase (hd (tx_in t))"
    using i by simp
  moreover have "txin_count t = CompactSizeUint_of_len (length (tx_in t))" "txout_count t = CompactSizeUint_of_len 2"
      "tx_out t = tx_out utx"
    using unsigned_parts [OF u] sigs by simp_all
  ultimately show "wf_tx t"
    using i len assms(5) unsigned_parts [OF u] compact_of_len [of "length (tx_in t)"] compact_of_len [of 2] \<open>tx_in t \<noteq> []\<close>
    by (simp add: wf_tx_def list_all_iff)
  show "version t = TRANSACTION_VERSION"
    using unsigned_parts [OF u] sigs by simp
  have "\<forall>i \<in> set (tx_in t). length (TxIn_marshalling i) \<le> 339"
      "\<forall>o' \<in> set (tx_out t). length (TxOut_marshalling o') \<le> 42"
    using i unsigned_parts(6) [OF u] sigs(2) by simp_all
  then have "length (concat (map TxIn_marshalling (tx_in t))) \<le> 339 * length (tx_in t)"
      "length (concat (map TxOut_marshalling (tx_out t))) \<le> 42 * length (tx_out t)"
    by (auto dest: length_concat_le)
  then show "length (Transaction_marshalling t) \<le> 110 + 339 * length (entries (utxo_set a))"
    using len unsigned_parts [OF u] sigs(2) length_compact [of "of_nat (length (entries us))"] length_compact [of 2]
    by (simp add: Transaction_marshalling_def CompactSizeUint_marshalling_def ins)
qed

subsection \<open>A sample payment\<close>

definition sample_receiver :: string where
  "sample_receiver = address_of_hash sample_crypto (replicate 20 9)"

definition sample_receiving :: Account where
  "sample_receiving = \<lparr>private_key = [], address = sample_receiver, utxo_set = [], pending_transactions = [],
     confirmed_transactions = []\<rparr>"

definition sample_coins :: utxo_map where
  "sample_coins = [replicate 32 3 \<mapsto> hd (utxo_set sample_account)]"

definition paying_node :: "Account list \<Rightarrow> node" where
  "paying_node accs = \<lparr>pointers = NodeDataPointers_new [] (Blockchain_new [] Map.empty Map.empty sample_coins) accs,
     transactions_received = [], sent = [], ui = []\<rparr>"

lemma sample_receiver_differs: "sample_receiver \<noteq> sample_address"
proof -
  have "bs58_decode sample_crypto sample_receiver \<noteq> bs58_decode sample_crypto sample_address"
    using sample_bs58_inverse
    by (simp add: bs58_inverse_def sample_receiver_def sample_address_def address_of_hash_def)
      (simp add: sample_crypto_def hash_160_def sample_key_def compute)
  then show ?thesis by auto
qed

lemma sample_short: "short_signatures sample_crypto"
  by (auto simp: short_signatures_def sample_crypto_def split: if_split_asm)

lemma sample_receiver_script: "\<exists>s. generate_pubkey_script sample_crypto sample_receiver = Ok s"
proof -
  have "length sample_receiver = 34"
    by (simp add: sample_receiver_def address_of_hash_def sample_crypto_def)
  then show ?thesis
    using generate_pubkey_script_address_of_hash [OF sample_digest_lengths sample_bs58_inverse, of "replicate 20 9"]
    by (simp add: sample_receiver_def)
qed

lemma sample_payment_made:
  "\<exists>t. make_transaction sample_crypto sample_account sample_receiver 3 2 =
     Ok (t, sample_account\<lparr>pending_transactions := [t]\<rparr>)"
proof -
  obtain s where s: "generate_pubkey_script sample_crypto sample_receiver = Ok s"
    using sample_receiver_script by blast
  have "address sample_account = sample_address"
    by (simp add: sample_account_def)
  then obtain t a' where t: "make_transaction sample_crypto sample_account sample_receiver 3 2 = Ok (t, a')"
    using make_transaction_succeeds [OF sample_wif sample_pubkey sample_signs sample_digest_lengths
        s _ sample_own sample_nonneg, of _ 3 2]
    by (auto simp: sample_total i64_max_def sample_script)
  with make_transaction_Ok [OF t] show ?thesis
    by (auto simp: sample_account_def)
qed

lemma sample_spendable: "\<forall>e \<in> set (entries (utxo_set sample_account)). spendable e"
  by (simp add: sample_entries spendable_def)

lemma sample_addresses: "testnet_address sample_crypto sample_address" "testnet_address sample_crypto sample_receiver"
proof -
  have "length (hash_160 sample_crypto (2 # sample_key)) = 20"
    using sample_digest_lengths by (simp add: hash_160_def digest_lengths_def)
  then show "testnet_address sample_crypto sample_address"
    unfolding testnet_address_def sample_address_def by blast
  have "length (replicate 20 9 :: bytes) = 20"
    by simp
  then show "testnet_address sample_crypto sample_receiver"
    unfolding testnet_address_def sample_receiver_def by blast
qed

lemma sample_in_sync: "in_sync sample_crypto sample_coins sample_account"
  using set_utxos_in_sync [OF _ _ _ sample_set_utxos [where 'a = unit]]
  by (simp add: sample_coins_def wf_utxos_def sample_account_def UtxoTuple_new_def)

lemma sample_coins_pay:
  assumes "utxo_view sample_coins p = Some o'"
  shows "pays sample_crypto sample_address o'"
  using assms sample_in_sync
  by (cases p) (auto simp: in_sync_def sample_entries sample_coins_def utxo_view_def sample_account_def UtxoTuple_new_def
      split: if_split_asm option.split_asm)

lemma sample_coins_readable: "readable_utxos sample_crypto sample_coins"
  using sample_coins_pay [of "(replicate 32 3, 0)"]
  by (auto simp: readable_utxos_def sample_coins_def utxo_view_def sample_account_def UtxoTuple_new_def pays_def
      readable_output_def)

lemma pays_unique: "pays cr x o' \<Longrightarrow> pays cr y o' \<Longrightarrow> x = y"
  by (simp add: pays_def)

lemma sample_receiving_in_sync: "in_sync sample_crypto sample_coins sample_receiving"
proof -
  have "\<not> pays sample_crypto sample_receiver o'" if "utxo_view sample_coins p = Some o'" for p o'
  proof -
    from that have "pays sample_crypto sample_address o'"
      by (rule sample_coins_pay)
    then show ?thesis
      using sample_receiver_differs pays_unique by blast
  qed
  then show ?thesis
    by (auto simp: in_sync_def sample_receiving_def)
qed

lemma sample_payment_hd:
  assumes "version t = TRANSACTION_VERSION"
  shows "hd (Transaction_hash sample_crypto t) = 2"
proof -
  have "\<exists>bs. Transaction_marshalling t = 2 # bs"
    using assms by (simp add: Transaction_marshalling_def TRANSACTION_VERSION_def compute)
  then show ?thesis
    by (auto simp: Transaction_hash_def hash_message_def sha256d_def sample_crypto_def)
qed

lemma sample_payment_facts:
  assumes "make_transaction sample_crypto sample_account sample_receiver 3 2 = Ok (t, a')"
  shows "wf_tx t" "length (Transaction_marshalling t) \<le> 1000" "version t = TRANSACTION_VERSION"
    "tx_out t \<noteq> [] \<and> (\<forall>o' \<in> set (tx_out t). readable_output sample_crypto o')"
proof -
  have pos: "(0 :: int) < sint (3 :: i64) + sint (2 :: i64)" and ad: "address sample_account = sample_address"
    by (simp_all add: sample_account_def)
  show "wf_tx t" "length (Transaction_marshalling t) \<le> 1000" "version t = TRANSACTION_VERSION"
    using make_transaction_wf [OF assms pos sample_digest_lengths sample_short _ sample_spendable]
    by (simp_all add: sample_entries)
  have "\<forall>(h, k, o') \<in> set (entries (utxo_set sample_account)). k < 2 ^ 32"
    by (simp add: sample_entries)
  from payment_shape [OF assms pos sample_in_sync this sample_digest_lengths sample_bs58_inverse
      sample_addresses(2) sample_addresses(1) [folded ad]] obtain p q where "tx_out t = [p, q]"
      "TxOut_get_address sample_crypto p = Ok sample_receiver" "TxOut_get_address sample_crypto q = Ok (address sample_account)"
    by metis
  then show "tx_out t \<noteq> [] \<and> (\<forall>o' \<in> set (tx_out t). readable_output sample_crypto o')"
    by (simp add: readable_output_def)
qed

lemma sample_node_pays:
  assumes "\<forall>a \<in> set accs. in_sync sample_crypto sample_coins a"
  shows "node_ok sample_crypto (paying_node accs)"
  using assms
  by (simp add: node_ok_def paying_node_def NodeDataPointers_new_def Blockchain_new_def list_all_iff)
    (simp add: sample_coins_def wf_utxos_def sample_account_def UtxoTuple_new_def)

end
