(* ===== verification/Settlement.thy ===== *)
theory Settlement
  imports Payment
begin

section \<open>Payments from the wallet to the block\<close>

text \<open>
  What the accounts own before and after a payment is mined. The arithmetic is done on the abstract
  outpoint map: a transaction moves the value of its inputs to its outputs. With the lemmas on
  \<open>make_transaction\<close> and on the handler of \<open>block\<close> messages this gives the effect of a mined payment on
  every account of the node. The second part is about blocks that arrive again.
\<close>

subsection \<open>One transaction on the outpoint map\<close>

definition fresh_id :: "crypto \<Rightarrow> utxo_view \<Rightarrow> Transaction \<Rightarrow> bool" where
  "fresh_id cr u t \<longleftrightarrow> (\<forall>i. u (Transaction_hash cr t, i) = None)"

lemma apply_tx_value:
  "apply_tx cr t u p =
     (if fst p = Transaction_hash cr t then (if snd p < length (tx_out t) then Some (tx_out t ! snd p) else None)
      else if p \<in> spends t then None else u p)"
  by (cases p) (simp add: apply_tx_def create_def spends_def spend_def restrict_map_def)

lemma coins_after:
  assumes "fresh_id cr u t"
  shows "coins_of cr (apply_tx cr t u) addr =
    (coins_of cr u addr - spends t) \<union>
    Pair (Transaction_hash cr t) ` {i. i < length (tx_out t) \<and> pays cr addr (tx_out t ! i)}"
proof (rule set_eqI)
  fix p :: "hash32 \<times> nat"
  have "fst p = Transaction_hash cr t \<Longrightarrow> u p = None"
    using assms by (cases p) (simp add: fresh_id_def)
  then show "p \<in> coins_of cr (apply_tx cr t u) addr \<longleftrightarrow> p \<in> (coins_of cr u addr - spends t) \<union>
      Pair (Transaction_hash cr t) ` {i. i < length (tx_out t) \<and> pays cr addr (tx_out t ! i)}"
    by (cases p) (auto simp: coins_of_def apply_tx_value)
qed

text \<open>A transaction moves value: it takes the coins it spends and gives its outputs.\<close>

lemma holdings_after:
  assumes "fresh_id cr u t" and "finite (coins_of cr u addr)"
  shows "holdings cr (apply_tx cr t u) addr =
    holdings cr u addr - sum (coin_value u) (coins_of cr u addr \<inter> spends t) +
    (\<Sum>i | i < length (tx_out t) \<and> pays cr addr (tx_out t ! i). sint (txout_value (tx_out t ! i)))"
proof -
  let ?id = "Transaction_hash cr t"
  let ?C = "coins_of cr u addr - spends t" and ?I = "{i. i < length (tx_out t) \<and> pays cr addr (tx_out t ! i)}"
  let ?v = "coin_value (apply_tx cr t u)"
  have none: "u (?id, i) = None" for i
    using assms(1) by (simp add: fresh_id_def)
  have "?C \<inter> Pair ?id ` ?I = {}"
    by (auto simp: coins_of_def none)
  then have "holdings cr (apply_tx cr t u) addr = sum ?v ?C + sum ?v (Pair ?id ` ?I)"
    unfolding holdings_def coins_after [OF assms(1)] using assms(2) by (intro sum.union_disjoint) auto
  moreover have "sum ?v ?C = sum (coin_value u) ?C"
    by (intro sum.cong) (auto simp: coin_value_def apply_tx_value coins_of_def none)
  moreover have "sum (coin_value u) ?C = holdings cr u addr - sum (coin_value u) (coins_of cr u addr \<inter> spends t)"
    unfolding holdings_def using sum_diff [OF assms(2), of "coins_of cr u addr \<inter> spends t" "coin_value u"]
    by (simp add: Diff_Int)
  moreover have "sum ?v (Pair ?id ` ?I) = (\<Sum>i \<in> ?I. sint (txout_value (tx_out t ! i)))"
    by (subst sum.reindex) (auto simp: inj_on_def coin_value_def apply_tx_value intro!: sum.cong)
  ultimately show ?thesis by simp
qed

subsection \<open>Transactions that do not touch an address\<close>

definition unrelated :: "crypto \<Rightarrow> utxo_view \<Rightarrow> string \<Rightarrow> Transaction \<Rightarrow> bool" where
  "unrelated cr u addr t \<longleftrightarrow> spends t \<inter> coins_of cr u addr = {} \<and> (\<forall>o' \<in> set (tx_out t). \<not> pays cr addr o')"

lemma unrelated_keeps:
  assumes "fresh_id cr u t" and "unrelated cr u addr t"
  shows "coins_of cr (apply_tx cr t u) addr = coins_of cr u addr"
    and "\<forall>p \<in> coins_of cr u addr. apply_tx cr t u p = u p"
  using assms by (auto simp: coins_after unrelated_def apply_tx_value fresh_id_def coins_of_def)

lemma fresh_id_after:
  "fresh_id cr u t \<Longrightarrow> Transaction_hash cr t \<noteq> Transaction_hash cr x \<Longrightarrow> fresh_id cr (apply_tx cr x u) t"
  by (simp add: fresh_id_def apply_tx_value)

lemma unrelated_fold:
  assumes "distinct (map (Transaction_hash cr) xs)" and "\<forall>x \<in> set xs. fresh_id cr u x \<and> unrelated cr u addr x"
  shows "coins_of cr (fold (apply_tx cr) xs u) addr = coins_of cr u addr \<and>
    (\<forall>p \<in> coins_of cr u addr. fold (apply_tx cr) xs u p = u p)"
  using assms
proof (induction xs arbitrary: u)
  case (Cons x xs)
  have x: "fresh_id cr u x" "unrelated cr u addr x"
    using Cons.prems(2) by simp_all
  note k = unrelated_keeps [OF x]
  have "fresh_id cr (apply_tx cr x u) y \<and> unrelated cr (apply_tx cr x u) addr y" if "y \<in> set xs" for y
  proof -
    have "Transaction_hash cr y \<noteq> Transaction_hash cr x"
      using Cons.prems(1) image_eqI [OF refl that, of "Transaction_hash cr"] by auto
    then show ?thesis
      using Cons.prems(2) that k(1) fresh_id_after by (simp add: unrelated_def)
  qed
  with Cons.IH [of "apply_tx cr x u"] Cons.prems(1) k show ?case by simp
qed simp

lemma holdings_cong:
  "coins_of cr u' addr = coins_of cr u addr \<Longrightarrow> \<forall>p \<in> coins_of cr u addr. u' p = u p \<Longrightarrow>
     holdings cr u' addr = holdings cr u addr"
  by (simp add: holdings_def coin_value_def)

lemma unrelated_holdings:
  assumes "distinct (map (Transaction_hash cr) xs)" and "\<forall>x \<in> set xs. fresh_id cr u x \<and> unrelated cr u addr x"
  shows "holdings cr (fold (apply_tx cr) xs u) addr = holdings cr u addr"
  using unrelated_fold [OF assms] by (intro holdings_cong) auto

lemma fresh_id_fold:
  "\<forall>x \<in> set xs. Transaction_hash cr t \<noteq> Transaction_hash cr x \<Longrightarrow> fresh_id cr u t \<Longrightarrow>
     fresh_id cr (fold (apply_tx cr) xs u) t"
  by (induction xs arbitrary: u) (simp_all add: fresh_id_after)

text \<open>
  The transactions of a block around \<open>t\<close> that neither pay an address nor spend its coins, the outputs
  of \<open>t\<close> included: for that address only \<open>t\<close> counts.
\<close>

definition bystander :: "crypto \<Rightarrow> utxo_view \<Rightarrow> Transaction \<Rightarrow> string \<Rightarrow> Transaction \<Rightarrow> bool" where
  "bystander cr u t addr x \<longleftrightarrow> unrelated cr u addr x \<and> (\<forall>p \<in> spends x. fst p \<noteq> Transaction_hash cr t)"

lemma distinct_around: "distinct (map f (xs @ t # ys)) \<Longrightarrow> x \<in> set (xs @ ys) \<Longrightarrow> f x \<noteq> f t"
  by (force simp: image_iff)

lemma holdings_in_block:
  assumes "distinct (map (Transaction_hash cr) (before @ t # after))"
    and "\<forall>x \<in> set (before @ t # after). fresh_id cr u x"
    and "\<forall>x \<in> set (before @ after). bystander cr u t addr x"
    and "finite (coins_of cr u addr)"
  shows "holdings cr (fold (apply_tx cr) (before @ t # after) u) addr =
    holdings cr u addr - sum (coin_value u) (coins_of cr u addr \<inter> spends t) +
    (\<Sum>i | i < length (tx_out t) \<and> pays cr addr (tx_out t ! i). sint (txout_value (tx_out t ! i)))"
proof -
  let ?u1 = "fold (apply_tx cr) before u"
  let ?u2 = "apply_tx cr t ?u1"
  have b: "distinct (map (Transaction_hash cr) before)" "\<forall>x \<in> set before. fresh_id cr u x \<and> unrelated cr u addr x"
    using assms(1-3) by (auto simp: bystander_def)
  from unrelated_fold [OF b] have c1: "coins_of cr ?u1 addr = coins_of cr u addr"
      and v1: "\<forall>p \<in> coins_of cr u addr. ?u1 p = u p"
    by auto
  have f1: "fresh_id cr ?u1 x" if "x \<in> set (t # after)" for x
  proof (rule fresh_id_fold)
    show "\<forall>y \<in> set before. Transaction_hash cr x \<noteq> Transaction_hash cr y"
      using assms(1) that by (auto simp: image_iff)
  qed (use assms(2) that in auto)
  have c2: "coins_of cr ?u2 addr \<subseteq> coins_of cr u addr \<union> {p. fst p = Transaction_hash cr t}"
    unfolding coins_after [OF f1 [OF list.set_intros(1)]] c1 by auto
  have "distinct (map (Transaction_hash cr) after)"
    using assms(1) by simp
  moreover have "\<forall>x \<in> set after. fresh_id cr ?u2 x \<and> unrelated cr ?u2 addr x"
  proof
    fix x assume x: "x \<in> set after"
    then have "Transaction_hash cr x \<noteq> Transaction_hash cr t"
      by (intro distinct_around [OF assms(1)]) simp
    moreover from assms(3) x have "bystander cr u t addr x"
      by simp
    with c2 have "unrelated cr ?u2 addr x"
      unfolding unrelated_def bystander_def by blast
    ultimately show "fresh_id cr ?u2 x \<and> unrelated cr ?u2 addr x"
      using f1 [of x] x by (simp add: fresh_id_after)
  qed
  ultimately have "holdings cr (fold (apply_tx cr) (before @ t # after) u) addr = holdings cr ?u2 addr"
    using unrelated_holdings by simp
  also have "\<dots> = holdings cr ?u1 addr - sum (coin_value ?u1) (coins_of cr ?u1 addr \<inter> spends t) +
      (\<Sum>i | i < length (tx_out t) \<and> pays cr addr (tx_out t ! i). sint (txout_value (tx_out t ! i)))"
    using assms(4) c1 by (intro holdings_after f1) simp_all
  also have "holdings cr ?u1 addr = holdings cr u addr"
    using unrelated_holdings [OF b] .
  also have "sum (coin_value ?u1) (coins_of cr ?u1 addr \<inter> spends t) = sum (coin_value u) (coins_of cr u addr \<inter> spends t)"
    unfolding c1 by (intro sum.cong) (auto simp: coin_value_def v1)
  finally show ?thesis .
qed

subsection \<open>A mined payment\<close>

lemma in_sync_finite: "in_sync cr m a \<Longrightarrow> finite (coins_of cr (utxo_view m) (address a))"
  by (simp add: in_sync_coins [symmetric])

text \<open>The effect of a payment on the coins of an address.\<close>

lemma payment_effect:
  assumes "spends t \<subseteq> coins_of cr u own" and "sum (coin_value u) (spends t) = amt + fee + sint (txout_value q)"
    and "tx_out t = [p, q]" and "sint (txout_value p) = amt"
    and "TxOut_get_address cr p = Ok r" and "TxOut_get_address cr q = Ok own"
  shows "(\<Sum>i | i < length (tx_out t) \<and> pays cr addr (tx_out t ! i). sint (txout_value (tx_out t ! i))) -
      sum (coin_value u) (coins_of cr u addr \<inter> spends t) =
    (if addr = r then amt else 0) - (if addr = own then amt + fee else 0)"
proof -
  have "{i. i < length (tx_out t) \<and> pays cr addr (tx_out t ! i)} =
      (if addr = r then {0} else {}) \<union> (if addr = own then {1} else {})"
  proof (rule set_eqI)
    fix k :: nat
    have "k = 0 \<or> k = 1 \<or> 2 \<le> k" by linarith
    then show "k \<in> {i. i < length (tx_out t) \<and> pays cr addr (tx_out t ! i)} \<longleftrightarrow>
        k \<in> (if addr = r then {0} else {}) \<union> (if addr = own then {1} else {})"
      using assms(3,5,6) by (elim disjE) (auto simp: pays_def)
  qed
  moreover have "coins_of cr u addr \<inter> spends t = (if addr = own then spends t else {})"
  proof (cases "addr = own")
    case False
    then have "coins_of cr u addr \<inter> coins_of cr u own = {}"
      by (auto simp: coins_of_def dest: pays_unique)
    with assms(1) False show ?thesis by auto
  qed (use assms(1) in auto)
  ultimately show ?thesis
    using assms(2-4) by simp
qed

lemma block_applied_holdings:
  assumes "block_applied cr b st st'" and "node_ok cr st" and "j < length (accounts (pointers st))"
  shows "total (entries (utxo_set (accounts (pointers st) ! j))) =
      holdings cr (utxo_view (bc_utxo_set (chain st))) (address (accounts (pointers st) ! j))"
    and "total (entries (utxo_set (accounts (pointers st') ! j))) =
      holdings cr (fold (apply_tx cr) (txn b) (utxo_view (bc_utxo_set (chain st)))) (address (accounts (pointers st) ! j))"
    and "address (accounts (pointers st') ! j) = address (accounts (pointers st) ! j)"
proof -
  let ?a = "accounts (pointers st) ! j" and ?a' = "accounts (pointers st') ! j"
  have "in_sync cr (bc_utxo_set (chain st)) ?a"
    using assms(2,3) by (simp add: node_ok_def list_all_length)
  then show "total (entries (utxo_set ?a)) = holdings cr (utxo_view (bc_utxo_set (chain st))) (address ?a)"
    by (rule in_sync_holdings)
  have "account_after cr (bc_utxo_set (chain st')) b ?a ?a'"
    using assms(1,3) by (simp add: block_applied_def list_all2_conv_all_nth)
  then have "in_sync cr (bc_utxo_set (chain st')) ?a'" "address ?a' = address ?a"
    by (simp_all add: account_after_def)
  moreover have "utxo_view (bc_utxo_set (chain st')) = fold (apply_tx cr) (txn b) (utxo_view (bc_utxo_set (chain st)))"
    using assms(1) by (simp add: block_applied_def)
  ultimately show "total (entries (utxo_set ?a')) =
      holdings cr (fold (apply_tx cr) (txn b) (utxo_view (bc_utxo_set (chain st)))) (address ?a)"
      "address ?a' = address ?a"
    using in_sync_holdings [of cr _ ?a'] by simp_all
qed

lemma block_applied_confirms:
  assumes "block_applied cr b st st'" and "i < length (accounts (pointers st))"
    and "t \<in> set (pending_transactions (accounts (pointers st) ! i))" and "t \<in> set (txn b)"
    and "inj_on (Transaction_hash cr) (set (pending_transactions (accounts (pointers st) ! i)))"
  shows "t \<in> set (confirmed_transactions (accounts (pointers st') ! i))"
proof -
  let ?a = "accounts (pointers st) ! i" and ?a' = "accounts (pointers st') ! i"
  have "account_after cr (bc_utxo_set (chain st')) b ?a ?a'"
    using assms(1,2) by (simp add: block_applied_def list_all2_conv_all_nth)
  then have c: "confirmed_transactions ?a' = confirmed_transactions (fold (confirm cr) (txn b) ?a)"
    by (simp add: account_after_def)
  from fold_confirm_settles [of cr "txn b" ?a] assms(5)
  have "settled (holder_of (fold (confirm cr) (txn b) ?a)) =
      settled (holder_of ?a) + (awaiting (holder_of ?a) \<inter># mset (txn b))"
    by (auto simp: settle_def holder_of_def)
  moreover have "t \<in># awaiting (holder_of ?a) \<inter># mset (txn b)"
    using assms(3,4) by (simp add: holder_of_def)
  ultimately have "t \<in># settled (holder_of (fold (confirm cr) (txn b) ?a))"
    by simp
  with c show ?thesis
    by (simp add: holder_of_def)
qed

subsection \<open>Properties\<close>

text \<open>
  C5. A payment moves what it says. An account of the node makes a payment \<open>t\<close>; later a new valid block
  with \<open>t\<close> arrives, whose transactions have new ids. Then the balance of every account whose coins the
  other transactions of the block leave alone changes by exactly this: the receiver gets the amount, and
  the payer loses the amount and the fee. When no two transactions waiting in the payer's account have
  the same id, \<open>t\<close> is confirmed there.
\<close>

theorem payment_settles:
  assumes "digest_lengths cr" and "iteration_order ord" and "bs58_inverse cr" and "node_ok cr st"
    and "make_transaction cr a r amt fee = Ok (t, accounts (pointers st) ! i)" and "i < length (accounts (pointers st))"
    and "0 < sint amt + sint fee" and "testnet_address cr r" and "testnet_address cr (address a)"
    and "\<forall>(h, k, o') \<in> set (entries (utxo_set a)). k < 2 ^ 32"
    and "wf_block b" and "valid_block cr b" and "header_is_not_included (block_header b) (headers (chain st))"
    and "txn b = before @ t # after" and "distinct (map (Transaction_hash cr) (txn b))"
    and "\<forall>x \<in> set (txn b). fresh_id cr (utxo_view (bc_utxo_set (chain st))) x"
    and "handle_block_message cr ord (Block_marshalling b) st = Ok st'"
  shows "(\<forall>j < length (accounts (pointers st)). let c = accounts (pointers st) ! j in
      (\<forall>x \<in> set (before @ after). bystander cr (utxo_view (bc_utxo_set (chain st))) t (address c) x) \<longrightarrow>
      total (entries (utxo_set (accounts (pointers st') ! j))) = total (entries (utxo_set c)) +
        (if address c = r then sint amt else 0) - (if address c = address a then sint amt + sint fee else 0)) \<and>
    (inj_on (Transaction_hash cr) (set (pending_transactions (accounts (pointers st) ! i))) \<longrightarrow>
      t \<in> set (confirmed_transactions (accounts (pointers st') ! i)))"
proof
  let ?u = "utxo_view (bc_utxo_set (chain st))" and ?acc = "accounts (pointers st)"
  have sync: "in_sync cr (bc_utxo_set (chain st)) (?acc ! j)" if "j < length ?acc" for j
    using assms(4) that by (simp add: node_ok_def list_all_length)
  have a': "?acc ! i = a\<lparr>pending_transactions := pending_transactions a @ [t]\<rparr>"
    using make_transaction_Ok [OF assms(5)] by blast
  then have "in_sync cr (bc_utxo_set (chain st)) a"
    using in_sync_cong [OF sync [OF assms(6)], of a] by simp
  from payment_shape [OF assms(5,7) this assms(10,1,3,8,9)] obtain change p q where
      sp: "spends t \<subseteq> coins_of cr ?u (address a)" "sum (coin_value ?u) (spends t) = sint amt + sint fee + sint change"
      "tx_out t = [p, q]" "txout_value p = amt" "txout_value q = change"
      "TxOut_get_address cr p = Ok r" "TxOut_get_address cr q = Ok (address a)"
    by blast
  have app: "block_applied cr b st st'"
    using handle_block_applied [OF assms(11,12,1,2,13) _ _ assms(17)] assms(4) by (simp add: node_ok_def)
  show "\<forall>j < length ?acc. let c = ?acc ! j in
      (\<forall>x \<in> set (before @ after). bystander cr ?u t (address c) x) \<longrightarrow>
      total (entries (utxo_set (accounts (pointers st') ! j))) = total (entries (utxo_set c)) +
        (if address c = r then sint amt else 0) - (if address c = address a then sint amt + sint fee else 0)"
    unfolding Let_def
  proof (intro allI impI)
    fix j assume j: "j < length ?acc" and others: "\<forall>x \<in> set (before @ after). bystander cr ?u t (address (?acc ! j)) x"
    note h = holdings_in_block [OF assms(15,16) [unfolded assms(14)] others in_sync_finite [OF sync [OF j]]]
    with payment_effect [of t cr ?u "address a" "sint amt" "sint fee" q p r "address (?acc ! j)"] sp
      block_applied_holdings [OF app assms(4) j] assms(14)
    show "total (entries (utxo_set (accounts (pointers st') ! j))) = total (entries (utxo_set (?acc ! j))) +
        (if address (?acc ! j) = r then sint amt else 0) - (if address (?acc ! j) = address a then sint amt + sint fee else 0)"
      by simp
  qed
  have "t \<in> set (pending_transactions (?acc ! i))" "t \<in> set (txn b)"
    using a' assms(14) by simp_all
  with block_applied_confirms [OF app assms(6)]
  show "inj_on (Transaction_hash cr) (set (pending_transactions (?acc ! i))) \<longrightarrow>
      t \<in> set (confirmed_transactions (accounts (pointers st') ! i))"
    by blast
qed

subsubsection \<open>A block with the sample payment\<close>

definition paying_block :: "Transaction \<Rightarrow> Block" where
  "paying_block t = Block_new (sample_header\<lparr>merkle_root_hash := Transaction_hash sample_crypto t\<rparr>) (CompactSizeUint_new 1) [t]"

lemma paying_block_ok:
  assumes "wf_tx t" and "length (Transaction_marshalling t) \<le> 1000"
  shows "wf_block (paying_block t)" and "valid_block sample_crypto (paying_block t)"
proof -
  let ?h = "sample_header\<lparr>merkle_root_hash := Transaction_hash sample_crypto t\<rparr>"
  have id: "length (Transaction_hash sample_crypto t) = 32"
    by (rule hash32_length [OF sample_digest_lengths])
  then show "wf_block (paying_block t)"
    using assms(1) by (simp add: wf_block_def paying_block_def Block_new_def wf_header_def sample_header_def BlockHeader_new_def
        CompactSizeUint_new_wf)
  have "BlockHeader_hash sample_crypto ?h = 1 # replicate 31 0" "bits_exponent ?h = 29" "bits_mantissa ?h = 65535"
    by (simp_all add: BlockHeader_hash_def BlockHeader_marshalling_def sha256d_def sample_crypto_def
        sample_header_def BlockHeader_new_def bits_exponent_def bits_mantissa_def compute)
  then have "meets_target sample_crypto ?h"
    by (simp add: meets_target_def)
  moreover have "length (Block_marshalling (paying_block t)) \<le> 1048576"
    using assms(2) id length_compact [of 1]
    by (simp add: paying_block_def Block_new_def Block_marshalling_def BlockHeader_marshalling_def sample_header_def
        BlockHeader_new_def CompactSizeUint_marshalling_def)
  ultimately show "valid_block sample_crypto (paying_block t)"
    by (simp add: valid_block_def paying_block_def Block_new_def merkle_root.simps)
qed

text \<open>Readable outputs stay readable.\<close>

lemma readable_remove: "readable_utxos cr m \<Longrightarrow> readable_utxos cr (fold remove_outpoint ps m)"
proof (induction ps arbitrary: m)
  case (Cons p ps)
  have "readable_utxos cr (remove_outpoint p m)"
    using Cons.prems set_remove_first
    by (fastforce simp: readable_utxos_def remove_outpoint_def remove_utxo_def ran_def split: option.split)
  with Cons.IH show ?case by simp
qed simp

lemma readable_load:
  assumes "readable_utxos cr m" and "\<forall>o' \<in> set (tx_out t). readable_output cr o'"
  shows "readable_utxos cr (load_utxos cr t m)"
proof -
  have "ran (load_utxos cr t m) \<subseteq>
      insert (UtxoTuple_new (Transaction_hash cr t) (zip (tx_out t) [0..<length (tx_out t)])) (ran m)"
    by (auto simp: load_utxos_def ran_def Let_def)
  moreover have "readable_output cr (fst u)" if "u \<in> set (zip (tx_out t) [0..<length (tx_out t)])" for u
    using assms(2) that by (cases u) (auto dest: set_zip_leftD)
  ultimately show ?thesis
    using assms(1) unfolding readable_utxos_def by (fastforce simp: UtxoTuple_new_def)
qed

lemma readable_after:
  assumes "readable_utxos cr m" and "\<forall>t \<in> set (txn b). \<forall>o' \<in> set (tx_out t). readable_output cr o'"
  shows "readable_utxos cr (utxos_after cr b m)"
proof -
  have "readable_utxos cr (fold (utxos.process cr) ts m)"
    if "readable_utxos cr m" "\<forall>t \<in> set ts. \<forall>o' \<in> set (tx_out t). readable_output cr o'" for ts
    using that
    by (induction ts arbitrary: m) (simp_all add: utxos.process_def readable_load remove_utxos_fold readable_remove)
  with assms show ?thesis by (simp add: utxos_after_def)
qed

theorem payment_settles_witness:
  "\<exists>t st'. make_transaction sample_crypto sample_account sample_receiver 3 2 = Ok (t, sample_account\<lparr>pending_transactions := [t]\<rparr>) \<and>
     handle_block_message sample_crypto sorted_order (Block_marshalling (paying_block t))
       (paying_node [sample_account\<lparr>pending_transactions := [t]\<rparr>, sample_receiving]) = Ok st' \<and>
     map (\<lambda>a. total (entries (utxo_set a))) (accounts (pointers st')) = [5, 3] \<and>
     t \<in> set (confirmed_transactions (accounts (pointers st') ! 0))"
proof -
  obtain t where t: "make_transaction sample_crypto sample_account sample_receiver 3 2 =
      Ok (t, sample_account\<lparr>pending_transactions := [t]\<rparr>)"
    using sample_payment_made by blast
  let ?accs = "[sample_account\<lparr>pending_transactions := [t]\<rparr>, sample_receiving]"
  let ?st = "paying_node ?accs" and ?b = "paying_block t"
  have pos: "(0 :: int) < sint (3 :: i64) + sint (2 :: i64)" and ad: "address sample_account = sample_address"
    by (simp_all add: sample_account_def)
  note wf = sample_payment_facts(1-3) [OF t]
  have small: "\<forall>(h, k, o') \<in> set (entries (utxo_set sample_account)). k < 2 ^ 32"
    by (simp add: sample_entries)
  note addr = sample_addresses(2) sample_addresses(1) [folded ad]
  have c: "chain ?st = Blockchain_new [] Map.empty Map.empty sample_coins" "accounts (pointers ?st) = ?accs"
      "txn ?b = [] @ t # []"
    by (simp_all add: paying_node_def NodeDataPointers_new_def paying_block_def Block_new_def)
  have coins: "wf_utxos sample_coins" "finite (dom sample_coins)"
    by (simp_all add: sample_coins_def wf_utxos_def sample_account_def UtxoTuple_new_def)
  have ok: "node_ok sample_crypto ?st"
    using sample_receiving_in_sync in_sync_cong [OF sample_in_sync] coins
    by (simp add: node_ok_def c(1,2)) (simp add: paying_node_def Blockchain_new_def)
  have "readable_utxos sample_crypto (utxos_after sample_crypto ?b (bc_utxo_set (chain ?st)))"
    using sample_coins_readable sample_payment_facts(4) [OF t]
    by (intro readable_after) (simp_all add: c Blockchain_new_def)
  moreover have fresh_header: "header_is_not_included (block_header ?b) (headers (chain ?st))"
    by (simp add: c(1) Blockchain_new_def header_is_not_included_def)
  ultimately obtain st' where h: "handle_block_message sample_crypto sorted_order (Block_marshalling ?b) ?st = Ok st'"
    using handle_block_succeeds [OF paying_block_ok [OF wf(1,2)] sample_digest_lengths] by blast
  have fresh: "\<forall>x \<in> set (txn ?b). fresh_id sample_crypto (utxo_view (bc_utxo_set (chain ?st))) x"
    using sample_payment_hd [OF wf(3)] by (auto simp add: c fresh_id_def utxo_view_def Blockchain_new_def sample_coins_def)
  have made: "make_transaction sample_crypto sample_account sample_receiver 3 2 = Ok (t, accounts (pointers ?st) ! 0)"
      and len: "0 < length (accounts (pointers ?st))"
    using t by (simp_all add: c(2))
  have dist: "distinct (map (Transaction_hash sample_crypto) (txn ?b))"
    by (simp add: c(3))
  note settles = payment_settles [OF sample_digest_lengths sorted_order_iterates sample_bs58_inverse ok made len pos addr
      small paying_block_ok [OF wf(1,2)] fresh_header c(3) dist fresh h]
  have "length (accounts (pointers st')) = 2"
    using handle_block_applied [OF paying_block_ok [OF wf(1,2)] sample_digest_lengths sorted_order_iterates fresh_header _ _ h]
      coins by (auto simp: block_applied_def c Blockchain_new_def dest: list_all2_lengthD)
  then obtain a0 a1 where two: "accounts (pointers st') = [a0, a1]"
    by (auto simp: length_Suc_conv numeral_2_eq_2)
  have "\<forall>j < 2. total (entries (utxo_set ([a0, a1] ! j))) = total (entries (utxo_set (?accs ! j))) +
      (if address (?accs ! j) = sample_receiver then 3 else 0) - (if address (?accs ! j) = sample_address then 5 else 0)"
    using conjunct1 [OF settles] by (simp add: c two ad Let_def numeral_2_eq_2)
  from this [rule_format, of 0] this [rule_format, of 1]
  have "map (\<lambda>a. total (entries (utxo_set a))) (accounts (pointers st')) = [5, 3]"
    using sample_total sample_receiver_differs by (simp add: two ad sample_receiving_def)
  moreover have "t \<in> set (confirmed_transactions (accounts (pointers st') ! 0))"
    using settles by (simp add: c(2))
  ultimately show ?thesis
    using t h by (intro exI conjI)
qed

subsection \<open>Blocks that arrive again\<close>

lemma output_in_block:
  assumes "i < length (tx_out t)" and "\<forall>x \<in> set after. Transaction_hash cr x \<noteq> Transaction_hash cr t \<and> (Transaction_hash cr t, i) \<notin> spends x"
  shows "fold (apply_tx cr) (before @ t # after) u (Transaction_hash cr t, i) = Some (tx_out t ! i)"
proof -
  have "\<forall>x \<in> set after. Transaction_hash cr x \<noteq> fst (Transaction_hash cr t, i) \<and>
      (is_coinbase x \<or> (Transaction_hash cr t, i) \<notin> spent_by x)"
    using assms(2) by (auto simp: spends_def)
  from fold_apply_tx_other [OF this] assms(1) show ?thesis
    by (simp add: apply_tx_value)
qed

text \<open>
  C31. Only the last ten headers are compared, and neither the hash of the previous block nor the spent
  outputs are. So a block of the chain that is older than that and is sent again by a peer is taken in a
  second time: its header then stands twice in the chain, and the outputs it creates can be spent again,
  whoever spent them since.
\<close>

theorem old_block_applied_again:
  assumes "wf_block b" and "valid_block cr b" and "digest_lengths cr" and "iteration_order ord"
    and "wf_utxos (bc_utxo_set (chain st))" and "finite (dom (bc_utxo_set (chain st)))"
    and "readable_utxos cr (bc_utxo_set (chain st))" and "\<forall>x \<in> set (txn b). \<forall>o' \<in> set (tx_out x). readable_output cr o'"
    and "headers (chain st) = older @ block_header b # newer" and "10 \<le> length newer" and "block_header b \<notin> set newer"
    and "txn b = before @ t # after" and "i < length (tx_out t)"
    and "\<forall>x \<in> set after. Transaction_hash cr x \<noteq> Transaction_hash cr t \<and> (Transaction_hash cr t, i) \<notin> spends x"
  shows "\<exists>st'. handle_block_message cr ord (Block_marshalling b) st = Ok st' \<and>
    headers (chain st') = older @ block_header b # newer @ [block_header b] \<and>
    utxo_view (bc_utxo_set (chain st')) (Transaction_hash cr t, i) = Some (tx_out t ! i)"
proof -
  have "length newer - 9 = Suc (length newer - 10)"
    using assms(10) by simp
  then have n: "header_is_not_included (block_header b) (headers (chain st))"
    using assms(10,11) by (auto simp: header_is_not_included_def assms(9) Let_def dest: in_set_dropD)
  from handle_block_succeeds [OF assms(1-3) n readable_after [OF assms(7,8)]] obtain st' where
      h: "handle_block_message cr ord (Block_marshalling b) st = Ok st'"
    by blast
  from handle_block_applied [OF assms(1-4) n assms(5,6) h] h output_in_block [OF assms(13,14)] show ?thesis
    by (intro exI [of _ st']) (simp add: block_applied_def assms(9,12))
qed

theorem old_block_applied_again_witness:
  "\<exists>t st'. handle_block_message sample_crypto sorted_order (Block_marshalling (paying_block t))
      (upd_blockchain (\<lambda>bc. bc\<lparr>headers := block_header (paying_block t) # replicate 10 sample_header\<rparr>) sample_node) = Ok st' \<and>
     utxo_view (bc_utxo_set (chain st')) (Transaction_hash sample_crypto t, 0) = Some (tx_out t ! 0)"
proof -
  obtain t where t: "make_transaction sample_crypto sample_account sample_receiver 3 2 =
      Ok (t, sample_account\<lparr>pending_transactions := [t]\<rparr>)"
    using sample_payment_made by blast
  note p = sample_payment_facts [OF t]
  let ?b = "paying_block t"
  let ?st = "upd_blockchain (\<lambda>bc. bc\<lparr>headers := block_header ?b # replicate 10 sample_header\<rparr>) sample_node"
  have c: "bc_utxo_set (chain ?st) = Map.empty" "headers (chain ?st) = [] @ block_header ?b # replicate 10 sample_header"
    by (simp_all add: sample_node_def upd_blockchain_def NodeDataPointers_new_def Blockchain_new_def)
  have b: "txn ?b = [] @ t # []" "block_header ?b \<notin> set (replicate 10 sample_header)"
    using sample_payment_hd [OF p(3)]
    by (auto simp: paying_block_def Block_new_def sample_header_def BlockHeader_new_def)
  have m: "wf_utxos Map.empty" "finite (dom (Map.empty :: utxo_map))" "readable_utxos sample_crypto Map.empty"
    by (simp_all add: wf_utxos_def readable_utxos_def)
  have "\<forall>x \<in> set (txn ?b). \<forall>o' \<in> set (tx_out x). readable_output sample_crypto o'" "0 < length (tx_out t)"
    using p(4) b(1) by auto
  from old_block_applied_again [OF paying_block_ok [OF p(1,2)] sample_digest_lengths sorted_order_iterates
      m [folded c(1)] this(1) c(2) _ b(2,1) this(2)] show ?thesis
    by auto
qed

end
