(* ===== verification/Connect.thy ===== *)
theory Connect
  imports Server
begin

section \<open>Two nodes of the program connect to each other\<close>

text \<open>
  The handshake of a node that connects (\<open>connect_to_node\<close>) with the handshake of a node that accepts
  (\<open>handle_incoming_connection\<close>): what one writes is what the other one reads.
\<close>

text \<open>A header that is written and then read, whatever its start string and checksum.\<close>

lemma read_own_header:
  assumes "length (start_string h) = 4" and "command_ok (command_name h)" and "length (checksum h) = 4"
    and "HeaderMessage_to_le_bytes h = (Ok bs :: (bytes, string) result)"
  shows "HeaderMessage_read_from cr \<lparr>inp = bs @ rest, outp = out\<rparr> (command_name h) None =
    Ok (h\<lparr>command_name := padded (command_name h)\<rparr>, \<lparr>inp = rest, outp = out\<rparr>)"
proof -
  note r = header_reads_back [OF assms]
  have "command_name_to_bytes (command_name h) = (Ok (as_bytes (padded (command_name h))) :: (bytes, string) result)"
      "from_utf8 (as_bytes (padded (command_name h))) = Ok (padded (command_name h))"
    using assms(2) by (simp_all add: command_ok_def command_name_to_bytes_Ok from_utf8_def)
  with r show ?thesis
    by (simp add: HeaderMessage_read_from_def read_exact_append read_loop_hit)
qed

lemma read_verack_bare:
  "read_verack_message cr \<lparr>inp = bare_header ''verack'' @ rest, outp = out\<rparr> =
     Ok (HeaderMessage_new cr (padded ''verack'') None, \<lparr>inp = rest, outp = out\<rparr>)"
proof -
  let ?h = "HeaderMessage_new cr ''verack'' None"
  have "HeaderMessage_to_le_bytes ?h = (Ok (bare_header ''verack'') :: (bytes, string) result)"
    by (simp add: HeaderMessage_to_le_bytes_def HeaderMessage_new_def command_name_to_bytes_Ok bare_header_def)
  from read_own_header [OF _ _ _ this, of cr rest out] control_names show ?thesis
    by (simp add: read_verack_message_def HeaderMessage_new_def START_STRING_TESTNET_def CHECKSUM_EMPTY_PAYLOAD_def)
qed

text \<open>A configuration and an address with which the version message of the node can be read.\<close>

definition proper_config :: "Config \<Rightarrow> bool" where
  "proper_config config \<longleftrightarrow> length (cfg_start_string config) = 4 \<and> length (user_agent config) = 16 \<and>
     utf8_valid (as_bytes (user_agent config))"

definition proper_address :: "SocketAddr \<Rightarrow> bool" where
  "proper_address a \<longleftrightarrow> (\<forall>segs port. a = V6 segs port \<longrightarrow> length segs = 8)"

lemma read_own_version:
  assumes "get_version_message cr now rnd config a b = Ok m" and "proper_config config"
    and "proper_address a" and "proper_address b" and "\<And>p. length (get_checksum cr p) = 4"
  shows "\<exists>m'. VersionMessage_read_from cr \<lparr>inp = version_message_bytes m @ rest, outp = out\<rparr> =
    Ok (m', \<lparr>inp = rest, outp = out\<rparr>) \<and> vm_payload m' = vm_payload m"
proof -
  let ?h = "vm_header m" and ?pl = "VersionPayload_to_le_bytes (vm_payload m)"
  from assms(1) obtain ts where p: "vm_payload m =
        \<lparr>vp_version = protocol_version config, services = 0, timestamp = ts, addr_recv_service = 1,
         addr_recv_ip = get_ipv6_address_ip a, addr_recv_port = 18333,
         addr_trans_service = 0, addr_trans_ip = get_ipv6_address_ip b,
         addr_trans_port = 18333, vp_nonce = rnd, user_agent_bytes = CompactSizeUint_new 16,
         vp_user_agent = user_agent config, start_height = 1, relay = True\<rparr>"
      and h: "start_string ?h = cfg_start_string config" "command_name ?h = ''version''"
        "payload_size ?h = of_nat (length ?pl)" "checksum ?h = get_checksum cr ?pl"
    by (auto simp: get_version_message_def get_version_payload_def and_then_eq_Ok)
  have wf: "wf_version (vm_payload m)"
    using assms(2-4) CompactSizeUint_new_wf [of 16]
    by (auto simp: p wf_version_def proper_config_def proper_address_def length_get_ipv6_address_ip)
  have "length ?pl \<le> 200"
    using assms(2-4) length_get_ipv6_address_ip
    by (simp add: p VersionPayload_to_le_bytes_def proper_config_def proper_address_def as_bytes_def
        CompactSizeUint_marshalling_def CompactSizeUint_value_def CompactSizeUint_new_def generate_cases)
  then have size: "unat (payload_size ?h) = length ?pl"
    by (simp add: h(3) unat_of_nat)
  have "HeaderMessage_to_le_bytes ?h =
      (Ok (start_string ?h @ as_bytes (padded ''version'') @ u32_to_le_bytes (payload_size ?h) @ checksum ?h) :: (bytes, string) result)"
    by (simp add: HeaderMessage_to_le_bytes_def h(2) command_name_to_bytes_Ok)
  from read_own_header [OF _ _ _ this, of cr "?pl @ rest" out] assms(2,5) control_names(1)
  have "HeaderMessage_read_from cr \<lparr>inp = version_message_bytes m @ rest, outp = out\<rparr> ''version'' None =
      Ok (?h\<lparr>command_name := padded ''version''\<rparr>, \<lparr>inp = ?pl @ rest, outp = out\<rparr>)"
    by (simp add: h(1,2,4) proper_config_def version_message_bytes_def)
  then show ?thesis
    using size version_payload_reads_back [OF wf]
    by (simp add: VersionMessage_read_from_def read_exact_append)
qed

subsection \<open>Properties\<close>

text \<open>
  C8. Two nodes of the program connect. One dials the other; both are configured with a user agent of 16
  bytes (its length is always written as 16) and a start string of four. There are two byte sequences,
  one for each direction, such that when each node gets the one that the other writes, both handshakes
  succeed: the node that dials has read everything but what its peer sent after the handshake, the other
  one keeps the connection, with the \<open>sendheaders\<close> message and what follows still to be read. The start
  strings may differ: neither node compares the one it gets with its own. (That no node waits for bytes
  which the other one has not written yet is seen from the order of the writes and reads in the two
  functions, and is not part of the statement.)
\<close>

theorem nodes_connect:
  assumes "digest_lengths cr"
    and "proper_config config" and "proper_address own"
    and "proper_config config'" and "proper_address local" and "proper_address peer"
    and "get_version_message cr (clock net (V4 ip (net_port config))) (random net (V4 ip (net_port config))) config
      (V4 ip (net_port config)) own = Ok m"
    and "get_version_message cr (inc_clock c) (inc_random c) config' peer local = Ok m'"
    and "to_client = version_message_bytes m' @ bare_header ''verack''"
    and "to_server = version_message_bytes m @ bare_header ''verack'' @ bare_header ''sendheaders''"
    and "dial net (V4 ip (net_port config)) = Ok (own, \<lparr>stream = \<lparr>inp = to_client @ rest, outp = []\<rparr>, writes_left = None\<rparr>)"
    and "inc_stream c = \<lparr>stream = \<lparr>inp = to_server @ rest', outp = []\<rparr>, writes_left = None\<rparr>"
    and "inc_local c = Ok local" and "inc_peer c = Ok peer"
  shows "connect_to_node cr net config ip = Ok \<lparr>stream = \<lparr>inp = rest, outp = to_server\<rparr>, writes_left = None\<rparr> \<and>
    handle_incoming_connection cr config' c (self, p) =
      Ok (Node_add_connection \<lparr>arrivals = [bare_header ''sendheaders'' @ rest'], broken = False, written = to_client, reads = 0\<rparr> self p)"
proof
  have ck: "length (get_checksum cr x) = 4" for x
    using assms(1) by (simp add: get_checksum_def sha256d_def digest_lengths_def)
  have ip: "proper_address (V4 ip (net_port config))"
    by (simp add: proper_address_def)
  from read_own_version [OF assms(8,4,6,5) ck, of "bare_header ''verack'' @ rest" "version_message_bytes m"] obtain v where
      "VersionMessage_read_from cr \<lparr>inp = version_message_bytes m' @ bare_header ''verack'' @ rest, outp = version_message_bytes m\<rparr> =
        Ok (v, \<lparr>inp = bare_header ''verack'' @ rest, outp = version_message_bytes m\<rparr>)"
    by blast
  then show "connect_to_node cr net config ip = Ok \<lparr>stream = \<lparr>inp = rest, outp = to_server\<rparr>, writes_left = None\<rparr>"
    using assms(7,11) by (simp add: assms(9,10) connect_to_node_def Let_def sending_def receiving_def write_own_version
        write_all_def write_control read_verack_bare)
  from read_own_version [OF assms(7,2) ip assms(3) ck, of "bare_header ''verack'' @ bare_header ''sendheaders'' @ rest'" "[]"]
  obtain v where
      "VersionMessage_read_from cr \<lparr>inp = version_message_bytes m @ bare_header ''verack'' @ bare_header ''sendheaders'' @ rest', outp = []\<rparr> =
        Ok (v, \<lparr>inp = bare_header ''verack'' @ bare_header ''sendheaders'' @ rest', outp = []\<rparr>)"
    by blast
  then show "handle_incoming_connection cr config' c (self, p) =
      Ok (Node_add_connection \<lparr>arrivals = [bare_header ''sendheaders'' @ rest'], broken = False, written = to_client, reads = 0\<rparr> self p)"
    using assms(8,12-14) by (simp add: assms(9,10) handle_incoming_connection_def sending_def receiving_def write_own_version
        write_all_def write_control read_verack_bare connection_of_def)
qed

definition joining_config :: Config where
  "joining_config = initial_config\<lparr>user_agent := ''/satoshi:23.0.1/'', cfg_start_string := START_STRING_TESTNET\<rparr>"

definition joining_net :: "bytes \<Rightarrow> net" where
  "joining_net to_client = sample_net\<lparr>dial := (\<lambda>a. Ok (V4 [127, 0, 0, 1] 40000,
     \<lparr>stream = \<lparr>inp = to_client, outp = []\<rparr>, writes_left = None\<rparr>))\<rparr>"

definition joining_peer :: "bytes \<Rightarrow> incoming" where
  "joining_peer to_server = sample_incoming\<lparr>inc_stream := \<lparr>stream = \<lparr>inp = to_server, outp = []\<rparr>, writes_left = None\<rparr>\<rparr>"

theorem nodes_connect_witness:
  "\<exists>to_client to_server.
    connect_to_node sample_crypto (joining_net to_client) joining_config [127, 0, 0, 1] =
      Ok \<lparr>stream = \<lparr>inp = [], outp = to_server\<rparr>, writes_left = None\<rparr> \<and>
    handle_incoming_connection sample_crypto joining_config (joining_peer to_server) (\<lparr>peers_handler = \<lparr>nodes_sender = []\<rparr>\<rparr>, sample_program [] []) =
      Ok (Node_add_connection \<lparr>arrivals = [bare_header ''sendheaders''], broken = False, written = to_client, reads = 0\<rparr>
        \<lparr>peers_handler = \<lparr>nodes_sender = []\<rparr>\<rparr> (sample_program [] []))"
proof -
  let ?a = "V4 [127, 0, 0, 1] (net_port joining_config)" and ?own = "V4 [127, 0, 0, 1] 40000"
    and ?local = "V4 [127, 0, 0, 1] 18333"
  have proper: "proper_config joining_config" "proper_address ?own" "proper_address ?local"
    by (simp_all add: proper_config_def proper_address_def joining_config_def initial_config_def START_STRING_TESTNET_def as_bytes_def)
  obtain m m' where m: "get_version_message sample_crypto (Ok 0) 7 joining_config ?a ?own = Ok m"
      "get_version_message sample_crypto (Ok 0) 3 joining_config ?own ?local = Ok m'"
    by (simp add: get_version_message_def get_version_payload_def)
  let ?to_client = "version_message_bytes m' @ bare_header ''verack''"
  let ?to_server = "version_message_bytes m @ bare_header ''verack'' @ bare_header ''sendheaders''"
  have net: "clock (joining_net ?to_client) ?a = Ok 0" "random (joining_net ?to_client) ?a = 7"
      "dial (joining_net ?to_client) ?a = Ok (?own, \<lparr>stream = \<lparr>inp = ?to_client @ [], outp = []\<rparr>, writes_left = None\<rparr>)"
    by (simp_all add: joining_net_def sample_net_def)
  have peer: "inc_clock (joining_peer ?to_server) = Ok 0" "inc_random (joining_peer ?to_server) = 3"
      "inc_stream (joining_peer ?to_server) = \<lparr>stream = \<lparr>inp = ?to_server @ [], outp = []\<rparr>, writes_left = None\<rparr>"
      "inc_local (joining_peer ?to_server) = Ok ?local" "inc_peer (joining_peer ?to_server) = Ok ?own"
    by (simp_all add: joining_peer_def sample_incoming_def)
  from nodes_connect [OF sample_digest_lengths proper(1,2) proper(1,3,2) m(1) [folded net(1,2)] m(2) [folded peer(1,2)]
      refl refl net(3) peer(3-5)] show ?thesis
    by (simp only: append_Nil2) blast
qed

end
