(* ===== verification/Exchange.thy ===== *)
theory Exchange
  imports Payment "HOL-Library.Sublist"
begin

section \<open>Two nodes on one connection\<close>

text \<open>
  The listening loops of two nodes, connected with each other. Each end has the bytes that have arrived
  and not been read, and its node, whose channel holds what it has still to write. In one turn of its
  loop an end writes one message of its channel and reads one message; when not enough bytes have
  arrived, its read times out. What it writes arrives at the other end. A schedule says whose turn it
  is; the other threads of the two nodes do not take part.
\<close>

record endpoint =
  ep_in :: bytes
  ep_node :: node

definition ep_connection :: "endpoint \<Rightarrow> connection" where
  "ep_connection e = \<lparr>arrivals = [ep_in e, []], broken = False, written = [], reads = 0\<rparr>"

definition ep_turn ::
  "crypto \<Rightarrow> (utxo_map \<Rightarrow> hash32 list) \<Rightarrow> endpoint \<Rightarrow> (endpoint \<times> bytes) option" where
  "ep_turn cr ord e =
     (case listen_turn cr ord None (ep_connection e) (ep_node e) of
        Ok (Continue c st) \<Rightarrow> Some (\<lparr>ep_in = concat (arrivals c), ep_node = st\<rparr>, written c)
      | _ \<Rightarrow> None)"

datatype side = Here | There

fun link_turn ::
  "crypto \<Rightarrow> (utxo_map \<Rightarrow> hash32 list) \<Rightarrow> side \<Rightarrow> endpoint \<times> endpoint \<Rightarrow> (endpoint \<times> endpoint) option" where
  "link_turn cr ord Here (a, b) =
     (case ep_turn cr ord a of None \<Rightarrow> None | Some (a', out) \<Rightarrow> Some (a', b\<lparr>ep_in := ep_in b @ out\<rparr>))"
| "link_turn cr ord There (a, b) =
     (case ep_turn cr ord b of None \<Rightarrow> None | Some (b', out) \<Rightarrow> Some (a\<lparr>ep_in := ep_in a @ out\<rparr>, b'))"

fun link_run ::
  "crypto \<Rightarrow> (utxo_map \<Rightarrow> hash32 list) \<Rightarrow> side list \<Rightarrow> endpoint \<times> endpoint \<Rightarrow> (endpoint \<times> endpoint) option" where
  "link_run cr ord [] s = Some s"
| "link_run cr ord (x # xs) s = Option.bind (link_turn cr ord x s) (link_run cr ord xs)"

subsection \<open>Conversations\<close>

text \<open>
  A conversation goes through stages. A turn of the side whose move it is takes it to the next stage, a
  turn of the other side leaves it at its stage. Then every schedule in which the moves occur in order,
  whatever is between them, gets it to its end.
\<close>

locale conversation =
  fixes cr :: crypto and ord :: "utxo_map \<Rightarrow> hash32 list"
    and stage :: "nat \<Rightarrow> endpoint \<times> endpoint \<Rightarrow> bool" and who :: "nat \<Rightarrow> side" and final :: nat
  assumes turn: "stage n s \<Longrightarrow>
    \<exists>s'. link_turn cr ord x s = Some s' \<and> stage (if n < final \<and> x = who n then n + 1 else n) s'"
begin

lemma run:
  "stage n s \<Longrightarrow> subseq (map who [n..<final]) xs \<Longrightarrow>
    \<exists>m s'. link_run cr ord xs s = Some s' \<and> final \<le> m \<and> stage m s'"
proof (induction xs arbitrary: n s)
  case Nil
  then have "final \<le> n"
    by (auto dest: list_emb_Nil2)
  with Nil show ?case by auto
next
  case (Cons x xs)
  obtain s' where s': "link_turn cr ord x s = Some s'" "stage (if n < final \<and> x = who n then n + 1 else n) s'"
    using turn [OF Cons.prems(1)] by blast
  have "subseq (map who [(if n < final \<and> x = who n then n + 1 else n)..<final]) xs"
  proof (cases "n < final")
    case True
    then have "map who [n..<final] = who n # map who [n + 1..<final]"
      by (simp add: upt_conv_Cons)
    with Cons.prems(2) True show ?thesis
      by (auto simp: subseq_Cons2_iff split: if_split_asm)
  qed simp
  from Cons.IH [OF s'(2) this] s'(1) show ?case by simp
qed

end

subsection \<open>Single turns\<close>

text \<open>Nothing to write and nothing to read: the turn changes nothing.\<close>

lemma next_message_idle:
  assumes "arrivals c = [[], []]"
  shows "next_message cr ord None c st = Ok (Continue (c\<lparr>arrivals := [[]], reads := reads c + 1\<rparr>) st)"
  using assms by (simp add: next_message_def read_header_def read_header_bytes_def poll_finish_def is_terminated_def)

lemma ep_turn_idle:
  assumes "ep_in e = []" and "sent (ep_node e) = []"
  shows "ep_turn cr ord e = Some (e, [])"
  using assms by (cases e) (simp add: ep_turn_def listen_turn_def ep_connection_def next_message_idle)

lemma ep_turn_write:
  assumes "ep_in e = []" and "sent (ep_node e) = m # q"
  shows "ep_turn cr ord e = Some (e\<lparr>ep_node := (ep_node e)\<lparr>sent := q\<rparr>\<rparr>, m)"
  using assms
  by (cases e) (simp add: ep_turn_def listen_turn_def ep_connection_def write_message_in_node_def next_message_idle Let_def)

lemma ep_turn_read:
  assumes "ep_in e = frame cr name payload" and "sent (ep_node e) = []"
    and "command_ok name" and "char_of (0 :: nat) \<notin> set name"
    and "digest_lengths cr" and "length payload < 2 ^ 32"
    and "dispatch cr ord name payload (ep_node e) = Ok st"
  shows "ep_turn cr ord e = Some (\<lparr>ep_in = [], ep_node = st\<rparr>, [])"
proof -
  have "length (get_checksum cr payload) = 4"
    using assms(5) by (simp add: get_checksum_def sha_length)
  from listen_turn_frame [OF assms(3,4) this assms(6,2), of "ep_connection e" "[]" "[[]]" ord] assms(1,7)
  show ?thesis
    by (simp add: ep_turn_def ep_connection_def Let_def)
qed

subsection \<open>The stages of a payment\<close>

abbreviation tx_wanted :: "crypto \<Rightarrow> Transaction \<Rightarrow> bytes" where
  "tx_wanted cr t \<equiv> frame cr ''getdata'' (inventory_payload [Inventory_new_tx (Transaction_hash cr t)])"

abbreviation tx_sent :: "crypto \<Rightarrow> Transaction \<Rightarrow> bytes" where
  "tx_sent cr t \<equiv> frame cr ''tx'' (Transaction_marshalling t)"

definition asked_for :: "crypto \<Rightarrow> Transaction \<Rightarrow> node \<Rightarrow> node" where
  "asked_for cr t st = st\<lparr>transactions_received := transactions_received st @ [Transaction_hash cr t]\<rparr>"

text \<open>
  \<open>A\<close> has announced a payment \<open>t\<close> in its channel, \<open>B\<close> does not know it; both have nothing else to write.
\<close>

inductive exchange_at :: "crypto \<Rightarrow> Transaction \<Rightarrow> node \<Rightarrow> node \<Rightarrow> nat \<Rightarrow> endpoint \<times> endpoint \<Rightarrow> bool"
  for cr :: crypto and t :: Transaction and A :: node and B :: node
where
  at0: "exchange_at cr t A B 0 (\<lparr>ep_in = [], ep_node = A\<lparr>sent := [tx_announcement cr t]\<rparr>\<rparr>, \<lparr>ep_in = [], ep_node = B\<rparr>)"
| at1: "exchange_at cr t A B 1 (\<lparr>ep_in = [], ep_node = A\<rparr>, \<lparr>ep_in = tx_announcement cr t, ep_node = B\<rparr>)"
| at2: "exchange_at cr t A B 2 (\<lparr>ep_in = [], ep_node = A\<rparr>, \<lparr>ep_in = [], ep_node = (asked_for cr t B)\<lparr>sent := [tx_wanted cr t]\<rparr>\<rparr>)"
| at3: "exchange_at cr t A B 3 (\<lparr>ep_in = tx_wanted cr t, ep_node = A\<rparr>, \<lparr>ep_in = [], ep_node = asked_for cr t B\<rparr>)"
| at4: "exchange_at cr t A B 4 (\<lparr>ep_in = [], ep_node = A\<lparr>sent := [tx_sent cr t, []]\<rparr>\<rparr>, \<lparr>ep_in = [], ep_node = asked_for cr t B\<rparr>)"
| at5: "q = [] \<or> q = [[]] \<Longrightarrow>
    exchange_at cr t A B 5 (\<lparr>ep_in = [], ep_node = A\<lparr>sent := q\<rparr>\<rparr>, \<lparr>ep_in = tx_sent cr t, ep_node = asked_for cr t B\<rparr>)"
| at6: "q = [] \<or> q = [[]] \<Longrightarrow> sent st = [] \<Longrightarrow>
    accounts (pointers st) = map (note_tx cr t (tx_out t)) (accounts (pointers B)) \<Longrightarrow>
    exchange_at cr t A B 6 (\<lparr>ep_in = [], ep_node = A\<lparr>sent := q\<rparr>\<rparr>, \<lparr>ep_in = [], ep_node = st\<rparr>)"

lemmas exchange_intros = exchange_at.intros exchange_at.at1 [unfolded One_nat_def]
  exchange_at.at2 [unfolded numeral_2_eq_2]

text \<open>What it takes for \<open>t\<close> to get across.\<close>

definition can_cross :: "crypto \<Rightarrow> Transaction \<Rightarrow> node \<Rightarrow> node \<Rightarrow> bool" where
  "can_cross cr t A B \<longleftrightarrow> sent A = [] \<and> sent B = [] \<and> wf_tx t \<and> length (Transaction_marshalling t) < 2 ^ 32 \<and>
     filter (\<lambda>u. Transaction_hash cr u = Transaction_hash cr t) (pending_of A) = [t] \<and>
     Transaction_hash cr t \<notin> set (transactions_received B) \<and> list_all (readable_output cr) (tx_out t)"

text \<open>Whose turn takes the exchange on.\<close>

definition mover :: "nat \<Rightarrow> side" where
  "mover n = (if n \<in> {0, 3, 4} then Here else There)"

lemma command_names:
  "command_ok ''inv''" "command_ok ''getdata''" "command_ok ''tx''"
  "char_of (0 :: nat) \<notin> set ''inv''" "char_of (0 :: nat) \<notin> set ''getdata''" "char_of (0 :: nat) \<notin> set ''tx''"
  by (simp_all add: command_ok_def padded_def as_bytes_def compute)

lemma tx_inventory_short:
  assumes "digest_lengths cr"
  shows "wf_inventory (Inventory_new_tx (Transaction_hash cr t))"
    and "length (inventory_payload [Inventory_new_tx (Transaction_hash cr t)]) < 2 ^ 32"
  using hash32_length [OF assms, of t] length_compact [of 1]
  by (simp_all add: wf_inventory_def Inventory_new_tx_def inventory_payload_def CompactSizeUint_marshalling_def
      Inventory_to_le_bytes_def)

lemma read_announcement:
  assumes "digest_lengths cr" and "can_cross cr t A B"
  shows "ep_turn cr ord \<lparr>ep_in = tx_announcement cr t, ep_node = B\<rparr> =
    Some (\<lparr>ep_in = [], ep_node = (asked_for cr t B)\<lparr>sent := [tx_wanted cr t]\<rparr>\<rparr>, [])"
proof -
  let ?i = "Inventory_new_tx (Transaction_hash cr t)"
  have "fresh (set (transactions_received B)) [?i] = [?i]"
    using assms(2) by (simp add: can_cross_def Inventory_new_tx_def)
  with handle_inv_effect [of "[?i]" cr B] tx_inventory_short(1) [OF assms(1)] assms(2)
  have "handle_inv_message cr (inventory_payload [?i]) B = Ok ((asked_for cr t B)\<lparr>sent := [tx_wanted cr t]\<rparr>)"
    by (simp add: asked_for_def asks_def can_cross_def Inventory_new_tx_def)
  then have d: "dispatch cr ord ''inv'' (inventory_payload [?i]) B = Ok ((asked_for cr t B)\<lparr>sent := [tx_wanted cr t]\<rparr>)"
    by (simp add: dispatch_def)
  show ?thesis
    by (rule ep_turn_read [OF _ _ command_names(1,4) assms(1) tx_inventory_short(2) [OF assms(1)]])
      (use assms(2) d in \<open>simp_all add: can_cross_def\<close>)
qed

lemma read_request:
  assumes "digest_lengths cr" and "can_cross cr t A B"
  shows "ep_turn cr ord \<lparr>ep_in = tx_wanted cr t, ep_node = A\<rparr> =
    Some (\<lparr>ep_in = [], ep_node = A\<lparr>sent := [tx_sent cr t, []]\<rparr>\<rparr>, [])"
proof -
  let ?i = "Inventory_new_tx (Transaction_hash cr t)"
  have "handle_getdata_message cr (inventory_payload [?i]) A = Ok (A\<lparr>sent := [tx_sent cr t, []]\<rparr>)"
    using handle_getdata_effect [of "[?i]" cr A] tx_inventory_short(1) [OF assms(1)] assms(2)
    by (simp add: can_cross_def tx_replies_def block_reply_def missing_def Inventory_new_tx_def)
  then have d: "dispatch cr ord ''getdata'' (inventory_payload [?i]) A = Ok (A\<lparr>sent := [tx_sent cr t, []]\<rparr>)"
    by (simp add: dispatch_def)
  show ?thesis
    by (rule ep_turn_read [OF _ _ command_names(2,5) assms(1) tx_inventory_short(2) [OF assms(1)]])
      (use assms(2) d in \<open>simp_all add: can_cross_def\<close>)
qed

lemma read_transaction:
  assumes "digest_lengths cr" and "can_cross cr t A B"
  obtains st where "ep_turn cr ord \<lparr>ep_in = tx_sent cr t, ep_node = asked_for cr t B\<rparr> = Some (\<lparr>ep_in = [], ep_node = st\<rparr>, [])"
    "sent st = []" "accounts (pointers st) = map (note_tx cr t (tx_out t)) (accounts (pointers B))"
proof -
  have "\<forall>out \<in> set (tx_out t). TxOut_get_address cr out \<noteq> Panic"
    using assms(2) by (simp add: can_cross_def list_all_iff readable_output_def)
  then obtain es where es: "handle_tx_message cr (Transaction_marshalling t) (asked_for cr t B) =
      Ok ((upd_accounts (map (note_tx cr t (tx_out t)) (accounts (pointers (asked_for cr t B)))) (asked_for cr t B))
        \<lparr>ui := ui (asked_for cr t B) @ es\<rparr>)" (is "_ = Ok ?st")
    using handle_tx_effect [of t cr] assms(2) by (fastforce simp: can_cross_def)
  then have d: "dispatch cr ord ''tx'' (Transaction_marshalling t) (asked_for cr t B) = Ok ?st"
    by (simp add: dispatch_def)
  have len: "length (Transaction_marshalling t) < 2 ^ 32"
    using assms(2) by (simp add: can_cross_def)
  have "ep_turn cr ord \<lparr>ep_in = tx_sent cr t, ep_node = asked_for cr t B\<rparr> = Some (\<lparr>ep_in = [], ep_node = ?st\<rparr>, [])"
    by (rule ep_turn_read [OF _ _ command_names(3,6) assms(1) len])
      (use assms(2) d in \<open>simp_all add: can_cross_def asked_for_def\<close>)
  then show thesis
    by (rule that) (use assms(2) in \<open>simp_all add: asked_for_def can_cross_def upd_accounts_def\<close>)
qed

text \<open>
  Every turn is defined; the turn of the side that moves takes the exchange to the next stage, and
  that of the other side leaves the stage as it is.
\<close>

lemma exchange_turn:
  assumes "digest_lengths cr" and "can_cross cr t A B" and "exchange_at cr t A B n s"
  shows "\<exists>s'. link_turn cr ord x s = Some s' \<and> exchange_at cr t A B (if n < 6 \<and> x = mover n then n + 1 else n) s'"
proof -
  have quiet: "sent A = []" "sent B = []" "sent (asked_for cr t B) = []"
    using assms(2) by (simp_all add: can_cross_def asked_for_def)
  then have A: "A\<lparr>sent := []\<rparr> = A" and B: "(asked_for cr t B)\<lparr>sent := []\<rparr> = asked_for cr t B"
    by (simp_all add: asked_for_def)
  have a5: "exchange_at cr t A B 5 (\<lparr>ep_in = [], ep_node = A\<rparr>, \<lparr>ep_in = tx_sent cr t, ep_node = asked_for cr t B\<rparr>)"
    using exchange_at.at5 [of "[]" cr t A B] by (simp add: A)
  have a6: "exchange_at cr t A B 6 (\<lparr>ep_in = [], ep_node = A\<rparr>, \<lparr>ep_in = [], ep_node = st\<rparr>)"
    if "sent st = []" "accounts (pointers st) = map (note_tx cr t (tx_out t)) (accounts (pointers B))" for st
    using exchange_at.at6 [of "[]" st cr t B A] that by (simp add: A)
  note turns = ep_turn_idle ep_turn_write mover_def quiet A B
  from assms(3) show ?thesis
  proof cases
    case at0
    then show ?thesis
      by (cases x) (auto simp: turns intro: exchange_intros)
  next
    case at1
    then show ?thesis
      by (cases x) (auto simp: turns read_announcement [OF assms(1,2)] intro: exchange_intros)
  next
    case at2
    then show ?thesis
      by (cases x) (auto simp: turns intro: exchange_intros)
  next
    case at3
    then show ?thesis
      by (cases x) (auto simp: turns read_request [OF assms(1,2)] intro: exchange_intros)
  next
    case at4
    then show ?thesis
      by (cases x) (auto simp: turns intro: exchange_intros)
  next
    case (at5 q)
    obtain st where "ep_turn cr ord \<lparr>ep_in = tx_sent cr t, ep_node = asked_for cr t B\<rparr> = Some (\<lparr>ep_in = [], ep_node = st\<rparr>, [])"
        "sent st = []" "accounts (pointers st) = map (note_tx cr t (tx_out t)) (accounts (pointers B))"
      by (rule read_transaction [OF assms(1,2)])
    with at5 show ?thesis
      by (cases x) (auto simp: turns intro: exchange_intros a5 a6)
  next
    case (at6 q st)
    then show ?thesis
      by (cases x) (auto simp: turns intro: exchange_intros a5 a6)
  qed
qed

interpretation payment: conversation cr ord "\<lambda>n s. digest_lengths cr \<and> can_cross cr t A B \<and> exchange_at cr t A B n s" mover 6
  for cr ord t A B
  by unfold_locales (use exchange_turn in blast)

subsection \<open>The payment in the wallet\<close>

lemma filter_concat_update:
  assumes "filter P (concat (map f xs)) = []" and "filter P (f y) = [t]" and "i < length xs"
  shows "filter P (concat (map f (xs[i := y]))) = [t]"
proof -
  have "filter P (f x) = []" if "x \<in> set xs" for x
    using assms(1) that by (auto simp: filter_empty_conv)
  then have "filter P (concat (map f zs)) = []" if "set zs \<subseteq> set xs" for zs
    using that by (induction zs) auto
  from this [OF set_take_subset] this [OF set_drop_subset] assms(2,3) show ?thesis
    by (simp add: upd_conv_take_nth_drop)
qed

lemma wallet_pays:
  assumes "current_account_index w = Some i" and "i < length (prog_accounts p)"
    and "validate_transaction_data amt fee = Ok ()"
    and "make_transaction cr (prog_accounts p ! i) addr amt fee = Ok (t, a)"
    and "distinct (nodes_sender (peers_handler (w_node w)))"
    and "j \<in> set (nodes_sender (peers_handler (w_node w)))" and "j < length (peers p)" and "listening (peers p ! j)"
  obtains p' where "Wallet_make_transaction cr w addr amt fee p = (Ok (), p')"
    "channel (peers p' ! j) = channel (peers p ! j) @ [tx_announcement cr t]"
    "prog_accounts p' = (prog_accounts p)[i := a]"
proof -
  let ?p1 = "set_prog_accounts ((prog_accounts p)[i := a]) p"
  let ?p2 = "fold (send_to_peer (tx_announcement cr t)) (nodes_sender (peers_handler (w_node w))) ?p1"
  have "broadcast_tx cr (w_node w) (Transaction_hash cr t) ?p1 = Ok ?p2"
    using assms(6-8) by (auto simp: broadcast_tx_eq)
  then have "Wallet_make_transaction cr w addr amt fee p = (Ok (), show_ui NewPendingTx ?p2)"
    by (simp add: Wallet_make_transaction_cases [OF assms(1-4)])
  then show thesis
  proof (rule that)
    show "channel (peers (show_ui NewPendingTx ?p2) ! j) = channel (peers p ! j) @ [tx_announcement cr t]"
      using fold_send_peers [OF assms(5), of j ?p1] assms(6-8) by (simp add: show_ui_def)
    show "prog_accounts (show_ui NewPendingTx ?p2) = (prog_accounts p)[i := a]"
      by (simp add: show_ui_def fold_send_shared send_event_to_ui_def)
  qed
qed

subsection \<open>Properties\<close>

text \<open>
  C6. A payment reaches the node of the receiver: the wallet of one node makes a payment, its listener
  and the listener of a peer take turns on their connection, and however their turns are ordered, as
  long as there are enough of them, the transaction ends among the pending ones of every account of the
  peer with the receiver's address.
\<close>

theorem payment_reaches_peer:
  assumes "digest_lengths cr" and "bs58_inverse cr" and "short_signatures cr" and "node_ok cr (shared p)"
    and "current_account_index w = Some i" and "i < length (prog_accounts p)"
    and "validate_transaction_data amt fee = Ok ()"
    and "make_transaction cr (prog_accounts p ! i) r amt fee = Ok (t, a)"
    and "testnet_address cr r" and "testnet_address cr (address (prog_accounts p ! i))"
    and "\<forall>e \<in> set (entries (utxo_set (prog_accounts p ! i))). spendable e"
    and "length (entries (utxo_set (prog_accounts p ! i))) < 2 ^ 20"
    and "filter (\<lambda>u. Transaction_hash cr u = Transaction_hash cr t) (pending_of (shared p)) = []"
    and "distinct (nodes_sender (peers_handler (w_node w)))" and "j \<in> set (nodes_sender (peers_handler (w_node w)))"
    and "j < length (peers p)" and "listening (peers p ! j)" and "channel (peers p ! j) = []"
    and "sent B = []" and "Transaction_hash cr t \<notin> set (transactions_received B)"
    and "subseq [Here, There, There, Here, Here, There] schedule"
  shows "\<exists>p' A' B'. Wallet_make_transaction cr w r amt fee p = (Ok (), p') \<and>
    link_run cr ord schedule (\<lparr>ep_in = [], ep_node = (shared p')\<lparr>sent := channel (peers p' ! j)\<rparr>\<rparr>, \<lparr>ep_in = [], ep_node = B\<rparr>) =
      Some (A', B') \<and>
    length (accounts (pointers (ep_node B'))) = length (accounts (pointers B)) \<and>
    (\<forall>k < length (accounts (pointers B)). address (accounts (pointers B) ! k) = r \<longrightarrow>
      t \<in> set (pending_transactions (accounts (pointers (ep_node B')) ! k)))"
proof -
  have pos: "0 < sint amt + sint fee"
    using assms(7) by (auto simp: validate_transaction_data_def and_then_eq_Ok dest: i64_add_sint split: if_split_asm)
  obtain p' where p': "Wallet_make_transaction cr w r amt fee p = (Ok (), p')"
      "channel (peers p' ! j) = [tx_announcement cr t]" "prog_accounts p' = (prog_accounts p)[i := a]"
    using wallet_pays [OF assms(5-8,14-17)] assms(18) by (metis append_Nil)
  define A where "A = (shared p')\<lparr>sent := []\<rparr>"
  have sync: "in_sync cr (bc_utxo_set (prog_chain p)) (prog_accounts p ! i)"
    using assms(4,6) by (simp add: node_ok_def list_all_length)
  have "\<forall>(h, k, o') \<in> set (entries (utxo_set (prog_accounts p ! i))). k < 2 ^ 32"
    using assms(11) by (fastforce simp: spendable_def)
  from payment_shape [OF assms(8) pos sync this assms(1,2,9,10)] obtain u v where out: "tx_out t = [u, v]"
      "TxOut_get_address cr u = Ok r" "TxOut_get_address cr v = Ok (address (prog_accounts p ! i))"
    by metis
  have "pending_transactions a = pending_transactions (prog_accounts p ! i) @ [t]"
    using make_transaction_Ok [OF assms(8)] by auto
  moreover have "filter (\<lambda>u. Transaction_hash cr u = Transaction_hash cr t) (pending_transactions (prog_accounts p ! i)) = []"
    using assms(6,13) by (auto simp: pending_of_def filter_empty_conv)
  ultimately have "filter (\<lambda>u. Transaction_hash cr u = Transaction_hash cr t) (pending_of A) = [t]"
    using filter_concat_update [OF assms(13) [unfolded pending_of_def] _ assms(6)] p'(3)
    by (simp add: pending_of_def A_def)
  then have cross: "can_cross cr t A B"
    using make_transaction_wf [OF assms(8) pos assms(1,3) _ assms(11)] assms(12,19,20) out
    by (simp add: can_cross_def A_def readable_output_def)
  have "map mover [0..<6] = [Here, There, There, Here, Here, There]"
    by (simp add: mover_def upt_rec)
  then have moves: "subseq (map mover [0..<6]) schedule"
    using assms(21) by simp
  have start: "digest_lengths cr \<and> can_cross cr t A B \<and> exchange_at cr t A B 0
      (\<lparr>ep_in = [], ep_node = A\<lparr>sent := [tx_announcement cr t]\<rparr>\<rparr>, \<lparr>ep_in = [], ep_node = B\<rparr>)"
    using assms(1) cross exchange_at.at0 by simp
  from payment.run [OF start moves, of ord] obtain m s where
      s: "link_run cr ord schedule (\<lparr>ep_in = [], ep_node = A\<lparr>sent := [tx_announcement cr t]\<rparr>\<rparr>, \<lparr>ep_in = [], ep_node = B\<rparr>) = Some s"
      "6 \<le> m" "exchange_at cr t A B m s"
    by auto
  from s(3) s(2) obtain A' B' where "s = (A', B')"
      "accounts (pointers (ep_node B')) = map (note_tx cr t (tx_out t)) (accounts (pointers B))"
    by cases auto
  moreover have "t \<in> set (pending_transactions (note_tx cr t (tx_out t) b))" if "address b = r" for b
    using that out by (auto simp: note_tx_def concerns_def)
  ultimately show ?thesis
    using p' s(1) by (intro exI [of _ p'] exI [of _ A'] exI [of _ B']) (simp add: A_def)
qed

theorem payment_reaches_peer_witness:
  "\<exists>p' t A' B'. Wallet_make_transaction sample_crypto sample_wallet sample_receiver 3 2
      \<lparr>shared = paying_node [sample_account], peers = [sample_peer []], finished = False\<rparr> = (Ok (), p') \<and>
    link_run sample_crypto sorted_order [Here, There, There, There, Here, Here, Here, There]
      (\<lparr>ep_in = [], ep_node = (shared p')\<lparr>sent := channel (peers p' ! 0)\<rparr>\<rparr>, \<lparr>ep_in = [], ep_node = paying_node [sample_receiving]\<rparr>) =
      Some (A', B') \<and>
    t \<in> set (pending_transactions (accounts (pointers (ep_node B')) ! 0))"
proof -
  let ?p = "\<lparr>shared = paying_node [sample_account], peers = [sample_peer []], finished = False\<rparr>"
  let ?B = "paying_node [sample_receiving]"
  obtain t where t: "make_transaction sample_crypto sample_account sample_receiver 3 2 =
      Ok (t, sample_account\<lparr>pending_transactions := [t]\<rparr>)"
    using sample_payment_made by blast
  have accs: "prog_accounts ?p = [sample_account]" "accounts (pointers ?B) = [sample_receiving]" "sent ?B = []"
      "transactions_received ?B = []" "pending_of (shared ?p) = []"
    by (simp_all add: paying_node_def NodeDataPointers_new_def pending_of_def sample_account_def)
  have addr: "testnet_address sample_crypto (address sample_account)" "address sample_receiving = sample_receiver"
    using sample_addresses(1) by (simp_all add: sample_account_def sample_receiving_def)
  have "node_ok sample_crypto (shared ?p)"
    using sample_node_pays [of "[sample_account]"] sample_in_sync by simp
  note run = payment_reaches_peer [OF sample_digest_lengths sample_bs58_inverse sample_short this, of sample_wallet 0 3 2
      sample_receiver t "sample_account\<lparr>pending_transactions := [t]\<rparr>" 0 ?B
      "[Here, There, There, There, Here, Here, Here, There]" sorted_order]
  show ?thesis
    using run t addr accs sample_addresses sample_amounts sample_spendable
    by (simp add: sample_wallet_def sample_peer_def sample_entries) blast
qed

end
