(* ===== verification/Sync.thy ===== *)
theory Sync
  imports Exchange Ibd_Properties
begin

section \<open>A node downloads the chain from another node of the program\<close>

text \<open>
  The initial download of one node, with a second node that runs the listening loop at the other end.
  The stream of the remote node is not any stream, as in the theories on the download: it is what the
  handlers of the listening node answer to the requests, and the requests are shown to be those that the
  download writes.
\<close>

text \<open>
  A node that listens gets a request and has nothing else to write: the bytes that come back, and the
  node afterwards.
\<close>

definition reply_to :: "crypto \<Rightarrow> (utxo_map \<Rightarrow> hash32 list) \<Rightarrow> node \<Rightarrow> bytes \<Rightarrow> bytes \<times> node" where
  "reply_to cr ord A request =
     (case ep_turn cr ord \<lparr>ep_in = request, ep_node = A\<rparr> of
        None \<Rightarrow> ([], A)
      | Some (e, out) \<Rightarrow> (out @ concat (sent (ep_node e)), (ep_node e)\<lparr>sent := []\<rparr>))"

fun replies_to :: "crypto \<Rightarrow> (utxo_map \<Rightarrow> hash32 list) \<Rightarrow> node \<Rightarrow> bytes list \<Rightarrow> bytes" where
  "replies_to cr ord A [] = []"
| "replies_to cr ord A (r # rs) = (case reply_to cr ord A r of (out, A') \<Rightarrow> out @ replies_to cr ord A' rs)"

lemma reply_read:
  assumes "dispatch cr ord name payload A = Ok (A\<lparr>sent := out\<rparr>)" and "sent A = []"
    and "command_ok name" and "char_of (0 :: nat) \<notin> set name" and "digest_lengths cr" and "length payload < 2 ^ 32"
  shows "reply_to cr ord A (frame cr name payload) = (concat out, A)"
proof -
  have "ep_turn cr ord \<lparr>ep_in = frame cr name payload, ep_node = A\<rparr> = Some (\<lparr>ep_in = [], ep_node = A\<lparr>sent := out\<rparr>\<rparr>, [])"
    by (rule ep_turn_read [OF _ _ assms(3-6)]) (simp_all add: assms(1,2))
  with assms(2) show ?thesis
    by (cases A) (simp add: reply_to_def)
qed

lemma replies_same:
  assumes "\<forall>r \<in> set rs. reply_to cr ord A r = (f r, A)"
  shows "replies_to cr ord A (rs @ rs') = concat (map f rs) @ replies_to cr ord A rs'"
  using assms by (induction rs) simp_all

subsection \<open>Headers\<close>

text \<open>
  A chain whose index of heights is the one that the download makes; the hashes of the headers do not
  repeat.
\<close>

definition chain_index :: "crypto \<Rightarrow> BlockHeader list \<Rightarrow> (hash32 \<rightharpoonup> nat)" where
  "chain_index cr hs = load_header_heights cr (tl hs) [replicate 32 0 \<mapsto> 0] [GENESIS_BLOCK_HEADER]"

definition indexed :: "crypto \<Rightarrow> Blockchain \<Rightarrow> bool" where
  "indexed cr bc \<longleftrightarrow> headers bc \<noteq> [] \<and> hd (headers bc) = GENESIS_BLOCK_HEADER \<and>
     header_heights bc = chain_index cr (headers bc) \<and> distinct (GENESIS_BLOCK_HASH # map (BlockHeader_hash cr) (tl (headers bc))) \<and>
     GENESIS_BLOCK_HEADER \<notin> set (tl (headers bc))"

lemma indexed_position:
  assumes "indexed cr (chain A)" and "k < length (headers (chain A))"
  shows "get_index_of_header (locator_of cr (headers (chain A) ! k)) A = k"
proof -
  obtain hs where hs: "headers (chain A) = GENESIS_BLOCK_HEADER # hs"
    using assms(1) by (cases "headers (chain A)") (simp_all add: indexed_def)
  show ?thesis
  proof (cases k)
    case 0
    then show ?thesis
      by (simp add: hs locator_of_def get_index_of_header_def)
  next
    case (Suc i)
    then obtain h where h: "hs ! i = h" "h \<in> set hs"
      using assms(2) hs nth_mem by auto
    have i: "i < length hs" "distinct (map (BlockHeader_hash cr) hs)" "h \<noteq> GENESIS_BLOCK_HEADER"
        "header_heights (chain A) = chain_index cr (GENESIS_BLOCK_HEADER # hs)"
        and "GENESIS_BLOCK_HASH \<notin> BlockHeader_hash cr ` set hs"
      using assms hs Suc h(2) by (auto simp: indexed_def)
    then have "BlockHeader_hash cr h \<noteq> GENESIS_BLOCK_HASH"
      using h(2) by (metis imageI)
    with load_header_heights_nth [of cr hs i] Suc h i show ?thesis
      by (simp add: hs locator_of_def get_index_of_header_def chain_index_def)
  qed
qed

lemma request_names:
  "command_ok ''getheaders''" "char_of (0 :: nat) \<notin> set ''getheaders''"
  by (simp_all add: command_ok_def padded_def as_bytes_def compute)

lemma getheaders_parts:
  assumes "digest_lengths cr"
  shows "length (GetHeadersPayload_to_le_bytes (ghm_payload (build_getheaders_message cr config [locator_of cr h]))) < 2 ^ 32"
    and "GetHeadersPayload_read_from (GetHeadersPayload_to_le_bytes (ghm_payload (build_getheaders_message cr config [locator_of cr h]))) =
      Ok (ghm_payload (build_getheaders_message cr config [locator_of cr h]))"
proof -
  have len: "length (locator_of cr h) = 32"
    using hash_lengths(1) [OF assms] by (simp add: locator_of_def GENESIS_BLOCK_HASH_def)
  then show "length (GetHeadersPayload_to_le_bytes (ghm_payload (build_getheaders_message cr config [locator_of cr h]))) < 2 ^ 32"
    using length_compact [of 1]
    by (simp add: build_getheaders_message_def GetHeadersPayload_to_le_bytes_def CompactSizeUint_marshalling_def Let_def)
  show "GetHeadersPayload_read_from (GetHeadersPayload_to_le_bytes (ghm_payload (build_getheaders_message cr config [locator_of cr h]))) =
      Ok (ghm_payload (build_getheaders_message cr config [locator_of cr h]))"
    using len CompactSizeUint_new_wf [of 1]
    by (simp add: GetHeadersPayload_iff build_getheaders_message_def Let_def)
qed

lemma getheaders_reply:
  assumes "digest_lengths cr" and "indexed cr (chain A)" and "sent A = []" and "k < length (headers (chain A))"
  shows "reply_to cr ord A (headers_request cr config (headers (chain A) ! k)) =
    (frame cr ''headers'' (headers_payload (take 2000 (drop (k + 1) (headers (chain A))))), A)"
proof -
  let ?h = "headers (chain A) ! k" and ?batch = "take 2000 (drop (k + 1) (headers (chain A)))"
  note i = indexed_position [OF assms(2,4)]
  have "handle_getheaders_message cr
      (GetHeadersPayload_to_le_bytes (ghm_payload (build_getheaders_message cr config [locator_of cr ?h]))) A =
    Ok (A\<lparr>sent := sent A @ [frame cr ''headers''
          (headers_payload (take 2000 (drop (get_index_of_header (locator_of cr ?h) A + 1) (headers (chain A)))))]\<rparr>)"
    by (rule handle_getheaders_effect [OF getheaders_parts(2) [OF assms(1)]])
      (use i assms(4) in \<open>simp_all add: build_getheaders_message_def Let_def\<close>)
  then have "dispatch cr ord ''getheaders''
      (GetHeadersPayload_to_le_bytes (ghm_payload (build_getheaders_message cr config [locator_of cr ?h]))) A =
    Ok (A\<lparr>sent := [frame cr ''headers'' (headers_payload ?batch)]\<rparr>)"
    using i assms(3) by (simp add: dispatch_def)
  from reply_read [OF this assms(3) request_names assms(1) getheaders_parts(1) [OF assms(1)]] show ?thesis
    by simp
qed

text \<open>The requests of a download that has the headers \<open>hs\<close> and gets the batches \<open>bs\<close>.\<close>

fun header_requests :: "crypto \<Rightarrow> Config \<Rightarrow> BlockHeader list \<Rightarrow> BlockHeader list list \<Rightarrow> bytes list" where
  "header_requests cr config hs [] = []"
| "header_requests cr config hs (b # bs) = headers_request cr config (last hs) # header_requests cr config (hs @ b) bs"

lemma headers_replies:
  assumes "digest_lengths cr" and "indexed cr (chain A)" and "sent A = []"
  shows "headers (chain A) = hs @ later \<Longrightarrow> hs \<noteq> [] \<Longrightarrow>
    replies_to cr ord A (header_requests cr config hs (chunk_list 2000 later) @ rs) =
      headers_stream cr (chunk_list 2000 later) @ replies_to cr ord A rs"
proof (induction "2000 :: nat" later arbitrary: hs rule: chunk_list.induct)
  case (1 later)
  show ?case
  proof (cases "later = []")
    case False
    have last: "headers (chain A) ! (length hs - 1) = last hs" "length hs - 1 < length (headers (chain A))"
        "drop (length hs - 1 + 1) (headers (chain A)) = later"
      using "1.prems" by (cases hs rule: rev_cases; simp add: nth_append)+
    have "reply_to cr ord A (headers_request cr config (last hs)) = (frame cr ''headers'' (headers_payload (take 2000 later)), A)"
      using getheaders_reply [OF assms last(2)] by (simp only: last(1,3))
    moreover have "replies_to cr ord A (header_requests cr config (hs @ take 2000 later) (chunk_list 2000 (drop 2000 later)) @ rs) =
        headers_stream cr (chunk_list 2000 (drop 2000 later)) @ replies_to cr ord A rs"
      using "1.prems" False by (intro "1.hyps") simp_all
    ultimately show ?thesis
      using False by (simp add: chunk_list.simps [of _ later] headers_stream_def)
  qed (simp add: headers_stream_def)
qed

text \<open>The turns of the header download, with what they read and write.\<close>

lemma turn_exact:
  assumes "inp (stream node) = frame cr ''headers'' (headers_payload b) @ rest" and "writes_left node = None"
    and "batch_ok cr b" and "digest_lengths cr" and "dl_headers s \<noteq> []"
  shows "request_headers_from_node cr config node s =
      (Ok (advanced node (inp (stream node)) (headers_request cr config (last (dl_headers s)))), s)"
    and "receive_headers_from_node cr (advanced node (inp (stream node)) (headers_request cr config (last (dl_headers s)))) s =
      (Ok (b, advanced node rest (headers_request cr config (last (dl_headers s)))), s)"
proof -
  let ?node = "advanced node (inp (stream node)) (headers_request cr config (last (dl_headers s)))"
  show "request_headers_from_node cr config node s = (Ok ?node, s)"
    using request_exact [OF assms(2,5), of cr config] by (cases node; cases "stream node") (simp add: advanced_def)
  have "inp (stream ?node) = frame cr ''headers'' (headers_payload b) @ rest"
    using assms(1) by simp
  from receive_exact [OF this assms(3) checksum_length [OF assms(4)]]
  show "receive_headers_from_node cr ?node s = (Ok (b, advanced node rest (headers_request cr config (last (dl_headers s)))), s)"
    by (simp add: advanced_def)
qed

lemma headers_turn_parts:
  assumes "headers_turn cr parse_date config node found s = (Ok (hs, node', found'), t)"
    and "request_headers_from_node cr config node s = (Ok node1, s)"
    and "receive_headers_from_node cr node1 s = (Ok (b, node2), s)"
  shows "node' = node2"
  using assms by (auto simp: headers_turn_def act_then_eq_Ok lift_def)

lemma headers_loop_exact:
  assumes ts: "get_first_block_timestamp parse_date config = Ok ts" and d: "digest_lengths cr"
  shows "inp (stream node) = headers_stream cr bs @ rest \<Longrightarrow> writes_left node = None \<Longrightarrow> full_but_last (hs # bs) \<Longrightarrow>
    \<forall>b \<in> set bs. batch_ok cr b \<and> b \<noteq> [] \<Longrightarrow> dl_headers s \<noteq> [] \<Longrightarrow> dl_queue_open s \<Longrightarrow>
    \<exists>t. headers_loop cr parse_date config (hs, node, found) s =
        (Ok (advanced node rest (concat (header_requests cr config (dl_headers s) bs))), t) \<and>
      stored cr s (concat bs) (sent_batches ts found bs) t"
proof (induction bs arbitrary: hs node found s)
  case Nil
  then show ?case
    by (cases node) (simp add: headers_loop.simps full_but_last_def stored_Nil advanced_def headers_stream_def)
next
  case (Cons b bs)
  have i: "inp (stream node) = frame cr ''headers'' (headers_payload b) @ headers_stream cr bs @ rest"
      and b: "batch_ok cr b" "b \<noteq> []" and s: "serves cr (b # bs) node"
    using Cons.prems(1,2,4) by (auto simp: headers_stream_def serves_def)
  from headers_turn_served [OF s b(1) checksum_length [OF d] Cons.prems(5,6) b(2) ts, of found] obtain node1 found1 t where
      t: "headers_turn cr parse_date config node found s = (Ok (b, node1, found1), t)" "dl_headers t \<noteq> []" "dl_queue_open t"
    by blast
  let ?node = "advanced node (headers_stream cr bs @ rest) (headers_request cr config (last (dl_headers s)))"
  have node1: "node1 = ?node"
    by (rule headers_turn_parts [OF t(1) turn_exact [OF i Cons.prems(2) b(1) d Cons.prems(5)]])
  note turn = headers_turn_stored [OF t(1) ts]
  have hs: "dl_headers t = dl_headers s @ b"
    using turn(1) by (simp add: stored_def)
  have full: "full_but_last (b # bs)" "length hs = 2000"
    using Cons.prems(3) by (auto simp: full_but_last_def)
  from Cons.IH [of ?node b t found1] full(1) t Cons.prems(2,4) obtain u where
      u: "headers_loop cr parse_date config (b, ?node, found1) t =
        (Ok (advanced ?node rest (concat (header_requests cr config (dl_headers s @ b) bs))), u)"
        "stored cr t (concat bs) (sent_batches ts found1 bs) u"
    by (auto simp: hs)
  have "stored cr s (concat (b # bs)) (sent_batches ts found (b # bs)) u"
    using stored_trans [OF turn(1) u(2)] unfolding turn(3) sent_batches_step by simp
  with full(2) t(1) u(1) node1 show ?case
    by (simp add: headers_loop.simps [of cr parse_date config hs] del: sent_batches.simps)
qed

lemma missing_headers_exact:
  assumes "inp (stream node) = headers_stream cr (b # bs) @ rest" and "writes_left node = None"
    and "full_but_last (b # bs)" and "batch_ok cr b" and "\<forall>b \<in> set bs. batch_ok cr b \<and> b \<noteq> []"
    and "dl_headers s \<noteq> []" and "dl_queue_open s"
    and "get_first_block_timestamp parse_date config = Ok ts" and "digest_lengths cr"
  shows "\<exists>t. download_missing_headers_from_node cr parse_date config node s =
      (Ok (advanced node rest (concat (header_requests cr config (dl_headers s) (b # bs)))), t) \<and>
    stored cr s (concat (b # bs)) (sent_batches ts False bs) t"
proof -
  let ?node = "advanced node (headers_stream cr bs @ rest) (headers_request cr config (last (dl_headers s)))"
  have i: "inp (stream node) = frame cr ''headers'' (headers_payload b) @ headers_stream cr bs @ rest"
    using assms(1) by (simp add: headers_stream_def)
  obtain t where t: "first_batch cr config node s = (Ok (b, ?node, False), t)" "dl_queue_open t"
    using turn_exact [OF i assms(2,4,9,6)] assms(4,7)
    by (simp add: first_batch_def load_heights_def modify_def store_batch_ok lift_def act_then_def)
  note st = first_batch_stored [OF t(1)]
  have hs: "dl_headers t = dl_headers s @ b" "dl_headers t \<noteq> []"
    using st assms(6) by (simp_all add: stored_def)
  from headers_loop_exact [OF assms(8,9), of ?node bs rest b t False] assms(2,3,5) hs t(2) obtain u where
      "headers_loop cr parse_date config (b, ?node, False) t =
        (Ok (advanced ?node rest (concat (header_requests cr config (dl_headers s @ b) bs))), u)"
      "stored cr t (concat bs) (sent_batches ts False bs) u"
    by auto
  with t(1) stored_trans [OF conjunct1 [OF st]] show ?thesis
    by (fastforce simp: download_missing_headers_from_node_def)
qed

subsection \<open>Blocks\<close>

definition block_of :: "crypto \<Rightarrow> node \<Rightarrow> BlockHeader \<Rightarrow> Block" where
  "block_of cr A h = the (blocks (chain A) (BlockHeader_hash cr h))"

definition has_block :: "crypto \<Rightarrow> node \<Rightarrow> BlockHeader \<Rightarrow> bool" where
  "has_block cr A h \<longleftrightarrow> blocks (chain A) (BlockHeader_hash cr h) \<noteq> None"

lemma getdata_names: "command_ok ''getdata''" "char_of (0 :: nat) \<notin> set ''getdata''"
  by (simp_all add: command_ok_def padded_def as_bytes_def compute)

lemma block_inventories:
  assumes "digest_lengths cr" and "length part < 2 ^ 26"
  shows "\<forall>i \<in> set (map (\<lambda>h. Inventory_new_block (BlockHeader_hash cr h)) part). wf_inventory i"
    and "length (inventory_payload (map (\<lambda>h. Inventory_new_block (BlockHeader_hash cr h)) part)) < 2 ^ 32"
proof -
  show "\<forall>i \<in> set (map (\<lambda>h. Inventory_new_block (BlockHeader_hash cr h)) part). wf_inventory i"
    using hash_lengths(1) [OF assms(1)] by (simp add: wf_inventory_def Inventory_new_block_def)
  have "length (concat (map Inventory_to_le_bytes (map (\<lambda>h. Inventory_new_block (BlockHeader_hash cr h)) part))) = 36 * length part"
    using hash_lengths(1) [OF assms(1)]
    by (induction part) (simp_all add: Inventory_to_le_bytes_def Inventory_new_block_def)
  then show "length (inventory_payload (map (\<lambda>h. Inventory_new_block (BlockHeader_hash cr h)) part)) < 2 ^ 32"
    using length_compact [of "of_nat (length part)"] assms(2)
    by (simp add: inventory_payload_def CompactSizeUint_marshalling_def)
qed

lemma getdata_dispatch:
  assumes "digest_lengths cr" and "sent A = []" and "list_all (has_block cr A) part" and "length part < 2 ^ 26"
  shows "dispatch cr ord ''getdata'' (inventory_payload (map (\<lambda>h. Inventory_new_block (BlockHeader_hash cr h)) part)) A =
    Ok (A\<lparr>sent := [blocks_stream cr (map (block_of cr A) part)]\<rparr>)"
proof -
  let ?invs = "map (\<lambda>h. Inventory_new_block (BlockHeader_hash cr h)) part"
  have replies: "concat (map (tx_replies cr (pending_of A)) ?invs) = []" "missing (blocks (chain A)) ?invs = []"
      "concat (map (block_reply cr (blocks (chain A))) ?invs) = blocks_stream cr (map (block_of cr A) part)"
    using assms(3)
    by (induction part) (auto simp: tx_replies_def missing_def block_reply_def Inventory_new_block_def has_block_def
        block_of_def blocks_stream_def)
  from handle_getdata_effect [of ?invs cr A] block_inventories [OF assms(1,4)] assms(4)
  have "handle_getdata_message cr (inventory_payload ?invs) A =
      Ok (A\<lparr>sent := [blocks_stream cr (map (block_of cr A) part)]\<rparr>)"
    unfolding replies by (simp add: assms(2))
  then show ?thesis
    by (simp add: dispatch_def)
qed

lemma getdata_reply:
  assumes "digest_lengths cr" and "sent A = []" and "list_all (has_block cr A) part" and "length part < 2 ^ 26"
  shows "reply_to cr ord A (blocks_request cr part) = (blocks_stream cr (map (block_of cr A) part), A)"
  using reply_read [OF getdata_dispatch [OF assms] assms(2) getdata_names assms(1) block_inventories(2) [OF assms(1,4)]]
  by simp

lemma blocks_replies:
  assumes "digest_lengths cr" and "sent A = []"
  shows "\<forall>g \<in> set groups. list_all (has_block cr A) g \<and> length g < 2 ^ 26 \<Longrightarrow>
    replies_to cr ord A (map (blocks_request cr) groups) = blocks_stream cr (map (block_of cr A) (concat groups))"
proof (induction groups)
  case (Cons g groups)
  then show ?case
    using getdata_reply [OF assms, of g ord] by (simp add: blocks_stream_def)
qed (simp add: blocks_stream_def)

text \<open>What the download of the batches writes.\<close>

definition batch_groups :: "Config \<Rightarrow> BlockHeader list list \<Rightarrow> BlockHeader list list" where
  "batch_groups config q = concat (map (chunk_list (blocks_download_per_node config)) q)"

lemma concat_batch_groups: "0 < blocks_download_per_node config \<Longrightarrow> concat (batch_groups config q) = concat q"
  by (induction q) (simp_all add: batch_groups_def concat_chunk_list)

lemma download_batches_exact:
  assumes "digest_lengths cr" and "0 < blocks_download_per_node config"
  shows "inp (stream node) = blocks_stream cr (map f (concat q)) @ rest \<Longrightarrow> writes_left node = None \<Longrightarrow>
    list_all (\<lambda>h. good_block cr (f h)) (concat q) \<Longrightarrow> height_first_block_to_download config \<le> length (dl_headers s) \<Longrightarrow>
    \<exists>t new. download_batches cr config q node s =
        (Ok (advanced node rest (concat (map (blocks_request cr) (batch_groups config q)))), t) \<and>
      dl_blocks t = insert_blocks cr (map f (concat q)) (dl_blocks s) \<and> dl_headers t = dl_headers s \<and>
      dl_nodes t = dl_nodes s \<and> dl_heights t = dl_heights s \<and>
      dl_utxo_queue t = dl_utxo_queue s @ new \<and> concat new = map f (concat q)"
proof (induction q arbitrary: node s)
  case Nil
  then show ?case
    by (cases node; intro exI [of _ s] exI [of _ "[]"])
      (simp add: lift_def advanced_def blocks_stream_def batch_groups_def insert_blocks_def)
next
  case (Cons hs q)
  let ?bs = "map f hs" and ?later = "map f (concat q)"
  let ?asked = "concat (map (blocks_request cr) (chunk_list (blocks_download_per_node config) hs))"
  have i: "inp (stream node) = blocks_stream cr ?bs @ blocks_stream cr ?later @ rest"
    using Cons.prems(1) by (simp add: blocks_stream_append)
  have good: "list_all (good_block cr) ?bs"
    using Cons.prems(3) by (simp add: list_all_iff)
  from single_node_exact [OF assms(1) i Cons.prems(2) good _ assms(2) Cons.prems(4), of hs] obtain t new where
      t: "download_blocks_single_node cr config hs node s = (Ok (advanced node (blocks_stream cr ?later @ rest) ?asked), t)"
        "dl_blocks t = dl_blocks s ++ insert_blocks cr ?bs Map.empty" "dl_headers t = dl_headers s" "dl_nodes t = dl_nodes s"
        "dl_heights t = dl_heights s" "dl_utxo_queue t = dl_utxo_queue s @ new" "concat new = ?bs"
    by auto
  let ?node = "advanced node (blocks_stream cr ?later @ rest) ?asked"
  from Cons.IH [of ?node t] Cons.prems(2-4) t(3) obtain u later where
      u: "download_batches cr config q ?node t =
        (Ok (advanced ?node rest (concat (map (blocks_request cr) (batch_groups config q)))), u)"
        "dl_blocks u = insert_blocks cr ?later (dl_blocks t)" "dl_headers u = dl_headers t" "dl_nodes u = dl_nodes t"
        "dl_heights u = dl_heights t" "dl_utxo_queue u = dl_utxo_queue t @ later" "concat later = ?later"
    by auto
  have "download_batches cr config (hs # q) node s =
      (Ok (advanced node rest (concat (map (blocks_request cr) (batch_groups config (hs # q))))), u)"
    using t(1) u(1) by (simp add: act_then_def batch_groups_def)
  moreover have "dl_blocks u = insert_blocks cr (map f (concat (hs # q))) (dl_blocks s)"
    using t(2) u(2) insert_blocks_add [of cr ?bs "dl_blocks s"] by (simp add: insert_blocks_append)
  ultimately show ?case
    using t u by (intro exI [of _ u] exI [of _ "new @ later"]) simp
qed

subsection \<open>The headers that are stored in the file\<close>

definition headers_only :: "download \<Rightarrow> download \<Rightarrow> bool" where
  "headers_only s t \<longleftrightarrow> dl_nodes t = dl_nodes s \<and> dl_blocks t = dl_blocks s \<and> dl_queue t = dl_queue s \<and>
     dl_queue_open t = dl_queue_open s \<and> dl_utxo_queue t = dl_utxo_queue s"

lemma headers_only_trans: "headers_only s t \<Longrightarrow> headers_only t u \<Longrightarrow> headers_only s u"
  by (simp add: headers_only_def)

lemma read_messages_only: "headers_only s (snd (read_messages cr contents i amt s))"
proof (induction "length contents - i" arbitrary: i amt s rule: less_induct)
  case less
  let ?slice = "slice contents i (i + HEADERS_MESSAGE_SIZE) :: (bytes, NodeCustomErrors) result"
  show ?case
  proof (cases "\<exists>bs hs. i < length contents \<and> ?slice = Ok bs \<and> HeadersMessage_unmarshalling bs = Ok hs")
    case True
    then obtain bs hs where b: "i < length contents" "?slice = Ok bs" "HeadersMessage_unmarshalling bs = Ok hs"
      by blast
    let ?t = "s\<lparr>dl_heights := load_header_heights cr hs (dl_heights s) (dl_headers s), dl_headers := dl_headers s @ hs,
      dl_ui := dl_ui s @ [UpdateHeadersDownloaded (amt + 2000)]\<rparr>"
    have "headers_only ?t (snd (read_messages cr contents (i + HEADERS_MESSAGE_SIZE) (amt + 2000) ?t))"
      using b(1) by (intro less) (simp add: HEADERS_MESSAGE_SIZE_def)
    then have "headers_only s (snd (read_messages cr contents (i + HEADERS_MESSAGE_SIZE) (amt + 2000) ?t))"
      by (simp add: headers_only_def)
    then show ?thesis
      using b by (subst read_messages.simps) (simp add: load_heights_def action_simps)
  next
    case False
    then have "snd (read_messages cr contents i amt s) = s"
      by (cases ?slice; subst read_messages.simps)
        (auto simp: action_simps act_then_def split: result.splits)
    then show ?thesis by (simp add: headers_only_def)
  qed
qed

lemma read_disk_only: "headers_only s (snd (read_headers_from_disk_act cr contents s))"
proof (cases contents)
  case (Ok bs)
  have "headers_only (s\<lparr>dl_ui := dl_ui s @ [StartDownloadingHeaders]\<rparr>)
      (snd (read_messages cr bs 0 0 (s\<lparr>dl_ui := dl_ui s @ [StartDownloadingHeaders]\<rparr>)))"
    by (rule read_messages_only)
  with Ok show ?thesis
    by (simp add: read_headers_from_disk_act_def action_simps headers_only_def)
qed (simp_all add: read_headers_from_disk_act_def action_simps headers_only_def)

lemma stored_headers:
  assumes "\<forall>b \<in> set bs. length b = 2000 \<and> (\<forall>h \<in> set b. wf_header h)" and "read_headers_from_disk config"
  shows "\<exists>s. get_initial_headers cr config (Some (Ok (concat (map headers_payload bs)))) created (download_start nodes) = (Ok (), s) \<and>
    headers_only (download_start nodes) s \<and> dl_headers s = GENESIS_BLOCK_HEADER # concat bs \<and>
    dl_heights s = chain_index cr (GENESIS_BLOCK_HEADER # concat bs)"
proof -
  obtain s where s: "read_headers_from_disk_act cr (Ok (concat (map headers_payload bs))) (download_start nodes) = (Ok (), s)"
      "dl_headers s = GENESIS_BLOCK_HEADER # concat bs" "dl_heights s = chain_index cr (GENESIS_BLOCK_HEADER # concat bs)"
    using full_batches_read(1) [OF assms(1), of cr "download_start nodes"]
    by (auto simp: download_start_def chain_index_def)
  moreover have "headers_only (download_start nodes) s"
    using read_disk_only [of "download_start nodes" cr "Ok (concat (map headers_payload bs))"] s(1) by simp
  ultimately show ?thesis
    using assms(2) by (simp add: get_initial_headers_def)
qed

subsection \<open>The whole download\<close>

text \<open>The headers whose blocks are requested: of the batches after the first, those from the date on.\<close>

abbreviation wanted_batches :: "u32 \<Rightarrow> BlockHeader list \<Rightarrow> BlockHeader list list" where
  "wanted_batches ts later \<equiv> sent_batches ts False (tl (chunk_list 2000 later))"

definition sync_requests :: "crypto \<Rightarrow> Config \<Rightarrow> BlockHeader list \<Rightarrow> BlockHeader list \<Rightarrow> u32 \<Rightarrow> bytes list" where
  "sync_requests cr config base later ts =
     header_requests cr config base (chunk_list 2000 later) @
     map (blocks_request cr) (batch_groups config (wanted_batches ts later))"

lemma full_batches:
  "length later mod 2000 \<noteq> 0 \<Longrightarrow> full_but_last (chunk_list 2000 later)"
proof (induction "2000 :: nat" later rule: chunk_list.induct)
  case (1 later)
  show ?case
  proof (cases "length later < 2000")
    case True
    with "1.prems" show ?thesis
      by (auto simp: chunk_list.simps [of _ later] full_but_last_def)
  next
    case False
    then have "length (drop 2000 later) mod 2000 \<noteq> 0"
      using "1.prems" by (simp add: le_mod_geq)
    with "1.hyps" "1.prems" have "full_but_last (chunk_list 2000 (drop 2000 later))"
      by (metis list.size(3) mod_0 numeral_eq_iff zero_neq_numeral)
    with False show ?thesis
      by (auto simp: chunk_list.simps [of _ later] full_but_last_def)
  qed
qed

lemma batches_ok:
  assumes "list_all (\<lambda>h. wf_header h \<and> checked cr h) later"
  shows "\<forall>b \<in> set (chunk_list 2000 later). batch_ok cr b \<and> b \<noteq> []"
proof
  fix b assume b: "b \<in> set (chunk_list 2000 later)"
  then have "set b \<subseteq> set (concat (chunk_list 2000 later))" by auto
  then have "set b \<subseteq> set later" by (simp add: concat_chunk_list)
  with assms chunk_list_bounds [OF b] show "batch_ok cr b \<and> b \<noteq> []"
    by (auto simp: batch_ok_def list_all_iff)
qed

lemma download_missing_headers_exact:
  assumes "dl_nodes s = [node]" and "inp (stream node) = headers_stream cr bs @ rest" and "writes_left node = None"
    and "full_but_last bs" and "\<forall>b \<in> set bs. batch_ok cr b \<and> b \<noteq> []" and "dl_headers s \<noteq> []" and "dl_queue_open s"
    and "get_first_block_timestamp parse_date config = Ok ts" and "digest_lengths cr"
  shows "\<exists>t. download_missing_headers cr parse_date config s = (Ok (), t) \<and>
    stored cr s (concat bs) (sent_batches ts False (tl bs)) t \<and>
    dl_nodes t = [advanced node rest (concat (header_requests cr config (dl_headers s) bs))] \<and>
    dl_blocks t = dl_blocks s \<and> dl_utxo_queue t = dl_utxo_queue s"
proof -
  let ?s = "s\<lparr>dl_nodes := []\<rparr>"
  obtain b bs' where bs: "bs = b # bs'"
    using assms(4) by (cases bs) (simp_all add: full_but_last_def)
  obtain t where m: "download_missing_headers_from_node cr parse_date config node ?s =
        (Ok (advanced node rest (concat (header_requests cr config (dl_headers s) bs))), t)"
      and st: "stored cr ?s (concat bs) (sent_batches ts False bs') t"
    using missing_headers_exact [OF _ assms(3) _ _ _ _ _ assms(8,9), of b bs' rest ?s] assms(2,4-7) bs by auto
  have n: "dl_nodes t = []" "dl_blocks t = dl_blocks s" "dl_utxo_queue t = dl_utxo_queue s"
    using steps_by_run [OF missing_headers_steps m] by (simp_all add: headers_by_def)
  have g: "get_node s = (Ok node, ?s)"
    using assms(1) by (simp add: get_node_def)
  show ?thesis
    using m st n bs
    by (simp add: download_missing_headers_def g missing_headers_from_nodes.simps [of cr parse_date config node]
        action_simps stored_def)
qed

lemma single_node_full_exact:
  assumes "dl_nodes s = [node]" and "writes_left node = None"
    and "inp (stream node) = headers_stream cr bs @ blocks_stream cr (map f (concat (sent_batches ts False (tl bs))))"
    and "full_but_last bs" and "\<forall>b \<in> set bs. batch_ok cr b \<and> b \<noteq> []" and "dl_headers s \<noteq> []" and "dl_queue_open s"
    and "dl_queue s = []" and "dl_utxo_queue s = []"
    and "list_all (\<lambda>h. good_block cr (f h)) (concat (sent_batches ts False (tl bs)))"
    and "get_first_block_timestamp parse_date config = Ok ts" and "digest_lengths cr"
    and "0 < blocks_download_per_node config" and "height_first_block_to_download config \<le> length (dl_headers s @ concat bs)"
  shows "\<exists>u. download_full_blockchain_from_single_node cr parse_date config Map.empty s =
      (Ok (fold (utxos_after cr) (map f (concat (sent_batches ts False (tl bs)))) Map.empty), u) \<and>
    dl_headers u = dl_headers s @ concat bs \<and> dl_heights u = load_header_heights cr (concat bs) (dl_heights s) (dl_headers s) \<and>
    dl_blocks u = insert_blocks cr (map f (concat (sent_batches ts False (tl bs)))) (dl_blocks s) \<and>
    dl_nodes u = [advanced node [] (concat (header_requests cr config (dl_headers s) bs @
      map (blocks_request cr) (batch_groups config (sent_batches ts False (tl bs)))))]"
proof -
  let ?q = "sent_batches ts False (tl bs)" and ?asked = "concat (header_requests cr config (dl_headers s) bs)"
  let ?blocks = "map f (concat ?q)"
  let ?node = "advanced node (blocks_stream cr ?blocks) ?asked"
  obtain t where t: "download_missing_headers cr parse_date config s = (Ok (), t)" "stored cr s (concat bs) ?q t"
      "dl_nodes t = [?node]" "dl_blocks t = dl_blocks s" "dl_utxo_queue t = []"
    using download_missing_headers_exact [OF assms(1,3,2,4-7,11,12)] assms(9) by auto
  have st: "dl_headers t = dl_headers s @ concat bs" "dl_queue t = ?q"
      "dl_heights t = load_header_heights cr (concat bs) (dl_heights s) (dl_headers s)"
    using t(2) assms(8) by (simp_all add: stored_def)
  let ?t = "t\<lparr>dl_nodes := [], dl_ui := dl_ui t @ [StartDownloadingBlocks], dl_queue := []\<rparr>"
  obtain u new where u: "download_batches cr config ?q ?node ?t =
        (Ok (advanced ?node [] (concat (map (blocks_request cr) (batch_groups config ?q)))), u)"
      "dl_blocks u = insert_blocks cr ?blocks (dl_blocks ?t)" "dl_headers u = dl_headers ?t" "dl_nodes u = dl_nodes ?t"
      "dl_heights u = dl_heights ?t" "dl_utxo_queue u = dl_utxo_queue ?t @ new" "concat new = ?blocks"
    using download_batches_exact [OF assms(12,13), of ?node f ?q "[]" ?t] assms(2,10,14) st(1) by auto
  have "\<forall>bs \<in> set new. list_all (good_block cr) bs"
  proof -
    have "list_all (good_block cr) (concat new)"
      using assms(10) by (simp add: u(7) list_all_iff)
    then show ?thesis by (auto simp: list_all_iff)
  qed
  then have "load_utxo_set cr new Map.empty = Ok (fold (utxos_after cr) ?blocks Map.empty)"
    using load_good_blocks u(7) by metis
  with t(1,3,4,5) st u show ?thesis
    by (simp add: download_full_blockchain_from_single_node_def action_simps act_then_def get_node_def)
qed

lemma sent_subseq: "subseq (concat (sent_batches ts found bs)) (concat bs)"
proof (induction ts found bs rule: sent_batches.induct)
  case (2 ts found b bs)
  have "subseq (dropWhile (\<lambda>h. bh_time h < ts) b) b"
    by (intro suffix_imp_subseq suffix_dropWhile)
  with 2 show ?case
    by (auto intro: list_emb_append_mono list_emb_append2)
qed simp

lemma wanted_subseq: "subseq (concat (wanted_batches ts later)) later"
proof -
  have "subseq (concat (tl (chunk_list 2000 later))) (concat (chunk_list 2000 later))"
    by (cases "chunk_list 2000 later") (auto intro: list_emb_append2)
  with sent_subseq [of ts False "tl (chunk_list 2000 later)"] show ?thesis
    by (auto simp: concat_chunk_list intro: subseq_order.trans)
qed

text \<open>What the listening node sends, when it is asked what the download asks.\<close>

lemma sync_replies:
  assumes "digest_lengths cr" and "indexed cr (chain A)" and "sent A = []"
    and "headers (chain A) = base @ later" and "base \<noteq> []" and "length later < 2 ^ 26"
    and "0 < blocks_download_per_node config" and "list_all (has_block cr A) (concat (wanted_batches ts later))"
  shows "replies_to cr ord A (sync_requests cr config base later ts) =
    headers_stream cr (chunk_list 2000 later) @ blocks_stream cr (map (block_of cr A) (concat (wanted_batches ts later)))"
proof -
  let ?groups = "batch_groups config (wanted_batches ts later)"
  have "\<forall>g \<in> set ?groups. list_all (has_block cr A) g \<and> length g < 2 ^ 26"
  proof
    fix g assume "g \<in> set ?groups"
    then have "set g \<subseteq> set (concat ?groups)" "length g \<le> length (concat ?groups)"
      by (auto simp: length_concat intro: member_le_sum_list)
    moreover have "concat ?groups = concat (wanted_batches ts later)"
      by (rule concat_batch_groups [OF assms(7)])
    moreover note list_emb_length [OF wanted_subseq [of ts later]]
    ultimately show "list_all (has_block cr A) g \<and> length g < 2 ^ 26"
      using assms(6,8) by (auto simp: list_all_iff)
  qed
  from blocks_replies [OF assms(1,3) this, of ord] headers_replies [OF assms(1-3) assms(4,5)] show ?thesis
    by (simp add: sync_requests_def concat_batch_groups [OF assms(7)])
qed

lemma inserted_blocks:
  assumes "good_blocks cr (blocks (chain A))" and "list_all (has_block cr A) hs"
  shows "insert_blocks cr (map (block_of cr A) hs) Map.empty = blocks (chain A) |` (BlockHeader_hash cr ` set hs)"
    and "list_all (\<lambda>h. good_block cr (block_of cr A h)) hs"
proof -
  have one: "Block_hash cr (block_of cr A h) = BlockHeader_hash cr h"
      "blocks (chain A) (BlockHeader_hash cr h) = Some (block_of cr A h)" "good_block cr (block_of cr A h)"
    if "has_block cr A h" for h
    using that assms(1) by (auto simp: has_block_def block_of_def good_blocks_def)
  then show "list_all (\<lambda>h. good_block cr (block_of cr A h)) hs"
    using assms(2) by (simp add: list_all_iff)
  from assms(2) show "insert_blocks cr (map (block_of cr A) hs) Map.empty = blocks (chain A) |` (BlockHeader_hash cr ` set hs)"
  proof (induction hs rule: rev_induct)
    case (snoc h hs)
    then show ?case
      using one [of h] by (auto simp: insert_blocks_append fun_eq_iff restrict_map_def)
  qed (simp add: insert_blocks_def restrict_map_def fun_eq_iff)
qed

lemma single_node_full_synced:
  assumes "digest_lengths cr" and "sent A = []" and "indexed cr (chain A)" and "good_blocks cr (blocks (chain A))"
    and "headers (chain A) = base @ later" and "base \<noteq> []" and "length later < 2 ^ 26" and "length later mod 2000 \<noteq> 0"
    and "list_all (\<lambda>h. wf_header h \<and> checked cr h) later" and "list_all (has_block cr A) (concat (wanted_batches ts later))"
    and "0 < blocks_download_per_node config" and "height_first_block_to_download config \<le> length (headers (chain A))"
    and "get_first_block_timestamp parse_date config = Ok ts"
    and "stream node = \<lparr>inp = replies_to cr ord A (sync_requests cr config base later ts), outp = out\<rparr>" and "writes_left node = None"
    and "headers_only (download_start [node]) s" and "dl_headers s = base"
  shows "\<exists>u. download_full_blockchain_from_single_node cr parse_date config Map.empty s =
      (Ok (fold (utxos_after cr) (map (block_of cr A) (concat (wanted_batches ts later))) Map.empty), u) \<and>
    dl_headers u = headers (chain A) \<and> dl_heights u = load_header_heights cr later (dl_heights s) base \<and>
    dl_blocks u = blocks (chain A) |` (BlockHeader_hash cr ` set (concat (wanted_batches ts later))) \<and>
    dl_nodes u = [\<lparr>stream = \<lparr>inp = [], outp = out @ concat (sync_requests cr config base later ts)\<rparr>, writes_left = None\<rparr>]"
proof -
  let ?bs = "chunk_list 2000 later" and ?wanted = "concat (wanted_batches ts later)"
  have i: "inp (stream node) = headers_stream cr ?bs @ blocks_stream cr (map (block_of cr A) ?wanted)"
    using sync_replies [OF assms(1,3,2,5-7,11,10)] assms(14) by simp
  have s: "dl_nodes s = [node]" "dl_queue_open s" "dl_queue s = []" "dl_utxo_queue s = []" "dl_blocks s = Map.empty"
    using assms(16) by (simp_all add: headers_only_def download_start_def)
  have ne: "dl_headers s \<noteq> []" and start: "height_first_block_to_download config \<le> length (dl_headers s @ concat ?bs)"
    using assms(5,6,12,17) by (simp_all add: concat_chunk_list)
  note blocks = inserted_blocks [OF assms(4,10)]
  from single_node_full_exact [OF s(1) assms(15) i full_batches [OF assms(8)] batches_ok [OF assms(9)] ne s(2-4) blocks(2)
      assms(13,1,11) start] assms(5,14,15,17) s(5) blocks(1)
  show ?thesis
    by (cases node) (auto simp: concat_chunk_list advanced_def sync_requests_def)
qed

text \<open>
  C3. A node downloads the chain from another node of the program. \<open>A\<close> listens; its chain was downloaded
  too (its index of heights is the one that the download makes). The new node reads the first headers
  from its file and has a connection with \<open>A\<close>. If what arrives on it is what the handlers of \<open>A\<close> answer
  to the list of requests below, then the download writes exactly these requests, reads all the answers,
  and returns the chain of \<open>A\<close>: the same headers with the same index, the blocks of \<open>A\<close> from the date on
  but for the first batch, and the UTXO set of these blocks. (The number of the headers that are not in the
  file must not be a multiple of 2000; then the last batch is empty.)
\<close>

theorem node_downloads_chain:
  assumes "digest_lengths cr" and "sent A = []" and "indexed cr (chain A)" and "good_blocks cr (blocks (chain A))"
    and "headers (chain A) = (GENESIS_BLOCK_HEADER # concat file) @ later"
    and "\<forall>b \<in> set file. length b = 2000 \<and> (\<forall>h \<in> set b. wf_header h)"
    and "list_all (\<lambda>h. wf_header h \<and> meets_target cr h) later" and "length later mod 2000 \<noteq> 0" and "length later < 2 ^ 26"
    and "wanted = concat (sent_batches ts False (tl (chunk_list 2000 later)))" and "list_all (has_block cr A) wanted"
    and "get_first_block_timestamp parse_date config = Ok ts" and "read_headers_from_disk config"
    and "0 < blocks_download_per_node config" and "height_first_block_to_download config \<le> length (headers (chain A))"
    and "requests = sync_requests cr config (GENESIS_BLOCK_HEADER # concat file) later ts"
    and "stream node = \<lparr>inp = replies_to cr ord A requests, outp = out\<rparr>" and "writes_left node = None"
  shows "\<exists>bc t node'. initial_block_download cr parse_date config (Some (Ok (concat (map headers_payload file)))) created
      schedule [node] = Some (Ok bc, t) \<and>
    headers bc = headers (chain A) \<and> header_heights bc = header_heights (chain A) \<and> indexed cr bc \<and>
    blocks bc = blocks (chain A) |` (BlockHeader_hash cr ` set wanted) \<and>
    utxo_view (bc_utxo_set bc) = fold (apply_tx cr) (concat (map (txn \<circ> block_of cr A) wanted)) Map.empty \<and>
    dl_nodes t = [node'] \<and> stream node' = \<lparr>inp = [], outp = out @ concat requests\<rparr>"
proof -
  let ?base = "GENESIS_BLOCK_HEADER # concat file"
  have checked: "list_all (\<lambda>h. wf_header h \<and> checked cr h) later"
    using assms(7) BlockHeader_validate_iff hash_lengths(1) [OF assms(1)] by (auto simp: list_all_iff checked_def)
  obtain s where s: "get_initial_headers cr config (Some (Ok (concat (map headers_payload file)))) created
        (download_start [node]) = (Ok (), s)" "headers_only (download_start [node]) s" "dl_headers s = ?base"
        "dl_heights s = chain_index cr ?base"
    using stored_headers [OF assms(6,13)] by blast
  from single_node_full_synced [OF assms(1-5) _ assms(9,8) checked assms(11) [unfolded assms(10)] assms(14,15,12)
      assms(17) [unfolded assms(16)] assms(18) s(2,3)] obtain u where
      u: "download_full_blockchain_from_single_node cr parse_date config Map.empty s =
          (Ok (fold (utxos_after cr) (map (block_of cr A) wanted) Map.empty), u)"
        "dl_headers u = headers (chain A)" "dl_heights u = load_header_heights cr later (dl_heights s) ?base"
        "dl_blocks u = blocks (chain A) |` (BlockHeader_hash cr ` set wanted)"
        "dl_nodes u = [\<lparr>stream = \<lparr>inp = [], outp = out @ concat requests\<rparr>, writes_left = None\<rparr>]"
    unfolding assms(10,16) by blast
  have "dl_heights u = chain_index cr (headers (chain A))"
    using load_header_heights_append [of cr later "concat file" _ "[GENESIS_BLOCK_HEADER]"]
    by (simp add: u(3) s(4) assms(5) chain_index_def)
  then have heights: "dl_heights u = header_heights (chain A)"
    using assms(3) by (simp add: indexed_def)
  have "dl_nodes s = [node]"
    using s(2) by (simp add: headers_only_def download_start_def)
  with s(1) u(1) have "initial_block_download cr parse_date config (Some (Ok (concat (map headers_payload file)))) created
      schedule [node] = Some (Ok (Blockchain_new (dl_headers u) (dl_blocks u) (dl_heights u)
        (fold (utxos_after cr) (map (block_of cr A) wanted) Map.empty)), u)"
    by (simp add: initial_block_download_def)
  moreover have "utxo_view (fold (utxos_after cr) (map (block_of cr A) wanted) Map.empty) =
      fold (apply_tx cr) (concat (map (txn \<circ> block_of cr A) wanted)) Map.empty"
  proof -
    have "wf_utxos Map.empty" "utxo_view Map.empty = Map.empty"
      by (simp_all add: wf_utxos_def utxo_view_def fun_eq_iff)
    then show ?thesis
      using fold_utxos_after [of Map.empty cr "map (block_of cr A) wanted"] by (simp add: comp_def)
  qed
  ultimately show ?thesis
    using u(2,4,5) heights assms(3) by (simp add: Blockchain_new_def indexed_def)
qed

subsection \<open>A sample\<close>

text \<open>A chain of 2002 headers; the node that listens has the block of the last one.\<close>

definition numbered_header :: "nat \<Rightarrow> BlockHeader" where
  "numbered_header n = sample_header\<lparr>bh_version := of_nat n\<rparr>"

definition numbered_block :: "nat \<Rightarrow> Block" where
  "numbered_block n = sample_block\<lparr>block_header := numbered_header n\<rparr>"

lemma numbered_hash:
  "BlockHeader_hash sample_crypto (numbered_header n) = u32_to_le_bytes (of_nat n) @ replicate 28 0"
  by (simp add: BlockHeader_hash_def BlockHeader_marshalling_def sha256d_def sample_crypto_def numbered_header_def
      sample_header_def BlockHeader_new_def)

lemma numbered_hash_eq:
  assumes "m < 2 ^ 32" and "n < 2 ^ 32"
  shows "BlockHeader_hash sample_crypto (numbered_header m) = BlockHeader_hash sample_crypto (numbered_header n) \<longleftrightarrow> m = n"
proof -
  have "le_nat (u32_to_le_bytes (of_nat k)) = k" if "k < 2 ^ 32" for k
    using that by (simp add: u32_to_le_bytes_def le_nat_le_bytes unat_of_nat)
  with assms show ?thesis
    by (metis append_same_eq numbered_hash)
qed

lemma numbered_header_ok:
  "wf_header (numbered_header n)" "meets_target sample_crypto (numbered_header n)"
  "numbered_header n \<noteq> GENESIS_BLOCK_HEADER" "BlockHeader_hash sample_crypto (numbered_header n) \<noteq> GENESIS_BLOCK_HASH"
proof -
  show "wf_header (numbered_header n)"
    by (simp add: wf_header_def numbered_header_def sample_header_def BlockHeader_new_def)
  have "bits_exponent (numbered_header n) = 29" "bits_mantissa (numbered_header n) = 65535"
    using sample_header_bits by (simp_all add: bits_exponent_def bits_mantissa_def numbered_header_def)
  moreover have "le_nat (BlockHeader_hash sample_crypto (numbered_header n)) < 256 ^ 4"
    using le_nat_less [of "u32_to_le_bytes (of_nat n)"] by (simp add: numbered_hash le_nat_append le_nat_zeros)
  ultimately show "meets_target sample_crypto (numbered_header n)"
    by (simp add: meets_target_def)
  show "numbered_header n \<noteq> GENESIS_BLOCK_HEADER"
    by (simp add: numbered_header_def GENESIS_BLOCK_HEADER_def sample_header_def BlockHeader_new_def)
  have "BlockHeader_hash sample_crypto (numbered_header n) ! 4 \<noteq> GENESIS_BLOCK_HASH ! 4"
    by (simp add: numbered_hash nth_append GENESIS_BLOCK_HASH_def)
  then show "BlockHeader_hash sample_crypto (numbered_header n) \<noteq> GENESIS_BLOCK_HASH" by auto
qed

lemma numbered_block_ok:
  "Block_hash sample_crypto (numbered_block n) = BlockHeader_hash sample_crypto (numbered_header n)"
  "good_block sample_crypto (numbered_block n)"
proof -
  show "Block_hash sample_crypto (numbered_block n) = BlockHeader_hash sample_crypto (numbered_header n)"
    by (simp add: Block_hash_def numbered_block_def)
  have "wf_block (numbered_block n)"
    using sample_block_wf numbered_header_ok(1) by (simp add: wf_block_def numbered_block_def)
  moreover have "length (Block_marshalling (numbered_block n)) = length (Block_marshalling sample_block)"
    using sample_block_wf numbered_header_ok(1) by (simp add: Block_marshalling_def numbered_block_def wf_block_def)
  moreover have "merkle_root_hash (numbered_header n) = merkle_root_hash (block_header sample_block)"
    by (simp add: numbered_header_def sample_block_def Block_new_def)
  ultimately show "good_block sample_crypto (numbered_block n)"
    using sample_block_valid numbered_header_ok(2)
    by (simp add: good_block_def valid_block_def numbered_block_def)
qed

definition numbered_headers :: "BlockHeader list" where
  "numbered_headers = map numbered_header [1..<2000 + 2]"

definition sample_server :: node where
  "sample_server = \<lparr>pointers = NodeDataPointers_new [] (Blockchain_new (GENESIS_BLOCK_HEADER # numbered_headers)
       [Block_hash sample_crypto (numbered_block 2001) \<mapsto> numbered_block 2001]
       (chain_index sample_crypto (GENESIS_BLOCK_HEADER # numbered_headers)) Map.empty) [],
     transactions_received = [], sent = [], ui = []\<rparr>"

definition sample_sync_config :: Config where
  "sample_sync_config = initial_config\<lparr>read_headers_from_disk := True, blocks_download_per_node := 16\<rparr>"

lemma sample_server_chain:
  "headers (chain sample_server) = GENESIS_BLOCK_HEADER # numbered_headers"
  "blocks (chain sample_server) = [Block_hash sample_crypto (numbered_block 2001) \<mapsto> numbered_block 2001]"
  "header_heights (chain sample_server) = chain_index sample_crypto (GENESIS_BLOCK_HEADER # numbered_headers)"
  "sent sample_server = []"
  by (simp_all add: sample_server_def NodeDataPointers_new_def Blockchain_new_def)

lemma sample_server_indexed: "indexed sample_crypto (chain sample_server)"
proof -
  have "distinct (map (\<lambda>n. BlockHeader_hash sample_crypto (numbered_header n)) [1..<2000 + 2])"
    by (auto simp: distinct_map numbered_hash_eq intro!: inj_onI)
  then show ?thesis
    using numbered_header_ok(3,4) numbered_header_ok(3,4) [symmetric] by (auto simp: indexed_def sample_server_chain numbered_headers_def comp_def)
qed

lemma sample_wanted: "sent_batches 0 False (tl (chunk_list 2000 numbered_headers)) = [[numbered_header 2001]]"
proof -
  have "drop k [1..<k + 2] = [k + 1]" for k :: nat
    by (simp add: drop_upt)
  from this [of 2000] have d: "drop 2000 numbered_headers = [numbered_header 2001]"
    unfolding numbered_headers_def drop_map by simp
  then have "numbered_headers \<noteq> []" by auto
  with d show ?thesis
    by (simp add: chunk_list.simps [of 2000 numbered_headers] chunk_list.simps [of 2000 "[x]" for x])
qed

theorem node_downloads_chain_witness:
  "\<exists>bc t node'. initial_block_download sample_crypto (\<lambda>d f. Ok 0) sample_sync_config (Some (Ok [])) (Ok ()) []
      [\<lparr>stream = \<lparr>inp = replies_to sample_crypto (\<lambda>_. []) sample_server
          (sync_requests sample_crypto sample_sync_config [GENESIS_BLOCK_HEADER] numbered_headers 0), outp = []\<rparr>,
        writes_left = None\<rparr>] = Some (Ok bc, t) \<and>
    headers bc = GENESIS_BLOCK_HEADER # numbered_headers \<and> indexed sample_crypto bc \<and>
    blocks bc (BlockHeader_hash sample_crypto (numbered_header 2001)) = Some (numbered_block 2001) \<and>
    dl_nodes t = [node'] \<and> inp (stream node') = []"
proof -
  let ?later = "numbered_headers"
  let ?node = "\<lparr>stream = \<lparr>inp = replies_to sample_crypto (\<lambda>_. []) sample_server
      (sync_requests sample_crypto sample_sync_config [GENESIS_BLOCK_HEADER] ?later 0), outp = []\<rparr>, writes_left = None\<rparr>"
  have split: "headers (chain sample_server) = (GENESIS_BLOCK_HEADER # concat []) @ ?later"
    by (simp add: sample_server_chain)
  have good: "good_blocks sample_crypto (blocks (chain sample_server))"
    using numbered_block_ok(2) by (simp add: sample_server_chain good_blocks_def)
  have later: "list_all (\<lambda>h. wf_header h \<and> meets_target sample_crypto h) ?later" "length ?later = 2001"
    using numbered_header_ok(1,2) by (simp_all add: numbered_headers_def list_all_iff del: upt_Suc)
  have has: "list_all (has_block sample_crypto sample_server) [numbered_header 2001]"
    by (simp add: has_block_def sample_server_chain numbered_block_ok(1))
  have ts: "get_first_block_timestamp (\<lambda>d f. Ok 0) sample_sync_config = Ok 0"
    by (simp add: get_first_block_timestamp_def)
  have config: "read_headers_from_disk sample_sync_config" "0 < blocks_download_per_node sample_sync_config"
      "height_first_block_to_download sample_sync_config \<le> length (headers (chain sample_server))"
    by (simp_all add: sample_sync_config_def initial_config_def)
  have wanted: "[numbered_header 2001] = concat (sent_batches 0 False (tl (chunk_list 2000 ?later)))"
    by (simp only: sample_wanted) simp
  have lengths: "length ?later mod 2000 \<noteq> 0" "length ?later < 2 ^ 26"
    by (simp_all add: later(2))
  from node_downloads_chain [OF sample_digest_lengths sample_server_chain(4) sample_server_indexed good split _ later(1)
      lengths wanted has ts config(1,2,3) refl, of ?node "\<lambda>_. []" "[]" "Ok ()" "[]"] obtain bc t node' where
      bc: "initial_block_download sample_crypto (\<lambda>d f. Ok 0) sample_sync_config (Some (Ok [])) (Ok ()) [] [?node] = Some (Ok bc, t)"
        "headers bc = headers (chain sample_server)" "indexed sample_crypto bc" "dl_nodes t = [node']" "inp (stream node') = []"
        "blocks bc = blocks (chain sample_server) |` (BlockHeader_hash sample_crypto ` set [numbered_header 2001])"
    by auto
  then show ?thesis
    by (simp add: sample_server_chain numbered_block_ok(1))
qed

end
