(* ===== verification/Announce.thy ===== *)
theory Announce
  imports Sync
begin

section \<open>A block that is announced\<close>

text \<open>
  Two nodes on one connection again: the first has a block, the second reads a \<open>headers\<close> message that
  announces it, asks for it, and takes it in.
\<close>

definition heard_of :: "crypto \<Rightarrow> Block \<Rightarrow> node \<Rightarrow> node" where
  "heard_of cr b B = upd_blockchain (\<lambda>bc. bc\<lparr>header_heights := heights_after cr [block_header b] bc\<rparr>) B"

abbreviation block_sent :: "crypto \<Rightarrow> Block \<Rightarrow> bytes" where
  "block_sent cr b \<equiv> frame cr ''block'' (Block_marshalling b)"

abbreviation block_announcement :: "crypto \<Rightarrow> Block \<Rightarrow> bytes" where
  "block_announcement cr b \<equiv> frame cr ''headers'' (headers_payload [block_header b])"

abbreviation block_wanted :: "crypto \<Rightarrow> Block \<Rightarrow> bytes" where
  "block_wanted cr b \<equiv> frame cr ''getdata'' (inventory_payload [Inventory_new_block (BlockHeader_hash cr (block_header b))])"

text \<open>What it takes for \<open>b\<close> to get from \<open>A\<close> to \<open>B\<close>.\<close>

definition can_fetch :: "crypto \<Rightarrow> Block \<Rightarrow> node \<Rightarrow> node \<Rightarrow> bool" where
  "can_fetch cr b A B \<longleftrightarrow> sent A = [] \<and> sent B = [] \<and> wf_block b \<and> valid_block cr b \<and>
     blocks (chain A) (Block_hash cr b) = Some b \<and> header_is_not_included (block_header b) (headers (chain B)) \<and>
     wf_utxos (bc_utxo_set (chain B)) \<and> finite (dom (bc_utxo_set (chain B))) \<and>
     readable_utxos cr (utxos_after cr b (bc_utxo_set (chain B)))"

inductive fetch_at :: "crypto \<Rightarrow> Block \<Rightarrow> node \<Rightarrow> node \<Rightarrow> nat \<Rightarrow> endpoint \<times> endpoint \<Rightarrow> bool"
  for cr :: crypto and b :: Block and A :: node and B :: node
where
  at0: "fetch_at cr b A B 0 (\<lparr>ep_in = [], ep_node = A\<rparr>, \<lparr>ep_in = block_announcement cr b, ep_node = B\<rparr>)"
| at1: "fetch_at cr b A B 1
    (\<lparr>ep_in = [], ep_node = A\<rparr>, \<lparr>ep_in = [], ep_node = (heard_of cr b B)\<lparr>sent := [block_wanted cr b]\<rparr>\<rparr>)"
| at2: "fetch_at cr b A B 2
    (\<lparr>ep_in = block_wanted cr b, ep_node = A\<rparr>, \<lparr>ep_in = [], ep_node = heard_of cr b B\<rparr>)"
| at3: "fetch_at cr b A B 3
    (\<lparr>ep_in = [], ep_node = A\<lparr>sent := [block_sent cr b]\<rparr>\<rparr>, \<lparr>ep_in = [], ep_node = heard_of cr b B\<rparr>)"
| at4: "fetch_at cr b A B 4 (\<lparr>ep_in = [], ep_node = A\<rparr>, \<lparr>ep_in = block_sent cr b, ep_node = heard_of cr b B\<rparr>)"
| at5: "block_applied cr b (heard_of cr b B) st \<Longrightarrow>
    fetch_at cr b A B 5 (\<lparr>ep_in = [], ep_node = A\<rparr>, \<lparr>ep_in = [], ep_node = st\<rparr>)"

lemmas fetch_intros = fetch_at.intros fetch_at.at1 [unfolded One_nat_def] fetch_at.at2 [unfolded numeral_2_eq_2]

definition fetcher :: "nat \<Rightarrow> side" where
  "fetcher n = (if n = 2 \<or> n = 3 then Here else There)"

lemma heard_of_simps [simp]:
  "headers (chain (heard_of cr b B)) = headers (chain B)" "blocks (chain (heard_of cr b B)) = blocks (chain B)"
  "bc_utxo_set (chain (heard_of cr b B)) = bc_utxo_set (chain B)" "sent (heard_of cr b B) = sent B"
  "accounts (pointers (heard_of cr b B)) = accounts (pointers B)"
  "transactions_received (heard_of cr b B) = transactions_received B"
  "header_heights (chain (heard_of cr b B)) = heights_after cr [block_header b] (chain B)"
  by (simp_all add: heard_of_def upd_blockchain_def)

lemma applied_unheard: "block_applied cr b (heard_of cr b B) st \<longleftrightarrow> block_applied cr b B st"
proof -
  have "(heights_after cr [block_header b] (chain B))(Block_hash cr b \<mapsto> n) = (header_heights (chain B))(Block_hash cr b \<mapsto> n)" for n
    by (auto simp: heights_after_def Block_hash_def fun_eq_iff)
  then show ?thesis
    by (simp add: block_applied_def)
qed

lemma headers_names: "command_ok ''headers''" "char_of (0 :: nat) \<notin> set ''headers''"
  "command_ok ''block''" "char_of (0 :: nat) \<notin> set ''block''"
  by (simp_all add: command_ok_def padded_def as_bytes_def compute)

lemma read_block_announcement:
  assumes "digest_lengths cr" and "can_fetch cr b A B"
  shows "ep_turn cr ord \<lparr>ep_in = block_announcement cr b, ep_node = B\<rparr> =
    Some (\<lparr>ep_in = [], ep_node = (heard_of cr b B)\<lparr>sent := [block_wanted cr b]\<rparr>\<rparr>, [])"
proof -
  let ?h = "block_header b"
  have h: "wf_header ?h" "meets_target cr ?h" "3 \<le> bits_exponent ?h"
    using assms(2) by (simp_all add: can_fetch_def wf_block_def valid_block_def meets_target_def)
  have "length (headers_payload [?h]) < 2 ^ 32"
    using length_headers_payload [of "[?h]"] length_compact [of 1] h(1) by simp
  moreover have "dispatch cr ord ''headers'' (headers_payload [?h]) B =
      Ok ((heard_of cr b B)\<lparr>sent := [block_wanted cr b]\<rparr>)"
    using handle_headers_effect [OF assms(1), of "[?h]" B] h assms(2)
    by (simp add: dispatch_def can_fetch_def announces_def heard_of_def upd_blockchain_def)
  ultimately show ?thesis
    using assms(2) by (intro ep_turn_read [OF _ _ headers_names(1,2) assms(1)]) (simp_all add: can_fetch_def)
qed

lemma read_block_request:
  assumes "digest_lengths cr" and "can_fetch cr b A B"
  shows "ep_turn cr ord \<lparr>ep_in = block_wanted cr b, ep_node = A\<rparr> =
    Some (\<lparr>ep_in = [], ep_node = A\<lparr>sent := [block_sent cr b]\<rparr>\<rparr>, [])"
proof -
  have b: "sent A = []" "list_all (has_block cr A) [block_header b]" "block_of cr A (block_header b) = b"
    using assms(2) by (simp_all add: can_fetch_def has_block_def block_of_def Block_hash_def)
  show ?thesis
    using getdata_dispatch [OF assms(1) b(1,2), of ord] block_inventories(2) [OF assms(1), of "[block_header b]"] b
    by (intro ep_turn_read [OF _ _ getdata_names assms(1)]) (simp_all add: blocks_stream_def)
qed

lemma read_block:
  assumes "digest_lengths cr" and "iteration_order ord" and "can_fetch cr b A B"
  obtains st where "ep_turn cr ord \<lparr>ep_in = block_sent cr b, ep_node = heard_of cr b B\<rparr> = Some (\<lparr>ep_in = [], ep_node = st\<rparr>, [])"
    "block_applied cr b (heard_of cr b B) st"
proof -
  let ?B = "heard_of cr b B"
  have b: "wf_block b" "valid_block cr b" "header_is_not_included (block_header b) (headers (chain ?B))"
      "readable_utxos cr (utxos_after cr b (bc_utxo_set (chain ?B)))"
      "wf_utxos (bc_utxo_set (chain ?B))" "finite (dom (bc_utxo_set (chain ?B)))"
    using assms(3) by (simp_all add: can_fetch_def)
  from handle_block_succeeds [OF b(1,2) assms(1) b(3,4)] obtain st where
      st: "handle_block_message cr ord (Block_marshalling b) ?B = Ok st"
    by blast
  have "dispatch cr ord ''block'' (Block_marshalling b) ?B = Ok st"
    using st by (simp add: dispatch_def)
  moreover have "length (Block_marshalling b) < 2 ^ 32" "sent ?B = []"
    using b(2) assms(3) by (simp_all add: valid_block_def can_fetch_def)
  ultimately have "ep_turn cr ord \<lparr>ep_in = block_sent cr b, ep_node = ?B\<rparr> = Some (\<lparr>ep_in = [], ep_node = st\<rparr>, [])"
    by (intro ep_turn_read [OF _ _ headers_names(3,4) assms(1)]) simp_all
  then show thesis
    by (rule that) (rule handle_block_applied [OF b(1,2) assms(1,2) b(3,5,6) st])
qed

lemma fetch_turn:
  assumes "digest_lengths cr" and "iteration_order ord" and "can_fetch cr b A B" and "fetch_at cr b A B n s"
  shows "\<exists>s'. link_turn cr ord x s = Some s' \<and> fetch_at cr b A B (if n < 5 \<and> x = fetcher n then n + 1 else n) s'"
proof -
  have quiet: "sent A = []" "sent (heard_of cr b B) = []" "sent B = []"
    using assms(3) by (simp_all add: can_fetch_def)
  then have A: "A\<lparr>sent := []\<rparr> = A" and B: "(heard_of cr b B)\<lparr>sent := []\<rparr> = heard_of cr b B"
    by simp_all
  note turns = ep_turn_idle ep_turn_write fetcher_def quiet A B
  from assms(4) show ?thesis
  proof cases
    case at0
    then show ?thesis
      by (cases x) (auto simp: turns read_block_announcement [OF assms(1,3)] intro: fetch_intros)
  next
    case at1
    then show ?thesis
      by (cases x) (auto simp: turns intro: fetch_intros)
  next
    case at2
    then show ?thesis
      by (cases x) (auto simp: turns read_block_request [OF assms(1,3)] intro: fetch_intros)
  next
    case at3
    then show ?thesis
      by (cases x) (auto simp: turns intro: fetch_intros)
  next
    case at4
    obtain st where "ep_turn cr ord \<lparr>ep_in = block_sent cr b, ep_node = heard_of cr b B\<rparr> = Some (\<lparr>ep_in = [], ep_node = st\<rparr>, [])"
        "block_applied cr b (heard_of cr b B) st"
      by (rule read_block [OF assms(1-3)])
    with at4 show ?thesis
      by (cases x) (auto simp: turns intro: fetch_intros)
  next
    case (at5 st)
    then have "sent st = []"
      using quiet by (simp add: block_applied_def)
    with at5 show ?thesis
      by (cases x) (auto simp: turns intro: fetch_intros)
  qed
qed

interpretation fetching: conversation cr ord
  "\<lambda>n s. digest_lengths cr \<and> iteration_order ord \<and> can_fetch cr b A B \<and> fetch_at cr b A B n s" fetcher 5
  for cr ord b A B
  by unfold_locales (use fetch_turn in blast)

subsection \<open>Properties\<close>

text \<open>
  C7. A block that is announced reaches the chain: a node gets a \<open>headers\<close> message with the header of a
  valid block that it does not have, on its connection with a node that has it. However the turns of the
  two listening loops are ordered, as long as there are enough of them, the node asks for the block, gets
  it, and takes it in: it stands at the end of its chain, is found by its hash, and its transactions have
  been applied to the unspent outputs and to the accounts.
\<close>

theorem announced_block_is_fetched:
  assumes "digest_lengths cr" and "iteration_order ord" and "wf_block b" and "valid_block cr b"
    and "sent A = []" and "blocks (chain A) (Block_hash cr b) = Some b"
    and "sent B = []" and "header_is_not_included (block_header b) (headers (chain B))"
    and "wf_utxos (bc_utxo_set (chain B))" and "finite (dom (bc_utxo_set (chain B)))"
    and "readable_utxos cr (utxos_after cr b (bc_utxo_set (chain B)))"
    and "subseq [There, There, Here, Here, There] schedule"
  shows "\<exists>B'. link_run cr ord schedule (\<lparr>ep_in = [], ep_node = A\<rparr>,
        \<lparr>ep_in = frame cr ''headers'' (headers_payload [block_header b]), ep_node = B\<rparr>) =
      Some (\<lparr>ep_in = [], ep_node = A\<rparr>, \<lparr>ep_in = [], ep_node = B'\<rparr>) \<and> block_applied cr b B B' \<and>
    Blockchain_search_block (chain B') (Block_hash cr b) = Some b \<and>
    Blockchain_search_header (chain B') (Block_hash cr b) = Some (block_header b, length (headers (chain B)))"
proof -
  have start: "digest_lengths cr \<and> iteration_order ord \<and> can_fetch cr b A B \<and> fetch_at cr b A B 0
      (\<lparr>ep_in = [], ep_node = A\<rparr>, \<lparr>ep_in = block_announcement cr b, ep_node = B\<rparr>)"
    using assms(1-11) fetch_at.at0 by (simp add: can_fetch_def)
  have "map fetcher [0..<5] = [There, There, Here, Here, There]"
    by (simp add: fetcher_def upt_rec)
  then have moves: "subseq (map fetcher [0..<5]) schedule"
    using assms(12) by simp
  from fetching.run [OF start moves] obtain n s where
      s: "link_run cr ord schedule (\<lparr>ep_in = [], ep_node = A\<rparr>, \<lparr>ep_in = block_announcement cr b, ep_node = B\<rparr>) = Some s"
        "5 \<le> n" "fetch_at cr b A B n s"
    by blast
  from s(3,2) obtain B' where "s = (\<lparr>ep_in = [], ep_node = A\<rparr>, \<lparr>ep_in = [], ep_node = B'\<rparr>)" "block_applied cr b B B'"
    by cases (auto simp: applied_unheard)
  with s(1) show ?thesis
    by (intro exI [of _ B'])
      (simp add: block_applied_def Blockchain_search_block_def Blockchain_search_header_def nth_append)
qed

theorem announced_block_is_fetched_witness:
  "\<exists>B'. link_run sample_crypto sorted_order [There, Here, There, There, Here, Here, There]
      (\<lparr>ep_in = [], ep_node = upd_blockchain (\<lambda>bc. bc\<lparr>blocks := [Block_hash sample_crypto sample_block \<mapsto> sample_block]\<rparr>) sample_node\<rparr>,
       \<lparr>ep_in = frame sample_crypto ''headers'' (headers_payload [block_header sample_block]), ep_node = sample_node\<rparr>) =
      Some (\<lparr>ep_in = [], ep_node = upd_blockchain (\<lambda>bc. bc\<lparr>blocks := [Block_hash sample_crypto sample_block \<mapsto> sample_block]\<rparr>) sample_node\<rparr>,
        \<lparr>ep_in = [], ep_node = B'\<rparr>) \<and>
    headers (chain B') = [sample_header]"
proof -
  let ?A = "upd_blockchain (\<lambda>bc. bc\<lparr>blocks := [Block_hash sample_crypto sample_block \<mapsto> sample_block]\<rparr>) sample_node"
  have A: "sent ?A = []" "blocks (chain ?A) (Block_hash sample_crypto sample_block) = Some sample_block"
    by (simp_all add: upd_blockchain_def sample_node_def)
  have B: "sent sample_node = []" "header_is_not_included (block_header sample_block) (headers (chain sample_node))"
      "wf_utxos (bc_utxo_set (chain sample_node))" "finite (dom (bc_utxo_set (chain sample_node)))"
      "readable_utxos sample_crypto (utxos_after sample_crypto sample_block (bc_utxo_set (chain sample_node)))"
      "headers (chain sample_node) = []"
    using sample_block_readable
    by (simp_all add: sample_node_def NodeDataPointers_new_def Blockchain_new_def header_is_not_included_def wf_utxos_def)
  have h: "block_header sample_block = sample_header"
    by (simp add: sample_block_def Block_new_def)
  from announced_block_is_fetched [OF sample_digest_lengths sorted_order_iterates sample_block_wf sample_block_valid A B(1-5),
      of "[There, Here, There, There, Here, Here, There]"] show ?thesis
    by (auto simp: block_applied_def B(6) h)
qed

end
