(* ===== verification/Timing.thy ===== *)
theory Timing
  imports Sync
begin

section \<open>The download with several nodes depends on timing\<close>

text \<open>
  The threads of the download with several nodes, move by move, when every node serves what it is asked
  for: what the moves of the header thread do, and what the four moves of a batch that one thread downloads do.
\<close>

subsection \<open>The moves of the header thread\<close>

text \<open>What the header thread leaves as it is.\<close>

definition blocks_untouched :: "download \<Rightarrow> download \<Rightarrow> bool" where
  "blocks_untouched s t \<longleftrightarrow> dl_blocks t = dl_blocks s \<and> dl_utxo_queue t = dl_utxo_queue s \<and> dl_queue_open t = dl_queue_open s"

lemma headers_by_untouched: "headers_by P s t \<Longrightarrow> blocks_untouched s t \<and> dl_nodes t = dl_nodes s"
  by (simp add: headers_by_def blocks_untouched_def)

lemma headers_start:
  assumes "headers_state x = NextNode" and "dl_nodes (shared_data x) = nodes @ [node]" and "serves cr (b # bs) node"
    and "batch_ok cr b" and "dl_headers (shared_data x) \<noteq> []" and "digest_lengths cr"
  shows "\<exists>t node'. ibd_run cr parse_date config [HeadersMove, HeadersMove] x =
      x\<lparr>shared_data := t, headers_state := Batches b node' False\<rparr> \<and> serves cr bs node' \<and>
    dl_headers t = dl_headers (shared_data x) @ b \<and> dl_queue t = dl_queue (shared_data x) \<and> dl_nodes t = nodes \<and>
    blocks_untouched (shared_data x) t"
proof -
  let ?s = "(shared_data x)\<lparr>dl_nodes := nodes\<rparr>"
  have g: "get_node (shared_data x) = (Ok node, ?s)"
    using assms(2) by (simp add: get_node_def)
  obtain node' t where t: "first_batch cr config node ?s = (Ok (b, node', False), t)" "serves cr bs node'"
    using first_batch_served [OF assms(3,4) checksum_length [OF assms(6)], of ?s config] assms(5) by auto
  have "blocks_untouched ?s t \<and> dl_nodes t = nodes"
    using headers_by_untouched [OF steps_by_run [OF first_batch_steps t(1)]] by simp
  then show ?thesis
    using assms(1) g t conjunct1 [OF first_batch_stored [OF t(1)]]
    by (intro exI [of _ t] exI [of _ node']) (simp add: stored_def blocks_untouched_def)
qed

lemma headers_next:
  assumes "headers_state x = Batches hs node found" and "length hs = 2000" and "serves cr (b # bs) node"
    and "batch_ok cr b" and "b \<noteq> []" and "dl_headers (shared_data x) \<noteq> []" and "dl_queue_open (shared_data x)"
    and "get_first_block_timestamp parse_date config = Ok ts" and "digest_lengths cr"
  shows "\<exists>t node'. ibd_run cr parse_date config [HeadersMove] x =
      x\<lparr>shared_data := t, headers_state := Batches b node' (found \<or> ts \<le> bh_time (last b))\<rparr> \<and> serves cr bs node' \<and>
    dl_headers t = dl_headers (shared_data x) @ b \<and>
    dl_queue t = dl_queue (shared_data x) @ sent_batches ts found [b] \<and> dl_nodes t = dl_nodes (shared_data x) \<and>
    blocks_untouched (shared_data x) t"
proof -
  obtain node' found' t where t: "headers_turn cr parse_date config node found (shared_data x) = (Ok (b, node', found'), t)"
      "serves cr bs node'"
    using headers_turn_served [OF assms(3,4) checksum_length [OF assms(9)] assms(6,7,5,8), of found] by auto
  note st = headers_turn_stored [OF t(1) assms(8)]
  have "blocks_untouched (shared_data x) t \<and> dl_nodes t = dl_nodes (shared_data x)"
    by (rule headers_by_untouched [OF steps_by_run [OF headers_turn_steps t(1)]])
  then show ?thesis
    using assms(1,2) t st(1,3) by (intro exI [of _ t] exI [of _ node']) (simp add: stored_def)
qed

lemma headers_last:
  assumes "headers_state x = Batches hs node found" and "length hs \<noteq> 2000"
  shows "\<exists>t. ibd_run cr parse_date config [HeadersMove] x = x\<lparr>shared_data := t, headers_state := HeadersEnded (Ok ())\<rparr> \<and>
    dl_headers t = dl_headers (shared_data x) \<and> blocks_untouched (shared_data x) t"
  using assms by (simp add: action_simps act_then_def blocks_untouched_def) (intro exI conjI, rule refl, simp_all)

text \<open>The block thread has ended and has dropped its channel: the next batch cannot be sent.\<close>

lemma headers_closed:
  assumes "headers_state x = Batches hs node True" and "length hs = 2000" and "serves cr (b # bs) node"
    and "batch_ok cr b" and "dl_headers (shared_data x) \<noteq> []" and "\<not> dl_queue_open (shared_data x)" and "digest_lengths cr"
  shows "\<exists>t e. ibd_run cr parse_date config [HeadersMove] x = x\<lparr>shared_data := t, headers_state := HeadersEnded (Err (ThreadChannelError e))\<rparr>"
proof -
  obtain node1 where r: "request_headers_from_node cr config node (shared_data x) = (Ok node1, shared_data x)" "serves cr (b # bs) node1"
    using request_served [OF assms(3,5)] by blast
  obtain node2 where "receive_headers_from_node cr node1 (shared_data x) = (Ok (b, node2), shared_data x)"
    using receive_served [OF r(2) assms(4) checksum_length [OF assms(7)]] by blast
  with r(1) assms(4,6) obtain t where "headers_turn cr parse_date config node True (shared_data x) =
      (Err (ThreadChannelError ''sending on a closed channel''), t)"
    by (simp add: headers_turn_def load_heights_def store_batch_ok action_simps act_then_def
        download_blocks_in_other_thread_def)
  then show ?thesis
    using assms(1,2) by (intro exI [of _ t]) auto
qed

subsection \<open>The moves of a batch\<close>

text \<open>A part that is small enough is downloaded by one thread, in one group.\<close>

definition one_thread :: "ibd_action list" where
  "one_thread = [BlocksMove, WorkerMove 0, WorkerMove 0, BlocksMove]"

lemma chunk_list_whole: "xs \<noteq> [] \<Longrightarrow> length xs \<le> k \<Longrightarrow> chunk_list k xs = [xs]"
  by (cases k) (simp_all add: chunk_list.simps [of "Suc n" xs for n])

lemma batch_starts:
  assumes "dl_queue s = part # q" and "part \<noteq> []" and "length part \<le> blocks_download_per_node config"
    and "dl_nodes s = nodes @ [other]"
  shows "download_blocks config Waiting s =
    Some (Joining [Fetching other [part] part Map.empty], s\<lparr>dl_queue := q, dl_nodes := nodes\<rparr>)"
proof -
  have "0 < length part" "0 < blocks_download_per_node config"
    using assms(2,3) by (auto intro: Nat.gr0I)
  then show ?thesis
    using assms by (simp add: start_batch_def divide_blocks_to_download_in_equal_chunks_def equal_chunk_size_def chunks_def
        chunk_list_whole action_simps act_then_def download_blocks_chunck_def get_node_def)
qed

lemma batch_fetched:
  assumes "digest_lengths cr" and "inp (stream other) = blocks_stream cr bs @ rest" and "writes_left other = None"
    and "list_all (good_block cr) bs" and "length bs = length part" and "height_first_block_to_download config \<le> length (dl_headers s)"
  shows "\<exists>t. (case download_blocks_single_thread cr config (Fetching other [part] part Map.empty) s of
      (w, s) \<Rightarrow> download_blocks_single_thread cr config w s) = (Ended (Ok ()), t) \<and>
    dl_blocks t = insert_blocks cr bs (dl_blocks s) \<and> dl_nodes t = dl_nodes s @ [advanced other rest (blocks_request cr part)] \<and>
    dl_headers t = dl_headers s \<and> dl_queue t = dl_queue s \<and> dl_queue_open t = dl_queue_open s \<and>
    dl_utxo_queue t = dl_utxo_queue s @ [bs]"
proof -
  have "fetch_group cr True part part (other, Map.empty) s =
      (Ok (advanced other rest (blocks_request cr part), insert_blocks cr bs Map.empty), s\<lparr>dl_utxo_queue := dl_utxo_queue s @ [bs]\<rparr>)"
    using group_exact [OF assms(1-5)] .
  then show ?thesis
    using assms(6) insert_blocks_add [of cr bs "dl_blocks s"]
    by (simp add: add_blocks_downloaded_to_local_blocks_def action_simps act_then_def amount_of_headers_def usize_sub_def)
qed

lemma batch_run:
  assumes "blocks_state x = Waiting" and "dl_queue (shared_data x) = part # q" and "part \<noteq> []"
    and "length part \<le> blocks_download_per_node config" and "dl_nodes (shared_data x) = nodes @ [other]"
    and "digest_lengths cr" and "inp (stream other) = blocks_stream cr bs @ rest" and "writes_left other = None"
    and "list_all (good_block cr) bs" and "length bs = length part"
    and "height_first_block_to_download config \<le> length (dl_headers (shared_data x))"
  shows "\<exists>t. ibd_run cr parse_date config one_thread x =
      (if card (dom (insert_blocks cr bs (dl_blocks (shared_data x)))) =
           length (dl_headers (shared_data x)) - height_first_block_to_download config
       then x\<lparr>shared_data := close_queue t, blocks_state := Stopped (Ok ())\<rparr> else x\<lparr>shared_data := t\<rparr>) \<and>
    dl_blocks t = insert_blocks cr bs (dl_blocks (shared_data x)) \<and>
    dl_nodes t = nodes @ [advanced other rest (blocks_request cr part)] \<and> dl_headers t = dl_headers (shared_data x) \<and>
    dl_queue t = q \<and> dl_queue_open t = dl_queue_open (shared_data x) \<and> dl_utxo_queue t = dl_utxo_queue (shared_data x) @ [bs]"
proof -
  let ?s = "(shared_data x)\<lparr>dl_queue := q, dl_nodes := nodes\<rparr>"
  obtain w s1 where w: "download_blocks_single_thread cr config (Fetching other [part] part Map.empty) ?s = (w, s1)"
    by fastforce
  from batch_fetched [OF assms(6-10), of config ?s] assms(11) w obtain t where
      t: "download_blocks_single_thread cr config w s1 = (Ended (Ok ()), t)"
        "dl_blocks t = insert_blocks cr bs (dl_blocks (shared_data x))"
        "dl_nodes t = nodes @ [advanced other rest (blocks_request cr part)]" "dl_headers t = dl_headers (shared_data x)"
        "dl_queue t = q" "dl_queue_open t = dl_queue_open (shared_data x)"
        "dl_utxo_queue t = dl_utxo_queue (shared_data x) @ [bs]"
    by auto
  have r: "worker_result w = None"
    using w assms(6-10) group_exact [OF assms(6-10), of True part Map.empty ?s] by auto
  have "ibd_run cr parse_date config [BlocksMove, WorkerMove 0, WorkerMove 0] x =
      x\<lparr>shared_data := t, blocks_state := Joining [Ended (Ok ())]\<rparr>"
    using assms(1) batch_starts [OF assms(2-5)] w t(1) r by (simp del: download_blocks.simps)
  then have "ibd_run cr parse_date config one_thread x =
      ibd_run cr parse_date config [BlocksMove] (x\<lparr>shared_data := t, blocks_state := Joining [Ended (Ok ())]\<rparr>)"
    by (simp add: one_thread_def del: download_blocks.simps)
  then show ?thesis
    using t(2-) assms(1,11)
    by (intro exI [of _ t]) (cases x; simp add: finish_batch_def amount_of_headers_def amount_of_blocks_def usize_sub_def)
qed

lemma batch_continues:
  assumes "blocks_state x = Waiting" and "dl_queue (shared_data x) = part # q" and "part \<noteq> []"
    and "length part \<le> blocks_download_per_node config" and "dl_nodes (shared_data x) = nodes @ [other]"
    and "digest_lengths cr" and "inp (stream other) = blocks_stream cr bs @ rest" and "writes_left other = None"
    and "list_all (good_block cr) bs" and "length bs = length part"
    and "height_first_block_to_download config \<le> length (dl_headers (shared_data x))"
    and "card (dom (insert_blocks cr bs (dl_blocks (shared_data x)))) \<noteq>
      length (dl_headers (shared_data x)) - height_first_block_to_download config"
  obtains t where "ibd_run cr parse_date config one_thread x = x\<lparr>shared_data := t\<rparr>"
    "dl_blocks t = insert_blocks cr bs (dl_blocks (shared_data x))"
    "dl_nodes t = nodes @ [advanced other rest (blocks_request cr part)]" "dl_headers t = dl_headers (shared_data x)"
    "dl_queue t = q" "dl_queue_open t = dl_queue_open (shared_data x)" "dl_utxo_queue t = dl_utxo_queue (shared_data x) @ [bs]"
  using batch_run [OF assms(1-11), of parse_date] unfolding if_not_P [OF assms(12)] by blast

lemma batch_ends:
  assumes "blocks_state x = Waiting" and "dl_queue (shared_data x) = part # q" and "part \<noteq> []"
    and "length part \<le> blocks_download_per_node config" and "dl_nodes (shared_data x) = nodes @ [other]"
    and "digest_lengths cr" and "inp (stream other) = blocks_stream cr bs @ rest" and "writes_left other = None"
    and "list_all (good_block cr) bs" and "length bs = length part"
    and "height_first_block_to_download config \<le> length (dl_headers (shared_data x))"
    and "card (dom (insert_blocks cr bs (dl_blocks (shared_data x)))) =
      length (dl_headers (shared_data x)) - height_first_block_to_download config"
  obtains t where "ibd_run cr parse_date config one_thread x = x\<lparr>shared_data := close_queue t, blocks_state := Stopped (Ok ())\<rparr>"
    "dl_blocks t = insert_blocks cr bs (dl_blocks (shared_data x))" "dl_headers t = dl_headers (shared_data x)"
    "dl_utxo_queue t = dl_utxo_queue (shared_data x) @ [bs]"
  using batch_run [OF assms(1-11), of parse_date] unfolding if_P [OF assms(12)] by blast

lemma card_inserted:
  assumes "distinct (map (Block_hash cr) bs)"
  shows "card (dom (insert_blocks cr bs Map.empty)) = length bs"
proof -
  have "dom (insert_blocks cr bs m) = Block_hash cr ` set bs \<union> dom m" for m
    by (induction bs arbitrary: m) (auto simp: insert_blocks_def)
  then show ?thesis
    using assms by (metis card_image distinct_card distinct_map dom_empty length_map set_map sup_bot_right)
qed

subsection \<open>Two schedules\<close>

text \<open>
  Two nodes: the last one serves three batches of headers, two of them full; the other one serves the
  blocks. Of the first batch nothing is downloaded; of the second, from the configured date on.
\<close>

definition two_nodes :: "crypto \<Rightarrow> Config \<Rightarrow> u32 \<Rightarrow> BlockHeader list \<Rightarrow> BlockHeader list \<Rightarrow> BlockHeader list \<Rightarrow>
    Block list \<Rightarrow> Block list \<Rightarrow> download \<Rightarrow> bool" where
  "two_nodes cr config ts b0 b1 b2 bs1 bs2 s \<longleftrightarrow>
     (\<exists>other node rest. dl_nodes s = [other, node] \<and> serves cr [b0, b1, b2] node \<and>
        inp (stream other) = blocks_stream cr (bs1 @ bs2) @ rest \<and> writes_left other = None) \<and>
     batch_ok cr b0 \<and> batch_ok cr b1 \<and> batch_ok cr b2 \<and> length b0 = 2000 \<and> length b1 = 2000 \<and> length b2 < 2000 \<and> b2 \<noteq> [] \<and>
     ts \<le> bh_time (last b1) \<and> map block_header bs1 = dropWhile (\<lambda>h. bh_time h < ts) b1 \<and> map block_header bs2 = b2 \<and>
     list_all (good_block cr) (bs1 @ bs2) \<and> distinct (map (Block_hash cr) (bs1 @ bs2)) \<and>
     length bs1 \<le> blocks_download_per_node config \<and> length bs2 \<le> blocks_download_per_node config \<and>
     dl_headers s \<noteq> [] \<and> dl_queue s = [] \<and> dl_queue_open s \<and> dl_blocks s = Map.empty \<and> dl_utxo_queue s = [] \<and>
     height_first_block_to_download config + length bs1 = length (dl_headers s) + 4000"

lemma two_nodes_part:
  assumes "two_nodes cr config ts b0 b1 b2 bs1 bs2 s"
  shows "dropWhile (\<lambda>h. bh_time h < ts) b1 \<noteq> []" "b1 \<noteq> []"
proof -
  have "b1 \<noteq> []" "ts \<le> bh_time (last b1)"
    using assms by (auto simp: two_nodes_def)
  then show "dropWhile (\<lambda>h. bh_time h < ts) b1 \<noteq> []" "b1 \<noteq> []"
    using last_in_set [of b1] by (auto simp: dropWhile_eq_Nil_conv not_less)
qed

lemma two_nodes_counts:
  assumes "two_nodes cr config ts b0 b1 b2 bs1 bs2 s"
  shows "length bs1 = length (dl_headers s) + 4000 - height_first_block_to_download config"
    "length bs1 \<noteq> length (dl_headers s) + (4000 + length b2) - height_first_block_to_download config"
    "length bs1 + length bs2 = length (dl_headers s) + (4000 + length b2) - height_first_block_to_download config"
    "height_first_block_to_download config \<le> length (dl_headers s) + 4000"
proof -
  have "height_first_block_to_download config + length bs1 = length (dl_headers s) + 4000" "length bs2 = length b2" "0 < length b2"
    using assms by (auto simp: two_nodes_def)
  then show "length bs1 = length (dl_headers s) + 4000 - height_first_block_to_download config"
    "length bs1 \<noteq> length (dl_headers s) + (4000 + length b2) - height_first_block_to_download config"
    "length bs1 + length bs2 = length (dl_headers s) + (4000 + length b2) - height_first_block_to_download config"
    "height_first_block_to_download config \<le> length (dl_headers s) + 4000"
    by arith+
qed

lemma two_nodes_facts:
  assumes "two_nodes cr config ts b0 b1 b2 bs1 bs2 s"
  shows "length b0 = 2000" "length b1 = 2000" "length b2 < 2000" "b2 \<noteq> []"
    "batch_ok cr b0" "batch_ok cr b1" "batch_ok cr b2" "ts \<le> bh_time (last b1)"
    "list_all (good_block cr) bs1" "list_all (good_block cr) bs2" "dl_headers s \<noteq> []" "dl_queue_open s"
    "dl_blocks s = (\<lambda>h. None)" "dl_utxo_queue s = []"
    "length bs1 = length (dropWhile (\<lambda>h. bh_time h < ts) b1)" "length bs2 = length b2"
    "length (dropWhile (\<lambda>h. bh_time h < ts) b1) \<le> blocks_download_per_node config" "length b2 \<le> blocks_download_per_node config"
    "card (dom (insert_blocks cr bs1 (\<lambda>h. None))) = length bs1"
    "card (dom (insert_blocks cr bs2 (insert_blocks cr bs1 (\<lambda>h. None)))) = length bs1 + length bs2"
proof -
  have "map block_header bs1 = dropWhile (\<lambda>h. bh_time h < ts) b1" "map block_header bs2 = b2"
    using assms by (simp_all add: two_nodes_def)
  from this [THEN arg_cong [where f = length]] have "length (dropWhile (\<lambda>h. bh_time h < ts) b1) = length bs1" "length b2 = length bs2"
    by simp_all
  with assms card_inserted [of cr bs1] card_inserted [of cr "bs1 @ bs2"] show "length b0 = 2000" "length b1 = 2000" "length b2 < 2000"
    "b2 \<noteq> []" "batch_ok cr b0" "batch_ok cr b1" "batch_ok cr b2" "ts \<le> bh_time (last b1)"
    "list_all (good_block cr) bs1" "list_all (good_block cr) bs2" "dl_headers s \<noteq> []" "dl_queue_open s"
    "dl_blocks s = (\<lambda>h. None)" "dl_utxo_queue s = []"
    "length bs1 = length (dropWhile (\<lambda>h. bh_time h < ts) b1)" "length bs2 = length b2"
    "length (dropWhile (\<lambda>h. bh_time h < ts) b1) \<le> blocks_download_per_node config" "length b2 \<le> blocks_download_per_node config"
    "card (dom (insert_blocks cr bs1 (\<lambda>h. None))) = length bs1"
    "card (dom (insert_blocks cr bs2 (insert_blocks cr bs1 (\<lambda>h. None)))) = length bs1 + length bs2"
    by (simp_all add: two_nodes_def insert_blocks_append)
qed

lemma two_batches:
  assumes "two_nodes cr config ts b0 b1 b2 bs1 bs2 s" and "get_first_block_timestamp parse_date config = Ok ts" and "digest_lengths cr"
  shows "\<exists>t node other rest. ibd_run cr parse_date config [HeadersMove, HeadersMove, HeadersMove] (ibd_start s) =
      \<lparr>shared_data = t, headers_state = Batches b1 node True, blocks_state = Waiting\<rparr> \<and> serves cr [b2] node \<and>
    dl_headers t = dl_headers s @ b0 @ b1 \<and> dl_queue t = [dropWhile (\<lambda>h. bh_time h < ts) b1] \<and> dl_nodes t = [other] \<and>
    inp (stream other) = blocks_stream cr (bs1 @ bs2) @ rest \<and> writes_left other = None \<and> blocks_untouched s t"
proof -
  from assms(1) obtain other node rest where n: "dl_nodes s = [other, node]" "serves cr [b0, b1, b2] node"
      "inp (stream other) = blocks_stream cr (bs1 @ bs2) @ rest" "writes_left other = None"
    by (auto simp: two_nodes_def)
  note facts = assms(1) [unfolded two_nodes_def]
  obtain t1 node1 where t1: "ibd_run cr parse_date config [HeadersMove, HeadersMove] (ibd_start s) =
        (ibd_start s)\<lparr>shared_data := t1, headers_state := Batches b0 node1 False\<rparr>" "serves cr [b1, b2] node1"
      "dl_headers t1 = dl_headers s @ b0" "dl_queue t1 = []" "dl_nodes t1 = [other]" "blocks_untouched s t1"
    using headers_start [of "ibd_start s" "[other]" node cr b0 "[b1, b2]" parse_date config] n facts assms(3)
    by (auto simp: ibd_start_def)
  let ?x1 = "(ibd_start s)\<lparr>shared_data := t1, headers_state := Batches b0 node1 False\<rparr>"
  obtain t2 node2 where t2: "ibd_run cr parse_date config [HeadersMove] ?x1 =
        ?x1\<lparr>shared_data := t2, headers_state := Batches b1 node2 True\<rparr>" "serves cr [b2] node2"
      "dl_headers t2 = dl_headers s @ b0 @ b1" "dl_queue t2 = [dropWhile (\<lambda>h. bh_time h < ts) b1]" "dl_nodes t2 = [other]"
      "blocks_untouched t1 t2"
    using headers_next [of ?x1 b0 node1 False cr b1 "[b2]" parse_date config ts] t1 two_nodes_part [OF assms(1)] facts assms(2,3)
    by (auto simp: blocks_untouched_def)
  have "ibd_run cr parse_date config [HeadersMove, HeadersMove, HeadersMove] (ibd_start s) =
      \<lparr>shared_data = t2, headers_state = Batches b1 node2 True, blocks_state = Waiting\<rparr>"
    using ibd_run_append [of cr parse_date config "[HeadersMove, HeadersMove]" "[HeadersMove]" "ibd_start s"] t1(1) t2(1)
    by (simp add: ibd_start_def)
  with t1 t2 n show ?thesis
    by (auto simp: blocks_untouched_def)
qed

text \<open>The header thread gets to the last batch first: all blocks are downloaded.\<close>

lemma patient_run:
  assumes "two_nodes cr config ts b0 b1 b2 bs1 bs2 s" and "get_first_block_timestamp parse_date config = Ok ts" and "digest_lengths cr"
  shows "\<exists>t. ibd_run cr parse_date config (replicate 4 HeadersMove @ one_thread @ one_thread @ [HeadersMove]) (ibd_start s) =
      \<lparr>shared_data = t, headers_state = HeadersEnded (Ok ()), blocks_state = Stopped (Ok ())\<rparr> \<and>
    dl_headers t = dl_headers s @ b0 @ b1 @ b2 \<and> dl_blocks t = insert_blocks cr (bs1 @ bs2) Map.empty \<and>
    dl_utxo_queue t = [bs1, bs2]"
proof -
  note part = two_nodes_part [OF assms(1)]
  let ?part = "dropWhile (\<lambda>h. bh_time h < ts) b1"
  obtain t node other rest where x3: "ibd_run cr parse_date config [HeadersMove, HeadersMove, HeadersMove] (ibd_start s) =
        \<lparr>shared_data = t, headers_state = Batches b1 node True, blocks_state = Waiting\<rparr>" "serves cr [b2] node"
      and t: "dl_headers t = dl_headers s @ b0 @ b1" "dl_queue t = [?part]" "dl_nodes t = [other]" "blocks_untouched s t"
      and other: "inp (stream other) = blocks_stream cr bs1 @ blocks_stream cr bs2 @ rest" "writes_left other = None"
    using two_batches [OF assms] by (auto simp: blocks_stream_append)
  let ?x3 = "\<lparr>shared_data = t, headers_state = Batches b1 node True, blocks_state = Waiting\<rparr>"
  obtain t4 node4 where x4: "ibd_run cr parse_date config [HeadersMove] ?x3 =
        \<lparr>shared_data = t4, headers_state = Batches b2 node4 True, blocks_state = Waiting\<rparr>"
      and t4: "dl_headers t4 = dl_headers s @ b0 @ b1 @ b2" "dl_queue t4 = [?part, b2]" "dl_nodes t4 = [other]"
        "dl_blocks t4 = Map.empty" "dl_utxo_queue t4 = []"
    using headers_next [of ?x3 b1 node True cr b2 "[]" parse_date config ts] x3(2) t two_nodes_facts [OF assms(1)] assms(2,3)
    by (auto simp: blocks_untouched_def)
  let ?x4 = "\<lparr>shared_data = t4, headers_state = Batches b2 node4 True, blocks_state = Waiting\<rparr>"
  obtain t5 where x5: "ibd_run cr parse_date config one_thread ?x4 = ?x4\<lparr>shared_data := t5\<rparr>"
      and t5: "dl_blocks t5 = insert_blocks cr bs1 (\<lambda>h. None)"
        "dl_nodes t5 = [advanced other (blocks_stream cr bs2 @ rest) (blocks_request cr ?part)]"
        "dl_headers t5 = dl_headers s @ b0 @ b1 @ b2" "dl_queue t5 = [b2]" "dl_utxo_queue t5 = [bs1]"
  proof (rule batch_continues [of ?x4 ?part "[b2]" config "[]" other cr bs1 "blocks_stream cr bs2 @ rest" parse_date])
    show "height_first_block_to_download config \<le> length (dl_headers (shared_data ?x4))"
      using two_nodes_counts(4) [OF assms(1)] two_nodes_facts(1,2) [OF assms(1)] t4(1) by simp
    show "card (dom (insert_blocks cr bs1 (dl_blocks (shared_data ?x4)))) \<noteq>
        length (dl_headers (shared_data ?x4)) - height_first_block_to_download config"
      using two_nodes_counts(2) [OF assms(1)] two_nodes_facts(1,2,19) [OF assms(1)] t4(1,4) by simp
  qed (use t4 other part two_nodes_facts [OF assms(1)] assms(3) in \<open>simp_all\<close>)
  let ?x5 = "?x4\<lparr>shared_data := t5\<rparr>"
  obtain t6 where x6: "ibd_run cr parse_date config one_thread ?x5 = ?x5\<lparr>shared_data := close_queue t6, blocks_state := Stopped (Ok ())\<rparr>"
      and t6: "dl_blocks t6 = insert_blocks cr bs2 (insert_blocks cr bs1 (\<lambda>h. None))" "dl_headers t6 = dl_headers s @ b0 @ b1 @ b2"
        "dl_utxo_queue t6 = [bs1, bs2]"
  proof (rule batch_ends [of ?x5 b2 "[]" config "[]" "advanced other (blocks_stream cr bs2 @ rest) (blocks_request cr ?part)" cr bs2 rest parse_date])
    show "height_first_block_to_download config \<le> length (dl_headers (shared_data ?x5))"
      using two_nodes_counts(4) [OF assms(1)] two_nodes_facts(1,2) [OF assms(1)] t5(3) by simp
    show "card (dom (insert_blocks cr bs2 (dl_blocks (shared_data ?x5)))) =
        length (dl_headers (shared_data ?x5)) - height_first_block_to_download config"
      using two_nodes_counts(3) [OF assms(1)] two_nodes_facts(1,2,20) [OF assms(1)] t5(1,3) by simp
  qed (use t5 other two_nodes_facts [OF assms(1)] assms(3) in \<open>simp_all\<close>)
  let ?x6 = "?x5\<lparr>shared_data := close_queue t6, blocks_state := Stopped (Ok ())\<rparr>"
  obtain t7 where x7: "ibd_run cr parse_date config [HeadersMove] ?x6 =
        \<lparr>shared_data = t7, headers_state = HeadersEnded (Ok ()), blocks_state = Stopped (Ok ())\<rparr>"
      and t7: "dl_headers t7 = dl_headers t6" "dl_utxo_queue t7 = dl_utxo_queue t6" "dl_blocks t7 = dl_blocks t6"
    using headers_last [of ?x6 b2 node4 True cr parse_date config] two_nodes_facts(3) [OF assms(1)]
    by (auto simp: close_queue_def blocks_untouched_def)
  have four: "replicate 4 HeadersMove = [HeadersMove, HeadersMove, HeadersMove] @ [HeadersMove]"
    by (simp add: numeral_eq_Suc)
  have "ibd_run cr parse_date config (replicate 4 HeadersMove @ one_thread @ one_thread @ [HeadersMove]) (ibd_start s) =
      \<lparr>shared_data = t7, headers_state = HeadersEnded (Ok ()), blocks_state = Stopped (Ok ())\<rparr>"
    unfolding ibd_run_append four x3(1) x4 x5 x6 x7 by simp
  then show ?thesis
    using t6 t7 by (intro exI [of _ t7]) (simp add: insert_blocks_append)
qed

text \<open>The blocks of the first part are there before the header thread has got the last batch.\<close>

lemma eager_run:
  assumes "two_nodes cr config ts b0 b1 b2 bs1 bs2 s" and "get_first_block_timestamp parse_date config = Ok ts" and "digest_lengths cr"
  shows "\<exists>t e. ibd_run cr parse_date config (replicate 3 HeadersMove @ one_thread @ [HeadersMove]) (ibd_start s) =
      \<lparr>shared_data = t, headers_state = HeadersEnded (Err (ThreadChannelError e)), blocks_state = Stopped (Ok ())\<rparr>"
proof -
  note part = two_nodes_part [OF assms(1)]
  let ?part = "dropWhile (\<lambda>h. bh_time h < ts) b1"
  obtain t node other rest where x3: "ibd_run cr parse_date config [HeadersMove, HeadersMove, HeadersMove] (ibd_start s) =
        \<lparr>shared_data = t, headers_state = Batches b1 node True, blocks_state = Waiting\<rparr>" "serves cr [b2] node"
      and t: "dl_headers t = dl_headers s @ b0 @ b1" "dl_queue t = [?part]" "dl_nodes t = [other]" "blocks_untouched s t"
      and other: "inp (stream other) = blocks_stream cr bs1 @ blocks_stream cr bs2 @ rest" "writes_left other = None"
    using two_batches [OF assms] by (auto simp: blocks_stream_append)
  let ?x3 = "\<lparr>shared_data = t, headers_state = Batches b1 node True, blocks_state = Waiting\<rparr>"
  have headers: "dl_headers t = dl_headers s @ b0 @ b1" "dl_blocks t = (\<lambda>h. None)"
    using t two_nodes_facts(13) [OF assms(1)] by (simp_all add: blocks_untouched_def)
  obtain t4 where x4: "ibd_run cr parse_date config one_thread ?x3 = ?x3\<lparr>shared_data := close_queue t4, blocks_state := Stopped (Ok ())\<rparr>"
      and t4: "dl_headers t4 = dl_headers s @ b0 @ b1"
  proof (rule batch_ends [of ?x3 ?part "[]" config "[]" other cr bs1 "blocks_stream cr bs2 @ rest" parse_date])
    show "height_first_block_to_download config \<le> length (dl_headers (shared_data ?x3))"
      using two_nodes_counts(4) [OF assms(1)] two_nodes_facts(1,2) [OF assms(1)] headers(1) by simp
    show "card (dom (insert_blocks cr bs1 (dl_blocks (shared_data ?x3)))) =
        length (dl_headers (shared_data ?x3)) - height_first_block_to_download config"
      using two_nodes_counts(1) [OF assms(1)] two_nodes_facts(1,2,19) [OF assms(1)] headers by simp
  qed (use t other part two_nodes_facts [OF assms(1)] assms(3) in \<open>simp_all\<close>)
  let ?x4 = "?x3\<lparr>shared_data := close_queue t4, blocks_state := Stopped (Ok ())\<rparr>"
  obtain t5 e where x5: "ibd_run cr parse_date config [HeadersMove] ?x4 =
        \<lparr>shared_data = t5, headers_state = HeadersEnded (Err (ThreadChannelError e)), blocks_state = Stopped (Ok ())\<rparr>"
    using headers_closed [of ?x4 b1 node cr b2 "[]" parse_date config] x3(2) t4 two_nodes_facts [OF assms(1)] assms(3)
    by (auto simp: close_queue_def)
  have three: "replicate 3 HeadersMove = [HeadersMove, HeadersMove, HeadersMove]"
    by (simp add: numeral_eq_Suc)
  have "ibd_run cr parse_date config (replicate 3 HeadersMove @ one_thread @ [HeadersMove]) (ibd_start s) =
      \<lparr>shared_data = t5, headers_state = HeadersEnded (Err (ThreadChannelError e)), blocks_state = Stopped (Ok ())\<rparr>"
    unfolding ibd_run_append three x3(1) x4 x5 by simp
  then show ?thesis by blast
qed

subsection \<open>A sample\<close>

text \<open>The last header of the second batch and the one of the third are of the configured date.\<close>

definition dated_header :: "nat \<Rightarrow> BlockHeader" where
  "dated_header n = numbered_header n\<lparr>bh_time := 5\<rparr>"

definition dated_block :: "nat \<Rightarrow> Block" where
  "dated_block n = numbered_block n\<lparr>block_header := dated_header n\<rparr>"

definition first_headers :: "BlockHeader list" where
  "first_headers = map numbered_header [1..<2001]"

definition second_headers :: "BlockHeader list" where
  "second_headers = map numbered_header [2001..<4000] @ [dated_header 4000]"

definition dated_remotes :: "remote list" where
  "dated_remotes =
    [\<lparr>stream = \<lparr>inp = blocks_stream sample_crypto [dated_block 4000, dated_block 4001], outp = []\<rparr>, writes_left = None\<rparr>,
     \<lparr>stream = \<lparr>inp = headers_stream sample_crypto [first_headers, second_headers, [dated_header 4001]], outp = []\<rparr>,
       writes_left = None\<rparr>]"

definition dated_config :: Config where
  "dated_config = initial_config\<lparr>blocks_download_per_node := 16, height_first_block_to_download := 4000\<rparr>"

lemma dated_hash: "BlockHeader_hash sample_crypto (dated_header n) = BlockHeader_hash sample_crypto (numbered_header n)"
  by (simp add: BlockHeader_hash_def BlockHeader_marshalling_def sha256d_def sample_crypto_def dated_header_def numbered_header_def
      sample_header_def BlockHeader_new_def)

lemma dated_header_ok: "wf_header (dated_header n)" "meets_target sample_crypto (dated_header n)"
proof -
  show "wf_header (dated_header n)"
    using numbered_header_ok(1) [of n] by (simp add: wf_header_def dated_header_def)
  have "bits_exponent (dated_header n) = bits_exponent (numbered_header n)" "bits_mantissa (dated_header n) = bits_mantissa (numbered_header n)"
    by (simp_all add: bits_exponent_def bits_mantissa_def dated_header_def)
  then show "meets_target sample_crypto (dated_header n)"
    using numbered_header_ok(2) [of n] by (simp add: meets_target_def dated_hash)
qed

lemma dated_block_ok:
  "Block_hash sample_crypto (dated_block n) = BlockHeader_hash sample_crypto (numbered_header n)"
  "good_block sample_crypto (dated_block n)"
proof -
  show "Block_hash sample_crypto (dated_block n) = BlockHeader_hash sample_crypto (numbered_header n)"
    by (simp add: Block_hash_def dated_block_def dated_hash)
  have good: "good_block sample_crypto (numbered_block n)"
    by (rule numbered_block_ok(2))
  then have "wf_block (dated_block n)"
    using dated_header_ok(1) by (simp add: good_block_def wf_block_def dated_block_def)
  moreover have "length (Block_marshalling (dated_block n)) = length (Block_marshalling (numbered_block n))"
    using good dated_header_ok(1) by (simp add: Block_marshalling_def dated_block_def good_block_def wf_block_def)
  moreover have "merkle_root_hash (dated_header n) = merkle_root_hash (block_header (numbered_block n))"
    by (simp add: dated_header_def numbered_block_def)
  ultimately show "good_block sample_crypto (dated_block n)"
    using good dated_header_ok(2) by (simp add: good_block_def valid_block_def dated_block_def)
qed

lemma checked_headers: "checked sample_crypto (numbered_header n)" "checked sample_crypto (dated_header n)"
  unfolding checked_def using numbered_header_ok(2) dated_header_ok(2)
  by (simp_all add: BlockHeader_validate_iff hash_lengths(1) [OF sample_digest_lengths])

lemma dated_batches:
  "batch_ok sample_crypto first_headers" "batch_ok sample_crypto second_headers" "batch_ok sample_crypto [dated_header 4001]"
  "length first_headers = 2000" "length second_headers = 2000"
  "dropWhile (\<lambda>h. bh_time h < 5) second_headers = [dated_header 4000]" "last second_headers = dated_header 4000"
proof -
  show "batch_ok sample_crypto first_headers" "batch_ok sample_crypto second_headers" "batch_ok sample_crypto [dated_header 4001]"
    using checked_headers numbered_header_ok(1) dated_header_ok(1)
    by (auto simp: batch_ok_def first_headers_def second_headers_def simp del: upt_rec_numeral)
  show "length first_headers = 2000" "length second_headers = 2000" "last second_headers = dated_header 4000"
    by (simp_all add: first_headers_def second_headers_def del: upt_rec_numeral)
  have "bh_time (numbered_header n) < 5" for n
    by (simp add: numbered_header_def sample_header_def BlockHeader_new_def)
  then show "dropWhile (\<lambda>h. bh_time h < 5) second_headers = [dated_header 4000]"
    unfolding second_headers_def by (subst dropWhile_append2) (auto simp: dated_header_def simp del: upt_rec_numeral)
qed

lemma dated_nodes:
  "two_nodes sample_crypto dated_config 5 first_headers second_headers [dated_header 4001] [dated_block 4000] [dated_block 4001]
     (sample_download dated_remotes)"
proof -
  have "\<exists>other node rest. dl_nodes (sample_download dated_remotes) = [other, node] \<and>
      serves sample_crypto [first_headers, second_headers, [dated_header 4001]] node \<and>
      inp (stream other) = blocks_stream sample_crypto ([dated_block 4000] @ [dated_block 4001]) @ rest \<and> writes_left other = None"
    by (simp add: sample_download_def dated_remotes_def serves_def)
  moreover have "Block_hash sample_crypto (dated_block 4000) \<noteq> Block_hash sample_crypto (dated_block 4001)"
    using numbered_hash_eq [of 4000 4001] by (simp add: dated_block_ok(1))
  ultimately show ?thesis
    unfolding two_nodes_def using dated_batches dated_block_ok(2)
    by (simp add: sample_download_def dated_config_def initial_config_def) (simp add: dated_header_def dated_block_def)
qed

subsection \<open>Properties\<close>

text \<open>
  C15. The download with several nodes depends on timing. Two nodes serve all that they are asked for. When the
  header thread is ahead, the download ends with all headers, all requested blocks and their UTXO set. When
  the blocks requested so far are there before the next batch of headers is stored, the block thread
  takes their number for the final one and ends; the header thread then cannot send its next batch, and
  the start of the program fails, from the same state.
\<close>

theorem download_depends_on_timing:
  assumes "two_nodes cr config ts b0 b1 b2 bs1 bs2 s" and "get_first_block_timestamp parse_date config = Ok ts"
    and "digest_lengths cr"
  shows "(\<exists>schedule m t. download_full_blockchain_from_multiple_nodes cr parse_date config schedule Map.empty s = Some (Ok m, t) \<and>
      dl_headers t = dl_headers s @ b0 @ b1 @ b2 \<and> dl_blocks t = insert_blocks cr (bs1 @ bs2) Map.empty \<and>
      utxo_view m = fold (apply_tx cr) (concat (map txn (bs1 @ bs2))) Map.empty) \<and>
    (\<exists>schedule e t. download_full_blockchain_from_multiple_nodes cr parse_date config schedule Map.empty s =
      Some (Err (ThreadChannelError e), t))"
proof
  from patient_run [OF assms] obtain t where
      t: "ibd_run cr parse_date config (replicate 4 HeadersMove @ one_thread @ one_thread @ [HeadersMove]) (ibd_start s) =
        \<lparr>shared_data = t, headers_state = HeadersEnded (Ok ()), blocks_state = Stopped (Ok ())\<rparr>"
        "dl_headers t = dl_headers s @ b0 @ b1 @ b2" "dl_blocks t = insert_blocks cr (bs1 @ bs2) Map.empty"
        "dl_utxo_queue t = [bs1, bs2]"
    by blast
  have "load_utxo_set cr [bs1, bs2] Map.empty = Ok (fold (utxos_after cr) (bs1 @ bs2) Map.empty)"
    using load_good_blocks [of "[bs1, bs2]" cr Map.empty] assms(1) by (simp add: two_nodes_def)
  moreover have "utxo_view (fold (utxos_after cr) (bs1 @ bs2) Map.empty) = fold (apply_tx cr) (concat (map txn (bs1 @ bs2))) Map.empty"
  proof -
    have "wf_utxos Map.empty" "utxo_view Map.empty = Map.empty"
      by (simp_all add: wf_utxos_def utxo_view_def fun_eq_iff)
    then show ?thesis
      using fold_utxos_after [of Map.empty cr "bs1 @ bs2"] by simp
  qed
  ultimately show "\<exists>schedule m t. download_full_blockchain_from_multiple_nodes cr parse_date config schedule Map.empty s = Some (Ok m, t) \<and>
      dl_headers t = dl_headers s @ b0 @ b1 @ b2 \<and> dl_blocks t = insert_blocks cr (bs1 @ bs2) Map.empty \<and>
      utxo_view m = fold (apply_tx cr) (concat (map txn (bs1 @ bs2))) Map.empty"
    using t by (intro exI [of _ "replicate 4 HeadersMove @ one_thread @ one_thread @ [HeadersMove]"] exI
        [of _ "fold (utxos_after cr) (bs1 @ bs2) Map.empty"] exI [of _ t])
      (simp only: download_full_blockchain_from_multiple_nodes_def, simp)
  from eager_run [OF assms] obtain t e where
      "ibd_run cr parse_date config (replicate 3 HeadersMove @ one_thread @ [HeadersMove]) (ibd_start s) =
        \<lparr>shared_data = t, headers_state = HeadersEnded (Err (ThreadChannelError e)), blocks_state = Stopped (Ok ())\<rparr>"
    by blast
  then show "\<exists>schedule e t. download_full_blockchain_from_multiple_nodes cr parse_date config schedule Map.empty s =
      Some (Err (ThreadChannelError e), t)"
    by (intro exI [of _ "replicate 3 HeadersMove @ one_thread @ [HeadersMove]"] exI [of _ e] exI [of _ t])
      (simp only: download_full_blockchain_from_multiple_nodes_def, simp)
qed

theorem download_depends_on_timing_witness:
  "(\<exists>schedule m t. download_full_blockchain_from_multiple_nodes sample_crypto (\<lambda>d f. Ok 5) dated_config schedule Map.empty
      (sample_download dated_remotes) = Some (Ok m, t) \<and> last (dl_headers t) = dated_header 4001) \<and>
    (\<exists>schedule e t. download_full_blockchain_from_multiple_nodes sample_crypto (\<lambda>d f. Ok 5) dated_config schedule Map.empty
      (sample_download dated_remotes) = Some (Err (ThreadChannelError e), t))"
proof -
  have ts: "get_first_block_timestamp (\<lambda>d f. Ok 5) dated_config = Ok 5"
    by (simp add: get_first_block_timestamp_def)
  show ?thesis
    using download_depends_on_timing [OF dated_nodes ts sample_digest_lengths] by fastforce
qed

end
