(* ===== verification/Tests_Support.thy ===== *)
theory Tests_Support
  imports Hex
begin

section \<open>Unit tests\<close>

text \<open>
  What the unit tests of the sources share: assertions and the hexadecimal strings of the expected values. A test is
  a call that returns, fails or panics like any other, and it passes when it returns. A failed assertion panics.
\<close>

named_theorems unit_tests
  \<comment> \<open>the definitions of the test functions\<close>

subsection \<open>Assertions\<close>

definition assert :: "bool \<Rightarrow> (unit, 'e) result" where
  "assert b = (if b then Ok () else Panic)"

text \<open>\<open>assert!(r.is_err())\<close> and \<open>assert!(r.is_ok())\<close>\<close>

fun assert_err :: "('a, 'f) result \<Rightarrow> (unit, 'e) result" where
  "assert_err (Err e) = Ok ()"
| "assert_err (Ok x) = Panic"
| "assert_err Panic = Panic"

fun assert_ok :: "('a, 'f) result \<Rightarrow> (unit, 'e) result" where
  "assert_ok (Ok x) = Ok ()"
| "assert_ok (Err e) = Panic"
| "assert_ok Panic = Panic"

lemma assert_simps [simp]: "assert True = Ok ()" "assert False = Panic" "assert b = Ok () \<longleftrightarrow> b"
  by (simp_all add: assert_def)

type_synonym test = "(unit, string) result"

subsection \<open>Hexadecimal strings\<close>

text \<open>The helper that several test modules repeat: a hexadecimal string of the length given to bytes.\<close>

definition tested_string_to_bytes :: "string \<Rightarrow> nat \<Rightarrow> string \<Rightarrow> (bytes, string) result" where
  "tested_string_to_bytes message n input =
     (if length input \<noteq> 2 * n then Err message
      else traverse (\<lambda>i. and_then (str_slice input (i * 2) (i * 2 + 2)) from_str_radix_16) [0..<n])"

text \<open>The strings are the bytes they say.\<close>

lemma tested_string_to_bytes_hex: "length bs = 32 \<Longrightarrow> tested_string_to_bytes m 32 (concat (map hex2 bs)) = Ok bs"
  using string_to_bytes_hex [of bs] by (simp add: string_to_bytes_def tested_string_to_bytes_def length_concat_hex2)

lemma of_hex: "concat (map hex2 bs) = s \<Longrightarrow> length bs = 32 \<Longrightarrow> tested_string_to_bytes m 32 s = Ok bs"
  using tested_string_to_bytes_hex by blast

text \<open>The string as its pairs of digits.\<close>

fun digit_pairs :: "string \<Rightarrow> string list" where
  "digit_pairs (a # b # cs) = [a, b] # digit_pairs cs"
| "digit_pairs cs = []"

lemma digit_pairs_nth: "length s = 2 * n \<Longrightarrow> map (\<lambda>i. take 2 (drop (i * 2) s)) [0..<n] = digit_pairs s"
proof (induction n arbitrary: s)
  case (Suc n)
  then obtain a b cs where s: "s = a # b # cs" "length cs = 2 * n"
    by (cases s rule: digit_pairs.cases) auto
  have "map (\<lambda>i. take 2 (drop (i * 2) s)) [0..<Suc n] = [a, b] # map (\<lambda>i. take 2 (drop (i * 2) cs)) [0..<n]"
    unfolding upt_conv_Cons [OF zero_less_Suc] map_Suc_upt [symmetric] by (simp add: s(1))
  with Suc.IH [OF s(2)] s(1) show ?case
    by simp
qed simp

lemma traverse_map: "traverse f (map g xs) = traverse (\<lambda>x. f (g x)) xs"
  by (induction xs) simp_all

lemma read_digit_pairs:
  assumes "length s = 2 * n" and ascii: "list_all (\<lambda>c. \<not> utf8_continuation c) s"
  shows "tested_string_to_bytes m n s = traverse from_str_radix_16 (digit_pairs s)"
proof -
  have "str_slice s (i * 2) (i * 2 + 2) = (Ok (take 2 (drop (i * 2) s)) :: (string, string) result)" if "i < n" for i
    using that assms by (simp add: str_slice_def is_char_boundary_def slice_def list_all_length) arith
  then have "traverse (\<lambda>i. and_then (str_slice s (i * 2) (i * 2 + 2)) from_str_radix_16) [0..<n] =
      traverse (\<lambda>i. from_str_radix_16 (take 2 (drop (i * 2) s))) [0..<n]"
    by (intro traverse_cong) simp_all
  also have "\<dots> = traverse from_str_radix_16 (digit_pairs s)"
    unfolding digit_pairs_nth [OF assms(1), symmetric] traverse_map ..
  finally show ?thesis
    by (simp add: tested_string_to_bytes_def assms(1))
qed

lemmas read_digits = read_digit_pairs digit_pairs.simps from_str_radix_16_def

end
