(* ===== verification/Tests_Transactions.thy ===== *)
theory Tests_Transactions
  imports Tests_Support Transaction
begin

section \<open>The unit tests of compact sizes and transactions\<close>

text \<open>
  The test functions of \<open>compact_size_uint.rs\<close>, \<open>outpoint.rs\<close>, \<open>tx_in.rs\<close>, \<open>tx_out.rs\<close> and
  \<open>transaction.rs\<close>, run on the model.
\<close>

subsection \<open>Compact sizes\<close>

definition test_number_200_is_represented_as_0x_c8 :: test where
  [unit_tests]: "test_number_200_is_represented_as_0x_c8 =
     assert (CompactSizeUint_value (CompactSizeUint_new 200) = [0xC8])"

definition test_number_505_is_represented_as_0x_fd_f9_01 :: test where
  [unit_tests]: "test_number_505_is_represented_as_0x_fd_f9_01 =
     assert (CompactSizeUint_value (CompactSizeUint_new 505) = [0xFD, 0xF9, 0x01])"

definition test_number_100000_is_represented_as_0x_fe_a0_86_01_00 :: test where
  [unit_tests]: "test_number_100000_is_represented_as_0x_fe_a0_86_01_00 =
     assert (CompactSizeUint_value (CompactSizeUint_new 100000) = [0xFE, 0xA0, 0x86, 0x01, 0x00])"

definition test_number_5000000000_is_represented_as_0x_ff_00_f2_05_2a_01_00_00_00 :: test where
  [unit_tests]: "test_number_5000000000_is_represented_as_0x_ff_00_f2_05_2a_01_00_00_00 =
     assert (CompactSizeUint_value (CompactSizeUint_new 5000000000) =
       [0xFF, 0x00, 0xF2, 0x05, 0x2A, 0x01, 0x00, 0x00, 0x00])"

definition test_unmarshalling_of_1_byte_compact_size_is_done_correctly :: test where
  [unit_tests]: "test_unmarshalling_of_1_byte_compact_size_is_done_correctly =
     (let serialized_compact_size = [0x30] in
      and_then (CompactSizeUint_unmarshalling serialized_compact_size 0) (\<lambda>(expected_compact_size, offset).
      assert (cs_bytes expected_compact_size = serialized_compact_size)))"

definition test_unmarshalling_of_3_byte_compact_size_is_done_correctly :: test where
  [unit_tests]: "test_unmarshalling_of_3_byte_compact_size_is_done_correctly =
     (let serialized_compact_size = [0xfd, 0x30, 0x20] in
      and_then (CompactSizeUint_unmarshalling serialized_compact_size 0) (\<lambda>(expected_compact_size, offset).
      assert (cs_bytes expected_compact_size = serialized_compact_size)))"

definition test_unmarshalling_of_5_byte_compact_size_is_done_correctly :: test where
  [unit_tests]: "test_unmarshalling_of_5_byte_compact_size_is_done_correctly =
     (let serialized_compact_size = [0xFE, 0xA0, 0x86, 0x01, 0x00] in
      and_then (CompactSizeUint_unmarshalling serialized_compact_size 0) (\<lambda>(expected_compact_size, offset).
      assert (cs_bytes expected_compact_size = serialized_compact_size)))"

definition test_unmarshalling_of_9_byte_compact_size_is_done_correctly :: test where
  [unit_tests]: "test_unmarshalling_of_9_byte_compact_size_is_done_correctly =
     (let serialized_compact_size = [0xFF, 0x00, 0xF2, 0x05, 0x2A, 0x01, 0x00, 0x00, 0x00] in
      and_then (CompactSizeUint_unmarshalling serialized_compact_size 0) (\<lambda>(expected_compact_size, offset).
      assert (cs_bytes expected_compact_size = serialized_compact_size)))"

definition test_compact_size_of_value_0x_fd_f9_01_returns_505_when_decoded :: test where
  [unit_tests]: "test_compact_size_of_value_0x_fd_f9_01_returns_505_when_decoded =
     and_then (decoded_value \<lparr>cs_bytes = [0xfd, 0xf9, 0x01]\<rparr>) (\<lambda>expected_value. assert (expected_value = 505))"

definition test_compact_size_of_value_0x_c8_returns_200_when_decoded :: test where
  [unit_tests]: "test_compact_size_of_value_0x_c8_returns_200_when_decoded =
     and_then (decoded_value \<lparr>cs_bytes = [0xc8]\<rparr>) (\<lambda>expected_value. assert (expected_value = 200))"

definition test_compact_size_of_value_0x_fe_a0_86_01_00_returns_100000_when_decoded :: test where
  [unit_tests]: "test_compact_size_of_value_0x_fe_a0_86_01_00_returns_100000_when_decoded =
     and_then (decoded_value \<lparr>cs_bytes = [0xFE, 0xA0, 0x86, 0x01, 0x00]\<rparr>) (\<lambda>expected_value.
     assert (expected_value = 100000))"

definition test_compact_size_of_value_0x_ff_00_f2_05_2a_01_00_00_00_returns_5000000000_when_decoded :: test where
  [unit_tests]: "test_compact_size_of_value_0x_ff_00_f2_05_2a_01_00_00_00_returns_5000000000_when_decoded =
     and_then (decoded_value \<lparr>cs_bytes = [0xFF, 0x00, 0xF2, 0x05, 0x2A, 0x01, 0x00, 0x00, 0x00]\<rparr>) (\<lambda>expected_value.
     assert (expected_value = 5000000000))"

lemmas compact_size_defs = CompactSizeUint_new_def CompactSizeUint_value_def CompactSizeUint_marshalling_def
  CompactSizeUint_unmarshalling_def generate_compact_size_uint_def get_compact_size_uint_def decoded_value_def
  index_at_def slice_def usize_sub_def

lemma compact_size_tests:
  "test_number_200_is_represented_as_0x_c8 = Ok ()"
  "test_number_505_is_represented_as_0x_fd_f9_01 = Ok ()"
  "test_number_100000_is_represented_as_0x_fe_a0_86_01_00 = Ok ()"
  "test_number_5000000000_is_represented_as_0x_ff_00_f2_05_2a_01_00_00_00 = Ok ()"
  "test_unmarshalling_of_1_byte_compact_size_is_done_correctly = Ok ()"
  "test_unmarshalling_of_3_byte_compact_size_is_done_correctly = Ok ()"
  "test_unmarshalling_of_5_byte_compact_size_is_done_correctly = Ok ()"
  "test_unmarshalling_of_9_byte_compact_size_is_done_correctly = Ok ()"
  "test_compact_size_of_value_0x_fd_f9_01_returns_505_when_decoded = Ok ()"
  "test_compact_size_of_value_0x_c8_returns_200_when_decoded = Ok ()"
  "test_compact_size_of_value_0x_fe_a0_86_01_00_returns_100000_when_decoded = Ok ()"
  "test_compact_size_of_value_0x_ff_00_f2_05_2a_01_00_00_00_returns_5000000000_when_decoded = Ok ()"
  by (simp_all add: unit_tests compact_size_defs compute)

subsection \<open>Outpoints\<close>

definition test_unmarshalling_outpoint_yields_expected_tx_id :: test where
  [unit_tests]: "test_unmarshalling_outpoint_yields_expected_tx_id =
     (let bytes = replicate 36 1; expected_tx_id = replicate 32 1 in
      and_then (Outpoint_unmarshalling bytes 0) (\<lambda>(outpoint, offset).
      assert (tx_id outpoint = expected_tx_id)))"

definition test_unmarshalling_outpoint_yields_expected_index :: test where
  [unit_tests]: "test_unmarshalling_outpoint_yields_expected_index =
     (let bytes = foldl (\<lambda>bytes x. bytes[32 + x := of_nat x]) (replicate 36 0) [0..<4] in
      and_then (Outpoint_unmarshalling bytes 0) (\<lambda>(outpoint, offset).
      assert (op_index outpoint = 0x03020100)))"

definition test_marshalling_outpoint_yields_expected_tx_id :: test where
  [unit_tests]: "test_marshalling_outpoint_yields_expected_tx_id =
     (let txid = replicate 32 2;
          marshalled_outpoint = Outpoint_marshalling \<lparr>tx_id = txid, op_index = 0x03020100\<rparr> in
      and_then (Outpoint_unmarshalling marshalled_outpoint 0) (\<lambda>(unmarshalled_outpoint, offset).
      assert (tx_id unmarshalled_outpoint = txid)))"

definition test_marshalling_outpoint_yields_expected_index :: test where
  [unit_tests]: "test_marshalling_outpoint_yields_expected_index =
     (let i = 0x03020100;
          marshalled_outpoint = Outpoint_marshalling \<lparr>tx_id = replicate 32 2, op_index = i\<rparr> in
      and_then (Outpoint_unmarshalling marshalled_outpoint 0) (\<lambda>(unmarshalled_outpoint, offset).
      assert (op_index unmarshalled_outpoint = i)))"

definition test_outpoint_corresponding_to_null_tx_id_coinbase_returns_true :: test where
  [unit_tests]: "test_outpoint_corresponding_to_null_tx_id_coinbase_returns_true =
     assert (is_a_coinbase_outpoint (Outpoint_new (replicate 32 1) 0xffffffff))"

definition test_outpoint_corresponding_to_index_0xffffffff_coinbase_returns_true :: test where
  [unit_tests]: "test_outpoint_corresponding_to_index_0xffffffff_coinbase_returns_true =
     assert (is_a_coinbase_outpoint (Outpoint_new (replicate 32 1) 0xffffffff))"

lemmas outpoint_defs = Outpoint_new_def Outpoint_unmarshalling_def Outpoint_marshalling_def is_a_coinbase_outpoint_def
  read_array_def read_u32_le_def read_u64_le_def

lemma up_to_4: "[0..<4] = [0, 1, 2, 3 :: nat]"
  by (simp add: upt_rec)

lemma outpoint_tests:
  "test_unmarshalling_outpoint_yields_expected_tx_id = Ok ()"
  "test_unmarshalling_outpoint_yields_expected_index = Ok ()"
  "test_marshalling_outpoint_yields_expected_tx_id = Ok ()"
  "test_marshalling_outpoint_yields_expected_index = Ok ()"
  "test_outpoint_corresponding_to_null_tx_id_coinbase_returns_true = Ok ()"
  "test_outpoint_corresponding_to_index_0xffffffff_coinbase_returns_true = Ok ()"
  by (simp_all add: unit_tests up_to_4 outpoint_defs compact_size_defs compute)

subsection \<open>Inputs\<close>

definition TxIn_simulate_data_flow :: "hash32 \<Rightarrow> u32 \<Rightarrow> u128 \<Rightarrow> bytes option \<Rightarrow> u32 \<Rightarrow> bytes" where
  "TxIn_simulate_data_flow txid i compact_size_value h sq =
     TxIn_marshalling
       \<lparr>previous_output = Outpoint_new txid i, script_bytes = CompactSizeUint_new compact_size_value, height = h,
        signature_script = SigScript_new (replicate (unat compact_size_value) 1), sequence = sq\<rparr>"

text \<open>The bytes of an input, as the tests put them together.\<close>

definition written_txin :: bytes where
  "written_txin =
     Outpoint_marshalling (Outpoint_new (replicate 32 1) 0x30201000) @
     take 1 (CompactSizeUint_marshalling (CompactSizeUint_new 1)) @ take 1 [1] @ take 4 (replicate 4 0xff)"

definition test_unmarshalling_invalid_tx_in :: test where
  [unit_tests]: "test_unmarshalling_invalid_tx_in = assert_err (TxIn_unmarshalling (replicate 3 0) 0)"

definition test_unmarshalling_tx_in_returns_expected_outpoint :: test where
  [unit_tests]: "test_unmarshalling_tx_in_returns_expected_outpoint =
     and_then (TxIn_unmarshalling written_txin 0) (\<lambda>(expected_txin, offset).
     assert (previous_output expected_txin = Outpoint_new (replicate 32 1) 0x30201000))"

definition test_unmarshalling_tx_in_returns_expected_script_bytes :: test where
  [unit_tests]: "test_unmarshalling_tx_in_returns_expected_script_bytes =
     and_then (TxIn_unmarshalling written_txin 0) (\<lambda>(expected_txin, offset).
     assert (script_bytes expected_txin = CompactSizeUint_new 1))"

definition test_unmarshalling_tx_in_returns_expected_signature_script :: test where
  [unit_tests]: "test_unmarshalling_tx_in_returns_expected_signature_script =
     and_then (TxIn_unmarshalling written_txin 0) (\<lambda>(expected_txin, offset).
     and_then (assert (SigScript_get_bytes (signature_script expected_txin) = [1])) (\<lambda>_.
     assert (offset = 42)))"

definition test_unmarshalling_tx_in_returns_expected_sequence :: test where
  [unit_tests]: "test_unmarshalling_tx_in_returns_expected_sequence =
     and_then (TxIn_unmarshalling written_txin 0) (\<lambda>(expected_txin, offset).
     assert (sequence expected_txin = 0xffffffff))"

definition test_unmarshalling_tx_in_returns_expected_offset :: test where
  [unit_tests]: "test_unmarshalling_tx_in_returns_expected_offset =
     and_then (TxIn_unmarshalling written_txin 0) (\<lambda>(expected_txin, offset). assert (offset = 42))"

definition test_unmarshalling_2_tx_in_returns_expected_offset :: test where
  [unit_tests]: "test_unmarshalling_2_tx_in_returns_expected_offset =
     and_then (unmarshalling_txins (written_txin @ written_txin) 2 0) (\<lambda>(expected_txin, offset). assert (offset = 84))"

definition test_marshalling_tx_in_serializes_previous_outpoint_correctly :: test where
  [unit_tests]: "test_marshalling_tx_in_serializes_previous_outpoint_correctly =
     (let txid = replicate 32 1; i = 0x30201000; bytes_txin = TxIn_simulate_data_flow txid i 2 None 0xffffffff in
      and_then (TxIn_unmarshalling bytes_txin 0) (\<lambda>(txin_unmarshaled, offset).
      assert (previous_output txin_unmarshaled = Outpoint_new txid i)))"

definition test_marshalling_tx_in_serializes_script_bytes_correctly :: test where
  [unit_tests]: "test_marshalling_tx_in_serializes_script_bytes_correctly =
     (let bytes_txin = TxIn_simulate_data_flow (replicate 32 1) 0x30201000 2 None 0xffffffff in
      and_then (TxIn_unmarshalling bytes_txin 0) (\<lambda>(txin_unmarshaled, offset).
      assert (script_bytes txin_unmarshaled = CompactSizeUint_new 2)))"

definition test_marshalling_tx_in_serializes_signature_script_correctly :: test where
  [unit_tests]: "test_marshalling_tx_in_serializes_signature_script_correctly =
     (let bytes_txin = TxIn_simulate_data_flow (replicate 32 1) 0x30201000 2 None 0xffffffff in
      and_then (TxIn_unmarshalling bytes_txin 0) (\<lambda>(txin_unmarshaled, offset).
      assert (SigScript_get_bytes (signature_script txin_unmarshaled) = [1, 1])))"

definition test_marshalling_tx_in_serializes_sequence_correctly :: test where
  [unit_tests]: "test_marshalling_tx_in_serializes_sequence_correctly =
     (let sq = 0x302010; bytes_txin = TxIn_simulate_data_flow (replicate 32 1) 0x30201000 2 None sq in
      and_then (TxIn_unmarshalling bytes_txin 0) (\<lambda>(txin_unmarshaled, offset).
      assert (sequence txin_unmarshaled = sq)))"

text \<open>What was written reads back: \<open>txin.dec_enc_whole\<close>.\<close>

lemma small_compact: "unat n < 253 \<Longrightarrow> CompactSizeUint_new n = \<lparr>cs_bytes = [ucast n]\<rparr>"
  by (simp add: CompactSizeUint_new_def generate_compact_size_uint_def word_le_nat_alt)

definition tested_txin :: "nat \<Rightarrow> u32 \<Rightarrow> TxIn" where
  "tested_txin n sq = TxIn_new (Outpoint_new (replicate 32 1) 0x30201000) \<lparr>cs_bytes = [of_nat n]\<rparr> None
     (SigScript_new (replicate n 1)) sq"

lemma tested_txin_wf: "n < 253 \<Longrightarrow> wf_txin (tested_txin n sq)"
  by (auto simp: tested_txin_def TxIn_new_def Outpoint_new_def SigScript_new_def wf_txin_def wf_outpoint_def wf_compact_def
      compact_nat_def payload_len_def is_a_coinbase_outpoint_def unat_of_nat word_unat_eq_iff split: list.splits)

lemma written_txin: "written_txin = TxIn_marshalling (tested_txin 1 0xffffffff)"
  by (simp add: written_txin_def tested_txin_def TxIn_new_def TxIn_marshalling_def TxIn_is_coinbase_def SigScript_new_def
      SigScript_get_bytes_def CompactSizeUint_marshalling_def CompactSizeUint_value_def small_compact compute)

lemma simulated_txin: "TxIn_simulate_data_flow (replicate 32 1) 0x30201000 2 None sq = TxIn_marshalling (tested_txin 2 sq)"
  by (simp add: TxIn_simulate_data_flow_def tested_txin_def TxIn_new_def small_compact)

lemma small_of_nat:
  assumes "n < 253"
  shows "CompactSizeUint_new (of_nat n) = \<lparr>cs_bytes = [of_nat n]\<rparr>"
proof -
  have u: "unat (of_nat n :: u128) = n"
    using assms by (simp add: unat_of_nat)
  then have "(ucast (of_nat n :: u128) :: u8) = of_nat n"
    by (metis of_nat_unat)
  with u assms show ?thesis
    by (simp add: small_compact)
qed

lemma tested_txin_parts:
  "previous_output (tested_txin n sq) = Outpoint_new (replicate 32 1) 0x30201000"
  "n < 253 \<Longrightarrow> script_bytes (tested_txin n sq) = CompactSizeUint_new (of_nat n)"
  "SigScript_get_bytes (signature_script (tested_txin n sq)) = replicate n 1" "sequence (tested_txin n sq) = sq"
  "length (TxIn_marshalling (tested_txin n sq)) = 41 + n"
  by (simp_all add: tested_txin_def TxIn_new_def SigScript_new_def SigScript_get_bytes_def small_of_nat
      TxIn_marshalling_def Outpoint_marshalling_def Outpoint_new_def TxIn_is_coinbase_def CompactSizeUint_marshalling_def
      CompactSizeUint_value_def)

lemma decode_two:
  "decode_n d 2 bs off = and_then (d bs off) (\<lambda>(x, off'). and_then (d bs off') (\<lambda>(y, off''). Ok ([x, y], off'')))"
proof -
  have "decode_n d (Suc (Suc 0)) bs off = and_then (d bs off) (\<lambda>(x, off'). and_then (d bs off') (\<lambda>(y, off''). Ok ([x, y], off'')))"
    by (auto simp: and_then_assoc intro!: and_then_cong split: prod.split)
  then show ?thesis
    by (simp only: numeral_2_eq_2)
qed

lemma two_txins:
  assumes "n < 253"
  shows "unmarshalling_txins (TxIn_marshalling (tested_txin n sq) @ TxIn_marshalling (tested_txin n sq)) 2 0 =
    Ok ([tested_txin n sq, tested_txin n sq], 2 * (41 + n))"
  using txin.dec_enc_in [OF tested_txin_wf [OF assms], of "[]" sq "TxIn_marshalling (tested_txin n sq)"]
    txin.dec_enc_in [OF tested_txin_wf [OF assms], of "TxIn_marshalling (tested_txin n sq)" sq "[]"]
  by (simp add: unmarshalling_txins_def decode_two tested_txin_parts del: decode_n.simps)

lemma short_txin: "assert_err (TxIn_unmarshalling (replicate 3 0) 0) = Ok ()"
  by (simp add: TxIn_unmarshalling_def usize_sub_def)

lemmas txin_reads_back = txin.dec_enc_whole [OF tested_txin_wf]

lemma txin_tests:
  "test_unmarshalling_invalid_tx_in = Ok ()"
  "test_unmarshalling_tx_in_returns_expected_outpoint = Ok ()"
  "test_unmarshalling_tx_in_returns_expected_script_bytes = Ok ()"
  "test_unmarshalling_tx_in_returns_expected_signature_script = Ok ()"
  "test_unmarshalling_tx_in_returns_expected_sequence = Ok ()"
  "test_unmarshalling_tx_in_returns_expected_offset = Ok ()"
  "test_unmarshalling_2_tx_in_returns_expected_offset = Ok ()"
  "test_marshalling_tx_in_serializes_previous_outpoint_correctly = Ok ()"
  "test_marshalling_tx_in_serializes_script_bytes_correctly = Ok ()"
  "test_marshalling_tx_in_serializes_signature_script_correctly = Ok ()"
  "test_marshalling_tx_in_serializes_sequence_correctly = Ok ()"
  by (simp_all add: unit_tests written_txin simulated_txin txin_reads_back tested_txin_parts two_txins short_txin
      Let_def numeral_2_eq_2)

subsection \<open>Outputs\<close>

definition TxOut_simulate_data_flow :: "i64 \<Rightarrow> u128 \<Rightarrow> bytes" where
  "TxOut_simulate_data_flow v compact_size_value =
     TxOut_marshalling (TxOut_new v (CompactSizeUint_new compact_size_value) (replicate (unat compact_size_value) 1))"

definition test_unmarshalling_invalid_tx_out :: test where
  [unit_tests]: "test_unmarshalling_invalid_tx_out = assert_err (TxOut_unmarshalling (replicate 3 0) 0)"

definition test_unmarshalling_tx_out_with_valid_value_and_empty_pk_script :: test where
  [unit_tests]: "test_unmarshalling_tx_out_with_valid_value_and_empty_pk_script =
     and_then (TxOut_unmarshalling (replicate 9 0) 0) (\<lambda>(out, offset).
     and_then (assert (txout_value out = 0)) (\<lambda>_.
     and_then (decoded_value (pk_script_bytes out)) (\<lambda>v. assert (v = 0))))"

definition test_unmarshalling_tx_out_with_valid_value_and_nonempty_pk_script :: test where
  [unit_tests]: "test_unmarshalling_tx_out_with_valid_value_and_nonempty_pk_script =
     (let pk_script_compact_size = CompactSizeUint_new 1; script = replicate 1 10;
          bytes = (replicate 8 0)[0 := 1] @ CompactSizeUint_value pk_script_compact_size @ script in
      and_then (TxOut_unmarshalling bytes 0) (\<lambda>(out, offset).
      and_then (assert (txout_value out = 1)) (\<lambda>_.
      and_then (decoded_value (pk_script_bytes out)) (\<lambda>v.
      and_then (decoded_value pk_script_compact_size) (\<lambda>w.
      and_then (assert (v = w)) (\<lambda>_.
      and_then (index_at (Pubkey_bytes (pk_script out)) 0) (\<lambda>b. assert (b = script ! 0))))))))"

definition test_unmarshalling_with_2_tx_outs_returns_expected_offset :: test where
  [unit_tests]: "test_unmarshalling_with_2_tx_outs_returns_expected_offset =
     and_then (unmarshalling_txouts (replicate 18 0) 2 0) (\<lambda>(outs, offset). assert (offset = 18))"

definition test_unmarshalling_with_less_bytes_than_expected_returns_error :: test where
  [unit_tests]: "test_unmarshalling_with_less_bytes_than_expected_returns_error =
     assert_err (unmarshalling_txouts (replicate 14 0) 2 0)"

definition test_tx_out_marshalling_returns_expected_value :: test where
  [unit_tests]: "test_tx_out_marshalling_returns_expected_value =
     (let expected_value = 0x302010 in
      and_then (TxOut_unmarshalling (TxOut_simulate_data_flow expected_value 3) 0) (\<lambda>(tx_out_expected, offset).
      assert (txout_value tx_out_expected = expected_value)))"

definition test_tx_out_marshalling_returns_expected_pk_script_bytes :: test where
  [unit_tests]: "test_tx_out_marshalling_returns_expected_pk_script_bytes =
     (let compact_size_value = 43 in
      and_then (TxOut_unmarshalling (TxOut_simulate_data_flow 0x302010 compact_size_value) 0) (\<lambda>(tx_out_expected, offset).
      assert (pk_script_bytes tx_out_expected = CompactSizeUint_new compact_size_value)))"

definition test_tx_out_marshalling_returns_expected_pk_script :: test where
  [unit_tests]: "test_tx_out_marshalling_returns_expected_pk_script =
     and_then (TxOut_unmarshalling (TxOut_simulate_data_flow 0x302010 4) 0) (\<lambda>(tx_out_expected, offset).
     assert (Pubkey_bytes (pk_script tx_out_expected) = [1, 1, 1, 1]))"

definition tested_txout :: "nat \<Rightarrow> i64 \<Rightarrow> TxOut" where
  "tested_txout n v = TxOut_new v \<lparr>cs_bytes = [of_nat n]\<rparr> (replicate n 1)"

lemma tested_txout_wf: "n < 253 \<Longrightarrow> wf_txout (tested_txout n v)"
  by (auto simp: tested_txout_def TxOut_new_def Pubkey_new_def wf_txout_def wf_compact_def
      compact_nat_def payload_len_def unat_of_nat word_unat_eq_iff split: list.splits)

lemma simulated_txout:
  "TxOut_simulate_data_flow v 3 = TxOut_marshalling (tested_txout 3 v)"
  "TxOut_simulate_data_flow v 4 = TxOut_marshalling (tested_txout 4 v)"
  "TxOut_simulate_data_flow v 43 = TxOut_marshalling (tested_txout 43 v)"
  by (simp_all add: TxOut_simulate_data_flow_def tested_txout_def TxOut_new_def small_compact)

lemma tested_txout_parts:
  "txout_value (tested_txout n v) = v" "pk_script_bytes (tested_txout n v) = \<lparr>cs_bytes = [of_nat n]\<rparr>"
  "Pubkey_bytes (pk_script (tested_txout n v)) = replicate n 1" "length (TxOut_marshalling (tested_txout n v)) = 9 + n"
  by (simp_all add: tested_txout_def TxOut_new_def Pubkey_new_def Pubkey_bytes_def TxOut_marshalling_def
      CompactSizeUint_marshalling_def CompactSizeUint_value_def)

lemmas txout_defs = TxOut_unmarshalling_def unmarshalling_txouts_def Pubkey_new_def Pubkey_bytes_def outpoint_defs compact_size_defs

lemmas txout_reads_back = txout.dec_enc_whole [OF tested_txout_wf]

lemma txout_tests:
  "test_unmarshalling_invalid_tx_out = Ok ()"
  "test_unmarshalling_tx_out_with_valid_value_and_empty_pk_script = Ok ()"
  "test_unmarshalling_tx_out_with_valid_value_and_nonempty_pk_script = Ok ()"
  "test_unmarshalling_with_2_tx_outs_returns_expected_offset = Ok ()"
  "test_unmarshalling_with_less_bytes_than_expected_returns_error = Ok ()"
  by (simp_all add: unit_tests txout_defs small_compact decode_two compute del: decode_n.simps)

lemma txout_tests_written:
  "test_tx_out_marshalling_returns_expected_value = Ok ()"
  "test_tx_out_marshalling_returns_expected_pk_script_bytes = Ok ()"
  "test_tx_out_marshalling_returns_expected_pk_script = Ok ()"
  by (simp_all add: unit_tests simulated_txout txout_reads_back tested_txout_parts small_compact compute)

subsection \<open>Transactions\<close>

definition create_txin :: "u128 \<Rightarrow> TxIn list" where
  "create_txin n =
     map (\<lambda>i. TxIn_new (Outpoint_new (replicate 32 1) 0x30000000) (CompactSizeUint_new 1) None (SigScript_new [1]) 0xffffffff)
       [0..<unat n]"

definition create_txout :: "u128 \<Rightarrow> TxOut list" where
  "create_txout n = map (\<lambda>i. TxOut_new 43 (CompactSizeUint_new 0) []) [0..<unat n]"

definition generate_data_stream :: "i32 \<Rightarrow> u128 \<Rightarrow> u128 \<Rightarrow> u32 \<Rightarrow> bytes" where
  "generate_data_stream v tx_in_count tx_out_count lt =
     Transaction_marshalling (Transaction_new v (CompactSizeUint_new tx_in_count) (create_txin tx_in_count)
       (CompactSizeUint_new tx_out_count) (create_txout tx_out_count) lt)"

definition test_transaction_hashes_correctly :: "crypto \<Rightarrow> test" where
  [unit_tests]: "test_transaction_hashes_correctly cr =
     (let ins = [TxIn_new (Outpoint_new (replicate 32 1) 0x11111111) (CompactSizeUint_new 0) None (SigScript_new []) 0x11111111];
          outs = [TxOut_new 0x1111111111111111 (CompactSizeUint_new 0) []];
          transaction = Transaction_new 0x11111111 (CompactSizeUint_new 1) ins (CompactSizeUint_new 1) outs 0x11111111 in
      assert (Transaction_hash cr transaction = sha256d cr (Transaction_marshalling transaction)))"

definition test_unmarshalling_invalid_transaction :: test where
  [unit_tests]: "test_unmarshalling_invalid_transaction = assert_err (Transaction_unmarshalling (replicate 5 0) 0)"

definition test_unmarshalling_transaction_with_coinbase_and_more_inputs_returns_error :: test where
  [unit_tests]: "test_unmarshalling_transaction_with_coinbase_and_more_inputs_returns_error =
     (let count = CompactSizeUint_new 2;
          coinbase = TxIn_new (Outpoint_new (replicate 32 0) 0xffffffff) (CompactSizeUint_new 5) (Some [1, 1, 1, 1]) (SigScript_new [1]) 0xffffffff;
          tx_input = create_txin 2;
          out_count = CompactSizeUint_new 1;
          outs = create_txout 1;
          bytes = take 4 (u32_to_le_bytes 23) @ take 1 (CompactSizeUint_marshalling count) @ TxIn_marshalling coinbase @
            TxIn_marshalling (tx_input ! 0) @ CompactSizeUint_value out_count @ TxOut_marshalling (outs ! 0) @ replicate 4 0 in
      assert_err (Transaction_unmarshalling bytes 0))"

definition test_unmarshalling_transaction_returns_expected_version :: test where
  [unit_tests]: "test_unmarshalling_transaction_returns_expected_version =
     and_then (Transaction_unmarshalling (generate_data_stream (- 34) 4 3 3) 0) (\<lambda>(transaction, offset).
     assert (version transaction = - 34))"

definition test_unmarshalling_transaction_returns_expected_txin_count :: test where
  [unit_tests]: "test_unmarshalling_transaction_returns_expected_txin_count =
     and_then (Transaction_unmarshalling (generate_data_stream (- 34) 4 3 3) 0) (\<lambda>(transaction, offset).
     assert (txin_count transaction = CompactSizeUint_new 4))"

definition test_unmarshalling_transaction_returns_expected_txin :: test where
  [unit_tests]: "test_unmarshalling_transaction_returns_expected_txin =
     and_then (Transaction_unmarshalling (generate_data_stream (- 34) 1 1 3) 0) (\<lambda>(transaction, offset).
     assert (tx_in transaction = create_txin 1))"

definition test_unmarshalling_transaction_returns_expected_txout_count :: test where
  [unit_tests]: "test_unmarshalling_transaction_returns_expected_txout_count =
     and_then (Transaction_unmarshalling (generate_data_stream (- 34) 4 3 3) 0) (\<lambda>(transaction, offset).
     assert (txout_count transaction = CompactSizeUint_new 3))"

definition test_unmarshalling_transaction_returns_expected_txout :: test where
  [unit_tests]: "test_unmarshalling_transaction_returns_expected_txout =
     and_then (Transaction_unmarshalling (generate_data_stream (- 34) 1 1 3) 0) (\<lambda>(transaction, offset).
     and_then (index_at (tx_out transaction) 0) (\<lambda>out. assert (out = create_txout 1 ! 0)))"

definition test_unmarshalling_transaction_returns_expected_lock_time :: test where
  [unit_tests]: "test_unmarshalling_transaction_returns_expected_lock_time =
     and_then (Transaction_unmarshalling (generate_data_stream (- 34) 4 3 3) 0) (\<lambda>(transaction, offset).
     assert (lock_time transaction = 3))"

definition test_unmarshalling_transaction_returns_expected_txin_size :: test where
  [unit_tests]: "test_unmarshalling_transaction_returns_expected_txin_size =
     and_then (Transaction_unmarshalling (generate_data_stream (- 34) 4 3 3) 0) (\<lambda>(transaction, offset).
     assert (length (tx_in transaction) = 4))"

definition test_unmarshalling_transaction_returns_expected_txin_vector :: test where
  [unit_tests]: "test_unmarshalling_transaction_returns_expected_txin_vector =
     and_then (Transaction_unmarshalling (generate_data_stream (- 34) 4 3 3) 0) (\<lambda>(transaction, offset).
     assert (tx_in transaction = create_txin 4))"

definition test_unmarshalling_transaction_returns_expected_txout_vector :: test where
  [unit_tests]: "test_unmarshalling_transaction_returns_expected_txout_vector =
     and_then (Transaction_unmarshalling (generate_data_stream (- 34) 4 3 3) 0) (\<lambda>(transaction, offset).
     assert (tx_out transaction = create_txout 3))"

definition test_unmarshalling_two_transactions_returns_expected_length :: test where
  [unit_tests]: "test_unmarshalling_two_transactions_returns_expected_length =
     (let bytes = generate_data_stream (- 34) 1 1 3 @ generate_data_stream (- 34) 1 1 3 in
      and_then (unmarshalling_transactions bytes 2 0) (\<lambda>(transactions, offset). assert (length transactions = 2)))"

definition tested_tx :: "i32 \<Rightarrow> u128 \<Rightarrow> u128 \<Rightarrow> u32 \<Rightarrow> Transaction" where
  "tested_tx v ic oc lt =
     Transaction_new v (CompactSizeUint_new ic) (create_txin ic) (CompactSizeUint_new oc) (create_txout oc) lt"

lemma create_txin_wf: "list_all wf_txin (create_txin n)" "list_all (\<lambda>i. \<not> TxIn_is_coinbase i) (create_txin n)" "length (create_txin n) = unat n"
  by (auto simp: create_txin_def list_all_iff TxIn_new_def Outpoint_new_def SigScript_new_def wf_txin_def wf_outpoint_def
      wf_compact_def compact_nat_def payload_len_def is_a_coinbase_outpoint_def small_compact TxIn_is_coinbase_def
      word_unat_eq_iff split: list.splits)

lemma create_txout_wf: "list_all wf_txout (create_txout n)" "length (create_txout n) = unat n"
  by (auto simp: create_txout_def list_all_iff TxOut_new_def Pubkey_new_def wf_txout_def wf_compact_def compact_nat_def
      payload_len_def small_compact split: list.splits)

lemma tested_tx_wf:
  assumes "0 < unat ic" and "unat ic < 2 ^ 64" and "unat oc < 2 ^ 64"
  shows "wf_tx (tested_tx v ic oc lt)"
proof -
  have "create_txin ic \<noteq> []"
    using assms(1) create_txin_wf(3) [of ic] by auto
  then have "\<not> TxIn_is_coinbase (hd (create_txin ic))"
    using create_txin_wf(2) [of ic] by (simp add: list_all_iff)
  with \<open>create_txin ic \<noteq> []\<close> show ?thesis
    using create_txin_wf [of ic] create_txout_wf [of oc] CompactSizeUint_new_wf assms(2,3)
    by (simp add: wf_tx_def tested_tx_def Transaction_new_def)
qed

lemma tested_tx_parts:
  "version (tested_tx v ic oc lt) = v" "txin_count (tested_tx v ic oc lt) = CompactSizeUint_new ic"
  "tx_in (tested_tx v ic oc lt) = create_txin ic" "txout_count (tested_tx v ic oc lt) = CompactSizeUint_new oc"
  "tx_out (tested_tx v ic oc lt) = create_txout oc" "lock_time (tested_tx v ic oc lt) = lt"
  by (simp_all add: tested_tx_def Transaction_new_def)

lemma generated_stream: "generate_data_stream v ic oc lt = Transaction_marshalling (tested_tx v ic oc lt)"
  by (simp add: generate_data_stream_def tested_tx_def)

lemma some_txout: "create_txout 1 \<noteq> []"
  by (simp add: create_txout_def)

lemma short_tx: "assert_err (Transaction_unmarshalling (replicate 5 0) 0) = Ok ()"
  by (simp add: Transaction_unmarshalling_def)

lemmas tx_reads_back = tx.dec_enc_whole [OF tested_tx_wf]

lemma tx_tests:
  "test_transaction_hashes_correctly cr = Ok ()"
  "test_unmarshalling_invalid_transaction = Ok ()"
  "test_unmarshalling_transaction_returns_expected_version = Ok ()"
  "test_unmarshalling_transaction_returns_expected_txin_count = Ok ()"
  "test_unmarshalling_transaction_returns_expected_txin = Ok ()"
  "test_unmarshalling_transaction_returns_expected_txout_count = Ok ()"
  "test_unmarshalling_transaction_returns_expected_txout = Ok ()"
  "test_unmarshalling_transaction_returns_expected_lock_time = Ok ()"
  "test_unmarshalling_transaction_returns_expected_txin_size = Ok ()"
  "test_unmarshalling_transaction_returns_expected_txin_vector = Ok ()"
  "test_unmarshalling_transaction_returns_expected_txout_vector = Ok ()"
  by (simp_all add: unit_tests Let_def generated_stream tx_reads_back tested_tx_parts create_txin_wf create_txout_wf index_at_def
      some_txout Transaction_hash_def hash_message_def short_tx)

lemma two_txs_test: "test_unmarshalling_two_transactions_returns_expected_length = Ok ()"
proof -
  let ?tx = "tested_tx (- 34) 1 1 3"
  have wf: "wf_tx ?tx"
    by (rule tested_tx_wf) simp_all
  show ?thesis
    using tx.dec_enc_in [OF wf, of "[]" "Transaction_marshalling ?tx"] tx.dec_enc_in [OF wf, of "Transaction_marshalling ?tx" "[]"]
    by (simp add: unit_tests Let_def generated_stream unmarshalling_transactions_def decode_two del: decode_n.simps)
qed

text \<open>The input of a coinbase transaction, followed by another one.\<close>

definition tested_coinbase :: TxIn where
  "tested_coinbase = TxIn_new (Outpoint_new (replicate 32 0) 0xffffffff) (CompactSizeUint_new 5) (Some [1, 1, 1, 1]) (SigScript_new [1]) 0xffffffff"

lemma tested_coinbase_wf: "wf_txin tested_coinbase" "TxIn_is_coinbase tested_coinbase"
  by (auto simp: tested_coinbase_def TxIn_new_def Outpoint_new_def SigScript_new_def wf_txin_def wf_outpoint_def wf_compact_def
      compact_nat_def payload_len_def is_a_coinbase_outpoint_def small_compact TxIn_is_coinbase_def split: list.splits)

lemma coinbase_test: "test_unmarshalling_transaction_with_coinbase_and_more_inputs_returns_error = Ok ()"
proof -
  let ?other = "create_txin 2 ! 0" and ?rest = "CompactSizeUint_value (CompactSizeUint_new 1) @ TxOut_marshalling (create_txout 1 ! 0) @ replicate 4 0"
  let ?bytes = "u32_to_le_bytes 23 @ [2] @ TxIn_marshalling tested_coinbase @ TxIn_marshalling ?other @ ?rest"
  have other: "wf_txin ?other"
    using create_txin_wf(1,3) [of 2] by (simp add: list_all_iff)
  have long: "\<not> length ?bytes < 10"
    using length_TxIn_marshalling [OF tested_coinbase_wf(1)] by auto
  have version: "read_u32_le ?bytes 0 = (Ok (23, 4) :: (u32 \<times> nat, string) result)"
    using raw_u32.dec_enc_in [of "[]" 23 "[2] @ TxIn_marshalling tested_coinbase @ TxIn_marshalling ?other @ ?rest"] by simp
  have count: "CompactSizeUint_unmarshalling ?bytes 4 = Ok (\<lparr>cs_bytes = [2]\<rparr>, 5)"
    by (simp add: CompactSizeUint_unmarshalling_def usize_sub_def index_at_def nth_append)
  have two: "decoded_value \<lparr>cs_bytes = [2]\<rparr> = (Ok 2 :: (u64, string) result)"
    by (simp add: decoded_value_def index_at_def compute)
  have "TxIn_unmarshalling ?bytes 5 = Ok (tested_coinbase, 5 + length (TxIn_marshalling tested_coinbase))"
    using txin.dec_enc_in [OF tested_coinbase_wf(1), of "u32_to_le_bytes 23 @ [2]" "TxIn_marshalling ?other @ ?rest"] by simp
  moreover have "TxIn_unmarshalling ?bytes (5 + length (TxIn_marshalling tested_coinbase)) =
      Ok (?other, 5 + length (TxIn_marshalling tested_coinbase) + length (TxIn_marshalling ?other))"
    using txin.dec_enc_in [OF other, of "u32_to_le_bytes 23 @ [2] @ TxIn_marshalling tested_coinbase" ?rest] by simp
  ultimately have "unmarshalling_txins ?bytes 2 5 =
      Ok ([tested_coinbase, ?other], 5 + length (TxIn_marshalling tested_coinbase) + length (TxIn_marshalling ?other))"
    by (simp add: unmarshalling_txins_def decode_two del: decode_n.simps)
  with long version count two have "\<exists>e. Transaction_unmarshalling ?bytes 0 = Err e"
    using tested_coinbase_wf(2) by (simp add: Transaction_unmarshalling_def index_at_def)
  then show ?thesis
    by (auto simp: unit_tests Let_def tested_coinbase_def CompactSizeUint_marshalling_def CompactSizeUint_value_def
        small_compact)
qed

end
