(* ===== verification/Base58.thy ===== *)
theory Base58
  imports Prelude
begin

section \<open>Base 58\<close>

text \<open>
  The conversion that the library of the addresses documents: a byte string is a number in base 256, its
  text the same number in base 58 with the alphabet of Bitcoin, where every leading zero is kept. The two
  directions are inverse to each other.
\<close>

subsection \<open>Numbers and their digits\<close>

fun digits :: "nat \<Rightarrow> nat \<Rightarrow> nat list" where
  "digits b n = (if n = 0 \<or> b < 2 then [] else digits b (n div b) @ [n mod b])"

declare digits.simps [simp del]

fun digits_value :: "nat \<Rightarrow> nat list \<Rightarrow> nat \<Rightarrow> nat" where
  "digits_value b [] n = n"
| "digits_value b (d # ds) n = digits_value b ds (n * b + d)"

definition convert :: "nat \<Rightarrow> nat \<Rightarrow> nat list \<Rightarrow> nat list" where
  "convert b c ds = takeWhile (\<lambda>d. d = 0) ds @ digits c (digits_value b ds 0)"

lemma digits_zero [simp]: "digits b 0 = []"
  by (simp add: digits.simps)

lemma digits_step: "2 \<le> b \<Longrightarrow> 0 < n \<Longrightarrow> digits b n = digits b (n div b) @ [n mod b]"
  by (simp add: digits.simps)

lemma digits_value_append: "digits_value b (ds @ es) n = digits_value b es (digits_value b ds n)"
  by (induction ds arbitrary: n) simp_all

lemma value_of_digits:
  assumes "2 \<le> b"
  shows "digits_value b (digits b n) 0 = n"
proof (induction n rule: less_induct)
  case (less n)
  show ?case
  proof (cases "n = 0")
    case False
    with assms have "n div b < n" by simp
    with less [of "n div b"] assms False show ?thesis
      by (simp add: digits_step digits_value_append)
  qed simp
qed

lemma digits_head:
  assumes "2 \<le> b" and "0 < n"
  shows "digits b n \<noteq> [] \<and> hd (digits b n) \<noteq> 0 \<and> (\<forall>d \<in> set (digits b n). d < b)"
  using assms(2)
proof (induction n rule: less_induct)
  case (less n)
  show ?case
  proof (cases "n div b = 0")
    case True
    with assms(1) have "n < b"
      by (simp add: div_eq_0_iff)
    then show ?thesis
      unfolding digits_step [OF assms(1) less.prems] using less.prems by simp
  next
    case False
    have smaller: "n div b < n"
      using assms(1) less.prems by (intro div_less_dividend) auto
    have "digits b (n div b) \<noteq> [] \<and> hd (digits b (n div b)) \<noteq> 0 \<and> (\<forall>d \<in> set (digits b (n div b)). d < b)"
      by (rule less.IH [OF smaller neq0_conv [THEN iffD1, OF False]])
    with assms(1) show ?thesis
      unfolding digits_step [OF assms(1) less.prems] by auto
  qed
qed

text \<open>A number without a leading zero is the number of its digits, also after what came before.\<close>

lemma digits_of_value:
  assumes "2 \<le> b" and "\<forall>d \<in> set ds. d < b" and "0 < n \<or> ds = [] \<or> hd ds \<noteq> 0"
  shows "digits b (digits_value b ds n) = digits b n @ ds"
  using assms(2,3)
proof (induction ds arbitrary: n)
  case (Cons d ds)
  have pos: "0 < n * b + d"
    using Cons.prems(2) assms(1) by auto
  have "(n * b + d) div b = n" "(n * b + d) mod b = d"
    using Cons.prems(1) assms(1) by auto
  then have "digits b (n * b + d) = digits b n @ [d]"
    using digits_step [OF assms(1) pos] by simp
  moreover have "digits b (digits_value b ds (n * b + d)) = digits b (n * b + d) @ ds"
    using Cons.prems(1) pos by (intro Cons.IH) auto
  ultimately show ?case by simp
qed simp

lemma zeros_value: "digits_value b (takeWhile (\<lambda>d. d = 0) ds @ es) 0 = digits_value b es 0"
  by (induction ds) simp_all

lemma value_stripped: "digits_value b ds 0 = digits_value b (dropWhile (\<lambda>d. d = 0) ds) 0"
  using zeros_value [of b ds "dropWhile (\<lambda>d. d = 0) ds"] by simp

lemma convert_back:
  assumes "2 \<le> b" and "2 \<le> c" and "\<forall>d \<in> set ds. d < b"
  shows "convert c b (convert b c ds) = ds"
proof -
  let ?zs = "takeWhile (\<lambda>d. d = 0) ds" and ?rest = "dropWhile (\<lambda>d. d = 0) ds"
  let ?n = "digits_value b ds 0"
  have "digits b ?n = ?rest"
    using digits_of_value [OF assms(1), of ?rest 0] assms(3) hd_dropWhile [of "\<lambda>d. d = 0" ds]
    by (metis append.left_neutral digits_zero set_dropWhileD value_stripped)
  moreover have "takeWhile (\<lambda>d. d = 0) (?zs @ digits c ?n) = ?zs"
  proof (cases "?n = 0")
    case False
    then obtain d ds' where "digits c ?n = d # ds'" "d \<noteq> 0"
      using digits_head [OF assms(2), of ?n] by (cases "digits c ?n") auto
    then show ?thesis
      by (subst takeWhile_append2) (auto dest: set_takeWhileD)
  qed (simp add: takeWhile_idem)
  ultimately show ?thesis
    by (simp add: convert_def zeros_value value_of_digits [OF assms(2)])
qed

lemma convert_bound: "2 \<le> c \<Longrightarrow> d \<in> set (convert b c ds) \<Longrightarrow> d < c"
  using digits_head [of c "digits_value b ds 0"]
  by (cases "digits_value b ds 0 = 0") (auto simp: convert_def dest: set_takeWhileD)

subsection \<open>The text\<close>

definition alphabet :: string where
  "alphabet = ''123456789ABCDEFGHJKLMNPQRSTUVWXYZabcdefghijkmnopqrstuvwxyz''"

fun position :: "char \<Rightarrow> string \<Rightarrow> nat \<Rightarrow> nat option" where
  "position c [] n = None"
| "position c (a # as) n = (if a = c then Some n else position c as (Suc n))"

fun char_digits :: "string \<Rightarrow> nat list option" where
  "char_digits [] = Some []"
| "char_digits (c # cs) =
     (case position c alphabet 0 of None \<Rightarrow> None
      | Some d \<Rightarrow> (case char_digits cs of None \<Rightarrow> None | Some ds \<Rightarrow> Some (d # ds)))"

definition base58_decode :: "string \<Rightarrow> string + bytes" where
  "base58_decode text =
     (case char_digits text of
        None \<Rightarrow> Inl ''provided string contained invalid character''
      | Some ds \<Rightarrow> Inr (map of_nat (convert 58 256 ds)))"

definition base58_encode :: "bytes \<Rightarrow> string" where
  "base58_encode bs = map (\<lambda>d. alphabet ! d) (convert 256 58 (map unat bs))"

lemma position_Some: "position c as n = Some d \<longleftrightarrow> (\<exists>k < length as. d = n + k \<and> as ! k = c \<and> c \<notin> set (take k as))"
proof (induction as arbitrary: n)
  case (Cons a as)
  show ?case
  proof (cases "a = c")
    case True
    then have "c \<notin> set (take k (a # as)) \<longleftrightarrow> k = 0" for k
      by (cases k) simp_all
    with True show ?thesis
      by auto
  next
    case False
    then have "position c (a # as) n = Some d \<longleftrightarrow> (\<exists>k < length as. d = Suc n + k \<and> as ! k = c \<and> c \<notin> set (take k as))"
      using Cons [of "Suc n"] by simp
    also have "\<dots> \<longleftrightarrow> (\<exists>k < length (a # as). d = n + k \<and> (a # as) ! k = c \<and> c \<notin> set (take k (a # as)))"
      using False by (simp add: Ex_less_Suc2)
    finally show ?thesis .
  qed
qed simp

lemma alphabet_distinct: "distinct alphabet" "length alphabet = 58"
  by (simp_all add: alphabet_def)

lemma position_nth:
  assumes "distinct as" and "k < length as"
  shows "position (as ! k) as 0 = Some k"
proof -
  have "as ! k \<notin> set (take k as)"
    using assms by (auto simp: in_set_conv_nth nth_eq_iff_index_eq)
  with assms show ?thesis
    by (auto simp: position_Some)
qed

lemma position_alphabet: "d < 58 \<Longrightarrow> position (alphabet ! d) alphabet 0 = Some d"
  by (rule position_nth) (simp_all add: alphabet_distinct)

lemma char_digits_of: "\<forall>d \<in> set ds. d < 58 \<Longrightarrow> char_digits (map (\<lambda>d. alphabet ! d) ds) = Some ds"
  by (induction ds) (simp_all add: position_alphabet)

lemma char_digits_Some:
  "char_digits cs = Some ds \<Longrightarrow> map (\<lambda>d. alphabet ! d) ds = cs \<and> (\<forall>d \<in> set ds. d < 58)"
proof (induction cs arbitrary: ds)
  case (Cons c cs)
  then show ?case
    by (auto simp: position_Some alphabet_distinct(2) split: option.splits)
qed simp

theorem base58_inverse:
  "base58_decode (base58_encode bs) = Inr bs"
  "base58_decode text = Inr bs \<Longrightarrow> base58_encode bs = text"
proof -
  have "convert 58 256 (convert 256 58 (map unat bs)) = map unat bs"
    by (rule convert_back) (use unat_u8_lt in auto)
  moreover have "char_digits (base58_encode bs) = Some (convert 256 58 (map unat bs))"
    unfolding base58_encode_def by (rule char_digits_of) (simp add: convert_bound)
  ultimately show "base58_decode (base58_encode bs) = Inr bs"
    by (simp add: base58_decode_def comp_def)
next
  assume "base58_decode text = Inr bs"
  then obtain ds where ds: "char_digits text = Some ds" "bs = map of_nat (convert 58 256 ds)"
    by (auto simp: base58_decode_def split: option.splits)
  have "unat (of_nat d :: u8) = d" if "d \<in> set (convert 58 256 ds)" for d
    using convert_bound [OF _ that] by (simp add: unat_of_nat)
  then have "map unat bs = convert 58 256 ds"
    unfolding ds(2) map_map by (intro map_idI) simp
  moreover have "convert 256 58 (convert 58 256 ds) = ds"
    using char_digits_Some [OF ds(1)] by (intro convert_back) auto
  ultimately show "base58_encode bs = text"
    using char_digits_Some [OF ds(1)] by (simp add: base58_encode_def)
qed

end
