(* ===== verification/Known_Answers.thy ===== *)
theory Known_Answers
  imports Sha256 Base58 Headers_Download
begin

section \<open>The constants of the code under the real hash function\<close>

text \<open>
  The parameter \<^typ>\<open>crypto\<close> with SHA-256 and base 58 as they are. The elliptic curve and RIPEMD-160
  remain stand-ins. Under it, or any other choice with the real SHA-256, the constants of the code for the
  first block of the test network can be checked.
\<close>

definition standard_crypto :: crypto where
  "standard_crypto =
     sample_crypto\<lparr>sha256 := sha_256, bs58_encode := base58_encode, bs58_decode := base58_decode\<rparr>"

lemma standard_laws:
  "sha256 standard_crypto = sha_256" "digest_lengths standard_crypto" "bs58_inverse standard_crypto"
  using sample_digest_lengths base58_inverse
  by (simp_all add: standard_crypto_def digest_lengths_def bs58_inverse_def)

subsection \<open>The first header\<close>

text \<open>The header of the code, and the same with the time at which the test network started.\<close>

definition testnet_genesis :: BlockHeader where
  "testnet_genesis = GENESIS_BLOCK_HEADER\<lparr>bh_time := 1296688602\<rparr>"

lemma genesis_bytes:
  "BlockHeader_marshalling GENESIS_BLOCK_HEADER =
   [1, 0, 0, 0, 0, 0, 0, 0, 0, 0, 0, 0, 0, 0, 0, 0, 0, 0, 0, 0, 0, 0, 0, 0, 0, 0, 0, 0, 0, 0, 0, 0,
    0, 0, 0, 0, 59, 163, 237, 253, 122, 123, 18, 178, 122, 199, 44, 62, 103, 118, 143, 97, 127, 200, 27, 195, 136, 138, 81, 50, 58, 159, 184, 170,
    75, 30, 94, 74, 170, 187, 73, 77, 255, 255, 0, 29, 26, 164, 174, 24]"
  "BlockHeader_marshalling testnet_genesis =
   [1, 0, 0, 0, 0, 0, 0, 0, 0, 0, 0, 0, 0, 0, 0, 0, 0, 0, 0, 0, 0, 0, 0, 0, 0, 0, 0, 0, 0, 0, 0, 0,
    0, 0, 0, 0, 59, 163, 237, 253, 122, 123, 18, 178, 122, 199, 44, 62, 103, 118, 143, 97, 127, 200, 27, 195, 136, 138, 81, 50, 58, 159, 184, 170,
    75, 30, 94, 74, 218, 229, 73, 77, 255, 255, 0, 29, 26, 164, 174, 24]"
  by (simp_all add: BlockHeader_marshalling_def testnet_genesis_def GENESIS_BLOCK_HEADER_def compute)

lemma code_genesis_digest:
  "sha_256 (sha_256
     [1, 0, 0, 0, 0, 0, 0, 0, 0, 0, 0, 0, 0, 0, 0, 0, 0, 0, 0, 0, 0, 0, 0, 0, 0, 0, 0, 0, 0, 0, 0, 0,
      0, 0, 0, 0, 59, 163, 237, 253, 122, 123, 18, 178, 122, 199, 44, 62, 103, 118, 143, 97, 127, 200, 27, 195, 136, 138, 81, 50, 58, 159, 184, 170,
      75, 30, 94, 74, 170, 187, 73, 77, 255, 255, 0, 29, 26, 164, 174, 24]) =
   [148, 70, 64, 42, 69, 82, 196, 1, 36, 177, 74, 178, 28, 132, 109, 90, 145, 12, 105, 96, 147, 161, 38, 116, 91, 10, 60, 222, 139, 28, 13, 174]"
  by (subst sha_256_twice_eq [where n = 80], simp) (simp only: sha_256_rules)

lemma testnet_genesis_digest:
  "sha_256 (sha_256
     [1, 0, 0, 0, 0, 0, 0, 0, 0, 0, 0, 0, 0, 0, 0, 0, 0, 0, 0, 0, 0, 0, 0, 0, 0, 0, 0, 0, 0, 0, 0, 0,
      0, 0, 0, 0, 59, 163, 237, 253, 122, 123, 18, 178, 122, 199, 44, 62, 103, 118, 143, 97, 127, 200, 27, 195, 136, 138, 81, 50, 58, 159, 184, 170,
      75, 30, 94, 74, 218, 229, 73, 77, 255, 255, 0, 29, 26, 164, 174, 24]) =
   [67, 73, 127, 215, 248, 38, 149, 113, 8, 244, 163, 15, 217, 206, 195, 174, 186, 121, 151, 32, 132, 233, 14, 173, 1, 234, 51, 9, 0, 0, 0, 0]"
  by (subst sha_256_twice_eq [where n = 80], simp) (simp only: sha_256_rules)

lemma genesis_bits:
  "bits_exponent GENESIS_BLOCK_HEADER = 29" "bits_mantissa GENESIS_BLOCK_HEADER = 65535"
  "bits_exponent testnet_genesis = 29" "bits_mantissa testnet_genesis = 65535"
  by (simp_all add: bits_exponent_def bits_mantissa_def testnet_genesis_def GENESIS_BLOCK_HEADER_def)

lemma genesis_hashes:
  assumes "sha256 cr = sha_256"
  shows "BlockHeader_hash cr testnet_genesis = rev GENESIS_BLOCK_HASH"
    "length (BlockHeader_hash cr h) = 32"
  using testnet_genesis_digest assms
  by (simp_all add: BlockHeader_hash_def sha256d_def genesis_bytes GENESIS_BLOCK_HASH_def)

subsection \<open>Properties\<close>

text \<open>
  C24. The first header that the code starts every chain with is not the first header of the test network, if the
  hash function is SHA-256. Its hash is not the hash that the code gives for it, in either order of the
  bytes, and it does not meet its own target, so that \<open>validate\<close> refuses it. Its time is three hours before the
  start of the network: with the right time it has the hash of the code (in the order of the wire
  reversed) and is accepted.
\<close>

theorem genesis_time_is_wrong:
  assumes "sha256 cr = sha_256"
  shows "BlockHeader_hash cr GENESIS_BLOCK_HEADER \<noteq> GENESIS_BLOCK_HASH \<and>
    BlockHeader_hash cr GENESIS_BLOCK_HEADER \<noteq> rev GENESIS_BLOCK_HASH \<and>
    BlockHeader_validate cr GENESIS_BLOCK_HEADER = (Ok False :: (bool, 'e) result) \<and>
    BlockHeader_hash cr (GENESIS_BLOCK_HEADER\<lparr>bh_time := bh_time GENESIS_BLOCK_HEADER + 3 * 3600\<rparr>) = rev GENESIS_BLOCK_HASH \<and>
    BlockHeader_validate cr (GENESIS_BLOCK_HEADER\<lparr>bh_time := bh_time GENESIS_BLOCK_HEADER + 3 * 3600\<rparr>) = (Ok True :: (bool, 'e) result)"
proof -
  have right: "GENESIS_BLOCK_HEADER\<lparr>bh_time := bh_time GENESIS_BLOCK_HEADER + 3 * 3600\<rparr> = testnet_genesis"
    by (simp add: testnet_genesis_def GENESIS_BLOCK_HEADER_def)
  have code: "BlockHeader_hash cr GENESIS_BLOCK_HEADER =
      [148, 70, 64, 42, 69, 82, 196, 1, 36, 177, 74, 178, 28, 132, 109, 90, 145, 12, 105, 96, 147, 161, 38, 116, 91, 10, 60, 222, 139, 28, 13, 174]"
    using code_genesis_digest assms by (simp add: BlockHeader_hash_def sha256d_def genesis_bytes)
  have "\<not> meets_target cr GENESIS_BLOCK_HEADER" "meets_target cr testnet_genesis"
    by (simp_all add: meets_target_def code genesis_hashes [OF assms] genesis_bits GENESIS_BLOCK_HASH_def)
  then have "BlockHeader_validate cr GENESIS_BLOCK_HEADER = (Ok False :: (bool, 'e) result)"
      "BlockHeader_validate cr testnet_genesis = (Ok True :: (bool, 'e) result)"
    by (simp_all add: BlockHeader_validate_Ok [OF genesis_hashes(2) [OF assms]] genesis_bits)
  then show ?thesis
    unfolding right code genesis_hashes [OF assms] by (simp add: GENESIS_BLOCK_HASH_def)
qed

theorem genesis_time_is_wrong_witness:
  "BlockHeader_hash standard_crypto GENESIS_BLOCK_HEADER \<noteq> GENESIS_BLOCK_HASH \<and>
    BlockHeader_validate standard_crypto GENESIS_BLOCK_HEADER = (Ok False :: (bool, unit) result)"
  using genesis_time_is_wrong [OF standard_laws(1), where 'e = unit] by simp

end
