(* ===== verification/Tests_Blocks.thy ===== *)
theory Tests_Blocks
  imports Tests_Transactions Known_Answers Merkle Block Utxo
begin

section \<open>The unit tests of blocks\<close>

text \<open>
  The test functions of \<open>block_header.rs\<close>, \<open>block.rs\<close>, \<open>merkle_tree.rs\<close> and the integration test
  \<open>tests/block_test.rs\<close>, run on the model. The tests that need the real SHA-256 (the Merkle roots of blocks of
  the test network, the headers with and without proof of work) hold for every choice of the parameter
  with that function: the hashes are computed in the logic. The others hold for any hash function.
\<close>

subsection \<open>Headers\<close>

definition generate_block_header :: "(BlockHeader, string) result" where
  "generate_block_header =
     and_then (BlockHeader_unmarshalling (map of_nat [0..<80]) 0) (\<lambda>(block_header, offset). Ok block_header)"

definition test_deserialization_of_header_generates_expected_version :: test where
  [unit_tests]: "test_deserialization_of_header_generates_expected_version =
     and_then generate_block_header (\<lambda>block_header. assert (bh_version block_header = 0x3020100))"

definition test_deserialization_of_header_generates_expected_previous_block_header_hash :: test where
  [unit_tests]: "test_deserialization_of_header_generates_expected_previous_block_header_hash =
     and_then generate_block_header (\<lambda>block_header. assert (previous_block_header_hash block_header =
       [4, 5, 6, 7, 8, 9, 10, 11, 12, 13, 14, 15, 16, 17, 18, 19, 20, 21, 22, 23, 24, 25, 26, 27, 28, 29, 30, 31, 32, 33, 34, 35]))"

definition test_deserialization_of_header_generates_expected_merkle_root_hash :: test where
  [unit_tests]: "test_deserialization_of_header_generates_expected_merkle_root_hash =
     and_then generate_block_header (\<lambda>block_header. assert (merkle_root_hash block_header =
       [36, 37, 38, 39, 40, 41, 42, 43, 44, 45, 46, 47, 48, 49, 50, 51, 52, 53, 54, 55, 56, 57, 58, 59, 60, 61, 62, 63, 64, 65, 66, 67]))"

definition test_deserialization_of_header_generates_expected_time :: test where
  [unit_tests]: "test_deserialization_of_header_generates_expected_time =
     and_then generate_block_header (\<lambda>block_header. assert (bh_time block_header = 0x47464544))"

definition test_deserialization_of_header_generates_expected_nbits :: test where
  [unit_tests]: "test_deserialization_of_header_generates_expected_nbits =
     and_then generate_block_header (\<lambda>block_header. assert (n_bits block_header = 0x4B4A4948))"

definition test_deserialization_of_header_generates_expected_nonce :: test where
  [unit_tests]: "test_deserialization_of_header_generates_expected_nonce =
     and_then generate_block_header (\<lambda>block_header. assert (nonce block_header = 0x4F4E4D4C))"

lemma generated_header:
  "generate_block_header =
     Ok \<lparr>bh_version = 0x3020100, previous_block_header_hash = map of_nat [4..<36], merkle_root_hash = map of_nat [36..<68],
       bh_time = 0x47464544, n_bits = 0x4B4A4948, nonce = 0x4F4E4D4C\<rparr>"
  by (simp add: generate_block_header_def BlockHeader_unmarshalling_def read_array_def read_u32_le_def usize_sub_def slice_def
      upt_rec compute)

lemma header_tests:
  "test_deserialization_of_header_generates_expected_version = Ok ()"
  "test_deserialization_of_header_generates_expected_previous_block_header_hash = Ok ()"
  "test_deserialization_of_header_generates_expected_merkle_root_hash = Ok ()"
  "test_deserialization_of_header_generates_expected_time = Ok ()"
  "test_deserialization_of_header_generates_expected_nbits = Ok ()"
  "test_deserialization_of_header_generates_expected_nonce = Ok ()"
  by (simp_all add: unit_tests generated_header upt_rec)

definition test_successful_serialization_of_version_field :: test where
  [unit_tests]: "test_successful_serialization_of_version_field =
     (let block = BlockHeader_new 50462976 (replicate 32 0) (replicate 32 0) 0 0 0 in
      and_then (BlockHeader_unmarshalling (BlockHeader_marshalling block) 0) (\<lambda>(expected_block, offset).
      assert (bh_version expected_block = 0x3020100)))"

definition test_successful_serialization_of_previous_block_header_hash_field :: test where
  [unit_tests]: "test_successful_serialization_of_previous_block_header_hash_field =
     (let block = BlockHeader_new 0 (replicate 32 1) (replicate 32 0) 0 0 0 in
      and_then (BlockHeader_unmarshalling (BlockHeader_marshalling block) 0) (\<lambda>(expected_block, offset).
      assert (previous_block_header_hash expected_block = replicate 32 1)))"

definition test_successful_serialization_of_merkle_root_hash_field :: test where
  [unit_tests]: "test_successful_serialization_of_merkle_root_hash_field =
     (let block = BlockHeader_new 0 (replicate 32 0) (replicate 32 1) 0 0 0 in
      and_then (BlockHeader_unmarshalling (BlockHeader_marshalling block) 0) (\<lambda>(expected_block, offset).
      assert (merkle_root_hash expected_block = replicate 32 1)))"

definition test_successful_serialization_of_time_field :: test where
  [unit_tests]: "test_successful_serialization_of_time_field =
     (let block = BlockHeader_new 0 (replicate 32 0) (replicate 32 0) 0x03020100 0 0 in
      and_then (BlockHeader_unmarshalling (BlockHeader_marshalling block) 0) (\<lambda>(expected_block, offset).
      assert (bh_time expected_block = 0x03020100)))"

definition test_successful_serialization_of_nbits_field :: test where
  [unit_tests]: "test_successful_serialization_of_nbits_field =
     (let block = BlockHeader_new 0 (replicate 32 0) (replicate 32 0) 0 0x03020100 0 in
      and_then (BlockHeader_unmarshalling (BlockHeader_marshalling block) 0) (\<lambda>(expected_block, offset).
      assert (n_bits expected_block = 0x03020100)))"

definition test_successful_serialization_of_nonce_field :: test where
  [unit_tests]: "test_successful_serialization_of_nonce_field =
     (let block = BlockHeader_new 0 (replicate 32 0) (replicate 32 0) 0 0 0x03020100 in
      and_then (BlockHeader_unmarshalling (BlockHeader_marshalling block) 0) (\<lambda>(expected_block, offset).
      assert (nonce expected_block = 0x03020100)))"

definition test_header_is_hashed_correctly :: "crypto \<Rightarrow> test" where
  [unit_tests]: "test_header_is_hashed_correctly cr =
     (let block_header = BlockHeader_new 0x03020100 (replicate 32 0) (replicate 32 0) 0 0 0;
          block_header_message_expected = foldl (\<lambda>bytes x. bytes[x := of_nat x]) (replicate 80 0) [0..<4] in
      assert (BlockHeader_hash cr block_header = sha256d cr block_header_message_expected))"

definition test_validate_valid_block_returns_true :: "crypto \<Rightarrow> test" where
  [unit_tests]: "test_validate_valid_block_returns_true cr =
     and_then (BlockHeader_validate cr (BlockHeader_new 0 (replicate 32 0) (replicate 32 0) 0 0x20ffffff 0)) assert"

definition test_validate_invalid_block_returns_false :: "crypto \<Rightarrow> test" where
  [unit_tests]: "test_validate_invalid_block_returns_false cr =
     and_then (BlockHeader_validate cr (BlockHeader_new 0 (replicate 32 0) (replicate 32 0) 0 0x10ffffff 0)) (\<lambda>valid. assert (\<not> valid))"

lemma header_serialization_tests:
  "test_successful_serialization_of_version_field = Ok ()"
  "test_successful_serialization_of_previous_block_header_hash_field = Ok ()"
  "test_successful_serialization_of_merkle_root_hash_field = Ok ()"
  "test_successful_serialization_of_time_field = Ok ()"
  "test_successful_serialization_of_nbits_field = Ok ()"
  "test_successful_serialization_of_nonce_field = Ok ()"
  by (simp_all add: unit_tests header.dec_enc_whole wf_header_def BlockHeader_new_def)

lemma header_hash_test: "test_header_is_hashed_correctly cr = Ok ()"
proof -
  have "BlockHeader_marshalling (BlockHeader_new 0x03020100 (replicate 32 0) (replicate 32 0) 0 0 0) =
      foldl (\<lambda>bytes x. bytes[x := of_nat x]) (replicate 80 0) [0..<4]"
    by (simp add: BlockHeader_marshalling_def BlockHeader_new_def up_to_4 compute)
  then show ?thesis by (simp only: unit_tests BlockHeader_hash_def Let_def assert_simps)
qed

lemma easy_digest:
  "sha_256 (sha_256
     [0, 0, 0, 0, 0, 0, 0, 0, 0, 0, 0, 0, 0, 0, 0, 0, 0, 0, 0, 0, 0, 0, 0, 0, 0, 0, 0, 0, 0, 0, 0, 0,
      0, 0, 0, 0, 0, 0, 0, 0, 0, 0, 0, 0, 0, 0, 0, 0, 0, 0, 0, 0, 0, 0, 0, 0, 0, 0, 0, 0, 0, 0, 0, 0,
      0, 0, 0, 0, 0, 0, 0, 0, 255, 255, 255, 32, 0, 0, 0, 0]) =
   [112, 72, 54, 133, 182, 227, 105, 12, 49, 41, 42, 204, 236, 8, 99, 31, 5, 116, 219, 75, 94, 80, 10, 45, 42, 82, 23, 5, 3, 1, 166, 193]"
  by (subst sha_256_twice_eq [where n = 80], simp) (simp only: sha_256_rules)

lemma hard_digest:
  "sha_256 (sha_256
     [0, 0, 0, 0, 0, 0, 0, 0, 0, 0, 0, 0, 0, 0, 0, 0, 0, 0, 0, 0, 0, 0, 0, 0, 0, 0, 0, 0, 0, 0, 0, 0,
      0, 0, 0, 0, 0, 0, 0, 0, 0, 0, 0, 0, 0, 0, 0, 0, 0, 0, 0, 0, 0, 0, 0, 0, 0, 0, 0, 0, 0, 0, 0, 0,
      0, 0, 0, 0, 0, 0, 0, 0, 255, 255, 255, 16, 0, 0, 0, 0]) =
   [111, 13, 81, 102, 128, 30, 40, 210, 73, 241, 39, 120, 237, 63, 150, 27, 173, 76, 91, 139, 47, 232, 74, 132, 253, 222, 239, 130, 50, 60, 248, 6]"
  by (subst sha_256_twice_eq [where n = 80], simp) (simp only: sha_256_rules)

lemma validation_tests:
  assumes "sha256 cr = sha_256"
  shows "test_validate_valid_block_returns_true cr = Ok ()" "test_validate_invalid_block_returns_false cr = Ok ()"
proof -
  let ?easy = "BlockHeader_new 0 (replicate 32 0) (replicate 32 0) 0 0x20ffffff 0"
  let ?hard = "BlockHeader_new 0 (replicate 32 0) (replicate 32 0) 0 0x10ffffff 0"
  have bytes:
    "BlockHeader_marshalling ?easy =
     [0, 0, 0, 0, 0, 0, 0, 0, 0, 0, 0, 0, 0, 0, 0, 0, 0, 0, 0, 0, 0, 0, 0, 0, 0, 0, 0, 0, 0, 0, 0, 0,
      0, 0, 0, 0, 0, 0, 0, 0, 0, 0, 0, 0, 0, 0, 0, 0, 0, 0, 0, 0, 0, 0, 0, 0, 0, 0, 0, 0, 0, 0, 0, 0,
      0, 0, 0, 0, 0, 0, 0, 0, 255, 255, 255, 32, 0, 0, 0, 0]"
    "BlockHeader_marshalling ?hard =
     [0, 0, 0, 0, 0, 0, 0, 0, 0, 0, 0, 0, 0, 0, 0, 0, 0, 0, 0, 0, 0, 0, 0, 0, 0, 0, 0, 0, 0, 0, 0, 0,
      0, 0, 0, 0, 0, 0, 0, 0, 0, 0, 0, 0, 0, 0, 0, 0, 0, 0, 0, 0, 0, 0, 0, 0, 0, 0, 0, 0, 0, 0, 0, 0,
      0, 0, 0, 0, 0, 0, 0, 0, 255, 255, 255, 16, 0, 0, 0, 0]"
    by (simp_all add: BlockHeader_marshalling_def BlockHeader_new_def compute)
  have bits: "bits_exponent ?easy = 32" "bits_mantissa ?easy = 0xffffff" "bits_exponent ?hard = 16" "bits_mantissa ?hard = 0xffffff"
    by (simp_all add: bits_exponent_def bits_mantissa_def BlockHeader_new_def)
  have "meets_target cr ?easy" "\<not> meets_target cr ?hard"
    by (simp_all only: meets_target_def bits BlockHeader_hash_def bytes sha256d_def assms easy_digest hard_digest) simp_all
  then show "test_validate_valid_block_returns_true cr = Ok ()" "test_validate_invalid_block_returns_false cr = Ok ()"
    by (simp_all add: unit_tests BlockHeader_validate_Ok [OF genesis_hashes(2) [OF assms]] bits)
qed

subsection \<open>Merkle trees\<close>

definition MerkleTree_string_to_bytes :: "string \<Rightarrow> (hash32, string) result" where
  "MerkleTree_string_to_bytes =
     tested_string_to_bytes ''The received string is invalid. It does not have the correct length'' 32"

definition generate_hashes :: "(hash32 list, string) result" where
  "generate_hashes =
     traverse (\<lambda>s. and_then (MerkleTree_string_to_bytes s) (\<lambda>vec. Ok (rev vec)))
       [''3bec0ba7b6a530a33d6f5cec64947ca2bc9c7f15dc7b73a33311203a7c53e629'',
        ''c03c2aa43ba796a6d381106416acd7b8dc5f8305de3cbf4c659b2bf8bfed0f18'',
        ''bf0175a17bc77f372657f52c67ea5a18f5b3b0fd04e93a8146fe19b484cb3245'',
        ''aa87fefe302d1cd0634cb1e73f4371f9786787e4968bf87868f397801489a325'',
        ''2d1293d2e0d5a018feddf157931e2842a650acfbf5606867cc78adbe5293c1f6'']"

definition merkle_root_is_generated_correctly_with_testnet_transactions :: "crypto \<Rightarrow> test" where
  [unit_tests]: "merkle_root_is_generated_correctly_with_testnet_transactions cr =
     and_then generate_hashes (\<lambda>bytes_hashes.
     and_then (MerkleTree_string_to_bytes ''50c77c783a4188784c28c135b1f6e37c977931fcadcdeecd8e4130f7c1916d54'') (\<lambda>merkle_root_expected.
     case MerkleTree_new cr bytes_hashes of None \<Rightarrow> Panic | Some merkle_tree \<Rightarrow>
     and_then (get_merkle_root merkle_tree) (\<lambda>root. assert (root = rev merkle_root_expected))))"

definition merkle_proof_of_inclusion_is_generated_correctly_with_tx_at_odd_position :: "crypto \<Rightarrow> test" where
  [unit_tests]: "merkle_proof_of_inclusion_is_generated_correctly_with_tx_at_odd_position cr =
     and_then generate_hashes (\<lambda>txs.
     and_then (MerkleTree_string_to_bytes ''c03c2aa43ba796a6d381106416acd7b8dc5f8305de3cbf4c659b2bf8bfed0f18'') (\<lambda>tx_id_to_find.
     case MerkleTree_new cr txs of None \<Rightarrow> Panic | Some merkle_tree \<Rightarrow>
     and_then (MerkleTree_proof_of_inclusion merkle_tree (rev tx_id_to_find)) (\<lambda>option.
     case option of None \<Rightarrow> Err ''The tx is not found in the merkle tree'' | Some hs \<Rightarrow>
     and_then (make_merkle_proof cr hs (rev tx_id_to_find)) assert)))"

definition merkle_proof_of_inclusion_is_generated_correctly_with_tx_at_even_position :: "crypto \<Rightarrow> test" where
  [unit_tests]: "merkle_proof_of_inclusion_is_generated_correctly_with_tx_at_even_position cr =
     and_then generate_hashes (\<lambda>txs.
     and_then (MerkleTree_string_to_bytes ''3bec0ba7b6a530a33d6f5cec64947ca2bc9c7f15dc7b73a33311203a7c53e629'') (\<lambda>tx_id_to_find.
     case MerkleTree_new cr txs of None \<Rightarrow> Panic | Some merkle_tree \<Rightarrow>
     and_then (MerkleTree_proof_of_inclusion merkle_tree (rev tx_id_to_find)) (\<lambda>option.
     case option of None \<Rightarrow> Err ''The tx is not found in the merkle tree'' | Some hs \<Rightarrow>
     and_then (make_merkle_proof cr hs (rev tx_id_to_find)) assert)))"

definition merkle_proof_of_inclusion_returns_none_when_tx_to_search_is_not_found :: "crypto \<Rightarrow> test" where
  [unit_tests]: "merkle_proof_of_inclusion_returns_none_when_tx_to_search_is_not_found cr =
     and_then generate_hashes (\<lambda>txs.
     and_then (MerkleTree_string_to_bytes ''3bec0ba7b6a530a3346f5cec64947ca2bc9c7f15dc7b73a33311203a7c53e629'') (\<lambda>tx_id_to_find.
     case MerkleTree_new cr txs of None \<Rightarrow> Panic | Some merkle_tree \<Rightarrow>
     and_then (MerkleTree_proof_of_inclusion merkle_tree (rev tx_id_to_find)) (\<lambda>hs. assert (hs = None))))"

lemma tested_strings_1:
  "tested_string_to_bytes m 32 ''3bec0ba7b6a530a33d6f5cec64947ca2bc9c7f15dc7b73a33311203a7c53e629'' = Ok
     [59, 236, 11, 167, 182, 165, 48, 163, 61, 111, 92, 236, 100, 148, 124, 162, 188, 156, 127, 21, 220, 123, 115, 163, 51, 17, 32, 58, 124, 83, 230, 41]"
  by (rule of_hex) (simp_all add: hex2_def hex_digit_def char_of_def bit_0)

lemma tested_strings_2:
  "tested_string_to_bytes m 32 ''c03c2aa43ba796a6d381106416acd7b8dc5f8305de3cbf4c659b2bf8bfed0f18'' = Ok
     [192, 60, 42, 164, 59, 167, 150, 166, 211, 129, 16, 100, 22, 172, 215, 184, 220, 95, 131, 5, 222, 60, 191, 76, 101, 155, 43, 248, 191, 237, 15, 24]"
  by (rule of_hex) (simp_all add: hex2_def hex_digit_def char_of_def bit_0)

lemma tested_strings_3:
  "tested_string_to_bytes m 32 ''bf0175a17bc77f372657f52c67ea5a18f5b3b0fd04e93a8146fe19b484cb3245'' = Ok
     [191, 1, 117, 161, 123, 199, 127, 55, 38, 87, 245, 44, 103, 234, 90, 24, 245, 179, 176, 253, 4, 233, 58, 129, 70, 254, 25, 180, 132, 203, 50, 69]"
  by (rule of_hex) (simp_all add: hex2_def hex_digit_def char_of_def bit_0)

lemma tested_strings_4:
  "tested_string_to_bytes m 32 ''aa87fefe302d1cd0634cb1e73f4371f9786787e4968bf87868f397801489a325'' = Ok
     [170, 135, 254, 254, 48, 45, 28, 208, 99, 76, 177, 231, 63, 67, 113, 249, 120, 103, 135, 228, 150, 139, 248, 120, 104, 243, 151, 128, 20, 137, 163, 37]"
  by (rule of_hex) (simp_all add: hex2_def hex_digit_def char_of_def bit_0)

lemma tested_strings_5:
  "tested_string_to_bytes m 32 ''2d1293d2e0d5a018feddf157931e2842a650acfbf5606867cc78adbe5293c1f6'' = Ok
     [45, 18, 147, 210, 224, 213, 160, 24, 254, 221, 241, 87, 147, 30, 40, 66, 166, 80, 172, 251, 245, 96, 104, 103, 204, 120, 173, 190, 82, 147, 193, 246]"
  by (rule of_hex) (simp_all add: hex2_def hex_digit_def char_of_def bit_0)

lemma tested_strings_6:
  "tested_string_to_bytes m 32 ''50c77c783a4188784c28c135b1f6e37c977931fcadcdeecd8e4130f7c1916d54'' = Ok
     [80, 199, 124, 120, 58, 65, 136, 120, 76, 40, 193, 53, 177, 246, 227, 124, 151, 121, 49, 252, 173, 205, 238, 205, 142, 65, 48, 247, 193, 145, 109, 84]"
  by (rule of_hex) (simp_all add: hex2_def hex_digit_def char_of_def bit_0)

lemma tested_strings_7:
  "tested_string_to_bytes m 32 ''3bec0ba7b6a530a3346f5cec64947ca2bc9c7f15dc7b73a33311203a7c53e629'' = Ok
     [59, 236, 11, 167, 182, 165, 48, 163, 52, 111, 92, 236, 100, 148, 124, 162, 188, 156, 127, 21, 220, 123, 115, 163, 51, 17, 32, 58, 124, 83, 230, 41]"
  by (rule of_hex) (simp_all add: hex2_def hex_digit_def char_of_def bit_0)

lemmas tested_strings = tested_strings_1 tested_strings_2 tested_strings_3 tested_strings_4 tested_strings_5 tested_strings_6 tested_strings_7

lemma testnet_node_1:
  "sha_256 (sha_256
     [41, 230, 83, 124, 58, 32, 17, 51, 163, 115, 123, 220, 21, 127, 156, 188, 162, 124, 148, 100, 236, 92, 111, 61, 163, 48, 165, 182, 167, 11, 236, 59,
      24, 15, 237, 191, 248, 43, 155, 101, 76, 191, 60, 222, 5, 131, 95, 220, 184, 215, 172, 22, 100, 16, 129, 211, 166, 150, 167, 59, 164, 42, 60, 192]) =
   [91, 47, 29, 122, 152, 21, 186, 86, 98, 85, 237, 175, 200, 107, 107, 191, 158, 146, 37, 124, 41, 190, 148, 153, 248, 1, 122, 10, 170, 12, 189, 235]"
  by (subst sha_256_twice_eq [where n = 64], simp) (simp only: sha_256_rules)

lemma testnet_node_2:
  "sha_256 (sha_256
     [69, 50, 203, 132, 180, 25, 254, 70, 129, 58, 233, 4, 253, 176, 179, 245, 24, 90, 234, 103, 44, 245, 87, 38, 55, 127, 199, 123, 161, 117, 1, 191,
      37, 163, 137, 20, 128, 151, 243, 104, 120, 248, 139, 150, 228, 135, 103, 120, 249, 113, 67, 63, 231, 177, 76, 99, 208, 28, 45, 48, 254, 254, 135, 170]) =
   [179, 27, 172, 141, 192, 0, 26, 95, 217, 189, 244, 79, 179, 242, 95, 86, 254, 13, 10, 145, 87, 73, 215, 228, 151, 39, 154, 169, 166, 204, 178, 250]"
  by (subst sha_256_twice_eq [where n = 64], simp) (simp only: sha_256_rules)

lemma testnet_node_3:
  "sha_256 (sha_256
     [246, 193, 147, 82, 190, 173, 120, 204, 103, 104, 96, 245, 251, 172, 80, 166, 66, 40, 30, 147, 87, 241, 221, 254, 24, 160, 213, 224, 210, 147, 18, 45,
      246, 193, 147, 82, 190, 173, 120, 204, 103, 104, 96, 245, 251, 172, 80, 166, 66, 40, 30, 147, 87, 241, 221, 254, 24, 160, 213, 224, 210, 147, 18, 45]) =
   [42, 36, 171, 254, 132, 91, 225, 83, 53, 112, 81, 76, 49, 59, 156, 2, 125, 107, 111, 249, 68, 199, 119, 20, 30, 42, 127, 241, 58, 18, 220, 192]"
  by (subst sha_256_twice_eq [where n = 64], simp) (simp only: sha_256_rules)

lemma testnet_node_4:
  "sha_256 (sha_256
     [91, 47, 29, 122, 152, 21, 186, 86, 98, 85, 237, 175, 200, 107, 107, 191, 158, 146, 37, 124, 41, 190, 148, 153, 248, 1, 122, 10, 170, 12, 189, 235,
      179, 27, 172, 141, 192, 0, 26, 95, 217, 189, 244, 79, 179, 242, 95, 86, 254, 13, 10, 145, 87, 73, 215, 228, 151, 39, 154, 169, 166, 204, 178, 250]) =
   [170, 80, 5, 154, 43, 107, 17, 187, 132, 16, 77, 4, 122, 140, 53, 226, 223, 229, 180, 252, 176, 219, 8, 19, 253, 245, 48, 201, 99, 160, 60, 63]"
  by (subst sha_256_twice_eq [where n = 64], simp) (simp only: sha_256_rules)

lemma testnet_node_5:
  "sha_256 (sha_256
     [42, 36, 171, 254, 132, 91, 225, 83, 53, 112, 81, 76, 49, 59, 156, 2, 125, 107, 111, 249, 68, 199, 119, 20, 30, 42, 127, 241, 58, 18, 220, 192,
      42, 36, 171, 254, 132, 91, 225, 83, 53, 112, 81, 76, 49, 59, 156, 2, 125, 107, 111, 249, 68, 199, 119, 20, 30, 42, 127, 241, 58, 18, 220, 192]) =
   [199, 29, 46, 231, 150, 91, 187, 174, 42, 67, 204, 148, 230, 23, 210, 228, 4, 51, 7, 28, 195, 232, 229, 243, 183, 134, 172, 12, 204, 0, 171, 117]"
  by (subst sha_256_twice_eq [where n = 64], simp) (simp only: sha_256_rules)

lemma testnet_node_6:
  "sha_256 (sha_256
     [170, 80, 5, 154, 43, 107, 17, 187, 132, 16, 77, 4, 122, 140, 53, 226, 223, 229, 180, 252, 176, 219, 8, 19, 253, 245, 48, 201, 99, 160, 60, 63,
      199, 29, 46, 231, 150, 91, 187, 174, 42, 67, 204, 148, 230, 23, 210, 228, 4, 51, 7, 28, 195, 232, 229, 243, 183, 134, 172, 12, 204, 0, 171, 117]) =
   [84, 109, 145, 193, 247, 48, 65, 142, 205, 238, 205, 173, 252, 49, 121, 151, 124, 227, 246, 177, 53, 193, 40, 76, 120, 136, 65, 58, 120, 124, 199, 80]"
  by (subst sha_256_twice_eq [where n = 64], simp) (simp only: sha_256_rules)

lemma generated_hashes:
  "generate_hashes = Ok
     [[41, 230, 83, 124, 58, 32, 17, 51, 163, 115, 123, 220, 21, 127, 156, 188, 162, 124, 148, 100, 236, 92, 111, 61, 163, 48, 165, 182, 167, 11, 236, 59],
      [24, 15, 237, 191, 248, 43, 155, 101, 76, 191, 60, 222, 5, 131, 95, 220, 184, 215, 172, 22, 100, 16, 129, 211, 166, 150, 167, 59, 164, 42, 60, 192],
      [69, 50, 203, 132, 180, 25, 254, 70, 129, 58, 233, 4, 253, 176, 179, 245, 24, 90, 234, 103, 44, 245, 87, 38, 55, 127, 199, 123, 161, 117, 1, 191],
      [37, 163, 137, 20, 128, 151, 243, 104, 120, 248, 139, 150, 228, 135, 103, 120, 249, 113, 67, 63, 231, 177, 76, 99, 208, 28, 45, 48, 254, 254, 135, 170],
      [246, 193, 147, 82, 190, 173, 120, 204, 103, 104, 96, 245, 251, 172, 80, 166, 66, 40, 30, 147, 87, 241, 221, 254, 24, 160, 213, 224, 210, 147, 18, 45]]"
  by (simp add: generate_hashes_def MerkleTree_string_to_bytes_def tested_strings)

lemma merkle_root_5: "merkle_root h [a, b, c, d, e] = h (h (h a b) (h c d)) (h (h e e) (h e e))"
  by (simp add: merkle_root.simps)

lemma leaves_5: "merkle_root h (leaves [a, b, c, d, e]) = h (h (h a b) (h c d)) (h (h e e) (h e e))"
  by (simp add: leaves_def pad_def merkle_root.simps)

lemma testnet_root_test:
  assumes "sha256 cr = sha_256"
  shows "merkle_root_is_generated_correctly_with_testnet_transactions cr = Ok ()"
  by (simp add: unit_tests generated_hashes MerkleTree_string_to_bytes_def tested_strings MerkleTree_new_eq get_merkle_root_eq leaves_5)
    (simp only: concatenate_and_hash_def sha256d_def assms append.simps testnet_node_1 testnet_node_2 testnet_node_3 testnet_node_4 testnet_node_5 testnet_node_6)

lemma inclusion_tests:
  "merkle_proof_of_inclusion_is_generated_correctly_with_tx_at_odd_position cr = Ok ()"
  "merkle_proof_of_inclusion_is_generated_correctly_with_tx_at_even_position cr = Ok ()"
  "merkle_proof_of_inclusion_returns_none_when_tx_to_search_is_not_found cr = Ok ()"
proof -
  have found: "\<exists>hs. MerkleTree_proof_of_inclusion \<lparr>hashes = tree_from (concatenate_and_hash cr) (leaves xs)\<rparr> x = (Ok (Some hs) :: (_, string) result) \<and>
      make_merkle_proof cr hs x = (Ok True :: (bool, string) result)" if member: "x \<in> set xs" for x xs
  proof -
    obtain ps where ps: "MerkleTree_proof_of_inclusion \<lparr>hashes = tree_from (concatenate_and_hash cr) (leaves xs)\<rparr> x =
        (Ok (Some (ps @ [(merkle_root (concatenate_and_hash cr) (leaves xs), False)])) :: (_, string) result)"
      and root: "merkle_proof_loop cr ps x = merkle_root (concatenate_and_hash cr) (leaves xs)"
      using proof_of_inclusion_member [OF member, of cr, where 'e = string] by blast
    have "make_merkle_proof cr (ps @ [(merkle_root (concatenate_and_hash cr) (leaves xs), False)]) x = (Ok True :: (bool, string) result)"
      by (simp add: make_merkle_proof_snoc root)
    with ps show ?thesis by blast
  qed
  have odd: "[24, 15, 237, 191, 248, 43, 155, 101, 76, 191, 60, 222, 5, 131, 95, 220, 184, 215, 172, 22, 100, 16, 129, 211, 166, 150, 167, 59, 164, 42, 60, 192] \<in>
      set [[41, 230, 83, 124, 58, 32, 17, 51, 163, 115, 123, 220, 21, 127, 156, 188, 162, 124, 148, 100, 236, 92, 111, 61, 163, 48, 165, 182, 167, 11, 236, 59],
      [24, 15, 237, 191, 248, 43, 155, 101, 76, 191, 60, 222, 5, 131, 95, 220, 184, 215, 172, 22, 100, 16, 129, 211, 166, 150, 167, 59, 164, 42, 60, 192],
      [69, 50, 203, 132, 180, 25, 254, 70, 129, 58, 233, 4, 253, 176, 179, 245, 24, 90, 234, 103, 44, 245, 87, 38, 55, 127, 199, 123, 161, 117, 1, 191],
      [37, 163, 137, 20, 128, 151, 243, 104, 120, 248, 139, 150, 228, 135, 103, 120, 249, 113, 67, 63, 231, 177, 76, 99, 208, 28, 45, 48, 254, 254, 135, 170],
      [246, 193, 147, 82, 190, 173, 120, 204, 103, 104, 96, 245, 251, 172, 80, 166, 66, 40, 30, 147, 87, 241, 221, 254, 24, 160, 213, 224, 210, 147, 18, 45]]"
    by simp
  have even: "[41, 230, 83, 124, 58, 32, 17, 51, 163, 115, 123, 220, 21, 127, 156, 188, 162, 124, 148, 100, 236, 92, 111, 61, 163, 48, 165, 182, 167, 11, 236, 59] \<in>
      set [[41, 230, 83, 124, 58, 32, 17, 51, 163, 115, 123, 220, 21, 127, 156, 188, 162, 124, 148, 100, 236, 92, 111, 61, 163, 48, 165, 182, 167, 11, 236, 59],
      [24, 15, 237, 191, 248, 43, 155, 101, 76, 191, 60, 222, 5, 131, 95, 220, 184, 215, 172, 22, 100, 16, 129, 211, 166, 150, 167, 59, 164, 42, 60, 192],
      [69, 50, 203, 132, 180, 25, 254, 70, 129, 58, 233, 4, 253, 176, 179, 245, 24, 90, 234, 103, 44, 245, 87, 38, 55, 127, 199, 123, 161, 117, 1, 191],
      [37, 163, 137, 20, 128, 151, 243, 104, 120, 248, 139, 150, 228, 135, 103, 120, 249, 113, 67, 63, 231, 177, 76, 99, 208, 28, 45, 48, 254, 254, 135, 170],
      [246, 193, 147, 82, 190, 173, 120, 204, 103, 104, 96, 245, 251, 172, 80, 166, 66, 40, 30, 147, 87, 241, 221, 254, 24, 160, 213, 224, 210, 147, 18, 45]]"
    by simp
  from found [OF odd] show "merkle_proof_of_inclusion_is_generated_correctly_with_tx_at_odd_position cr = Ok ()"
    by (auto simp: unit_tests generated_hashes MerkleTree_string_to_bytes_def tested_strings MerkleTree_new_eq)
  from found [OF even] show "merkle_proof_of_inclusion_is_generated_correctly_with_tx_at_even_position cr = Ok ()"
    by (auto simp: unit_tests generated_hashes MerkleTree_string_to_bytes_def tested_strings MerkleTree_new_eq)
  show "merkle_proof_of_inclusion_returns_none_when_tx_to_search_is_not_found cr = Ok ()"
    by (simp add: unit_tests generated_hashes MerkleTree_string_to_bytes_def tested_strings MerkleTree_new_eq
        proof_of_inclusion_not_member)
qed

subsection \<open>Blocks\<close>

definition Block_string_to_bytes :: "string \<Rightarrow> (hash32, string) result" where
  "Block_string_to_bytes =
     tested_string_to_bytes ''Invalid string. The string must be 64 characters long'' 32"

definition Block_bytes_to_hex_string :: "bytes \<Rightarrow> string" where
  "Block_bytes_to_hex_string bytes = concat (map hex2 bytes)"

definition Block_create_txins :: "u128 \<Rightarrow> TxIn list" where
  "Block_create_txins n =
     map (\<lambda>i. TxIn_new (Outpoint_new (replicate 32 1) 0x30000000) (CompactSizeUint_new 1) None (SigScript_new [1]) 0xffffffff)
       [0..<unat n]"

definition Block_create_txouts :: "u128 \<Rightarrow> TxOut list" where
  "Block_create_txouts n = map (\<lambda>i. TxOut_new 43 (CompactSizeUint_new 0) []) [0..<unat n]"

definition Block_create_transaction :: "i32 \<Rightarrow> u128 \<Rightarrow> u128 \<Rightarrow> u32 \<Rightarrow> Transaction" where
  "Block_create_transaction v tx_in_count tx_out_count lt =
     Transaction_new v (CompactSizeUint_new tx_in_count) (Block_create_txins tx_in_count)
       (CompactSizeUint_new tx_out_count) (Block_create_txouts tx_out_count) lt"

text \<open>The header and the bytes that the three tests of the parser write out.\<close>

definition tested_block_header :: BlockHeader where
  "tested_block_header =
     BlockHeader_new 0x30201000 (replicate 32 1) (replicate 32 2) 0x90807060 0x04030201 0x30"

definition tested_block_bytes :: "Transaction \<Rightarrow> bytes" where
  "tested_block_bytes tx =
     BlockHeader_marshalling tested_block_header @ CompactSizeUint_marshalling (CompactSizeUint_new 1) @ Transaction_marshalling tx"

definition test_unmarshaling_block_generates_expected_block_header :: test where
  [unit_tests]: "test_unmarshaling_block_generates_expected_block_header =
     (let tx = Block_create_transaction (- 34) 4 3 3 in
      and_then (Block_unmarshalling (tested_block_bytes tx) 0) (\<lambda>(block, offset).
      assert (block_header block = tested_block_header)))"

definition test_unmarshaling_block_generates_expected_txn_count :: test where
  [unit_tests]: "test_unmarshaling_block_generates_expected_txn_count =
     (let tx = Block_create_transaction (- 34) 4 3 3 in
      and_then (Block_unmarshalling (tested_block_bytes tx) 0) (\<lambda>(block, offset).
      assert (txn_count block = CompactSizeUint_new 1)))"

definition test_unmarshaling_block_generates_expected_transaction :: test where
  [unit_tests]: "test_unmarshaling_block_generates_expected_transaction =
     (let tx = Block_create_transaction 100 1 1 3 in
      and_then (Block_unmarshalling (tested_block_bytes tx) 0) (\<lambda>(block, offset).
      and_then (index_at (txn block) 0) (\<lambda>first. assert (first = tx))))"

definition test_merkle_root_of_block_with_2_transactions_is_generated_correctly :: "crypto \<Rightarrow> test" where
  [unit_tests]: "test_merkle_root_of_block_with_2_transactions_is_generated_correctly cr =
     (let txs = [Block_create_transaction (- 34) 4 3 3, Block_create_transaction 34 5 3 3];
          expected_hash = concatenate_and_hash cr (Transaction_hash cr (txs ! 0)) (Transaction_hash cr (txs ! 1));
          block = Block_new tested_block_header (CompactSizeUint_new 2) txs in
      and_then (generate_merkle_root cr block) (\<lambda>root. assert (root = expected_hash)))"

definition test_merkle_root_of_block_with_3_transactions_is_generated_correctly :: "crypto \<Rightarrow> test" where
  [unit_tests]: "test_merkle_root_of_block_with_3_transactions_is_generated_correctly cr =
     (let txs = [Block_create_transaction (- 34) 4 3 3, Block_create_transaction (- 34) 9 3 67, Block_create_transaction 39 4 2 3];
          expected_hash_1 = concatenate_and_hash cr (Transaction_hash cr (txs ! 0)) (Transaction_hash cr (txs ! 1));
          expected_hash_2 = concatenate_and_hash cr (Transaction_hash cr (txs ! 2)) (Transaction_hash cr (txs ! 2));
          expected_hash_final = concatenate_and_hash cr expected_hash_1 expected_hash_2;
          block = Block_new tested_block_header (CompactSizeUint_new 3) txs in
      and_then (generate_merkle_root cr block) (\<lambda>root. assert (root = expected_hash_final)))"

definition test_correct_generation_of_merkle_root_hash_of_mainnet_block :: "crypto \<Rightarrow> test" where
  [unit_tests]: "test_correct_generation_of_merkle_root_hash_of_mainnet_block cr =
     and_then (traverse (\<lambda>s. and_then (Block_string_to_bytes s) (\<lambda>tx. Ok (rev tx)))
       [''129f32d171b2a0c4ad5fd21f7504ae483845d311214f79eb927db49dfb28b838'',
        ''aefeb6fb10f2f6a63a3cd4f70f1b7f8b193881a10ae5832a595e938d1630f1b9'',
        ''4b0d8fd869e252803909aed9642bc8af28ebd18f2c4045b9b41679eda0ff79dd'',
        ''dbd558c896afe59a6dce2dc26bc32f4679b336ff0b1c0f2f8aaee846c5732333'',
        ''88030de1d5f1b023893f8258df1796863756d99eef5c91a5528362f73497ac51'']) (\<lambda>transactions.
     case recursive_generation_merkle_root cr transactions of None \<Rightarrow> Panic | Some root \<Rightarrow>
     assert (Block_bytes_to_hex_string (rev root) = ''bc689ae06069c1381eb92aabef250bb576d8aac8aedec9b7533a37351b6dedf8''))"

lemma same_transaction: "Block_create_transaction v ic oc lt = tested_tx v ic oc lt"
  by (simp add: Block_create_transaction_def tested_tx_def Block_create_txins_def create_txin_def Block_create_txouts_def
      create_txout_def)

definition tested_block :: "Transaction \<Rightarrow> Block" where
  "tested_block tx = Block_new tested_block_header (CompactSizeUint_new 1) [tx]"

lemma tested_block_bytes_eq: "tested_block_bytes tx = Block_marshalling (tested_block tx)"
  by (simp add: tested_block_bytes_def tested_block_def Block_marshalling_def Block_new_def)

lemma tested_block_wf: "wf_tx tx \<Longrightarrow> wf_block (tested_block tx)"
  using CompactSizeUint_new_wf [of 1]
  by (simp add: wf_block_def tested_block_def Block_new_def wf_header_def tested_block_header_def BlockHeader_new_def)

lemmas block_reads_back = block.dec_enc_whole [OF tested_block_wf [OF tested_tx_wf]]

lemma block_reading_tests:
  "test_unmarshaling_block_generates_expected_block_header = Ok ()"
  "test_unmarshaling_block_generates_expected_txn_count = Ok ()"
  "test_unmarshaling_block_generates_expected_transaction = Ok ()"
  by (simp_all add: unit_tests Let_def same_transaction tested_block_bytes_eq block_reads_back)
    (simp_all add: tested_block_def Block_new_def index_at_def)

lemma merkle_root_tests:
  "test_merkle_root_of_block_with_2_transactions_is_generated_correctly cr = Ok ()"
  "test_merkle_root_of_block_with_3_transactions_is_generated_correctly cr = Ok ()"
  by (simp_all add: unit_tests Let_def Block_new_def generate_merkle_root_nonempty merkle_root.simps)

lemma mainnet_strings_1:
  "tested_string_to_bytes m 32 ''129f32d171b2a0c4ad5fd21f7504ae483845d311214f79eb927db49dfb28b838'' = Ok
     [18, 159, 50, 209, 113, 178, 160, 196, 173, 95, 210, 31, 117, 4, 174, 72, 56, 69, 211, 17, 33, 79, 121, 235, 146, 125, 180, 157, 251, 40, 184, 56]"
  by (rule of_hex) (simp_all add: hex2_def hex_digit_def char_of_def bit_0)

lemma mainnet_strings_2:
  "tested_string_to_bytes m 32 ''aefeb6fb10f2f6a63a3cd4f70f1b7f8b193881a10ae5832a595e938d1630f1b9'' = Ok
     [174, 254, 182, 251, 16, 242, 246, 166, 58, 60, 212, 247, 15, 27, 127, 139, 25, 56, 129, 161, 10, 229, 131, 42, 89, 94, 147, 141, 22, 48, 241, 185]"
  by (rule of_hex) (simp_all add: hex2_def hex_digit_def char_of_def bit_0)

lemma mainnet_strings_3:
  "tested_string_to_bytes m 32 ''4b0d8fd869e252803909aed9642bc8af28ebd18f2c4045b9b41679eda0ff79dd'' = Ok
     [75, 13, 143, 216, 105, 226, 82, 128, 57, 9, 174, 217, 100, 43, 200, 175, 40, 235, 209, 143, 44, 64, 69, 185, 180, 22, 121, 237, 160, 255, 121, 221]"
  by (rule of_hex) (simp_all add: hex2_def hex_digit_def char_of_def bit_0)

lemma mainnet_strings_4:
  "tested_string_to_bytes m 32 ''dbd558c896afe59a6dce2dc26bc32f4679b336ff0b1c0f2f8aaee846c5732333'' = Ok
     [219, 213, 88, 200, 150, 175, 229, 154, 109, 206, 45, 194, 107, 195, 47, 70, 121, 179, 54, 255, 11, 28, 15, 47, 138, 174, 232, 70, 197, 115, 35, 51]"
  by (rule of_hex) (simp_all add: hex2_def hex_digit_def char_of_def bit_0)

lemma mainnet_strings_5:
  "tested_string_to_bytes m 32 ''88030de1d5f1b023893f8258df1796863756d99eef5c91a5528362f73497ac51'' = Ok
     [136, 3, 13, 225, 213, 241, 176, 35, 137, 63, 130, 88, 223, 23, 150, 134, 55, 86, 217, 158, 239, 92, 145, 165, 82, 131, 98, 247, 52, 151, 172, 81]"
  by (rule of_hex) (simp_all add: hex2_def hex_digit_def char_of_def bit_0)

lemmas mainnet_strings = mainnet_strings_1 mainnet_strings_2 mainnet_strings_3 mainnet_strings_4 mainnet_strings_5

lemma mainnet_node_1:
  "sha_256 (sha_256
     [56, 184, 40, 251, 157, 180, 125, 146, 235, 121, 79, 33, 17, 211, 69, 56, 72, 174, 4, 117, 31, 210, 95, 173, 196, 160, 178, 113, 209, 50, 159, 18,
      185, 241, 48, 22, 141, 147, 94, 89, 42, 131, 229, 10, 161, 129, 56, 25, 139, 127, 27, 15, 247, 212, 60, 58, 166, 246, 242, 16, 251, 182, 254, 174]) =
   [53, 169, 229, 209, 130, 47, 62, 28, 169, 151, 111, 201, 41, 67, 61, 69, 133, 109, 236, 122, 106, 109, 194, 95, 1, 108, 62, 25, 229, 245, 14, 103]"
  by (subst sha_256_twice_eq [where n = 64], simp) (simp only: sha_256_rules)

lemma mainnet_node_2:
  "sha_256 (sha_256
     [221, 121, 255, 160, 237, 121, 22, 180, 185, 69, 64, 44, 143, 209, 235, 40, 175, 200, 43, 100, 217, 174, 9, 57, 128, 82, 226, 105, 216, 143, 13, 75,
      51, 35, 115, 197, 70, 232, 174, 138, 47, 15, 28, 11, 255, 54, 179, 121, 70, 47, 195, 107, 194, 45, 206, 109, 154, 229, 175, 150, 200, 88, 213, 219]) =
   [170, 158, 174, 226, 243, 17, 189, 77, 248, 94, 90, 51, 242, 180, 220, 105, 208, 143, 246, 69, 206, 158, 33, 164, 148, 110, 125, 109, 106, 25, 12, 142]"
  by (subst sha_256_twice_eq [where n = 64], simp) (simp only: sha_256_rules)

lemma mainnet_node_3:
  "sha_256 (sha_256
     [81, 172, 151, 52, 247, 98, 131, 82, 165, 145, 92, 239, 158, 217, 86, 55, 134, 150, 23, 223, 88, 130, 63, 137, 35, 176, 241, 213, 225, 13, 3, 136,
      81, 172, 151, 52, 247, 98, 131, 82, 165, 145, 92, 239, 158, 217, 86, 55, 134, 150, 23, 223, 88, 130, 63, 137, 35, 176, 241, 213, 225, 13, 3, 136]) =
   [87, 205, 88, 137, 201, 161, 57, 164, 45, 103, 28, 237, 35, 248, 124, 73, 13, 197, 9, 141, 88, 138, 236, 94, 224, 128, 183, 52, 225, 69, 155, 6]"
  by (subst sha_256_twice_eq [where n = 64], simp) (simp only: sha_256_rules)

lemma mainnet_node_4:
  "sha_256 (sha_256
     [53, 169, 229, 209, 130, 47, 62, 28, 169, 151, 111, 201, 41, 67, 61, 69, 133, 109, 236, 122, 106, 109, 194, 95, 1, 108, 62, 25, 229, 245, 14, 103,
      170, 158, 174, 226, 243, 17, 189, 77, 248, 94, 90, 51, 242, 180, 220, 105, 208, 143, 246, 69, 206, 158, 33, 164, 148, 110, 125, 109, 106, 25, 12, 142]) =
   [186, 89, 229, 201, 17, 155, 131, 128, 230, 16, 26, 181, 43, 167, 228, 193, 155, 218, 120, 28, 52, 237, 93, 188, 135, 252, 33, 141, 105, 50, 162, 162]"
  by (subst sha_256_twice_eq [where n = 64], simp) (simp only: sha_256_rules)

lemma mainnet_node_5:
  "sha_256 (sha_256
     [87, 205, 88, 137, 201, 161, 57, 164, 45, 103, 28, 237, 35, 248, 124, 73, 13, 197, 9, 141, 88, 138, 236, 94, 224, 128, 183, 52, 225, 69, 155, 6,
      87, 205, 88, 137, 201, 161, 57, 164, 45, 103, 28, 237, 35, 248, 124, 73, 13, 197, 9, 141, 88, 138, 236, 94, 224, 128, 183, 52, 225, 69, 155, 6]) =
   [186, 79, 187, 254, 137, 170, 103, 129, 126, 133, 78, 17, 249, 221, 175, 105, 134, 50, 89, 35, 244, 117, 245, 151, 185, 202, 207, 91, 15, 145, 215, 223]"
  by (subst sha_256_twice_eq [where n = 64], simp) (simp only: sha_256_rules)

lemma mainnet_node_6:
  "sha_256 (sha_256
     [186, 89, 229, 201, 17, 155, 131, 128, 230, 16, 26, 181, 43, 167, 228, 193, 155, 218, 120, 28, 52, 237, 93, 188, 135, 252, 33, 141, 105, 50, 162, 162,
      186, 79, 187, 254, 137, 170, 103, 129, 126, 133, 78, 17, 249, 221, 175, 105, 134, 50, 89, 35, 244, 117, 245, 151, 185, 202, 207, 91, 15, 145, 215, 223]) =
   [248, 237, 109, 27, 53, 55, 58, 83, 183, 201, 222, 174, 200, 170, 216, 118, 181, 11, 37, 239, 171, 42, 185, 30, 56, 193, 105, 96, 224, 154, 104, 188]"
  by (subst sha_256_twice_eq [where n = 64], simp) (simp only: sha_256_rules)

lemma mainnet_root_hex:
  "concat (map hex2 (rev
     [248, 237, 109, 27, 53, 55, 58, 83, 183, 201, 222, 174, 200, 170, 216, 118, 181, 11, 37, 239, 171, 42, 185, 30, 56, 193, 105, 96, 224, 154, 104, 188])) =
   ''bc689ae06069c1381eb92aabef250bb576d8aac8aedec9b7533a37351b6dedf8''"
  by (simp add: hex2_def hex_digit_def char_of_def bit_0)

lemma mainnet_root_test:
  assumes "sha256 cr = sha_256"
  shows "test_correct_generation_of_merkle_root_hash_of_mainnet_block cr = Ok ()"
proof -
  have "merkle_root (concatenate_and_hash cr)
      [[56, 184, 40, 251, 157, 180, 125, 146, 235, 121, 79, 33, 17, 211, 69, 56, 72, 174, 4, 117, 31, 210, 95, 173, 196, 160, 178, 113, 209, 50, 159, 18],
       [185, 241, 48, 22, 141, 147, 94, 89, 42, 131, 229, 10, 161, 129, 56, 25, 139, 127, 27, 15, 247, 212, 60, 58, 166, 246, 242, 16, 251, 182, 254, 174],
       [221, 121, 255, 160, 237, 121, 22, 180, 185, 69, 64, 44, 143, 209, 235, 40, 175, 200, 43, 100, 217, 174, 9, 57, 128, 82, 226, 105, 216, 143, 13, 75],
       [51, 35, 115, 197, 70, 232, 174, 138, 47, 15, 28, 11, 255, 54, 179, 121, 70, 47, 195, 107, 194, 45, 206, 109, 154, 229, 175, 150, 200, 88, 213, 219],
       [81, 172, 151, 52, 247, 98, 131, 82, 165, 145, 92, 239, 158, 217, 86, 55, 134, 150, 23, 223, 88, 130, 63, 137, 35, 176, 241, 213, 225, 13, 3, 136]] =
     [248, 237, 109, 27, 53, 55, 58, 83, 183, 201, 222, 174, 200, 170, 216, 118, 181, 11, 37, 239, 171, 42, 185, 30, 56, 193, 105, 96, 224, 154, 104, 188]"
    by (simp only: merkle_root_5 concatenate_and_hash_def sha256d_def assms append.simps
        mainnet_node_1 mainnet_node_2 mainnet_node_3 mainnet_node_4 mainnet_node_5 mainnet_node_6)
  then show ?thesis
    using mainnet_root_hex
    by (simp add: unit_tests Block_string_to_bytes_def mainnet_strings recursive_generation_merkle_root_eq Block_bytes_to_hex_string_def)
qed

end
