(* ===== verification/Tests_Utxo.thy ===== *)
theory Tests_Utxo
  imports Tests_Transactions Known_Answers Utxo
begin

section \<open>The integration test of blocks and the UTXO set\<close>

text \<open>
  \<open>tests/block_test.rs\<close>: a block with a coinbase transaction of three outputs and a transaction that spends two of
  them leaves four unspent outputs. The count depends on the two transactions having different hashes; they do with the
  real SHA-256, which is computed here for both.
\<close>

definition utxo_test_create_txout :: "i64 \<Rightarrow> TxOut" where
  "utxo_test_create_txout v = TxOut_new v (CompactSizeUint_new 1) [1]"

definition utxo_test_create_tx_outs :: "i64 list \<Rightarrow> TxOut list" where
  "utxo_test_create_tx_outs vs = map utxo_test_create_txout vs"

definition utxo_test_create_txin :: "Outpoint \<Rightarrow> bytes option \<Rightarrow> TxIn" where
  "utxo_test_create_txin po h = TxIn_new po (CompactSizeUint_new 1) h (SigScript_new [1]) 0x20202020"

text \<open>Both vectors have the same length in the test.\<close>

definition utxo_test_create_txins :: "hash32 list \<Rightarrow> u32 list \<Rightarrow> TxIn list" where
  "utxo_test_create_txins hs indexs =
     map (\<lambda>po. utxo_test_create_txin po None) (map (\<lambda>i. Outpoint_new (hs ! i) (indexs ! i)) [0..<length hs])"

definition create_coinbase_output :: Outpoint where
  "create_coinbase_output = Outpoint_new (replicate 32 0) 0xffffffff"

definition utxo_test_create_transaction ::
  "CompactSizeUint \<Rightarrow> TxIn list \<Rightarrow> CompactSizeUint \<Rightarrow> TxOut list \<Rightarrow> Transaction" where
  "utxo_test_create_transaction ic ins oc outs = Transaction_new 1 ic ins oc outs 0x02030405"

definition create_block_header :: BlockHeader where
  "create_block_header = BlockHeader_new 0x30 (replicate 32 0) (replicate 32 0) 0x01 0x10 0x20"

definition tested_coinbase_transaction :: Transaction where
  "tested_coinbase_transaction =
     utxo_test_create_transaction (CompactSizeUint_new 1) [utxo_test_create_txin create_coinbase_output (Some [1, 2])]
       (CompactSizeUint_new 3) (utxo_test_create_tx_outs [1000, 200, 500])"

definition tested_first_transaction :: "hash32 \<Rightarrow> Transaction" where
  "tested_first_transaction coinbase_hash =
     utxo_test_create_transaction (CompactSizeUint_new 2) (utxo_test_create_txins [coinbase_hash, coinbase_hash] [0, 1])
       (CompactSizeUint_new 3) (utxo_test_create_tx_outs [1000, 200, 500])"

definition test_block_with_2_transactions_has_expected_utxo_list_length :: "crypto \<Rightarrow> test" where
  [unit_tests]: "test_block_with_2_transactions_has_expected_utxo_list_length cr =
     (let first = tested_first_transaction (Transaction_hash cr tested_coinbase_transaction);
          block = Block_new create_block_header (CompactSizeUint_new 2) [tested_coinbase_transaction, first] in
      and_then (give_me_utxos cr block Map.empty) (\<lambda>utxo_set.
      assert ((\<Sum>h \<in> dom utxo_set. length (ut_utxos (the (utxo_set h)))) = 4)))"

lemmas utxo_test_defs = utxo_test_create_transaction_def Transaction_new_def Transaction_marshalling_def utxo_test_create_txins_def
  utxo_test_create_txin_def utxo_test_create_tx_outs_def utxo_test_create_txout_def TxIn_new_def TxIn_marshalling_def
  Outpoint_new_def Outpoint_marshalling_def TxOut_new_def TxOut_marshalling_def TxIn_is_coinbase_def SigScript_new_def
  SigScript_get_bytes_def Pubkey_new_def Pubkey_bytes_def CompactSizeUint_marshalling_def CompactSizeUint_value_def small_compact

lemma utxo_test_paddings:
  "padding 84 =
    128 # [0, 0, 0, 0, 0, 0, 0, 0, 0, 0, 0, 0, 0, 0, 0, 0, 0, 0, 0, 0, 0, 0, 0, 0,
     0, 0, 0, 0, 0, 0, 0, 0, 0, 0, 0, 0, 0, 0, 0, 0, 0, 2, 160]"
  "padding 124 =
    128 # [0, 0, 0, 0, 0, 0, 0, 0, 0, 0, 0, 0, 0, 0, 0, 0, 0, 0, 0, 0, 0, 0, 0, 0,
     0, 0, 0, 0, 0, 0, 0, 0, 0, 0, 0, 0, 0, 0, 0, 0, 0, 0, 0, 0, 0, 0, 0, 0,
     0, 0, 0, 0, 0, 0, 0, 0, 0, 0, 0, 0, 0, 0, 0, 0, 0, 3, 224]"
  by (simp_all add: padding_def compute)

lemma tested_coinbase_bytes:
  "Transaction_marshalling tested_coinbase_transaction =
     [1, 0, 0, 0, 1, 0, 0, 0, 0, 0, 0, 0, 0, 0, 0, 0, 0, 0, 0, 0, 0, 0, 0, 0,
      0, 0, 0, 0, 0, 0, 0, 0, 0, 0, 0, 0, 0, 255, 255, 255, 255, 1, 1, 2, 1, 32, 32, 32,
      32, 3, 232, 3, 0, 0, 0, 0, 0, 0, 1, 1, 200, 0, 0, 0, 0, 0, 0, 0, 1, 1, 244, 1,
      0, 0, 0, 0, 0, 0, 1, 1, 5, 4, 3, 2]"
  by (simp add: tested_coinbase_transaction_def utxo_test_defs create_coinbase_output_def compute)

lemma tested_first_bytes:
  "Transaction_marshalling (tested_first_transaction
     [211, 19, 192, 125, 243, 145, 158, 177, 58, 24, 88, 93, 238, 89, 194, 216, 40, 129, 253, 144, 81, 166, 34, 114,
      241, 121, 33, 66, 206, 8, 212, 46]) =
     [1, 0, 0, 0, 2, 211, 19, 192, 125, 243, 145, 158, 177, 58, 24, 88, 93, 238, 89, 194, 216, 40, 129, 253,
      144, 81, 166, 34, 114, 241, 121, 33, 66, 206, 8, 212, 46, 0, 0, 0, 0, 1, 1, 32, 32, 32, 32, 211,
      19, 192, 125, 243, 145, 158, 177, 58, 24, 88, 93, 238, 89, 194, 216, 40, 129, 253, 144, 81, 166, 34, 114, 241,
      121, 33, 66, 206, 8, 212, 46, 1, 0, 0, 0, 1, 1, 32, 32, 32, 32, 3, 232, 3, 0, 0, 0, 0,
      0, 0, 1, 1, 200, 0, 0, 0, 0, 0, 0, 0, 1, 1, 244, 1, 0, 0, 0, 0, 0, 0, 1, 1,
      5, 4, 3, 2]"
  by (simp add: tested_first_transaction_def utxo_test_defs upt_rec compute)

lemma tested_coinbase_digest:
  "sha_256 (sha_256
     [1, 0, 0, 0, 1, 0, 0, 0, 0, 0, 0, 0, 0, 0, 0, 0, 0, 0, 0, 0, 0, 0, 0, 0,
      0, 0, 0, 0, 0, 0, 0, 0, 0, 0, 0, 0, 0, 255, 255, 255, 255, 1, 1, 2, 1, 32, 32, 32,
      32, 3, 232, 3, 0, 0, 0, 0, 0, 0, 1, 1, 200, 0, 0, 0, 0, 0, 0, 0, 1, 1, 244, 1,
      0, 0, 0, 0, 0, 0, 1, 1, 5, 4, 3, 2]) =
     [211, 19, 192, 125, 243, 145, 158, 177, 58, 24, 88, 93, 238, 89, 194, 216, 40, 129, 253, 144, 81, 166, 34, 114,
      241, 121, 33, 66, 206, 8, 212, 46]"
  by (subst sha_256_twice_eq [where n = 84], simp) (simp only: sha_256_rules utxo_test_paddings)

lemma tested_first_digest:
  "sha_256 (sha_256
     [1, 0, 0, 0, 2, 211, 19, 192, 125, 243, 145, 158, 177, 58, 24, 88, 93, 238, 89, 194, 216, 40, 129, 253,
      144, 81, 166, 34, 114, 241, 121, 33, 66, 206, 8, 212, 46, 0, 0, 0, 0, 1, 1, 32, 32, 32, 32, 211,
      19, 192, 125, 243, 145, 158, 177, 58, 24, 88, 93, 238, 89, 194, 216, 40, 129, 253, 144, 81, 166, 34, 114, 241,
      121, 33, 66, 206, 8, 212, 46, 1, 0, 0, 0, 1, 1, 32, 32, 32, 32, 3, 232, 3, 0, 0, 0, 0,
      0, 0, 1, 1, 200, 0, 0, 0, 0, 0, 0, 0, 1, 1, 244, 1, 0, 0, 0, 0, 0, 0, 1, 1,
      5, 4, 3, 2]) =
     [203, 151, 104, 155, 141, 7, 94, 200, 21, 40, 1, 209, 243, 43, 130, 238, 249, 118, 231, 105, 10, 111, 216, 24,
      158, 209, 161, 40, 15, 82, 22, 176]"
  by (subst sha_256_twice_eq [where n = 124], simp) (simp only: sha_256_rules utxo_test_paddings)

lemma tested_hashes:
  assumes "sha256 cr = sha_256"
  shows "Transaction_hash cr tested_coinbase_transaction =
     [211, 19, 192, 125, 243, 145, 158, 177, 58, 24, 88, 93, 238, 89, 194, 216, 40, 129, 253, 144, 81, 166, 34, 114,
      241, 121, 33, 66, 206, 8, 212, 46]"
    "Transaction_hash cr (tested_first_transaction
     [211, 19, 192, 125, 243, 145, 158, 177, 58, 24, 88, 93, 238, 89, 194, 216, 40, 129, 253, 144, 81, 166, 34, 114,
      241, 121, 33, 66, 206, 8, 212, 46]) =
     [203, 151, 104, 155, 141, 7, 94, 200, 21, 40, 1, 209, 243, 43, 130, 238, 249, 118, 231, 105, 10, 111, 216, 24,
      158, 209, 161, 40, 15, 82, 22, 176]"
  by (simp_all only: Transaction_hash_def hash_message_def Let_def if_False sha256d_def assms tested_coinbase_bytes tested_first_bytes
      tested_coinbase_digest tested_first_digest)

lemma tested_kinds:
  "is_coinbase_transaction tested_coinbase_transaction = Ok True"
  "is_coinbase_transaction (tested_first_transaction
     [211, 19, 192, 125, 243, 145, 158, 177, 58, 24, 88, 93, 238, 89, 194, 216, 40, 129, 253, 144, 81, 166, 34, 114,
      241, 121, 33, 66, 206, 8, 212, 46]) = Ok False"
  by (simp_all add: tested_coinbase_transaction_def tested_first_transaction_def utxo_test_defs create_coinbase_output_def
      is_coinbase_transaction_def index_at_def upt_rec)

lemma utxo_list_length_test:
  assumes "sha256 cr = sha_256"
  shows "test_block_with_2_transactions_has_expected_utxo_list_length cr = Ok ()"
proof -
  let ?c = "[211, 19, 192, 125, 243, 145, 158, 177, 58, 24, 88, 93, 238, 89, 194, 216, 40, 129, 253, 144, 81, 166, 34, 114, 241, 121, 33, 66, 206, 8, 212, 46] :: hash32"
  have removed: "get_previous_output_hash (utxo_test_create_txin (Outpoint_new h i) None) = h"
    "get_previous_output_index (utxo_test_create_txin (Outpoint_new h i) None) = unat i" for h i
    by (simp_all add: utxo_test_create_txin_def TxIn_new_def Outpoint_new_def get_previous_output_hash_def
        get_previous_output_index_def Outpoint_hash_def Outpoint_index_def)
  have ins: "tx_in (tested_first_transaction ?c) =
      [utxo_test_create_txin (Outpoint_new ?c 0) None, utxo_test_create_txin (Outpoint_new ?c 1) None]"
    and outs: "length (tx_out (tested_first_transaction ?c)) = 3" "length (tx_out tested_coinbase_transaction) = 3"
    by (simp_all add: tested_first_transaction_def tested_coinbase_transaction_def utxo_test_create_transaction_def Transaction_new_def
        utxo_test_create_txins_def utxo_test_create_tx_outs_def upt_rec)
  obtain a b c where out: "tx_out tested_coinbase_transaction = [a, b, c]"
    using outs(2) by (auto simp: numeral_eq_Suc length_Suc_conv)
  show ?thesis
    by (simp add: unit_tests Let_def tested_hashes [OF assms] Block_new_def give_me_utxos_def tested_kinds load_utxos_def
        remove_utxos_def ins removed out outs UtxoTuple_new_def remove_utxo_def upt_rec insert_commute)
qed

end
