(* ===== verification/Tests_Messages.thy ===== *)
theory Tests_Messages
  imports Tests_Transactions Version Listener
begin

section \<open>The unit tests of messages\<close>

text \<open>
  The test functions of \<open>headers_message.rs\<close>, \<open>message_header.rs\<close>, \<open>get_data_payload.rs\<close>, \<open>get_data_message.rs\<close>,
  \<open>getheaders_payload.rs\<close>, \<open>version_payload.rs\<close> and \<open>node_message_handler.rs\<close>, run on the model. None depends on what
  the hash function is.
\<close>

subsection \<open>The version payload\<close>

text \<open>
  The captured payload that the tests repeat. In the first ten its byte 80 says that the user agent has 15 bytes,
  in the others 16, which is right; none of the first ten reads it.
\<close>

definition captured_payload :: "u8 \<Rightarrow> bytes" where
  "captured_payload agent_length =
     [127, 17, 1, 0, 0, 0, 0, 0, 0, 0, 0, 0, 253, 244, 83, 100, 0, 0, 0, 0, 1, 0, 0, 0, 0, 0,
      0, 0, 0, 0, 0, 0, 0, 0, 0, 0, 0, 0, 255, 255, 54, 89, 113, 236, 71, 157, 0, 0, 0, 0, 0, 0,
      0, 0, 0, 0, 0, 0, 0, 0, 0, 0, 0, 0, 255, 255, 192, 168, 0, 58, 71, 157, 51, 165, 53, 24, 235, 29,
      226, 36, agent_length, 47, 83, 97, 116, 111, 115, 104, 105, 58, 50, 51, 46, 48, 46, 48, 47, 1, 0, 0, 0, 1]"

definition get_version_from_payload_bytes_returns_the_correct_i32 :: test where
  [unit_tests]: "get_version_from_payload_bytes_returns_the_correct_i32 =
     (let payload_bytes = captured_payload 15 in
      and_then (get_version_from_bytes payload_bytes 0) (\<lambda>(v, counter). assert (70015 = v)))"

definition get_services_from_payload_bytes_returns_the_correct_u64 :: test where
  [unit_tests]: "get_services_from_payload_bytes_returns_the_correct_u64 =
     (let payload_bytes = captured_payload 15 in
      and_then (get_services_from_bytes payload_bytes 4) (\<lambda>(sv, counter). assert (0 = sv)))"

definition get_timestamp_from_payload_bytes_returns_the_correct_i64 :: test where
  [unit_tests]: "get_timestamp_from_payload_bytes_returns_the_correct_i64 =
     (let payload_bytes = captured_payload 15 in
      and_then (get_timestamp_from_bytes payload_bytes 12) (\<lambda>(ts, counter).
      and_then (slice payload_bytes 12 20) (\<lambda>expected_bytes. assert (u64_from_le_bytes expected_bytes = ts))))"

definition get_addr_recv_service_from_payload_bytes_returns_the_correct_u64 :: test where
  [unit_tests]: "get_addr_recv_service_from_payload_bytes_returns_the_correct_u64 =
     (let payload_bytes = captured_payload 15 in
      and_then (get_addr_services_from_bytes payload_bytes 20) (\<lambda>(sv, counter). assert (1 = sv)))"

definition get_addr_recv_ip_from_payload_bytes_returns_the_correct_16_bytes_of_ip_direction :: test where
  [unit_tests]: "get_addr_recv_ip_from_payload_bytes_returns_the_correct_16_bytes_of_ip_direction =
     (let payload_bytes = captured_payload 15 in
      and_then (get_addr_ip_from_bytes payload_bytes 28) (\<lambda>(ip, counter).
      and_then (slice payload_bytes 28 44) (\<lambda>expected_bytes. assert (expected_bytes = ip))))"

definition get_addr_recv_port_from_payload_bytes_returns_the_correct_u16 :: test where
  [unit_tests]: "get_addr_recv_port_from_payload_bytes_returns_the_correct_u16 =
     (let payload_bytes = captured_payload 15 in
      and_then (get_addr_port_from_bytes payload_bytes 44) (\<lambda>(port, counter). assert (18333 = port)))"

definition get_addr_trans_service_from_payload_bytes_returns_the_correct_u64 :: test where
  [unit_tests]: "get_addr_trans_service_from_payload_bytes_returns_the_correct_u64 =
     (let payload_bytes = captured_payload 15 in
      and_then (get_addr_services_from_bytes payload_bytes 46) (\<lambda>(sv, counter). assert (0 = sv)))"

definition get_addr_trans_ip_from_payload_bytes_returns_the_correct_16_bytes_of_ip_direction :: test where
  [unit_tests]: "get_addr_trans_ip_from_payload_bytes_returns_the_correct_16_bytes_of_ip_direction =
     (let payload_bytes = captured_payload 15 in
      and_then (get_addr_ip_from_bytes payload_bytes 54) (\<lambda>(ip, counter).
      and_then (slice payload_bytes 54 70) (\<lambda>expected_bytes. assert (expected_bytes = ip))))"

definition get_addr_trans_port_from_payload_bytes_returns_the_correct_u16 :: test where
  [unit_tests]: "get_addr_trans_port_from_payload_bytes_returns_the_correct_u16 =
     (let payload_bytes = captured_payload 15 in
      and_then (get_addr_port_from_bytes payload_bytes 70) (\<lambda>(port, counter). assert (18333 = port)))"

definition get_nonce_from_payload_bytes_returns_the_correct_u64 :: test where
  [unit_tests]: "get_nonce_from_payload_bytes_returns_the_correct_u64 =
     (let payload_bytes = captured_payload 15 in
      and_then (get_nonce_from_bytes payload_bytes 72) (\<lambda>(nc, counter).
      and_then (slice payload_bytes 72 80) (\<lambda>expected_bytes. assert (u64_from_le_bytes expected_bytes = nc))))"

definition get_user_agent_bytes_from_payload_bytes_returns_the_correct_compactsizeuint :: test where
  [unit_tests]: "get_user_agent_bytes_from_payload_bytes_returns_the_correct_compactsizeuint =
     (let payload_bytes = captured_payload 16 in
      and_then (get_user_agent_bytes_from_bytes payload_bytes 80) (\<lambda>(agent_bytes, counter).
      and_then (decoded_value agent_bytes) (\<lambda>n. assert (16 = n))))"

definition get_user_agent_from_payload_bytes_returns_the_correct_string :: test where
  [unit_tests]: "get_user_agent_from_payload_bytes_returns_the_correct_string =
     (let payload_bytes = captured_payload 16 in
      and_then ((\<lambda>bytes counter. get_user_agent_from_bytes bytes counter 16) payload_bytes 81) (\<lambda>(agent, counter). assert (''/Satoshi:23.0.0/'' = agent)))"

definition get_start_height_from_payload_bytes_returns_the_correct_i32 :: test where
  [unit_tests]: "get_start_height_from_payload_bytes_returns_the_correct_i32 =
     (let payload_bytes = captured_payload 16 in
      and_then (get_start_height_from_bytes payload_bytes 97) (\<lambda>(h, counter). assert (1 = h)))"

definition get_relay_from_payload_bytes_returns_the_correct_bool :: test where
  [unit_tests]: "get_relay_from_payload_bytes_returns_the_correct_bool =
     and_then (get_relay_from_bytes (captured_payload 16) 101) (\<lambda>r. assert (True = r))"

text \<open>The two addresses of the tests, \<open>3.34.119.199:18333\<close> and \<open>192.168.0.58:52417\<close>, as the standard library parses them.\<close>

definition version_payload_to_le_bytes_returns_the_correct_bytes :: test where
  [unit_tests]: "version_payload_to_le_bytes_returns_the_correct_bytes =
     (let payload = \<lparr>vp_version = 70015, services = 0, timestamp = 1683229476, addr_recv_service = 1,
            addr_recv_ip = get_ipv6_address_ip (V4 [3, 34, 119, 199] 18333), addr_recv_port = 18333,
            addr_trans_service = 0, addr_trans_ip = get_ipv6_address_ip (V4 [192, 168, 0, 58] 52417), addr_trans_port = 18333,
            vp_nonce = 7954216226337911560, user_agent_bytes = CompactSizeUint_new 16, vp_user_agent = ''/Satoshi:23.0.0/'',
            start_height = 1, relay = True\<rparr>;
          expected_bytes =
     [127, 17, 1, 0, 0, 0, 0, 0, 0, 0, 0, 0, 36, 11, 84, 100, 0, 0, 0, 0, 1, 0, 0, 0, 0, 0,
      0, 0, 0, 0, 0, 0, 0, 0, 0, 0, 0, 0, 255, 255, 3, 34, 119, 199, 71, 157, 0, 0, 0, 0, 0, 0,
      0, 0, 0, 0, 0, 0, 0, 0, 0, 0, 0, 0, 255, 255, 192, 168, 0, 58, 71, 157, 8, 243, 132, 189, 131, 13,
      99, 110, 16, 47, 83, 97, 116, 111, 115, 104, 105, 58, 50, 51, 46, 48, 46, 48, 47, 1, 0, 0, 0, 1] in
      assert (expected_bytes = VersionPayload_to_le_bytes payload))"

definition get_ipv6_address_ip_returns_a_correct_vector_of_16_bytes_representing_ipv6_address_ip :: test where
  [unit_tests]: "get_ipv6_address_ip_returns_a_correct_vector_of_16_bytes_representing_ipv6_address_ip =
     assert ([0, 0, 0, 0, 0, 0, 0, 0, 0, 0, 255, 255, 3, 34, 119, 199] = get_ipv6_address_ip (V4 [3, 34, 119, 199] 18333))"

lemmas payload_readers = get_version_from_bytes_def get_services_from_bytes_def get_timestamp_from_bytes_def
  get_addr_services_from_bytes_def get_addr_ip_from_bytes_def get_addr_port_from_bytes_def get_nonce_from_bytes_def
  get_user_agent_bytes_from_bytes_def get_user_agent_from_bytes_def get_start_height_from_bytes_def get_relay_from_bytes_def
  read_u64_le_def read_u32_le_def read_u16_be_def read_array_def compact_size_defs

lemma agent_text:
  "from_utf8 [47, 83, 97, 116, 111, 115, 104, 105, 58, 50, 51, 46, 48, 46, 48, 47] = Ok ''/Satoshi:23.0.0/''"
  "as_bytes ''/Satoshi:23.0.0/'' = [47, 83, 97, 116, 111, 115, 104, 105, 58, 50, 51, 46, 48, 46, 48, 47]"
  by (simp_all add: from_utf8_def as_bytes_def of_bytes_def char_of_def bit_0 compute)

lemma version_payload_tests:
  "get_version_from_payload_bytes_returns_the_correct_i32 = Ok ()"
  "get_services_from_payload_bytes_returns_the_correct_u64 = Ok ()"
  "get_timestamp_from_payload_bytes_returns_the_correct_i64 = Ok ()"
  "get_addr_recv_service_from_payload_bytes_returns_the_correct_u64 = Ok ()"
  "get_addr_recv_ip_from_payload_bytes_returns_the_correct_16_bytes_of_ip_direction = Ok ()"
  "get_addr_recv_port_from_payload_bytes_returns_the_correct_u16 = Ok ()"
  "get_addr_trans_service_from_payload_bytes_returns_the_correct_u64 = Ok ()"
  "get_addr_trans_ip_from_payload_bytes_returns_the_correct_16_bytes_of_ip_direction = Ok ()"
  "get_addr_trans_port_from_payload_bytes_returns_the_correct_u16 = Ok ()"
  "get_nonce_from_payload_bytes_returns_the_correct_u64 = Ok ()"
  "get_user_agent_bytes_from_payload_bytes_returns_the_correct_compactsizeuint = Ok ()"
  "get_user_agent_from_payload_bytes_returns_the_correct_string = Ok ()"
  "get_start_height_from_payload_bytes_returns_the_correct_i32 = Ok ()"
  "get_relay_from_payload_bytes_returns_the_correct_bool = Ok ()"
  by (simp_all add: unit_tests captured_payload_def payload_readers agent_text compute)

lemma version_payload_written_tests:
  "version_payload_to_le_bytes_returns_the_correct_bytes = Ok ()"
  "get_ipv6_address_ip_returns_a_correct_vector_of_16_bytes_representing_ipv6_address_ip = Ok ()"
  by (simp_all add: unit_tests VersionPayload_to_le_bytes_def get_ipv6_address_ip_def small_compact CompactSizeUint_marshalling_def
      CompactSizeUint_value_def agent_text compute)

subsection \<open>Headers messages\<close>

definition test_deserialization_of_empty_headers_message_does_not_yield_block_headers :: test where
  [unit_tests]: "test_deserialization_of_empty_headers_message_does_not_yield_block_headers =
     and_then (HeadersMessage_unmarshalling (replicate 1 0)) (\<lambda>block_headers. assert (length block_headers = 0))"

definition test_deserialization_of_headers_message_returns_1_block_header :: test where
  [unit_tests]: "test_deserialization_of_headers_message_returns_1_block_header =
     and_then (HeadersMessage_unmarshalling (replicate 82 1)) (\<lambda>block_headers. assert (length block_headers = 1))"

definition test_deserialization_of_headers_message_returns_2_block_headers :: test where
  [unit_tests]: "test_deserialization_of_headers_message_returns_2_block_headers =
     and_then (HeadersMessage_unmarshalling (replicate 163 2)) (\<lambda>block_headers. assert (length block_headers = 2))"

text \<open>The seven assertions that two headers agree, in their fields and in their hash.\<close>

definition assert_same_header :: "crypto \<Rightarrow> BlockHeader \<Rightarrow> BlockHeader \<Rightarrow> test" where
  "assert_same_header cr received expected =
     assert (bh_version received = bh_version expected \<and>
       previous_block_header_hash received = previous_block_header_hash expected \<and>
       merkle_root_hash received = merkle_root_hash expected \<and> bh_time received = bh_time expected \<and>
       n_bits received = n_bits expected \<and> nonce received = nonce expected \<and>
       BlockHeader_hash cr received = BlockHeader_hash cr expected)"

definition test_deserialization_of_headers_message_returns_correct_block_header :: "crypto \<Rightarrow> test" where
  [unit_tests]: "test_deserialization_of_headers_message_returns_correct_block_header cr =
     (let headers_message = map of_nat [1..<83] in
      and_then (HeadersMessage_unmarshalling headers_message) (\<lambda>block_headers.
      and_then (slice headers_message 1 81) (\<lambda>expected_block_header_bytes.
      and_then (BlockHeader_unmarshalling expected_block_header_bytes 0) (\<lambda>(expected_block_header, offset).
      and_then (index_at block_headers 0) (\<lambda>received_block_header.
      assert_same_header cr received_block_header expected_block_header)))))"

definition test_deserialization_of_headers_message_with_515_block_headers :: "crypto \<Rightarrow> test" where
  [unit_tests]: "test_deserialization_of_headers_message_with_515_block_headers cr =
     (let headers_message = CompactSizeUint_value (CompactSizeUint_new 515) @ map of_nat [0..<41718 - 3] in
      and_then (HeadersMessage_unmarshalling headers_message) (\<lambda>block_headers.
      and_then (slice headers_message 3 83) (\<lambda>expected_block_header_bytes.
      and_then (BlockHeader_unmarshalling expected_block_header_bytes 0) (\<lambda>(expected_block_header, offset).
      and_then (index_at block_headers 0) (\<lambda>received_block_header.
      and_then (assert (length block_headers = 515)) (\<lambda>_.
      assert_same_header cr received_block_header expected_block_header))))))"

text \<open>Any 80 bytes are a header, and any \<open>81 n\<close> bytes are \<open>n\<close> headers with the byte after each.\<close>

definition header_at :: "bytes \<Rightarrow> nat \<Rightarrow> BlockHeader" where
  "header_at bs off = BlockHeader_new (u32_from_le_bytes (take 4 (drop off bs))) (take 32 (drop (off + 4) bs))
     (take 32 (drop (off + 36) bs)) (u32_from_le_bytes (take 4 (drop (off + 68) bs)))
     (u32_from_le_bytes (take 4 (drop (off + 72) bs))) (u32_from_le_bytes (take 4 (drop (off + 76) bs)))"

lemma header_at_reads:
  "off + 80 \<le> length bs \<Longrightarrow> BlockHeader_unmarshalling bs off = Ok (header_at bs off, off + 80)"
  by (simp add: BlockHeader_unmarshalling_def read_u32_le_def read_array_def slice_def usize_sub_def header_at_def
      BlockHeader_new_def add.commute add.left_commute)

lemma header_at_slice: "off + 80 \<le> length bs \<Longrightarrow> header_at (take 80 (drop off bs)) 0 = header_at bs off"
  by (simp add: header_at_def take_drop min_def add.commute)

lemma headers_read:
  assumes "off + 81 * n \<le> length bs"
  shows "decode_n read_header_item n bs off = Ok (map (\<lambda>i. header_at bs (off + 81 * i)) [0..<n], off + 81 * n)"
  using assms
proof (induction n arbitrary: off)
  case 0
  then show ?case by simp
next
  case (Suc n)
  have "map (\<lambda>i. header_at bs (off + 81 * i)) [0..<Suc n] = header_at bs off # map (\<lambda>i. header_at bs (off + 81 + 81 * i)) [0..<n]"
    by (simp only: upt_conv_Cons map_Suc_upt [symmetric] list.map map_map) (simp add: algebra_simps)
  with Suc.IH [of "off + 81"] Suc.prems show ?case
    by (simp add: read_header_item_def BLOCK_HEADER_SIZE_def header_at_reads add.commute)
qed

lemma headers_message_read:
  assumes "CompactSizeUint_unmarshalling bs 0 = Ok (c, off)" and "decoded_value c = (Ok m :: (u64, string) result)"
    and "off + 81 * unat m \<le> length bs"
  shows "HeadersMessage_unmarshalling bs = Ok (map (\<lambda>i. header_at bs (off + 81 * i)) [0..<unat m])"
  using assms by (simp add: HeadersMessage_unmarshalling_def headers_read)

lemma first_header_test:
  assumes "off + 80 \<le> length bs" and "0 < n"
  shows "and_then (slice bs off (off + 80)) (\<lambda>expected_bytes.
      and_then (BlockHeader_unmarshalling expected_bytes 0) (\<lambda>(expected, offset).
      and_then (index_at (map (\<lambda>i. header_at bs (off + 81 * i)) [0..<n]) 0) (\<lambda>received.
      assert_same_header cr received expected))) = (Ok () :: test)"
  using assms header_at_reads [of 0 "take 80 (drop off bs)"] header_at_slice [OF assms(1)]
  by (simp add: slice_def index_at_def assert_same_header_def)

lemma headers_message_tests:
  "test_deserialization_of_empty_headers_message_does_not_yield_block_headers = Ok ()"
  "test_deserialization_of_headers_message_returns_1_block_header = Ok ()"
  "test_deserialization_of_headers_message_returns_2_block_headers = Ok ()"
  by (simp_all add: unit_tests headers_message_read compact_size_defs compute)

lemma correct_header_test: "test_deserialization_of_headers_message_returns_correct_block_header cr = Ok ()"
proof -
  let ?bs = "map of_nat [1..<83] :: bytes"
  have "CompactSizeUint_unmarshalling ?bs 0 = Ok (\<lparr>cs_bytes = [1]\<rparr>, 1)"
    by (simp add: compact_size_defs upt_conv_Cons)
  moreover have "decoded_value \<lparr>cs_bytes = [1]\<rparr> = (Ok 1 :: (u64, string) result)"
    by (simp add: compact_size_defs compute)
  ultimately have "HeadersMessage_unmarshalling ?bs = Ok (map (\<lambda>i. header_at ?bs (1 + 81 * i)) [0..<1])"
    using headers_message_read [of ?bs "\<lparr>cs_bytes = [1]\<rparr>" 1 1] by simp
  with first_header_test [of 1 ?bs 1 cr] show ?thesis
    by (simp add: unit_tests Let_def del: upt_Suc)
qed

text \<open>The count of 515 takes three bytes; what the headers are does not matter.\<close>

lemma compact_515: "CompactSizeUint_value (CompactSizeUint_new 515) = [253, 3, 2]"
  by (simp add: compact_size_defs compute)

lemma headers_515_any:
  assumes "length ts = 41715"
  shows "and_then (HeadersMessage_unmarshalling ([253, 3, 2] @ ts)) (\<lambda>block_headers.
      and_then (slice ([253, 3, 2] @ ts) 3 83) (\<lambda>expected_block_header_bytes.
      and_then (BlockHeader_unmarshalling expected_block_header_bytes 0) (\<lambda>(expected_block_header, offset).
      and_then (index_at block_headers 0) (\<lambda>received_block_header.
      and_then (assert (length block_headers = 515)) (\<lambda>_.
      assert_same_header cr received_block_header expected_block_header))))) = (Ok () :: test)"
proof -
  let ?bs = "[253, 3, 2] @ ts"
  have "CompactSizeUint_unmarshalling ?bs 0 = Ok (\<lparr>cs_bytes = [253, 3, 2]\<rparr>, 3)"
    using assms by (simp add: compact_size_defs)
  moreover have "decoded_value \<lparr>cs_bytes = [253, 3, 2]\<rparr> = (Ok 515 :: (u64, string) result)"
    by (simp add: compact_size_defs compute)
  ultimately have "HeadersMessage_unmarshalling ?bs = Ok (map (\<lambda>i. header_at ?bs (3 + 81 * i)) [0..<515])"
    using headers_message_read [of ?bs "\<lparr>cs_bytes = [253, 3, 2]\<rparr>" 3 515] assms by simp
  moreover have "and_then (slice ?bs 3 83) (\<lambda>expected_bytes.
      and_then (BlockHeader_unmarshalling expected_bytes 0) (\<lambda>(expected, offset).
      and_then (index_at (map (\<lambda>i. header_at ?bs (3 + 81 * i)) [0..<515]) 0) (\<lambda>received.
      assert_same_header cr received expected))) = (Ok () :: test)"
    using first_header_test [of 3 ?bs 515 cr] assms by simp
  ultimately show ?thesis
    by (simp add: length_map del: upt_rec_numeral)
qed

lemma headers_515_test: "test_deserialization_of_headers_message_with_515_block_headers cr = Ok ()"
proof -
  have "length (map of_nat [0..<41718 - 3] :: bytes) = 41715"
    by (simp only: length_map length_upt)
  from headers_515_any [OF this, of cr] show ?thesis
    by (simp only: unit_tests Let_def compact_515)
qed

subsection \<open>Message headers\<close>

definition header_message_bytes_from_verack_message_unmarshalling_correctly :: test where
  [unit_tests]: "header_message_bytes_from_verack_message_unmarshalling_correctly =
     (let header_message_bytes = [11, 17, 9, 7, 118, 101, 114, 97, 99, 107, 0, 0, 0, 0, 0, 0, 0, 0, 0, 0, 93, 246, 224, 226] in
      and_then (HeaderMessage_from_le_bytes header_message_bytes) (\<lambda>header.
      assert (start_string header = [11, 17, 9, 7] \<and> command_name header = ''verack'' @ replicate 6 (CHR 0x00) \<and>
        payload_size header = 0 \<and> checksum header = [93, 246, 224, 226])))"

definition header_message_bytes_from_version_message_unmarshalling_correctly :: test where
  [unit_tests]: "header_message_bytes_from_version_message_unmarshalling_correctly =
     (let header_message_bytes = [11, 17, 9, 7, 118, 101, 114, 115, 105, 111, 110, 0, 0, 0, 0, 0, 100, 0, 0, 0, 152, 16, 0, 0] in
      and_then (HeaderMessage_from_le_bytes header_message_bytes) (\<lambda>header.
      assert (start_string header = [11, 17, 9, 7] \<and> command_name header = ''version'' @ replicate 5 (CHR 0x00) \<and>
        payload_size header = 100 \<and> checksum header = [152, 16, 0, 0])))"

definition error_when_command_name_bytes_cannot_be_represented_as_string :: test where
  [unit_tests]: "error_when_command_name_bytes_cannot_be_represented_as_string =
     (let header_message_bytes = [11, 17, 9, 7, 12, 101, 114, 13, 240, 111, 110, 1, 0, 0, 0, 11, 100, 0, 0, 0, 152, 16, 0, 0] in
      assert_err (HeaderMessage_from_le_bytes header_message_bytes))"

definition header_message_of_verack_message_marshalling_correctly_to_bytes :: test where
  [unit_tests]: "header_message_of_verack_message_marshalling_correctly_to_bytes =
     (let verack_header_message = \<lparr>start_string = [11, 17, 9, 7], command_name = ''verack'', payload_size = 0,
            checksum = [93, 246, 224, 226]\<rparr> in
      and_then (HeaderMessage_to_le_bytes verack_header_message) (\<lambda>header_message_bytes.
      assert ([11, 17, 9, 7, 118, 101, 114, 97, 99, 107, 0, 0, 0, 0, 0, 0, 0, 0, 0, 0, 93, 246, 224, 226] = header_message_bytes)))"

definition header_message_of_version_message_marshalling_correctly_to_bytes :: test where
  [unit_tests]: "header_message_of_version_message_marshalling_correctly_to_bytes =
     (let version_header_message = \<lparr>start_string = [11, 17, 9, 7], command_name = ''version'', payload_size = 100,
            checksum = [152, 16, 0, 0]\<rparr> in
      and_then (HeaderMessage_to_le_bytes version_header_message) (\<lambda>header_message_bytes.
      assert ([11, 17, 9, 7, 118, 101, 114, 115, 105, 111, 110, 0, 0, 0, 0, 0, 100, 0, 0, 0, 152, 16, 0, 0] = header_message_bytes)))"

lemma message_header_tests:
  "header_message_bytes_from_verack_message_unmarshalling_correctly = Ok ()"
  "header_message_bytes_from_version_message_unmarshalling_correctly = Ok ()"
  "error_when_command_name_bytes_cannot_be_represented_as_string = Ok ()"
  "header_message_of_verack_message_marshalling_correctly_to_bytes = Ok ()"
  "header_message_of_version_message_marshalling_correctly_to_bytes = Ok ()"
  by (simp_all add: unit_tests HeaderMessage_from_le_bytes_def HeaderMessage_to_le_bytes_def command_name_to_bytes_def
      from_utf8_def as_bytes_def of_bytes_def cont_def char_of_def bit_0 compute)

subsection \<open>The payloads of getdata and getheaders\<close>

definition payload_with_one_inventory_is_created_correctly :: test where
  [unit_tests]: "payload_with_one_inventory_is_created_correctly =
     (let inventories = [Inventory_new_block (replicate 32 0)]; payload = get_payload inventories in
      and_then (decoded_value (gd_count payload)) (\<lambda>n. assert (unat n = length inventories)))"

definition payload_with_two_inventory_is_created_correctly :: test where
  [unit_tests]: "payload_with_two_inventory_is_created_correctly =
     (let inventories = [Inventory_new_block (replicate 32 0), Inventory_new_block (replicate 32 0)];
          payload = get_payload inventories in
      and_then (decoded_value (gd_count payload)) (\<lambda>n. assert (unat n = length inventories)))"

definition get_data_message_with_one_inventory_is_created_with_correct_command_name :: "crypto \<Rightarrow> test" where
  [unit_tests]: "get_data_message_with_one_inventory_is_created_with_correct_command_name cr =
     (let inventories = [Inventory_new_block (replicate 32 0)]; message = GetDataMessage_new cr inventories in
      assert (str_contains (command_name (gdm_header message)) ''getdata''))"

definition getheaders_payload_returns_the_correct_bytes_when_marshalling_to_bytes_with_one_locator_hash :: test where
  [unit_tests]: "getheaders_payload_returns_the_correct_bytes_when_marshalling_to_bytes_with_one_locator_hash =
     (let getheaders_payload = \<lparr>gh_version = 70015, hash_count = CompactSizeUint_new 1,
            locator_hashes =
       [[0, 0, 0, 0, 9, 51, 234, 1, 173, 14, 233, 132, 32, 151, 121, 186, 174, 195, 206, 217, 15, 163, 244, 8, 113, 149, 38, 248, 215, 127, 73, 67]],
            stop_hash = replicate 32 0\<rparr>;
          expected_bytes =
     [127, 17, 1, 0, 1, 0, 0, 0, 0, 9, 51, 234, 1, 173, 14, 233, 132, 32, 151, 121, 186, 174,
      195, 206, 217, 15, 163, 244, 8, 113, 149, 38, 248, 215, 127, 73, 67, 0, 0, 0, 0, 0, 0, 0,
      0, 0, 0, 0, 0, 0, 0, 0, 0, 0, 0, 0, 0, 0, 0, 0, 0, 0, 0, 0, 0, 0,
      0, 0, 0] in
      assert (expected_bytes = GetHeadersPayload_to_le_bytes getheaders_payload))"

definition getheaders_payload_returns_the_correct_bytes_when_marshalling_to_bytes_with_more_than_one_locator_hashes :: test where
  [unit_tests]: "getheaders_payload_returns_the_correct_bytes_when_marshalling_to_bytes_with_more_than_one_locator_hashes =
     (let getheaders_payload = \<lparr>gh_version = 70015, hash_count = CompactSizeUint_new 2,
            locator_hashes =
       [[0, 0, 0, 0, 9, 51, 234, 1, 173, 14, 233, 132, 32, 151, 121, 186, 174, 195, 206, 217, 15, 163, 244, 8, 113, 149, 38, 248, 215, 127, 73, 67],
        [0, 0, 0, 0, 9, 51, 234, 1, 173, 14, 233, 132, 32, 151, 121, 186, 174, 195, 206, 217, 15, 163, 244, 8, 113, 149, 38, 248, 215, 127, 73, 68]],
            stop_hash = replicate 32 0\<rparr>;
          expected_bytes =
     [127, 17, 1, 0, 2, 0, 0, 0, 0, 9, 51, 234, 1, 173, 14, 233, 132, 32, 151, 121, 186, 174,
      195, 206, 217, 15, 163, 244, 8, 113, 149, 38, 248, 215, 127, 73, 67, 0, 0, 0, 0, 9, 51, 234,
      1, 173, 14, 233, 132, 32, 151, 121, 186, 174, 195, 206, 217, 15, 163, 244, 8, 113, 149, 38, 248, 215,
      127, 73, 68, 0, 0, 0, 0, 0, 0, 0, 0, 0, 0, 0, 0, 0, 0, 0, 0, 0, 0, 0,
      0, 0, 0, 0, 0, 0, 0, 0, 0, 0, 0, 0, 0] in
      assert (expected_bytes = GetHeadersPayload_to_le_bytes getheaders_payload))"

definition getheaders_payload_returns_the_correct_bytes_when_marshalling_to_bytes_with_more_than_one_locator_hashes_and_stop_hash :: test where
  [unit_tests]: "getheaders_payload_returns_the_correct_bytes_when_marshalling_to_bytes_with_more_than_one_locator_hashes_and_stop_hash =
     (let getheaders_payload = \<lparr>gh_version = 70015, hash_count = CompactSizeUint_new 2,
            locator_hashes =
       [[0, 0, 0, 0, 9, 51, 234, 1, 173, 14, 233, 132, 32, 151, 121, 186, 174, 195, 206, 217, 15, 163, 244, 8, 113, 149, 38, 248, 215, 127, 73, 67],
        [0, 0, 0, 0, 9, 51, 234, 1, 173, 14, 233, 132, 32, 151, 121, 186, 174, 195, 206, 217, 15, 163, 244, 8, 113, 149, 38, 248, 215, 127, 73, 68]],
            stop_hash = [0, 0, 0, 0, 9, 51, 234, 1, 173, 14, 233, 132, 32, 151, 121, 186, 174, 195, 206, 217, 15, 163, 244, 8, 113, 149, 38, 248, 215, 127, 73, 69]\<rparr>;
          expected_bytes =
     [127, 17, 1, 0, 2, 0, 0, 0, 0, 9, 51, 234, 1, 173, 14, 233, 132, 32, 151, 121, 186, 174,
      195, 206, 217, 15, 163, 244, 8, 113, 149, 38, 248, 215, 127, 73, 67, 0, 0, 0, 0, 9, 51, 234,
      1, 173, 14, 233, 132, 32, 151, 121, 186, 174, 195, 206, 217, 15, 163, 244, 8, 113, 149, 38, 248, 215,
      127, 73, 68, 0, 0, 0, 0, 9, 51, 234, 1, 173, 14, 233, 132, 32, 151, 121, 186, 174, 195, 206,
      217, 15, 163, 244, 8, 113, 149, 38, 248, 215, 127, 73, 69] in
      assert (expected_bytes = GetHeadersPayload_to_le_bytes getheaders_payload))"

lemma payload_count_test:
  "length invs < 2 ^ 64 \<Longrightarrow>
     and_then (decoded_value (gd_count (get_payload invs))) (\<lambda>n. assert (unat n = length invs)) = (Ok () :: test)"
  by (simp add: get_payload_def Let_def compact_len_read)

lemma payload_tests:
  "payload_with_one_inventory_is_created_correctly = Ok ()"
  "payload_with_two_inventory_is_created_correctly = Ok ()"
  using payload_count_test [of "[Inventory_new_block (replicate 32 0)]"]
    payload_count_test [of "[Inventory_new_block (replicate 32 0), Inventory_new_block (replicate 32 0)]"]
  by (simp_all only: unit_tests Let_def) simp_all

lemma getdata_name_test: "get_data_message_with_one_inventory_is_created_with_correct_command_name cr = Ok ()"
  by (simp add: unit_tests GetDataMessage_new_def get_data_header_message_def Let_def)

lemma getheaders_payload_tests:
  "getheaders_payload_returns_the_correct_bytes_when_marshalling_to_bytes_with_one_locator_hash = Ok ()"
  "getheaders_payload_returns_the_correct_bytes_when_marshalling_to_bytes_with_more_than_one_locator_hashes = Ok ()"
  "getheaders_payload_returns_the_correct_bytes_when_marshalling_to_bytes_with_more_than_one_locator_hashes_and_stop_hash = Ok ()"
  by (simp_all add: unit_tests GetHeadersPayload_to_le_bytes_def small_compact CompactSizeUint_marshalling_def
      CompactSizeUint_value_def compute)

subsection \<open>Command names\<close>

definition get_header_command_name_as_str_returns_correct_headers_command_name :: test where
  [unit_tests]: "get_header_command_name_as_str_returns_correct_headers_command_name =
     assert (get_header_command_name_as_str (''headers'' @ replicate 5 (CHR 0x00)) = ''headers'')"

definition get_header_command_name_as_str_returns_correct_tx_command_name :: test where
  [unit_tests]: "get_header_command_name_as_str_returns_correct_tx_command_name =
     assert (get_header_command_name_as_str (''tx'' @ replicate 10 (CHR 0x00)) = ''tx'')"

lemma command_name_tests:
  "get_header_command_name_as_str_returns_correct_headers_command_name = Ok ()"
  "get_header_command_name_as_str_returns_correct_tx_command_name = Ok ()"
  by (simp_all add: unit_tests get_header_command_name_as_str_def char_of_def bit_0 compute)

end
