(* ===== verification/Tests_Wallet.thy ===== *)
theory Tests_Wallet
  imports Tests_Support Known_Answers Account
begin

section \<open>The unit tests of addresses, scripts, accounts and the configuration\<close>

text \<open>
  The test functions of \<open>address_decoder.rs\<close>, \<open>account.rs\<close>, \<open>p2pkh_script.rs\<close>, \<open>sig_script.rs\<close> and \<open>config.rs\<close>.
  Those that decode keys and addresses hold with the real SHA-256 and base 58, which are computed. Those that need the
  elliptic curve or RIPEMD-160 hold when these give the public key and the hash that belong to the keys of the tests:
  two facts about libraries outside the sources, \<open>known_keys\<close>.
\<close>

subsection \<open>Base 58 texts of the tests\<close>

definition real_hashes :: "crypto \<Rightarrow> bool" where
  "real_hashes cr \<longleftrightarrow> sha256 cr = sha_256 \<and> bs58_encode cr = base58_encode \<and> bs58_decode cr = base58_decode"

lemma standard_real_hashes: "real_hashes standard_crypto"
  by (simp add: real_hashes_def standard_crypto_def)

text \<open>Two numerals of the same number.\<close>

lemma base58_decode_known:
  assumes "char_digits text = Some ds" and "takeWhile (\<lambda>d. d = 0) ds = replicate k 0" and "hd bs \<noteq> 0"
    and "digits_value 58 ds 0 = digits_value 256 (map unat bs) 0"
  shows "base58_decode text = Inr (replicate k 0 @ bs)"
proof -
  have "hd (map unat bs) \<noteq> 0 \<or> map unat bs = []"
    using assms(3) by (cases bs) (simp_all add: unat_eq_0)
  then have "digits 256 (digits_value 256 (map unat bs) 0) = map unat bs"
    using digits_of_value [of 256 "map unat bs" 0] unat_u8_lt by auto
  then have "convert 58 256 ds = replicate k 0 @ map unat bs"
    by (simp add: convert_def assms)
  then show ?thesis
    by (simp add: base58_decode_def assms(1) comp_def)
qed

lemma position_table:
  "position CHR ''1'' alphabet 0 = Some 0"
  "position CHR ''2'' alphabet 0 = Some 1"
  "position CHR ''3'' alphabet 0 = Some 2"
  "position CHR ''4'' alphabet 0 = Some 3"
  "position CHR ''5'' alphabet 0 = Some 4"
  "position CHR ''6'' alphabet 0 = Some 5"
  "position CHR ''7'' alphabet 0 = Some 6"
  "position CHR ''8'' alphabet 0 = Some 7"
  "position CHR ''9'' alphabet 0 = Some 8"
  "position CHR ''A'' alphabet 0 = Some 9"
  "position CHR ''B'' alphabet 0 = Some 10"
  "position CHR ''C'' alphabet 0 = Some 11"
  "position CHR ''D'' alphabet 0 = Some 12"
  "position CHR ''E'' alphabet 0 = Some 13"
  "position CHR ''F'' alphabet 0 = Some 14"
  "position CHR ''G'' alphabet 0 = Some 15"
  "position CHR ''H'' alphabet 0 = Some 16"
  "position CHR ''J'' alphabet 0 = Some 17"
  "position CHR ''K'' alphabet 0 = Some 18"
  "position CHR ''L'' alphabet 0 = Some 19"
  "position CHR ''M'' alphabet 0 = Some 20"
  "position CHR ''N'' alphabet 0 = Some 21"
  "position CHR ''P'' alphabet 0 = Some 22"
  "position CHR ''Q'' alphabet 0 = Some 23"
  "position CHR ''R'' alphabet 0 = Some 24"
  "position CHR ''S'' alphabet 0 = Some 25"
  "position CHR ''T'' alphabet 0 = Some 26"
  "position CHR ''U'' alphabet 0 = Some 27"
  "position CHR ''V'' alphabet 0 = Some 28"
  "position CHR ''W'' alphabet 0 = Some 29"
  "position CHR ''X'' alphabet 0 = Some 30"
  "position CHR ''Y'' alphabet 0 = Some 31"
  "position CHR ''Z'' alphabet 0 = Some 32"
  "position CHR ''a'' alphabet 0 = Some 33"
  "position CHR ''b'' alphabet 0 = Some 34"
  "position CHR ''c'' alphabet 0 = Some 35"
  "position CHR ''d'' alphabet 0 = Some 36"
  "position CHR ''e'' alphabet 0 = Some 37"
  "position CHR ''f'' alphabet 0 = Some 38"
  "position CHR ''g'' alphabet 0 = Some 39"
  "position CHR ''h'' alphabet 0 = Some 40"
  "position CHR ''i'' alphabet 0 = Some 41"
  "position CHR ''j'' alphabet 0 = Some 42"
  "position CHR ''k'' alphabet 0 = Some 43"
  "position CHR ''m'' alphabet 0 = Some 44"
  "position CHR ''n'' alphabet 0 = Some 45"
  "position CHR ''o'' alphabet 0 = Some 46"
  "position CHR ''p'' alphabet 0 = Some 47"
  "position CHR ''q'' alphabet 0 = Some 48"
  "position CHR ''r'' alphabet 0 = Some 49"
  "position CHR ''s'' alphabet 0 = Some 50"
  "position CHR ''t'' alphabet 0 = Some 51"
  "position CHR ''u'' alphabet 0 = Some 52"
  "position CHR ''v'' alphabet 0 = Some 53"
  "position CHR ''w'' alphabet 0 = Some 54"
  "position CHR ''x'' alphabet 0 = Some 55"
  "position CHR ''y'' alphabet 0 = Some 56"
  "position CHR ''z'' alphabet 0 = Some 57"
  by (simp_all add: alphabet_def)

lemma wif_compressed_decoded:
  "base58_decode ''cMoBjaYS6EraKLNqrNN8DvN93Nnt6pJNfWkYM8pUufYQB5EVZ7SR'' = Inr
     [239, 6, 108, 32, 104, 165, 185, 214, 80, 105, 136, 40, 168, 227, 159, 148, 167, 132, 226, 221, 210, 92, 2, 54, 171, 127, 26, 1, 77, 79, 155, 75,
      73, 1, 113, 103, 7, 122]"
  using base58_decode_known [of "''cMoBjaYS6EraKLNqrNN8DvN93Nnt6pJNfWkYM8pUufYQB5EVZ7SR''" "[35, 20, 46, 10, 42, 33, 31, 25, 5, 13, 49, 33, 18, 19, 21, 48, 49, 21, 21, 7, 12, 53, 21, 8, 2, 21, 45, 51, 5, 47, 17, 21,
      38, 29, 43, 31, 20, 7, 47, 27, 52, 38, 31, 23, 10, 4, 13, 28, 32, 6, 25, 24]" 0
     "[239, 6, 108, 32, 104, 165, 185, 214, 80, 105, 136, 40, 168, 227, 159, 148, 167, 132, 226, 221, 210, 92, 2, 54, 171, 127, 26, 1, 77, 79, 155, 75,
      73, 1, 113, 103, 7, 122]"]
  by (simp add: position_table del: replicate_numeral)

lemma wif_uncompressed_decoded:
  "base58_decode ''91dkDNCCaMp2f91sVQRGgdZRw1QY4aptaeZ4vxEvuG5PvZ9hftJ'' = Inr
     [239, 6, 108, 32, 104, 165, 185, 214, 80, 105, 136, 40, 168, 227, 159, 148, 167, 132, 226, 221, 210, 92, 2, 54, 171, 127, 26, 1, 77, 79, 155, 75,
      73, 158, 17, 245, 247]"
  using base58_decode_known [of "''91dkDNCCaMp2f91sVQRGgdZRw1QY4aptaeZ4vxEvuG5PvZ9hftJ''" "[8, 0, 36, 43, 12, 21, 11, 11, 33, 20, 47, 1, 38, 8, 0, 50, 28, 23, 24, 15, 39, 36, 32, 24, 54, 0, 23, 31, 3, 33, 47, 51,
      33, 37, 32, 3, 53, 55, 13, 53, 52, 15, 4, 22, 53, 32, 8, 40, 38, 51, 17]" 0
     "[239, 6, 108, 32, 104, 165, 185, 214, 80, 105, 136, 40, 168, 227, 159, 148, 167, 132, 226, 221, 210, 92, 2, 54, 171, 127, 26, 1, 77, 79, 155, 75,
      73, 158, 17, 245, 247]"]
  by (simp add: position_table del: replicate_numeral)

lemma wif_incorrect_decoded:
  "base58_decode ''K1dkDNCCaMp2f91sVQRGgdZRw1QY4aptaeZ4vxEvuG5PvZ9hftJ'' = Inr
     [2, 25, 102, 40, 91, 241, 188, 28, 249, 5, 131, 151, 47, 65, 64, 67, 236, 93, 138, 170, 40, 134, 73, 153, 158, 134, 21, 199, 234, 19, 25, 3,
      75, 73, 158, 17, 245, 247]"
  using base58_decode_known [of "''K1dkDNCCaMp2f91sVQRGgdZRw1QY4aptaeZ4vxEvuG5PvZ9hftJ''" "[18, 0, 36, 43, 12, 21, 11, 11, 33, 20, 47, 1, 38, 8, 0, 50, 28, 23, 24, 15, 39, 36, 32, 24, 54, 0, 23, 31, 3, 33, 47, 51,
      33, 37, 32, 3, 53, 55, 13, 53, 52, 15, 4, 22, 53, 32, 8, 40, 38, 51, 17]" 0
     "[2, 25, 102, 40, 91, 241, 188, 28, 249, 5, 131, 151, 47, 65, 64, 67, 236, 93, 138, 170, 40, 134, 73, 153, 158, 134, 21, 199, 234, 19, 25, 3,
      75, 73, 158, 17, 245, 247]"]
  by (simp add: position_table del: replicate_numeral)

lemma second_wif_decoded:
  "base58_decode ''cQojsQ5fSonENC5EnrzzTAWSGX8PB4TBh6GunBxcCdGMJJiLULwZ'' = Inr
     [239, 96, 56, 54, 149, 224, 234, 118, 213, 191, 218, 66, 181, 251, 73, 157, 196, 217, 242, 43, 127, 187, 83, 189, 62, 110, 73, 121, 104, 225, 93, 82,
      156, 1, 237, 172, 197, 208]"
  using base58_decode_known [of "''cQojsQ5fSonENC5EnrzzTAWSGX8PB4TBh6GunBxcCdGMJJiLULwZ''" "[35, 23, 46, 42, 50, 23, 4, 38, 25, 46, 45, 13, 21, 11, 4, 13, 45, 49, 57, 57, 26, 9, 29, 25, 15, 30, 7, 22, 10, 3, 26, 10,
      40, 5, 15, 52, 45, 10, 55, 35, 11, 36, 15, 20, 17, 17, 41, 19, 27, 19, 54, 32]" 0
     "[239, 96, 56, 54, 149, 224, 234, 118, 213, 191, 218, 66, 181, 251, 73, 157, 196, 217, 242, 43, 127, 187, 83, 189, 62, 110, 73, 121, 104, 225, 93, 82,
      156, 1, 237, 172, 197, 208]"]
  by (simp add: position_table del: replicate_numeral)

lemma first_address_decoded:
  "base58_decode ''mnEvYsxexfDEkCx2YLEfzhjrwKKcyAhMqV'' = Inr
     [111, 73, 192, 196, 218, 56, 144, 40, 197, 240, 174, 164, 1, 87, 252, 26, 163, 29, 225, 113, 187, 11, 87, 82, 92]"
  using base58_decode_known [of "''mnEvYsxexfDEkCx2YLEfzhjrwKKcyAhMqV''" "[44, 45, 13, 53, 31, 50, 55, 37, 55, 38, 12, 13, 43, 11, 55, 1, 31, 19, 13, 38, 57, 40, 42, 49, 54, 18, 18, 35, 56, 9, 40, 20,
      48, 28]" 0
     "[111, 73, 192, 196, 218, 56, 144, 40, 197, 240, 174, 164, 1, 87, 252, 26, 163, 29, 225, 113, 187, 11, 87, 82, 92]"]
  by (simp add: position_table del: replicate_numeral)

lemma second_address_decoded:
  "base58_decode ''mpzx6iZ1WX8hLSeDRKdkLatXXPN1GDWVaF'' = Inr
     [111, 104, 4, 157, 166, 108, 164, 60, 174, 202, 218, 134, 73, 111, 233, 122, 115, 242, 31, 49, 54, 221, 117, 13, 160]"
  using base58_decode_known [of "''mpzx6iZ1WX8hLSeDRKdkLatXXPN1GDWVaF''" "[44, 47, 57, 55, 5, 41, 32, 0, 29, 30, 7, 40, 19, 25, 37, 12, 24, 18, 36, 43, 19, 33, 51, 30, 30, 22, 21, 0, 15, 12, 29, 28,
      33, 14]" 0
     "[111, 104, 4, 157, 166, 108, 164, 60, 174, 202, 218, 134, 73, 111, 233, 122, 115, 242, 31, 49, 54, 221, 117, 13, 160]"]
  by (simp add: position_table del: replicate_numeral)

lemma invalid_address_decoded:
  "base58_decode ''1nEvYsxexfDEkCx2YLEfzhjrwKKcyAhMqV'' = Inr
     [0, 1, 240, 63, 196, 205, 21, 1, 244, 22, 41, 96, 5, 167, 110, 182, 30, 144, 0, 162, 251, 195, 11, 87, 82, 92]"
  using base58_decode_known [of "''1nEvYsxexfDEkCx2YLEfzhjrwKKcyAhMqV''" "[0, 45, 13, 53, 31, 50, 55, 37, 55, 38, 12, 13, 43, 11, 55, 1, 31, 19, 13, 38, 57, 40, 42, 49, 54, 18, 18, 35, 56, 9, 40, 20,
      48, 28]" 1
     "[1, 240, 63, 196, 205, 21, 1, 244, 22, 41, 96, 5, 167, 110, 182, 30, 144, 0, 162, 251, 195, 11, 87, 82, 92]"]
  by (simp add: position_table del: replicate_numeral)

lemma other_invalid_address_decoded:
  "base58_decode ''mocD12x6BV3qK71FwG98h5VWZ4qVsbaoi8'' = Inr
     [111, 88, 191, 92, 204, 142, 0, 245, 103, 48, 181, 129, 209, 98, 144, 53, 182, 10, 162, 9, 236, 63, 101, 88, 81]"
  using base58_decode_known [of "''mocD12x6BV3qK71FwG98h5VWZ4qVsbaoi8''" "[44, 46, 35, 12, 0, 1, 55, 5, 10, 28, 2, 48, 18, 6, 0, 14, 54, 15, 8, 7, 40, 4, 28, 29, 32, 3, 48, 28, 50, 34, 33, 46,
      41, 7]" 0
     "[111, 88, 191, 92, 204, 142, 0, 245, 103, 48, 181, 129, 209, 98, 144, 53, 182, 10, 162, 9, 236, 63, 101, 88, 81]"]
  by (simp add: position_table del: replicate_numeral)

lemma wallet_paddings:
  "padding 21 =
     128 # [0, 0, 0, 0, 0, 0, 0, 0, 0, 0, 0, 0, 0, 0, 0, 0, 0, 0, 0, 0, 0, 0, 0, 0, 0, 0, 0, 0, 0, 0, 0, 0,
      0, 0, 0, 0, 0, 0, 0, 0, 0, 168]"
  "padding 22 =
     128 # [0, 0, 0, 0, 0, 0, 0, 0, 0, 0, 0, 0, 0, 0, 0, 0, 0, 0, 0, 0, 0, 0, 0, 0, 0, 0, 0, 0, 0, 0, 0, 0,
      0, 0, 0, 0, 0, 0, 0, 0, 176]"
  by (simp_all add: padding_def compute)

lemma first_address_digest:
  "sha_256 (sha_256
     [111, 73, 192, 196, 218, 56, 144, 40, 197, 240, 174, 164, 1, 87, 252, 26, 163, 29, 225, 113, 187]) =
     [11, 87, 82, 92, 68, 143, 121, 218, 75, 209, 81, 105, 146, 127, 135, 82, 23, 172, 131, 162, 200, 239, 160, 149, 63, 108, 156, 108, 144, 68, 76, 97]"
  by (subst sha_256_twice_eq [where n = 21], simp) (simp only: sha_256_rules wallet_paddings)

lemma second_address_digest:
  "sha_256 (sha_256
     [111, 104, 4, 157, 166, 108, 164, 60, 174, 202, 218, 134, 73, 111, 233, 122, 115, 242, 31, 49, 54]) =
     [221, 117, 13, 160, 88, 132, 45, 22, 244, 101, 130, 154, 104, 155, 86, 176, 255, 135, 232, 226, 236, 222, 95, 1, 113, 114, 200, 195, 205, 39, 52, 139]"
  by (subst sha_256_twice_eq [where n = 21], simp) (simp only: sha_256_rules wallet_paddings)

lemma invalid_address_digest:
  "sha_256 (sha_256
     [0, 1, 240, 63, 196, 205, 21, 1, 244, 22, 41, 96, 5, 167, 110, 182, 30, 144, 0, 162, 251, 195]) =
     [147, 8, 161, 151, 59, 134, 222, 239, 161, 153, 11, 241, 86, 63, 50, 207, 74, 167, 158, 195, 26, 233, 52, 55, 15, 237, 116, 173, 49, 147, 124, 55]"
  by (subst sha_256_twice_eq [where n = 22], simp) (simp only: sha_256_rules wallet_paddings)

lemma other_invalid_address_digest:
  "sha_256 (sha_256
     [111, 88, 191, 92, 204, 142, 0, 245, 103, 48, 181, 129, 209, 98, 144, 53, 182, 10, 162, 9, 236]) =
     [63, 101, 88, 82, 226, 87, 247, 244, 226, 175, 108, 129, 253, 169, 227, 31, 247, 54, 81, 73, 243, 20, 197, 157, 126, 73, 194, 72, 241, 237, 187, 13]"
  by (subst sha_256_twice_eq [where n = 21], simp) (simp only: sha_256_rules wallet_paddings)

lemmas address_digests = first_address_digest second_address_digest invalid_address_digest other_invalid_address_digest
lemmas decoded_texts = wif_compressed_decoded wif_uncompressed_decoded wif_incorrect_decoded second_wif_decoded
  first_address_decoded second_address_decoded invalid_address_decoded other_invalid_address_decoded

subsection \<open>Addresses and keys\<close>

definition string_to_32_bytes :: "string \<Rightarrow> (bytes, string) result" where
  "string_to_32_bytes = tested_string_to_bytes ''The received string is invalid. It doesn't have the correct length'' 32"

definition generate_pubkey_hash :: "crypto \<Rightarrow> bytes \<Rightarrow> (bytes, string) result" where
  "generate_pubkey_hash cr sk =
     and_then (of_sum (secp_pubkey cr sk)) (\<lambda>public_key_compressed. Ok (hash_160 cr public_key_compressed))"

definition test_decoding_wif_compressed_correctly_generates_private_key :: "crypto \<Rightarrow> test" where
  [unit_tests]: "test_decoding_wif_compressed_correctly_generates_private_key cr =
     and_then (string_to_32_bytes ''066C2068A5B9D650698828A8E39F94A784E2DDD25C0236AB7F1A014D4F9B4B49'')
       (\<lambda>expected_private_key_bytes.
     and_then (decode_wif_private_key cr ''cMoBjaYS6EraKLNqrNN8DvN93Nnt6pJNfWkYM8pUufYQB5EVZ7SR'') (\<lambda>sk.
     assert (sk = expected_private_key_bytes)))"

definition test_decoding_wif_uncompressed_correctly_generates_private_key :: "crypto \<Rightarrow> test" where
  [unit_tests]: "test_decoding_wif_uncompressed_correctly_generates_private_key cr =
     and_then (string_to_32_bytes ''066C2068A5B9D650698828A8E39F94A784E2DDD25C0236AB7F1A014D4F9B4B49'')
       (\<lambda>expected_private_key_bytes.
     and_then (decode_wif_private_key cr ''91dkDNCCaMp2f91sVQRGgdZRw1QY4aptaeZ4vxEvuG5PvZ9hftJ'') (\<lambda>sk.
     assert (sk = expected_private_key_bytes)))"

definition test_address_generation_is_correct :: "crypto \<Rightarrow> test" where
  [unit_tests]: "test_address_generation_is_correct cr =
     (let expected_address = ''mnEvYsxexfDEkCx2YLEfzhjrwKKcyAhMqV'' in
      and_then (decode_wif_private_key cr ''cMoBjaYS6EraKLNqrNN8DvN93Nnt6pJNfWkYM8pUufYQB5EVZ7SR'') (\<lambda>private_key_bytes.
      and_then (generate_address cr private_key_bytes) (\<lambda>addr.
      assert (expected_address = addr))))"

definition test_valid_address_decoding_returns_ok :: "crypto \<Rightarrow> test" where
  [unit_tests]: "test_valid_address_decoding_returns_ok cr =
     assert_ok (get_pubkey_hash_from_address cr ''mpzx6iZ1WX8hLSeDRKdkLatXXPN1GDWVaF'')"

definition test_address_decoding_generates_expected_pubkey :: "crypto \<Rightarrow> test" where
  [unit_tests]: "test_address_decoding_generates_expected_pubkey cr =
     and_then (decode_wif_private_key cr ''cMoBjaYS6EraKLNqrNN8DvN93Nnt6pJNfWkYM8pUufYQB5EVZ7SR'') (\<lambda>private_key_bytes.
     and_then (generate_pubkey_hash cr private_key_bytes) (\<lambda>pubkey_hash_expected.
     and_then (get_pubkey_hash_from_address cr ''mnEvYsxexfDEkCx2YLEfzhjrwKKcyAhMqV'') (\<lambda>pubkey_hash_generated.
     assert (pubkey_hash_expected = pubkey_hash_generated))))"

definition test_pub_key_hash_is_generated_with_correct_length :: "crypto \<Rightarrow> test" where
  [unit_tests]: "test_pub_key_hash_is_generated_with_correct_length cr =
     and_then (get_pubkey_hash_from_address cr ''mnEvYsxexfDEkCx2YLEfzhjrwKKcyAhMqV'') (\<lambda>pub_key_hash.
     assert (length pub_key_hash = 20))"

definition test_get_pubkey_hash_with_invalid_address_returns_error :: "crypto \<Rightarrow> test" where
  [unit_tests]: "test_get_pubkey_hash_with_invalid_address_returns_error cr =
     assert_err (get_pubkey_hash_from_address cr ''1nEvYsxexfDEkCx2YLEfzhjrwKKcyAhMqV'')"

text \<open>The private key of the tests, its public key, and the hash of that.\<close>

definition tested_key :: bytes where
  "tested_key =
     [6, 108, 32, 104, 165, 185, 214, 80, 105, 136, 40, 168, 227, 159, 148, 167, 132, 226, 221, 210, 92, 2, 54, 171, 127, 26, 1, 77, 79, 155, 75, 73]"

definition tested_public_key :: bytes where
  "tested_public_key =
     [2, 97, 71, 113, 75, 91, 53, 225, 142, 50, 113, 136, 45, 131, 160, 66, 203, 44, 151, 27, 198, 90, 160, 247, 14, 54, 21, 235, 55, 137, 207, 103,
      103]"

definition tested_pubkey_hash :: bytes where
  "tested_pubkey_hash =
     [73, 192, 196, 218, 56, 144, 40, 197, 240, 174, 164, 1, 87, 252, 26, 163, 29, 225, 113, 187]"

definition second_key :: bytes where
  "second_key =
     [96, 56, 54, 149, 224, 234, 118, 213, 191, 218, 66, 181, 251, 73, 157, 196, 217, 242, 43, 127, 187, 83, 189, 62, 110, 73, 121, 104, 225, 93, 82, 156]"

definition second_public_key :: bytes where
  "second_public_key =
     [3, 69, 236, 10, 168, 107, 175, 100, 237, 98, 110, 232, 107, 74, 118, 193, 42, 146, 213, 246, 221, 28, 29, 110, 70, 88, 226, 102, 102, 21, 61, 175,
      166]"

definition known_keys :: "crypto \<Rightarrow> bool" where
  "known_keys cr \<longleftrightarrow> secp_pubkey cr tested_key = Inr tested_public_key \<and>
     hash_160 cr tested_public_key = tested_pubkey_hash \<and> secp_pubkey cr second_key = Inr second_public_key"

definition known_crypto :: crypto where
  "known_crypto = standard_crypto\<lparr>ripemd160 := (\<lambda>bs. tested_pubkey_hash),
     secp_pubkey := (\<lambda>sk. Inr (if sk = second_key then second_public_key else tested_public_key))\<rparr>"

lemma known_crypto_laws: "real_hashes known_crypto" "known_keys known_crypto"
  by (simp_all add: known_crypto_def real_hashes_def standard_crypto_def known_keys_def hash_160_def tested_key_def second_key_def)

lemma private_key_hex:
  "string_to_32_bytes ''066C2068A5B9D650698828A8E39F94A784E2DDD25C0236AB7F1A014D4F9B4B49'' = Ok tested_key"
  by (simp add: string_to_32_bytes_def read_digit_pairs from_str_radix_16_def hex_val_def utf8_continuation_def tested_key_def)

lemma decoded_keys:
  assumes "real_hashes cr"
  shows "decode_wif_private_key cr ''cMoBjaYS6EraKLNqrNN8DvN93Nnt6pJNfWkYM8pUufYQB5EVZ7SR'' = Ok tested_key"
    "decode_wif_private_key cr ''91dkDNCCaMp2f91sVQRGgdZRw1QY4aptaeZ4vxEvuG5PvZ9hftJ'' = Ok tested_key"
    "decode_wif_private_key cr ''cQojsQ5fSonENC5EnrzzTAWSGX8PB4TBh6GunBxcCdGMJJiLULwZ'' = Ok second_key"
    "assert_err (decode_wif_private_key cr ''K1dkDNCCaMp2f91sVQRGgdZRw1QY4aptaeZ4vxEvuG5PvZ9hftJ'') = (Ok () :: test)"
  using assms
  by (simp_all add: decode_wif_private_key_def real_hashes_def decoded_texts UNCOMPRESSED_WIF_LEN_def COMPRESSED_WIF_LEN_def
      usize_sub_def slice_def copy_exact_def tested_key_def second_key_def)

lemma valid_addresses:
  assumes "real_hashes cr"
  shows "validate_address cr ''mnEvYsxexfDEkCx2YLEfzhjrwKKcyAhMqV'' = Ok ()" "validate_address cr ''mpzx6iZ1WX8hLSeDRKdkLatXXPN1GDWVaF'' = Ok ()"
    "assert_err (validate_address cr ''1nEvYsxexfDEkCx2YLEfzhjrwKKcyAhMqV'') = (Ok () :: test)"
    "assert_err (validate_address cr ''mocD12x6BV3qK71FwG98h5VWZ4qVsbaoi8'') = (Ok () :: test)"
  using assms
  by (simp_all add: validate_address_def real_hashes_def decoded_texts ADDRESS_LEN_def usize_sub_def slice_def address_digests)

lemma address_pubkey_hashes:
  assumes "real_hashes cr"
  shows "get_pubkey_hash_from_address cr ''mnEvYsxexfDEkCx2YLEfzhjrwKKcyAhMqV'' = Ok tested_pubkey_hash"
    "assert_ok (get_pubkey_hash_from_address cr ''mpzx6iZ1WX8hLSeDRKdkLatXXPN1GDWVaF'') = (Ok () :: test)"
  using assms valid_addresses [OF assms]
  by (simp_all add: get_pubkey_hash_from_address_def real_hashes_def decoded_texts usize_sub_def slice_def copy_exact_def
      tested_pubkey_hash_def)

lemma assert_err_and_then: "assert_err r = (Ok () :: test) \<Longrightarrow> assert_err (and_then r f) = (Ok () :: test)"
  by (cases r) simp_all

lemma decoding_tests:
  assumes "real_hashes cr"
  shows "test_decoding_wif_compressed_correctly_generates_private_key cr = Ok ()"
    "test_decoding_wif_uncompressed_correctly_generates_private_key cr = Ok ()"
    "test_valid_address_decoding_returns_ok cr = Ok ()"
    "test_pub_key_hash_is_generated_with_correct_length cr = Ok ()"
    "test_get_pubkey_hash_with_invalid_address_returns_error cr = Ok ()"
  using decoded_keys [OF assms] valid_addresses [OF assms] address_pubkey_hashes [OF assms]
  by (simp_all add: unit_tests private_key_hex tested_pubkey_hash_def get_pubkey_hash_from_address_def [of cr "''1nEvYsxexfDEkCx2YLEfzhjrwKKcyAhMqV''"]
      assert_err_and_then)

lemma generated_address:
  assumes "real_hashes cr" and "known_keys cr"
  shows "generate_address cr tested_key = Ok ''mnEvYsxexfDEkCx2YLEfzhjrwKKcyAhMqV''"
proof -
  have "base58_encode
      [111, 73, 192, 196, 218, 56, 144, 40, 197, 240, 174, 164, 1, 87, 252, 26, 163, 29, 225, 113, 187, 11, 87, 82, 92] = ''mnEvYsxexfDEkCx2YLEfzhjrwKKcyAhMqV''"
    by (rule base58_inverse(2) [OF first_address_decoded])
  with assms show ?thesis
    by (simp add: generate_address_eq known_keys_def address_of_hash_def real_hashes_def tested_pubkey_hash_def address_digests)
qed

lemma key_tests:
  assumes "real_hashes cr" and "known_keys cr"
  shows "test_address_generation_is_correct cr = Ok ()" "test_address_decoding_generates_expected_pubkey cr = Ok ()"
  using assms by (simp_all add: unit_tests decoded_keys generated_address address_pubkey_hashes generate_pubkey_hash_def known_keys_def)

subsection \<open>Accounts\<close>

definition string_to_33_bytes :: "string \<Rightarrow> (bytes, string) result" where
  "string_to_33_bytes = tested_string_to_bytes ''The received string is invalid. It doesn't have the correct length'' 33"

definition test_account_generation_with_compressed_wif_is_successful :: "crypto \<Rightarrow> test" where
  [unit_tests]: "test_account_generation_with_compressed_wif_is_successful cr =
     assert_ok (Account_new cr ''cMoBjaYS6EraKLNqrNN8DvN93Nnt6pJNfWkYM8pUufYQB5EVZ7SR'' ''mnEvYsxexfDEkCx2YLEfzhjrwKKcyAhMqV'')"

definition test_account_generation_with_uncompressed_wif_is_successful :: "crypto \<Rightarrow> test" where
  [unit_tests]: "test_account_generation_with_uncompressed_wif_is_successful cr =
     assert_ok (Account_new cr ''91dkDNCCaMp2f91sVQRGgdZRw1QY4aptaeZ4vxEvuG5PvZ9hftJ'' ''mnEvYsxexfDEkCx2YLEfzhjrwKKcyAhMqV'')"

definition test_account_generation_with_incorrect_wif_fails :: "crypto \<Rightarrow> test" where
  [unit_tests]: "test_account_generation_with_incorrect_wif_fails cr =
     assert_err (Account_new cr ''K1dkDNCCaMp2f91sVQRGgdZRw1QY4aptaeZ4vxEvuG5PvZ9hftJ'' ''mnEvYsxexfDEkCx2YLEfzhjrwKKcyAhMqV'')"

definition test_user_returns_expected_compressed_public_key :: "crypto \<Rightarrow> test" where
  [unit_tests]: "test_user_returns_expected_compressed_public_key cr =
     (let user = \<lparr>private_key = ''cQojsQ5fSonENC5EnrzzTAWSGX8PB4TBh6GunBxcCdGMJJiLULwZ'',
            address = ''mpzx6iZ1WX8hLSeDRKdkLatXXPN1GDWVaF'', utxo_set = [], pending_transactions = [],
            confirmed_transactions = []\<rparr> in
      and_then (string_to_33_bytes ''0345EC0AA86BAF64ED626EE86B4A76C12A92D5F6DD1C1D6E4658E26666153DAFA6'')
        (\<lambda>expected_pubkey.
      and_then (Account_get_pubkey_compressed cr user) (\<lambda>pubkey. assert (pubkey = expected_pubkey))))"

definition test_transaction_to_invalid_address_fails :: "crypto \<Rightarrow> test" where
  [unit_tests]: "test_transaction_to_invalid_address_fails cr =
     and_then (Account_new cr ''cMoBjaYS6EraKLNqrNN8DvN93Nnt6pJNfWkYM8pUufYQB5EVZ7SR'' ''mnEvYsxexfDEkCx2YLEfzhjrwKKcyAhMqV'') (\<lambda>account.
     assert_err (make_transaction cr account ''mocD12x6BV3qK71FwG98h5VWZ4qVsbaoi8'' 1000 10))"

lemma public_key_hex:
  "string_to_33_bytes ''0345EC0AA86BAF64ED626EE86B4A76C12A92D5F6DD1C1D6E4658E26666153DAFA6'' = Ok second_public_key"
  by (simp add: string_to_33_bytes_def read_digit_pairs from_str_radix_16_def hex_val_def utf8_continuation_def second_public_key_def)

definition tested_account :: "string \<Rightarrow> Account" where
  "tested_account wif = \<lparr>private_key = wif, address = ''mnEvYsxexfDEkCx2YLEfzhjrwKKcyAhMqV'', utxo_set = [], pending_transactions = [],
     confirmed_transactions = []\<rparr>"

lemma tested_account_new:
  assumes "real_hashes cr" and "known_keys cr"
  shows "Account_new cr ''cMoBjaYS6EraKLNqrNN8DvN93Nnt6pJNfWkYM8pUufYQB5EVZ7SR'' ''mnEvYsxexfDEkCx2YLEfzhjrwKKcyAhMqV'' =
      Ok (tested_account ''cMoBjaYS6EraKLNqrNN8DvN93Nnt6pJNfWkYM8pUufYQB5EVZ7SR'')"
    "Account_new cr ''91dkDNCCaMp2f91sVQRGgdZRw1QY4aptaeZ4vxEvuG5PvZ9hftJ'' ''mnEvYsxexfDEkCx2YLEfzhjrwKKcyAhMqV'' =
      Ok (tested_account ''91dkDNCCaMp2f91sVQRGgdZRw1QY4aptaeZ4vxEvuG5PvZ9hftJ'')"
  using assms by (simp_all add: Account_new_def decoded_keys validate_address_private_key_def generated_address tested_account_def)

lemma incorrect_wif_test: "real_hashes cr \<Longrightarrow> test_account_generation_with_incorrect_wif_fails cr = Ok ()"
  using decoded_keys(4) by (simp add: unit_tests Account_new_def assert_err_and_then)

lemma account_tests:
  assumes "real_hashes cr" and "known_keys cr"
  shows "test_account_generation_with_compressed_wif_is_successful cr = Ok ()"
    "test_account_generation_with_uncompressed_wif_is_successful cr = Ok ()"
    "test_user_returns_expected_compressed_public_key cr = Ok ()"
    "test_transaction_to_invalid_address_fails cr = Ok ()"
  using assms valid_addresses(4) [OF assms(1)]
  by (simp_all add: unit_tests tested_account_new public_key_hex Account_get_pubkey_compressed_def get_pubkey_compressed_def
      decoded_keys known_keys_def make_transaction_def assert_err_and_then)

subsection \<open>Scripts\<close>

definition test_pk_script_is_generated_with_correct_length :: "crypto \<Rightarrow> test" where
  [unit_tests]: "test_pk_script_is_generated_with_correct_length cr =
     and_then (generate_pubkey_script cr ''mnEvYsxexfDEkCx2YLEfzhjrwKKcyAhMqV'') (\<lambda>script. assert (length script = 25))"

definition test_pk_script_is_generated_with_correct_content :: "crypto \<Rightarrow> test" where
  [unit_tests]: "test_pk_script_is_generated_with_correct_content cr =
     and_then (generate_pubkey_script cr ''mnEvYsxexfDEkCx2YLEfzhjrwKKcyAhMqV'') (\<lambda>script.
     and_then (slice script 0 1) (\<lambda>s. and_then (assert (s = [0x76])) (\<lambda>_.
     and_then (slice script 1 2) (\<lambda>s. and_then (assert (s = [0xA9])) (\<lambda>_.
     and_then (slice script 2 3) (\<lambda>s. and_then (assert (s = [20])) (\<lambda>_.
     and_then (slice script 23 24) (\<lambda>s. and_then (assert (s = [0x88])) (\<lambda>_.
     and_then (slice script 24 25) (\<lambda>s. assert (s = [0xAC])))))))))))"

definition test_p2pkh_script_is_validated_correctly :: "crypto \<Rightarrow> test" where
  [unit_tests]: "test_p2pkh_script_is_validated_correctly cr =
     (let hash = replicate 32 123; addr = ''mnEvYsxexfDEkCx2YLEfzhjrwKKcyAhMqV'' in
      and_then (Account_new cr ''cMoBjaYS6EraKLNqrNN8DvN93Nnt6pJNfWkYM8pUufYQB5EVZ7SR'' addr) (\<lambda>account.
      and_then (generate_pubkey_script cr addr) (\<lambda>p2pkh_script.
      and_then (generate_sig_script cr hash account) (\<lambda>sig.
      and_then (p2pkh_validate cr p2pkh_script (SigScript_get_bytes sig)) (\<lambda>validation. assert validation)))))"

definition test_script_sig_length_is_71_bytes_with_key_type :: "crypto \<Rightarrow> test" where
  [unit_tests]: "test_script_sig_length_is_71_bytes_with_key_type cr =
     and_then (generate_sig cr (replicate 32 123) (replicate 32 14)) (\<lambda>sig. assert (length sig = 71))"

definition test_script_sig_length_is_72_bytes_with_another_key_type :: "crypto \<Rightarrow> test" where
  [unit_tests]: "test_script_sig_length_is_72_bytes_with_another_key_type cr =
     and_then (generate_sig cr (replicate 32 123) (replicate 32 12)) (\<lambda>sig. assert (length sig = 72))"

definition test_signature_is_generated_correctly :: "crypto \<Rightarrow> test" where
  [unit_tests]: "test_signature_is_generated_correctly cr =
     (let hash = replicate 32 123 in
      and_then (Account_new cr ''cMoBjaYS6EraKLNqrNN8DvN93Nnt6pJNfWkYM8pUufYQB5EVZ7SR'' ''mnEvYsxexfDEkCx2YLEfzhjrwKKcyAhMqV'') (\<lambda>account.
      and_then (get_private_key cr account) (\<lambda>key.
      and_then (generate_sig cr hash key) (\<lambda>sig.
      and_then (Account_get_pubkey_compressed cr account) (\<lambda>pubkey.
      and_then (verify_sig cr hash sig pubkey) assert)))))"

lemma tested_script: "real_hashes cr \<Longrightarrow> generate_pubkey_script cr ''mnEvYsxexfDEkCx2YLEfzhjrwKKcyAhMqV'' = Ok (p2pkh_of_hash tested_pubkey_hash)"
  by (simp add: generate_pubkey_script_def address_pubkey_hashes p2pkh_of_hash_def)

lemma script_tests:
  assumes "real_hashes cr"
  shows "test_pk_script_is_generated_with_correct_length cr = Ok ()"
    "test_pk_script_is_generated_with_correct_content cr = Ok ()"
  using assms by (simp_all add: unit_tests tested_script p2pkh_of_hash_def tested_pubkey_hash_def slice_def opcode_defs)

text \<open>
  A signature in DER form has at most 72 bytes. The two lengths that the tests expect are those of the signature that
  the library makes, without the byte that is appended.
\<close>

lemma signature_tests:
  assumes "real_hashes cr" and "known_keys cr" and sig: "ecdsa_sign cr tested_key (replicate 32 123) = Inr sig"
    and "length sig \<le> 72"
  shows "test_p2pkh_script_is_validated_correctly cr = Ok ()"
    and "sign_verifies cr \<Longrightarrow> test_signature_is_generated_correctly cr = Ok ()"
proof -
  have acct: "get_private_key cr (tested_account ''cMoBjaYS6EraKLNqrNN8DvN93Nnt6pJNfWkYM8pUufYQB5EVZ7SR'') = Ok tested_key"
    "Account_get_pubkey_compressed cr (tested_account ''cMoBjaYS6EraKLNqrNN8DvN93Nnt6pJNfWkYM8pUufYQB5EVZ7SR'') = Ok tested_public_key"
    using assms(1,2)
    by (simp_all add: get_private_key_def Account_get_pubkey_compressed_def get_pubkey_compressed_def tested_account_def decoded_keys
        known_keys_def)
  have len: "length tested_public_key = 33" "length tested_pubkey_hash = 20"
    by (simp_all add: tested_public_key_def tested_pubkey_hash_def)
  have script: "generate_sig_script cr (replicate 32 123) (tested_account ''cMoBjaYS6EraKLNqrNN8DvN93Nnt6pJNfWkYM8pUufYQB5EVZ7SR'') =
      Ok (SigScript_new (of_nat (length sig + 1) # (sig @ [1]) @ 33 # tested_public_key))"
    by (simp add: generate_sig_script_def acct generate_sig_def sig len del: replicate_numeral)
  have "unat (of_nat (length sig + 1) :: u8) = length sig + 1"
    by (subst unat_of_nat) (use assms(4) in simp)
  then have "unat (1 + of_nat (length sig) :: u8) = Suc (length sig)"
    by simp
  moreover have "hash_160 cr tested_public_key = tested_pubkey_hash"
    using assms(2) by (simp add: known_keys_def)
  ultimately have "p2pkh_validate cr (p2pkh_of_hash tested_pubkey_hash)
      (of_nat (length sig + 1) # (sig @ [1]) @ 33 # tested_public_key) = Ok True"
    using len by (simp add: p2pkh_validate_def p2pkh_of_hash_def index_at_def slice_def copy_exact_def opcode_defs Let_def)
  then show "test_p2pkh_script_is_validated_correctly cr = Ok ()"
    using tested_account_new [OF assms(1,2)] script
    by (simp only: unit_tests Let_def tested_script [OF assms(1)] and_then.simps SigScript_new_def SigScript_get_bytes_def
        SigScript.simps assert_simps)
  show "test_signature_is_generated_correctly cr = Ok ()" if "sign_verifies cr"
  proof -
    have "ecdsa_verify cr tested_public_key (replicate 32 123) sig = Inr True"
      using that assms(2) sig by (auto simp: sign_verifies_def known_keys_def)
    then show ?thesis
      using tested_account_new [OF assms(1,2)] sig
      by (simp add: unit_tests acct generate_sig_def verify_sig_def usize_sub_def slice_def del: replicate_numeral)
  qed
qed

lemma signature_length_tests:
  "ecdsa_sign cr (replicate 32 14) (replicate 32 123) = Inr sig \<Longrightarrow>
     test_script_sig_length_is_71_bytes_with_key_type cr = Ok () \<longleftrightarrow> length sig = 70"
  "ecdsa_sign cr (replicate 32 12) (replicate 32 123) = Inr sig \<Longrightarrow>
     test_script_sig_length_is_72_bytes_with_another_key_type cr = Ok () \<longleftrightarrow> length sig = 71"
  by (simp_all add: unit_tests generate_sig_def del: replicate_numeral)

end
