(* ===== verification/Tests_Config.thy ===== *)
theory Tests_Config
  imports Tests_Support Config
begin

section \<open>The unit tests of the configuration\<close>

text \<open>
  The test functions of \<open>config.rs\<close>. One of them opens \<open>nodo.conf\<close>: the file of the repository is given here, and what it
  configures is computed.
\<close>

definition config_with_inavlid_format :: test where
  [unit_tests]: "config_with_inavlid_format = assert_err (from_reader ''Hello World!'')"

definition complete_config_file_creates_correctly :: "(string \<Rightarrow> string + string) \<Rightarrow> test" where
  [unit_tests]: "complete_config_file_creates_correctly open_file =
     (case open_file ''nodo.conf'' of Inl e \<Rightarrow> Err e | Inr file \<Rightarrow> assert_ok (from_reader file))"

definition config_with_one_less_arg :: "(string \<Rightarrow> string + string) \<Rightarrow> test" where
  [unit_tests]: "config_with_one_less_arg open_file = assert_err (Config_from open_file [''Bitcoin''])"

definition config_with_one_arg_more :: "(string \<Rightarrow> string + string) \<Rightarrow> test" where
  [unit_tests]: "config_with_one_arg_more open_file =
     assert_err (Config_from open_file [''Bitcoin'', ''/path/nodo.conf'', ''extra_arg''])"

definition config_file_with_incorrect_amount_of_lines :: test where
  [unit_tests]: "config_file_with_incorrect_amount_of_lines =
     (let content = concat (map (\<lambda>l. l @ [CHR 0x0A])
            [''NUMBER_OF_NODES=8'', ''DNS_SEED=prueba'', ''TESTNET_PORT=65536'', ''TESTNET_START_STRING=123456'',
             ''PROTOCOL_VERSION=70015'']) @ ''USER_AGENT=/satoshi/'' in
      assert_err (from_reader content))"

text \<open>The file: its lines, the last of which has no newline.\<close>

definition nodo_conf_lines :: "string list" where
  "nodo_conf_lines =
     [''NUMBER_OF_NODES=8'',
      ''DNS_SEED=seed.testnet.bitcoin.sprovoost.nl'',
      ''# This value should be a boolean, true if you want to connect to the DNS nodes or false in other cases'',
      ''CONNECT_TO_DNS_NODES=true'',
      ''# If you don't want to connect to any specific node, leave this variable empty'',
      ''# In other case, you should write the IP (Ipv4 format) of the node you want to connect to'',
      ''# Ipv4 format: An IPv4 address has the format x.x.x.x, where x is called an octet and must be a decimal value between 0 and 255. '',
      ''# Octets are separated by periods. An IPv4 address must contain three periods and four octets.'',
      ''CUSTOM_NODES_IPS='',
      ''NET_PORT=18333'',
      ''START_STRING=185665799'',
      ''PROTOCOL_VERSION=70015'',
      ''USER_AGENT=/Satoshi:23.0.0/'',
      ''N_THREADS=8'',
      ''CONNECT_TIMEOUT=5'',
      ''# Amount of connection the server will accept'',
      ''MAX_CONNECTIONS=15'',
      ''ERROR_LOG_PATH=error.txt'',
      ''INFO_LOG_PATH=info.txt'',
      ''MESSAGE_LOG_PATH=message.txt'',
      ''BLOCKS_DOWNLOAD_PER_NODE=16'',
      ''DATE_FIRST_BLOCK_TO_DOWNLOAD=2023-04-10 00:00:00'',
      ''DATE_FORMAT=%Y-%m-%d %H:%M:%S'',
      ''# In case you want to modify this value, you should delete the headers .csv file and run the program again'',
      ''AMOUNT_OF_HEADERS_TO_STORE_IN_DISK=2300000'',
      ''# If you want to read the headers from the disk, set this value to true. If you want to download the headers from the network, set this value to false'',
      ''READ_HEADERS_FROM_DISK=true'',
      ''# If you want to download all the blockchain from one single node, set this value to true'',
      ''DOWNLOAD_FULL_BLOCKCHAIN_FROM_SINGLE_NODE=false'',
      ''HEIGHT_FIRST_BLOCK_TO_DOWNLOAD=2428246'',
      ''HEADERS_FILE=first_headers.csv'']"

definition nodo_conf :: string where
  "nodo_conf = concat (map (\<lambda>l. l @ [CHR 0x0A]) nodo_conf_lines) @ ''LOGS_FOLDER=./logs''"

definition nodo_config :: Config where
  "nodo_config =
     \<lparr>number_of_nodes = 8, dns_seed = ''seed.testnet.bitcoin.sprovoost.nl'', connect_to_dns_nodes = True, custom_nodes_ips = [],
      net_port = 18333, cfg_start_string = [0x0b, 0x11, 0x09, 0x07], protocol_version = 70015, user_agent = ''/Satoshi:23.0.0/'',
      n_threads = 8, connect_timeout = 5, max_connections_to_server = 15, error_log_path = ''error.txt'',
      info_log_path = ''info.txt'', message_log_path = ''message.txt'', blocks_download_per_node = 16,
      first_block_date = ''2023-04-10 00:00:00'', date_format = ''%Y-%m-%d %H:%M:%S'',
      headers_in_disk = 2300000, read_headers_from_disk = True, ibd_single_node = False,
      height_first_block_to_download = 2428246, headers_file = ''first_headers.csv'', logs_folder_path = ''./logs''\<rparr>"

subsection \<open>Reading text without surprises\<close>

lemma lines_of_unterminated:
  assumes "\<forall>l \<in> set ls. CHR 0x0A \<notin> set l \<and> strip_cr l = l" and "CHR 0x0A \<notin> set r" and "r \<noteq> []"
  shows "lines_of (concat (map (\<lambda>l. l @ [CHR 0x0A]) ls) @ r) = ls @ [r]"
proof -
  have "split_on CHR 0x0A (concat (map (\<lambda>l. l @ [CHR 0x0A]) ls) @ r) = ls @ [r]"
    using assms by (induction ls) (simp_all add: split_on_append split_on_none)
  moreover have "map strip_cr ls = ls"
    using assms(1) by (induction ls) auto
  ultimately show ?thesis
    using assms(3) by (simp add: lines_of_def Let_def)
qed

text \<open>Characters that take part in no line end and need no decoding.\<close>

definition plain_char :: "char \<Rightarrow> bool" where
  "plain_char c \<longleftrightarrow> 14 \<le> (of_char c :: nat) \<and> (of_char c :: nat) < 128"

lemma plain_text:
  assumes "list_all plain_char s"
  shows "CHR 0x0A \<notin> set s" "strip_cr s = s" "from_utf8 (as_bytes s) = Ok s"
proof -
  have plain: "\<forall>c \<in> set s. plain_char c"
    using assms by (simp add: list_all_iff)
  have "\<not> plain_char CHR 0x0A" "\<not> plain_char CHR 0x0D"
    by (simp_all add: plain_char_def)
  with plain show "CHR 0x0A \<notin> set s" by blast
  have "last s \<noteq> CHR 0x0D" if "s \<noteq> []"
    using plain last_in_set [OF that] \<open>\<not> plain_char CHR 0x0D\<close> by metis
  then show "strip_cr s = s"
    by (auto simp: strip_cr_def)
  have "list_all (\<lambda>b. b < 0x80) (as_bytes s)"
    using plain by (auto simp: as_bytes_def list_all_iff plain_char_def word_less_nat_alt unat_of_nat)
  then show "from_utf8 (as_bytes s) = Ok s"
    by (simp add: from_utf8_def utf8_valid_ascii)
qed

lemma nodo_conf_plain: "list_all (list_all plain_char) nodo_conf_lines"
  by (simp add: nodo_conf_lines_def plain_char_def)

lemma nodo_conf_read: "lines_of nodo_conf = nodo_conf_lines @ [''LOGS_FOLDER=./logs'']"
proof -
  have "\<forall>l \<in> set nodo_conf_lines. CHR 0x0A \<notin> set l \<and> strip_cr l = l"
    using nodo_conf_plain plain_text by (auto simp: list_all_iff [of "list_all plain_char"])
  then show ?thesis
    unfolding nodo_conf_def by (intro lines_of_unterminated) simp_all
qed

subsection \<open>The results\<close>

lemmas number_readers = usize_from_str_def u64_from_str_def u16_from_str_def u8_from_str_def i32_from_str_def bool_from_str_def
  parse_int_def dec_val_def

lemma nodo_config_fields: "nodo_config = initial_config
    \<lparr>number_of_nodes := 8, dns_seed := ''seed.testnet.bitcoin.sprovoost.nl'', connect_to_dns_nodes := True,
     net_port := 18333, cfg_start_string := [0x0b, 0x11, 0x09, 0x07], protocol_version := 70015, user_agent := ''/Satoshi:23.0.0/'',
     n_threads := 8, connect_timeout := 5, max_connections_to_server := 15, error_log_path := ''error.txt'',
     info_log_path := ''info.txt'', message_log_path := ''message.txt'', blocks_download_per_node := 16,
     first_block_date := ''2023-04-10 00:00:00'', date_format := ''%Y-%m-%d %H:%M:%S'',
     headers_in_disk := 2300000, read_headers_from_disk := True, ibd_single_node := False,
     height_first_block_to_download := 2428246, headers_file := ''first_headers.csv'', logs_folder_path := ''./logs''\<rparr>"
  by (simp add: nodo_config_def initial_config_def)

lemma nodo_conf_loads: "from_reader nodo_conf = Ok nodo_config"
  unfolding from_reader_def nodo_conf_read nodo_config_fields
  by (simp add: nodo_conf_lines_def plain_text(3) plain_char_def load_setting_def number_readers check_number_of_attributes_def
      AMOUNT_OF_ATTRIBUTES_def compute)

lemma config_tests:
  "config_with_inavlid_format = Ok ()"
  "config_with_one_less_arg open_file = Ok ()"
  "config_with_one_arg_more open_file = Ok ()"
  "config_file_with_incorrect_amount_of_lines = Ok ()"
proof -
  show "config_with_inavlid_format = Ok ()"
    using lines_of_unterminated [of "[]" "''Hello World!''"]
    by (simp add: unit_tests from_reader_def plain_text(3) plain_char_def strip_cr_def)
  show "config_with_one_less_arg open_file = Ok ()" "config_with_one_arg_more open_file = Ok ()"
    by (simp_all add: unit_tests Config_from_def)
  show "config_file_with_incorrect_amount_of_lines = Ok ()"
    using lines_of_unterminated [of "[''NUMBER_OF_NODES=8'', ''DNS_SEED=prueba'', ''TESTNET_PORT=65536'',
        ''TESTNET_START_STRING=123456'', ''PROTOCOL_VERSION=70015'']" "''USER_AGENT=/satoshi/''"]
    by (simp add: unit_tests from_reader_def plain_text(3) plain_char_def strip_cr_def load_setting_def number_readers)
qed

lemma complete_config_test:
  "open_file ''nodo.conf'' = Inr nodo_conf \<Longrightarrow> complete_config_file_creates_correctly open_file = Ok ()"
  by (simp add: unit_tests nodo_conf_loads)

end
