(* ===== verification/Tests.thy ===== *)
theory Tests
  imports Tests_Transactions Tests_Blocks Tests_Utxo Tests_Messages Tests_Wallet Tests_Config
begin

section \<open>The test suite\<close>

text \<open>
  All unit and integration tests of the sources, as lists, and that they pass. Left out are the two tests of
  \<open>sig_script.rs\<close> that only measure a signature of the library.
\<close>

definition transaction_unit_tests :: "crypto \<Rightarrow> test list" where
  "transaction_unit_tests cr =
     [test_number_200_is_represented_as_0x_c8,
      test_number_505_is_represented_as_0x_fd_f9_01,
      test_number_100000_is_represented_as_0x_fe_a0_86_01_00,
      test_number_5000000000_is_represented_as_0x_ff_00_f2_05_2a_01_00_00_00,
      test_unmarshalling_of_1_byte_compact_size_is_done_correctly,
      test_unmarshalling_of_3_byte_compact_size_is_done_correctly,
      test_unmarshalling_of_5_byte_compact_size_is_done_correctly,
      test_unmarshalling_of_9_byte_compact_size_is_done_correctly,
      test_compact_size_of_value_0x_fd_f9_01_returns_505_when_decoded,
      test_compact_size_of_value_0x_c8_returns_200_when_decoded,
      test_compact_size_of_value_0x_fe_a0_86_01_00_returns_100000_when_decoded,
      test_compact_size_of_value_0x_ff_00_f2_05_2a_01_00_00_00_returns_5000000000_when_decoded,
      test_unmarshalling_outpoint_yields_expected_tx_id,
      test_unmarshalling_outpoint_yields_expected_index,
      test_marshalling_outpoint_yields_expected_tx_id,
      test_marshalling_outpoint_yields_expected_index,
      test_outpoint_corresponding_to_null_tx_id_coinbase_returns_true,
      test_outpoint_corresponding_to_index_0xffffffff_coinbase_returns_true,
      test_unmarshalling_invalid_tx_in,
      test_unmarshalling_tx_in_returns_expected_outpoint,
      test_unmarshalling_tx_in_returns_expected_script_bytes,
      test_unmarshalling_tx_in_returns_expected_signature_script,
      test_unmarshalling_tx_in_returns_expected_sequence,
      test_unmarshalling_tx_in_returns_expected_offset,
      test_unmarshalling_2_tx_in_returns_expected_offset,
      test_marshalling_tx_in_serializes_previous_outpoint_correctly,
      test_marshalling_tx_in_serializes_script_bytes_correctly,
      test_marshalling_tx_in_serializes_signature_script_correctly,
      test_marshalling_tx_in_serializes_sequence_correctly,
      test_unmarshalling_invalid_tx_out,
      test_unmarshalling_tx_out_with_valid_value_and_empty_pk_script,
      test_unmarshalling_tx_out_with_valid_value_and_nonempty_pk_script,
      test_unmarshalling_with_2_tx_outs_returns_expected_offset,
      test_unmarshalling_with_less_bytes_than_expected_returns_error,
      test_tx_out_marshalling_returns_expected_value,
      test_tx_out_marshalling_returns_expected_pk_script_bytes,
      test_tx_out_marshalling_returns_expected_pk_script,
      test_transaction_hashes_correctly cr,
      test_unmarshalling_invalid_transaction,
      test_unmarshalling_transaction_with_coinbase_and_more_inputs_returns_error,
      test_unmarshalling_transaction_returns_expected_version,
      test_unmarshalling_transaction_returns_expected_txin_count,
      test_unmarshalling_transaction_returns_expected_txin,
      test_unmarshalling_transaction_returns_expected_txout_count,
      test_unmarshalling_transaction_returns_expected_txout,
      test_unmarshalling_transaction_returns_expected_lock_time,
      test_unmarshalling_transaction_returns_expected_txin_size,
      test_unmarshalling_transaction_returns_expected_txin_vector,
      test_unmarshalling_transaction_returns_expected_txout_vector,
      test_unmarshalling_two_transactions_returns_expected_length]"

definition block_unit_tests :: "crypto \<Rightarrow> test list" where
  "block_unit_tests cr =
     [test_deserialization_of_header_generates_expected_version,
      test_deserialization_of_header_generates_expected_previous_block_header_hash,
      test_deserialization_of_header_generates_expected_merkle_root_hash,
      test_deserialization_of_header_generates_expected_time,
      test_deserialization_of_header_generates_expected_nbits,
      test_deserialization_of_header_generates_expected_nonce,
      test_successful_serialization_of_version_field,
      test_successful_serialization_of_previous_block_header_hash_field,
      test_successful_serialization_of_merkle_root_hash_field,
      test_successful_serialization_of_time_field,
      test_successful_serialization_of_nbits_field,
      test_successful_serialization_of_nonce_field,
      test_header_is_hashed_correctly cr,
      test_validate_valid_block_returns_true cr,
      test_validate_invalid_block_returns_false cr,
      merkle_root_is_generated_correctly_with_testnet_transactions cr,
      merkle_proof_of_inclusion_is_generated_correctly_with_tx_at_odd_position cr,
      merkle_proof_of_inclusion_is_generated_correctly_with_tx_at_even_position cr,
      merkle_proof_of_inclusion_returns_none_when_tx_to_search_is_not_found cr,
      test_unmarshaling_block_generates_expected_block_header,
      test_unmarshaling_block_generates_expected_txn_count,
      test_unmarshaling_block_generates_expected_transaction,
      test_merkle_root_of_block_with_2_transactions_is_generated_correctly cr,
      test_merkle_root_of_block_with_3_transactions_is_generated_correctly cr,
      test_correct_generation_of_merkle_root_hash_of_mainnet_block cr,
      test_block_with_2_transactions_has_expected_utxo_list_length cr]"

definition message_unit_tests :: "crypto \<Rightarrow> test list" where
  "message_unit_tests cr =
     [get_version_from_payload_bytes_returns_the_correct_i32,
      get_services_from_payload_bytes_returns_the_correct_u64,
      get_timestamp_from_payload_bytes_returns_the_correct_i64,
      get_addr_recv_service_from_payload_bytes_returns_the_correct_u64,
      get_addr_recv_ip_from_payload_bytes_returns_the_correct_16_bytes_of_ip_direction,
      get_addr_recv_port_from_payload_bytes_returns_the_correct_u16,
      get_addr_trans_service_from_payload_bytes_returns_the_correct_u64,
      get_addr_trans_ip_from_payload_bytes_returns_the_correct_16_bytes_of_ip_direction,
      get_addr_trans_port_from_payload_bytes_returns_the_correct_u16,
      get_nonce_from_payload_bytes_returns_the_correct_u64,
      get_user_agent_bytes_from_payload_bytes_returns_the_correct_compactsizeuint,
      get_user_agent_from_payload_bytes_returns_the_correct_string,
      get_start_height_from_payload_bytes_returns_the_correct_i32,
      get_relay_from_payload_bytes_returns_the_correct_bool,
      version_payload_to_le_bytes_returns_the_correct_bytes,
      get_ipv6_address_ip_returns_a_correct_vector_of_16_bytes_representing_ipv6_address_ip,
      test_deserialization_of_empty_headers_message_does_not_yield_block_headers,
      test_deserialization_of_headers_message_returns_1_block_header,
      test_deserialization_of_headers_message_returns_2_block_headers,
      test_deserialization_of_headers_message_returns_correct_block_header cr,
      test_deserialization_of_headers_message_with_515_block_headers cr,
      header_message_bytes_from_verack_message_unmarshalling_correctly,
      header_message_bytes_from_version_message_unmarshalling_correctly,
      error_when_command_name_bytes_cannot_be_represented_as_string,
      header_message_of_verack_message_marshalling_correctly_to_bytes,
      header_message_of_version_message_marshalling_correctly_to_bytes,
      payload_with_one_inventory_is_created_correctly,
      payload_with_two_inventory_is_created_correctly,
      get_data_message_with_one_inventory_is_created_with_correct_command_name cr,
      getheaders_payload_returns_the_correct_bytes_when_marshalling_to_bytes_with_one_locator_hash,
      getheaders_payload_returns_the_correct_bytes_when_marshalling_to_bytes_with_more_than_one_locator_hashes,
      getheaders_payload_returns_the_correct_bytes_when_marshalling_to_bytes_with_more_than_one_locator_hashes_and_stop_hash,
      get_header_command_name_as_str_returns_correct_headers_command_name,
      get_header_command_name_as_str_returns_correct_tx_command_name]"

definition wallet_unit_tests :: "crypto \<Rightarrow> test list" where
  "wallet_unit_tests cr =
     [test_decoding_wif_compressed_correctly_generates_private_key cr,
      test_decoding_wif_uncompressed_correctly_generates_private_key cr,
      test_address_generation_is_correct cr,
      test_valid_address_decoding_returns_ok cr,
      test_address_decoding_generates_expected_pubkey cr,
      test_pub_key_hash_is_generated_with_correct_length cr,
      test_get_pubkey_hash_with_invalid_address_returns_error cr,
      test_account_generation_with_compressed_wif_is_successful cr,
      test_account_generation_with_uncompressed_wif_is_successful cr,
      test_account_generation_with_incorrect_wif_fails cr,
      test_user_returns_expected_compressed_public_key cr,
      test_transaction_to_invalid_address_fails cr,
      test_pk_script_is_generated_with_correct_length cr,
      test_pk_script_is_generated_with_correct_content cr,
      test_p2pkh_script_is_validated_correctly cr,
      test_signature_is_generated_correctly cr]"

definition config_unit_tests :: "(string \<Rightarrow> string + string) \<Rightarrow> test list" where
  "config_unit_tests open_file =
     [config_with_inavlid_format,
      complete_config_file_creates_correctly open_file,
      config_with_one_less_arg open_file,
      config_with_one_arg_more open_file,
      config_file_with_incorrect_amount_of_lines]"

definition passes :: "test \<Rightarrow> bool" where
  "passes t \<longleftrightarrow> t = Ok ()"

definition test_environment :: "crypto \<Rightarrow> (string \<Rightarrow> string + string) \<Rightarrow> bool" where
  "test_environment cr open_file \<longleftrightarrow>
     real_hashes cr \<and> known_keys cr \<and> sign_verifies cr \<and>
     (\<exists>sig. ecdsa_sign cr tested_key (replicate 32 123) = Inr sig \<and> length sig \<le> 72) \<and>
     open_file ''nodo.conf'' = Inr nodo_conf"

lemma transaction_tests_pass: "list_all passes (transaction_unit_tests cr)"
  by (simp add: transaction_unit_tests_def passes_def compact_size_tests outpoint_tests txin_tests txout_tests
      txout_tests_written tx_tests two_txs_test coinbase_test)

lemma block_tests_pass:
  assumes "sha256 cr = sha_256"
  shows "list_all passes (block_unit_tests cr)"
  by (simp add: block_unit_tests_def passes_def header_tests header_serialization_tests header_hash_test
      validation_tests [OF assms] testnet_root_test [OF assms] inclusion_tests block_reading_tests merkle_root_tests
      mainnet_root_test [OF assms] utxo_list_length_test [OF assms])

lemma message_tests_pass: "list_all passes (message_unit_tests cr)"
  by (simp add: message_unit_tests_def passes_def version_payload_tests version_payload_written_tests headers_message_tests
      correct_header_test headers_515_test message_header_tests payload_tests getdata_name_test getheaders_payload_tests
      command_name_tests)

lemma wallet_tests_pass:
  assumes "real_hashes cr" and "known_keys cr" and "sign_verifies cr"
    and "ecdsa_sign cr tested_key (replicate 32 123) = Inr sig" and "length sig \<le> 72"
  shows "list_all passes (wallet_unit_tests cr)"
  by (simp add: wallet_unit_tests_def passes_def decoding_tests [OF assms(1)] key_tests [OF assms(1,2)]
      incorrect_wif_test [OF assms(1)] account_tests [OF assms(1,2)] script_tests [OF assms(1)]
      signature_tests(1) [OF assms(1,2,4,5)] signature_tests(2) [OF assms(1,2,4,5,3)])

lemma config_tests_pass:
  "open_file ''nodo.conf'' = Inr nodo_conf \<Longrightarrow> list_all passes (config_unit_tests open_file)"
  by (simp add: config_unit_tests_def passes_def config_tests complete_config_test)


definition signing_crypto :: crypto where
  "signing_crypto = known_crypto\<lparr>ecdsa_sign := (\<lambda>sk m. Inr (take 70 (sk @ m))), ecdsa_verify := (\<lambda>pk m sig. Inr True)\<rparr>"

lemma signing_environment: "test_environment signing_crypto (\<lambda>path. Inr nodo_conf)"
  using known_crypto_laws
  by (simp add: test_environment_def signing_crypto_def real_hashes_def known_keys_def hash_160_def sign_verifies_def)


end
