(* ===== verification/Spec2Isabelle.thy ===== *)
theory Spec2Isabelle
  imports Startup Interface Settlement Connect Announce Timing Tests
begin

text \<open>
  A verification library for the Bitcoin testnet node and wallet in Rust under \<open>src/\<close>.

  \<^bold>\<open>The program.\<close> It reads a configuration file, connects to peers by the version handshake, downloads the
  headers and blocks of the chain, and then listens to the peers while the user works with a wallet,
  through a graphical interface or at the terminal. All threads share the headers, the blocks, the set
  of unspent outputs (UTXO), the accounts and the list of connections.

  \<^bold>\<open>The theories, from the bottom up, with the files they model.\<close>
  \<^item> Prelude, Codec: results (\<open>Ok\<close>, \<open>Err\<close>, \<open>Panic\<close>), list access that panics, little-endian words, checked
    signed arithmetic; the locales of a codec (\<open>codec\<close>, \<open>exact_codec\<close>), interpreted by every wire format.
  \<^item> Text, Config: UTF-8 text, parsing and printing of numbers; \<open>config.rs\<close>, \<open>custom_errors.rs\<close>.
  \<^item> Compact_Size, Tx_Parts, Transaction, Block_Header, Merkle, Hex, Block: \<open>compact_size_uint.rs\<close>,
    \<open>transactions/\<close>, \<open>blocks/\<close>: the data, its wire format, hashes, validation, inclusion proofs.
  \<^item> Address, Utxo, Account: \<open>address_decoder.rs\<close>, the scripts, \<open>utxo_tuple.rs\<close>, \<open>account.rs\<close>; the locale
    \<open>utxo_store\<close> states what spending and creating outputs promise.
  \<^item> Message_Header, Messages, Version: \<open>messages/\<close>: framing, the messages and the version payload.
  \<^item> Handlers, Node_State, Listener: \<open>handler/\<close>, \<open>blockchain.rs\<close>, \<open>node_data_pointers.rs\<close>: what a message of a
    peer does to the shared data, and the loop that reads messages.
  \<^item> Ledger: the abstract specification: a ledger of headers, unspent outputs and the transactions of each
    account, whose events are a block that is mined, a transaction that is noted, a payment and a new account;
    the locales \<open>contract\<close> (a step keeps an invariant and guarantees a relation between the states before
    and after) and \<open>refinement\<close> (a step is a run of abstract events), the second a case of the first.
  \<^item> Wallet, Program: \<open>node.rs\<close>, \<open>wallet.rs\<close>, \<open>wallet_event.rs\<close>; the whole running program as the step
    relation \<open>program_step\<close>, an interpretation of \<open>contract\<close> and of \<open>refinement\<close> by the ledger.
  \<^item> Remote, Handshake, Server: sockets, \<open>network.rs\<close>, \<open>handshake.rs\<close>, \<open>server.rs\<close>.
  \<^item> Download, Headers_Download, Headers_Facts, Blocks_Download, Ibd, Ibd_Facts, Ibd_Properties:
    \<open>blockchain_download/\<close>: actions on the shared data of the download, the downloads of headers and of
    blocks, both modes of the initial download; the threads are the moves \<open>ibd_move\<close>, a second
    interpretation of \<open>contract\<close>.
  \<^item> Payment, Settlement, Exchange, Connect, Sync, Announce, Timing: components at work together, over the definitions above:
    what the accounts hold after a block with a payment in it; two nodes whose listening loops take turns on
    one connection (\<open>link_run\<close>), with the locale \<open>conversation\<close> of an exchange that goes through stages,
    interpreted on a payment and on a block that is announced; the handshake of a node that dials with that
    of the node that accepts; a node that downloads its chain from another node that listens.
  \<^item> Terminal, Interface, Log: \<open>terminal_ui.rs\<close>, \<open>gtk/\<close>, \<open>logwriter/\<close>.
  \<^item> Startup: \<open>main.rs\<close>, which puts the stages together.
  \<^item> Sha256, Base58, Known_Answers: SHA-256 and base 58 themselves, as an instance of the parameter \<open>crypto\<close>, with rules
    that compute a hash in the logic (a word is the list of its bits), and the code's constants for the first
    block checked with them.
  \<^item> Tests_Support, Tests_Transactions, Tests_Blocks, Tests_Utxo, Tests_Messages, Tests_Wallet, Tests_Config, Tests:
    the test modules of the sources and \<open>tests/block_test.rs\<close>; each test function is a definition that calls the
    model as the test calls the code, and panics where an assertion fails.

  \<^bold>\<open>How code becomes definitions.\<close> A struct is a record, an enum a datatype, a machine integer a word, a
  \<open>String\<close> its list of UTF-8 code units, a \<open>HashMap\<close> a map, a \<open>Vec\<close> a list. A function that can fail gives
  \<open>Err\<close>; an index out of range, a failed \<open>unwrap\<close> or \<open>expect\<close>, or an overflow gives \<open>Panic\<close> (arithmetic
  is that of a build with overflow checks). Functions that change shared data take and return it. A
  channel is the list of what has been sent. Threads that interleave are moves on a common state, and a
  schedule is a list that names who moves next; a property holds for every schedule.

  \<^bold>\<open>What the lemmas show.\<close> Wire formats: what is written reads back, and what is read writes back to the
  same bytes. Hashes and trees: the two Merkle roots agree, inclusion proofs are right, validation
  accepts exactly the headers and blocks with proof of work and matching root. UTXO set and accounts: a
  block applies its transactions to an abstract map from outpoints to outputs; a payment conserves
  value, is announced, reaches the receiver's node under every schedule that is long enough, and when
  it is in a block the balances move by what it says; a block that is announced is fetched and taken in.
  Refinement: every run of the program is a run of
  the ledger, whose events account for all headers, outputs and transactions; the balances shown are
  those of the blocks received since the start. Shared state: the invariant \<open>node_ok\<close> (a well-formed
  set, valid blocks stored under their hash, accounts in agreement with the set) and the guarantee
  \<open>node_grows\<close>, from the arguments of the program through every interleaving of its threads. Start: the
  handshake collects each connection once, the downloads store what an honest peer serves and lose no
  request, and have no infinite run; a node that is connected to another node of this program ends with
  its headers, index of heights, blocks and unspent outputs. With several nodes the outcome of the
  download depends on timing, also when all of them serve what they are asked for. Interfaces: a
  terminal session keeps the invariant and ends exactly by its command, the exchange between the
  graphical interface and the node settles, and nothing logged is lost. Conformance: the test suite of the
  sources passes in the model, with real hashes and addresses, and the configuration file of the repository is
  read to the values it gives; the first header that the code starts with is not that of the test network.

  \<^bold>\<open>Recursion and bounds.\<close> Loops over input are structural, or end by a measure: the unread bytes of a
  connection, the number of nodes left, the size of the list still to be cut. The moves of the download
  go down in the lexicographic order \<open>ibd_order\<close>. Recursions that may not return are partial functions
  whose value is then \<open>None\<close>: the Merkle root of no transactions, the loop of the terminal at the end of
  its input. Two bounds are hypotheses: a chain of fewer than \<open>2 ^ 26\<close> further headers (so that a request fits
  in a message) and fewer than \<open>2 ^ 20\<close> outputs of an account (so that a payment does). A handshake or download whose
  schedule ends before it has returned is \<open>None\<close> too. No fuel is used.

  \<^bold>\<open>Parameters.\<close> SHA-256, RIPEMD-160, base 58 and the elliptic curve (record \<open>crypto\<close>; the laws used are
  \<open>digest_lengths\<close>, the base-58 inverse, that a public key has its length, and for one property that a
  signature fits in one push), the iteration order of a hash map, the file system, the clock and time zone, random numbers, name resolution, the parsers of
  dates and of IPv6 addresses. Each property with such a hypothesis has a witness at \<open>sample_crypto\<close>, or, where the hypothesis
  is that the hash function is SHA-256, at \<open>standard_crypto\<close>. The tests that need more of the elliptic curve and of
  RIPEMD-160 name it: the public keys of two private keys and one hash (\<open>known_keys\<close>).

  \<^bold>\<open>Not modelled.\<close>
  \<^item> Locks: a move or step of a thread is atomic, and no lock is poisoned.
  \<^item> What a panicking thread leaves behind: a panic ends the model of the operation, without a state.
  \<^item> GTK: widgets, main loop, application object (\<open>run_ui\<close>); an event handler or callback is the list of
    the calls it makes.
  \<^item> Timing: timeouts are events of the model, not durations.
  \<^item> The texts of errors of the standard library are one representative text per error, and the debug
    format of an error inside a message is its display text.
  \<^item> The write of a \<open>pong\<close> while a message is awaited in the handshake or the download always succeeds.
  \<^item> Download threads of a batch in which another thread failed: they are not joined by the code, and
    the model does not follow them further.
  \<^item> Chunk sizes are computed by the code in floating point, which is exact for lengths below \<open>2 ^ 26\<close>.
  \<^item> \<open>lib.rs\<close>, which only declares modules.
  \<^item> The elliptic curve itself: two tests of \<open>sig_script.rs\<close> measure a signature of the library, and are shown to pass
    exactly when it has the length they expect.
\<close>

end
